(* ===== verification/Prelude.thy ===== *)
theory Prelude
  imports Main "HOL-Library.AList" "HOL-Library.Char_ord" "HOL-Library.List_Lexorder"
begin

text \<open>
  The prelude of the development: the result type of code that throws, the operations of the
  JavaScript standard library the gateway uses on strings, numbers and insertion-ordered maps,
  and the generic lemmas the component theories share.

  A string is the list of its UTF-8 bytes. Everything the code decides on strings (prefixes,
  suffixes, the position of an ASCII separator, ASCII character classes, byte lengths) is the
  same on the bytes as on the UTF-16 units. A \<open>bigint\<close> and a \<open>number\<close> that only
  holds integers are \<open>int\<close> or \<open>nat\<close>.
\<close>

named_theorems err_simps \<open>results of code that throws\<close>
named_theorems str_simps \<open>operations on strings\<close>
named_theorems store_simps \<open>reads after writes of the gateway store\<close>

section \<open>Code that throws\<close>

text \<open>
  The error classes of the code. The message of an error is abbreviated to a tag that names
  the throw; no decision of the code depends on the text, except that it is copied into
  \<open>lastError\<close> fields and responses.
\<close>

datatype js_error =
    GenericError string
  | SourceMismatchError string
  | ReplayRefusalError string
  | BodyError string nat

type_synonym 'a result = "js_error + 'a"

fun error_text :: "js_error \<Rightarrow> string" where
  "error_text (GenericError m) = m"
| "error_text (SourceMismatchError m) = m"
| "error_text (ReplayRefusalError m) = m"
| "error_text (BodyError m _) = m"

definition bindE :: "'e + 'a \<Rightarrow> ('a \<Rightarrow> 'e + 'b) \<Rightarrow> 'e + 'b" where
  "bindE m f = (case m of Inl e \<Rightarrow> Inl e | Inr x \<Rightarrow> f x)"

text \<open>\<open>throwIf c e\<close> is \<open>if (c) throw e\<close>.\<close>

definition throwIf :: "bool \<Rightarrow> 'e \<Rightarrow> 'e + unit" where
  "throwIf c e = (if c then Inl e else Inr ())"

lemma bindE_Inl [simp]: "bindE (Inl e) f = Inl e"
  by (simp add: bindE_def)

lemma bindE_Inr [simp]: "bindE (Inr x) f = f x"
  by (simp add: bindE_def)

lemma bindE_eq_Inr [err_simps]: "bindE m f = Inr b \<longleftrightarrow> (\<exists>a. m = Inr a \<and> f a = Inr b)"
  by (cases m) auto

lemma bindE_eq_Inl [err_simps]:
  "bindE m f = Inl e \<longleftrightarrow> m = Inl e \<or> (\<exists>a. m = Inr a \<and> f a = Inl e)"
  by (cases m) auto

lemma throwIf_eq_Inr [err_simps]: "throwIf c e = Inr u \<longleftrightarrow> \<not> c"
  by (simp add: throwIf_def)

lemma throwIf_eq_Inl [err_simps]: "throwIf c e = Inl e' \<longleftrightarrow> c \<and> e' = e"
  by (auto simp: throwIf_def)

lemma throwIf_simps [simp]: "throwIf True e = Inl e" "throwIf False e = Inr ()"
  by (simp_all add: throwIf_def)

text \<open>\<open>xs.map(f)\<close> where \<open>f\<close> may throw.\<close>

fun mapE :: "('a \<Rightarrow> 'e + 'b) \<Rightarrow> 'a list \<Rightarrow> 'e + 'b list" where
  "mapE f [] = Inr []"
| "mapE f (x # xs) = bindE (f x) (\<lambda>y. bindE (mapE f xs) (\<lambda>ys. Inr (y # ys)))"

lemma mapE_Inr: "mapE f xs = Inr ys \<longleftrightarrow> list_all2 (\<lambda>x y. f x = Inr y) xs ys"
  by (induction xs arbitrary: ys) (auto simp: err_simps list_all2_Cons1)

text \<open>\<open>isOk\<close>: the code returned.\<close>

definition isOk :: "'e + 'a \<Rightarrow> bool" where
  "isOk r = (case r of Inl _ \<Rightarrow> False | Inr _ \<Rightarrow> True)"

lemma isOk_simps [simp]: "isOk (Inl e) = False" "isOk (Inr x) = True"
  by (simp_all add: isOk_def)

lemma isOk_iff: "isOk r \<longleftrightarrow> (\<exists>x. r = Inr x)"
  by (cases r) auto

section \<open>Strings\<close>

definition startsWith :: "string \<Rightarrow> string \<Rightarrow> bool" where
  "startsWith s p \<longleftrightarrow> take (length p) s = p"

definition endsWith :: "string \<Rightarrow> string \<Rightarrow> bool" where
  "endsWith s p \<longleftrightarrow> length p \<le> length s \<and> drop (length s - length p) s = p"

text \<open>\<open>s.slice(0, -n)\<close> for \<open>n > 0\<close>.\<close>

definition sliceEnd :: "string \<Rightarrow> nat \<Rightarrow> string" where
  "sliceEnd s n = take (length s - n) s"

text \<open>\<open>s.indexOf(c)\<close> for a single character: \<open>None\<close> is the -1 of the code.\<close>

fun indexOf :: "string \<Rightarrow> char \<Rightarrow> nat option" where
  "indexOf [] c = None"
| "indexOf (x # xs) c = (if x = c then Some 0 else map_option Suc (indexOf xs c))"

lemma startsWith_append [simp]: "startsWith (p @ s) p"
  by (simp add: startsWith_def)

lemma startsWith_iff: "startsWith s p \<longleftrightarrow> (\<exists>t. s = p @ t)"
  unfolding startsWith_def by (metis append_eq_conv_conj append_take_drop_id)

lemma endsWith_append [simp]: "endsWith (s @ p) p"
  by (simp add: endsWith_def)

lemma endsWith_iff: "endsWith s p \<longleftrightarrow> (\<exists>t. s = t @ p)"
  unfolding endsWith_def by (metis append_eq_conv_conj append_take_drop_id
    le_add2 length_append diff_add_inverse2)

lemma sliceEnd_append [simp]: "sliceEnd (s @ p) (length p) = s"
  by (simp add: sliceEnd_def)

lemma endsWith_sliceEnd: "endsWith s p \<Longrightarrow> sliceEnd s (length p) @ p = s"
  by (auto simp: endsWith_iff)

lemma indexOf_None_iff: "indexOf s c = None \<longleftrightarrow> c \<notin> set s"
  by (induction s) auto

lemma indexOf_append: "c \<notin> set s \<Longrightarrow> indexOf (s @ c # t) c = Some (length s)"
  by (induction s) auto

lemma indexOf_Some: "indexOf s c = Some i \<Longrightarrow> i < length s \<and> s ! i = c \<and> c \<notin> set (take i s)"
  by (induction s arbitrary: i) (auto split: if_splits simp: nth_Cons')

lemma indexOf_SomeD:
  assumes "indexOf s c = Some i"
  shows "s = take i s @ c # drop (Suc i) s"
  using indexOf_Some [OF assms] by (metis id_take_nth_drop)

text \<open>Two strings that end in words of equal length are equal iff the parts are.\<close>

lemma append_suffix_inj: "length p = length q \<Longrightarrow> s @ p = t @ q \<longleftrightarrow> s = t \<and> p = q"
  by (rule append_eq_append_conv) auto

definition isSpace :: "char \<Rightarrow> bool" where
  "isSpace c \<longleftrightarrow> (let n = of_char c :: nat in n = 32 \<or> (9 \<le> n \<and> n \<le> 13))"

definition trim :: "string \<Rightarrow> string" where
  "trim s = rev (dropWhile isSpace (rev (dropWhile isSpace s)))"

fun splitOn :: "char \<Rightarrow> string \<Rightarrow> string list" where
  "splitOn c [] = [[]]"
| "splitOn c (x # xs) =
     (if x = c then [] # splitOn c xs
      else (case splitOn c xs of [] \<Rightarrow> [[x]] | w # ws \<Rightarrow> (x # w) # ws))"

fun joinWith :: "string \<Rightarrow> string list \<Rightarrow> string" where
  "joinWith sep [] = []"
| "joinWith sep [w] = w"
| "joinWith sep (w # v # ws) = w @ sep @ joinWith sep (v # ws)"

lemma splitOn_not_Nil [simp]: "splitOn c s \<noteq> []"
  by (induction s) (auto split: list.splits)

lemma splitOn_fresh: "c \<notin> set w \<Longrightarrow> splitOn c w = [w]"
  by (induction w) auto

lemma splitOn_append: "c \<notin> set w \<Longrightarrow> splitOn c (w @ c # s) = w # splitOn c s"
  by (induction w) auto

lemma splitOn_joinWith:
  "ws \<noteq> [] \<Longrightarrow> \<forall>w \<in> set ws. c \<notin> set w \<Longrightarrow> splitOn c (joinWith [c] ws) = ws"
  by (induction "[c]" ws rule: joinWith.induct) (auto simp: splitOn_fresh splitOn_append)

lemma trim_id: "s = [] \<or> (\<not> isSpace (hd s) \<and> \<not> isSpace (last s)) \<Longrightarrow> trim s = s"
proof (cases s rule: rev_cases)
  case Nil
  then show ?thesis by (simp add: trim_def)
next
  case (snoc ys y)
  assume "s = [] \<or> (\<not> isSpace (hd s) \<and> \<not> isSpace (last s))"
  with snoc have h: "\<not> isSpace (hd s)" and l: "\<not> isSpace y" by auto
  have "dropWhile isSpace s = s" using h by (cases s) auto
  then show ?thesis using l snoc by (simp add: trim_def)
qed

section \<open>Decimal numbers\<close>

definition digitChar :: "nat \<Rightarrow> char" where
  "digitChar d = char_of (48 + d)"

definition isDigit :: "char \<Rightarrow> bool" where
  "isDigit c \<longleftrightarrow> (let n = of_char c :: nat in 48 \<le> n \<and> n \<le> 57)"

definition digitVal :: "char \<Rightarrow> nat" where
  "digitVal c = of_char c - 48"

text \<open>\<open>toString()\<close> of a non-negative and of any integer.\<close>

fun decNat :: "nat \<Rightarrow> string" where
  "decNat n = (if n < 10 then [digitChar n] else decNat (n div 10) @ [digitChar (n mod 10)])"

declare decNat.simps [simp del]

definition decInt :: "int \<Rightarrow> string" where
  "decInt i = (if i < 0 then ''-'' @ decNat (nat (- i)) else decNat (nat i))"

text \<open>The value of a string of digits.\<close>

definition undec :: "string \<Rightarrow> nat" where
  "undec s = foldl (\<lambda>a c. 10 * a + digitVal c) 0 s"

text \<open>\<open>/^\d+$/\<close>.\<close>

definition allDigits :: "string \<Rightarrow> bool" where
  "allDigits s \<longleftrightarrow> s \<noteq> [] \<and> list_all isDigit s"

lemma digitVal_digitChar [simp]: "d < 10 \<Longrightarrow> digitVal (digitChar d) = d"
  by (simp add: digitVal_def digitChar_def)

lemma isDigit_digitChar [simp]: "d < 10 \<Longrightarrow> isDigit (digitChar d)"
  by (simp add: isDigit_def digitChar_def)

lemma digitChar_digitVal: "isDigit c \<Longrightarrow> digitChar (digitVal c) = c"
  by (auto simp: isDigit_def digitChar_def digitVal_def Let_def)

lemma digitChar_0: "digitChar 0 = CHR ''0''"
  by code_simp

lemma digitVal_less: "isDigit c \<Longrightarrow> digitVal c < 10"
  by (auto simp: isDigit_def digitVal_def Let_def)

lemma decNat_not_Nil [simp]: "decNat n \<noteq> []"
  by (subst decNat.simps) simp

lemma allDigits_decNat [simp]: "allDigits (decNat n)"
proof (induction n rule: decNat.induct)
  case (1 n)
  then show ?case by (subst decNat.simps) (auto simp: allDigits_def)
qed

lemma isDigit_decNat: "c \<in> set (decNat n) \<Longrightarrow> isDigit c"
  using allDigits_decNat [of n] by (auto simp: allDigits_def list_all_iff)

lemma undec_snoc [simp]: "undec (s @ [c]) = 10 * undec s + digitVal c"
  by (simp add: undec_def)

lemma undec_single [simp]: "undec [c] = digitVal c"
  by (simp add: undec_def)

lemma undec_Nil [simp]: "undec [] = 0"
  by (simp add: undec_def)

lemma undec_decNat [simp]: "undec (decNat n) = n"
proof (induction n rule: decNat.induct)
  case (1 n)
  then show ?case by (subst decNat.simps) auto
qed

lemma decNat_inj [simp]: "decNat m = decNat n \<longleftrightarrow> m = n"
  by (metis undec_decNat)

lemma minus_notin_decNat: "CHR ''-'' \<notin> set (decNat n)"
  using isDigit_decNat [of "CHR ''-''" n] by (auto simp: isDigit_def)

lemma decInt_inj [simp]: "decInt i = decInt j \<longleftrightarrow> i = j"
proof -
  have "\<not> (''-'' @ decNat m = decNat n)" for m n
    using minus_notin_decNat [of n] by (metis append_Cons list.set_intros(1))
  then show ?thesis by (auto simp: decInt_def dest: sym)
qed

text \<open>A separator that is no digit and no sign does not occur in a printed number.\<close>

lemma notin_decNat [simp]: "\<not> isDigit c \<Longrightarrow> c \<notin> set (decNat n)"
  using isDigit_decNat by blast

lemma colon_notin_decNat [simp]: "CHR '':'' \<notin> set (decNat n)"
  by (rule notin_decNat) (simp add: isDigit_def)

text \<open>The canonical decimal strings are exactly the printed ones.\<close>

lemma decNat_undec:
  "allDigits s \<Longrightarrow> (hd s \<noteq> CHR ''0'' \<or> s = ''0'') \<Longrightarrow> decNat (undec s) = s"
proof (induction s rule: rev_induct)
  case Nil
  then show ?case by (simp add: allDigits_def)
next
  case (snoc c s)
  from snoc.prems have c: "isDigit c" by (simp add: allDigits_def)
  note lt = digitVal_less [OF c] and cc = digitChar_digitVal [OF c]
  show ?case
  proof (cases "s = []")
    case True
    then show ?thesis using lt cc by (subst decNat.simps) simp
  next
    case False
    with snoc.prems have d: "allDigits s" and h: "hd s \<noteq> CHR ''0''"
      by (auto simp: allDigits_def)
    then have ih: "decNat (undec s) = s" using snoc.IH by simp
    have "undec s \<noteq> 0"
    proof
      assume "undec s = 0"
      with ih have "s = decNat 0" by simp
      then have "hd s = CHR ''0''" by (simp add: decNat.simps digitChar_0)
      with h show False by simp
    qed
    then show ?thesis using lt cc ih by (subst decNat.simps) simp
  qed
qed

text \<open>
  \<open>BigInt(s)\<close> on a string: surrounding white space is ignored, the empty string is 0, a
  \<open>0x\<close>, \<open>0o\<close> or \<open>0b\<close> prefix selects the radix, a sign is allowed on decimals
  only. \<open>None\<close> is the \<open>SyntaxError\<close>.
\<close>

definition radixDigit :: "char \<Rightarrow> nat option" where
  "radixDigit c = (let n = of_char c :: nat in
     if 48 \<le> n \<and> n \<le> 57 then Some (n - 48)
     else if 65 \<le> n \<and> n \<le> 90 then Some (n - 55)
     else if 97 \<le> n \<and> n \<le> 122 then Some (n - 87) else None)"

fun radixValue :: "nat \<Rightarrow> nat \<Rightarrow> string \<Rightarrow> nat option" where
  "radixValue r a [] = Some a"
| "radixValue r a (c # cs) =
     (case radixDigit c of None \<Rightarrow> None
      | Some d \<Rightarrow> if d < r then radixValue r (r * a + d) cs else None)"

definition radixNumber :: "nat \<Rightarrow> string \<Rightarrow> int option" where
  "radixNumber r s = (if s = [] then None else map_option int (radixValue r 0 s))"

fun bigintDigits :: "string \<Rightarrow> int option" where
  "bigintDigits [] = Some 0"
| "bigintDigits (c # cs) =
     (if c = CHR ''-'' then map_option uminus (radixNumber 10 cs)
      else if c = CHR ''+'' then radixNumber 10 cs
      else (case cs of
          [] \<Rightarrow> radixNumber 10 (c # cs)
        | p # ds \<Rightarrow>
            if c = CHR ''0'' \<and> p \<in> {CHR ''x'', CHR ''X''} then radixNumber 16 ds
            else if c = CHR ''0'' \<and> p \<in> {CHR ''o'', CHR ''O''} then radixNumber 8 ds
            else if c = CHR ''0'' \<and> p \<in> {CHR ''b'', CHR ''B''} then radixNumber 2 ds
            else radixNumber 10 (c # cs)))"

definition bigintOf :: "string \<Rightarrow> int option" where
  "bigintOf s = bigintDigits (trim s)"

lemma radixValue_digits:
  "list_all isDigit s \<Longrightarrow> radixValue 10 a s = Some (foldl (\<lambda>a c. 10 * a + digitVal c) a s)"
  by (induction s arbitrary: a) (auto simp: radixDigit_def isDigit_def digitVal_def Let_def)

lemma radixNumber_decNat: "radixNumber 10 (decNat n) = Some (int n)"
  using allDigits_decNat [of n]
  by (simp add: radixNumber_def radixValue_digits allDigits_def flip: undec_def)

lemma bigintDigits_decNat: "bigintDigits (decNat n) = Some (int n)"
proof (cases "decNat n")
  case Nil
  then show ?thesis by simp
next
  case (Cons c cs)
  have d: "isDigit x" if "x \<in> set (c # cs)" for x
    using that isDigit_decNat [of x n] Cons by simp
  have ne: "c \<noteq> CHR ''-''" "c \<noteq> CHR ''+''"
    using d [of c] by (auto simp: isDigit_def)
  show ?thesis
  proof (cases cs)
    case Nil
    with Cons ne radixNumber_decNat [of n] show ?thesis by simp
  next
    case (Cons p ds)
    have "isDigit p" using d [of p] Cons by simp
    then have "p \<notin> {CHR ''x'', CHR ''X''}" "p \<notin> {CHR ''o'', CHR ''O''}"
      "p \<notin> {CHR ''b'', CHR ''B''}"
      by (auto simp: isDigit_def)
    with \<open>decNat n = c # cs\<close> Cons ne radixNumber_decNat [of n] show ?thesis by simp
  qed
qed

lemma isSpace_not_isDigit: "isDigit c \<Longrightarrow> \<not> isSpace c"
  by (auto simp: isDigit_def isSpace_def Let_def)

lemma trim_decNat [simp]: "trim (decNat n) = decNat n"
  using isDigit_decNat [of "hd (decNat n)" n] isDigit_decNat [of "last (decNat n)" n]
  by (intro trim_id) (simp add: isSpace_not_isDigit)

lemma trim_minus_decNat: "trim (CHR ''-'' # decNat n) = CHR ''-'' # decNat n"
  using isDigit_decNat [of "last (decNat n)" n]
  by (intro trim_id) (simp add: isSpace_not_isDigit, simp add: isSpace_def)

lemma bigintOf_decInt [simp]: "bigintOf (decInt i) = Some i"
  by (simp add: bigintOf_def decInt_def bigintDigits_decNat trim_minus_decNat radixNumber_decNat)

text \<open>\<open>BigInt\<close> of any digits, leading zeros included.\<close>

lemma bigintOf_allDigits:
  assumes "allDigits s"
  shows "bigintOf s = Some (int (undec s))"
proof -
  obtain c cs where s: "s = c # cs" using assms by (cases s) (auto simp: allDigits_def)
  have d: "isDigit x" if "x \<in> set s" for x using that assms by (auto simp: allDigits_def list_all_iff)
  have num: "radixNumber 10 s = Some (int (undec s))"
    using assms by (simp add: radixNumber_def radixValue_digits allDigits_def flip: undec_def)
  have ne: "c \<noteq> CHR ''-''" "c \<noteq> CHR ''+''" using d [of c] s by (auto simp: isDigit_def)
  have "bigintDigits s = Some (int (undec s))"
  proof (cases cs)
    case Nil
    with s ne num show ?thesis by simp
  next
    case (Cons p ds)
    then have "isDigit p" using d [of p] s by simp
    then have "p \<notin> {CHR ''x'', CHR ''X''}" "p \<notin> {CHR ''o'', CHR ''O''}" "p \<notin> {CHR ''b'', CHR ''B''}"
      by (auto simp: isDigit_def)
    with s Cons ne num show ?thesis by simp
  qed
  moreover have "trim s = s"
    using d [of "hd s"] d [of "last s"] s by (intro trim_id) (simp add: isSpace_not_isDigit)
  ultimately show ?thesis by (simp add: bigintOf_def)
qed

lemma undec_zeros: "undec (replicate k (CHR ''0'') @ s) = undec s"
  by (induction k) (simp_all add: undec_def digitVal_def)

lemma length_decNat_3: "n < 1000 \<Longrightarrow> length (decNat n) \<le> 3"
  by (subst decNat.simps, subst decNat.simps, subst decNat.simps) auto

section \<open>Insertion-ordered maps\<close>

text \<open>
  A JavaScript \<open>Map\<close> iterates in insertion order, keeps the position of a key that is set
  again and forgets it on \<open>delete\<close>: an association list under \<^term>\<open>AList.update\<close> and
  \<^term>\<open>AList.delete\<close>.
\<close>

lemma map_of_AList_update [simp]:
  "map_of (AList.update k v al) k' = (if k' = k then Some v else map_of al k')"
  by (simp add: update_conv)

lemma map_of_AList_delete [simp]:
  "map_of (AList.delete k al) k' = (if k' = k then None else map_of al k')"
  by (simp add: AList.delete_conv)

lemma distinct_AList_update [simp]:
  "distinct (map fst al) \<Longrightarrow> distinct (map fst (AList.update k v al))"
  by (rule distinct_update)

section \<open>Lists\<close>

text \<open>A step function over a list, the state first: the loops \<open>for (const x of xs)\<close>.\<close>

lemma foldl_invariant:
  "P s \<Longrightarrow> (\<And>s x. P s \<Longrightarrow> x \<in> set xs \<Longrightarrow> P (f s x)) \<Longrightarrow> P (foldl f s xs)"
  by (induction xs arbitrary: s) auto

lemma find_Some_iff':
  "List.find P xs = Some x \<Longrightarrow> x \<in> set xs \<and> P x"
  by (induction xs) (auto split: if_splits)

lemma sum_list_filter_le:
  fixes f :: "'a \<Rightarrow> int"
  assumes "\<And>x. x \<in> set xs \<Longrightarrow> 0 \<le> f x" and "\<And>x. P x \<Longrightarrow> Q x"
  shows "sum_list (map f (filter P xs)) \<le> sum_list (map f (filter Q xs))"
  using assms by (induction xs) force+

lemma length_filter_mono: "\<forall>x \<in> set xs. P x \<longrightarrow> R x \<Longrightarrow> length (filter P xs) \<le> length (filter R xs)"
  by (induction xs) auto

section \<open>Prefixes\<close>

lemma takeWhile_take_stop:
  "takeWhile P (take k xs) \<noteq> take k xs \<Longrightarrow> takeWhile P xs = takeWhile P (take k xs)"
  by (metis append_take_drop_id takeWhile_append1 takeWhile_eq_all_conv)

lemma takeWhile_take_all:
  "takeWhile P (take k xs) = take k xs \<Longrightarrow> takeWhile P xs = take k xs @ takeWhile P (drop k xs)"
  by (metis append_take_drop_id takeWhile_append2 takeWhile_eq_all_conv)

section \<open>Characters\<close>

definition charIn :: "char \<Rightarrow> char \<Rightarrow> char \<Rightarrow> bool" where
  "charIn lo hi c \<longleftrightarrow> (of_char lo :: nat) \<le> of_char c \<and> (of_char c :: nat) \<le> of_char hi"

definition lowerChar :: "char \<Rightarrow> char" where
  "lowerChar c = (if charIn (CHR ''A'') (CHR ''Z'') c then char_of (of_char c + (32 :: nat)) else c)"

definition toLowerCase :: "string \<Rightarrow> string" where
  "toLowerCase s = map lowerChar s"

text \<open>A JavaScript string that is present and not empty.\<close>

definition truthy :: "string option \<Rightarrow> bool" where
  "truthy s = (case s of None \<Rightarrow> False | Some x \<Rightarrow> x \<noteq> [])"

lemma truthy_simps [simp]: "\<not> truthy None" "truthy (Some x) \<longleftrightarrow> x \<noteq> []"
  by (simp_all add: truthy_def)

lemma truthy_iff: "truthy s \<longleftrightarrow> (\<exists>x. s = Some x \<and> x \<noteq> [])"
  by (cases s) auto

end
