(* ===== verification/Types.thy ===== *)
theory Types
  imports Prelude
begin

text \<open>
  The domain types every service shares: \<open>packages/common/src/types.ts\<close> and the outbox
  types of \<open>packages/common/src/idempotency.ts\<close>. Field names carry a short prefix per
  record, since Isabelle's record fields are global. An optional field is an \<open>option\<close>; a
  field that is optional and nullable (\<open>lastError?: string | null\<close> of a patch) is an
  \<open>option\<close> of an \<open>option\<close>, \<open>None\<close> for the absent field.

  \<open>actionFromWire\<close> casts the strings of an HTTP request to the unions \<open>Direction\<close> and
  \<open>RemoteChainId\<close> without a check, so both have a constructor for every other string.
\<close>

section \<open>Actions and source events (types.ts)\<close>

datatype Direction = PEG_IN | PEG_OUT | GRAM_RETURN | OtherDirection string

datatype RemoteChainId = GRAM | SOLANA | OtherChain string

text \<open>The strings the unions stand for.\<close>

fun directionString :: "Direction \<Rightarrow> string" where
  "directionString PEG_IN = ''PEG_IN''"
| "directionString PEG_OUT = ''PEG_OUT''"
| "directionString GRAM_RETURN = ''GRAM_RETURN''"
| "directionString (OtherDirection s) = s"

fun chainString :: "RemoteChainId \<Rightarrow> string" where
  "chainString GRAM = ''GRAM''"
| "chainString SOLANA = ''SOLANA''"
| "chainString (OtherChain s) = s"

definition directionOfString :: "string \<Rightarrow> Direction" where
  "directionOfString s =
     (if s = ''PEG_IN'' then PEG_IN else if s = ''PEG_OUT'' then PEG_OUT
      else if s = ''GRAM_RETURN'' then GRAM_RETURN else OtherDirection s)"

definition chainOfString :: "string \<Rightarrow> RemoteChainId" where
  "chainOfString s = (if s = ''GRAM'' then GRAM else if s = ''SOLANA'' then SOLANA else OtherChain s)"

text \<open>The two chains the code is configured with.\<close>

definition knownChain :: "RemoteChainId \<Rightarrow> bool" where
  "knownChain c \<longleftrightarrow> c = GRAM \<or> c = SOLANA"

lemma knownChain_simps [simp]: "knownChain GRAM" "knownChain SOLANA" "\<not> knownChain (OtherChain s)"
  by (simp_all add: knownChain_def)

lemma directionString_directionOfString [simp]: "directionString (directionOfString s) = s"
  by (simp add: directionOfString_def)

lemma chainString_chainOfString [simp]: "chainString (chainOfString s) = s"
  by (simp add: chainOfString_def)

record VizDeposit =
  dep_trxId :: string
  dep_opIndex :: nat
  dep_blockNum :: nat
  dep_from :: string
  dep_to :: string
  dep_amountMilliViz :: int
  dep_remoteChain :: RemoteChainId
  dep_remoteDestination :: string
  dep_destinationValid :: bool

record RemoteBurn =
  burn_chain :: RemoteChainId
  burn_sourceId :: string
  burn_height :: nat
  burn_from :: string
  burn_amountMilliViz :: int
  burn_homeDestination :: string

record CanonicalAction =
  act_direction :: Direction
  act_remoteChain :: "RemoteChainId option"
  act_id :: string
  act_recipient :: string
  act_amountMilliViz :: int
  act_digest :: string

record SourceHint =
  hint_sourceBlockNum :: "nat option"

record Approval =
  apr_actionId :: string
  apr_operatorId :: string
  apr_signature :: string

record VizReleaseProposal =
  vp_refBlockNum :: nat
  vp_refBlockPrefix :: nat
  vp_expiration :: string
  vp_from :: string
  vp_to :: string
  vp_amount :: string
  vp_memo :: string

record GramMintProposal =
  gp_orderSeqno :: string
  gp_orderAddr :: string
  gp_toAddress :: string
  gp_amountMilliViz :: string
  gp_destProvisioned :: bool
  gp_orderHashHex :: string
  gp_actionId :: string

record SolanaMintProposal =
  sp_recipient :: string
  sp_amountMilliViz :: string
  sp_destProvisioned :: bool
  sp_mint :: string
  sp_multisig :: string
  sp_signers :: "string list"
  sp_feePayer :: string
  sp_nonceAccount :: string
  sp_nonceValue :: string
  sp_decimals :: nat
  sp_messageB64 :: string
  sp_actionId :: "string option"

record OperatorRef =
  op_id :: string
  op_vizPubkey :: string
  op_tonPubkey :: string
  op_solanaPubkey :: string

section \<open>The outbox (idempotency.ts)\<close>

datatype ActionStatus =
    SEEN | QUEUED | SIGNING | BROADCAST | CONFIRMED | HELD | REFUNDING | REFUNDED | FAILED

datatype OutboxDirection = O_PEG_IN | O_PEG_OUT | O_FEE_SWEEP | O_REFUND | O_GRAM_RETURN

record OutboxRecord =
  ob_id :: string
  ob_direction :: OutboxDirection
  ob_remoteChain :: "RemoteChainId option"
  ob_recipient :: string
  ob_sender :: "string option"
  ob_amountMilliViz :: int
  ob_feeMilliViz :: int
  ob_digest :: string
  ob_status :: ActionStatus
  ob_attempts :: nat
  ob_lastError :: "string option"
  ob_txid :: "string option"
  ob_createdAt :: int
  ob_updatedAt :: int
  ob_nextAttemptAt :: int
  ob_parentId :: "string option"
  ob_blockNum :: "nat option"

record EnqueueInput =
  ei_id :: string
  ei_direction :: OutboxDirection
  ei_remoteChain :: "RemoteChainId option"
  ei_recipient :: string
  ei_sender :: "string option"
  ei_amountMilliViz :: int
  ei_feeMilliViz :: "int option"
  ei_digest :: string
  ei_status :: "ActionStatus option"
  ei_lastError :: "string option"
  ei_parentId :: "string option"
  ei_blockNum :: "nat option"

record StatusPatch =
  pt_attempts :: "nat option"
  pt_lastError :: "string option option"
  pt_txid :: "string option option"
  pt_nextAttemptAt :: "int option"
  pt_feeMilliViz :: "int option"

definition noPatch :: StatusPatch where
  "noPatch = \<lparr>pt_attempts = None, pt_lastError = None, pt_txid = None,
     pt_nextAttemptAt = None, pt_feeMilliViz = None\<rparr>"

lemma noPatch_simps [simp]:
  "pt_attempts noPatch = None" "pt_lastError noPatch = None" "pt_txid noPatch = None"
  "pt_nextAttemptAt noPatch = None" "pt_feeMilliViz noPatch = None"
  by (simp_all add: noPatch_def)

record DepositAddressRecord =
  da_vizAccount :: string
  da_solAddress :: string
  da_wvizAta :: string
  da_createdAt :: int
  da_scanTime :: int
  da_priority :: int

text \<open>
  The row an \<open>enqueue\<close> inserts, and the row a \<open>setStatus\<close> leaves: the same for both
  stores (the SQL \<open>INSERT\<close> and \<open>UPDATE\<close> with their defaults and \<open>COALESCE\<close>s, and the
  object literal and field assignments of the in-memory store).
\<close>

definition recordOf :: "EnqueueInput \<Rightarrow> int \<Rightarrow> OutboxRecord" where
  "recordOf i now = \<lparr>
     ob_id = ei_id i, ob_direction = ei_direction i, ob_remoteChain = ei_remoteChain i,
     ob_recipient = ei_recipient i, ob_sender = ei_sender i,
     ob_amountMilliViz = ei_amountMilliViz i,
     ob_feeMilliViz = (case ei_feeMilliViz i of None \<Rightarrow> 0 | Some f \<Rightarrow> f),
     ob_digest = ei_digest i,
     ob_status = (case ei_status i of None \<Rightarrow> SEEN | Some s \<Rightarrow> s),
     ob_attempts = 0, ob_lastError = ei_lastError i, ob_txid = None,
     ob_createdAt = now, ob_updatedAt = now, ob_nextAttemptAt = 0,
     ob_parentId = ei_parentId i, ob_blockNum = ei_blockNum i\<rparr>"

definition coalesce :: "'a option \<Rightarrow> 'a \<Rightarrow> 'a" where
  "coalesce p x = (case p of None \<Rightarrow> x | Some y \<Rightarrow> y)"

lemma coalesce_simps [simp]: "coalesce None x = x" "coalesce (Some y) x = y"
  by (simp_all add: coalesce_def)

definition applyStatus :: "ActionStatus \<Rightarrow> StatusPatch \<Rightarrow> int \<Rightarrow> OutboxRecord \<Rightarrow> OutboxRecord" where
  "applyStatus st p now r = r\<lparr>
     ob_status := st,
     ob_attempts := coalesce (pt_attempts p) (ob_attempts r),
     ob_lastError := coalesce (pt_lastError p) (ob_lastError r),
     ob_txid := coalesce (pt_txid p) (ob_txid r),
     ob_feeMilliViz := coalesce (pt_feeMilliViz p) (ob_feeMilliViz r),
     ob_nextAttemptAt := coalesce (pt_nextAttemptAt p) (ob_nextAttemptAt r),
     ob_updatedAt := now\<rparr>"

lemma recordOf_simps [simp]:
  "ob_id (recordOf i now) = ei_id i"
  "ob_direction (recordOf i now) = ei_direction i"
  "ob_digest (recordOf i now) = ei_digest i"
  "ob_status (recordOf i now) = coalesce (ei_status i) SEEN"
  "ob_parentId (recordOf i now) = ei_parentId i"
  "ob_amountMilliViz (recordOf i now) = ei_amountMilliViz i"
  "ob_recipient (recordOf i now) = ei_recipient i"
  "ob_remoteChain (recordOf i now) = ei_remoteChain i"
  "ob_lastError (recordOf i now) = ei_lastError i"
  "ob_sender (recordOf i now) = ei_sender i"
  "ob_txid (recordOf i now) = None"
  "ob_createdAt (recordOf i now) = now"
  "ob_feeMilliViz (recordOf i now) = coalesce (ei_feeMilliViz i) 0"
  by (simp_all add: recordOf_def coalesce_def)

lemma applyStatus_simps [simp]:
  "ob_id (applyStatus st p now r) = ob_id r"
  "ob_direction (applyStatus st p now r) = ob_direction r"
  "ob_digest (applyStatus st p now r) = ob_digest r"
  "ob_status (applyStatus st p now r) = st"
  "ob_parentId (applyStatus st p now r) = ob_parentId r"
  "ob_amountMilliViz (applyStatus st p now r) = ob_amountMilliViz r"
  "ob_recipient (applyStatus st p now r) = ob_recipient r"
  "ob_remoteChain (applyStatus st p now r) = ob_remoteChain r"
  "ob_sender (applyStatus st p now r) = ob_sender r"
  "ob_createdAt (applyStatus st p now r) = ob_createdAt r"
  "ob_blockNum (applyStatus st p now r) = ob_blockNum r"
  "ob_updatedAt (applyStatus st p now r) = now"
  "ob_attempts (applyStatus st p now r) = coalesce (pt_attempts p) (ob_attempts r)"
  "ob_lastError (applyStatus st p now r) = coalesce (pt_lastError p) (ob_lastError r)"
  "ob_txid (applyStatus st p now r) = coalesce (pt_txid p) (ob_txid r)"
  "ob_feeMilliViz (applyStatus st p now r) = coalesce (pt_feeMilliViz p) (ob_feeMilliViz r)"
  "ob_nextAttemptAt (applyStatus st p now r) = coalesce (pt_nextAttemptAt p) (ob_nextAttemptAt r)"
  by (simp_all add: applyStatus_def)

text \<open>\<open>setFee\<close>: only the withheld fee and the time stamp.\<close>

definition applyFee :: "int \<Rightarrow> int \<Rightarrow> OutboxRecord \<Rightarrow> OutboxRecord" where
  "applyFee fee now r = r\<lparr>ob_feeMilliViz := fee, ob_updatedAt := now\<rparr>"

lemma applyFee_simps [simp]:
  "ob_id (applyFee f now r) = ob_id r"
  "ob_direction (applyFee f now r) = ob_direction r"
  "ob_digest (applyFee f now r) = ob_digest r"
  "ob_status (applyFee f now r) = ob_status r"
  "ob_parentId (applyFee f now r) = ob_parentId r"
  "ob_amountMilliViz (applyFee f now r) = ob_amountMilliViz r"
  "ob_recipient (applyFee f now r) = ob_recipient r"
  "ob_remoteChain (applyFee f now r) = ob_remoteChain r"
  "ob_sender (applyFee f now r) = ob_sender r"
  "ob_txid (applyFee f now r) = ob_txid r"
  "ob_lastError (applyFee f now r) = ob_lastError r"
  "ob_feeMilliViz (applyFee f now r) = f"
  by (simp_all add: applyFee_def)

end
