(* ===== verification/StoreSpec.thy ===== *)
theory StoreSpec
  imports Types
begin

text \<open>
  The interface \<open>GatewayStore\<close> of \<open>packages/common/src/store.ts\<close>, as locales: the outbox
  ledger, the rolling cap window, the per-sender rate window, the key/value state with its
  monotone cursors, and the signer's claims. The services are clients of these laws; both stores
  of the code provide them. \<open>Date.now()\<close> is an argument of the operations that read it.
\<close>

section \<open>The outbox ledger\<close>

datatype ledger_op =
    OpEnqueue EnqueueInput int
  | OpSetStatus string ActionStatus StatusPatch int
  | OpSetFee string int int

fun ledgerStep ::
  "(EnqueueInput \<Rightarrow> int \<Rightarrow> 's \<Rightarrow> bool \<times> 's) \<Rightarrow>
   (string \<Rightarrow> ActionStatus \<Rightarrow> StatusPatch \<Rightarrow> int \<Rightarrow> 's \<Rightarrow> 's) \<Rightarrow>
   (string \<Rightarrow> int \<Rightarrow> int \<Rightarrow> 's \<Rightarrow> 's) \<Rightarrow> 's \<Rightarrow> ledger_op \<Rightarrow> 's" where
  "ledgerStep enq ss sf s (OpEnqueue i now) = snd (enq i now s)"
| "ledgerStep enq ss sf s (OpSetStatus rid st p now) = ss rid st p now s"
| "ledgerStep enq ss sf s (OpSetFee rid fee now) = sf rid fee now s"

text \<open>What no operation of the ledger changes in a row.\<close>

definition sameEvent :: "OutboxRecord \<Rightarrow> OutboxRecord \<Rightarrow> bool" where
  "sameEvent r r' \<longleftrightarrow> ob_id r' = ob_id r \<and> ob_direction r' = ob_direction r \<and>
     ob_remoteChain r' = ob_remoteChain r \<and> ob_recipient r' = ob_recipient r \<and>
     ob_sender r' = ob_sender r \<and> ob_amountMilliViz r' = ob_amountMilliViz r \<and>
     ob_digest r' = ob_digest r \<and> ob_createdAt r' = ob_createdAt r \<and>
     ob_parentId r' = ob_parentId r \<and> ob_blockNum r' = ob_blockNum r"

lemma sameEvent_refl [simp]: "sameEvent r r"
  by (simp add: sameEvent_def)

lemma sameEvent_trans: "sameEvent a b \<Longrightarrow> sameEvent b c \<Longrightarrow> sameEvent a c"
  by (simp add: sameEvent_def)

lemma sameEvent_applyStatus [simp]: "sameEvent r (applyStatus st p now r)"
  by (simp add: sameEvent_def)

lemma sameEvent_applyFee [simp]: "sameEvent r (applyFee f now r)"
  by (simp add: sameEvent_def applyFee_def)

locale outbox_ledger =
  fixes inv :: "'s \<Rightarrow> bool"
    and get :: "'s \<Rightarrow> string \<Rightarrow> OutboxRecord option"
    and enqueue :: "EnqueueInput \<Rightarrow> int \<Rightarrow> 's \<Rightarrow> bool \<times> 's"
    and setStatus :: "string \<Rightarrow> ActionStatus \<Rightarrow> StatusPatch \<Rightarrow> int \<Rightarrow> 's \<Rightarrow> 's"
    and setFee :: "string \<Rightarrow> int \<Rightarrow> int \<Rightarrow> 's \<Rightarrow> 's"
    and paused :: "'s \<Rightarrow> bool"
  assumes inv_enqueue: "inv s \<Longrightarrow> inv (snd (enqueue i now s))"
    and inv_setStatus: "inv s \<Longrightarrow> inv (setStatus rid st p now s)"
    and inv_setFee: "inv s \<Longrightarrow> inv (setFee rid fee now s)"
    and get_id: "inv s \<Longrightarrow> get s rid = Some r \<Longrightarrow> ob_id r = rid"
    and enqueue_result: "inv s \<Longrightarrow> fst (enqueue i now s) \<longleftrightarrow> get s (ei_id i) = None"
    and get_enqueue: "inv s \<Longrightarrow> get (snd (enqueue i now s)) rid =
      (if rid = ei_id i \<and> get s rid = None then Some (recordOf i now) else get s rid)"
    and paused_enqueue: "inv s \<Longrightarrow> paused (snd (enqueue i now s)) \<longleftrightarrow>
      paused s \<or> (case get s (ei_id i) of None \<Rightarrow> False | Some r \<Rightarrow> ob_digest r \<noteq> ei_digest i)"
    and get_setStatus: "inv s \<Longrightarrow> get (setStatus rid st p now s) rid' =
      (if rid' = rid then map_option (applyStatus st p now) (get s rid) else get s rid')"
    and paused_setStatus: "inv s \<Longrightarrow> paused (setStatus rid st p now s) = paused s"
    and get_setFee: "inv s \<Longrightarrow> get (setFee rid fee now s) rid' =
      (if rid' = rid then map_option (applyFee fee now) (get s rid) else get s rid')"
    and paused_setFee: "inv s \<Longrightarrow> paused (setFee rid fee now s) = paused s"
begin

lemmas ledger_reads = get_enqueue get_setStatus get_setFee
lemmas ledger_inv = inv_enqueue inv_setStatus inv_setFee

text \<open>The second claim of an id loses, and leaves the row alone.\<close>

lemma enqueue_twice:
  assumes "inv s" and "fst (enqueue i now s)"
  shows "\<not> fst (enqueue j now' (snd (enqueue i now s))) \<or> ei_id j \<noteq> ei_id i"
  using assms by (auto simp: enqueue_result inv_enqueue get_enqueue)

lemma enqueue_keeps:
  "inv s \<Longrightarrow> get s rid = Some r \<Longrightarrow> get (snd (enqueue i now s)) rid = Some r"
  by (simp add: get_enqueue)

lemma step_inv: "inv s \<Longrightarrow> inv (ledgerStep enqueue setStatus setFee s op)"
  by (cases op) (simp_all add: ledger_inv)

lemma run_inv: "inv s \<Longrightarrow> inv (foldl (ledgerStep enqueue setStatus setFee) s ops)"
  by (rule foldl_invariant) (simp_all add: step_inv)

lemma step_sameEvent:
  assumes "inv s" "get s rid = Some r"
  shows "\<exists>r'. get (ledgerStep enqueue setStatus setFee s op) rid = Some r' \<and> sameEvent r r'"
  using assms by (cases op) (auto simp: ledger_reads)

lemma run_sameEvent:
  assumes "inv s" "get s rid = Some r"
  shows "\<exists>r'. get (foldl (ledgerStep enqueue setStatus setFee) s ops) rid = Some r' \<and> sameEvent r r'"
  using assms
proof (induction ops arbitrary: s r)
  case Nil
  then show ?case by simp
next
  case (Cons op ops)
  from step_sameEvent [OF Cons.prems] obtain r1 where
    "get (ledgerStep enqueue setStatus setFee s op) rid = Some r1" and r1: "sameEvent r r1" by blast
  from Cons.IH [OF step_inv [OF Cons.prems(1)] this(1)] sameEvent_trans [OF r1]
  show ?case by auto
qed

text \<open>A pause of the ledger is never cleared by it.\<close>

lemma step_paused: "inv s \<Longrightarrow> paused s \<Longrightarrow> paused (ledgerStep enqueue setStatus setFee s op)"
  by (cases op) (simp_all add: paused_enqueue paused_setStatus paused_setFee)

text \<open>An id whose row was claimed under another digest pauses the gateway.\<close>

lemma collision_pauses:
  assumes "inv s" "get s (ei_id i) = Some r" "ob_digest r \<noteq> ei_digest i"
  shows "\<not> fst (enqueue i now s)" and "paused (snd (enqueue i now s))"
    and "get (snd (enqueue i now s)) = get s"
  using assms by (auto simp: enqueue_result paused_enqueue get_enqueue fun_eq_iff)

end

section \<open>The rolling cap window\<close>

definition windowSum :: "int \<Rightarrow> int \<Rightarrow> (int \<times> int) list \<Rightarrow> int" where
  "windowSum since now es = sum_list (map snd (filter (\<lambda>e. since \<le> fst e \<and> fst e \<le> now) es))"

definition notBefore :: "int \<Rightarrow> (int \<times> int) list \<Rightarrow> (int \<times> int) list" where
  "notBefore h es = filter (\<lambda>e. h \<le> fst e) es"

lemma notBefore_Nil [simp]: "notBefore h [] = []"
  by (simp add: notBefore_def)

lemma notBefore_append [simp]: "notBefore h (xs @ ys) = notBefore h xs @ notBefore h ys"
  by (simp add: notBefore_def)

lemma notBefore_notBefore [simp]: "h \<le> h' \<Longrightarrow> notBefore h' (notBefore h es) = notBefore h' es"
  by (induction es) (auto simp: notBefore_def)

lemma windowSum_notBefore: "h \<le> since \<Longrightarrow> windowSum since now (notBefore h es) = windowSum since now es"
  by (induction es) (auto simp: windowSum_def notBefore_def)

lemma windowSum_cong:
  "notBefore h es = notBefore h fs \<Longrightarrow> h \<le> since \<Longrightarrow> windowSum since now es = windowSum since now fs"
  by (metis windowSum_notBefore)

lemma windowSum_append [simp]: "windowSum since now (xs @ ys) = windowSum since now xs + windowSum since now ys"
  by (simp add: windowSum_def)

lemma windowSum_single:
  "windowSum since now [(t, a)] = (if since \<le> t \<and> t \<le> now then a else 0)"
  by (simp add: windowSum_def)

lemma windowSum_mono:
  assumes "\<forall>e \<in> set es. 0 \<le> snd e" "since' \<le> since" "\<forall>e \<in> set es. fst e \<le> now'"
  shows "windowSum since now es \<le> windowSum since' now' es"
  using assms(1,3)
proof (induction es)
  case Nil
  then show ?case by (simp add: windowSum_def)
next
  case (Cons e es)
  then show ?case using assms(2) by (auto simp: windowSum_def)
qed

text \<open>A run of reservations: \<open>(amount, time)\<close> pairs, in the order they are tried.\<close>

fun reserveAll ::
  "(int \<Rightarrow> int \<Rightarrow> int \<Rightarrow> int \<Rightarrow> 's \<Rightarrow> bool \<times> 's) \<Rightarrow> int \<Rightarrow> int \<Rightarrow> 's \<Rightarrow> (int \<times> int) list \<Rightarrow> 's" where
  "reserveAll reserve cap window s [] = s"
| "reserveAll reserve cap window s ((amount, now) # rs) =
     reserveAll reserve cap window (snd (reserve amount cap (now - window) now s)) rs"

locale cap_window =
  fixes entries :: "'s \<Rightarrow> (int \<times> int) list"
    and reserve :: "int \<Rightarrow> int \<Rightarrow> int \<Rightarrow> int \<Rightarrow> 's \<Rightarrow> bool \<times> 's"
  assumes reserve_result:
      "fst (reserve amount cap since now s) \<longleftrightarrow> windowSum since now (entries s) + amount \<le> cap"
    and reserve_entries: "since \<le> h \<Longrightarrow>
      notBefore h (entries (snd (reserve amount cap since now s))) =
      notBefore h (entries s @ (if fst (reserve amount cap since now s) then [(now, amount)] else []))"
    and reserve_subset: "set (entries (snd (reserve amount cap since now s))) \<subseteq>
      insert (now, amount) (set (entries s))"
begin

text \<open>
  The invariant of a store whose reservations were made with a clock that does not run
  backwards: no entry lies after the last reservation, no amount is negative, and no later
  window exceeds the cap.
\<close>

definition capped :: "int \<Rightarrow> int \<Rightarrow> int \<Rightarrow> 's \<Rightarrow> bool" where
  "capped cap window t s \<longleftrightarrow> (\<forall>e \<in> set (entries s). fst e \<le> t \<and> 0 \<le> snd e) \<and>
     (\<forall>u \<ge> t. windowSum (u - window) u (entries s) \<le> cap)"

lemma reserve_capped:
  assumes "capped cap window t s" "t \<le> now" "0 \<le> amount"
  shows "capped cap window now (snd (reserve amount cap (now - window) now s))"
proof -
  let ?s' = "snd (reserve amount cap (now - window) now s)"
  let ?ok = "fst (reserve amount cap (now - window) now s)"
  have le: "fst e \<le> t" and nn: "0 \<le> snd e" if "e \<in> set (entries s)" for e
    using assms(1) that by (auto simp: capped_def)
  have es: "\<forall>e \<in> set (entries ?s'). fst e \<le> now \<and> 0 \<le> snd e"
    using reserve_subset [of amount cap "now - window" now s] le nn assms(2,3) by fastforce
  have "windowSum (u - window) u (entries ?s') \<le> cap" if u: "now \<le> u" for u
  proof -
    have "windowSum (u - window) u (entries ?s') =
        windowSum (u - window) u (entries s @ (if ?ok then [(now, amount)] else []))"
      by (rule windowSum_cong [where h = "now - window"]) (use reserve_entries u in auto)
    also have "\<dots> \<le> windowSum (u - window) u (entries s) + (if ?ok then amount else 0)"
      using assms(3) by (simp add: windowSum_single windowSum_def)
    also have "\<dots> \<le> cap"
    proof (cases ?ok)
      case True
      have "windowSum (u - window) u (entries s) \<le> windowSum (now - window) now (entries s)"
        using le nn assms(2) u by (intro windowSum_mono) force+
      with True reserve_result [of amount cap "now - window" now s] show ?thesis by simp
    next
      case False
      then show ?thesis using assms(1,2) u by (simp add: capped_def)
    qed
    finally show ?thesis .
  qed
  with es show ?thesis by (simp add: capped_def)
qed

lemma reserveAll_capped:
  assumes "capped cap window t s" "sorted (t # map snd rs)" "\<forall>r \<in> set rs. 0 \<le> fst r"
  shows "capped cap window (last (t # map snd rs)) (reserveAll reserve cap window s rs)"
  using assms
proof (induction rs arbitrary: s t)
  case Nil
  then show ?case by simp
next
  case (Cons r rs)
  obtain amount now where r: "r = (amount, now)" by (cases r)
  have "capped cap window now (snd (reserve amount cap (now - window) now s))"
    using Cons.prems r by (intro reserve_capped) auto
  moreover have "sorted (now # map snd rs)" using Cons.prems(2) r by simp
  ultimately show ?case using Cons.IH Cons.prems(3) r by auto
qed

end

section \<open>The per-sender rate window\<close>

definition senderCount :: "string \<Rightarrow> int \<Rightarrow> (string \<times> int) list \<Rightarrow> nat" where
  "senderCount sender cutoff es = length (filter (\<lambda>e. fst e = sender \<and> cutoff < snd e) es)"

locale rate_window =
  fixes entries :: "'s \<Rightarrow> (string \<times> int) list"
    and reserve :: "string \<Rightarrow> int \<Rightarrow> int \<Rightarrow> int \<Rightarrow> 's \<Rightarrow> bool \<times> 's"
  assumes rate_result: "fst (reserve sender limit window now s) \<longleftrightarrow>
      int (senderCount sender (now - window) (entries s)) < limit"
    and rate_entries: "now - window \<le> cutoff \<Longrightarrow>
      senderCount x cutoff (entries (snd (reserve sender limit window now s))) =
      senderCount x cutoff (entries s) +
        (if fst (reserve sender limit window now s) \<and> x = sender \<and> cutoff < now then 1 else 0)"
begin

lemma senderCount_antimono: "c \<le> d \<Longrightarrow> senderCount x d es \<le> senderCount x c es"
  by (induction es) (auto simp: senderCount_def)

text \<open>With a clock that does not run backwards no sender has more than the limit in a window.\<close>

lemma reserve_bounded:
  assumes "\<forall>u \<ge> t. int (senderCount x (u - window) (entries s)) \<le> limit" "t \<le> now" "now \<le> u"
  shows "int (senderCount x (u - window) (entries (snd (reserve sender limit window now s)))) \<le> limit"
proof -
  have "senderCount x (u - window) (entries s) \<le> senderCount x (now - window) (entries s)"
    using assms(3) by (intro senderCount_antimono) simp
  then show ?thesis
    using assms rate_entries [of now window "u - window" x sender limit s]
      rate_result [of sender limit window now s] by auto
qed

lemma rate_run:
  assumes "\<forall>u \<ge> t. int (senderCount x (u - window) (entries s)) \<le> limit"
    "sorted (t # map snd rs)" "last (t # map snd rs) \<le> u"
  shows "int (senderCount x (u - window)
    (entries (foldl (\<lambda>s (sender, now). snd (reserve sender limit window now s)) s rs))) \<le> limit"
  using assms
proof (induction rs arbitrary: s t)
  case Nil
  then show ?case by simp
next
  case (Cons r rs)
  obtain sender now where r: "r = (sender, now)" by (cases r)
  have "\<forall>u \<ge> now. int (senderCount x (u - window) (entries (snd (reserve sender limit window now s)))) \<le> limit"
    using reserve_bounded [OF Cons.prems(1)] Cons.prems(2) r by auto
  then show ?case using Cons.IH [of now "snd (reserve sender limit window now s)"] Cons.prems(2,3) r by auto
qed

end

section \<open>Key/value state and cursors\<close>

locale kv_state =
  fixes getState :: "'s \<Rightarrow> string \<Rightarrow> string option"
    and setState :: "string \<Rightarrow> string \<Rightarrow> int \<Rightarrow> 's \<Rightarrow> 's"
  assumes get_set: "getState (setState k v now s) k' = (if k' = k then Some v else getState s k')"

locale cursor_state =
  fixes getCursor :: "'s \<Rightarrow> string \<Rightarrow> int option"
    and setCursor :: "string \<Rightarrow> int \<Rightarrow> int \<Rightarrow> 's \<Rightarrow> 's"
  assumes get_setCursor: "getCursor s n = Some c \<Longrightarrow>
      getCursor (setCursor n v now s) n = Some (max c v)"
    and get_setCursor_other: "n' \<noteq> n \<Longrightarrow> getCursor (setCursor n v now s) n' = getCursor s n'"
begin

text \<open>Whatever is written, a cursor never moves back, and it ends at the largest value written.\<close>

lemma cursor_run:
  "getCursor s n = Some c \<Longrightarrow>
   getCursor (foldl (\<lambda>s (v, now). setCursor n v now s) s ws) n = Some (foldl (\<lambda>c w. max c (fst w)) c ws)"
proof (induction ws arbitrary: s c)
  case Nil
  then show ?case by simp
next
  case (Cons w ws)
  obtain v now where w: "w = (v, now)" by (cases w)
  show ?case using Cons.IH [OF get_setCursor [OF Cons.prems, of v now]] w by simp
qed

end

section \<open>The signer's claims\<close>

locale proposal_claims =
  fixes claimed :: "'s \<Rightarrow> string \<Rightarrow> (string \<times> int) option"
    and put :: "string \<Rightarrow> string \<Rightarrow> int \<Rightarrow> string option \<Rightarrow> 's \<Rightarrow> bool \<times> 's"
  assumes put_result: "fst (put a k e prev s) \<longleftrightarrow> map_option fst (claimed s a) = prev"
    and claimed_put: "claimed (snd (put a k e prev s)) b =
      (if b = a \<and> fst (put a k e prev s) then Some (k, e) else claimed s b)"
begin

text \<open>Of two compare-and-swaps that expect the same key, the second fails if the first changed it.\<close>

lemma cas_once:
  assumes "fst (put a k e prev s)" "Some k \<noteq> prev"
  shows "\<not> fst (put a k' e' prev (snd (put a k e prev s)))"
  using assms by (simp add: put_result claimed_put)

end

end
