(* ===== verification/StoreSqlite.thy ===== *)
theory StoreSqlite
  imports StoreSpec "HOL-Library.Product_Lexorder" "HOL-Library.Multiset"
begin

text \<open>
  \<open>SqliteGatewayStore\<close> of \<open>packages/common/src/store.ts\<close>: the store every service shares in
  production. The state is the tables, each the list of its rows in insertion (rowid) order. An
  SQL statement is the list operation it denotes. The order in which the database visits the rows
  of a query is its own: it follows the index the planner chooses, so a query without
  \<open>ORDER BY\<close> returns its rows in that order, and an \<open>ORDER BY\<close> leaves rows of equal keys in it.
  The fields \<open>tb_plan\<close> and \<open>tb_depositPlan\<close> stand for that choice: they rank the rows of a query,
  whatever the rows are, and nothing is assumed of them. Amounts are stored as decimal
  TEXT and read back with \<open>BigInt\<close>, which is the identity (\<open>bigintOf_decInt\<close>), so a row of
  \<open>action_outbox\<close> is an \<open>OutboxRecord\<close>. The primary keys are the invariant \<open>sqlInv\<close>.
\<close>

record SqliteStore =
  tb_outbox :: "OutboxRecord list"
  tb_cap_window :: "(int \<times> int) list"
  tb_pegin_rate :: "(string \<times> int) list"
  tb_deposits :: "DepositAddressRecord list"
  tb_state :: "(string \<times> string) list"
  tb_signed :: "(string \<times> (string \<times> int)) list"
  tb_plan :: "string \<Rightarrow> OutboxRecord list \<Rightarrow> OutboxRecord \<Rightarrow> int"
  tb_depositPlan :: "string \<Rightarrow> DepositAddressRecord list \<Rightarrow> DepositAddressRecord \<Rightarrow> int"

definition emptySqlite :: SqliteStore where
  "emptySqlite = \<lparr>tb_outbox = [], tb_cap_window = [], tb_pegin_rate = [], tb_deposits = [],
     tb_state = [], tb_signed = [], tb_plan = (\<lambda>_ _ _. 0), tb_depositPlan = (\<lambda>_ _ _. 0)\<rparr>"

text \<open>The rows that match the query \<open>q\<close>, in the order the database visits them.\<close>

definition visit :: "SqliteStore \<Rightarrow> string \<Rightarrow> OutboxRecord list \<Rightarrow> OutboxRecord list" where
  "visit s q rows = sort_key (tb_plan s q rows) rows"

definition visitDeposits :: "SqliteStore \<Rightarrow> string \<Rightarrow> DepositAddressRecord list \<Rightarrow> DepositAddressRecord list" where
  "visitDeposits s q rows = sort_key (tb_depositPlan s q rows) rows"

lemma visit_simps [simp]:
  "set (visit s q rows) = set rows" "mset (visit s q rows) = mset rows"
  "distinct (map f (visit s q rows)) = distinct (map f rows)" "distinct (visit s q rows) = distinct rows"
  "visit s q [] = []" "visit s q [r] = [r]"
  by (simp_all add: visit_def distinct_map)

lemma visitDeposits_simps [simp]:
  "set (visitDeposits s q rows) = set rows" "visitDeposits s q [] = []" "visitDeposits s q [d] = [d]"
  by (simp_all add: visitDeposits_def)

definition sqlInv :: "SqliteStore \<Rightarrow> bool" where
  "sqlInv s \<longleftrightarrow> distinct (map ob_id (tb_outbox s))"

section \<open>Key/value state, cursors and the pause flag\<close>

definition sql_setKey :: "string \<Rightarrow> string \<Rightarrow> int \<Rightarrow> SqliteStore \<Rightarrow> SqliteStore" where
  "sql_setKey k v now s = s\<lparr>tb_state := AList.update k v (tb_state s)\<rparr>"

definition sql_getKey :: "SqliteStore \<Rightarrow> string \<Rightarrow> string option" where
  "sql_getKey s k = map_of (tb_state s) k"

text \<open>\<open>v ? Number(v) : 0\<close>; \<open>None\<close> is \<open>NaN\<close>, for a text that is no number.\<close>

definition sql_getCursor :: "SqliteStore \<Rightarrow> string \<Rightarrow> int option" where
  "sql_getCursor s name =
     (case sql_getKey s name of None \<Rightarrow> Some 0 | Some v \<Rightarrow> if v = [] then Some 0 else bigintOf v)"

definition sql_setCursor :: "string \<Rightarrow> int \<Rightarrow> int \<Rightarrow> SqliteStore \<Rightarrow> SqliteStore" where
  "sql_setCursor name value now s =
     (case sql_getCursor s name of
        Some c \<Rightarrow> if value \<le> c then s else sql_setKey name (decInt value) now s
      | None \<Rightarrow> sql_setKey name (decInt value) now s)"

definition sql_isPaused :: "SqliteStore \<Rightarrow> bool" where
  "sql_isPaused s \<longleftrightarrow> sql_getKey s ''paused'' = Some ''1''"

definition sql_pause :: "string \<Rightarrow> int \<Rightarrow> SqliteStore \<Rightarrow> SqliteStore" where
  "sql_pause reason now s = sql_setKey ''pause_reason'' reason now (sql_setKey ''paused'' ''1'' now s)"

definition sql_unpause :: "int \<Rightarrow> SqliteStore \<Rightarrow> SqliteStore" where
  "sql_unpause now s = sql_setKey ''pause_reason'' [] now (sql_setKey ''paused'' ''0'' now s)"

definition sql_pauseReason :: "SqliteStore \<Rightarrow> string option" where
  "sql_pauseReason s = sql_getKey s ''pause_reason''"

definition sql_getState :: "SqliteStore \<Rightarrow> string \<Rightarrow> string option" where
  "sql_getState s k = sql_getKey s k"

definition sql_setState :: "string \<Rightarrow> string \<Rightarrow> int \<Rightarrow> SqliteStore \<Rightarrow> SqliteStore" where
  "sql_setState k v now s = sql_setKey k v now s"

lemma sql_getKey_setKey [simp]:
  "sql_getKey (sql_setKey k v now s) k' = (if k' = k then Some v else sql_getKey s k')"
  by (simp add: sql_getKey_def sql_setKey_def)

lemma sql_setKey_tables [simp]:
  "tb_outbox (sql_setKey k v now s) = tb_outbox s"
  "tb_cap_window (sql_setKey k v now s) = tb_cap_window s"
  "tb_pegin_rate (sql_setKey k v now s) = tb_pegin_rate s"
  "tb_deposits (sql_setKey k v now s) = tb_deposits s"
  "tb_signed (sql_setKey k v now s) = tb_signed s"
  by (simp_all add: sql_setKey_def)

lemma sql_isPaused_setKey [simp]:
  "k \<noteq> ''paused'' \<Longrightarrow> sql_isPaused (sql_setKey k v now s) = sql_isPaused s"
  by (simp add: sql_isPaused_def)

lemma sql_pause_simps [simp]:
  "sql_isPaused (sql_pause reason now s)"
  "sql_pauseReason (sql_pause reason now s) = Some reason"
  "tb_outbox (sql_pause reason now s) = tb_outbox s"
  "tb_cap_window (sql_pause reason now s) = tb_cap_window s"
  "tb_pegin_rate (sql_pause reason now s) = tb_pegin_rate s"
  "tb_signed (sql_pause reason now s) = tb_signed s"
  "\<not> sql_isPaused (sql_unpause now s)"
  "tb_outbox (sql_unpause now s) = tb_outbox s"
  by (simp_all add: sql_pause_def sql_unpause_def sql_isPaused_def sql_pauseReason_def)

section \<open>The outbox\<close>

definition sql_get :: "SqliteStore \<Rightarrow> string \<Rightarrow> OutboxRecord option" where
  "sql_get s rid = List.find (\<lambda>r. ob_id r = rid) (tb_outbox s)"

definition collisionReason :: "string \<Rightarrow> string" where
  "collisionReason rid = ''idempotency-key collision on '' @ rid"

definition sql_enqueue :: "EnqueueInput \<Rightarrow> int \<Rightarrow> SqliteStore \<Rightarrow> bool \<times> SqliteStore" where
  "sql_enqueue i now s =
     (case sql_get s (ei_id i) of
        None \<Rightarrow> (True, s\<lparr>tb_outbox := tb_outbox s @ [recordOf i now]\<rparr>)
      | Some r \<Rightarrow>
          (False, if ob_digest r \<noteq> ei_digest i then sql_pause (collisionReason (ei_id i)) now s else s))"

definition updateRow :: "string \<Rightarrow> (OutboxRecord \<Rightarrow> OutboxRecord) \<Rightarrow> OutboxRecord list \<Rightarrow> OutboxRecord list" where
  "updateRow rid f rs = map (\<lambda>r. if ob_id r = rid then f r else r) rs"

definition sql_setStatus ::
  "string \<Rightarrow> ActionStatus \<Rightarrow> StatusPatch \<Rightarrow> int \<Rightarrow> SqliteStore \<Rightarrow> SqliteStore" where
  "sql_setStatus rid st p now s = s\<lparr>tb_outbox := updateRow rid (applyStatus st p now) (tb_outbox s)\<rparr>"

definition sql_setFee :: "string \<Rightarrow> int \<Rightarrow> int \<Rightarrow> SqliteStore \<Rightarrow> SqliteStore" where
  "sql_setFee rid fee now s = s\<lparr>tb_outbox := updateRow rid (applyFee fee now) (tb_outbox s)\<rparr>"

definition sql_delete :: "string \<Rightarrow> SqliteStore \<Rightarrow> SqliteStore" where
  "sql_delete rid s = s\<lparr>tb_outbox := filter (\<lambda>r. ob_id r \<noteq> rid) (tb_outbox s)\<rparr>"

definition sql_due :: "SqliteStore \<Rightarrow> int \<Rightarrow> ActionStatus list \<Rightarrow> OutboxRecord list" where
  "sql_due s now statuses =
     (if statuses = [] then []
      else sort_key ob_createdAt (visit s ''due''
        (filter (\<lambda>r. ob_status r \<in> set statuses \<and> ob_nextAttemptAt r \<le> now) (tb_outbox s))))"

definition sql_stale :: "SqliteStore \<Rightarrow> int \<Rightarrow> int \<Rightarrow> ActionStatus list \<Rightarrow> OutboxRecord list" where
  "sql_stale s now ageMs statuses =
     (if statuses = [] then []
      else visit s ''stale''
        (filter (\<lambda>r. ob_status r \<in> set statuses \<and> ob_updatedAt r < now - ageMs) (tb_outbox s)))"

definition MINTED_STATUSES :: "ActionStatus list" where
  "MINTED_STATUSES = [BROADCAST, CONFIRMED]"

definition ACTIVE_CHAIN_STATUSES :: "ActionStatus list" where
  "ACTIVE_CHAIN_STATUSES = [QUEUED, SIGNING, BROADCAST, CONFIRMED]"

definition chainFilter :: "RemoteChainId option \<Rightarrow> OutboxRecord \<Rightarrow> bool" where
  "chainFilter chain r \<longleftrightarrow> (case chain of None \<Rightarrow> True | Some c \<Rightarrow> ob_remoteChain r = Some c)"

definition sql_unsweptFees :: "SqliteStore \<Rightarrow> RemoteChainId option \<Rightarrow> int" where
  "sql_unsweptFees s chain =
     sum_list (map ob_feeMilliViz
       (filter (\<lambda>r. ob_direction r = O_PEG_IN \<and> ob_status r \<in> set MINTED_STATUSES \<and> chainFilter chain r)
         (tb_outbox s))) -
     sum_list (map ob_amountMilliViz
       (filter (\<lambda>r. ob_direction r = O_FEE_SWEEP \<and> ob_status r = CONFIRMED \<and> chainFilter chain r)
         (tb_outbox s)))"

definition pinnedPegIn :: "RemoteChainId option \<Rightarrow> OutboxRecord \<Rightarrow> bool" where
  "pinnedPegIn chain r \<longleftrightarrow> ob_direction r = O_PEG_IN \<and> ob_status r \<in> set MINTED_STATUSES \<and>
     \<not> (ob_status r = BROADCAST \<and> ob_feeMilliViz r = 0) \<and> chainFilter chain r"

definition sql_minPegInFee :: "SqliteStore \<Rightarrow> RemoteChainId option \<Rightarrow> int option" where
  "sql_minPegInFee s chain =
     (case filter (pinnedPegIn chain) (tb_outbox s) of
        [] \<Rightarrow> None
      | r # rs \<Rightarrow> Some (foldl (\<lambda>m x. if ob_feeMilliViz x < m then ob_feeMilliViz x else m)
                     (ob_feeMilliViz r) (r # rs)))"

text \<open>\<open>SELECT DISTINCT\<close> in the order of first occurrence among the visited rows.\<close>

definition firstOccurrences :: "'a list \<Rightarrow> 'a list" where
  "firstOccurrences xs = rev (remdups (rev xs))"

lemma set_firstOccurrences [simp]: "set (firstOccurrences xs) = set xs"
  by (simp add: firstOccurrences_def)

definition activeRows :: "OutboxRecord list \<Rightarrow> OutboxRecord list" where
  "activeRows rs = filter (\<lambda>r. ob_direction r = O_PEG_IN \<and> ob_remoteChain r \<noteq> None \<and>
     ob_status r \<in> set ACTIVE_CHAIN_STATUSES) rs"

definition sql_activeRemoteChains :: "SqliteStore \<Rightarrow> RemoteChainId list" where
  "sql_activeRemoteChains s =
     firstOccurrences (List.map_filter ob_remoteChain
       (visit s ''activeRemoteChains'' (activeRows (tb_outbox s))))"

section \<open>The cap window, the rate window, deposit addresses and claims\<close>

definition sql_recordCap :: "int \<Rightarrow> int \<Rightarrow> SqliteStore \<Rightarrow> SqliteStore" where
  "sql_recordCap amount now s = s\<lparr>tb_cap_window := tb_cap_window s @ [(now, amount)]\<rparr>"

definition sql_pruneCap :: "int \<Rightarrow> SqliteStore \<Rightarrow> SqliteStore" where
  "sql_pruneCap since s = s\<lparr>tb_cap_window := filter (\<lambda>e. \<not> fst e < since) (tb_cap_window s)\<rparr>"

definition sql_capSum :: "int \<Rightarrow> int \<Rightarrow> SqliteStore \<Rightarrow> int \<times> SqliteStore" where
  "sql_capSum since now s =
     (let s' = sql_pruneCap since s
      in (sum_list (map snd (filter (\<lambda>e. fst e \<le> now) (tb_cap_window s'))), s'))"

definition sql_tryReserveCap :: "int \<Rightarrow> int \<Rightarrow> int \<Rightarrow> int \<Rightarrow> SqliteStore \<Rightarrow> bool \<times> SqliteStore" where
  "sql_tryReserveCap amount cap since now s =
     (case sql_capSum since now s of (used, s') \<Rightarrow>
        if used + amount > cap then (False, s') else (True, sql_recordCap amount now s'))"

definition sql_tryReserveSenderRate ::
  "string \<Rightarrow> int \<Rightarrow> int \<Rightarrow> int \<Rightarrow> SqliteStore \<Rightarrow> bool \<times> SqliteStore" where
  "sql_tryReserveSenderRate sender maxPerWindow windowMs now s =
     (let s' = s\<lparr>tb_pegin_rate := filter (\<lambda>e. \<not> snd e < now - windowMs) (tb_pegin_rate s)\<rparr>;
          c = senderCount sender (now - windowMs) (tb_pegin_rate s')
      in if int c \<ge> maxPerWindow then (False, s')
         else (True, s'\<lparr>tb_pegin_rate := tb_pegin_rate s' @ [(sender, now)]\<rparr>))"

definition sql_registerDepositAddress ::
  "string \<Rightarrow> string \<Rightarrow> string \<Rightarrow> int \<Rightarrow> SqliteStore \<Rightarrow> SqliteStore" where
  "sql_registerDepositAddress vizAccount solAddress wvizAta now s =
     (if vizAccount \<in> da_vizAccount ` set (tb_deposits s) then s
      else s\<lparr>tb_deposits := tb_deposits s @
        [\<lparr>da_vizAccount = vizAccount, da_solAddress = solAddress, da_wvizAta = wvizAta,
          da_createdAt = now, da_scanTime = 0, da_priority = 0\<rparr>]\<rparr>)"

definition sql_depositAddressBy :: "SqliteStore \<Rightarrow> string \<Rightarrow> DepositAddressRecord option" where
  "sql_depositAddressBy s a = List.find (\<lambda>d. da_solAddress d = a \<or> da_wvizAta d = a)
     (visitDeposits s ''depositAddressBy'' (tb_deposits s))"

definition sql_depositAddressesForScan :: "SqliteStore \<Rightarrow> nat \<Rightarrow> DepositAddressRecord list" where
  "sql_depositAddressesForScan s limit =
     take limit (sort_key (\<lambda>d. (- da_priority d, da_scanTime d))
       (visitDeposits s ''depositAddressesForScan'' (tb_deposits s)))"

definition sql_touchDepositScan :: "string \<Rightarrow> int \<Rightarrow> SqliteStore \<Rightarrow> SqliteStore" where
  "sql_touchDepositScan vizAccount now s =
     s\<lparr>tb_deposits := map (\<lambda>d. if da_vizAccount d = vizAccount then d\<lparr>da_scanTime := now\<rparr> else d)
       (tb_deposits s)\<rparr>"

definition sql_getSignedProposal :: "SqliteStore \<Rightarrow> string \<Rightarrow> (string \<times> int) option" where
  "sql_getSignedProposal s actionId = map_of (tb_signed s) actionId"

definition sql_putSignedProposal ::
  "string \<Rightarrow> string \<Rightarrow> int \<Rightarrow> string option \<Rightarrow> SqliteStore \<Rightarrow> bool \<times> SqliteStore" where
  "sql_putSignedProposal actionId key expiresAtMs expectedPrevKey s =
     (case expectedPrevKey of
        None \<Rightarrow>
          (case sql_getSignedProposal s actionId of
             None \<Rightarrow> (True, s\<lparr>tb_signed := AList.update actionId (key, expiresAtMs) (tb_signed s)\<rparr>)
           | Some _ \<Rightarrow> (False, s))
      | Some prev \<Rightarrow>
          (case sql_getSignedProposal s actionId of
             Some (k, _) \<Rightarrow>
               if k = prev
               then (True, s\<lparr>tb_signed := AList.update actionId (key, expiresAtMs) (tb_signed s)\<rparr>)
               else (False, s)
           | None \<Rightarrow> (False, s)))"

section \<open>The laws hold\<close>

lemma find_updateRow:
  assumes "\<And>r. ob_id (f r) = ob_id r"
  shows "List.find (\<lambda>r. ob_id r = k) (updateRow rid f rs) =
    (if k = rid then map_option f (List.find (\<lambda>r. ob_id r = k) rs) else List.find (\<lambda>r. ob_id r = k) rs)"
  using assms by (induction rs) (auto simp: updateRow_def)

lemma updateRow_ids [simp]:
  assumes "\<And>r. ob_id (f r) = ob_id r"
  shows "map ob_id (updateRow rid f rs) = map ob_id rs"
  using assms by (simp add: updateRow_def comp_def if_distrib)

lemma find_append: "List.find P (xs @ ys) = (case List.find P xs of None \<Rightarrow> List.find P ys | Some x \<Rightarrow> Some x)"
  by (induction xs) auto

lemma sql_get_id: "sql_get s rid = Some r \<Longrightarrow> ob_id r = rid"
  by (auto simp: sql_get_def dest: find_Some_iff')

lemma sql_get_in: "sql_get s rid = Some r \<Longrightarrow> r \<in> set (tb_outbox s)"
  by (auto simp: sql_get_def dest: find_Some_iff')

lemma sql_get_None_iff: "sql_get s rid = None \<longleftrightarrow> rid \<notin> ob_id ` set (tb_outbox s)"
  by (auto simp: sql_get_def find_None_iff)

lemma find_distinct:
  "distinct (map ob_id rs) \<Longrightarrow> r \<in> set rs \<Longrightarrow> List.find (\<lambda>x. ob_id x = ob_id r) rs = Some r"
  by (induction rs) (auto simp: image_iff)

lemma sql_get_row: "sqlInv s \<Longrightarrow> r \<in> set (tb_outbox s) \<Longrightarrow> sql_get s (ob_id r) = Some r"
  by (simp add: sqlInv_def sql_get_def find_distinct)

lemma sql_get_pause [simp]: "sql_get (sql_pause reason now s) rid = sql_get s rid"
  by (simp add: sql_get_def)

lemma sql_paused_outbox [simp]: "sql_isPaused (s\<lparr>tb_outbox := rs\<rparr>) = sql_isPaused s"
  by (simp add: sql_isPaused_def sql_getKey_def)

lemma sqlInv_empty [simp]: "sqlInv emptySqlite"
  by (simp add: sqlInv_def emptySqlite_def)

lemma sql_get_setStatus:
  "sql_get (sql_setStatus k st p now s) k' = (if k' = k then map_option (applyStatus st p now) (sql_get s k) else sql_get s k')"
  by (simp add: sql_get_def sql_setStatus_def find_updateRow)

interpretation sq: outbox_ledger sqlInv sql_get sql_enqueue sql_setStatus sql_setFee sql_isPaused
proof
  fix s i now rid st p fee k r
  assume inv: "sqlInv s"
  show "sqlInv (snd (sql_enqueue i now s))"
    using inv sql_get_None_iff [of s "ei_id i"]
    by (auto simp: sqlInv_def sql_enqueue_def split: option.splits)
  show "sqlInv (sql_setStatus rid st p now s)" "sqlInv (sql_setFee rid fee now s)"
    using inv by (simp_all add: sqlInv_def sql_setStatus_def sql_setFee_def)
  show "ob_id r = k" if "sql_get s k = Some r" using that by (rule sql_get_id)
  show "fst (sql_enqueue i now s) \<longleftrightarrow> sql_get s (ei_id i) = None"
    by (simp add: sql_enqueue_def split: option.splits)
  show "sql_get (snd (sql_enqueue i now s)) k =
      (if k = ei_id i \<and> sql_get s k = None then Some (recordOf i now) else sql_get s k)"
    by (cases "sql_get s (ei_id i)") (auto simp: sql_enqueue_def sql_get_def find_append split: option.splits)
  show "sql_isPaused (snd (sql_enqueue i now s)) \<longleftrightarrow> sql_isPaused s \<or>
      (case sql_get s (ei_id i) of None \<Rightarrow> False | Some r \<Rightarrow> ob_digest r \<noteq> ei_digest i)"
    by (cases "sql_get s (ei_id i)") (auto simp: sql_enqueue_def)
  show "sql_get (sql_setStatus rid st p now s) k =
      (if k = rid then map_option (applyStatus st p now) (sql_get s rid) else sql_get s k)"
    by (simp add: sql_get_def sql_setStatus_def find_updateRow)
  show "sql_get (sql_setFee rid fee now s) k =
      (if k = rid then map_option (applyFee fee now) (sql_get s rid) else sql_get s k)"
    by (simp add: sql_get_def sql_setFee_def find_updateRow)
  show "sql_isPaused (sql_setStatus rid st p now s) = sql_isPaused s"
    "sql_isPaused (sql_setFee rid fee now s) = sql_isPaused s"
    by (simp_all add: sql_setStatus_def sql_setFee_def)
qed

lemmas sql_ledger [store_simps] =
  sq.get_enqueue sq.get_setStatus sq.get_setFee sq.paused_enqueue sq.paused_setStatus sq.paused_setFee

interpretation sqcap: cap_window tb_cap_window sql_tryReserveCap
proof
  fix amount cap since now s h
  let ?es = "tb_cap_window (s :: SqliteStore)"
  have live: "sum_list (map snd (filter (\<lambda>e. fst e \<le> now) (filter (\<lambda>e. \<not> fst e < since) ?es))) =
      windowSum since now ?es"
    by (simp add: windowSum_def not_less conj_commute)
  show "fst (sql_tryReserveCap amount cap since now s) \<longleftrightarrow> windowSum since now ?es + amount \<le> cap"
    using live by (simp add: sql_tryReserveCap_def sql_capSum_def sql_pruneCap_def not_less)
  show "notBefore h (tb_cap_window (snd (sql_tryReserveCap amount cap since now s))) =
      notBefore h (?es @ (if fst (sql_tryReserveCap amount cap since now s) then [(now, amount)] else []))"
    if "since \<le> h"
    using that
    by (auto simp: sql_tryReserveCap_def sql_capSum_def sql_pruneCap_def sql_recordCap_def notBefore_def
        intro: filter_cong)
  show "set (tb_cap_window (snd (sql_tryReserveCap amount cap since now s))) \<subseteq> insert (now, amount) (set ?es)"
    by (auto simp: sql_tryReserveCap_def sql_capSum_def sql_pruneCap_def sql_recordCap_def)
qed

lemma senderCount_prune:
  "h \<le> cutoff \<Longrightarrow> senderCount x cutoff (filter (\<lambda>e. \<not> snd e < h) es) = senderCount x cutoff es"
  by (induction es) (auto simp: senderCount_def)

lemma senderCount_append [simp]:
  "senderCount x cutoff (es @ fs) = senderCount x cutoff es + senderCount x cutoff fs"
  by (simp add: senderCount_def)

lemma senderCount_single:
  "senderCount x cutoff [(sender, t)] = (if sender = x \<and> cutoff < t then 1 else 0)"
  by (simp add: senderCount_def)

interpretation sqrate: rate_window tb_pegin_rate sql_tryReserveSenderRate
  by unfold_locales
    (auto simp: sql_tryReserveSenderRate_def senderCount_prune senderCount_single Let_def not_le)

interpretation sqkv: kv_state sql_getState sql_setState
  by unfold_locales (simp add: sql_getState_def sql_setState_def)

lemma decInt_not_Nil [simp]: "decInt i \<noteq> []"
  by (simp add: decInt_def)

interpretation sqcur: cursor_state sql_getCursor sql_setCursor
proof
  fix s n c v now n'
  show "sql_getCursor (sql_setCursor n v now s) n = Some (max c v)" if "sql_getCursor s n = Some c"
    using that by (simp add: sql_setCursor_def sql_getCursor_def max_def)
  show "sql_getCursor (sql_setCursor n v now s) n' = sql_getCursor s n'" if "n' \<noteq> n"
    using that by (auto simp: sql_setCursor_def sql_getCursor_def split: option.splits)
qed

interpretation sqclaims: proposal_claims sql_getSignedProposal sql_putSignedProposal
proof
  fix a k e prev s b
  show "fst (sql_putSignedProposal a k e prev s) \<longleftrightarrow> map_option fst (sql_getSignedProposal s a) = prev"
    by (cases prev; cases "sql_getSignedProposal s a") (auto simp: sql_putSignedProposal_def split: if_splits)
  show "sql_getSignedProposal (snd (sql_putSignedProposal a k e prev s)) b =
      (if b = a \<and> fst (sql_putSignedProposal a k e prev s) then Some (k, e) else sql_getSignedProposal s b)"
    by (cases prev; cases "sql_getSignedProposal s a")
      (auto simp: sql_putSignedProposal_def sql_getSignedProposal_def)
qed

section \<open>Properties\<close>

definition enqueue_example :: EnqueueInput where
  "enqueue_example = \<lparr>ei_id = ''ab01:3'', ei_direction = O_PEG_IN, ei_remoteChain = Some GRAM,
     ei_recipient = ''EQdest'', ei_sender = Some ''alice'', ei_amountMilliViz = 25000,
     ei_feeMilliViz = None, ei_digest = ''d1'', ei_status = None, ei_lastError = None,
     ei_parentId = None, ei_blockNum = Some 700\<rparr>"

text \<open>
  Once an id is claimed, no sequence of enqueues, status changes and fee pins removes its row
  or changes the event it stands for: the id, direction, chain, recipient, sender, amount, digest,
  parent and block stay those of the first claim.
\<close>

lemma ledger_row_permanent:
  assumes "sqlInv s" "sql_get s k = Some r"
  shows "\<exists>r'. sql_get (foldl (ledgerStep sql_enqueue sql_setStatus sql_setFee) s ops) k = Some r' \<and>
    sameEvent r r'"
  by (rule sq.run_sameEvent [OF assms])

text \<open>
  A second claim of an id is refused and changes no row; if it came with another digest (the
  same source id claiming a different event) the whole gateway is paused.
\<close>

lemma digest_collision_pauses:
  assumes "sqlInv s" "sql_get s (ei_id i) = Some r"
  shows "\<not> fst (sql_enqueue i now s) \<and> sql_get (snd (sql_enqueue i now s)) = sql_get s \<and>
    (sql_isPaused (snd (sql_enqueue i now s)) \<longleftrightarrow> sql_isPaused s \<or> ob_digest r \<noteq> ei_digest i)"
  using assms by (auto simp: sq.enqueue_result sq.paused_enqueue sq.get_enqueue fun_eq_iff)

text \<open>
  No sender is ever granted more than the limit of peg-ins in a window, whatever is requested
  in whatever order, as long as the clock does not run backwards.
\<close>

lemma sender_rate_bounded:
  assumes "sorted (map snd rs)" "rs \<noteq> []" "snd (last rs) \<le> u" "0 \<le> limit"
  shows "int (senderCount x (u - window) (tb_pegin_rate
    (foldl (\<lambda>s (sender, now). snd (sql_tryReserveSenderRate sender limit window now s)) emptySqlite rs))) \<le> limit"
proof (rule sqrate.rate_run)
  show "\<forall>u \<ge> snd (hd rs). int (senderCount x (u - window) (tb_pegin_rate emptySqlite)) \<le> limit"
    using assms(4) by (simp add: emptySqlite_def senderCount_def)
  show "sorted (snd (hd rs) # map snd rs)" using assms(1,2) by (cases rs) auto
  show "last (snd (hd rs) # map snd rs) \<le> u" using assms(2,3) by (simp add: last_map)
qed

text \<open>
  A scan cursor never moves back: after any sequence of writes it is the largest value ever
  written.
\<close>

lemma cursor_monotone:
  assumes "sql_getCursor s n = Some c"
  shows "sql_getCursor (foldl (\<lambda>s (v, now). sql_setCursor n v now s) s ws) n =
    Some (foldl (\<lambda>c w. max c (fst w)) c ws)"
  by (rule sqcur.cursor_run [OF assms])

end
