(* ===== verification/StoreMemory.thy ===== *)
theory StoreMemory
  imports StoreSqlite
begin

text \<open>
  \<open>InMemoryGatewayStore\<close> of \<open>packages/common/src/store.ts\<close>, the store of the tests, and the
  simulation between the two stores: the in-memory store is the reference the SQL store is
  checked against. A JavaScript \<open>Map\<close> is its association list in insertion order; the object a
  \<open>Map\<close> holds is mutated in place, which is \<^term>\<open>AList.map_entry\<close>.
\<close>

record MemStore =
  ms_rows :: "(string \<times> OutboxRecord) list"
  ms_caps :: "(int \<times> int) list"
  ms_deposits :: "(string \<times> DepositAddressRecord) list"
  ms_cursors :: "(string \<times> int) list"
  ms_paused :: bool
  ms_reason :: string
  ms_rates :: "(string \<times> int) list"
  ms_state :: "(string \<times> string) list"
  ms_signed :: "(string \<times> (string \<times> int)) list"

definition emptyMem :: MemStore where
  "emptyMem = \<lparr>ms_rows = [], ms_caps = [], ms_deposits = [], ms_cursors = [], ms_paused = False,
     ms_reason = [], ms_rates = [], ms_state = [], ms_signed = []\<rparr>"

definition mem_isPaused :: "MemStore \<Rightarrow> bool" where
  "mem_isPaused s = ms_paused s"

definition mem_pause :: "string \<Rightarrow> MemStore \<Rightarrow> MemStore" where
  "mem_pause reason s = s\<lparr>ms_paused := True, ms_reason := reason\<rparr>"

definition mem_unpause :: "MemStore \<Rightarrow> MemStore" where
  "mem_unpause s = s\<lparr>ms_paused := False, ms_reason := []\<rparr>"

definition mem_pauseReason :: "MemStore \<Rightarrow> string option" where
  "mem_pauseReason s = (if ms_reason s = [] then None else Some (ms_reason s))"

definition mem_get :: "MemStore \<Rightarrow> string \<Rightarrow> OutboxRecord option" where
  "mem_get s rid = map_of (ms_rows s) rid"

definition mem_enqueue :: "EnqueueInput \<Rightarrow> int \<Rightarrow> MemStore \<Rightarrow> bool \<times> MemStore" where
  "mem_enqueue i now s =
     (case mem_get s (ei_id i) of
        Some existing \<Rightarrow>
          (False, if ob_digest existing \<noteq> ei_digest i then mem_pause (collisionReason (ei_id i)) s else s)
      | None \<Rightarrow> (True, s\<lparr>ms_rows := AList.update (ei_id i) (recordOf i now) (ms_rows s)\<rparr>))"

definition mem_setStatus :: "string \<Rightarrow> ActionStatus \<Rightarrow> StatusPatch \<Rightarrow> int \<Rightarrow> MemStore \<Rightarrow> MemStore" where
  "mem_setStatus rid st p now s = s\<lparr>ms_rows := AList.map_entry rid (applyStatus st p now) (ms_rows s)\<rparr>"

definition mem_setFee :: "string \<Rightarrow> int \<Rightarrow> int \<Rightarrow> MemStore \<Rightarrow> MemStore" where
  "mem_setFee rid fee now s = s\<lparr>ms_rows := AList.map_entry rid (applyFee fee now) (ms_rows s)\<rparr>"

definition mem_delete :: "string \<Rightarrow> MemStore \<Rightarrow> MemStore" where
  "mem_delete rid s = s\<lparr>ms_rows := AList.delete rid (ms_rows s)\<rparr>"

definition mem_due :: "MemStore \<Rightarrow> int \<Rightarrow> ActionStatus list \<Rightarrow> OutboxRecord list" where
  "mem_due s now statuses =
     sort_key ob_createdAt
       (filter (\<lambda>r. ob_status r \<in> set statuses \<and> ob_nextAttemptAt r \<le> now) (map snd (ms_rows s)))"

definition mem_stale :: "MemStore \<Rightarrow> int \<Rightarrow> int \<Rightarrow> ActionStatus list \<Rightarrow> OutboxRecord list" where
  "mem_stale s now ageMs statuses =
     filter (\<lambda>r. ob_status r \<in> set statuses \<and> ob_updatedAt r < now - ageMs) (map snd (ms_rows s))"

text \<open>The loop of \<open>unsweptFeesMilliViz\<close> with its two accumulators.\<close>

fun sweepLoop :: "RemoteChainId option \<Rightarrow> int \<times> int \<Rightarrow> OutboxRecord list \<Rightarrow> int \<times> int" where
  "sweepLoop chain acc [] = acc"
| "sweepLoop chain (minted, swept) (r # rs) =
     sweepLoop chain
       (if ob_direction r = O_PEG_IN \<and> (ob_status r = BROADCAST \<or> ob_status r = CONFIRMED) \<and>
           chainFilter chain r then minted + ob_feeMilliViz r else minted,
        if ob_direction r = O_FEE_SWEEP \<and> ob_status r = CONFIRMED \<and> chainFilter chain r
        then swept + ob_amountMilliViz r else swept) rs"

definition mem_unsweptFees :: "MemStore \<Rightarrow> RemoteChainId option \<Rightarrow> int" where
  "mem_unsweptFees s chain =
     (case sweepLoop chain (0, 0) (map snd (ms_rows s)) of (minted, swept) \<Rightarrow> minted - swept)"

fun minFeeLoop :: "RemoteChainId option \<Rightarrow> int option \<Rightarrow> OutboxRecord list \<Rightarrow> int option" where
  "minFeeLoop chain m [] = m"
| "minFeeLoop chain m (r # rs) =
     minFeeLoop chain
       (if ob_direction r = O_PEG_IN \<and> (ob_status r = BROADCAST \<or> ob_status r = CONFIRMED) \<and>
           chainFilter chain r
        then (if ob_status r = BROADCAST \<and> ob_feeMilliViz r = 0 then m
              else (case m of None \<Rightarrow> Some (ob_feeMilliViz r)
                    | Some v \<Rightarrow> if ob_feeMilliViz r < v then Some (ob_feeMilliViz r) else m))
        else m) rs"

definition mem_minPegInFee :: "MemStore \<Rightarrow> RemoteChainId option \<Rightarrow> int option" where
  "mem_minPegInFee s chain = minFeeLoop chain None (map snd (ms_rows s))"

fun activeLoop :: "RemoteChainId list \<Rightarrow> OutboxRecord list \<Rightarrow> RemoteChainId list" where
  "activeLoop active [] = active"
| "activeLoop active (r # rs) =
     activeLoop
       (case ob_remoteChain r of
          None \<Rightarrow> active
        | Some c \<Rightarrow>
            if ob_direction r = O_PEG_IN \<and> ob_status r \<in> {QUEUED, SIGNING, BROADCAST, CONFIRMED} \<and>
               c \<notin> set active
            then active @ [c] else active) rs"

definition mem_activeRemoteChains :: "MemStore \<Rightarrow> RemoteChainId list" where
  "mem_activeRemoteChains s = activeLoop [] (map snd (ms_rows s))"

definition mem_recordCap :: "int \<Rightarrow> int \<Rightarrow> MemStore \<Rightarrow> MemStore" where
  "mem_recordCap amount now s = s\<lparr>ms_caps := ms_caps s @ [(now, amount)]\<rparr>"

definition mem_capSum :: "int \<Rightarrow> int \<Rightarrow> MemStore \<Rightarrow> int" where
  "mem_capSum since now s =
     sum_list (map snd (filter (\<lambda>e. fst e \<ge> since \<and> fst e \<le> now) (ms_caps s)))"

definition mem_tryReserveCap :: "int \<Rightarrow> int \<Rightarrow> int \<Rightarrow> int \<Rightarrow> MemStore \<Rightarrow> bool \<times> MemStore" where
  "mem_tryReserveCap amount cap since now s =
     (if mem_capSum since now s + amount > cap then (False, s) else (True, mem_recordCap amount now s))"

definition mem_tryReserveSenderRate ::
  "string \<Rightarrow> int \<Rightarrow> int \<Rightarrow> int \<Rightarrow> MemStore \<Rightarrow> bool \<times> MemStore" where
  "mem_tryReserveSenderRate sender maxPerWindow windowMs now s =
     (let cutoff = now - windowMs; c = senderCount sender cutoff (ms_rates s)
      in if int c \<ge> maxPerWindow then (False, s)
         else (True, s\<lparr>ms_rates := ms_rates s @ [(sender, now)]\<rparr>))"

definition mem_registerDepositAddress ::
  "string \<Rightarrow> string \<Rightarrow> string \<Rightarrow> int \<Rightarrow> MemStore \<Rightarrow> MemStore" where
  "mem_registerDepositAddress vizAccount solAddress wvizAta now s =
     (if map_of (ms_deposits s) vizAccount \<noteq> None then s
      else s\<lparr>ms_deposits := AList.update vizAccount
        \<lparr>da_vizAccount = vizAccount, da_solAddress = solAddress, da_wvizAta = wvizAta,
         da_createdAt = now, da_scanTime = 0, da_priority = 0\<rparr> (ms_deposits s)\<rparr>)"

definition mem_depositAddressBy :: "MemStore \<Rightarrow> string \<Rightarrow> DepositAddressRecord option" where
  "mem_depositAddressBy s a =
     List.find (\<lambda>d. da_solAddress d = a \<or> da_wvizAta d = a) (map snd (ms_deposits s))"

definition mem_depositAddressesForScan :: "MemStore \<Rightarrow> nat \<Rightarrow> DepositAddressRecord list" where
  "mem_depositAddressesForScan s limit =
     take limit (sort_key (\<lambda>d. (- da_priority d, da_scanTime d)) (map snd (ms_deposits s)))"

definition mem_touchDepositScan :: "string \<Rightarrow> int \<Rightarrow> MemStore \<Rightarrow> MemStore" where
  "mem_touchDepositScan vizAccount now s =
     s\<lparr>ms_deposits := AList.map_entry vizAccount (\<lambda>d. d\<lparr>da_scanTime := now\<rparr>) (ms_deposits s)\<rparr>"

definition mem_getCursor :: "MemStore \<Rightarrow> string \<Rightarrow> int option" where
  "mem_getCursor s name = Some (case map_of (ms_cursors s) name of None \<Rightarrow> 0 | Some c \<Rightarrow> c)"

definition mem_setCursor :: "string \<Rightarrow> int \<Rightarrow> int \<Rightarrow> MemStore \<Rightarrow> MemStore" where
  "mem_setCursor name value now s =
     (if value > (case map_of (ms_cursors s) name of None \<Rightarrow> 0 | Some c \<Rightarrow> c)
      then s\<lparr>ms_cursors := AList.update name value (ms_cursors s)\<rparr> else s)"

definition mem_getState :: "MemStore \<Rightarrow> string \<Rightarrow> string option" where
  "mem_getState s k = map_of (ms_state s) k"

definition mem_setState :: "string \<Rightarrow> string \<Rightarrow> int \<Rightarrow> MemStore \<Rightarrow> MemStore" where
  "mem_setState k v now s = s\<lparr>ms_state := AList.update k v (ms_state s)\<rparr>"

definition mem_getSignedProposal :: "MemStore \<Rightarrow> string \<Rightarrow> (string \<times> int) option" where
  "mem_getSignedProposal s actionId = map_of (ms_signed s) actionId"

definition mem_putSignedProposal ::
  "string \<Rightarrow> string \<Rightarrow> int \<Rightarrow> string option \<Rightarrow> MemStore \<Rightarrow> bool \<times> MemStore" where
  "mem_putSignedProposal actionId key expiresAtMs expectedPrevKey s =
     (let prev = mem_getSignedProposal s actionId
      in if (expectedPrevKey = None \<and> prev \<noteq> None) \<or>
            (expectedPrevKey \<noteq> None \<and> map_option fst prev \<noteq> expectedPrevKey)
         then (False, s)
         else (True, s\<lparr>ms_signed := AList.update actionId (key, expiresAtMs) (ms_signed s)\<rparr>))"

section \<open>The in-memory store keeps the same laws\<close>

definition memInv :: "MemStore \<Rightarrow> bool" where
  "memInv s \<longleftrightarrow> distinct (map fst (ms_rows s)) \<and> (\<forall>(k, r) \<in> set (ms_rows s). ob_id r = k)"

lemma memInv_empty [simp]: "memInv emptyMem"
  by (simp add: memInv_def emptyMem_def)

lemma map_of_map_entry:
  "map_of (AList.map_entry k f al) k' = (if k' = k then map_option f (map_of al k) else map_of al k')"
  by (induction al) auto

lemma set_map_entry:
  "p \<in> set (AList.map_entry k f al) \<Longrightarrow> p \<in> set al \<or> (\<exists>v. (k, v) \<in> set al \<and> p = (k, f v))"
  by (induction al) (auto split: if_splits)

lemma memInv_map_entry:
  assumes "memInv s" "\<And>r. ob_id (f r) = ob_id r"
  shows "memInv (s\<lparr>ms_rows := AList.map_entry rid f (ms_rows s)\<rparr>)"
  using assms by (auto simp: memInv_def distinct_map_entry dest!: set_map_entry)

lemma update_fresh: "map_of al k = None \<Longrightarrow> AList.update k v al = al @ [(k, v)]"
  by (induction al) (auto split: if_splits)

interpretation mm: outbox_ledger memInv mem_get mem_enqueue mem_setStatus mem_setFee mem_isPaused
proof
  fix s i now rid st p fee k r
  assume inv: "memInv s"
  show "memInv (snd (mem_enqueue i now s))"
  proof (cases "mem_get s (ei_id i)")
    case None
    then have "ei_id i \<notin> fst ` set (ms_rows s)"
      by (simp add: mem_get_def map_of_eq_None_iff)
    with None inv show ?thesis
      by (auto simp: memInv_def mem_enqueue_def mem_get_def update_fresh)
  next
    case (Some a)
    with inv show ?thesis by (simp add: memInv_def mem_enqueue_def mem_pause_def)
  qed
  show "memInv (mem_setStatus rid st p now s)" "memInv (mem_setFee rid fee now s)"
    using inv by (simp_all add: mem_setStatus_def mem_setFee_def memInv_map_entry)
  show "ob_id r = k" if "mem_get s k = Some r"
    using inv that by (auto simp: memInv_def mem_get_def dest!: map_of_SomeD)
  show "fst (mem_enqueue i now s) \<longleftrightarrow> mem_get s (ei_id i) = None"
    by (simp add: mem_enqueue_def split: option.splits)
  show "mem_get (snd (mem_enqueue i now s)) k =
      (if k = ei_id i \<and> mem_get s k = None then Some (recordOf i now) else mem_get s k)"
    by (cases "mem_get s (ei_id i)") (auto simp: mem_enqueue_def mem_get_def mem_pause_def)
  show "mem_isPaused (snd (mem_enqueue i now s)) \<longleftrightarrow> mem_isPaused s \<or>
      (case mem_get s (ei_id i) of None \<Rightarrow> False | Some r \<Rightarrow> ob_digest r \<noteq> ei_digest i)"
    by (cases "mem_get s (ei_id i)") (auto simp: mem_enqueue_def mem_isPaused_def mem_pause_def)
  show "mem_get (mem_setStatus rid st p now s) k =
      (if k = rid then map_option (applyStatus st p now) (mem_get s rid) else mem_get s k)"
    by (simp add: mem_get_def mem_setStatus_def map_of_map_entry)
  show "mem_get (mem_setFee rid fee now s) k =
      (if k = rid then map_option (applyFee fee now) (mem_get s rid) else mem_get s k)"
    by (simp add: mem_get_def mem_setFee_def map_of_map_entry)
  show "mem_isPaused (mem_setStatus rid st p now s) = mem_isPaused s"
    "mem_isPaused (mem_setFee rid fee now s) = mem_isPaused s"
    by (simp_all add: mem_isPaused_def mem_setStatus_def mem_setFee_def)
qed

lemma mem_capSum_window: "mem_capSum since now s = windowSum since now (ms_caps s)"
  by (simp add: mem_capSum_def windowSum_def)

interpretation mmcap: cap_window ms_caps mem_tryReserveCap
  by unfold_locales (auto simp: mem_tryReserveCap_def mem_recordCap_def mem_capSum_window)

interpretation mmrate: rate_window ms_rates mem_tryReserveSenderRate
  by unfold_locales (auto simp: mem_tryReserveSenderRate_def senderCount_single Let_def)

interpretation mmkv: kv_state mem_getState mem_setState
  by unfold_locales (simp add: mem_getState_def mem_setState_def)

interpretation mmcur: cursor_state mem_getCursor mem_setCursor
  by unfold_locales (auto simp: mem_getCursor_def mem_setCursor_def)

interpretation mmclaims: proposal_claims mem_getSignedProposal mem_putSignedProposal
proof
  fix a k e prev s b
  show "fst (mem_putSignedProposal a k e prev s) \<longleftrightarrow> map_option fst (mem_getSignedProposal s a) = prev"
    by (cases "mem_getSignedProposal s a") (auto simp: mem_putSignedProposal_def Let_def)
  show "mem_getSignedProposal (snd (mem_putSignedProposal a k e prev s)) b =
      (if b = a \<and> fst (mem_putSignedProposal a k e prev s) then Some (k, e) else mem_getSignedProposal s b)"
    by (auto simp: mem_putSignedProposal_def mem_getSignedProposal_def Let_def)
qed

section \<open>The simulation\<close>

text \<open>
  The two stores hold the same rows in the same order, the same pause flag, deposit addresses
  and claims, and the same live part of the cap window: the SQL store prunes what lies before
  the last window start \<open>h\<close>, the in-memory store keeps it.
\<close>

definition storeSim :: "int \<Rightarrow> SqliteStore \<Rightarrow> MemStore \<Rightarrow> bool" where
  "storeSim h q m \<longleftrightarrow> memInv m \<and> tb_outbox q = map snd (ms_rows m) \<and>
     sql_isPaused q = mem_isPaused m \<and>
     notBefore h (tb_cap_window q) = notBefore h (ms_caps m)"

lemma storeSim_empty: "storeSim h (emptySqlite\<lparr>tb_plan := plan\<rparr>) emptyMem"
  by (simp add: storeSim_def) (simp add: emptySqlite_def emptyMem_def sql_isPaused_def sql_getKey_def
      mem_isPaused_def notBefore_def)

lemma find_map_snd:
  "\<forall>(k, r) \<in> set al. ob_id r = k \<Longrightarrow> List.find (\<lambda>r. ob_id r = rid) (map snd al) = map_of al rid"
  by (induction al) auto

lemma sim_get: "storeSim h q m \<Longrightarrow> sql_get q rid = mem_get m rid"
  by (simp add: storeSim_def memInv_def sql_get_def mem_get_def find_map_snd)

lemma updateRow_fresh: "rid \<notin> ob_id ` set rs \<Longrightarrow> updateRow rid f rs = rs"
  unfolding updateRow_def by (rule map_idI) auto

lemma updateRow_map_entry:
  "distinct (map fst al) \<Longrightarrow> \<forall>(k, r) \<in> set al. ob_id r = k \<Longrightarrow>
   updateRow rid f (map snd al) = map snd (AList.map_entry rid f al)"
proof (induction al)
  case Nil
  then show ?case by (simp add: updateRow_def)
next
  case (Cons p al)
  obtain k r where p: "p = (k, r)" by (cases p)
  have ids: "ob_id ` set (map snd al) = fst ` set al"
    using Cons.prems(2) by force
  have step: "updateRow rid f (map snd (p # al)) =
      (if k = rid then f r else r) # updateRow rid f (map snd al)"
    using Cons.prems(2) p by (simp add: updateRow_def)
  show ?case
  proof (cases "k = rid")
    case True
    then have "rid \<notin> ob_id ` set (map snd al)" using ids Cons.prems(1) p by simp
    then have "updateRow rid f (map snd al) = map snd al" by (rule updateRow_fresh)
    with step True p show ?thesis by simp
  next
    case False
    with step Cons p show ?thesis by simp
  qed
qed

lemma sim_enqueue:
  assumes "storeSim h q m"
  shows "fst (sql_enqueue i now q) = fst (mem_enqueue i now m)"
    and "storeSim h (snd (sql_enqueue i now q)) (snd (mem_enqueue i now m))"
proof -
  note get = sim_get [OF assms, of "ei_id i"]
  show "fst (sql_enqueue i now q) = fst (mem_enqueue i now m)"
    using get by (simp add: sql_enqueue_def mem_enqueue_def split: option.splits)
  have "memInv (snd (mem_enqueue i now m))"
    using assms by (intro mm.inv_enqueue) (simp add: storeSim_def)
  then show "storeSim h (snd (sql_enqueue i now q)) (snd (mem_enqueue i now m))"
    using assms get
    by (cases "mem_get m (ei_id i)")
      (auto simp: storeSim_def sql_enqueue_def mem_enqueue_def mem_get_def update_fresh
        mem_pause_def mem_isPaused_def)
qed

lemma sim_setStatus:
  assumes "storeSim h q m"
  shows "storeSim h (sql_setStatus rid st p now q) (mem_setStatus rid st p now m)"
proof -
  have "memInv (mem_setStatus rid st p now m)"
    using assms by (intro mm.inv_setStatus) (simp add: storeSim_def)
  then show ?thesis
    using assms
    by (auto simp: storeSim_def sql_setStatus_def mem_setStatus_def updateRow_map_entry memInv_def
        mem_isPaused_def)
qed

lemma sim_setFee:
  assumes "storeSim h q m"
  shows "storeSim h (sql_setFee rid fee now q) (mem_setFee rid fee now m)"
proof -
  have "memInv (mem_setFee rid fee now m)"
    using assms by (intro mm.inv_setFee) (simp add: storeSim_def)
  then show ?thesis
    using assms
    by (auto simp: storeSim_def sql_setFee_def mem_setFee_def updateRow_map_entry memInv_def
        mem_isPaused_def)
qed

lemma sim_reserve:
  assumes "storeSim h q m" "h \<le> since"
  shows "fst (sql_tryReserveCap amount cap since now q) = fst (mem_tryReserveCap amount cap since now m)"
    and "storeSim since (snd (sql_tryReserveCap amount cap since now q))
           (snd (mem_tryReserveCap amount cap since now m))"
proof -
  have eq: "notBefore h (tb_cap_window q) = notBefore h (ms_caps m)"
    using assms(1) by (simp add: storeSim_def)
  then have eq': "notBefore since (tb_cap_window q) = notBefore since (ms_caps m)"
    using assms(2) by (metis notBefore_notBefore)
  show res: "fst (sql_tryReserveCap amount cap since now q) = fst (mem_tryReserveCap amount cap since now m)"
    using windowSum_cong [OF eq assms(2), of now] by (simp add: sqcap.reserve_result mmcap.reserve_result)
  have "notBefore since (tb_cap_window (snd (sql_tryReserveCap amount cap since now q))) =
      notBefore since (ms_caps (snd (mem_tryReserveCap amount cap since now m)))"
    using sqcap.reserve_entries [OF order_refl, of since amount cap now q]
      mmcap.reserve_entries [OF order_refl, of since amount cap now m] res eq' by simp
  then show "storeSim since (snd (sql_tryReserveCap amount cap since now q))
      (snd (mem_tryReserveCap amount cap since now m))"
    using assms(1)
    by (auto simp: storeSim_def sql_tryReserveCap_def sql_capSum_def sql_pruneCap_def sql_recordCap_def
        mem_tryReserveCap_def mem_recordCap_def mem_isPaused_def memInv_def sql_isPaused_def
        sql_getKey_def Let_def)
qed

lemma sim_run:
  "storeSim h q m \<Longrightarrow>
   storeSim h (foldl (ledgerStep sql_enqueue sql_setStatus sql_setFee) q ops)
     (foldl (ledgerStep mem_enqueue mem_setStatus mem_setFee) m ops)"
proof (induction ops arbitrary: q m)
  case Nil
  then show ?case by simp
next
  case (Cons op ops)
  have "storeSim h (ledgerStep sql_enqueue sql_setStatus sql_setFee q op)
      (ledgerStep mem_enqueue mem_setStatus mem_setFee m op)"
    using Cons.prems by (cases op) (simp_all add: sim_enqueue sim_setStatus sim_setFee)
  then show ?case using Cons.IH by simp
qed

subsection \<open>The queries agree\<close>

text \<open>
  A work query returns the same rows; in which order the SQL store returns them is up to the
  database, except that the due rows are sorted by their creation.
\<close>

lemma sim_due:
  "storeSim h q m \<Longrightarrow> mset (sql_due q now sts) = mset (mem_due m now sts) \<and>
     sorted (map ob_createdAt (sql_due q now sts)) \<and> sorted (map ob_createdAt (mem_due m now sts))"
  by (auto simp: storeSim_def sql_due_def mem_due_def)

lemma sim_stale: "storeSim h q m \<Longrightarrow> mset (sql_stale q now age sts) = mset (mem_stale m now age sts)"
  by (auto simp: storeSim_def sql_stale_def mem_stale_def)

lemma sweepLoop_sums:
  "sweepLoop chain (a, b) rs =
    (a + sum_list (map ob_feeMilliViz (filter (\<lambda>r. ob_direction r = O_PEG_IN \<and>
          ob_status r \<in> set MINTED_STATUSES \<and> chainFilter chain r) rs)),
     b + sum_list (map ob_amountMilliViz (filter (\<lambda>r. ob_direction r = O_FEE_SWEEP \<and>
          ob_status r = CONFIRMED \<and> chainFilter chain r) rs)))"
  by (induction rs arbitrary: a b) (auto simp: MINTED_STATUSES_def)

lemma sim_unsweptFees: "storeSim h q m \<Longrightarrow> sql_unsweptFees q chain = mem_unsweptFees m chain"
  by (simp add: storeSim_def sql_unsweptFees_def mem_unsweptFees_def sweepLoop_sums)

lemma minFeeLoop_Cons:
  "minFeeLoop chain m (r # rs) =
     minFeeLoop chain
       (if pinnedPegIn chain r
        then Some (case m of None \<Rightarrow> ob_feeMilliViz r
                   | Some v \<Rightarrow> if ob_feeMilliViz r < v then ob_feeMilliViz r else v)
        else m) rs"
  by (auto simp: pinnedPegIn_def MINTED_STATUSES_def split: option.split)

lemma minFeeLoop_Some:
  "minFeeLoop chain (Some v) rs =
     Some (foldl (\<lambda>m x. if ob_feeMilliViz x < m then ob_feeMilliViz x else m) v
       (filter (pinnedPegIn chain) rs))"
proof (induction rs arbitrary: v)
  case Nil
  then show ?case by simp
next
  case (Cons r rs)
  then show ?case unfolding minFeeLoop_Cons by simp
qed

lemma minFeeLoop_None:
  "minFeeLoop chain None rs =
     (case filter (pinnedPegIn chain) rs of [] \<Rightarrow> None
      | r # rs' \<Rightarrow> Some (foldl (\<lambda>m x. if ob_feeMilliViz x < m then ob_feeMilliViz x else m)
          (ob_feeMilliViz r) rs'))"
proof (induction rs)
  case Nil
  then show ?case by simp
next
  case (Cons r rs)
  then show ?case unfolding minFeeLoop_Cons by (simp add: minFeeLoop_Some)
qed

lemma sim_minPegInFee: "storeSim h q m \<Longrightarrow> sql_minPegInFee q chain = mem_minPegInFee m chain"
  by (simp add: storeSim_def sql_minPegInFee_def mem_minPegInFee_def minFeeLoop_None split: list.splits)

lemma firstOccurrences_snoc:
  "firstOccurrences (xs @ [x]) = (if x \<in> set xs then firstOccurrences xs else firstOccurrences xs @ [x])"
  by (simp add: firstOccurrences_def)

lemma activeLoop_eq:
  "activeLoop (firstOccurrences cs) rs =
     firstOccurrences (cs @ List.map_filter ob_remoteChain (activeRows rs))"
proof (induction rs arbitrary: cs)
  case Nil
  then show ?case by (simp add: activeRows_def map_filter_simps)
next
  case (Cons r rs)
  show ?case
  proof (cases "ob_direction r = O_PEG_IN \<and> ob_status r \<in> set ACTIVE_CHAIN_STATUSES")
    case True
    show ?thesis
    proof (cases "ob_remoteChain r")
      case None
      with True Cons.IH show ?thesis by (simp add: activeRows_def)
    next
      case (Some c)
      with True Cons.IH [of "cs @ [c]"] show ?thesis
        by (auto simp: activeRows_def map_filter_simps firstOccurrences_snoc ACTIVE_CHAIN_STATUSES_def)
    qed
  next
    case False
    with Cons.IH show ?thesis
      by (auto simp: activeRows_def ACTIVE_CHAIN_STATUSES_def split: option.splits)
  qed
qed

lemma set_chains: "set (List.map_filter ob_remoteChain rs) = {c. \<exists>r \<in> set rs. ob_remoteChain r = Some c}"
  by (induction rs) (auto simp: map_filter_simps split: option.splits)

lemma sim_activeRemoteChains:
  assumes "storeSim h q m"
  shows "set (sql_activeRemoteChains q) = set (mem_activeRemoteChains m) \<and>
    distinct (sql_activeRemoteChains q) \<and> distinct (mem_activeRemoteChains m)"
proof -
  let ?rs = "map snd (ms_rows m)"
  have "mem_activeRemoteChains m = firstOccurrences (List.map_filter ob_remoteChain (activeRows ?rs))"
    using activeLoop_eq [of "[]"] by (simp add: mem_activeRemoteChains_def firstOccurrences_def)
  moreover have "set (List.map_filter ob_remoteChain (visit q ''activeRemoteChains'' (activeRows ?rs))) =
      set (List.map_filter ob_remoteChain (activeRows ?rs))" by (simp add: set_chains)
  ultimately show ?thesis using assms
    by (simp add: storeSim_def sql_activeRemoteChains_def) (simp add: firstOccurrences_def)
qed

lemmas sim_queries = sim_get sim_due sim_stale sim_unsweptFees sim_minPegInFee sim_activeRemoteChains

section \<open>Properties\<close>


end
