(* ===== verification/Accounts.thy ===== *)
theory Accounts
  imports Types
begin

text \<open>
  The chain/account registry: \<open>packages/common/src/gatewayAccounts.ts\<close>. The receiving account
  of a deposit determines the chain it mints on, so the registry has to be injective.
\<close>

record GatewayAccounts =
  ga_byChain :: "(RemoteChainId \<times> string) list"
  ga_byAccount :: "(string \<times> RemoteChainId) list"

text \<open>The loop of the constructor over \<open>Object.entries(map)\<close>, then the final check.\<close>

fun addAccounts :: "GatewayAccounts \<Rightarrow> (RemoteChainId \<times> string) list \<Rightarrow> GatewayAccounts result" where
  "addAccounts ga [] = Inr ga"
| "addAccounts ga ((chain, account) # es) =
     (if account = [] then Inl (GenericError ''gateway-accounts: missing/empty account'')
      else if map_of (ga_byAccount ga) account \<noteq> None
      then Inl (GenericError ''gateway-accounts: account maps to two chains'')
      else addAccounts \<lparr>ga_byChain = AList.update chain account (ga_byChain ga),
                        ga_byAccount = AList.update account chain (ga_byAccount ga)\<rparr> es)"

definition newGatewayAccounts :: "(RemoteChainId \<times> string) list \<Rightarrow> GatewayAccounts result" where
  "newGatewayAccounts es =
     bindE (addAccounts \<lparr>ga_byChain = [], ga_byAccount = []\<rparr> es)
       (\<lambda>ga. if ga_byChain ga = [] then Inl (GenericError ''gateway-accounts: empty registry'') else Inr ga)"

definition accountFor :: "GatewayAccounts \<Rightarrow> RemoteChainId \<Rightarrow> string result" where
  "accountFor ga chain =
     (case map_of (ga_byChain ga) chain of
        None \<Rightarrow> Inl (GenericError ''gateway-accounts: no backing account'')
      | Some a \<Rightarrow> if a = [] then Inl (GenericError ''gateway-accounts: no backing account'') else Inr a)"

definition chainFor :: "GatewayAccounts \<Rightarrow> string \<Rightarrow> RemoteChainId result" where
  "chainFor ga account =
     (case map_of (ga_byAccount ga) account of
        None \<Rightarrow> Inl (GenericError ''gateway-accounts: unmapped account'')
      | Some c \<Rightarrow> Inr c)"

definition isBackingAccount :: "GatewayAccounts \<Rightarrow> string \<Rightarrow> bool" where
  "isBackingAccount ga account \<longleftrightarrow> map_of (ga_byAccount ga) account \<noteq> None"

definition allAccounts :: "GatewayAccounts \<Rightarrow> string list" where
  "allAccounts ga = map fst (ga_byAccount ga)"

section \<open>The registry invariant\<close>

text \<open>
  The two maps are inverse to each other. The keys of a JavaScript object are distinct, which
  is the hypothesis on the entries.
\<close>

definition accountsInverse :: "GatewayAccounts \<Rightarrow> bool" where
  "accountsInverse ga \<longleftrightarrow>
     (\<forall>c a. map_of (ga_byChain ga) c = Some a \<longleftrightarrow> map_of (ga_byAccount ga) a = Some c) \<and>
     (\<forall>c a. map_of (ga_byChain ga) c = Some a \<longrightarrow> a \<noteq> [])"

lemma addAccounts_inverse:
  assumes "addAccounts ga es = Inr ga'" "accountsInverse ga" "distinct (map fst es)"
    "\<forall>c \<in> fst ` set es. map_of (ga_byChain ga) c = None"
  shows "accountsInverse ga'"
  using assms
proof (induction ga es rule: addAccounts.induct)
  case (1 ga)
  then show ?case by simp
next
  case (2 ga chain account es)
  let ?ga = "\<lparr>ga_byChain = AList.update chain account (ga_byChain ga),
              ga_byAccount = AList.update account chain (ga_byAccount ga)\<rparr>"
  from 2(2) have ne: "account \<noteq> []" and fresh: "map_of (ga_byAccount ga) account = None"
    and rest: "addAccounts ?ga es = Inr ga'"
    by (auto split: if_splits)
  have freshC: "map_of (ga_byChain ga) chain = None" using 2(5) by simp
  have "accountsInverse ?ga"
    using 2(3) ne fresh freshC by (auto simp: accountsInverse_def) (metis option.distinct(1))+
  moreover have "\<forall>c \<in> fst ` set es. map_of (ga_byChain ?ga) c = None"
    using 2(4,5) by (auto simp: rev_image_eqI)
  ultimately show ?case
    using 2(1) [OF ne _ rest] fresh 2(4) by simp
qed

lemma newGatewayAccounts_inverse:
  "newGatewayAccounts es = Inr ga \<Longrightarrow> distinct (map fst es) \<Longrightarrow> accountsInverse ga"
proof -
  assume "newGatewayAccounts es = Inr ga" and d: "distinct (map fst es)"
  then have "addAccounts \<lparr>ga_byChain = [], ga_byAccount = []\<rparr> es = Inr ga"
    by (auto simp: newGatewayAccounts_def err_simps split: if_splits)
  then show "accountsInverse ga"
    by (rule addAccounts_inverse) (simp_all add: accountsInverse_def d)
qed

lemma accountFor_iff:
  assumes "accountsInverse ga"
  shows "accountFor ga c = Inr a \<longleftrightarrow> map_of (ga_byChain ga) c = Some a"
proof -
  have "a \<noteq> []" if "map_of (ga_byChain ga) c = Some a" for a
    using that assms unfolding accountsInverse_def by blast
  then show ?thesis by (cases "map_of (ga_byChain ga) c") (auto simp: accountFor_def)
qed

lemma chainFor_iff: "chainFor ga a = Inr c \<longleftrightarrow> map_of (ga_byAccount ga) a = Some c"
  by (auto simp: chainFor_def split: option.splits)

section \<open>The registry interface\<close>

text \<open>
  What the readers and signers rely on: the two lookups are inverse. The interface is
  interpreted on the lookups of every registry the constructor builds from a configuration.
\<close>

locale chain_registry =
  fixes acc :: "RemoteChainId \<Rightarrow> string option"
    and chn :: "string \<Rightarrow> RemoteChainId option"
  assumes inverse: "chn a = Some c \<longleftrightarrow> acc c = Some a"
begin

lemma account_injective: "acc c = Some a \<Longrightarrow> acc c' = Some a \<Longrightarrow> c = c'"
  using inverse by (metis option.inject)

lemma chain_injective: "chn a = Some c \<Longrightarrow> chn b = Some c \<Longrightarrow> a = b"
  using inverse by (metis option.inject)

lemma round_trip: "acc c = Some a \<Longrightarrow> chn a = Some c"
  using inverse by blast

end

definition registryAccount :: "(RemoteChainId \<times> string) list \<Rightarrow> RemoteChainId \<Rightarrow> string option" where
  "registryAccount es c =
     (if distinct (map fst es) then
        (case newGatewayAccounts es of Inl _ \<Rightarrow> None
         | Inr ga \<Rightarrow> (case accountFor ga c of Inl _ \<Rightarrow> None | Inr a \<Rightarrow> Some a))
      else None)"

definition registryChain :: "(RemoteChainId \<times> string) list \<Rightarrow> string \<Rightarrow> RemoteChainId option" where
  "registryChain es a =
     (if distinct (map fst es) then
        (case newGatewayAccounts es of Inl _ \<Rightarrow> None
         | Inr ga \<Rightarrow> (case chainFor ga a of Inl _ \<Rightarrow> None | Inr c \<Rightarrow> Some c))
      else None)"

lemma registry_lookups:
  assumes "newGatewayAccounts es = Inr ga" "distinct (map fst es)"
  shows "registryAccount es c = Some a \<longleftrightarrow> accountFor ga c = Inr a"
    and "registryChain es a = Some c \<longleftrightarrow> chainFor ga a = Inr c"
  using assms by (auto simp: registryAccount_def registryChain_def split: sum.splits)

interpretation reg: chain_registry "registryAccount es" "registryChain es" for es
proof
  fix a c
  show "registryChain es a = Some c \<longleftrightarrow> registryAccount es c = Some a"
  proof (cases "distinct (map fst es) \<and> isOk (newGatewayAccounts es)")
    case True
    then obtain ga where ga: "newGatewayAccounts es = Inr ga" and d: "distinct (map fst es)"
      by (auto simp: isOk_iff)
    then have "accountsInverse ga" by (rule newGatewayAccounts_inverse)
    then show ?thesis
      unfolding registry_lookups [OF ga d] chainFor_iff
      using accountFor_iff by (auto simp: accountsInverse_def)
  next
    case False
    then show ?thesis
      by (auto simp: registryAccount_def registryChain_def split: sum.splits)
  qed
qed

text \<open>Two chains never share a backing account.\<close>

lemma backing_accounts_distinct:
  assumes "newGatewayAccounts es = Inr ga" "distinct (map fst es)"
    and "accountFor ga c = Inr a" "accountFor ga c' = Inr a"
  shows "c = c'"
  using assms reg.account_injective [of es c a c'] by (simp add: registry_lookups)

lemma chainFor_accountFor:
  assumes "newGatewayAccounts es = Inr ga" "distinct (map fst es)" "accountFor ga c = Inr a"
  shows "chainFor ga a = Inr c"
  using assms reg.round_trip [of es c a] by (simp add: registry_lookups)

section \<open>Properties\<close>

text \<open>
  Every chain has its own backing account: in a registry the constructor accepts, no two
  chains share an account, and the chain a backing account is looked up as is the chain it backs.
\<close>

lemma registry_one_account_per_chain:
  assumes "newGatewayAccounts es = Inr ga" "distinct (map fst es)" "accountFor ga c = Inr a"
  shows "chainFor ga a = Inr c \<and> (\<forall>c'. accountFor ga c' = Inr a \<longrightarrow> c' = c)"
  using chainFor_accountFor [OF assms] backing_accounts_distinct [OF assms(1,2) _ assms(3)] by blast

end
