(* ===== verification/Threshold.thy ===== *)
theory Threshold
  imports Types
begin

text \<open>
  \<open>ApprovalSet\<close> of \<open>packages/common/src/threshold.ts\<close>: distinct approvals of known operators,
  per action.
\<close>

record ApprovalSet =
  as_threshold :: nat
  as_knownOperators :: "string list"
  as_byAction :: "(string \<times> (string \<times> Approval) list) list"

definition newApprovalSet :: "nat \<Rightarrow> string list \<Rightarrow> ApprovalSet" where
  "newApprovalSet thr operators =
     \<lparr>as_threshold = thr, as_knownOperators = operators, as_byAction = []\<rparr>"

definition approvalsOf :: "ApprovalSet \<Rightarrow> string \<Rightarrow> (string \<times> Approval) list" where
  "approvalsOf t actionId = (case map_of (as_byAction t) actionId of None \<Rightarrow> [] | Some m \<Rightarrow> m)"

definition as_add :: "Approval \<Rightarrow> ApprovalSet \<Rightarrow> bool \<times> ApprovalSet" where
  "as_add a t =
     (if apr_operatorId a \<notin> set (as_knownOperators t) then (False, t)
      else
        let m = approvalsOf t (apr_actionId a);
            t' = (case map_of (as_byAction t) (apr_actionId a) of
                    None \<Rightarrow> t\<lparr>as_byAction := AList.update (apr_actionId a) [] (as_byAction t)\<rparr>
                  | Some _ \<Rightarrow> t)
        in if map_of m (apr_operatorId a) \<noteq> None then (False, t')
           else (True, t'\<lparr>as_byAction :=
             AList.update (apr_actionId a) (AList.update (apr_operatorId a) a m) (as_byAction t')\<rparr>))"

definition as_count :: "ApprovalSet \<Rightarrow> string \<Rightarrow> nat" where
  "as_count t actionId = length (approvalsOf t actionId)"

definition as_isMet :: "ApprovalSet \<Rightarrow> string \<Rightarrow> bool" where
  "as_isMet t actionId \<longleftrightarrow> as_count t actionId \<ge> as_threshold t"

definition as_approvals :: "ApprovalSet \<Rightarrow> string \<Rightarrow> Approval list" where
  "as_approvals t actionId = map snd (approvalsOf t actionId)"

section \<open>The invariant\<close>

text \<open>Every stored approval is for its action and operator, known, and there is one per operator.\<close>

definition approvalInv :: "ApprovalSet \<Rightarrow> bool" where
  "approvalInv t \<longleftrightarrow> (\<forall>aid. distinct (map fst (approvalsOf t aid)) \<and>
     (\<forall>(o', a) \<in> set (approvalsOf t aid).
        apr_operatorId a = o' \<and> apr_actionId a = aid \<and> o' \<in> set (as_knownOperators t)))"

lemma newApprovalSet_inv [simp]: "approvalInv (newApprovalSet thr ops)"
  by (simp add: approvalInv_def newApprovalSet_def approvalsOf_def)

lemma newApprovalSet_simps [simp]:
  "approvalsOf (newApprovalSet thr ops) aid = []"
  "as_threshold (newApprovalSet thr ops) = thr"
  "as_knownOperators (newApprovalSet thr ops) = ops"
  by (simp_all add: newApprovalSet_def approvalsOf_def)

lemma as_add_frame [simp]:
  "as_threshold (snd (as_add a t)) = as_threshold t"
  "as_knownOperators (snd (as_add a t)) = as_knownOperators t"
  by (auto simp: as_add_def Let_def split: option.split)

lemma as_add_result:
  "fst (as_add a t) \<longleftrightarrow> apr_operatorId a \<in> set (as_knownOperators t) \<and>
     apr_operatorId a \<notin> fst ` set (approvalsOf t (apr_actionId a))"
  by (auto simp: as_add_def Let_def map_of_eq_None_iff)

lemma AList_update_fresh: "k \<notin> fst ` set al \<Longrightarrow> AList.update k v al = al @ [(k, v)]"
  by (induction al) auto

lemma approvalsOf_add:
  "approvalsOf (snd (as_add a t)) aid =
     approvalsOf t aid @ (if fst (as_add a t) \<and> aid = apr_actionId a then [(apr_operatorId a, a)] else [])"
proof (cases "fst (as_add a t)")
  case True
  then have known: "apr_operatorId a \<in> set (as_knownOperators t)"
    and fresh: "apr_operatorId a \<notin> fst ` set (approvalsOf t (apr_actionId a))"
    by (simp_all add: as_add_result)
  then have none: "map_of (approvalsOf t (apr_actionId a)) (apr_operatorId a) = None"
    by (simp add: map_of_eq_None_iff)
  have upd: "AList.update (apr_operatorId a) a (approvalsOf t (apr_actionId a)) =
      approvalsOf t (apr_actionId a) @ [(apr_operatorId a, a)]"
    using fresh by (rule AList_update_fresh)
  show ?thesis
    using True known none upd
    by (auto simp: as_add_def Let_def approvalsOf_def split: option.split)
next
  case False
  then show ?thesis by (auto simp: as_add_def Let_def approvalsOf_def split: option.split)
qed

lemma as_add_inv: "approvalInv t \<Longrightarrow> approvalInv (snd (as_add a t))"
  unfolding approvalInv_def by (auto simp: approvalsOf_add as_add_result)

text \<open>An approval collected for an action is one that was added.\<close>

lemma as_approvals_add:
  "x \<in> set (as_approvals (snd (as_add a t)) aid) \<Longrightarrow> x \<in> set (as_approvals t aid) \<or> x = a"
  by (auto simp: as_approvals_def approvalsOf_add split: if_splits)

lemma as_count_add_le: "as_count (snd (as_add a t)) aid \<le> Suc (as_count t aid)"
  by (simp add: as_count_def approvalsOf_add)

lemma approvalInv_operators:
  assumes "approvalInv t"
  shows "distinct (map apr_operatorId (as_approvals t aid))"
    and "set (map apr_operatorId (as_approvals t aid)) \<subseteq> set (as_knownOperators t)"
    and "length (as_approvals t aid) = as_count t aid"
proof -
  have "map apr_operatorId (as_approvals t aid) = map fst (approvalsOf t aid)"
    using assms by (force simp: approvalInv_def as_approvals_def)
  then show "distinct (map apr_operatorId (as_approvals t aid))"
    and "set (map apr_operatorId (as_approvals t aid)) \<subseteq> set (as_knownOperators t)"
    using assms by (force simp: approvalInv_def)+
  show "length (as_approvals t aid) = as_count t aid" by (simp add: as_approvals_def as_count_def)
qed

end
