(* ===== verification/Orchestrator.thy ===== *)
theory Orchestrator
  imports Threshold
begin

text \<open>
  \<open>Orchestrator\<close> of \<open>packages/coordinator/src/orchestrator.ts\<close>: one action driven to a
  broadcast. The state of everything the collaborators touch (the shared store, the signers'
  stores, the chains) is a world \<open>'w\<close> the calls pass on; a proposal is a value of \<open>'p\<close>, which
  the orchestrator only hands around. The broadcasters and signers are parameters here; the
  theory Broadcasters instantiates them with the code's own.
\<close>

record 'p BuildResult =
  br_proposal :: 'p
  br_feeMilliViz :: int

record ('p, 'w) Broadcaster =
  bc_buildProposal :: "CanonicalAction \<Rightarrow> 'w \<Rightarrow> 'p BuildResult result \<times> 'w"
  bc_broadcast :: "CanonicalAction \<Rightarrow> 'p \<Rightarrow> string list \<Rightarrow> 'w \<Rightarrow> string result \<times> 'w"
  bc_actionExecuted :: "CanonicalAction \<Rightarrow> 'w \<Rightarrow> (bool \<times> string option) result \<times> 'w"

record ('p, 'w) SignerClient =
  sc_operatorId :: string
  sc_approve :: "CanonicalAction \<Rightarrow> 'p \<Rightarrow> SourceHint option \<Rightarrow> 'w \<Rightarrow> Approval result \<times> 'w"

record OrchestrationResult =
  or_actionId :: string
  or_approvals :: nat
  or_threshold :: nat
  or_broadcast :: bool
  or_txid :: "string option"
  or_feeMilliViz :: string
  or_error :: "string option"

type_synonym 'w persist = "string \<Rightarrow> int \<Rightarrow> 'w \<Rightarrow> unit result \<times> 'w"

definition pinFee :: "'w persist option \<Rightarrow> CanonicalAction \<Rightarrow> int \<Rightarrow> 'w \<Rightarrow> 'w" where
  "pinFee persistFee action fee w =
     (case persistFee of
        None \<Rightarrow> w
      | Some f \<Rightarrow>
          if act_direction action \<noteq> PEG_IN \<or> fee \<le> 0 then w
          else snd (f (act_id action) fee w))"

text \<open>
  The loop over the signers: a refusal is skipped, an approval is added, and the loop stops as
  soon as the threshold is met.
\<close>

fun collect ::
  "CanonicalAction \<Rightarrow> 'p \<Rightarrow> SourceHint option \<Rightarrow> ('p, 'w) SignerClient list \<Rightarrow> ApprovalSet \<Rightarrow> 'w \<Rightarrow>
   ApprovalSet \<times> 'w" where
  "collect action proposal hint [] t w = (t, w)"
| "collect action proposal hint (signer # signers) t w =
     (case sc_approve signer action proposal hint w of (r, w') \<Rightarrow>
        let t' = (case r of Inl _ \<Rightarrow> t | Inr a \<Rightarrow> snd (as_add a t))
        in if as_isMet t' (act_id action) then (t', w')
           else collect action proposal hint signers t' w')"

definition orchestrate ::
  "nat \<Rightarrow> string list \<Rightarrow> ('p, 'w) SignerClient list \<Rightarrow> ('p, 'w) Broadcaster \<Rightarrow> 'w persist option \<Rightarrow>
   CanonicalAction \<Rightarrow> SourceHint option \<Rightarrow> 'w \<Rightarrow> OrchestrationResult result \<times> 'w" where
  "orchestrate thr operators signers bc persistFee action hint w =
     (case bc_actionExecuted bc action w of
        (Inl e, w1) \<Rightarrow> (Inl e, w1)
      | (Inr (True, txid), w1) \<Rightarrow>
          (case bc_buildProposal bc action w1 of
             (Inl _, w2) \<Rightarrow>
               (Inr \<lparr>or_actionId = act_id action, or_approvals = 0, or_threshold = thr,
                  or_broadcast = True, or_txid = txid, or_feeMilliViz = decInt 0, or_error = None\<rparr>, w2)
           | (Inr b, w2) \<Rightarrow>
               (Inr \<lparr>or_actionId = act_id action, or_approvals = 0, or_threshold = thr,
                  or_broadcast = True, or_txid = txid, or_feeMilliViz = decInt (br_feeMilliViz b),
                  or_error = None\<rparr>,
                pinFee persistFee action (br_feeMilliViz b) w2))
      | (Inr (False, _), w1) \<Rightarrow>
          (case bc_buildProposal bc action w1 of
             (Inl e, w2) \<Rightarrow> (Inl e, w2)
           | (Inr b, w2) \<Rightarrow>
               let fee = decInt (br_feeMilliViz b);
                   w3 = pinFee persistFee action (br_feeMilliViz b) w2
               in (case collect action (br_proposal b) hint signers (newApprovalSet thr operators) w3 of
                     (t, w4) \<Rightarrow>
                       let n = as_count t (act_id action)
                       in if \<not> as_isMet t (act_id action)
                          then (Inr \<lparr>or_actionId = act_id action, or_approvals = n, or_threshold = thr,
                                  or_broadcast = False, or_txid = None, or_feeMilliViz = fee,
                                  or_error = None\<rparr>, w4)
                          else (case bc_broadcast bc action (br_proposal b)
                                  (map apr_signature (as_approvals t (act_id action))) w4 of
                                  (Inr txid, w5) \<Rightarrow>
                                    (Inr \<lparr>or_actionId = act_id action, or_approvals = n,
                                       or_threshold = thr, or_broadcast = True, or_txid = Some txid,
                                       or_feeMilliViz = fee, or_error = None\<rparr>, w5)
                                | (Inl e, w5) \<Rightarrow>
                                    (Inr \<lparr>or_actionId = act_id action, or_approvals = n,
                                       or_threshold = thr, or_broadcast = False, or_txid = None,
                                       or_feeMilliViz = fee, or_error = Some (error_text e)\<rparr>, w5)))))"

section \<open>What a round collects\<close>

text \<open>Every approval in the set was returned by one of the signers, asked for this proposal.\<close>

definition answered ::
  "CanonicalAction \<Rightarrow> 'p \<Rightarrow> SourceHint option \<Rightarrow> ('p, 'w) SignerClient list \<Rightarrow> Approval \<Rightarrow> bool" where
  "answered action proposal hint signers a \<longleftrightarrow>
     (\<exists>signer \<in> set signers. \<exists>w. fst (sc_approve signer action proposal hint w) = Inr a)"

lemma answered_Cons: "answered action p hint ss a \<Longrightarrow> answered action p hint (s # ss) a"
  by (auto simp: answered_def)

lemma collect_inv:
  assumes "approvalInv t"
  shows "approvalInv (fst (collect action p hint signers t w))"
    and "as_threshold (fst (collect action p hint signers t w)) = as_threshold t"
    and "as_knownOperators (fst (collect action p hint signers t w)) = as_knownOperators t"
  using assms
  by (induction action p hint signers t w rule: collect.induct)
    (auto simp: Let_def as_add_inv split: prod.splits sum.splits)

lemma collect_answered:
  assumes "a \<in> set (as_approvals (fst (collect action p hint signers t w)) aid)"
  shows "a \<in> set (as_approvals t aid) \<or> answered action p hint signers a"
  using assms
proof (induction action p hint signers t w rule: collect.induct)
  case (1 action proposal hint t w)
  then show ?case by simp
next
  case (2 action proposal hint signer signers t w)
  obtain r w' where r: "sc_approve signer action proposal hint w = (r, w')"
    by (cases "sc_approve signer action proposal hint w")
  let ?t = "case r of Inl _ \<Rightarrow> t | Inr x \<Rightarrow> snd (as_add x t)"
  have step: "a \<in> set (as_approvals ?t aid) \<Longrightarrow>
      a \<in> set (as_approvals t aid) \<or> answered action proposal hint (signer # signers) a"
    using r by (cases r) (auto simp: answered_def dest!: as_approvals_add intro!: exI [of _ w])
  show ?case
  proof (cases "as_isMet ?t (act_id action)")
    case True
    with 2(2) r step show ?thesis by (simp add: Let_def)
  next
    case False
    with 2(2) r have "a \<in> set (as_approvals (fst (collect action proposal hint signers ?t w')) aid)"
      by (simp add: Let_def)
    then have "a \<in> set (as_approvals ?t aid) \<or> answered action proposal hint signers a"
      by (rule 2(1) [OF r [symmetric] refl False])
    then show ?thesis using step answered_Cons by metis
  qed
qed

section \<open>What a broadcast rests on\<close>

definition roundBroadcast ::
  "nat \<Rightarrow> string list \<Rightarrow> ('p, 'w) SignerClient list \<Rightarrow> ('p, 'w) Broadcaster \<Rightarrow> CanonicalAction \<Rightarrow>
   SourceHint option \<Rightarrow> 'w \<Rightarrow> string \<Rightarrow> bool" where
  "roundBroadcast thr operators signers bc action hint w0 txid \<longleftrightarrow>
     (\<exists>proposal aps w. (\<exists>b w1. bc_buildProposal bc action (snd (bc_actionExecuted bc action w0)) = (Inr b, w1) \<and>
          proposal = br_proposal b) \<and> thr \<le> length aps \<and> distinct (map apr_operatorId aps) \<and>
        set (map apr_operatorId aps) \<subseteq> set operators \<and>
        (\<forall>a \<in> set aps. apr_actionId a = act_id action \<and> answered action proposal hint signers a) \<and>
        fst (bc_broadcast bc action proposal (map apr_signature aps) w) = Inr txid)"

lemma orchestrate_broadcast:
  assumes "fst (orchestrate thr operators signers bc pf action hint w) = Inr r" "or_broadcast r"
  shows "(\<exists>w1. bc_actionExecuted bc action w = (Inr (True, or_txid r), w1)) \<or>
    (\<exists>txid. or_txid r = Some txid \<and> roundBroadcast thr operators signers bc action hint w txid)"
proof -
  obtain x w1 where x: "bc_actionExecuted bc action w = (x, w1)"
    by (cases "bc_actionExecuted bc action w")
  show ?thesis
  proof (cases x)
    case (Inl e)
    with assms x show ?thesis by (simp add: orchestrate_def)
  next
    case (Inr d)
    obtain executed txid where d: "d = (executed, txid)" by (cases d)
    show ?thesis
    proof (cases executed)
      case True
      with assms x Inr d show ?thesis
        by (auto simp: orchestrate_def split: prod.splits sum.splits)
    next
      case False
      obtain y w2 where y: "bc_buildProposal bc action w1 = (y, w2)"
        by (cases "bc_buildProposal bc action w1")
      then obtain b where b: "y = Inr b"
        using assms x Inr d False by (cases y) (auto simp: orchestrate_def)
      define w3 where "w3 = pinFee pf action (br_feeMilliViz b) w2"
      obtain t w4 where t: "collect action (br_proposal b) hint signers (newApprovalSet thr operators) w3 = (t, w4)"
        by (cases "collect action (br_proposal b) hint signers (newApprovalSet thr operators) w3")
      let ?aps = "as_approvals t (act_id action)"
      obtain z w5 where z: "bc_broadcast bc action (br_proposal b) (map apr_signature ?aps) w4 = (z, w5)"
        by (cases "bc_broadcast bc action (br_proposal b) (map apr_signature ?aps) w4")
      have met: "as_isMet t (act_id action)" and "\<exists>tx. z = Inr tx \<and> or_txid r = Some tx"
        using assms x Inr d False y b t z
        by (auto simp: orchestrate_def Let_def w3_def split: if_splits sum.splits)
      then obtain tx where tx: "z = Inr tx" "or_txid r = Some tx" by blast
      have inv: "approvalInv t" "as_threshold t = thr" "as_knownOperators t = operators"
        using collect_inv [OF newApprovalSet_inv, of action "br_proposal b" hint signers thr operators w3] t
        by simp_all
      have "\<forall>a \<in> set ?aps. answered action (br_proposal b) hint signers a"
        using collect_answered [of _ action "br_proposal b" hint signers "newApprovalSet thr operators" w3 "act_id action"] t
        by (auto simp: as_approvals_def)
      moreover have "\<forall>a \<in> set ?aps. apr_actionId a = act_id action"
        using inv(1) by (force simp: approvalInv_def as_approvals_def)
      ultimately have "roundBroadcast thr operators signers bc action hint w tx"
        unfolding roundBroadcast_def
        using met inv approvalInv_operators [OF inv(1), of "act_id action"] z tx(1) x y b
        by (intro exI [of _ "br_proposal b"] exI [of _ ?aps] exI [of _ w4]) (simp add: as_isMet_def)
      with tx(2) show ?thesis by blast
    qed
  qed
qed

text \<open>
  A signer that never approves adds nothing to the count, so a round whose willing signers are fewer
  than the threshold broadcasts nothing new.
\<close>

lemma collect_willing:
  assumes "\<And>s w. s \<in> set signers \<Longrightarrow> Q s \<Longrightarrow> \<not> isOk (fst (sc_approve s action p hint w))"
  shows "as_count (fst (collect action p hint signers t w)) aid \<le> as_count t aid + length (filter (\<lambda>s. \<not> Q s) signers)"
  using assms
proof (induction action p hint signers t w rule: collect.induct)
  case (1 action proposal hint t w)
  then show ?case by simp
next
  case (2 action proposal hint signer signers t w)
  obtain r w' where r: "sc_approve signer action proposal hint w = (r, w')"
    by (cases "sc_approve signer action proposal hint w")
  let ?t = "case r of Inl _ \<Rightarrow> t | Inr x \<Rightarrow> snd (as_add x t)"
  have "as_count ?t aid \<le> as_count t aid + (if Q signer then 0 else 1)"
    using 2(2) [of signer w] r by (cases r) (auto simp: as_count_add_le)
  then show ?case
    using 2(1) [OF r [symmetric] refl] 2(2) r by (cases "as_isMet ?t (act_id action)") (auto simp: Let_def split: if_splits)
qed

lemma orchestrate_willing:
  assumes "fst (orchestrate thr operators signers bc pf action hint w) = Inr r" "or_broadcast r"
    "bc_actionExecuted bc action w \<noteq> (Inr (True, or_txid r), snd (bc_actionExecuted bc action w))"
    "length (filter (\<lambda>s. \<not> Q s) signers) < thr"
  shows "\<exists>s \<in> set signers. Q s \<and> (\<exists>p w' a. fst (sc_approve s action p hint w') = Inr a)"
proof (rule ccontr)
  assume "\<not> ?thesis"
  then have no: "\<not> isOk (fst (sc_approve s action p hint w'))" if "s \<in> set signers" "Q s" for s p w'
    using that by (auto simp: isOk_iff)
  have "as_count (fst (collect action p hint signers (newApprovalSet thr operators) w')) (act_id action) < thr" for p w'
    using collect_willing [of signers Q action p hint "newApprovalSet thr operators" w' "act_id action", OF no] assms(4)
    by (simp add: as_count_def)
  then have "\<not> as_isMet (fst (collect action p hint signers (newApprovalSet thr operators) w')) (act_id action)" for p w'
    using collect_inv(2) [OF newApprovalSet_inv, of action p hint signers thr operators w']
    by (simp add: as_isMet_def not_le)
  then have nm: "collect action p hint signers (newApprovalSet thr operators) w' = (t, w'') \<Longrightarrow>
      \<not> as_isMet t (act_id action)" for p w' t w''
    by (metis fst_conv)
  obtain x w1 where x: "bc_actionExecuted bc action w = (x, w1)"
    by (cases "bc_actionExecuted bc action w")
  show False using assms(1-3) x
    by (auto simp: orchestrate_def Let_def split: prod.splits sum.splits bool.splits if_splits dest: nm)
qed

section \<open>Properties\<close>

text \<open>
  C2. What the orchestrator reports as broadcast was either already executed on chain, or sent
  with at least the threshold of signatures, one per distinct operator of the configured set, each
  given by a signer that was asked for exactly this action and proposal.
\<close>

theorem broadcast_rests_on_quorum:
  assumes "fst (orchestrate thr operators signers bc pf action hint w) = Inr r" "or_broadcast r"
  shows "(\<exists>w1. bc_actionExecuted bc action w = (Inr (True, or_txid r), w1)) \<or>
    (\<exists>txid proposal aps w'. or_txid r = Some txid \<and>
       fst (bc_broadcast bc action proposal (map apr_signature aps) w') = Inr txid \<and>
       thr \<le> length aps \<and> distinct (map apr_operatorId aps) \<and>
       set (map apr_operatorId aps) \<subseteq> set operators \<and>
       (\<forall>a \<in> set aps. apr_actionId a = act_id action \<and> answered action proposal hint signers a))"
  using orchestrate_broadcast [OF assms] unfolding roundBroadcast_def by blast

definition signer_example :: "string \<Rightarrow> (unit, unit) SignerClient" where
  "signer_example o' = \<lparr>sc_operatorId = o',
     sc_approve = (\<lambda>a p h w. (Inr \<lparr>apr_actionId = act_id a, apr_operatorId = o', apr_signature = ''sig'' @ o'\<rparr>, w))\<rparr>"

definition broadcaster_example :: "(unit, unit) Broadcaster" where
  "broadcaster_example = \<lparr>bc_buildProposal = (\<lambda>a w. (Inr \<lparr>br_proposal = (), br_feeMilliViz = 5\<rparr>, w)),
     bc_broadcast = (\<lambda>a p sigs w. (Inr (concat sigs), w)),
     bc_actionExecuted = (\<lambda>a w. (Inr (False, None), w))\<rparr>"

definition action_example :: CanonicalAction where
  "action_example = \<lparr>act_direction = PEG_OUT, act_remoteChain = Some GRAM, act_id = ''b1'',
     act_recipient = ''bob'', act_amountMilliViz = 10, act_digest = ''d''\<rparr>"

theorem broadcast_rests_on_quorum_witness:
  "\<exists>r. fst (orchestrate 2 [''op1'', ''op2'', ''op3''] [signer_example ''op1'', signer_example ''op2'']
      broadcaster_example None action_example None ()) = Inr r \<and> or_broadcast r \<and>
    (\<exists>aps. 2 \<le> length (aps :: Approval list) \<and> distinct (map apr_operatorId aps))"
proof -
  obtain r where r: "fst (orchestrate 2 [''op1'', ''op2'', ''op3'']
      [signer_example ''op1'', signer_example ''op2'']
      broadcaster_example None action_example None ()) = Inr r" "or_broadcast r"
    by (simp add: orchestrate_def broadcaster_example_def signer_example_def action_example_def
        as_add_def as_isMet_def as_count_def approvalsOf_def newApprovalSet_def pinFee_def Let_def)
  from broadcast_rests_on_quorum [OF r] r show ?thesis
    by (fastforce simp: broadcaster_example_def)
qed

text \<open>
  Fewer signers than the threshold never get anything new on chain: a round with too few clients
  reports a broadcast only for an action that was already executed.
\<close>

lemma too_few_signers_never_broadcast:
  assumes "length signers < thr"
    and "fst (orchestrate thr operators signers bc pf action hint w) = Inr r" "or_broadcast r"
  shows "\<exists>w1. bc_actionExecuted bc action w = (Inr (True, or_txid r), w1)"
  using orchestrate_willing [OF assms(2,3), of "\<lambda>_. False"] assms(1) by auto

end
