(* ===== verification/Fees.thy ===== *)
theory Fees
  imports Types "HOL-Library.Signed_Division"
begin

text \<open>
  The peg-in fee: \<open>packages/common/src/fees.ts\<close> and the fee configuration with
  \<open>pegInFeePolicyFor\<close> of \<open>packages/common/src/config.ts\<close>. BigInt division truncates
  towards zero: \<open>sdiv\<close> on \<open>int\<close>. The floating-point constants of the configuration
  (gas prices and margins) are read once, at load; the integers derived from them are fields
  here, their derivation is in the theory of the configuration. A per-chain object is a function
  of the chain.
\<close>

record PegInFeePolicy =
  fp_floorMilliViz :: int
  fp_bps :: nat
  fp_activationSurchargeMilliViz :: int
  fp_mintGasFloorMilliViz :: int

record GatewayFeeConfig =
  fc_floorMilliViz :: int
  fc_gramFloorMilliViz :: "int option"
  fc_bps :: nat
  fc_activationSurchargeMilliViz :: "RemoteChainId \<Rightarrow> int"
  fc_mintGasFloorMilliViz :: "RemoteChainId \<Rightarrow> int"
  fc_refundFeeMilliViz :: int

definition pegInFeePolicyFor :: "GatewayFeeConfig \<Rightarrow> RemoteChainId \<Rightarrow> PegInFeePolicy" where
  "pegInFeePolicyFor fees chain =
     (let floor = (if chain = GRAM then coalesce (fc_gramFloorMilliViz fees) (fc_floorMilliViz fees)
                   else fc_floorMilliViz fees)
      in \<lparr>fp_floorMilliViz = floor, fp_bps = fc_bps fees,
          fp_activationSurchargeMilliViz = fc_activationSurchargeMilliViz fees chain,
          fp_mintGasFloorMilliViz = fc_mintGasFloorMilliViz fees chain\<rparr>)"

record PegInBreakdown =
  bd_gross :: int
  bd_base :: int
  bd_activation :: int
  bd_fee :: int
  bd_net :: int

datatype PegInQuote = QuoteOk PegInBreakdown | BelowMin int

definition baseFee :: "int \<Rightarrow> PegInFeePolicy \<Rightarrow> int" where
  "baseFee gross p =
     (let pct = (gross * int (fp_bps p)) sdiv 10000
      in if pct > fp_floorMilliViz p then pct else fp_floorMilliViz p)"

definition quotePegIn :: "int \<Rightarrow> bool \<Rightarrow> PegInFeePolicy \<Rightarrow> PegInQuote" where
  "quotePegIn gross destProvisioned p =
     (let base = baseFee gross p;
          activation = (if destProvisioned then 0 else fp_activationSurchargeMilliViz p);
          fee = base + activation;
          net = gross - fee
      in if net \<le> 0 \<or> net < fp_mintGasFloorMilliViz p
         then BelowMin (fee + fp_mintGasFloorMilliViz p)
         else QuoteOk \<lparr>bd_gross = gross, bd_base = base, bd_activation = activation,
                bd_fee = fee, bd_net = net\<rparr>)"

text \<open>The net a mint of \<open>gross\<close> must carry: what the signer re-derives.\<close>

definition netOf :: "int \<Rightarrow> bool \<Rightarrow> PegInFeePolicy \<Rightarrow> int" where
  "netOf gross destProvisioned p =
     gross - baseFee gross p - (if destProvisioned then 0 else fp_activationSurchargeMilliViz p)"

lemma baseFee_ge_floor: "fp_floorMilliViz p \<le> baseFee gross p"
  by (simp add: baseFee_def Let_def)

lemma baseFee_max: "baseFee gross p = max (fp_floorMilliViz p) ((gross * int (fp_bps p)) sdiv 10000)"
  by (simp add: baseFee_def Let_def max_def)

lemma sdiv_nonneg: "0 \<le> (a::int) \<Longrightarrow> 0 < b \<Longrightarrow> a sdiv b = a div b"
  by (cases "a = 0") (simp_all add: signed_divide_int_def)

lemma quotePegIn_OkD:
  assumes "quotePegIn gross prov p = QuoteOk b"
  shows "bd_gross b = gross" and "bd_base b = baseFee gross p"
    and "bd_fee b = bd_base b + bd_activation b" and "bd_net b + bd_fee b = gross"
    and "bd_net b = netOf gross prov p"
    and "0 < bd_net b" and "fp_mintGasFloorMilliViz p \<le> bd_net b"
  using assms by (auto simp: quotePegIn_def netOf_def Let_def split: if_splits)

lemma quotePegIn_Ok_iff:
  "(\<exists>b. quotePegIn gross prov p = QuoteOk b) \<longleftrightarrow>
     0 < netOf gross prov p \<and> fp_mintGasFloorMilliViz p \<le> netOf gross prov p"
  by (auto simp: quotePegIn_def netOf_def Let_def)

text \<open>At most 100% of a raise of the deposit goes into the percentage fee.\<close>

lemma pct_step:
  assumes "0 \<le> g" "g \<le> g'" "b \<le> 10000"
  shows "(g' * int b) div 10000 - (g * int b) div 10000 \<le> g' - g"
proof -
  define q where "q = (g * int b) div 10000"
  have "g' * int b = g * int b + (g' - g) * int b" by (simp add: algebra_simps)
  also have "\<dots> \<le> g * int b + (g' - g) * 10000"
    using assms by (intro add_left_mono mult_left_mono) auto
  finally have "(g' * int b) div 10000 \<le> (g * int b + (g' - g) * 10000) div 10000"
    by (intro zdiv_mono1) auto
  also have "\<dots> = (g * int b) div 10000 + (g' - g)" by simp
  finally show ?thesis by simp
qed

lemma netOf_mono:
  assumes "0 \<le> g" "g \<le> g'" "fp_bps p \<le> 10000"
  shows "netOf g prov p \<le> netOf g' prov p"
proof -
  have "0 \<le> g * int (fp_bps p)" "0 \<le> g' * int (fp_bps p)" using assms by auto
  then have "baseFee g' p - baseFee g p \<le> g' - g"
    using pct_step [OF assms(1,2,3)] assms(2) by (auto simp: baseFee_max sdiv_nonneg)
  then show ?thesis by (simp add: netOf_def)
qed

text \<open>Below the reported minimum nothing is accepted, at equal base fee.\<close>

lemma quotePegIn_BelowMinD:
  assumes "quotePegIn gross prov p = BelowMin m"
  shows "m = gross - netOf gross prov p + fp_mintGasFloorMilliViz p"
    and "netOf gross prov p \<le> 0 \<or> netOf gross prov p < fp_mintGasFloorMilliViz p"
  using assms by (auto simp: quotePegIn_def netOf_def Let_def split: if_splits)

lemma baseFee_mono:
  assumes "0 \<le> g" "g \<le> g'"
  shows "baseFee g p \<le> baseFee g' p"
proof -
  have "(g * int (fp_bps p)) div 10000 \<le> (g' * int (fp_bps p)) div 10000"
    using assms by (intro zdiv_mono1 mult_right_mono) auto
  then show ?thesis using assms by (simp add: baseFee_max sdiv_nonneg)
qed

text \<open>Where the floor is the fee, it is the fee of every smaller deposit.\<close>

lemma netOf_floor:
  assumes "baseFee m p = fp_floorMilliViz p" "0 \<le> g" "g \<le> m"
  shows "netOf g prov p = netOf m prov p - (m - g)"
  using baseFee_mono [OF assms(2,3), of p] baseFee_ge_floor [of p g] assms(1) by (simp add: netOf_def)

section \<open>Properties\<close>


text \<open>Nothing in the policy keeps the surcharge from being negative; then the fee falls under the floor.\<close>

lemma negative_surcharge_undercuts_floor:
  "\<exists>p b. fp_activationSurchargeMilliViz p < 0 \<and> quotePegIn 20000 False p = QuoteOk b \<and>
     bd_fee b < fp_floorMilliViz p"
  by (rule exI [of _ "\<lparr>fp_floorMilliViz = 10000, fp_bps = 20, fp_activationSurchargeMilliViz = - 5000,
        fp_mintGasFloorMilliViz = 1000\<rparr>"])
    (simp add: quotePegIn_def baseFee_def Let_def signed_divide_int_def)

definition policy_example :: PegInFeePolicy where
  "policy_example = \<lparr>fp_floorMilliViz = 10000, fp_bps = 20, fp_activationSurchargeMilliViz = 5000,
     fp_mintGasFloorMilliViz = 1000\<rparr>"


text \<open>
  A larger deposit is never worse off: if a deposit is accepted, every larger one is, and it
  mints at least as much (the percentage is at most 100%).
\<close>

lemma quote_monotone:
  assumes "quotePegIn g prov p = QuoteOk b" "0 \<le> g" "g \<le> g'" "fp_bps p \<le> 10000"
  shows "\<exists>b'. quotePegIn g' prov p = QuoteOk b' \<and> bd_net b \<le> bd_net b'"
proof -
  note le = netOf_mono [OF assms(2-4), of prov]
  have "\<exists>b'. quotePegIn g' prov p = QuoteOk b'"
    using quotePegIn_OkD(5-7) [OF assms(1)] le by (intro quotePegIn_Ok_iff [THEN iffD2]) auto
  then show ?thesis using quotePegIn_OkD(5) [OF assms(1)] quotePegIn_OkD(5) le by fastforce
qed

text \<open>
  The minimum a rejected quote reports is exact where the flat floor is the fee and the gas
  floor is positive: the reported amount is accepted, with the gas floor as its net, and nothing
  below it is.
\<close>

lemma reported_minimum_exact:
  assumes "quotePegIn gross prov p = BelowMin m" "0 \<le> gross"
    "0 < fp_mintGasFloorMilliViz p" "baseFee m p = fp_floorMilliViz p"
  shows "(\<exists>b. quotePegIn m prov p = QuoteOk b \<and> bd_net b = fp_mintGasFloorMilliViz p) \<and>
    (\<forall>g b. 0 \<le> g \<and> g < m \<longrightarrow> quotePegIn g prov p \<noteq> QuoteOk b)"
proof -
  note bm = quotePegIn_BelowMinD [OF assms(1)]
  have "gross \<le> m" using bm assms(3) by linarith
  then have "baseFee gross p = baseFee m p"
    using baseFee_mono [OF assms(2), of m p] baseFee_ge_floor [of p gross] assms(4) by simp
  then have m: "netOf m prov p = fp_mintGasFloorMilliViz p" using bm(1) by (simp add: netOf_def)
  then obtain b where b: "quotePegIn m prov p = QuoteOk b"
    using quotePegIn_Ok_iff [of m prov p] assms(3) by auto
  have "quotePegIn g prov p \<noteq> QuoteOk c" if "0 \<le> g \<and> g < m" for g c
    using netOf_floor [OF assms(4), of g prov] that m quotePegIn_OkD(5,7) [of g prov p c] by auto
  with b quotePegIn_OkD(5) [OF b] m show ?thesis by auto
qed

end
