(* ===== verification/Canonical.thy ===== *)
theory Canonical
  imports Types
begin

text \<open>
  The canonical encoding and digest of a source event (\<open>packages/common/src/canonical.ts\<close>)
  and the wire form of an action (\<open>packages/common/src/wire.ts\<close>).

  SHA-256 is a parameter \<open>sha\<close> of the definitions that hash (the code calls
  \<open>node:crypto\<close>). What needs a collision-free hash says so for the two encodings compared.
\<close>

section \<open>The length-prefixed encoding\<close>

definition encodeField :: "string \<times> string \<Rightarrow> string" where
  "encodeField kv = (case kv of (k, v) \<Rightarrow>
     decNat (length k) @ '':'' @ k @ ''='' @ decNat (length v) @ '':'' @ v)"

definition canonicalString :: "(string \<times> string) list \<Rightarrow> string" where
  "canonicalString kvs = joinWith ''|'' (map encodeField kvs)"

definition digestOf :: "(string \<Rightarrow> string) \<Rightarrow> string \<Rightarrow> string" where
  "digestOf sha s = sha s"

subsection \<open>The encoding is injective\<close>

lemma append_sep_inj:
  assumes "c \<notin> set u" "c \<notin> set v" "u @ c # s = v @ c # t"
  shows "u = v \<and> s = t"
  using assms
proof (induction u arbitrary: v)
  case Nil
  then show ?case by (cases v) auto
next
  case (Cons x u)
  then show ?case by (cases v) auto
qed

text \<open>A length-tagged string can be split off whatever follows it.\<close>

lemma tagged_inj:
  assumes "decNat (length v) @ '':'' @ v @ s = decNat (length w) @ '':'' @ w @ t"
  shows "v = w \<and> s = t"
proof -
  from assms have "decNat (length v) = decNat (length w) \<and> v @ s = w @ t"
    by (intro append_sep_inj [where c = "CHR '':''"]) auto
  then show ?thesis by auto
qed

lemma encodeField_inj:
  assumes "encodeField a @ s = encodeField b @ t"
  shows "a = b \<and> s = t"
proof -
  obtain k v where a: "a = (k, v)" by (cases a)
  obtain k' v' where b: "b = (k', v')" by (cases b)
  let ?r = "''='' @ decNat (length v) @ '':'' @ v @ s"
  let ?r' = "''='' @ decNat (length v') @ '':'' @ v' @ t"
  from assms a b have "decNat (length k) @ '':'' @ k @ ?r = decNat (length k') @ '':'' @ k' @ ?r'"
    by (simp add: encodeField_def)
  then have k: "k = k'" and r: "?r = ?r'" by (blast dest: tagged_inj)+
  from r have "decNat (length v) @ '':'' @ v @ s = decNat (length v') @ '':'' @ v' @ t" by simp
  then have "v = v' \<and> s = t" by (rule tagged_inj)
  with a b k show ?thesis by simp
qed

lemma encodeField_not_Nil [simp]: "encodeField a \<noteq> []"
  by (cases a) (simp add: encodeField_def)

lemma canonicalString_Nil [simp]: "canonicalString [] = []"
  by (simp add: canonicalString_def)

lemma canonicalString_Cons:
  "canonicalString (f # fs) = encodeField f @ (if fs = [] then [] else ''|'' @ canonicalString fs)"
  by (cases fs) (simp_all add: canonicalString_def)

lemma canonicalString_eq_Nil [simp]: "canonicalString fs = [] \<longleftrightarrow> fs = []"
  by (cases fs) (simp_all add: canonicalString_Cons)

lemma canonicalString_inj: "canonicalString fs = canonicalString gs \<Longrightarrow> fs = gs"
proof (induction fs arbitrary: gs)
  case Nil
  then show ?case by (metis canonicalString_Nil canonicalString_eq_Nil)
next
  case (Cons f fs)
  show ?case
  proof (cases gs)
    case Nil
    with Cons.prems show ?thesis by simp
  next
    case (Cons g gs')
    with Cons.prems have
      "encodeField f @ (if fs = [] then [] else ''|'' @ canonicalString fs) =
       encodeField g @ (if gs' = [] then [] else ''|'' @ canonicalString gs')"
      by (simp only: canonicalString_Cons)
    then have fg: "f = g" and
      rest: "(if fs = [] then [] else ''|'' @ canonicalString fs) =
             (if gs' = [] then [] else ''|'' @ canonicalString gs')"
      by (blast dest: encodeField_inj)+
    from rest have "canonicalString fs = canonicalString gs'" by (simp split: if_splits)
    with Cons.IH fg Cons show ?thesis by blast
  qed
qed

section \<open>Destination addresses\<close>

text \<open>The character classes of \<open>SOLANA_ADDR_RE\<close> and \<open>GRAM_ADDR_RE\<close>.\<close>

definition isBase58 :: "char \<Rightarrow> bool" where
  "isBase58 c \<longleftrightarrow> charIn (CHR ''1'') (CHR ''9'') c \<or> charIn (CHR ''A'') (CHR ''H'') c \<or>
     charIn (CHR ''J'') (CHR ''N'') c \<or> charIn (CHR ''P'') (CHR ''Z'') c \<or>
     charIn (CHR ''a'') (CHR ''k'') c \<or> charIn (CHR ''m'') (CHR ''z'') c"

definition isBase64Url :: "char \<Rightarrow> bool" where
  "isBase64Url c \<longleftrightarrow> charIn (CHR ''A'') (CHR ''Z'') c \<or> charIn (CHR ''a'') (CHR ''z'') c \<or>
     charIn (CHR ''0'') (CHR ''9'') c \<or> c = CHR ''_'' \<or> c = CHR ''-''"

definition SOLANA_ADDR_RE :: "string \<Rightarrow> bool" where
  "SOLANA_ADDR_RE s \<longleftrightarrow> 32 \<le> length s \<and> length s \<le> 44 \<and> list_all isBase58 s"

definition GRAM_ADDR_RE :: "string \<Rightarrow> bool" where
  "GRAM_ADDR_RE s \<longleftrightarrow> length s = 48 \<and> (s ! 0 = CHR ''E'' \<or> s ! 0 = CHR ''U'') \<and>
     s ! 1 = CHR ''Q'' \<and> list_all isBase64Url (drop 2 s)"

definition validateRemoteAddress :: "RemoteChainId \<Rightarrow> string \<Rightarrow> unit result" where
  "validateRemoteAddress chain address =
     (if address = [] then Inl (GenericError ''peg-in destination is empty'')
      else if CHR '':'' \<in> set address then Inl (GenericError ''peg-in destination must not contain :'')
      else if \<not> (if chain = SOLANA then SOLANA_ADDR_RE else GRAM_ADDR_RE) address
      then Inl (GenericError ''invalid destination address'')
      else Inr ())"

definition isValidRemoteAddress :: "RemoteChainId \<Rightarrow> string \<Rightarrow> bool" where
  "isValidRemoteAddress chain address =
     (if address = [] then False
      else if CHR '':'' \<in> set address then False
      else (if chain = SOLANA then SOLANA_ADDR_RE else GRAM_ADDR_RE) address)"

lemma isValidRemoteAddress_iff:
  "isValidRemoteAddress chain a \<longleftrightarrow> isOk (validateRemoteAddress chain a)"
  by (simp add: isValidRemoteAddress_def validateRemoteAddress_def)

lemma isValidRemoteAddress_not_Nil: "isValidRemoteAddress chain a \<Longrightarrow> a \<noteq> []"
  by (auto simp: isValidRemoteAddress_def)

section \<open>Canonical actions\<close>

definition pegInId :: "string \<Rightarrow> nat \<Rightarrow> string" where
  "pegInId trxId opIndex = trxId @ '':'' @ decNat opIndex"

definition pegInFields :: "VizDeposit \<Rightarrow> (string \<times> string) list" where
  "pegInFields d =
     [(''v'', ''1''), (''dir'', ''PEG_IN''), (''src'', pegInId (dep_trxId d) (dep_opIndex d)),
      (''chain'', chainString (dep_remoteChain d)), (''recipient'', dep_remoteDestination d),
      (''amount_milli_viz'', decInt (dep_amountMilliViz d))]"

definition canonicalPegIn :: "(string \<Rightarrow> string) \<Rightarrow> VizDeposit \<Rightarrow> CanonicalAction" where
  "canonicalPegIn sha d = \<lparr>
     act_direction = PEG_IN,
     act_remoteChain = Some (dep_remoteChain d),
     act_id = pegInId (dep_trxId d) (dep_opIndex d),
     act_recipient = dep_remoteDestination d,
     act_amountMilliViz = dep_amountMilliViz d,
     act_digest = digestOf sha (canonicalString (pegInFields d))\<rparr>"

definition pegOutFields :: "RemoteBurn \<Rightarrow> (string \<times> string) list" where
  "pegOutFields b =
     [(''v'', ''1''), (''dir'', ''PEG_OUT''), (''chain'', chainString (burn_chain b)),
      (''src'', burn_sourceId b), (''recipient'', burn_homeDestination b),
      (''amount_milli_viz'', decInt (burn_amountMilliViz b))]"

definition canonicalPegOut :: "(string \<Rightarrow> string) \<Rightarrow> RemoteBurn \<Rightarrow> CanonicalAction" where
  "canonicalPegOut sha b = \<lparr>
     act_direction = PEG_OUT,
     act_remoteChain = Some (burn_chain b),
     act_id = burn_sourceId b,
     act_recipient = burn_homeDestination b,
     act_amountMilliViz = burn_amountMilliViz b,
     act_digest = digestOf sha (canonicalString (pegOutFields b))\<rparr>"

lemma canonicalPegIn_simps [simp]:
  "act_direction (canonicalPegIn sha d) = PEG_IN"
  "act_remoteChain (canonicalPegIn sha d) = Some (dep_remoteChain d)"
  "act_id (canonicalPegIn sha d) = pegInId (dep_trxId d) (dep_opIndex d)"
  "act_recipient (canonicalPegIn sha d) = dep_remoteDestination d"
  "act_amountMilliViz (canonicalPegIn sha d) = dep_amountMilliViz d"
  "act_digest (canonicalPegIn sha d) = sha (canonicalString (pegInFields d))"
  by (simp_all add: canonicalPegIn_def digestOf_def)

lemma canonicalPegOut_simps [simp]:
  "act_direction (canonicalPegOut sha b) = PEG_OUT"
  "act_remoteChain (canonicalPegOut sha b) = Some (burn_chain b)"
  "act_id (canonicalPegOut sha b) = burn_sourceId b"
  "act_recipient (canonicalPegOut sha b) = burn_homeDestination b"
  "act_amountMilliViz (canonicalPegOut sha b) = burn_amountMilliViz b"
  "act_digest (canonicalPegOut sha b) = sha (canonicalString (pegOutFields b))"
  by (simp_all add: canonicalPegOut_def digestOf_def)

text \<open>The id of a peg-in determines the transaction and the operation.\<close>

lemma pegInId_inj: "pegInId t i = pegInId u j \<longleftrightarrow> t = u \<and> i = j"
proof
  assume "pegInId t i = pegInId u j"
  then have "rev (decNat i) @ CHR '':'' # rev t = rev (decNat j) @ CHR '':'' # rev u"
    unfolding pegInId_def by (metis append_Cons append_Nil rev.simps(2) rev_append append_assoc)
  then have "rev (decNat i) = rev (decNat j) \<and> rev t = rev u"
    by (intro append_sep_inj) simp_all
  then show "t = u \<and> i = j" by simp
qed simp

lemma chainString_inj:
  "knownChain c \<Longrightarrow> knownChain c' \<Longrightarrow> chainString c = chainString c' \<longleftrightarrow> c = c'"
  by (auto simp: knownChain_def)

text \<open>The body of a peg-in determines everything of the source event the mint depends on.\<close>

lemma pegInFields_inj:
  assumes "pegInFields d = pegInFields e"
    and "knownChain (dep_remoteChain d)" "knownChain (dep_remoteChain e)"
  shows "dep_trxId d = dep_trxId e \<and> dep_opIndex d = dep_opIndex e \<and>
    dep_remoteChain d = dep_remoteChain e \<and> dep_remoteDestination d = dep_remoteDestination e \<and>
    dep_amountMilliViz d = dep_amountMilliViz e"
  using assms by (auto simp: pegInFields_def pegInId_inj chainString_inj)

lemma pegOutFields_inj:
  assumes "pegOutFields a = pegOutFields b"
    and "knownChain (burn_chain a)" "knownChain (burn_chain b)"
  shows "burn_sourceId a = burn_sourceId b \<and> burn_chain a = burn_chain b \<and>
    burn_homeDestination a = burn_homeDestination b \<and>
    burn_amountMilliViz a = burn_amountMilliViz b"
  using assms by (auto simp: pegOutFields_def chainString_inj)

lemma pegInFields_neq_pegOutFields: "pegInFields d \<noteq> pegOutFields b"
  by (simp add: pegInFields_def pegOutFields_def)

section \<open>The wire form (wire.ts)\<close>

text \<open>
  A wire object is the map of its string fields; a field that is absent reads as
  \<open>undefined\<close>, which \<open>String\<close> prints as the text \<open>undefined\<close>.
\<close>

type_synonym wire = "string \<rightharpoonup> string"

definition wireString :: "wire \<Rightarrow> string \<Rightarrow> string" where
  "wireString w k = (case w k of None \<Rightarrow> ''undefined'' | Some s \<Rightarrow> s)"

definition actionToWire :: "CanonicalAction \<Rightarrow> wire" where
  "actionToWire a =
     [''direction'' \<mapsto> directionString (act_direction a), ''id'' \<mapsto> act_id a,
      ''recipient'' \<mapsto> act_recipient a, ''amountMilliViz'' \<mapsto> decInt (act_amountMilliViz a),
      ''digest'' \<mapsto> act_digest a] ++
     (case act_remoteChain a of None \<Rightarrow> Map.empty
      | Some c \<Rightarrow> [''remoteChain'' \<mapsto> chainString c])"

definition actionFromWire :: "wire \<Rightarrow> CanonicalAction result" where
  "actionFromWire o' =
     (case bigintOf (wireString o' ''amountMilliViz'') of
        None \<Rightarrow> Inl (GenericError ''SyntaxError: Cannot convert to a BigInt'')
      | Some amount \<Rightarrow> Inr \<lparr>
          act_direction = directionOfString (wireString o' ''direction''),
          act_remoteChain =
            (case o' ''remoteChain'' of None \<Rightarrow> None
             | Some c \<Rightarrow> if c = [] then None else Some (chainOfString c)),
          act_id = wireString o' ''id'',
          act_recipient = wireString o' ''recipient'',
          act_amountMilliViz = amount,
          act_digest = wireString o' ''digest''\<rparr>)"

definition wellFormedAction :: "CanonicalAction \<Rightarrow> bool" where
  "wellFormedAction a \<longleftrightarrow>
     (case act_direction a of OtherDirection _ \<Rightarrow> False | _ \<Rightarrow> True) \<and>
     (case act_remoteChain a of None \<Rightarrow> True | Some c \<Rightarrow> knownChain c)"

lemma directionOfString_directionString:
  "(\<forall>s. d \<noteq> OtherDirection s) \<Longrightarrow> directionOfString (directionString d) = d"
  by (cases d) (simp_all add: directionOfString_def)

lemma chainOfString_chainString: "knownChain c \<Longrightarrow> chainOfString (chainString c) = c"
  by (auto simp: knownChain_def chainOfString_def)

lemma chainString_not_Nil: "knownChain c \<Longrightarrow> chainString c \<noteq> []"
  by (auto simp: knownChain_def)

lemma actionFromWire_actionToWire:
  assumes "wellFormedAction a"
  shows "actionFromWire (actionToWire a) = Inr a"
proof -
  from assms have d: "directionOfString (directionString (act_direction a)) = act_direction a"
    by (intro directionOfString_directionString) (auto simp: wellFormedAction_def)
  show ?thesis
  proof (cases "act_remoteChain a")
    case None
    with d show ?thesis
      by (simp add: actionFromWire_def actionToWire_def wireString_def)
  next
    case (Some c)
    with assms have "knownChain c" by (simp add: wellFormedAction_def)
    with d Some show ?thesis
      by (simp add: actionFromWire_def actionToWire_def wireString_def
          chainOfString_chainString chainString_not_Nil)
  qed
qed

section \<open>Properties\<close>

text \<open>
  C5. Two canonical actions with the same digest are the same source event, however the fields
  are filled: unless SHA-256 collides on these two bodies, the transaction, operation, chain,
  destination and amount of the two deposits agree.
\<close>

theorem digest_binds_deposit:
  assumes "act_digest (canonicalPegIn sha d) = act_digest (canonicalPegIn sha e)"
    and "knownChain (dep_remoteChain d)" "knownChain (dep_remoteChain e)"
    and "sha (canonicalString (pegInFields d)) = sha (canonicalString (pegInFields e)) \<Longrightarrow>
      canonicalString (pegInFields d) = canonicalString (pegInFields e)"
  shows "act_id (canonicalPegIn sha d) = act_id (canonicalPegIn sha e) \<and>
    dep_trxId d = dep_trxId e \<and> dep_opIndex d = dep_opIndex e \<and>
    dep_remoteChain d = dep_remoteChain e \<and> dep_remoteDestination d = dep_remoteDestination e \<and>
    dep_amountMilliViz d = dep_amountMilliViz e"
proof -
  have "pegInFields d = pegInFields e"
    using assms(1,4) by (simp add: canonicalString_inj)
  from pegInFields_inj [OF this assms(2,3)] show ?thesis by simp
qed

definition deposit_example :: VizDeposit where
  "deposit_example = \<lparr>dep_trxId = ''ab01'', dep_opIndex = 3, dep_blockNum = 700, dep_from = ''alice'',
     dep_to = ''gram.gate'', dep_amountMilliViz = 25000, dep_remoteChain = GRAM,
     dep_remoteDestination = ''EQdest'', dep_destinationValid = True\<rparr>"

theorem digest_binds_deposit_witness:
  "dep_amountMilliViz deposit_example = dep_amountMilliViz (deposit_example\<lparr>dep_blockNum := 701\<rparr>) \<and>
   dep_blockNum deposit_example \<noteq> dep_blockNum (deposit_example\<lparr>dep_blockNum := 701\<rparr>)"
  using digest_binds_deposit [of "\<lambda>s. s" deposit_example "deposit_example\<lparr>dep_blockNum := 701\<rparr>"]
  by (simp add: deposit_example_def pegInFields_def)

text \<open>
  The bodies hashed for a peg-in and for a peg-out are never the same, and two field lists
  with the same canonical string are the same list: no crafted memo or address shifts a field
  boundary.
\<close>

lemma canonical_encoding_unambiguous:
  "(canonicalString fs = canonicalString gs \<longleftrightarrow> fs = gs) \<and>
   canonicalString (pegInFields d) \<noteq> canonicalString (pegOutFields b)"
  using canonicalString_inj pegInFields_neq_pegOutFields by blast

text \<open>
  C6. An action of the two known chains that is sent over HTTP and read back is the same action,
  its amount exact.
\<close>

theorem wire_roundtrip:
  assumes "wellFormedAction a"
  shows "actionFromWire (actionToWire a) = Inr a"
  by (rule actionFromWire_actionToWire [OF assms])

theorem wire_roundtrip_witness:
  "actionFromWire (actionToWire (canonicalPegIn (\<lambda>s. s) deposit_example)) =
     Inr (canonicalPegIn (\<lambda>s. s) deposit_example)"
  by (rule wire_roundtrip) (simp add: wellFormedAction_def deposit_example_def)

end
