(* ===== verification/VizChain.thy ===== *)
theory VizChain
  imports Canonical Accounts
begin

text \<open>
  The VIZ side: \<open>packages/viz-watcher/src/vizChain.ts\<close> (amounts, the irreversible scan, the
  signer's own re-read of a deposit with its block-log fallback, the release path) and
  \<open>packages/viz-watcher/src/memo.ts\<close>, \<open>vizSign.ts\<close>. The VIZ nodes are parameters: what a
  remote call returned is a value of type \<open>result\<close>. viz-js-lib (the transaction serializer, the
  signature scheme, the memo cipher) is a parameter of the definitions that call it.
\<close>

section \<open>Amounts\<close>

definition padStart3 :: "string \<Rightarrow> string" where
  "padStart3 s = replicate (3 - length s) (CHR ''0'') @ s"

definition vizToMilli :: "string \<Rightarrow> int option" where
  "vizToMilli amount =
     (let numeric = hd (splitOn (CHR '' '') (trim amount));
          parts = splitOn (CHR ''.'') numeric;
          intPart = hd parts;
          fracPart = (if length parts > 1 then parts ! 1 else []);
          frac = take 3 (fracPart @ ''000'')
      in case bigintOf (if intPart = [] then ''0'' else intPart) of
           None \<Rightarrow> None
         | Some i \<Rightarrow>
             (case bigintOf (if frac = [] then ''0'' else frac) of
                None \<Rightarrow> None
              | Some f \<Rightarrow> Some (i * 1000 + f)))"

definition milliToViz :: "int \<Rightarrow> string" where
  "milliToViz milli =
     (let neg = milli < 0; v = (if neg then - milli else milli)
      in (if neg then ''-'' else []) @ decInt (v div 1000) @ ''.'' @ padStart3 (decInt (v mod 1000)) @ '' VIZ'')"

section \<open>Remote calls\<close>

definition RPC_MAX_ATTEMPTS :: nat where
  "RPC_MAX_ATTEMPTS = 4"

text \<open>
  \<open>call\<close>: the attempt numbered from 1, on the node at the sticky index. \<open>exec n a\<close> is what
  attempt \<open>a\<close> on node \<open>n\<close> gives (its time-out is an error of it), \<open>transient\<close> decides
  \<open>isTransientRpcError\<close>. The result comes with the new index.
\<close>

function vizCall ::
  "(js_error \<Rightarrow> bool) \<Rightarrow> nat \<Rightarrow> (nat \<Rightarrow> nat \<Rightarrow> 'a result) \<Rightarrow> nat \<Rightarrow> nat \<Rightarrow> 'a result \<times> nat" where
  "vizCall transient nodes exec idx attempt =
     (case exec idx attempt of
        Inr x \<Rightarrow> (Inr x, idx)
      | Inl e \<Rightarrow>
          if attempt \<ge> RPC_MAX_ATTEMPTS \<or> \<not> transient e then (Inl e, idx)
          else vizCall transient nodes exec (if nodes > 1 then (idx + 1) mod nodes else idx) (attempt + 1))"
  by pat_completeness auto

termination by (relation "measure (\<lambda>(_, _, _, _, a). RPC_MAX_ATTEMPTS - a)") auto

declare vizCall.simps [simp del]

section \<open>Memos (memo.ts)\<close>

definition resolveMemoDestination ::
  "(string \<Rightarrow> string \<Rightarrow> string result) \<Rightarrow> string \<Rightarrow> string option \<Rightarrow> string" where
  "resolveMemoDestination decode rawMemo memoWif =
     (if \<not> startsWith rawMemo ''#'' then rawMemo
      else (case memoWif of
          None \<Rightarrow> []
        | Some wif \<Rightarrow>
            if wif = [] then []
            else (case decode wif rawMemo of
                Inl _ \<Rightarrow> []
              | Inr decoded \<Rightarrow> trim (if startsWith decoded ''#'' then drop 1 decoded else decoded))))"

section \<open>Deposits\<close>

text \<open>An operation: its name and the string fields of its payload.\<close>

type_synonym viz_op = "string \<times> (string \<rightharpoonup> string)"

record OpWrapper =
  ow_trx_id :: string
  ow_block :: nat
  ow_op_in_trx :: nat
  ow_virtual_op :: nat
  ow_op :: viz_op

record AnnotatedTransaction =
  at_transaction_id :: "string option"
  at_block_num :: nat
  at_operations :: "viz_op list option"

record VizTx =
  vt_refBlockNum :: int
  vt_refBlockPrefix :: int
  vt_expiration :: string
  vt_operations :: "viz_op list"
  vt_extensions :: "string list"

text \<open>The configuration of a \<open>VizJsChain\<close>: the registry, the memo keys, the memo cipher.\<close>

record VizReader =
  rd_accounts :: GatewayAccounts
  rd_memoWifs :: "string \<rightharpoonup> string"
  rd_decode :: "string \<Rightarrow> string \<Rightarrow> string result"

definition ZERO_TRX :: string where
  "ZERO_TRX = replicate 40 (CHR ''0'')"

definition payloadField :: "(string \<rightharpoonup> string) \<Rightarrow> string \<Rightarrow> string \<Rightarrow> string" where
  "payloadField p k dflt = (case p k of None \<Rightarrow> dflt | Some s \<Rightarrow> s)"

definition resolveDestination :: "VizReader \<Rightarrow> string \<Rightarrow> string \<Rightarrow> string" where
  "resolveDestination rd account rawMemo =
     resolveMemoDestination (rd_decode rd) rawMemo (rd_memoWifs rd account)"

text \<open>
  The deposit of one transfer payload: the object both readers build, once they know the
  receiving account is a backing account.
\<close>

definition depositOf ::
  "VizReader \<Rightarrow> string \<Rightarrow> nat \<Rightarrow> nat \<Rightarrow> (string \<rightharpoonup> string) \<Rightarrow> VizDeposit result" where
  "depositOf rd trxId opIndex blockNum payload =
     (let to' = payloadField payload ''to'' []
      in bindE (chainFor (rd_accounts rd) to') (\<lambda>chain.
         let rawMemo = trim (payloadField payload ''memo'' []);
             rawDestination = resolveDestination rd to' rawMemo;
             destinationValid = isValidRemoteAddress chain rawDestination
         in case vizToMilli (payloadField payload ''amount'' ''0.000 VIZ'') of
              None \<Rightarrow> Inl (GenericError ''SyntaxError: Cannot convert to a BigInt'')
            | Some amount \<Rightarrow> Inr \<lparr>
                dep_trxId = trxId, dep_opIndex = opIndex, dep_blockNum = blockNum,
                dep_from = payloadField payload ''from'' [], dep_to = to',
                dep_amountMilliViz = amount, dep_remoteChain = chain,
                dep_remoteDestination = (if destinationValid then rawDestination else []),
                dep_destinationValid = destinationValid\<rparr>))"

text \<open>The loop over the operations of one block, and over the blocks of the window.\<close>

fun scanOps :: "VizReader \<Rightarrow> OpWrapper list \<Rightarrow> VizDeposit list \<Rightarrow> VizDeposit list result" where
  "scanOps rd [] deposits = Inr deposits"
| "scanOps rd (w # ws) deposits =
     (if ow_virtual_op w \<noteq> 0 then scanOps rd ws deposits
      else if ow_trx_id w = ZERO_TRX then scanOps rd ws deposits
      else if fst (ow_op w) \<noteq> ''transfer'' then scanOps rd ws deposits
      else if \<not> isBackingAccount (rd_accounts rd) (payloadField (snd (ow_op w)) ''to'' [])
      then scanOps rd ws deposits
      else bindE (depositOf rd (ow_trx_id w) (ow_op_in_trx w) (ow_block w) (snd (ow_op w)))
        (\<lambda>d. scanOps rd ws (deposits @ [d])))"

fun scanBlocks ::
  "VizReader \<Rightarrow> (nat \<Rightarrow> OpWrapper list result) \<Rightarrow> nat list \<Rightarrow> VizDeposit list \<Rightarrow> VizDeposit list result" where
  "scanBlocks rd getOps [] deposits = Inr deposits"
| "scanBlocks rd getOps (b # bs) deposits =
     bindE (getOps b) (\<lambda>ops. bindE (scanOps rd ops deposits) (\<lambda>ds. scanBlocks rd getOps bs ds))"

definition MAX_BLOCKS_PER_SCAN :: nat where
  "MAX_BLOCKS_PER_SCAN = 200"

definition irreversibleDepositsSince ::
  "VizReader \<Rightarrow> (nat \<Rightarrow> OpWrapper list result) \<Rightarrow> nat \<Rightarrow> nat \<Rightarrow> VizDeposit list result" where
  "irreversibleDepositsSince rd getOps fromBlock upToBlock =
     (let start = fromBlock + 1
      in if upToBlock < start then Inr []
         else let end' = min upToBlock (start + MAX_BLOCKS_PER_SCAN - 1)
              in scanBlocks rd getOps [start ..< Suc end'] [])"

definition nextScanWindow :: "int \<Rightarrow> int \<Rightarrow> int \<times> bool" where
  "nextScanWindow cursor safeHead =
     (let scannedTo = min safeHead (cursor + int MAX_BLOCKS_PER_SCAN) in (scannedTo, scannedTo \<ge> safeHead))"

definition assertTransactionIdMatches :: "string option \<Rightarrow> string \<Rightarrow> unit result" where
  "assertTransactionIdMatches returnedId requestedId =
     throwIf (returnedId = None \<or> returnedId = Some [] \<or> returnedId \<noteq> Some requestedId)
       (GenericError ''node returned another transaction_id'')"

definition depositFromOps ::
  "VizReader \<Rightarrow> string \<Rightarrow> nat \<Rightarrow> nat \<Rightarrow> viz_op list \<Rightarrow> VizDeposit result" where
  "depositFromOps rd trxId opIndex blockNum ops =
     (if opIndex \<ge> length ops then Inl (GenericError ''no op at index'')
      else (case ops ! opIndex of (name, payload) \<Rightarrow>
        if name \<noteq> ''transfer'' then Inl (GenericError ''op is not a transfer'')
        else if \<not> isBackingAccount (rd_accounts rd) (payloadField payload ''to'' [])
        then Inl (GenericError ''transfer to is not a backing account'')
        else depositOf rd trxId opIndex blockNum payload))"

text \<open>What the operator's own nodes answer: \<open>getTransaction\<close> and the LIB through \<open>call\<close>, the
  block log and its LIB per node.\<close>

record VizNodes =
  vn_count :: nat
  vn_getTransaction :: "string \<Rightarrow> AnnotatedTransaction option result"
  vn_lib :: "nat result"
  vn_getBlock :: "nat \<Rightarrow> nat \<Rightarrow> VizTx list result"
  vn_nodeLib :: "nat \<Rightarrow> nat result"

text \<open>The loop over the nodes of \<open>getDepositViaBlock\<close>; \<open>txId\<close> is \<open>computeTrxId\<close>.\<close>

definition txMatches :: "(VizTx \<Rightarrow> string result) \<Rightarrow> string \<Rightarrow> VizTx \<Rightarrow> bool" where
  "txMatches txId trxId t \<longleftrightarrow> (case txId t of Inl _ \<Rightarrow> False | Inr x \<Rightarrow> x = trxId)"

fun viaBlockLoop ::
  "VizReader \<Rightarrow> VizNodes \<Rightarrow> (VizTx \<Rightarrow> string result) \<Rightarrow> string \<Rightarrow> nat \<Rightarrow> nat \<Rightarrow> nat list \<Rightarrow>
   VizDeposit option result" where
  "viaBlockLoop rd vn txId trxId opIndex blockNum [] = Inr None"
| "viaBlockLoop rd vn txId trxId opIndex blockNum (node # nodes) =
     (case vn_getBlock vn node blockNum of
        Inl _ \<Rightarrow> viaBlockLoop rd vn txId trxId opIndex blockNum nodes
      | Inr txs \<Rightarrow>
          (case List.find (txMatches txId trxId) txs of
             None \<Rightarrow> viaBlockLoop rd vn txId trxId opIndex blockNum nodes
           | Some t \<Rightarrow>
               (case vn_nodeLib vn node of
                  Inl _ \<Rightarrow> viaBlockLoop rd vn txId trxId opIndex blockNum nodes
                | Inr lib \<Rightarrow>
                    if blockNum > lib then viaBlockLoop rd vn txId trxId opIndex blockNum nodes
                    else bindE (depositFromOps rd trxId opIndex blockNum (vt_operations t)) (\<lambda>d. Inr (Some d)))))"

definition getDepositViaBlock ::
  "VizReader \<Rightarrow> VizNodes \<Rightarrow> (VizTx \<Rightarrow> string result) \<Rightarrow> nat \<Rightarrow> string \<Rightarrow> nat \<Rightarrow> nat \<Rightarrow> VizDeposit option result" where
  "getDepositViaBlock rd vn txId idx trxId opIndex blockNum =
     viaBlockLoop rd vn txId trxId opIndex blockNum
       (map (\<lambda>i. (idx + i) mod vn_count vn) [0 ..< vn_count vn])"

definition getDeposit ::
  "VizReader \<Rightarrow> VizNodes \<Rightarrow> (VizTx \<Rightarrow> string result) \<Rightarrow> nat \<Rightarrow> string \<Rightarrow> nat \<Rightarrow> nat option \<Rightarrow>
   VizDeposit option result" where
  "getDeposit rd vn txId idx trxId opIndex blockNumHint =
     (let fallback = (case blockNumHint of
            None \<Rightarrow> Inr None
          | Some h \<Rightarrow> if h > 0 then getDepositViaBlock rd vn txId idx trxId opIndex h else Inr None)
      in case vn_getTransaction vn trxId of
           Inr (Some tx) \<Rightarrow>
             (case at_operations tx of
                Some ops \<Rightarrow>
                  bindE (assertTransactionIdMatches (at_transaction_id tx) trxId) (\<lambda>_.
                  bindE (vn_lib vn) (\<lambda>lib.
                    if at_block_num tx > lib then Inr None
                    else bindE (depositFromOps rd trxId opIndex (at_block_num tx) ops) (\<lambda>d. Inr (Some d))))
              | None \<Rightarrow> fallback)
         | _ \<Rightarrow> fallback)"

section \<open>Account reads\<close>

record VizAuthority =
  va_weight_threshold :: nat
  va_key_auths :: "(string \<times> nat) list"

record VizAccount =
  ac_balance :: string
  ac_active :: "VizAuthority option"

definition gatewayBalanceMilliViz :: "VizAccount option result \<Rightarrow> int result" where
  "gatewayBalanceMilliViz reply =
     bindE reply (\<lambda>acct. case acct of
         None \<Rightarrow> Inl (GenericError ''backing account not found'')
       | Some a \<Rightarrow> (case vizToMilli (ac_balance a) of
           None \<Rightarrow> Inl (GenericError ''SyntaxError: Cannot convert to a BigInt'') | Some m \<Rightarrow> Inr m))"

definition accountExists :: "(string \<Rightarrow> VizAccount option result) \<Rightarrow> string \<Rightarrow> bool result" where
  "accountExists getAccount name =
     (if name = [] then Inr False else bindE (getAccount name) (\<lambda>a. Inr (a \<noteq> None)))"

definition activeAuthority :: "VizAccount option result \<Rightarrow> VizAuthority result" where
  "activeAuthority reply =
     bindE reply (\<lambda>acct. case acct of
         None \<Rightarrow> Inl (GenericError ''no active authority found'')
       | Some a \<Rightarrow> (case ac_active a of
           None \<Rightarrow> Inl (GenericError ''no active authority found'')
         | Some auth \<Rightarrow> if va_weight_threshold auth < 1 then Inl (GenericError ''no active authority found'')
                        else Inr auth))"

section \<open>Releases\<close>

definition buildReleaseProposal ::
  "CanonicalAction \<Rightarrow> string \<Rightarrow> nat \<Rightarrow> nat \<Rightarrow> string \<Rightarrow> VizReleaseProposal" where
  "buildReleaseProposal action gatewayAccount headBlockNumber refBlockPrefix expiration =
     \<lparr>vp_refBlockNum = headBlockNumber mod 65536, vp_refBlockPrefix = refBlockPrefix,
      vp_expiration = expiration, vp_from = gatewayAccount, vp_to = act_recipient action,
      vp_amount = milliToViz (act_amountMilliViz action), vp_memo = act_id action\<rparr>"

definition headBlockTimeMs :: "(string \<Rightarrow> int option) \<Rightarrow> string result \<Rightarrow> int result" where
  "headBlockTimeMs dateParse reply =
     bindE reply (\<lambda>time. case dateParse (time @ ''Z'') of
       None \<Rightarrow> Inl (GenericError ''unparseable node time'') | Some ms \<Rightarrow> Inr ms)"

text \<open>Any error of the lookup reads as \<open>null\<close>.\<close>

definition confirmReleaseByTxId ::
  "(string \<Rightarrow> AnnotatedTransaction option result) \<Rightarrow> string \<Rightarrow> string option" where
  "confirmReleaseByTxId getTransaction txid =
     (if txid = [] then None
      else (case getTransaction txid of
          Inl _ \<Rightarrow> None
        | Inr None \<Rightarrow> None
        | Inr (Some _) \<Rightarrow> Some txid))"

text \<open>\<open>recover\<close> is \<open>recoverReleaseSigner\<close> on the proposal: the key a signature is of.\<close>

fun selectLoop ::
  "(string \<Rightarrow> string result) \<Rightarrow> VizAuthority \<Rightarrow> string list \<Rightarrow> string list \<Rightarrow> string list \<Rightarrow> nat \<Rightarrow>
   string list \<times> string list \<times> nat" where
  "selectLoop recover auth [] chosen usedKeys weight = (chosen, usedKeys, weight)"
| "selectLoop recover auth (sig # sigs) chosen usedKeys weight =
     (if weight \<ge> va_weight_threshold auth then (chosen, usedKeys, weight)
      else (case recover sig of
          Inl _ \<Rightarrow> selectLoop recover auth sigs chosen usedKeys weight
        | Inr key \<Rightarrow>
            (case map_of (rev (va_key_auths auth)) key of
               None \<Rightarrow> selectLoop recover auth sigs chosen usedKeys weight
             | Some w \<Rightarrow>
                 if key \<in> set usedKeys then selectLoop recover auth sigs chosen usedKeys weight
                 else selectLoop recover auth sigs (chosen @ [sig]) (usedKeys @ [key]) (weight + w))))"

definition selectAuthoritySignatures ::
  "(string \<Rightarrow> string result) \<Rightarrow> string list \<Rightarrow> VizAuthority \<Rightarrow> string list result" where
  "selectAuthoritySignatures recover signatures auth =
     (case selectLoop recover auth signatures [] [] 0 of (chosen, _, weight) \<Rightarrow>
        if weight < va_weight_threshold auth
        then Inl (GenericError ''relevant signatures do not reach the active authority'')
        else Inr chosen)"

text \<open>
  The broadcast: whatever the node says to it, the poll of the exact id decides. \<open>polls\<close> is what
  each of the confirmations returned.
\<close>

definition RELEASE_CONFIRM_POLLS :: nat where
  "RELEASE_CONFIRM_POLLS = 20"

definition broadcastRelease ::
  "(string \<Rightarrow> string result) \<Rightarrow> VizAuthority result \<Rightarrow> string \<Rightarrow> (nat \<Rightarrow> string option) \<Rightarrow> string list \<Rightarrow>
   (string \<times> string list) result" where
  "broadcastRelease recover authority txid polls signatures =
     (if signatures = [] then Inl (GenericError ''no signatures to broadcast'')
      else bindE authority (\<lambda>auth.
           bindE (selectAuthoritySignatures recover signatures auth) (\<lambda>chosen.
             if \<exists>i \<in> set [0 ..< RELEASE_CONFIRM_POLLS]. polls i \<noteq> None then Inr (txid, chosen)
             else Inl (GenericError ''viz release not confirmed''))))"


section \<open>Amounts are printed and read back exactly\<close>

lemma padStart3_digits:
  assumes "n < 1000"
  shows "allDigits (padStart3 (decNat n))" and "length (padStart3 (decNat n)) = 3"
    and "undec (padStart3 (decNat n)) = n"
proof -
  have "isDigit (CHR ''0'')" by (simp add: isDigit_def)
  then show "allDigits (padStart3 (decNat n))"
    using allDigits_decNat [of n] by (auto simp: padStart3_def allDigits_def list_all_iff)
  show "length (padStart3 (decNat n)) = 3"
    using length_decNat_3 [OF assms] by (simp add: padStart3_def)
  show "undec (padStart3 (decNat n)) = n" by (simp add: padStart3_def undec_zeros)
qed

lemma vizToMilli_parts:
  assumes "allDigits a" "allDigits b" "length b = 3"
  shows "vizToMilli (a @ ''.'' @ b @ '' VIZ'') = Some (int (undec a) * 1000 + int (undec b))"
proof -
  have nd: "c \<notin> set s" if "allDigits s" "\<not> isDigit c" for c s
    using that by (auto simp: allDigits_def list_all_iff)
  have ne: "a \<noteq> []" "b \<noteq> []" using assms by (auto simp: allDigits_def)
  have "isDigit (hd a)" using assms(1) ne by (simp add: allDigits_def list_all_iff)
  then have t: "trim (a @ ''.'' @ b @ '' VIZ'') = (a @ ''.'' @ b) @ CHR '' '' # ''VIZ''"
    using ne isSpace_not_isDigit by (subst trim_id) (auto simp: isSpace_def [of "CHR ''Z''"])
  have sp: "CHR '' '' \<notin> set (a @ ''.'' @ b)"
    using nd [OF assms(1), of "CHR '' ''"] nd [OF assms(2), of "CHR '' ''"] by (simp add: isDigit_def)
  have dot: "CHR ''.'' \<notin> set a" "CHR ''.'' \<notin> set b"
    using nd assms(1,2) by (auto simp: isDigit_def)
  have p: "splitOn (CHR ''.'') (a @ ''.'' @ b) = [a, b]"
    using splitOn_append [OF dot(1), of b] splitOn_fresh [OF dot(2)] by simp
  show ?thesis
    unfolding vizToMilli_def t splitOn_append [OF sp] Let_def list.sel(1) p
    using ne assms(3) by (simp add: bigintOf_allDigits assms)
qed

lemma vizToMilli_milliToViz: "0 \<le> m \<Longrightarrow> vizToMilli (milliToViz m) = Some m"
proof -
  assume m: "0 \<le> m"
  then have "decInt (m div 1000) = decNat (nat (m div 1000))" "decInt (m mod 1000) = decNat (nat (m mod 1000))"
    by (simp_all add: decInt_def pos_imp_zdiv_neg_iff)
  moreover have "nat (m mod 1000) < 1000" by (simp add: nat_less_iff)
  ultimately show ?thesis
    using m vizToMilli_parts [OF allDigits_decNat [of "nat (m div 1000)"] padStart3_digits(1,2) [of "nat (m mod 1000)"]]
      padStart3_digits(3) [of "nat (m mod 1000)"] pos_imp_zdiv_nonneg_iff [of 1000 m]
    by (simp add: milliToViz_def Let_def)
qed

lemma milliToViz_inj: "0 \<le> m \<Longrightarrow> 0 \<le> n \<Longrightarrow> milliToViz m = milliToViz n \<longleftrightarrow> m = n"
  by (metis option.inject vizToMilli_milliToViz)

section \<open>Reading a deposit\<close>

lemma depositOf_fields:
  assumes "depositOf rd t i b payload = Inr d"
  shows "dep_trxId d = t" "dep_opIndex d = i" "dep_blockNum d = b"
    "dep_to d = payloadField payload ''to'' []" "dep_from d = payloadField payload ''from'' []"
    "chainFor (rd_accounts rd) (dep_to d) = Inr (dep_remoteChain d)"
    "dep_destinationValid d \<longleftrightarrow> isValidRemoteAddress (dep_remoteChain d) (dep_remoteDestination d)"
    "vizToMilli (payloadField payload ''amount'' ''0.000 VIZ'') = Some (dep_amountMilliViz d)"
  using assms
  by (auto simp: depositOf_def Let_def err_simps split: option.splits if_splits
      dest: isValidRemoteAddress_not_Nil) (simp add: isValidRemoteAddress_def)+

lemma depositFromOps_fields:
  assumes "depositFromOps rd t i b ops = Inr d"
  shows "i < length ops" "fst (ops ! i) = ''transfer''" "depositOf rd t i b (snd (ops ! i)) = Inr d"
    "isBackingAccount (rd_accounts rd) (dep_to d)"
  using assms depositOf_fields(4) [of rd t i b "snd (ops ! i)" d]
  by (auto simp: depositFromOps_def split: if_splits prod.splits)

lemma viaBlockLoop_Some:
  assumes "viaBlockLoop rd vn txId trxId i b nodes = Inr (Some d)"
  shows "\<exists>node t txs lib. node \<in> set nodes \<and> vn_getBlock vn node b = Inr txs \<and> t \<in> set txs \<and>
    txId t = Inr trxId \<and> vn_nodeLib vn node = Inr lib \<and> b \<le> lib \<and>
    depositFromOps rd trxId i b (vt_operations t) = Inr d"
  using assms
proof (induction nodes)
  case Nil
  then show ?case by simp
next
  case (Cons node nodes)
  show ?case
  proof (cases "\<exists>txs t lib. vn_getBlock vn node b = Inr txs \<and> List.find (txMatches txId trxId) txs = Some t \<and>
      vn_nodeLib vn node = Inr lib \<and> \<not> b > lib")
    case True
    then obtain txs t lib where h: "vn_getBlock vn node b = Inr txs"
      "List.find (txMatches txId trxId) txs = Some t" "vn_nodeLib vn node = Inr lib" "b \<le> lib"
      by auto
    have "t \<in> set txs" "txId t = Inr trxId"
      using find_Some_iff' [OF h(2)] by (auto simp: txMatches_def split: sum.splits)
    moreover have "depositFromOps rd trxId i b (vt_operations t) = Inr d"
      using Cons.prems h by (auto simp: err_simps)
    ultimately show ?thesis using h by fastforce
  next
    case False
    then have "viaBlockLoop rd vn txId trxId i b nodes = Inr (Some d)"
      using Cons.prems by (auto split: sum.splits option.splits if_splits)
    from Cons.IH [OF this] show ?thesis by auto
  qed
qed

text \<open>
  What a deposit the signer reads back is bound to: an irreversible transaction that one of its own
  nodes serves under the requested id, or that hashes to it.
\<close>

definition ownTransaction ::
  "VizNodes \<Rightarrow> (VizTx \<Rightarrow> string result) \<Rightarrow> string \<Rightarrow> nat \<Rightarrow> viz_op list \<Rightarrow> bool" where
  "ownTransaction vn txId t b ops \<longleftrightarrow>
     (\<exists>tx lib. vn_getTransaction vn t = Inr (Some tx) \<and> at_transaction_id tx = Some t \<and>
        at_operations tx = Some ops \<and> at_block_num tx = b \<and> vn_lib vn = Inr lib \<and> b \<le> lib) \<or>
     (\<exists>node tx txs lib. vn_getBlock vn node b = Inr txs \<and> tx \<in> set txs \<and> txId tx = Inr t \<and>
        vt_operations tx = ops \<and> vn_nodeLib vn node = Inr lib \<and> b \<le> lib)"

lemma getDeposit_Some:
  assumes "getDeposit rd vn txId idx t i hint = Inr (Some d)"
  shows "\<exists>b ops. depositFromOps rd t i b ops = Inr d \<and> ownTransaction vn txId t b ops"
proof (cases "\<exists>tx ops. vn_getTransaction vn t = Inr (Some tx) \<and> at_operations tx = Some ops")
  case True
  then obtain tx ops where h: "vn_getTransaction vn t = Inr (Some tx)" "at_operations tx = Some ops" by blast
  with assms obtain lib where "vn_lib vn = Inr lib" "at_block_num tx \<le> lib"
    "depositFromOps rd t i (at_block_num tx) ops = Inr d" "at_transaction_id tx = Some t"
    by (auto simp: getDeposit_def err_simps Let_def assertTransactionIdMatches_def split: if_splits)
  with h show ?thesis unfolding ownTransaction_def by blast
next
  case False
  then obtain h where "getDepositViaBlock rd vn txId idx t i h = Inr (Some d)"
    using assms by (auto simp: getDeposit_def Let_def split: sum.splits option.splits if_splits)
  then obtain node tx txs lib where "vn_getBlock vn node h = Inr txs" "tx \<in> set txs" "txId tx = Inr t"
    "vn_nodeLib vn node = Inr lib" "h \<le> lib" "depositFromOps rd t i h (vt_operations tx) = Inr d"
    using viaBlockLoop_Some unfolding getDepositViaBlock_def by blast
  then show ?thesis unfolding ownTransaction_def by blast
qed

section \<open>The scan\<close>

definition isDepositOp :: "VizReader \<Rightarrow> OpWrapper \<Rightarrow> bool" where
  "isDepositOp rd w \<longleftrightarrow> ow_virtual_op w = 0 \<and> ow_trx_id w \<noteq> ZERO_TRX \<and>
     fst (ow_op w) = ''transfer'' \<and>
     isBackingAccount (rd_accounts rd) (payloadField (snd (ow_op w)) ''to'' [])"

lemma scanOps_iff:
  assumes "scanOps rd ws ds = Inr ds'"
  shows "set ds \<subseteq> set ds'"
    and "d \<in> set ds' \<longleftrightarrow> d \<in> set ds \<or> (\<exists>w \<in> set ws. isDepositOp rd w \<and>
      depositOf rd (ow_trx_id w) (ow_op_in_trx w) (ow_block w) (snd (ow_op w)) = Inr d)"
  using assms
  by (induction rd ws ds rule: scanOps.induct)
    (auto simp: isDepositOp_def err_simps split: if_splits)

lemma scanBlocks_iff:
  assumes "scanBlocks rd getOps bs ds = Inr ds'"
  shows "d \<in> set ds' \<longleftrightarrow> d \<in> set ds \<or> (\<exists>b \<in> set bs. \<exists>ws. getOps b = Inr ws \<and>
    (\<exists>w \<in> set ws. isDepositOp rd w \<and>
      depositOf rd (ow_trx_id w) (ow_op_in_trx w) (ow_block w) (snd (ow_op w)) = Inr d))"
  using assms
proof (induction bs arbitrary: ds)
  case Nil
  then show ?case by simp
next
  case (Cons b bs)
  then obtain ops ds1 where "getOps b = Inr ops" "scanOps rd ops ds = Inr ds1"
    "scanBlocks rd getOps bs ds1 = Inr ds'"
    by (auto simp: err_simps)
  with Cons.IH [OF this(3)] scanOps_iff(2) [OF this(2)] show ?case by auto
qed

lemma scanOps_total:
  "scanOps rd ws ds = Inr ds' \<Longrightarrow> w \<in> set ws \<Longrightarrow> isDepositOp rd w \<Longrightarrow>
   \<exists>d. depositOf rd (ow_trx_id w) (ow_op_in_trx w) (ow_block w) (snd (ow_op w)) = Inr d"
  by (induction rd ws ds rule: scanOps.induct) (auto simp: isDepositOp_def err_simps split: if_splits)

lemma scanBlocks_total:
  "scanBlocks rd getOps bs ds = Inr ds' \<Longrightarrow> b \<in> set bs \<Longrightarrow> getOps b = Inr ws \<Longrightarrow> w \<in> set ws \<Longrightarrow>
   isDepositOp rd w \<Longrightarrow>
   \<exists>d. depositOf rd (ow_trx_id w) (ow_op_in_trx w) (ow_block w) (snd (ow_op w)) = Inr d"
proof (induction bs arbitrary: ds)
  case Nil
  then show ?case by simp
next
  case (Cons x bs)
  then show ?case by (auto simp: err_simps dest: scanOps_total)
qed

text \<open>A window that starts at the cursor is scanned completely: the cursor skips no block.\<close>

lemma window_blocks:
  assumes "nextScanWindow (int cursor) (int safeHead) = (int scannedTo, reached)" "cursor < safeHead"
  shows "cursor < scannedTo" "scannedTo \<le> safeHead" "reached \<longleftrightarrow> scannedTo = safeHead"
    "irreversibleDepositsSince rd getOps cursor scannedTo =
       scanBlocks rd getOps [Suc cursor ..< Suc scannedTo] []"
proof -
  have "int scannedTo = min (int safeHead) (int cursor + 200)" and r: "reached = (scannedTo \<ge> safeHead)"
    using assms(1) by (auto simp: nextScanWindow_def MAX_BLOCKS_PER_SCAN_def Let_def)
  then have s: "scannedTo = min safeHead (cursor + 200)" "reached = (scannedTo \<ge> safeHead)"
    by linarith+
  then show "cursor < scannedTo" "scannedTo \<le> safeHead" "reached \<longleftrightarrow> scannedTo = safeHead"
    using assms(2) by auto
  moreover have "min scannedTo (cursor + 200) = scannedTo" using s by simp
  ultimately show "irreversibleDepositsSince rd getOps cursor scannedTo =
       scanBlocks rd getOps [Suc cursor ..< Suc scannedTo] []"
    by (simp add: irreversibleDepositsSince_def MAX_BLOCKS_PER_SCAN_def Let_def)
qed

section \<open>The signatures of a release\<close>

definition keyWeight :: "VizAuthority \<Rightarrow> string \<Rightarrow> nat" where
  "keyWeight auth key = (case map_of (rev (va_key_auths auth)) key of None \<Rightarrow> 0 | Some w \<Rightarrow> w)"

text \<open>The chosen signatures with their keys: distinct keys of the authority, and one before the
  last they were still short of the threshold.\<close>

definition chosenOk ::
  "(string \<Rightarrow> string result) \<Rightarrow> VizAuthority \<Rightarrow> string list \<times> string list \<times> nat \<Rightarrow> bool" where
  "chosenOk recover auth r \<longleftrightarrow> (case r of (chosen, keys, weight) \<Rightarrow>
     map recover chosen = map Inr keys \<and> distinct keys \<and>
     set keys \<subseteq> fst ` set (va_key_auths auth) \<and>
     weight = sum_list (map (keyWeight auth) keys) \<and>
     (chosen = [] \<or> sum_list (map (keyWeight auth) (butlast keys)) < va_weight_threshold auth))"

lemma selectLoop_ok:
  assumes "chosenOk recover auth (chosen, keys, weight)"
  shows "chosenOk recover auth (selectLoop recover auth sigs chosen keys weight)"
  using assms
proof (induction recover auth sigs chosen keys weight rule: selectLoop.induct)
  case (1 recover auth chosen usedKeys weight)
  then show ?case by simp
next
  case (2 recover auth sig sigs chosen usedKeys weight)
  show ?case
  proof (cases "weight \<ge> va_weight_threshold auth")
    case True
    with "2.prems" show ?thesis by simp
  next
    case short: False
    show ?thesis
    proof (cases "recover sig")
      case (Inl e)
      with 2 short show ?thesis by simp
    next
      case key: (Inr key)
      show ?thesis
      proof (cases "map_of (rev (va_key_auths auth)) key")
        case None
        with 2 short key show ?thesis by simp
      next
        case (Some w)
        show ?thesis
        proof (cases "key \<in> set usedKeys")
          case True
          with 2 short key Some show ?thesis by simp
        next
          case False
          have "key \<in> fst ` set (va_key_auths auth)"
            using map_of_SomeD [OF Some] by force
          then have "chosenOk recover auth (chosen @ [sig], usedKeys @ [key], weight + w)"
            using "2.prems" short key Some False by (auto simp: chosenOk_def keyWeight_def)
          with "2.IH"(4) [OF short key Some False] short key Some False show ?thesis by simp
        qed
      qed
    qed
  qed
qed

lemma selectAuthoritySignatures_ok:
  assumes "selectAuthoritySignatures recover sigs auth = Inr chosen"
  shows "\<exists>keys. map recover chosen = map Inr keys \<and> distinct keys \<and>
    set keys \<subseteq> fst ` set (va_key_auths auth) \<and>
    va_weight_threshold auth \<le> sum_list (map (keyWeight auth) keys) \<and>
    (chosen = [] \<or> sum_list (map (keyWeight auth) (butlast keys)) < va_weight_threshold auth)"
proof -
  obtain keys weight where l: "selectLoop recover auth sigs [] [] 0 = (chosen, keys, weight)"
    "va_weight_threshold auth \<le> weight"
    using assms by (auto simp: selectAuthoritySignatures_def split: prod.splits if_splits)
  have "chosenOk recover auth ([], [], 0)" by (simp add: chosenOk_def)
  from selectLoop_ok [OF this, of sigs] l show ?thesis by (auto simp: chosenOk_def)
qed

section \<open>Properties\<close>

text \<open>
  An amount printed for a release is read back as the same number of milli-VIZ, so two
  different non-negative amounts never print the same asset string.
\<close>

lemma amount_roundtrip:
  assumes "0 \<le> m"
  shows "vizToMilli (milliToViz m) = Some m"
  by (rule vizToMilli_milliToViz [OF assms])

text \<open>
  The two are not inverse below zero: minus half a VIZ prints as an asset string that is read
  back as plus half a VIZ.
\<close>

lemma negative_amount_not_roundtrip:
  "milliToViz (- 500) = ''-0.500 VIZ'' \<and> vizToMilli (milliToViz (- 500)) = Some 500"
  by code_simp

text \<open>
  C13. A deposit the signer reads back stands in an irreversible transaction of one of its own
  nodes, under that id (served or recomputed); it is a transfer to a backing account, its chain is
  the chain of that account, and it counts as mintable only with a valid address of that chain.
\<close>

theorem own_deposit_bound:
  assumes "getDeposit rd vn txId idx t i hint = Inr (Some d)"
  shows "dep_trxId d = t \<and> dep_opIndex d = i \<and> isBackingAccount (rd_accounts rd) (dep_to d) \<and>
    chainFor (rd_accounts rd) (dep_to d) = Inr (dep_remoteChain d) \<and>
    (dep_destinationValid d \<longleftrightarrow> isValidRemoteAddress (dep_remoteChain d) (dep_remoteDestination d)) \<and>
    (\<exists>b ops. ownTransaction vn txId t b ops \<and> i < length ops \<and> fst (ops ! i) = ''transfer'' \<and>
       depositOf rd t i b (snd (ops ! i)) = Inr d)"
proof -
  obtain b ops where d: "depositFromOps rd t i b ops = Inr d" and own: "ownTransaction vn txId t b ops"
    using getDeposit_Some [OF assms] by blast
  note f = depositFromOps_fields [OF d]
  note g = depositOf_fields [OF f(3)]
  show ?thesis using f g own by blast
qed

definition reader_example :: VizReader where
  "reader_example = \<lparr>rd_accounts = \<lparr>ga_byChain = [(GRAM, ''gram.gate'')], ga_byAccount = [(''gram.gate'', GRAM)]\<rparr>,
     rd_memoWifs = Map.empty, rd_decode = (\<lambda>_ _. Inl (GenericError ''bad memo''))\<rparr>"

definition payload_example :: "string \<rightharpoonup> string" where
  "payload_example = [''from'' \<mapsto> ''alice'', ''to'' \<mapsto> ''gram.gate'', ''amount'' \<mapsto> ''25.000 VIZ'', ''memo'' \<mapsto> ''nowhere'']"

definition nodes_example :: VizNodes where
  "nodes_example = \<lparr>vn_count = 1,
     vn_getTransaction = (\<lambda>t. Inr (Some \<lparr>at_transaction_id = Some t, at_block_num = 700,
        at_operations = Some [(''transfer'', payload_example)]\<rparr>)),
     vn_lib = Inr 710, vn_getBlock = (\<lambda>_ _. Inr []), vn_nodeLib = (\<lambda>_. Inr 710)\<rparr>"

theorem own_deposit_bound_witness:
  "\<exists>d. getDeposit reader_example nodes_example (\<lambda>_. Inr []) 0 ''ab01'' 0 None = Inr (Some d) \<and>
     dep_to d = ''gram.gate'' \<and> dep_remoteChain d = GRAM \<and> \<not> dep_destinationValid d"
proof -
  have "getDeposit reader_example nodes_example (\<lambda>_. Inr []) 0 ''ab01'' 0 None = Inr (Some
      \<lparr>dep_trxId = ''ab01'', dep_opIndex = 0, dep_blockNum = 700, dep_from = ''alice'', dep_to = ''gram.gate'',
       dep_amountMilliViz = 25000, dep_remoteChain = GRAM, dep_remoteDestination = [],
       dep_destinationValid = False\<rparr>)" (is "_ = Inr (Some ?d)")
    by code_simp
  from own_deposit_bound [OF this] this show ?thesis
    by (intro exI [of _ ?d]) simp
qed

text \<open>
  The watcher's scan and the signer's re-read agree: a deposit the scan reports for an
  operation is exactly the deposit the signer reconstructs from the same operation at the same
  index of the same transaction, so the two derive the same canonical action.
\<close>

lemma scan_agrees_with_reread:
  assumes "irreversibleDepositsSince rd getOps cursor upTo = Inr ds" "d \<in> set ds"
  shows "\<exists>b ws w. getOps b = Inr ws \<and> w \<in> set ws \<and> cursor < b \<and> b \<le> upTo \<and>
    (\<forall>ops. ow_op_in_trx w < length ops \<and> ops ! ow_op_in_trx w = ow_op w \<longrightarrow>
       depositFromOps rd (ow_trx_id w) (ow_op_in_trx w) (ow_block w) ops = Inr d)"
proof -
  have "cursor < upTo" using assms by (auto simp: irreversibleDepositsSince_def Let_def split: if_splits)
  then have "scanBlocks rd getOps [Suc cursor ..< Suc (min upTo (cursor + MAX_BLOCKS_PER_SCAN))] [] = Inr ds"
    using assms(1) by (simp add: irreversibleDepositsSince_def Let_def split: if_splits)
  with assms(2) obtain b ws w where h: "b \<in> set [Suc cursor ..< Suc (min upTo (cursor + MAX_BLOCKS_PER_SCAN))]"
    "getOps b = Inr ws" "w \<in> set ws" "isDepositOp rd w"
    "depositOf rd (ow_trx_id w) (ow_op_in_trx w) (ow_block w) (snd (ow_op w)) = Inr d"
    by (auto simp: scanBlocks_iff)
  moreover have "depositFromOps rd (ow_trx_id w) (ow_op_in_trx w) (ow_block w) ops = Inr d"
    if "ow_op_in_trx w < length ops" "ops ! ow_op_in_trx w = ow_op w" for ops
    using that h(4,5) by (cases "ow_op w") (simp add: depositFromOps_def isDepositOp_def)
  moreover have "cursor < b" "b \<le> upTo" using h(1) by auto
  ultimately show ?thesis by blast
qed

definition wrapper_example :: OpWrapper where
  "wrapper_example = \<lparr>ow_trx_id = ''ab01'', ow_block = 700, ow_op_in_trx = 0, ow_virtual_op = 0,
     ow_op = (''transfer'', payload_example)\<rparr>"

text \<open>
  No block is skipped: a watcher tick scans every block from the one after its cursor to the
  one it then moves the cursor to, whatever the backlog, and reports every deposit operation in
  them.
\<close>

lemma scan_window_complete:
  assumes "nextScanWindow (int cursor) (int safeHead) = (int scannedTo, reached)" "cursor < safeHead"
    "irreversibleDepositsSince rd getOps cursor scannedTo = Inr ds"
    "cursor < b" "b \<le> scannedTo" "getOps b = Inr ws" "w \<in> set ws" "isDepositOp rd w"
  shows "\<exists>d \<in> set ds. dep_trxId d = ow_trx_id w \<and> dep_opIndex d = ow_op_in_trx w"
proof -
  have s: "scanBlocks rd getOps [Suc cursor ..< Suc scannedTo] [] = Inr ds"
    using window_blocks(4) [OF assms(1,2)] assms(3) by simp
  have "b \<in> set [Suc cursor ..< Suc scannedTo]" using assms(4,5) by auto
  then obtain d where "depositOf rd (ow_trx_id w) (ow_op_in_trx w) (ow_block w) (snd (ow_op w)) = Inr d"
    using s assms(6-8) scanBlocks_total by blast
  then show ?thesis
    using scanBlocks_iff [OF s] assms(4-8) depositOf_fields(1,2) by (metis \<open>b \<in> _\<close>)
qed

text \<open>
  A release is sent with a minimal set of signatures: they are of distinct keys of the
  account's active authority, their weights reach its threshold, and without the last one they do
  not (the chain rejects a transfer with an irrelevant signature).
\<close>

lemma release_signatures_minimal:
  assumes "selectAuthoritySignatures recover sigs auth = Inr chosen"
  shows "\<exists>keys. map recover chosen = map Inr keys \<and> distinct keys \<and>
    set keys \<subseteq> fst ` set (va_key_auths auth) \<and>
    va_weight_threshold auth \<le> sum_list (map (keyWeight auth) keys) \<and>
    (chosen = [] \<or> sum_list (map (keyWeight auth) (butlast keys)) < va_weight_threshold auth)"
  by (rule selectAuthoritySignatures_ok [OF assms])

end
