(* ===== verification/GramChain.thy ===== *)
theory GramChain
  imports Canonical
begin

text \<open>
  The TON adapter (\<open>packages/gram-watcher/src/gramChain.ts\<close>): the parser of inbound jetton
  messages, the peg-out scan over the gateway wallet's transactions, the signer's re-read of one
  burn, the circulating supply and the reads of multisig orders. What comes from \<open>@ton/ton\<close> is a
  parameter: a slice is a \<open>'sl\<close> with its reading functions, an endpoint answers by a function of
  its index that may throw. Logical times are \<open>nat\<close> (the code converts them through \<open>Number\<close>,
  exact below \<open>2 ^ 53\<close>).
\<close>

section \<open>Reads with failover\<close>

text \<open>
  \<open>tonCall\<close>: one pass through the ring of \<open>clients\<close>, from the sticky index \<open>idx\<close>; the index
  moves on at a transient error. The second result is the index it leaves.
\<close>

function tonCall ::
  "(js_error \<Rightarrow> bool) \<Rightarrow> nat \<Rightarrow> (nat \<Rightarrow> nat \<Rightarrow> 'a result) \<Rightarrow> nat \<Rightarrow> nat \<Rightarrow> 'a result \<times> nat" where
  "tonCall transient clients fn idx attempt =
     (case fn idx attempt of
        Inr x \<Rightarrow> (Inr x, idx)
      | Inl e \<Rightarrow>
          if attempt \<ge> clients \<or> \<not> transient e then (Inl e, idx)
          else tonCall transient clients fn ((idx + 1) mod clients) (attempt + 1))"
  by pat_completeness auto

termination by (relation "measure (\<lambda>(_, c, _, _, a). c - a)") auto

declare tonCall.simps [simp del]

section \<open>Jetton messages\<close>

definition OP_TRANSFER_NOTIFICATION :: nat where "OP_TRANSFER_NOTIFICATION = 0x7362d09c"

definition OP_INTERNAL_TRANSFER :: nat where "OP_INTERNAL_TRANSFER = 0x178d4519"

record 'sl SliceReader =
  sl_remainingBits :: "'sl \<Rightarrow> nat"
  sl_loadUint :: "nat \<Rightarrow> 'sl \<Rightarrow> (nat \<times> 'sl) result"
  sl_loadCoins :: "'sl \<Rightarrow> (nat \<times> 'sl) result"
  sl_loadAddress :: "'sl \<Rightarrow> (string \<times> 'sl) result"
  sl_loadMaybeAddress :: "'sl \<Rightarrow> (string option \<times> 'sl) result"
  sl_loadBit :: "'sl \<Rightarrow> (bool \<times> 'sl) result"
  sl_loadRef :: "'sl \<Rightarrow> ('sl \<times> 'sl) result"
  sl_loadStringTail :: "'sl \<Rightarrow> string result"

record JettonDeposit =
  jd_amountBaseUnits :: nat
  jd_sender :: string
  jd_comment :: string

definition forwardComment :: "'sl SliceReader \<Rightarrow> 'sl \<Rightarrow> string result" where
  "forwardComment rd fp =
     (if sl_remainingBits rd fp < 32 then Inr []
      else bindE (sl_loadUint rd 32 fp) (\<lambda>(tag, fp'). if tag = 0 then sl_loadStringTail rd fp' else Inr []))"

definition parseJettonDeposit :: "'sl SliceReader \<Rightarrow> 'sl \<Rightarrow> JettonDeposit option result" where
  "parseJettonDeposit rd body =
     (if sl_remainingBits rd body < 32 then Inr None
      else bindE (sl_loadUint rd 32 body) (\<lambda>(op, b1).
        if op \<noteq> OP_TRANSFER_NOTIFICATION \<and> op \<noteq> OP_INTERNAL_TRANSFER then Inr None
        else bindE (sl_loadUint rd 64 b1) (\<lambda>(_, b2).
             bindE (sl_loadCoins rd b2) (\<lambda>(amount, b3).
             bindE (sl_loadAddress rd b3) (\<lambda>(sender, b4).
             bindE (if op = OP_INTERNAL_TRANSFER
                    then bindE (sl_loadMaybeAddress rd b4) (\<lambda>(_, b5).
                         bindE (sl_loadCoins rd b5) (\<lambda>(_, b6). Inr b6))
                    else Inr b4) (\<lambda>b7.
             bindE (sl_loadBit rd b7) (\<lambda>(inRef, b8).
             bindE (if inRef then bindE (sl_loadRef rd b8) (\<lambda>(r, _). Inr r) else Inr b8) (\<lambda>fp.
             bindE (forwardComment rd fp) (\<lambda>comment.
               Inr (Some \<lparr>jd_amountBaseUnits = amount, jd_sender = sender, jd_comment = comment\<rparr>))))))))))"

section \<open>Transactions\<close>

datatype TonCompute = ComputeVm bool | ComputeSkipped

datatype TonDescription = GenericTx TonCompute | OtherTx

text \<open>\<open>tt_body\<close> is the body of the inbound message, \<open>None\<close> if there is none or it has no bits.\<close>

record 'sl TonTx =
  tt_lt :: nat
  tt_now :: int
  tt_hash :: string
  tt_description :: "TonDescription option"
  tt_body :: "'sl option"

definition txComputeSucceeded :: "'sl TonTx \<Rightarrow> bool" where
  "txComputeSucceeded tx =
     (case tt_description tx of Some (GenericTx (ComputeVm ok)) \<Rightarrow> ok | _ \<Rightarrow> False)"

definition burnFromTx :: "'sl SliceReader \<Rightarrow> int \<Rightarrow> 'sl TonTx \<Rightarrow> nat \<Rightarrow> RemoteBurn option result" where
  "burnFromTx rd cutoff tx height =
     (if tt_now tx > cutoff then Inr None
      else if \<not> txComputeSucceeded tx then Inr None
      else (case tt_body tx of
          None \<Rightarrow> Inr None
        | Some body \<Rightarrow> bindE (parseJettonDeposit rd body) (\<lambda>parsed. case parsed of
              None \<Rightarrow> Inr None
            | Some p \<Rightarrow> Inr (Some \<lparr>burn_chain = GRAM, burn_sourceId = tt_hash tx, burn_height = height,
                burn_from = jd_sender p, burn_amountMilliViz = int (jd_amountBaseUnits p),
                burn_homeDestination = trim (jd_comment p)\<rparr>))))"

section \<open>The scan\<close>

definition coldStartAnchorLt :: "nat \<Rightarrow> nat" where
  "coldStartAnchorLt tipLt = (if tipLt > 0 then tipLt - 1 else 0)"

text \<open>
  The loop over one page: the burns, the newest final logical time, whether a fresh transaction
  was seen, and whether the cursor was reached.
\<close>

fun scanPage ::
  "nat \<Rightarrow> int \<Rightarrow> ('sl TonTx \<Rightarrow> RemoteBurn option result) \<Rightarrow> nat option \<Rightarrow> 'sl TonTx list \<Rightarrow>
   RemoteBurn list \<times> nat \<times> bool \<Rightarrow> (RemoteBurn list \<times> nat \<times> bool \<times> bool) result" where
  "scanPage fromLt cutoff toBurn anchorLt [] (burns, newest, fresh) = Inr (burns, newest, fresh, False)"
| "scanPage fromLt cutoff toBurn anchorLt (tx # txs) (burns, newest, fresh) =
     (if (case anchorLt of None \<Rightarrow> False | Some a \<Rightarrow> tt_lt tx \<ge> a)
      then scanPage fromLt cutoff toBurn anchorLt txs (burns, newest, fresh)
      else if tt_lt tx \<le> fromLt then Inr (burns, newest, fresh, True)
      else if tt_now tx \<le> cutoff
      then bindE (toBurn tx) (\<lambda>b.
             scanPage fromLt cutoff toBurn anchorLt txs
               (case b of None \<Rightarrow> burns | Some x \<Rightarrow> burns @ [x], if tt_lt tx > newest then tt_lt tx else newest, True))
      else scanPage fromLt cutoff toBurn anchorLt txs (burns, newest, True))"

text \<open>The loop over pages; the first argument is how many may still be fetched.\<close>

fun paginateLoop ::
  "nat \<Rightarrow> nat \<Rightarrow> int \<Rightarrow> nat \<Rightarrow> ((nat \<times> string) option \<Rightarrow> 'sl TonTx list result) \<Rightarrow>
   ('sl TonTx \<Rightarrow> RemoteBurn option result) \<Rightarrow> (nat \<times> string) option \<Rightarrow> RemoteBurn list \<times> nat \<Rightarrow>
   (RemoteBurn list \<times> nat \<times> bool) result" where
  "paginateLoop 0 fromLt cutoff limit fetchPage toBurn anchor (burns, newest) = Inr (burns, newest, False)"
| "paginateLoop (Suc pages) fromLt cutoff limit fetchPage toBurn anchor (burns, newest) =
     bindE (fetchPage anchor) (\<lambda>page.
       if page = [] then Inr (burns, newest, True)
       else bindE (scanPage fromLt cutoff toBurn (map_option fst anchor) page (burns, newest, False))
         (\<lambda>(burns', newest', sawFresh, drained).
            if drained then Inr (burns', newest', True)
            else if \<not> sawFresh \<or> length page < limit then Inr (burns', newest', True)
            else paginateLoop pages fromLt cutoff limit fetchPage toBurn
                   (Some (tt_lt (last page), tt_hash (last page))) (burns', newest')))"

definition paginateBurnsByLt ::
  "nat \<Rightarrow> int \<Rightarrow> nat \<Rightarrow> nat \<Rightarrow> nat \<Rightarrow> ((nat \<times> string) option \<Rightarrow> 'sl TonTx list result) \<Rightarrow>
   ('sl TonTx \<Rightarrow> nat \<Rightarrow> RemoteBurn option result) \<Rightarrow> (RemoteBurn list \<times> nat \<times> bool) result" where
  "paginateBurnsByLt fromLt cutoff height limit maxScanPages fetchPage toBurn =
     paginateLoop maxScanPages fromLt cutoff limit fetchPage (\<lambda>tx. toBurn tx height) None ([], fromLt)"

text \<open>The configuration of the adapter, as its constructor normalises it.\<close>

record GramConfig =
  gc_hasWallet :: bool
  gc_frozenMilliViz :: int
  gc_finalityBufferSec :: int
  gc_maxTransactions :: nat
  gc_maxScanPages :: nat

definition gramConfig :: "string \<Rightarrow> int \<Rightarrow> nat \<Rightarrow> nat \<Rightarrow> int \<Rightarrow> GramConfig" where
  "gramConfig gatewayJettonWallet finalityConfirmations maxTransactions maxScanPages frozen =
     \<lparr>gc_hasWallet = (gatewayJettonWallet \<noteq> []), gc_frozenMilliViz = frozen,
      gc_finalityBufferSec = max 6 (finalityConfirmations * 5 + 5),
      gc_maxTransactions = max 1 maxTransactions, gc_maxScanPages = max 1 maxScanPages\<rparr>"

text \<open>What one endpoint answers during one attempt.\<close>

record 'sl TonReads =
  tr_nowSec :: int
  tr_latestSeqno :: "nat result"
  tr_transactions :: "(nat \<times> string) option \<Rightarrow> nat \<Rightarrow> 'sl TonTx list result"

definition newestLtOnce :: "GramConfig \<Rightarrow> 'sl TonReads \<Rightarrow> nat result" where
  "newestLtOnce cfg tr =
     (if \<not> gc_hasWallet cfg then Inr 0
      else bindE (tr_transactions tr None 1) (\<lambda>txs. Inr (case txs of [] \<Rightarrow> 0 | tip # _ \<Rightarrow> tt_lt tip)))"

definition finalizedBurnsOnce ::
  "GramConfig \<Rightarrow> 'sl SliceReader \<Rightarrow> 'sl TonReads \<Rightarrow> nat \<Rightarrow> (RemoteBurn list \<times> nat \<times> bool) result" where
  "finalizedBurnsOnce cfg rd tr fromLt =
     (if \<not> gc_hasWallet cfg then Inr ([], fromLt, True)
      else let cutoff = tr_nowSec tr - gc_finalityBufferSec cfg
           in bindE (tr_latestSeqno tr) (\<lambda>height.
                paginateBurnsByLt fromLt cutoff height (gc_maxTransactions cfg) (gc_maxScanPages cfg)
                  (\<lambda>anchor. tr_transactions tr anchor (gc_maxTransactions cfg)) (burnFromTx rd cutoff)))"

text \<open>\<open>getBurn\<close>: the newest \<open>maxTransactions\<close>, the first with the wanted hash.\<close>

definition getBurnOnce ::
  "GramConfig \<Rightarrow> 'sl SliceReader \<Rightarrow> 'sl TonReads \<Rightarrow> string \<Rightarrow> RemoteBurn option result" where
  "getBurnOnce cfg rd tr sourceId =
     (if \<not> gc_hasWallet cfg then Inr None
      else let cutoff = tr_nowSec tr - gc_finalityBufferSec cfg
           in bindE (tr_transactions tr None (gc_maxTransactions cfg)) (\<lambda>txs.
                case List.find (\<lambda>tx. tt_hash tx = sourceId) txs of
                  None \<Rightarrow> Inr None
                | Some tx \<Rightarrow> bindE (tr_latestSeqno tr) (\<lambda>height. burnFromTx rd cutoff tx height)))"

definition finalizedBurnsPaginated ::
  "(js_error \<Rightarrow> bool) \<Rightarrow> nat \<Rightarrow> GramConfig \<Rightarrow> 'sl SliceReader \<Rightarrow> (nat \<Rightarrow> nat \<Rightarrow> 'sl TonReads) \<Rightarrow> nat \<Rightarrow> nat \<Rightarrow>
   (RemoteBurn list \<times> nat \<times> bool) result \<times> nat" where
  "finalizedBurnsPaginated transient clients cfg rd reads idx fromLt =
     tonCall transient clients (\<lambda>i a. finalizedBurnsOnce cfg rd (reads i a) fromLt) idx 1"

definition getBurn ::
  "(js_error \<Rightarrow> bool) \<Rightarrow> nat \<Rightarrow> GramConfig \<Rightarrow> 'sl SliceReader \<Rightarrow> (nat \<Rightarrow> nat \<Rightarrow> 'sl TonReads) \<Rightarrow> nat \<Rightarrow> string \<Rightarrow>
   RemoteBurn option result \<times> nat" where
  "getBurn transient clients cfg rd reads idx sourceId =
     tonCall transient clients (\<lambda>i a. getBurnOnce cfg rd (reads i a) sourceId) idx 1"

section \<open>The circulating supply\<close>

record SupplyReads =
  su_totalSupply :: "nat \<Rightarrow> int result"
  su_held :: "nat \<Rightarrow> int result"
  su_walletState :: "nat \<Rightarrow> string result"

fun confirmZeroHeld :: "nat \<Rightarrow> SupplyReads \<Rightarrow> nat \<Rightarrow> nat list \<Rightarrow> unit result" where
  "confirmZeroHeld clients su idx [] = Inr ()"
| "confirmZeroHeld clients su idx (i # is) =
     bindE (su_held su ((idx + i) mod clients)) (\<lambda>second.
       if second \<noteq> 0 then Inl (GenericError ''held-balance disagreement'')
       else confirmZeroHeld clients su idx is)"

fun othersInactive :: "nat \<Rightarrow> SupplyReads \<Rightarrow> nat \<Rightarrow> js_error \<Rightarrow> nat list \<Rightarrow> unit result" where
  "othersInactive clients su idx err [] = Inr ()"
| "othersInactive clients su idx err (i # is) =
     bindE (su_walletState su ((idx + i) mod clients)) (\<lambda>second.
       if second = ''active'' then Inl err else othersInactive clients su idx err is)"

definition circulatingOnce ::
  "(js_error \<Rightarrow> bool) \<Rightarrow> nat \<Rightarrow> GramConfig \<Rightarrow> SupplyReads \<Rightarrow> nat \<Rightarrow> int result" where
  "circulatingOnce transient clients cfg su idx =
     bindE (su_totalSupply su idx) (\<lambda>totalSupply.
       let total = totalSupply - gc_frozenMilliViz cfg
       in if \<not> gc_hasWallet cfg then Inr (if total > 0 then total else 0)
          else (case su_held su idx of
              Inl err \<Rightarrow>
                if transient err then Inl err
                else bindE (su_walletState su idx) (\<lambda>state.
                  if state = ''active'' then Inl err
                  else bindE (othersInactive clients su idx err [1 ..< clients])
                         (\<lambda>_. Inr (if total > 0 then total else 0)))
            | Inr held \<Rightarrow>
                bindE (if held = 0 then confirmZeroHeld clients su idx [1 ..< clients] else Inr ()) (\<lambda>_.
                  let circulating = total - held in Inr (if circulating > 0 then circulating else 0))))"

definition circulatingSupplyMilliViz ::
  "(js_error \<Rightarrow> bool) \<Rightarrow> nat \<Rightarrow> GramConfig \<Rightarrow> (nat \<Rightarrow> SupplyReads) \<Rightarrow> nat \<Rightarrow> int result \<times> nat" where
  "circulatingSupplyMilliViz transient clients cfg su idx =
     tonCall transient clients (\<lambda>i a. circulatingOnce transient clients cfg (su a) i) idx 1"

section \<open>Multisig orders\<close>

record OrderData =
  od_inited :: bool
  od_executed :: bool
  od_approvalsNum :: nat
  od_threshold :: nat

text \<open>What the order contract itself returns; \<open>approvals_num\<close> and \<open>threshold\<close> may be missing.\<close>

record RawOrder =
  ro_inited :: bool
  ro_executed :: bool
  ro_approvals_num :: "nat option"
  ro_threshold :: "nat option"

definition orderDataOnce :: "string result \<Rightarrow> RawOrder result \<Rightarrow> OrderData result" where
  "orderDataOnce stateR rawR =
     bindE stateR (\<lambda>state.
       if state \<noteq> ''active''
       then Inr \<lparr>od_inited = False, od_executed = False, od_approvalsNum = 0, od_threshold = 0\<rparr>
       else bindE rawR (\<lambda>od. Inr \<lparr>od_inited = ro_inited od, od_executed = ro_executed od,
              od_approvalsNum = (case ro_approvals_num od of None \<Rightarrow> 0 | Some n \<Rightarrow> n),
              od_threshold = (case ro_threshold od of None \<Rightarrow> 0 | Some n \<Rightarrow> n)\<rparr>))"

definition orderExistsOnce :: "string result \<Rightarrow> bool result" where
  "orderExistsOnce stateR = bindE stateR (\<lambda>state. Inr (state = ''active''))"

definition orderExecutedOnce :: "string result \<Rightarrow> RawOrder result \<Rightarrow> bool result" where
  "orderExecutedOnce stateR rawR = bindE (orderDataOnce stateR rawR) (\<lambda>od. Inr (od_executed od))"

section \<open>The scan as one fold\<close>

fun foldBurns ::
  "int \<Rightarrow> ('sl TonTx \<Rightarrow> RemoteBurn option result) \<Rightarrow> 'sl TonTx list \<Rightarrow> RemoteBurn list \<times> nat \<Rightarrow>
   (RemoteBurn list \<times> nat) result" where
  "foldBurns cutoff toBurn [] st = Inr st"
| "foldBurns cutoff toBurn (tx # txs) (burns, newest) =
     (if tt_now tx \<le> cutoff
      then bindE (toBurn tx) (\<lambda>b. foldBurns cutoff toBurn txs
             (case b of None \<Rightarrow> burns | Some x \<Rightarrow> burns @ [x], if tt_lt tx > newest then tt_lt tx else newest))
      else foldBurns cutoff toBurn txs (burns, newest))"

lemma foldBurns_append:
  "foldBurns cutoff toBurn (xs @ ys) st =
     bindE (foldBurns cutoff toBurn xs st) (\<lambda>st'. foldBurns cutoff toBurn ys st')"
proof (induction xs arbitrary: st)
  case (Cons tx xs)
  obtain burns newest where st: "st = (burns, newest)" by (cases st)
  show ?case by (cases "toBurn tx") (simp_all add: st Cons.IH)
qed simp

lemma scanPage_fold:
  assumes "\<forall>x \<in> set page. case anchor of None \<Rightarrow> True | Some a \<Rightarrow> tt_lt x < a"
  shows "scanPage fromLt cutoff toBurn anchor page (burns, newest, fresh) =
    bindE (foldBurns cutoff toBurn (takeWhile (\<lambda>t. fromLt < tt_lt t) page) (burns, newest))
      (\<lambda>(burns', newest'). Inr (burns', newest', fresh \<or> takeWhile (\<lambda>t. fromLt < tt_lt t) page \<noteq> [],
         takeWhile (\<lambda>t. fromLt < tt_lt t) page \<noteq> page))"
  using assms
proof (induction page arbitrary: burns newest fresh)
  case (Cons tx page)
  have na: "\<not> (case anchor of None \<Rightarrow> False | Some a \<Rightarrow> tt_lt tx \<ge> a)"
    using Cons.prems by (auto split: option.splits)
  show ?case
  proof (cases "fromLt < tt_lt tx")
    case True
    show ?thesis
    proof (cases "toBurn tx")
      case (Inl e)
      then show ?thesis using na True Cons by (simp add: not_le)
    next
      case (Inr b)
      then show ?thesis using na True Cons by (simp add: not_le)
    qed
  next
    case False
    then show ?thesis using na by simp
  qed
qed simp

text \<open>
  The history of an account as its nodes serve it: newest first, strictly falling logical times, a
  page being the newest \<open>limit\<close> transactions, from the anchor (inclusive) if there is one.
\<close>

definition newestFirst :: "'sl TonTx list \<Rightarrow> bool" where
  "newestFirst hist \<longleftrightarrow> sorted_wrt (\<lambda>x y. tt_lt y < tt_lt x \<and> tt_now y \<le> tt_now x) hist"

definition pageOf :: "'sl TonTx list \<Rightarrow> nat \<Rightarrow> (nat \<times> string) option \<Rightarrow> 'sl TonTx list result" where
  "pageOf hist limit anchor = Inr (take limit (case anchor of None \<Rightarrow> hist
     | Some (l, h) \<Rightarrow> dropWhile (\<lambda>x. l < tt_lt x) hist))"

lemma pageOf_after:
  assumes "newestFirst (p @ rest)" "p \<noteq> []"
  shows "pageOf (p @ rest) limit (Some (tt_lt (last p), h)) = Inr (take limit (last p # rest))"
proof -
  obtain p' x where p: "p = p' @ [x]" using assms(2) by (cases p rule: rev_cases) auto
  then have "\<forall>y \<in> set p'. tt_lt x < tt_lt y"
    using assms(1) by (auto simp: newestFirst_def sorted_wrt_append)
  then have "dropWhile (\<lambda>y. tt_lt x < tt_lt y) (p' @ x # rest) = x # rest"
    by (induction p') auto
  then show ?thesis by (simp add: pageOf_def p)
qed

lemma paginate_fold:
  assumes "newestFirst (p @ rest)" "2 \<le> limit"
    "anchor = (if p = [] then None else Some (tt_lt (last p), tt_hash (last p)))"
    "paginateLoop pages fromLt cutoff limit (pageOf (p @ rest) limit) toBurn anchor st = Inr (burns', newest', drained)"
  shows "\<exists>xs ys. takeWhile (\<lambda>t. fromLt < tt_lt t) rest = xs @ ys \<and> foldBurns cutoff toBurn xs st = Inr (burns', newest') \<and>
    (drained \<longrightarrow> ys = [])"
  using assms(1,3,4)
proof (induction pages arbitrary: p rest anchor st)
  case 0
  then show ?case by (cases st) (auto intro: exI [of _ "[]"])
next
  case (Suc pages)
  let ?P = "\<lambda>t. fromLt < tt_lt t"
  obtain burns newest where st: "st = (burns, newest)" by (cases st)
  define k where "k = (if p = [] then limit else limit - 1)"
  define q where "q = take k rest"
  define page where "page = (if p = [] then q else last p # q)"
  have k: "0 < k" using assms(2) by (simp add: k_def)
  have "take limit (last p # rest) = last p # take (limit - 1) rest"
    using assms(2) by (cases limit) auto
  then have fetch: "pageOf (p @ rest) limit anchor = Inr page"
    using pageOf_after [OF Suc.prems(1)] Suc.prems(2)
    by (cases "p = []") (simp_all add: page_def q_def k_def pageOf_def)
  have len: "length page < limit \<longleftrightarrow> length q < k" using assms(2) by (auto simp: page_def k_def)
  have below: "\<forall>x \<in> set q. p \<noteq> [] \<longrightarrow> tt_lt x < tt_lt (last p)"
    using Suc.prems(1) by (auto simp: newestFirst_def sorted_wrt_append q_def dest!: in_set_takeD)
  have scan: "scanPage fromLt cutoff toBurn (map_option fst anchor) page (burns, newest, False) =
      bindE (foldBurns cutoff toBurn (takeWhile ?P q) (burns, newest))
        (\<lambda>(b, n). Inr (b, n, takeWhile ?P q \<noteq> [], takeWhile ?P q \<noteq> q))"
    using below Suc.prems(2) scanPage_fold [of q "map_option fst anchor" fromLt cutoff toBurn burns newest False]
    by (auto simp: page_def)
  show ?case
  proof (cases "page = []")
    case True
    then have "rest = []" using k by (auto simp: page_def q_def split: if_splits)
    then show ?thesis using Suc.prems(3) fetch True st by simp
  next
    case False
    obtain b n where f: "foldBurns cutoff toBurn (takeWhile ?P q) (burns, newest) = Inr (b, n)"
      using Suc.prems(3) fetch False scan st
      by (cases "foldBurns cutoff toBurn (takeWhile ?P q) (burns, newest)") auto
    consider (drained) "takeWhile ?P q \<noteq> q" | (ended) "takeWhile ?P q = q" "q = [] \<or> length q < k"
      | (more) "takeWhile ?P q = q" "q \<noteq> []" "\<not> length q < k" by blast
    then show ?thesis
    proof cases
      case drained
      then show ?thesis
        using Suc.prems(3) fetch False scan st f takeWhile_take_stop [of ?P k rest]
        by (intro exI [of _ "takeWhile ?P rest"] exI [of _ "[]"]) (simp add: q_def)
    next
      case ended
      then have "q = rest" using k by (auto simp: q_def)
      then show ?thesis using Suc.prems(3) fetch False scan st f ended len
        by (intro exI [of _ "takeWhile ?P rest"] exI [of _ "[]"]) auto
    next
      case more
      have tw: "takeWhile ?P rest = q @ takeWhile ?P (drop k rest)"
        using takeWhile_take_all [of ?P k rest] more(1) by (simp add: q_def)
      have "paginateLoop pages fromLt cutoff limit (pageOf (p @ rest) limit) toBurn
          (Some (tt_lt (last page), tt_hash (last page))) (b, n) = Inr (burns', newest', drained)"
        using Suc.prems(3) fetch False scan st f more len by simp
      moreover have "last page = last (p @ q)" using more(2) by (simp add: page_def)
      moreover have "p @ rest = (p @ q) @ drop k rest" by (simp add: q_def)
      ultimately obtain xs ys where "takeWhile ?P (drop k rest) = xs @ ys" "drained \<longrightarrow> ys = []"
        "foldBurns cutoff toBurn xs (b, n) = Inr (burns', newest')"
        using Suc.IH [of "p @ q" "drop k rest" _ "(b, n)"] Suc.prems(1) more(2) by auto
      then show ?thesis using tw f more(1) st
        by (intro exI [of _ "q @ xs"] exI [of _ ys]) (simp add: foldBurns_append)
    qed
  qed
qed

text \<open>
  A scan is the fold over a part of the transactions above the cursor, newest first, and over all of them if it
  drains.
\<close>

lemma paginateBurns_prefix:
  assumes "newestFirst hist" "2 \<le> limit"
    "paginateBurnsByLt fromLt cutoff height limit maxScanPages (pageOf hist limit) toBurn = Inr (burns, newest, drained)"
  obtains xs ys where "takeWhile (\<lambda>t. fromLt < tt_lt t) hist = xs @ ys" "drained \<longrightarrow> ys = []"
    "foldBurns cutoff (\<lambda>tx. toBurn tx height) xs ([], fromLt) = Inr (burns, newest)"
proof -
  have "paginateLoop maxScanPages fromLt cutoff limit (pageOf ([] @ hist) limit) (\<lambda>tx. toBurn tx height) None ([], fromLt) =
      Inr (burns, newest, drained)"
    using assms(3) by (simp add: paginateBurnsByLt_def)
  from paginate_fold [OF _ assms(2) _ this] assms(1) show ?thesis using that by auto
qed

lemma paginateBurns_fold:
  assumes "newestFirst hist" "2 \<le> limit"
    "paginateBurnsByLt fromLt cutoff height limit maxScanPages (pageOf hist limit) toBurn = Inr (burns, newest, True)"
  shows "foldBurns cutoff (\<lambda>tx. toBurn tx height) (takeWhile (\<lambda>t. fromLt < tt_lt t) hist) ([], fromLt) =
    Inr (burns, newest)"
  by (rule paginateBurns_prefix [OF assms]) simp

lemma above_cursor:
  assumes "newestFirst hist"
  shows "set (takeWhile (\<lambda>t. fromLt < tt_lt t) hist) = {t \<in> set hist. fromLt < tt_lt t}"
  using assms by (induction hist) (auto simp: newestFirst_def)

lemma foldBurns_ok:
  assumes "foldBurns cutoff toBurn xs (burns, newest) = Inr (burns', newest')"
  shows "set burns' = set burns \<union> {b. \<exists>t \<in> set xs. tt_now t \<le> cutoff \<and> toBurn t = Inr (Some b)}"
    and "newest \<le> newest' \<and> (\<forall>t \<in> set xs. tt_now t \<le> cutoff \<longrightarrow> tt_lt t \<le> newest') \<and>
      (newest' = newest \<or> (\<exists>t \<in> set xs. tt_now t \<le> cutoff \<and> tt_lt t = newest'))"
    and "\<forall>t \<in> set xs. tt_now t \<le> cutoff \<longrightarrow> isOk (toBurn t)"
  using assms
proof (induction xs arbitrary: burns newest)
  case Nil
  case 1 then show ?case by simp
  case 2 then show ?case by simp
  case 3 then show ?case by simp
next
  case (Cons tx xs)
  { case 1 then show ?case using Cons.IH(1)
      by (cases "toBurn tx") (fastforce split: if_splits option.splits)+ }
  { case 2 then show ?case using Cons.IH(2)
      by (cases "toBurn tx") (fastforce split: if_splits)+ }
  { case 3 then show ?case using Cons.IH(3)
      by (cases "toBurn tx") (fastforce split: if_splits)+ }
qed

section \<open>The burn of a transaction\<close>

lemma foldBurns_ids:
  assumes "foldBurns cutoff toBurn xs (burns, newest) = Inr (burns', newest')"
    "\<And>t b. toBurn t = Inr (Some b) \<Longrightarrow> burn_sourceId b = tt_hash t"
    "distinct (map tt_hash xs)" "distinct (map burn_sourceId burns)"
    "burn_sourceId ` set burns \<inter> tt_hash ` set xs = {}"
  shows "distinct (map burn_sourceId burns')"
  using assms(1,3-5)
proof (induction xs arbitrary: burns newest)
  case (Cons tx xs)
  show ?case
  proof (cases "tt_now tx \<le> cutoff")
    case True
    then obtain b where b: "toBurn tx = Inr b" using Cons.prems(1) by (cases "toBurn tx") auto
    let ?burns = "case b of None \<Rightarrow> burns | Some x \<Rightarrow> burns @ [x]"
    from b True Cons.prems(1) have "foldBurns cutoff toBurn xs (?burns, if tt_lt tx > newest then tt_lt tx else newest) =
        Inr (burns', newest')" by simp
    then show ?thesis
    proof (rule Cons.IH)
      show "distinct (map tt_hash xs)" using Cons.prems(2) by simp
      show "distinct (map burn_sourceId ?burns)" "burn_sourceId ` set ?burns \<inter> tt_hash ` set xs = {}"
        using Cons.prems(2-4) assms(2) b by (auto split: option.split)
    qed
  next
    case False
    with Cons show ?thesis by auto
  qed
qed simp

lemma burnFromTx_ok:
  assumes "burnFromTx rd cutoff tx height = Inr (Some b)"
  shows "tt_now tx \<le> cutoff" "txComputeSucceeded tx"
    "\<exists>body p. tt_body tx = Some body \<and> parseJettonDeposit rd body = Inr (Some p) \<and>
       b = \<lparr>burn_chain = GRAM, burn_sourceId = tt_hash tx, burn_height = height, burn_from = jd_sender p,
            burn_amountMilliViz = int (jd_amountBaseUnits p), burn_homeDestination = trim (jd_comment p)\<rparr>"
  using assms by (auto simp: burnFromTx_def err_simps split: if_splits option.splits)

text \<open>Read later, at another height: the same burn.\<close>

lemma burnFromTx_reread:
  assumes "burnFromTx rd cutoff tx height = Inr (Some b)" "cutoff \<le> cutoff'"
  shows "burnFromTx rd cutoff' tx height' = Inr (Some (b\<lparr>burn_height := height'\<rparr>))"
proof -
  obtain body p where "tt_body tx = Some body" "parseJettonDeposit rd body = Inr (Some p)"
    "b = \<lparr>burn_chain = GRAM, burn_sourceId = tt_hash tx, burn_height = height, burn_from = jd_sender p,
       burn_amountMilliViz = int (jd_amountBaseUnits p), burn_homeDestination = trim (jd_comment p)\<rparr>"
    using burnFromTx_ok(3) [OF assms(1)] by blast
  then show ?thesis using burnFromTx_ok(1,2) [OF assms(1)] assms(2) by (simp add: burnFromTx_def)
qed

lemma canonicalPegOut_height [simp]: "canonicalPegOut sha (b\<lparr>burn_height := h\<rparr>) = canonicalPegOut sha b"
  by (simp add: canonicalPegOut_def pegOutFields_def)

section \<open>Properties\<close>

text \<open>
  C16. A peg-out scan that reports itself drained has seen everything: with a page of at least two
  transactions, every final burn above the cursor is reported, and the new cursor is at or above it
  while no transaction up to the new cursor is still unfinalised. So moving the cursor skips no burn.
\<close>

theorem drained_scan_complete:
  assumes "newestFirst hist" "2 \<le> limit"
    "paginateBurnsByLt fromLt cutoff height limit maxScanPages (pageOf hist limit) toBurn = Inr (burns, newest, True)"
    "tx \<in> set hist" "fromLt < tt_lt tx"
  shows "(tt_now tx \<le> cutoff \<longrightarrow> tt_lt tx \<le> newest \<and> (\<forall>b. toBurn tx height = Inr (Some b) \<longrightarrow> b \<in> set burns)) \<and>
    (tt_lt tx \<le> newest \<longrightarrow> tt_now tx \<le> cutoff)"
proof -
  let ?above = "takeWhile (\<lambda>t. fromLt < tt_lt t) hist"
  note f = paginateBurns_fold [OF assms(1-3)]
  note ok = foldBurns_ok [OF f]
  have tx: "tx \<in> set ?above" using above_cursor [OF assms(1)] assms(4,5) by simp
  have "tt_now tx \<le> cutoff" if le: "tt_lt tx \<le> newest"
  proof -
    obtain t where t: "t \<in> set hist" "tt_now t \<le> cutoff" "tt_lt t = newest"
      using ok(2) le assms(5) above_cursor [OF assms(1)] by auto
    have "tx = t \<or> tt_now tx \<le> tt_now t"
      using assms(1,4) t(1,3) le by (induction hist) (auto simp: newestFirst_def)
    with t(2) show ?thesis by auto
  qed
  with ok(1,2) tx show ?thesis by auto
qed

definition burn_tx :: "nat \<Rightarrow> int \<Rightarrow> unit TonTx" where
  "burn_tx lt now = \<lparr>tt_lt = lt, tt_now = now, tt_hash = decNat lt, tt_description = Some (GenericTx (ComputeVm True)),
     tt_body = Some ()\<rparr>"

definition to_burn :: "unit TonTx \<Rightarrow> nat \<Rightarrow> RemoteBurn option result" where
  "to_burn tx h = Inr (Some \<lparr>burn_chain = GRAM, burn_sourceId = tt_hash tx, burn_height = h, burn_from = ''EQ'',
     burn_amountMilliViz = int (tt_lt tx), burn_homeDestination = ''alice''\<rparr>)"

definition hist_example :: "unit TonTx list" where
  "hist_example = [burn_tx 9 100, burn_tx 7 60, burn_tx 5 50, burn_tx 3 40, burn_tx 1 10]"

lemma hist_example_sorted: "newestFirst hist_example"
  by (simp add: newestFirst_def hist_example_def burn_tx_def)

theorem drained_scan_complete_witness:
  "\<exists>burns. paginateBurnsByLt 2 80 77 2 50 (pageOf hist_example 2) to_burn = Inr (burns, 7, True) \<and>
     (\<forall>b. to_burn (burn_tx 3 40) 77 = Inr (Some b) \<longrightarrow> b \<in> set burns)"
proof -
  have s: "paginateBurnsByLt 2 80 77 2 50 (pageOf hist_example 2) to_burn =
      Inr (map (\<lambda>t. case to_burn t 77 of Inr (Some b) \<Rightarrow> b) [burn_tx 7 60, burn_tx 5 50, burn_tx 3 40], 7, True)"
    (is "_ = Inr (?bs, _, _)")
    by (simp add: paginateBurnsByLt_def pageOf_def hist_example_def burn_tx_def to_burn_def eval_nat_numeral)
  have "burn_tx 3 40 \<in> set hist_example" "2 < tt_lt (burn_tx 3 40)" "tt_now (burn_tx 3 40) \<le> 80"
    by (simp_all add: hist_example_def burn_tx_def)
  with drained_scan_complete [OF hist_example_sorted _ s, of "burn_tx 3 40"] s show ?thesis by auto
qed

text \<open>
  With a page of one transaction the scan stops after the first: the second page is the anchor
  alone, nothing on it is fresh, and the scan reports itself drained at the newest transaction,
  although older burns above the cursor were never read. The configuration allows such a page size,
  and the watcher then moves its cursor past those burns.
\<close>

lemma page_of_one_skips_burns:
  assumes "newestFirst (x # y # hist)" "fromLt < tt_lt y" "tt_now x \<le> cutoff" "toBurn x height = Inr (Some b)"
    "2 \<le> maxScanPages"
  shows "paginateBurnsByLt fromLt cutoff height 1 maxScanPages (pageOf (x # y # hist) 1) toBurn =
    Inr ([b], tt_lt x, True)"
proof -
  have lt: "fromLt < tt_lt x" using assms(1,2) by (auto simp: newestFirst_def)
  obtain n where n: "maxScanPages = Suc (Suc n)" using assms(5) by (metis Suc_le_D add_2_eq_Suc le_Suc_ex)
  have "takeWhile P [x] = [x]" if "P x" for P using that by simp
  then show ?thesis
    using assms lt by (simp add: paginateBurnsByLt_def n pageOf_def)
qed

text \<open>
  One final transaction whose message makes the parser throw stops the peg-outs of the whole
  chain: no scan that has to cross it ever drains, so the cursor never passes it.
\<close>

lemma unreadable_burn_blocks_scan:
  assumes "newestFirst hist" "2 \<le> limit" "tx \<in> set hist" "fromLt < tt_lt tx" "tt_now tx \<le> cutoff"
    "toBurn tx height = Inl e"
  shows "paginateBurnsByLt fromLt cutoff height limit maxScanPages (pageOf hist limit) toBurn \<noteq> Inr (burns, newest, True)"
proof
  assume "paginateBurnsByLt fromLt cutoff height limit maxScanPages (pageOf hist limit) toBurn = Inr (burns, newest, True)"
  from foldBurns_ok(3) [OF paginateBurns_fold [OF assms(1,2) this]] above_cursor [OF assms(1)] assms(3-6)
  show False by fastforce
qed

text \<open>
  The signer re-reads what the watcher read: a burn the watcher's scan found is, among the
  newest transactions of the signer's own node and at any later time, the burn of the transaction
  with that hash, and it derives the same canonical action.
\<close>

lemma reread_agrees_with_scan:
  assumes "burnFromTx rd cutoff tx height = Inr (Some b)" "gc_hasWallet cfg"
    "cutoff \<le> tr_nowSec tr - gc_finalityBufferSec cfg"
    "tr_transactions tr None (gc_maxTransactions cfg) = Inr txs" "tx \<in> set txs" "distinct (map tt_hash txs)"
    "tr_latestSeqno tr = Inr height'"
  shows "\<exists>b'. getBurnOnce cfg rd tr (burn_sourceId b) = Inr (Some b') \<and>
    canonicalPegOut sha b' = canonicalPegOut sha b"
proof -
  have h: "burn_sourceId b = tt_hash tx" using burnFromTx_ok(3) [OF assms(1)] by auto
  have "List.find (\<lambda>t. tt_hash t = tt_hash tx) txs = Some tx"
    using assms(5,6) by (induction txs) (auto simp: image_iff)
  then have "getBurnOnce cfg rd tr (burn_sourceId b) = Inr (Some (b\<lparr>burn_height := height'\<rparr>))"
    using assms(2,4,7) burnFromTx_reread [OF assms(1,3), of height'] by (simp add: getBurnOnce_def h Let_def)
  then show ?thesis by simp
qed

text \<open>A reader of one message: an internal transfer of 7000 with the comment \<open>alice\<close>.\<close>

definition slice_example :: "nat SliceReader" where
  "slice_example = \<lparr>sl_remainingBits = (\<lambda>_. 500),
     sl_loadUint = (\<lambda>n s. Inr (if s = 0 then OP_INTERNAL_TRANSFER else 0, s + 1)),
     sl_loadCoins = (\<lambda>s. Inr (7000, s + 1)), sl_loadAddress = (\<lambda>s. Inr (''EQsender'', s + 1)),
     sl_loadMaybeAddress = (\<lambda>s. Inr (None, s + 1)), sl_loadBit = (\<lambda>s. Inr (False, s + 1)),
     sl_loadRef = (\<lambda>s. Inr (s, s)), sl_loadStringTail = (\<lambda>s. Inr ''alice'')\<rparr>"

definition transfer_example :: "nat TonTx" where
  "transfer_example = \<lparr>tt_lt = 9, tt_now = 100, tt_hash = ''aa'', tt_description = Some (GenericTx (ComputeVm True)),
     tt_body = Some 0\<rparr>"

definition gram_example :: GramConfig where
  "gram_example = gramConfig ''EQwallet'' 1 20 50 0"

lemma transfer_example_burn:
  "burnFromTx slice_example 120 transfer_example 5 = Inr (Some \<lparr>burn_chain = GRAM, burn_sourceId = ''aa'',
     burn_height = 5, burn_from = ''EQsender'', burn_amountMilliViz = 7000, burn_homeDestination = trim ''alice''\<rparr>)"
  by (simp add: burnFromTx_def transfer_example_def txComputeSucceeded_def parseJettonDeposit_def slice_example_def
      OP_INTERNAL_TRANSFER_def OP_TRANSFER_NOTIFICATION_def forwardComment_def)

lemma confirmZeroHeld_ok:
  "confirmZeroHeld clients su idx is = Inr () \<Longrightarrow> \<forall>i \<in> set is. su_held su ((idx + i) mod clients) = Inr 0"
  by (induction "is") (auto simp: err_simps split: if_splits)

lemma othersInactive_ok:
  "othersInactive clients su idx err is = Inr () \<Longrightarrow>
   \<forall>i \<in> set is. \<exists>st. su_walletState su ((idx + i) mod clients) = Inr st \<and> st \<noteq> ''active''"
  by (induction "is") (auto simp: err_simps split: if_splits)

lemma ring_covers:
  assumes "idx < clients" "c < clients"
  shows "c = idx \<or> (\<exists>i \<in> set [1 ..< clients]. (idx + i) mod clients = c)"
proof (cases "c = idx")
  case False
  define i where "i = (if idx < c then c - idx else clients + c - idx)"
  have "i \<in> set [1 ..< clients]" using assms False by (auto simp: i_def)
  moreover have "(idx + i) mod clients = c" using assms False by (simp add: i_def)
  ultimately show ?thesis by blast
qed simp

text \<open>
  The reserve in the gateway wallet is never taken for empty on the word of one endpoint: a
  supply that counts it as zero was read either with every endpoint of the ring reporting a zero
  balance, or after an error that is not transient with every endpoint reporting the wallet as not
  active. Otherwise the supply is the total less the frozen amount and the reserve that was read,
  at least zero.
\<close>

lemma zero_reserve_is_unanimous:
  assumes "circulatingOnce transient clients cfg su idx = Inr n" "gc_hasWallet cfg" "idx < clients"
  shows "\<exists>total. su_totalSupply su idx = Inr total \<and>
    ((\<exists>held. su_held su idx = Inr held \<and> held \<noteq> 0 \<and> n = max 0 (total - gc_frozenMilliViz cfg - held)) \<or>
     (n = max 0 (total - gc_frozenMilliViz cfg) \<and>
      ((\<forall>c < clients. su_held su c = Inr 0) \<or>
       (\<exists>err. su_held su idx = Inl err \<and> \<not> transient err \<and>
          (\<forall>c < clients. \<exists>st. su_walletState su c = Inr st \<and> st \<noteq> ''active'')))))"
proof -
  obtain total where total: "su_totalSupply su idx = Inr total"
    using assms(1) by (auto simp: circulatingOnce_def err_simps)
  show ?thesis
  proof (cases "su_held su idx")
    case (Inl err)
    obtain st where st: "su_walletState su idx = Inr st"
      using assms(1,2) total Inl by (cases "su_walletState su idx") (auto simp: circulatingOnce_def Let_def split: if_splits)
    then have r: "\<not> transient err" "st \<noteq> ''active''" "othersInactive clients su idx err [1 ..< clients] = Inr ()"
      "n = max 0 (total - gc_frozenMilliViz cfg)"
      using assms(1,2) total Inl
      by (auto simp: circulatingOnce_def Let_def err_simps simp del: upt_Suc split: if_splits)
    have "\<exists>st. su_walletState su c = Inr st \<and> st \<noteq> ''active''" if "c < clients" for c
      using ring_covers [OF assms(3) that] othersInactive_ok [OF r(3)] st r(2) by blast
    with total Inl r show ?thesis by blast
  next
    case (Inr held)
    show ?thesis
    proof (cases "held = 0")
      case True
      then have z: "confirmZeroHeld clients su idx [1 ..< clients] = Inr ()" "n = max 0 (total - gc_frozenMilliViz cfg)"
        using assms(1,2) total Inr by (auto simp: circulatingOnce_def Let_def err_simps)
      have "su_held su c = Inr 0" if "c < clients" for c
        using ring_covers [OF assms(3) that] confirmZeroHeld_ok [OF z(1)] Inr True by blast
      with total z(2) show ?thesis by blast
    next
      case False
      then have "n = max 0 (total - gc_frozenMilliViz cfg - held)"
        using assms(1,2) total Inr by (auto simp: circulatingOnce_def Let_def)
      with total Inr False show ?thesis by blast
    qed
  qed
qed

end
