(* ===== verification/Proposals.thy ===== *)
theory Proposals
  imports Types
begin

text \<open>
  The proposal of an \<open>/approve\<close> request is whatever JSON object the coordinator sent: the code
  casts it to a union of interfaces and tells the members apart by the keys that are present
  (\<open>packages/signer/src/routeApproval.ts\<close>). So a proposal here is a map from keys to JSON values,
  read field by field as JavaScript reads it. The release transaction a proposal describes is
  \<open>buildReleaseTx\<close> of \<open>packages/viz-watcher/src/vizSign.ts\<close>.
\<close>

datatype json = JNull | JBool bool | JNumber int | JString string | JArray "string list"

type_synonym json_obj = "string \<rightharpoonup> json"

text \<open>\<open>String(v)\<close> and truthiness of a field.\<close>

fun jsString :: "json option \<Rightarrow> string" where
  "jsString None = ''undefined''"
| "jsString (Some JNull) = ''null''"
| "jsString (Some (JBool b)) = (if b then ''true'' else ''false'')"
| "jsString (Some (JNumber n)) = decInt n"
| "jsString (Some (JString s)) = s"
| "jsString (Some (JArray ss)) = joinWith '','' ss"

fun jsTruthy :: "json option \<Rightarrow> bool" where
  "jsTruthy None = False"
| "jsTruthy (Some JNull) = False"
| "jsTruthy (Some (JBool b)) = b"
| "jsTruthy (Some (JNumber n)) = (n \<noteq> 0)"
| "jsTruthy (Some (JString s)) = (s \<noteq> [])"
| "jsTruthy (Some (JArray ss)) = True"

text \<open>\<open>BigInt(v)\<close> of a field.\<close>

fun jsBigInt :: "json option \<Rightarrow> int option" where
  "jsBigInt None = None"
| "jsBigInt (Some JNull) = None"
| "jsBigInt (Some (JBool b)) = Some (if b then 1 else 0)"
| "jsBigInt (Some (JNumber n)) = Some n"
| "jsBigInt (Some (JString s)) = bigintOf s"
| "jsBigInt (Some (JArray ss)) = bigintOf (joinWith '','' ss)"

text \<open>\<open>"k" in p\<close>.\<close>

definition hasKey :: "json_obj \<Rightarrow> string \<Rightarrow> bool" where
  "hasKey p k \<longleftrightarrow> p k \<noteq> None"

definition isSolanaMintProposal :: "json_obj \<Rightarrow> bool" where
  "isSolanaMintProposal p \<longleftrightarrow> hasKey p ''messageB64'' \<and> hasKey p ''mint'' \<and> hasKey p ''multisig''"

definition isGramMintProposal :: "json_obj \<Rightarrow> bool" where
  "isGramMintProposal p \<longleftrightarrow> hasKey p ''orderHashHex''"

section \<open>The release transaction\<close>

record VizTransaction =
  tx_ref_block_num :: "json option"
  tx_ref_block_prefix :: "json option"
  tx_expiration :: "json option"
  tx_from :: "json option"
  tx_to :: "json option"
  tx_amount :: "json option"
  tx_memo :: "json option"

definition buildReleaseTx :: "json_obj \<Rightarrow> VizTransaction" where
  "buildReleaseTx p = \<lparr>tx_ref_block_num = p ''refBlockNum'', tx_ref_block_prefix = p ''refBlockPrefix'',
     tx_expiration = p ''expiration'', tx_from = p ''from'', tx_to = p ''to'', tx_amount = p ''amount'',
     tx_memo = p ''memo''\<rparr>"

section \<open>The proposals of the honest coordinator as objects\<close>

definition vizJson :: "VizReleaseProposal \<Rightarrow> json_obj" where
  "vizJson v = [''refBlockNum'' \<mapsto> JNumber (int (vp_refBlockNum v)),
     ''refBlockPrefix'' \<mapsto> JNumber (int (vp_refBlockPrefix v)), ''expiration'' \<mapsto> JString (vp_expiration v),
     ''from'' \<mapsto> JString (vp_from v), ''to'' \<mapsto> JString (vp_to v), ''amount'' \<mapsto> JString (vp_amount v),
     ''memo'' \<mapsto> JString (vp_memo v)]"

definition gramJson :: "GramMintProposal \<Rightarrow> json_obj" where
  "gramJson g = [''orderSeqno'' \<mapsto> JString (gp_orderSeqno g), ''orderAddr'' \<mapsto> JString (gp_orderAddr g),
     ''toAddress'' \<mapsto> JString (gp_toAddress g), ''amountMilliViz'' \<mapsto> JString (gp_amountMilliViz g),
     ''destProvisioned'' \<mapsto> JBool (gp_destProvisioned g), ''orderHashHex'' \<mapsto> JString (gp_orderHashHex g),
     ''actionId'' \<mapsto> JString (gp_actionId g)]"

lemma vizJson_shape [simp]: "\<not> isSolanaMintProposal (vizJson v)" "\<not> isGramMintProposal (vizJson v)"
  by (simp_all add: isSolanaMintProposal_def isGramMintProposal_def hasKey_def vizJson_def)

lemma gramJson_shape [simp]: "\<not> isSolanaMintProposal (gramJson g)" "isGramMintProposal (gramJson g)"
  by (simp_all add: isSolanaMintProposal_def isGramMintProposal_def hasKey_def gramJson_def)

end
