(* ===== verification/ReplayLedger.thy ===== *)
theory ReplayLedger
  imports Proposals StoreSqlite
begin

text \<open>
  The signer's replay ledger (\<open>packages/signer/src/replayLedger.ts\<close>): the one proposal key an
  operator has claimed per action id, in its own store. SHA-256, the transaction id and
  \<open>Date.parse\<close> are parameters. What other requests do to the store between the read and the
  compare-and-swap is the argument \<open>env\<close>.
\<close>

record LedgerCrypto =
  lc_sha256hex :: "string \<Rightarrow> string"
  lc_releaseTxId :: "VizTransaction \<Rightarrow> string result"
  lc_dateParse :: "string \<Rightarrow> int option"

record ReplayLedgerDeps =
  rl_headBlockTimeMs :: "int result"
  rl_releaseLanded :: "string \<Rightarrow> bool result"

definition VIZ_EXPIRY_MARGIN_MS :: int where "VIZ_EXPIRY_MARGIN_MS = 60000"

definition VIZ_KEY_PREFIX :: string where "VIZ_KEY_PREFIX = ''viz-tx:''"

definition proposalKey :: "LedgerCrypto \<Rightarrow> json_obj \<Rightarrow> (string \<times> int) result" where
  "proposalKey lc p =
     (if isSolanaMintProposal p
      then (case p ''messageB64'' of
              Some (JString m) \<Rightarrow> Inr (''solana-msg:'' @ lc_sha256hex lc m, 0)
            | _ \<Rightarrow> Inl (GenericError ''TypeError: data must be a string''))
      else if isGramMintProposal p
      then Inr (''gram-order:'' @ jsString (p ''orderAddr''), 0)
      else (case lc_dateParse lc (jsString (p ''expiration'') @ ''Z'') of
              None \<Rightarrow> Inl (ReplayRefusalError ''unparseable proposal expiration'')
            | Some expiresAtMs \<Rightarrow>
                bindE (lc_releaseTxId lc (buildReleaseTx p)) (\<lambda>txid. Inr (VIZ_KEY_PREFIX @ txid, expiresAtMs))))"

text \<open>The gate once the key is known.\<close>

definition claimKey ::
  "ReplayLedgerDeps \<Rightarrow> (SqliteStore \<Rightarrow> SqliteStore) \<Rightarrow> string \<Rightarrow> string \<Rightarrow> int \<Rightarrow> SqliteStore \<Rightarrow>
   unit result \<times> SqliteStore" where
  "claimKey deps env actionId key expiresAtMs s =
     (case sql_getSignedProposal s actionId of
        None \<Rightarrow>
          (case sql_putSignedProposal actionId key expiresAtMs None (env s) of
             (True, s') \<Rightarrow> (Inr (), s')
           | (False, s') \<Rightarrow>
               if map_option fst (sql_getSignedProposal s' actionId) = Some key then (Inr (), s')
               else (Inl (ReplayRefusalError ''lost first-claim race''), s'))
      | Some (prevKey, prevExpires) \<Rightarrow>
          if prevKey = key then (Inr (), s)
          else if \<not> startsWith key VIZ_KEY_PREFIX \<or> \<not> startsWith prevKey VIZ_KEY_PREFIX
          then (Inl (ReplayRefusalError ''already signed as another proposal''), s)
          else (case rl_headBlockTimeMs deps of
              Inl e \<Rightarrow> (Inl e, s)
            | Inr headMs \<Rightarrow>
                if headMs \<le> prevExpires + VIZ_EXPIRY_MARGIN_MS
                then (Inl (ReplayRefusalError ''a previously signed release is still live''), s)
                else (case rl_releaseLanded deps (drop (length VIZ_KEY_PREFIX) prevKey) of
                    Inl e \<Rightarrow> (Inl e, s)
                  | Inr landed \<Rightarrow>
                      if landed then (Inl (ReplayRefusalError ''release ALREADY LANDED''), s)
                      else (case sql_putSignedProposal actionId key expiresAtMs (Some prevKey) (env s) of
                          (True, s') \<Rightarrow> (Inr (), s')
                        | (False, s') \<Rightarrow> (Inl (ReplayRefusalError ''replay-ledger CAS lost''), s')))))"

definition assertNotReplay ::
  "LedgerCrypto \<Rightarrow> ReplayLedgerDeps \<Rightarrow> (SqliteStore \<Rightarrow> SqliteStore) \<Rightarrow> string \<Rightarrow> json_obj \<Rightarrow> SqliteStore \<Rightarrow>
   unit result \<times> SqliteStore" where
  "assertNotReplay lc deps env actionId proposal s =
     (case proposalKey lc proposal of
        Inl e \<Rightarrow> (Inl e, s)
      | Inr (key, expiresAtMs) \<Rightarrow> claimKey deps env actionId key expiresAtMs s)"

section \<open>One request\<close>

lemmas claim_reads = sqclaims.put_result sqclaims.claimed_put

lemma putSigned_cases:
  obtains s1 where "sql_putSignedProposal a k e prev s = (True, s1)"
    "map_option fst (sql_getSignedProposal s a) = prev"
    "sql_getSignedProposal s1 = (sql_getSignedProposal s)(a \<mapsto> (k, e))"
  | s1 where "sql_putSignedProposal a k e prev s = (False, s1)"
    "map_option fst (sql_getSignedProposal s a) \<noteq> prev"
    "sql_getSignedProposal s1 = sql_getSignedProposal s"
proof -
  obtain ok s1 where p: "sql_putSignedProposal a k e prev s = (ok, s1)"
    by (cases "sql_putSignedProposal a k e prev s")
  have "ok \<longleftrightarrow> map_option fst (sql_getSignedProposal s a) = prev"
    "sql_getSignedProposal s1 b = (if b = a \<and> ok then Some (k, e) else sql_getSignedProposal s b)" for b
    using sqclaims.put_result [of a k e prev s] sqclaims.claimed_put [of a k e prev s b] p by simp_all
  then show thesis using that p by (cases ok) (auto simp: fun_eq_iff)
qed

text \<open>Whatever runs in between, an accepted request holds the claim of its action.\<close>

lemma claimKey_holds:
  assumes "claimKey deps env a k e s = (Inr (), s')"
  shows "map_option fst (sql_getSignedProposal s' a) = Some k"
proof (cases "sql_getSignedProposal s a")
  case None
  with assms show ?thesis
    by (cases rule: putSigned_cases [of a k e None "env s"]) (auto simp: claimKey_def split: if_splits)
next
  case (Some p)
  obtain pk pe where p: "p = (pk, pe)" by (cases p)
  show ?thesis
  proof (cases "pk = k")
    case True
    with assms Some p show ?thesis by (simp add: claimKey_def)
  next
    case False
    with assms Some p show ?thesis
      by (cases rule: putSigned_cases [of a k e "Some pk" "env s"])
        (auto simp: claimKey_def split: if_splits sum.splits)
  qed
qed

text \<open>A request that runs alone: what the claims are afterwards.\<close>

lemma claimKey_alone:
  "claimKey deps id a k e s =
     (case sql_getSignedProposal s a of
        None \<Rightarrow> (Inr (), snd (sql_putSignedProposal a k e None s))
      | Some (pk, pe) \<Rightarrow>
          if pk = k then (Inr (), s)
          else if \<not> startsWith k VIZ_KEY_PREFIX \<or> \<not> startsWith pk VIZ_KEY_PREFIX
          then (Inl (ReplayRefusalError ''already signed as another proposal''), s)
          else (case rl_headBlockTimeMs deps of
              Inl e' \<Rightarrow> (Inl e', s)
            | Inr headMs \<Rightarrow>
                if headMs \<le> pe + VIZ_EXPIRY_MARGIN_MS
                then (Inl (ReplayRefusalError ''a previously signed release is still live''), s)
                else (case rl_releaseLanded deps (drop (length VIZ_KEY_PREFIX) pk) of
                    Inl e' \<Rightarrow> (Inl e', s)
                  | Inr landed \<Rightarrow>
                      if landed then (Inl (ReplayRefusalError ''release ALREADY LANDED''), s)
                      else (Inr (), snd (sql_putSignedProposal a k e (Some pk) s)))))"
proof (cases "sql_getSignedProposal s a")
  case None
  then show ?thesis
    by (cases rule: putSigned_cases [of a k e None s]) (auto simp: claimKey_def)
next
  case (Some p)
  then show ?thesis
    by (cases rule: putSigned_cases [of a k e "Some (fst p)" s])
      (auto simp: claimKey_def split: prod.split sum.split)
qed

section \<open>A history of requests\<close>

record ClaimRequest =
  cr_action :: string
  cr_key :: string
  cr_expires :: int
  cr_head :: int
  cr_landed :: "string \<Rightarrow> bool"

definition depsAt :: "ClaimRequest \<Rightarrow> ReplayLedgerDeps" where
  "depsAt r = \<lparr>rl_headBlockTimeMs = Inr (cr_head r), rl_releaseLanded = (\<lambda>t. Inr (cr_landed r t))\<rparr>"

text \<open>The requests accepted, in order, with the store they leave.\<close>

fun runClaims :: "ClaimRequest list \<Rightarrow> SqliteStore \<Rightarrow> ClaimRequest list \<times> SqliteStore" where
  "runClaims [] s = ([], s)"
| "runClaims (r # rs) s =
     (case claimKey (depsAt r) id (cr_action r) (cr_key r) (cr_expires r) s of
        (Inl _, s') \<Rightarrow> runClaims rs s'
      | (Inr _, s') \<Rightarrow> (case runClaims rs s' of (acc, s'') \<Rightarrow> (r # acc, s'')))"

text \<open>
  The chain: \<open>landedAt t\<close> is the head time at which the transaction \<open>t\<close> is included, if it ever
  is. The operator's node answers by it, and no transaction is included after its expiration (plus
  the margin the ledger allows for).
\<close>

definition vizKey :: "string \<Rightarrow> string" where
  "vizKey t = VIZ_KEY_PREFIX @ t"

definition honestNode :: "(string \<Rightarrow> int option) \<Rightarrow> ClaimRequest \<Rightarrow> bool" where
  "honestNode landedAt r \<longleftrightarrow>
     (\<forall>t. cr_landed r t \<longleftrightarrow> (case landedAt t of None \<Rightarrow> False | Some l \<Rightarrow> l \<le> cr_head r))"

definition expiresInTime :: "(string \<Rightarrow> int option) \<Rightarrow> ClaimRequest \<Rightarrow> bool" where
  "expiresInTime landedAt r \<longleftrightarrow>
     (\<forall>t l. cr_key r = vizKey t \<longrightarrow> landedAt t = Some l \<longrightarrow> l \<le> cr_expires r + VIZ_EXPIRY_MARGIN_MS)"

text \<open>A key whose effect never happens.\<close>

definition deadKey :: "(string \<Rightarrow> int option) \<Rightarrow> string \<Rightarrow> bool" where
  "deadKey landedAt k \<longleftrightarrow> (\<exists>t. k = vizKey t \<and> landedAt t = None)"

lemma vizKey_startsWith: "startsWith k VIZ_KEY_PREFIX \<longleftrightarrow> (\<exists>t. k = vizKey t)"
  by (simp add: startsWith_iff vizKey_def)

lemma drop_vizKey [simp]: "drop (length VIZ_KEY_PREFIX) (vizKey t) = t"
  by (simp add: vizKey_def)

text \<open>
  The invariant: every key accepted for an action is its current claim or dead, and the current
  claim cannot be included after its recorded expiration.
\<close>

definition ledgerInv ::
  "(string \<Rightarrow> int option) \<Rightarrow> (string \<times> string) set \<Rightarrow> SqliteStore \<Rightarrow> bool" where
  "ledgerInv landedAt acc s \<longleftrightarrow>
     (\<forall>(a, k) \<in> acc. deadKey landedAt k \<or> map_option fst (sql_getSignedProposal s a) = Some k) \<and>
     (\<forall>a t e l. sql_getSignedProposal s a = Some (vizKey t, e) \<and> landedAt t = Some l \<longrightarrow>
        l \<le> e + VIZ_EXPIRY_MARGIN_MS)"

lemma claimKey_step:
  assumes inv: "ledgerInv landedAt acc s"
    and node: "honestNode landedAt r" and exp: "expiresInTime landedAt r"
    and c: "claimKey (depsAt r) id (cr_action r) (cr_key r) (cr_expires r) s = (res, s')"
  shows "ledgerInv landedAt (if isOk res then insert (cr_action r, cr_key r) acc else acc) s'"
proof (cases "sql_getSignedProposal s (cr_action r)")
  case None
  then have s': "s' = snd (sql_putSignedProposal (cr_action r) (cr_key r) (cr_expires r) None s)" "res = Inr ()"
    using c by (auto simp: claimKey_alone)
  with None inv exp show ?thesis
    by (fastforce simp: ledgerInv_def claim_reads expiresInTime_def split: if_splits)
next
  case (Some p)
  obtain pk pe where p: "p = (pk, pe)" by (cases p)
  show ?thesis
  proof (cases "pk = cr_key r")
    case True
    with c Some p have "s' = s" "res = Inr ()" by (auto simp: claimKey_alone)
    with inv Some p True show ?thesis by (auto simp: ledgerInv_def)
  next
    case False
    show ?thesis
    proof (cases "isOk res")
      case False': False
      have "s' = s"
        using c Some p False False'
        by (auto simp: claimKey_alone depsAt_def split: if_splits)
      with inv False' show ?thesis by simp
    next
      case True
      then have "startsWith pk VIZ_KEY_PREFIX"
        and h: "pe + VIZ_EXPIRY_MARGIN_MS < cr_head r" "\<not> cr_landed r (drop (length VIZ_KEY_PREFIX) pk)"
        and s': "s' = snd (sql_putSignedProposal (cr_action r) (cr_key r) (cr_expires r) (Some pk) s)"
        using c Some p False by (auto simp: claimKey_alone depsAt_def split: if_splits)
      then obtain t where t: "pk = vizKey t" by (auto simp: vizKey_startsWith)
      have "landedAt t = None"
      proof (rule ccontr)
        assume "landedAt t \<noteq> None"
        then obtain l where l: "landedAt t = Some l" by blast
        then have "l \<le> pe + VIZ_EXPIRY_MARGIN_MS"
          using inv Some p t by (auto simp: ledgerInv_def)
        then show False using h node l t by (simp add: honestNode_def)
      qed
      then have dead: "deadKey landedAt pk" using t by (auto simp: deadKey_def)
      have get: "sql_getSignedProposal s' b =
          (if b = cr_action r then Some (cr_key r, cr_expires r) else sql_getSignedProposal s b)" for b
        using s' Some p by (simp add: claim_reads)
      show ?thesis
        using inv dead True exp Some p unfolding ledgerInv_def get expiresInTime_def
        by (auto split: if_splits)
    qed
  qed
qed

lemma runClaims_inv:
  assumes "ledgerInv landedAt acc s" "\<forall>r \<in> set rs. honestNode landedAt r \<and> expiresInTime landedAt r"
  shows "ledgerInv landedAt (acc \<union> (\<lambda>r. (cr_action r, cr_key r)) ` set (fst (runClaims rs s))) (snd (runClaims rs s))"
  using assms
proof (induction rs arbitrary: acc s)
  case Nil
  then show ?case by simp
next
  case (Cons r rs)
  obtain res s' where c: "claimKey (depsAt r) id (cr_action r) (cr_key r) (cr_expires r) s = (res, s')"
    by (cases "claimKey (depsAt r) id (cr_action r) (cr_key r) (cr_expires r) s")
  have "ledgerInv landedAt (if isOk res then insert (cr_action r, cr_key r) acc else acc) s'"
    using claimKey_step [OF Cons.prems(1) _ _ c] Cons.prems(2) by simp
  from Cons.IH [OF this] Cons.prems(2) c show ?case
    by (cases res) (auto split: prod.splits)
qed

section \<open>Properties\<close>

lemma ledgerInv_empty: "sql_getSignedProposal s = Map.empty \<Longrightarrow> ledgerInv landedAt {} s"
  by (simp add: ledgerInv_def)

lemma empty_claims: "sql_getSignedProposal emptySqlite = Map.empty"
  by (simp add: emptySqlite_def sql_getSignedProposal_def fun_eq_iff)

lemma accepted_key:
  assumes "sql_getSignedProposal s = Map.empty"
    "\<forall>r \<in> set rs. honestNode landedAt r \<and> expiresInTime landedAt r"
    "r \<in> set (fst (runClaims rs s))"
  shows "deadKey landedAt (cr_key r) \<or>
    map_option fst (sql_getSignedProposal (snd (runClaims rs s)) (cr_action r)) = Some (cr_key r)"
  using runClaims_inv [OF ledgerInv_empty [OF assms(1)] assms(2)] assms(3)
  unfolding ledgerInv_def by fastforce


definition claim_example :: "string \<Rightarrow> int \<Rightarrow> int \<Rightarrow> ClaimRequest" where
  "claim_example t e h = \<lparr>cr_action = ''burn'', cr_key = vizKey t, cr_expires = e, cr_head = h,
     cr_landed = (\<lambda>t'. t' = ''t2'' \<and> 90000 \<le> h)\<rparr>"


text \<open>
  The ledger does not block the honest retry of a release: when the claimed VIZ transaction has
  expired by the operator's head time and the operator's node has not seen it land, the rebuilt
  transaction is accepted and becomes the claim.
\<close>

lemma dead_release_can_be_replaced:
  assumes "sql_getSignedProposal s a = Some (vizKey t, e)" "rl_headBlockTimeMs deps = Inr headMs"
    "e + VIZ_EXPIRY_MARGIN_MS < headMs" "rl_releaseLanded deps t = Inr False"
  shows "\<exists>s'. claimKey deps id a (vizKey t') e' s = (Inr (), s') \<and>
    map_option fst (sql_getSignedProposal s' a) = Some (vizKey t')"
proof -
  have "fst (claimKey deps id a (vizKey t') e' s) = Inr ()"
    using assms by (auto simp: claimKey_alone vizKey_startsWith)
  then obtain s' where c: "claimKey deps id a (vizKey t') e' s = (Inr (), s')" by (metis prod.collapse)
  with claimKey_holds [OF c] show ?thesis by blast
qed

end
