(* ===== verification/SourceValidator.thy ===== *)
theory SourceValidator
  imports Canonical Fees
begin

text \<open>
  The signer's independent validation of the source event
  (\<open>packages/signer/src/sourceValidator.ts\<close>). The readers of the operator's own nodes are the
  fields of the dependencies, functions that may throw; the derivation of a deposit account from a
  program id (solana/web3.js) is one of them. \<open>sha\<close> is SHA-256, as in Canonical.

  \<open>Number.parseInt\<close> of a digit string is its value; the rounding of numbers above \<open>2 ^ 53\<close> is
  not modelled (no block has that many operations).
\<close>

record SourceValidatorDeps =
  sv_getDeposit :: "string \<Rightarrow> nat \<Rightarrow> nat option \<Rightarrow> VizDeposit option result"
  sv_accountExists :: "string \<Rightarrow> bool result"
  sv_getDepositTransfer :: "string \<Rightarrow> string \<Rightarrow> (nat \<times> int) option result"
  sv_getBurn :: "string \<Rightarrow> RemoteBurn option result"
  sv_depositAta :: "string \<Rightarrow> string \<Rightarrow> string \<Rightarrow> string result"
  sv_depositProgramId :: string
  sv_wvizMint :: string
  sv_fees :: GatewayFeeConfig
  sv_feesGateAccount :: string

definition FEE_SWEEP_SUFFIX :: string where "FEE_SWEEP_SUFFIX = '':fee''"

definition REFUND_SUFFIX :: string where "REFUND_SUFFIX = '':refund''"

definition RETURN_SUFFIX :: string where "RETURN_SUFFIX = '':return''"

definition looksLikeSolanaSignature :: "string \<Rightarrow> bool" where
  "looksLikeSolanaSignature s \<longleftrightarrow> 86 \<le> length s \<and> length s \<le> 90 \<and> list_all isBase58 s"

definition isHexDigit :: "char \<Rightarrow> bool" where
  "isHexDigit c \<longleftrightarrow> charIn (CHR ''0'') (CHR ''9'') c \<or> charIn (CHR ''a'') (CHR ''f'') c \<or>
     charIn (CHR ''A'') (CHR ''F'') c"

definition looksLikeTonTxHash :: "string \<Rightarrow> bool" where
  "looksLikeTonTxHash s \<longleftrightarrow> length s = 64 \<and> list_all isHexDigit s"

definition mismatch :: "string \<Rightarrow> js_error" where
  "mismatch m = SourceMismatchError m"

text \<open>The transaction id and operation index of a \<open>"<trxId>:<opIndex>"\<close> key, if it is one.\<close>

definition parsePegInKey :: "string \<Rightarrow> (string \<times> nat) option" where
  "parsePegInKey key =
     (let sep = indexOf key (CHR '':'');
          trxId = (case sep of Some i \<Rightarrow> if i > 0 then take i key else [] | None \<Rightarrow> []);
          opStr = (case sep of Some i \<Rightarrow> drop (Suc i) key | None \<Rightarrow> key)
      in if trxId = [] \<or> \<not> allDigits opStr then None else Some (trxId, undec opStr))"

fun hintBlock :: "SourceHint option \<Rightarrow> nat option" where
  "hintBlock None = None"
| "hintBlock (Some h) = hint_sourceBlockNum h"

definition assertSameAction :: "CanonicalAction \<Rightarrow> CanonicalAction \<Rightarrow> unit result" where
  "assertSameAction derived wire =
     (if act_id derived \<noteq> act_id wire then Inl (mismatch ''id'')
      else if act_direction derived \<noteq> act_direction wire then Inl (mismatch ''direction'')
      else if act_recipient derived \<noteq> act_recipient wire then Inl (mismatch ''recipient'')
      else if act_amountMilliViz derived \<noteq> act_amountMilliViz wire then Inl (mismatch ''amount'')
      else if act_remoteChain derived \<noteq> act_remoteChain wire then Inl (mismatch ''remoteChain'')
      else if act_digest derived \<noteq> act_digest wire then Inl (mismatch ''digest'')
      else Inr ())"

definition reReadParentPegIn ::
  "(string \<Rightarrow> string) \<Rightarrow> SourceValidatorDeps \<Rightarrow> string \<Rightarrow> CanonicalAction \<Rightarrow> SourceHint option \<Rightarrow>
   (VizDeposit \<times> CanonicalAction) result" where
  "reReadParentPegIn sha deps suffix action hint =
     (let parentId = sliceEnd (act_id action) (length suffix)
      in case parsePegInKey parentId of
           None \<Rightarrow> Inl (mismatch ''malformed child id'')
         | Some (trxId, opIndex) \<Rightarrow>
             bindE (sv_getDeposit deps trxId opIndex (hintBlock hint)) (\<lambda>dep. case dep of
                 None \<Rightarrow> Inl (mismatch ''parent PEG_IN not found'')
               | Some deposit \<Rightarrow>
                   let parent = canonicalPegIn sha deposit
                   in if act_id action \<noteq> act_id parent @ suffix
                      then Inl (mismatch ''non-canonical child id'')
                      else Inr (deposit, parent)))"

definition validateFeeSweep ::
  "(string \<Rightarrow> string) \<Rightarrow> SourceValidatorDeps \<Rightarrow> CanonicalAction \<Rightarrow> SourceHint option \<Rightarrow> unit result" where
  "validateFeeSweep sha deps action hint =
     bindE (reReadParentPegIn sha deps FEE_SWEEP_SUFFIX action hint) (\<lambda>(deposit, parent).
       if act_remoteChain action \<noteq> Some (dep_remoteChain deposit) then Inl (mismatch ''FEE_SWEEP remoteChain'')
       else if act_recipient action \<noteq> sv_feesGateAccount deps then Inl (mismatch ''FEE_SWEEP recipient'')
       else if act_digest action \<noteq> act_digest parent @ FEE_SWEEP_SUFFIX then Inl (mismatch ''FEE_SWEEP digest'')
       else if act_amountMilliViz action \<noteq>
               baseFee (dep_amountMilliViz deposit) (pegInFeePolicyFor (sv_fees deps) (dep_remoteChain deposit))
       then Inl (mismatch ''FEE_SWEEP amount'')
       else Inr ())"

definition validateRefund ::
  "(string \<Rightarrow> string) \<Rightarrow> SourceValidatorDeps \<Rightarrow> CanonicalAction \<Rightarrow> SourceHint option \<Rightarrow> unit result" where
  "validateRefund sha deps action hint =
     bindE (reReadParentPegIn sha deps REFUND_SUFFIX action hint) (\<lambda>(deposit, parent).
       if act_remoteChain action \<noteq> Some (dep_remoteChain deposit) then Inl (mismatch ''REFUND remoteChain'')
       else if act_recipient action \<noteq> dep_from deposit then Inl (mismatch ''REFUND recipient'')
       else
         let net = dep_amountMilliViz deposit - fc_refundFeeMilliViz (sv_fees deps)
         in if net \<le> 0 then Inl (mismatch ''REFUND dust must be retained'')
            else if act_amountMilliViz action \<noteq> net then Inl (mismatch ''REFUND amount'')
            else if act_digest action \<noteq> act_digest parent @ REFUND_SUFFIX then Inl (mismatch ''REFUND digest'')
            else Inr ())"

definition validateGramReturn ::
  "(string \<Rightarrow> string) \<Rightarrow> SourceValidatorDeps \<Rightarrow> CanonicalAction \<Rightarrow> unit result" where
  "validateGramReturn sha deps action =
     (let parentId = sliceEnd (act_id action) (length RETURN_SUFFIX)
      in if \<not> looksLikeTonTxHash parentId then Inl (mismatch ''malformed return id'')
         else bindE (sv_getBurn deps parentId) (\<lambda>b. case b of
             None \<Rightarrow> Inl (mismatch ''GRAM_RETURN parent burn not found'')
           | Some burn \<Rightarrow>
               let parent = canonicalPegOut sha burn
               in bindE (sv_accountExists deps (burn_homeDestination burn)) (\<lambda>exists.
                  if exists then Inl (mismatch ''GRAM_RETURN unwarranted'')
                  else if act_remoteChain action \<noteq> Some (burn_chain burn) then Inl (mismatch ''GRAM_RETURN remoteChain'')
                  else if act_recipient action \<noteq> burn_from burn then Inl (mismatch ''GRAM_RETURN recipient'')
                  else
                    let net = burn_amountMilliViz burn - fc_refundFeeMilliViz (sv_fees deps)
                    in if net \<le> 0 then Inl (mismatch ''GRAM_RETURN dust must be retained'')
                       else if act_amountMilliViz action \<noteq> net then Inl (mismatch ''GRAM_RETURN amount'')
                       else if act_digest action \<noteq> act_digest parent @ RETURN_SUFFIX
                       then Inl (mismatch ''GRAM_RETURN digest'')
                       else Inr ())))"

definition validatePegIn ::
  "(string \<Rightarrow> string) \<Rightarrow> SourceValidatorDeps \<Rightarrow> CanonicalAction \<Rightarrow> SourceHint option \<Rightarrow> unit result" where
  "validatePegIn sha deps action hint =
     (case parsePegInKey (act_id action) of
        None \<Rightarrow> Inl (mismatch ''malformed PEG_IN source id'')
      | Some (trxId, opIndex) \<Rightarrow>
          bindE (sv_getDeposit deps trxId opIndex (hintBlock hint)) (\<lambda>dep. case dep of
              None \<Rightarrow> Inl (mismatch ''PEG_IN source not found'')
            | Some deposit \<Rightarrow>
                if \<not> dep_destinationValid deposit then Inl (mismatch ''PEG_IN invalid destination'')
                else assertSameAction (canonicalPegIn sha deposit) action))"

definition validateSolanaPegOut ::
  "(string \<Rightarrow> string) \<Rightarrow> SourceValidatorDeps \<Rightarrow> CanonicalAction \<Rightarrow> unit result" where
  "validateSolanaPegOut sha deps action =
     (if sv_depositProgramId deps = [] \<or> sv_wvizMint deps = [] then Inl (mismatch ''Solana not configured'')
      else bindE (sv_depositAta deps (sv_depositProgramId deps) (act_recipient action) (sv_wvizMint deps)) (\<lambda>ata.
           bindE (sv_getDepositTransfer deps (act_id action) ata) (\<lambda>dep. case dep of
               None \<Rightarrow> Inl (mismatch ''PEG_OUT deposit not found'')
             | Some (slot, amount) \<Rightarrow>
                 assertSameAction (canonicalPegOut sha
                   \<lparr>burn_chain = SOLANA, burn_sourceId = act_id action, burn_height = slot, burn_from = ata,
                    burn_amountMilliViz = amount, burn_homeDestination = act_recipient action\<rparr>) action)))"

definition validateTonPegOut ::
  "(string \<Rightarrow> string) \<Rightarrow> SourceValidatorDeps \<Rightarrow> CanonicalAction \<Rightarrow> unit result" where
  "validateTonPegOut sha deps action =
     bindE (sv_getBurn deps (act_id action)) (\<lambda>b. case b of
         None \<Rightarrow> Inl (mismatch ''PEG_OUT burn not found'')
       | Some burn \<Rightarrow> assertSameAction (canonicalPegOut sha burn) action)"

definition validateActionInner ::
  "(string \<Rightarrow> string) \<Rightarrow> SourceValidatorDeps \<Rightarrow> CanonicalAction \<Rightarrow> SourceHint option \<Rightarrow> unit result" where
  "validateActionInner sha deps action hint =
     (if act_direction action = PEG_IN then validatePegIn sha deps action hint
      else if endsWith (act_id action) FEE_SWEEP_SUFFIX then validateFeeSweep sha deps action hint
      else if endsWith (act_id action) REFUND_SUFFIX then validateRefund sha deps action hint
      else if endsWith (act_id action) RETURN_SUFFIX then validateGramReturn sha deps action
      else if looksLikeSolanaSignature (act_id action) then validateSolanaPegOut sha deps action
      else if looksLikeTonTxHash (act_id action) then validateTonPegOut sha deps action
      else Inl (mismatch ''no known source-id shape''))"

text \<open>Every other error is normalised to the one class callers rely on.\<close>

definition validateAction ::
  "(string \<Rightarrow> string) \<Rightarrow> SourceValidatorDeps \<Rightarrow> CanonicalAction \<Rightarrow> SourceHint option \<Rightarrow> unit result" where
  "validateAction sha deps action hint =
     (case validateActionInner sha deps action hint of
        Inr u \<Rightarrow> Inr u
      | Inl (SourceMismatchError m) \<Rightarrow> Inl (SourceMismatchError m)
      | Inl e \<Rightarrow> Inl (SourceMismatchError (''source validation failed: '' @ error_text e)))"

section \<open>What acceptance means\<close>

lemma validateAction_ok: "validateAction sha deps a h = Inr u \<longleftrightarrow> validateActionInner sha deps a h = Inr u"
  by (auto simp: validateAction_def split: sum.splits js_error.splits)

lemma validateAction_error:
  "validateAction sha deps a h = Inl e \<Longrightarrow> \<exists>m. e = SourceMismatchError m"
  by (auto simp: validateAction_def split: sum.splits js_error.splits)

lemma assertSameAction_ok: "assertSameAction d w = Inr u \<longleftrightarrow> w = d"
  by (cases d; cases w) (auto simp: assertSameAction_def)

lemma parsePegInKey_pegInId [simp]:
  assumes "t \<noteq> []" "CHR '':'' \<notin> set t"
  shows "parsePegInKey (pegInId t i) = Some (t, i)"
proof -
  have "indexOf (pegInId t i) (CHR '':'') = Some (length t)"
    using indexOf_append [OF assms(2)] by (simp add: pegInId_def)
  then show ?thesis using assms(1) by (simp add: parsePegInKey_def pegInId_def Let_def)
qed

lemma parsePegInKey_SomeD:
  assumes "parsePegInKey k = Some (t, i)"
  shows "t \<noteq> [] \<and> CHR '':'' \<notin> set t \<and> (\<exists>ds. k = t @ '':'' @ ds \<and> allDigits ds \<and> i = undec ds)"
proof -
  obtain j where j: "indexOf k (CHR '':'') = Some j" "j > 0" "t = take j k" "allDigits (drop (Suc j) k)"
    "i = undec (drop (Suc j) k)" "t \<noteq> []"
    using assms by (auto simp: parsePegInKey_def Let_def split: option.splits if_splits)
  then show ?thesis using indexOf_SomeD [OF j(1)] indexOf_Some [OF j(1)] by auto
qed

lemma validatePegIn_ok:
  assumes "validatePegIn sha deps a h = Inr u"
  shows "\<exists>t i d. sv_getDeposit deps t i (hintBlock h) = Inr (Some d) \<and> dep_destinationValid d \<and>
    parsePegInKey (act_id a) = Some (t, i) \<and> a = canonicalPegIn sha d"
proof -
  obtain t i dep where k: "parsePegInKey (act_id a) = Some (t, i)"
    "sv_getDeposit deps t i (hintBlock h) = Inr dep"
    using assms by (auto simp: validatePegIn_def err_simps split: option.splits)
  then obtain d where "dep = Some d" using assms by (cases dep) (auto simp: validatePegIn_def)
  with assms k show ?thesis
    by (auto simp: validatePegIn_def assertSameAction_ok split: if_splits)
qed

lemma reRead_ok:
  assumes "reReadParentPegIn sha deps suffix a h = Inr (d, p)"
  shows "\<exists>t i. parsePegInKey (sliceEnd (act_id a) (length suffix)) = Some (t, i) \<and>
      sv_getDeposit deps t i (hintBlock h) = Inr (Some d)"
    and "p = canonicalPegIn sha d" and "act_id a = act_id (canonicalPegIn sha d) @ suffix"
  using assms
  by (auto simp: reReadParentPegIn_def err_simps Let_def split: option.splits if_splits)

text \<open>A child id whose parent is canonical is read back as that parent.\<close>

lemma reRead_canonical:
  assumes "sv_getDeposit deps (dep_trxId d) (dep_opIndex d) (hintBlock h) = Inr (Some d)"
    "dep_trxId d \<noteq> []" "CHR '':'' \<notin> set (dep_trxId d)"
    "act_id a = pegInId (dep_trxId d) (dep_opIndex d) @ suffix"
  shows "reReadParentPegIn sha deps suffix a h = Inr (d, canonicalPegIn sha d)"
  using assms by (simp add: reReadParentPegIn_def)

lemma validateFeeSweep_ok:
  assumes "validateFeeSweep sha deps a h = Inr u"
  shows "\<exists>d. reReadParentPegIn sha deps FEE_SWEEP_SUFFIX a h = Inr (d, canonicalPegIn sha d) \<and>
    act_id a = act_id (canonicalPegIn sha d) @ FEE_SWEEP_SUFFIX \<and>
    act_remoteChain a = Some (dep_remoteChain d) \<and> act_recipient a = sv_feesGateAccount deps \<and>
    act_amountMilliViz a =
      baseFee (dep_amountMilliViz d) (pegInFeePolicyFor (sv_fees deps) (dep_remoteChain d)) \<and>
    act_digest a = act_digest (canonicalPegIn sha d) @ FEE_SWEEP_SUFFIX"
proof -
  obtain d p where r: "reReadParentPegIn sha deps FEE_SWEEP_SUFFIX a h = Inr (d, p)"
    using assms by (auto simp: validateFeeSweep_def err_simps)
  note p = reRead_ok(2,3) [OF r]
  show ?thesis using assms r p by (auto simp: validateFeeSweep_def split: if_splits)
qed

lemma validateRefund_ok:
  assumes "validateRefund sha deps a h = Inr u"
  shows "\<exists>d. reReadParentPegIn sha deps REFUND_SUFFIX a h = Inr (d, canonicalPegIn sha d) \<and>
    act_id a = act_id (canonicalPegIn sha d) @ REFUND_SUFFIX \<and>
    act_remoteChain a = Some (dep_remoteChain d) \<and> act_recipient a = dep_from d \<and>
    act_amountMilliViz a = dep_amountMilliViz d - fc_refundFeeMilliViz (sv_fees deps) \<and>
    0 < act_amountMilliViz a \<and>
    act_digest a = act_digest (canonicalPegIn sha d) @ REFUND_SUFFIX"
proof -
  obtain d p where r: "reReadParentPegIn sha deps REFUND_SUFFIX a h = Inr (d, p)"
    using assms by (auto simp: validateRefund_def err_simps)
  note p = reRead_ok(2,3) [OF r]
  show ?thesis using assms r p by (auto simp: validateRefund_def Let_def split: if_splits)
qed

lemma validateGramReturn_ok:
  assumes "validateGramReturn sha deps a = Inr u"
  shows "\<exists>b. sv_getBurn deps (sliceEnd (act_id a) (length RETURN_SUFFIX)) = Inr (Some b) \<and>
    looksLikeTonTxHash (sliceEnd (act_id a) (length RETURN_SUFFIX)) \<and>
    sv_accountExists deps (burn_homeDestination b) = Inr False \<and>
    act_remoteChain a = Some (burn_chain b) \<and> act_recipient a = burn_from b \<and>
    act_amountMilliViz a = burn_amountMilliViz b - fc_refundFeeMilliViz (sv_fees deps) \<and>
    0 < act_amountMilliViz a \<and>
    act_digest a = act_digest (canonicalPegOut sha b) @ RETURN_SUFFIX"
proof -
  let ?id = "sliceEnd (act_id a) (length RETURN_SUFFIX)"
  have h: "looksLikeTonTxHash ?id"
    by (rule ccontr) (use assms in \<open>simp add: validateGramReturn_def\<close>)
  then obtain r where r: "sv_getBurn deps ?id = Inr r"
    using assms by (cases "sv_getBurn deps ?id") (auto simp: validateGramReturn_def)
  then obtain b where b: "r = Some b" using assms h by (cases r) (auto simp: validateGramReturn_def)
  then obtain ex where ex: "sv_accountExists deps (burn_homeDestination b) = Inr ex"
    using assms h r by (cases "sv_accountExists deps (burn_homeDestination b)") (auto simp: validateGramReturn_def)
  show ?thesis
    using assms h r b ex
    by (auto simp: validateGramReturn_def Let_def simp del: canonicalPegOut_simps split: if_splits)
qed

text \<open>The three suffixes end in different characters.\<close>

lemma endsWith_last: "endsWith s p \<Longrightarrow> p \<noteq> [] \<Longrightarrow> last s = last p"
  by (auto simp: endsWith_iff)

lemma suffix_last:
  "FEE_SWEEP_SUFFIX \<noteq> []" "REFUND_SUFFIX \<noteq> []" "RETURN_SUFFIX \<noteq> []"
  "last FEE_SWEEP_SUFFIX = CHR ''e''" "last REFUND_SUFFIX = CHR ''d''" "last RETURN_SUFFIX = CHR ''n''"
  by (simp_all add: FEE_SWEEP_SUFFIX_def REFUND_SUFFIX_def RETURN_SUFFIX_def)

lemma suffix_clash:
  "\<not> endsWith (s @ REFUND_SUFFIX) FEE_SWEEP_SUFFIX" "\<not> endsWith (s @ RETURN_SUFFIX) FEE_SWEEP_SUFFIX"
  "\<not> endsWith (s @ RETURN_SUFFIX) REFUND_SUFFIX"
  by (rule notI, drule endsWith_last, simp_all add: suffix_last)+

text \<open>The dispatch on the id for everything that is not a peg-in.\<close>

lemma inner_refund:
  assumes "act_direction a \<noteq> PEG_IN" "endsWith (act_id a) REFUND_SUFFIX"
  shows "validateActionInner sha deps a h = validateRefund sha deps a h"
proof -
  have "\<not> endsWith (act_id a) FEE_SWEEP_SUFFIX"
    using assms(2) endsWith_last [of "act_id a" REFUND_SUFFIX] endsWith_last [of "act_id a" FEE_SWEEP_SUFFIX]
    by (auto simp: suffix_last)
  then show ?thesis using assms by (simp add: validateActionInner_def)
qed

lemma inner_feeSweep:
  "act_direction a \<noteq> PEG_IN \<Longrightarrow> endsWith (act_id a) FEE_SWEEP_SUFFIX \<Longrightarrow>
   validateActionInner sha deps a h = validateFeeSweep sha deps a h"
  by (simp add: validateActionInner_def)

lemma inner_return:
  assumes "act_direction a \<noteq> PEG_IN" "endsWith (act_id a) RETURN_SUFFIX"
  shows "validateActionInner sha deps a h = validateGramReturn sha deps a"
proof -
  have "\<not> endsWith (act_id a) FEE_SWEEP_SUFFIX" "\<not> endsWith (act_id a) REFUND_SUFFIX"
    using assms(2) endsWith_last [of "act_id a" RETURN_SUFFIX] endsWith_last [of "act_id a" FEE_SWEEP_SUFFIX]
      endsWith_last [of "act_id a" REFUND_SUFFIX]
    by (auto simp: suffix_last)
  then show ?thesis using assms by (simp add: validateActionInner_def)
qed

text \<open>Actions are compared on every field but the direction.\<close>

lemma action_eqI:
  fixes a b :: CanonicalAction
  assumes "act_id a = act_id b" "act_remoteChain a = act_remoteChain b" "act_recipient a = act_recipient b"
    "act_amountMilliViz a = act_amountMilliViz b" "act_digest a = act_digest b"
  shows "a\<lparr>act_direction := x\<rparr> = b\<lparr>act_direction := x\<rparr>"
  using assms by (cases a; cases b) simp

lemma reRead_deposit:
  assumes "reReadParentPegIn sha deps suffix a h = Inr (d, p)" "reReadParentPegIn sha deps suffix b h' = Inr (e, q)"
    "parsePegInKey (sliceEnd (act_id a) (length suffix)) = parsePegInKey (sliceEnd (act_id b) (length suffix))"
    "\<And>t i. sv_getDeposit deps t i (hintBlock h) = sv_getDeposit deps t i (hintBlock h')"
  shows "d = e"
  using reRead_ok(1) [OF assms(1)] reRead_ok(1) [OF assms(2)] assms(3,4) by fastforce

text \<open>What an honest dispatcher submits for a deposit is accepted.\<close>

definition refundOf :: "(string \<Rightarrow> string) \<Rightarrow> GatewayFeeConfig \<Rightarrow> VizDeposit \<Rightarrow> Direction \<Rightarrow> CanonicalAction" where
  "refundOf sha fees d dir = \<lparr>act_direction = dir, act_remoteChain = Some (dep_remoteChain d),
     act_id = act_id (canonicalPegIn sha d) @ REFUND_SUFFIX, act_recipient = dep_from d,
     act_amountMilliViz = dep_amountMilliViz d - fc_refundFeeMilliViz fees,
     act_digest = act_digest (canonicalPegIn sha d) @ REFUND_SUFFIX\<rparr>"

definition feeSweepOf ::
  "(string \<Rightarrow> string) \<Rightarrow> GatewayFeeConfig \<Rightarrow> string \<Rightarrow> VizDeposit \<Rightarrow> Direction \<Rightarrow> CanonicalAction" where
  "feeSweepOf sha fees gate d dir = \<lparr>act_direction = dir, act_remoteChain = Some (dep_remoteChain d),
     act_id = act_id (canonicalPegIn sha d) @ FEE_SWEEP_SUFFIX, act_recipient = gate,
     act_amountMilliViz = baseFee (dep_amountMilliViz d) (pegInFeePolicyFor fees (dep_remoteChain d)),
     act_digest = act_digest (canonicalPegIn sha d) @ FEE_SWEEP_SUFFIX\<rparr>"

lemma honest_mint_accepted:
  assumes "sv_getDeposit deps (dep_trxId d) (dep_opIndex d) (hintBlock h) = Inr (Some d)"
    "dep_trxId d \<noteq> []" "CHR '':'' \<notin> set (dep_trxId d)" "dep_destinationValid d"
  shows "validateAction sha deps (canonicalPegIn sha d) h = Inr ()"
  using assms by (simp add: validateAction_ok validateActionInner_def validatePegIn_def assertSameAction_ok)

lemma honest_refund_accepted:
  assumes "sv_getDeposit deps (dep_trxId d) (dep_opIndex d) (hintBlock h) = Inr (Some d)"
    "dep_trxId d \<noteq> []" "CHR '':'' \<notin> set (dep_trxId d)" "dir \<noteq> PEG_IN"
    "fc_refundFeeMilliViz (sv_fees deps) < dep_amountMilliViz d"
  shows "validateAction sha deps (refundOf sha (sv_fees deps) d dir) h = Inr ()"
proof -
  have "reReadParentPegIn sha deps REFUND_SUFFIX (refundOf sha (sv_fees deps) d dir) h = Inr (d, canonicalPegIn sha d)"
    using assms by (intro reRead_canonical) (simp_all add: refundOf_def)
  then show ?thesis
    using assms(4,5) by (simp add: validateAction_ok inner_refund refundOf_def validateRefund_def Let_def)
qed

lemma honest_feeSweep_accepted:
  assumes "sv_getDeposit deps (dep_trxId d) (dep_opIndex d) (hintBlock h) = Inr (Some d)"
    "dep_trxId d \<noteq> []" "CHR '':'' \<notin> set (dep_trxId d)" "dir \<noteq> PEG_IN"
  shows "validateAction sha deps (feeSweepOf sha (sv_fees deps) (sv_feesGateAccount deps) d dir) h = Inr ()"
proof -
  have "reReadParentPegIn sha deps FEE_SWEEP_SUFFIX
      (feeSweepOf sha (sv_fees deps) (sv_feesGateAccount deps) d dir) h = Inr (d, canonicalPegIn sha d)"
    using assms by (intro reRead_canonical) (simp_all add: feeSweepOf_def)
  then show ?thesis
    using assms(4) by (simp add: validateAction_ok inner_feeSweep feeSweepOf_def validateFeeSweep_def)
qed

text \<open>An accepted child: everything but its direction is determined by the deposit it settles.\<close>

definition isChildOf ::
  "(string \<Rightarrow> string) \<Rightarrow> SourceValidatorDeps \<Rightarrow> string \<Rightarrow> CanonicalAction \<Rightarrow> SourceHint option \<Rightarrow> VizDeposit \<Rightarrow> bool" where
  "isChildOf sha deps suffix a h d \<longleftrightarrow>
     reReadParentPegIn sha deps suffix a h = Inr (d, canonicalPegIn sha d) \<and>
     act_id a = act_id (canonicalPegIn sha d) @ suffix \<and> act_remoteChain a = Some (dep_remoteChain d) \<and>
     act_recipient a = (if suffix = REFUND_SUFFIX then dep_from d else sv_feesGateAccount deps) \<and>
     act_amountMilliViz a =
       (if suffix = REFUND_SUFFIX then dep_amountMilliViz d - fc_refundFeeMilliViz (sv_fees deps)
        else baseFee (dep_amountMilliViz d) (pegInFeePolicyFor (sv_fees deps) (dep_remoteChain d))) \<and>
     act_digest a = act_digest (canonicalPegIn sha d) @ suffix"

lemma isChildOf_unique:
  assumes "isChildOf sha deps suffix a h d" "isChildOf sha deps suffix b h' d"
  shows "a\<lparr>act_direction := x\<rparr> = b\<lparr>act_direction := x\<rparr>"
  by (rule action_eqI) (insert assms, unfold isChildOf_def, (elim conjE, simp only:)+)

lemma suffix_neq: "FEE_SWEEP_SUFFIX \<noteq> REFUND_SUFFIX"
  by (simp add: FEE_SWEEP_SUFFIX_def REFUND_SUFFIX_def)

lemma accepted_child:
  assumes "validateAction sha deps a h = Inr u" "act_direction a \<noteq> PEG_IN"
    "suffix = FEE_SWEEP_SUFFIX \<or> suffix = REFUND_SUFFIX" "endsWith (act_id a) suffix"
  shows "\<exists>d. isChildOf sha deps suffix a h d"
proof (cases "suffix = REFUND_SUFFIX")
  case True
  then have "validateRefund sha deps a h = Inr u"
    using assms(1,4) inner_refund [OF assms(2)] by (simp add: validateAction_ok)
  from validateRefund_ok [OF this] True show ?thesis unfolding isChildOf_def by fastforce
next
  case False
  with assms(3) have s: "suffix = FEE_SWEEP_SUFFIX" by blast
  then have "validateFeeSweep sha deps a h = Inr u"
    using assms(1,4) inner_feeSweep [OF assms(2)] by (simp add: validateAction_ok)
  from validateFeeSweep_ok [OF this] s suffix_neq show ?thesis unfolding isChildOf_def by fastforce
qed

section \<open>Properties\<close>

definition fees_example :: GatewayFeeConfig where
  "fees_example = \<lparr>fc_floorMilliViz = 10000, fc_gramFloorMilliViz = None, fc_bps = 20,
     fc_activationSurchargeMilliViz = (\<lambda>_. 5000), fc_mintGasFloorMilliViz = (\<lambda>_. 1000),
     fc_refundFeeMilliViz = 100\<rparr>"

definition mintable_example :: VizDeposit where
  "mintable_example = deposit_example\<lparr>dep_destinationValid := True\<rparr>"

definition burn_example :: RemoteBurn where
  "burn_example = \<lparr>burn_chain = GRAM, burn_sourceId = replicate 64 (CHR ''a''), burn_height = 5,
     burn_from = ''EQsender'', burn_amountMilliViz = 7000, burn_homeDestination = ''nobody''\<rparr>"

text \<open>An operator whose own nodes know one deposit and one burn.\<close>

definition deps_example :: SourceValidatorDeps where
  "deps_example = \<lparr>
     sv_getDeposit = (\<lambda>t i h. if t = ''ab01'' \<and> i = 3 then Inr (Some mintable_example) else Inr None),
     sv_accountExists = (\<lambda>n. Inr (n = ''alice'')),
     sv_getDepositTransfer = (\<lambda>_ _. Inr None),
     sv_getBurn = (\<lambda>s. if s = replicate 64 (CHR ''a'') then Inr (Some burn_example) else Inr None),
     sv_depositAta = (\<lambda>_ _ _. Inr ''ata''), sv_depositProgramId = ''prog'', sv_wvizMint = ''mint'',
     sv_fees = fees_example, sv_feesGateAccount = ''fees.gate''\<rparr>"

definition hash_example :: "string \<Rightarrow> string" where
  "hash_example s = ''h'' @ s"

definition refund_example :: CanonicalAction where
  "refund_example = \<lparr>act_direction = PEG_OUT, act_remoteChain = Some GRAM, act_id = ''ab01:3:refund'',
     act_recipient = ''alice'', act_amountMilliViz = 24900,
     act_digest = act_digest (canonicalPegIn hash_example mintable_example) @ '':refund''\<rparr>"

lemma refund_example_suffix: "endsWith (act_id refund_example) REFUND_SUFFIX"
  by (simp add: refund_example_def REFUND_SUFFIX_def endsWith_def)

lemma mintable_simps:
  "dep_trxId mintable_example = ''ab01''" "dep_opIndex mintable_example = 3"
  "dep_from mintable_example = ''alice''" "dep_amountMilliViz mintable_example = 25000"
  "dep_remoteChain mintable_example = GRAM" "dep_destinationValid mintable_example"
  by (simp_all add: mintable_example_def deposit_example_def)

lemma mintable_id: "pegInId (dep_trxId mintable_example) (dep_opIndex mintable_example) = ''ab01:3''"
  by (simp add: mintable_simps pegInId_def decNat.simps) code_simp

lemma mintable_read: "sv_getDeposit deps_example ''ab01'' 3 h = Inr (Some mintable_example)"
  by (simp add: deps_example_def)

lemma key_example: "parsePegInKey ''ab01:3'' = Some (''ab01'', 3)"
  by code_simp

lemma deposit_key_example:
  "sv_getDeposit deps_example (dep_trxId mintable_example) (dep_opIndex mintable_example) (hintBlock h) =
     Inr (Some mintable_example)"
  "dep_trxId mintable_example \<noteq> []" "CHR '':'' \<notin> set (dep_trxId mintable_example)"
  by (simp_all add: mintable_simps mintable_read)

lemma peg_in_example:
  "validateAction hash_example deps_example (canonicalPegIn hash_example mintable_example) None = Inr ()"
  by (rule honest_mint_accepted [OF deposit_key_example mintable_simps(6)])

lemma refund_example_ok: "validateAction hash_example deps_example refund_example None = Inr ()"
proof -
  have r: "refund_example = refundOf hash_example (sv_fees deps_example) mintable_example PEG_OUT"
    unfolding refund_example_def refundOf_def canonicalPegIn_simps mintable_id
    by (simp add: mintable_simps deps_example_def fees_example_def REFUND_SUFFIX_def)
  show ?thesis unfolding r
    by (rule honest_refund_accepted [OF deposit_key_example])
      (simp_all add: mintable_simps deps_example_def fees_example_def)
qed

text \<open>
  C11. A peg-in is validated only if it is, field by field, the canonical action of a deposit that
  the operator's own node returned for the key in its id, with a mintable destination. In
  particular a deposit without a valid destination is never mintable.
\<close>

theorem accepted_peg_in_is_own_deposit:
  assumes "validateAction sha deps a h = Inr u" "act_direction a = PEG_IN"
  shows "\<exists>t i d. parsePegInKey (act_id a) = Some (t, i) \<and>
    sv_getDeposit deps t i (hintBlock h) = Inr (Some d) \<and> dep_destinationValid d \<and> a = canonicalPegIn sha d"
  using assms validatePegIn_ok by (fastforce simp: validateAction_ok validateActionInner_def)

theorem accepted_peg_in_is_own_deposit_witness:
  "\<exists>d. dep_destinationValid d \<and>
     canonicalPegIn hash_example mintable_example = canonicalPegIn hash_example d"
  using accepted_peg_in_is_own_deposit [OF peg_in_example] by auto

text \<open>
  C12. There is at most one acceptable child of each kind per deposit: two accepted fee sweeps, or
  two accepted refunds, whose ids read back as the same deposit (zero-padded operation indices
  included) are the same action up to the direction field, so no second sweep or refund can be
  signed under another id, amount, recipient or digest.
\<close>

theorem one_child_per_deposit:
  assumes "validateAction sha deps a h = Inr u" "validateAction sha deps b h' = Inr v"
    "act_direction a \<noteq> PEG_IN" "act_direction b \<noteq> PEG_IN"
    "suffix = FEE_SWEEP_SUFFIX \<or> suffix = REFUND_SUFFIX"
    "endsWith (act_id a) suffix" "endsWith (act_id b) suffix"
    "parsePegInKey (sliceEnd (act_id a) (length suffix)) = parsePegInKey (sliceEnd (act_id b) (length suffix))"
    "\<And>t i. sv_getDeposit deps t i (hintBlock h) = sv_getDeposit deps t i (hintBlock h')"
  shows "a\<lparr>act_direction := act_direction b\<rparr> = b"
proof -
  obtain d where d: "isChildOf sha deps suffix a h d"
    using accepted_child [OF assms(1,3,5,6)] by blast
  obtain e where e: "isChildOf sha deps suffix b h' e"
    using accepted_child [OF assms(2,4,5,7)] by blast
  have "d = e"
    using reRead_deposit [OF _ _ assms(8,9)] d e unfolding isChildOf_def by blast
  then have "a\<lparr>act_direction := act_direction b\<rparr> = b\<lparr>act_direction := act_direction b\<rparr>"
    using isChildOf_unique d e by blast
  then show ?thesis by simp
qed

theorem one_child_per_deposit_witness:
  "refund_example\<lparr>act_direction := PEG_OUT\<rparr> = refund_example"
proof -
  have e: "endsWith (act_id refund_example) REFUND_SUFFIX" by (rule refund_example_suffix)
  have d: "act_direction refund_example = PEG_OUT" by (simp add: refund_example_def)
  have "refund_example\<lparr>act_direction := act_direction refund_example\<rparr> = refund_example"
    by (rule one_child_per_deposit [OF refund_example_ok refund_example_ok, of REFUND_SUFFIX]) (simp_all add: d e)
  then show ?thesis by (simp add: d)
qed

text \<open>
  An accepted refund pays exactly the gross less the refund fee, a positive amount, back to the
  sender of the deposit, on the deposit's chain.
\<close>

lemma accepted_refund_exact:
  assumes "validateAction sha deps a h = Inr u" "act_direction a \<noteq> PEG_IN" "endsWith (act_id a) REFUND_SUFFIX"
  shows "\<exists>t i d. sv_getDeposit deps t i (hintBlock h) = Inr (Some d) \<and>
    act_id a = pegInId (dep_trxId d) (dep_opIndex d) @ REFUND_SUFFIX \<and> act_recipient a = dep_from d \<and>
    act_remoteChain a = Some (dep_remoteChain d) \<and>
    act_amountMilliViz a = dep_amountMilliViz d - fc_refundFeeMilliViz (sv_fees deps) \<and> 0 < act_amountMilliViz a"
proof -
  have "validateRefund sha deps a h = Inr u"
    using assms(1) inner_refund [OF assms(2,3)] by (simp add: validateAction_ok)
  from validateRefund_ok [OF this] obtain d where
    r: "reReadParentPegIn sha deps REFUND_SUFFIX a h = Inr (d, canonicalPegIn sha d)"
    and f: "act_id a = act_id (canonicalPegIn sha d) @ REFUND_SUFFIX" "act_remoteChain a = Some (dep_remoteChain d)"
      "act_recipient a = dep_from d" "0 < act_amountMilliViz a"
      "act_amountMilliViz a = dep_amountMilliViz d - fc_refundFeeMilliViz (sv_fees deps)"
    by blast
  from reRead_ok(1) [OF r] obtain t i where "sv_getDeposit deps t i (hintBlock h) = Inr (Some d)" by blast
  with f show ?thesis
    by (intro exI [of _ t] exI [of _ i] exI [of _ d]) (simp only: canonicalPegIn_simps simp_thms)
qed

definition return_example :: CanonicalAction where
  "return_example = \<lparr>act_direction = GRAM_RETURN, act_remoteChain = Some GRAM,
     act_id = replicate 64 (CHR ''a'') @ '':return'', act_recipient = ''EQsender'', act_amountMilliViz = 6900,
     act_digest = act_digest (canonicalPegOut hash_example burn_example) @ '':return''\<rparr>"

lemma return_example_simps: "act_recipient return_example = ''EQsender''"
  by (simp add: return_example_def)

lemma return_example_ok: "validateAction hash_example deps_example return_example None = Inr ()"
proof -
  have e: "endsWith (act_id return_example) RETURN_SUFFIX"
    by (simp add: return_example_def RETURN_SUFFIX_def)
  have s: "sliceEnd (act_id return_example) (length RETURN_SUFFIX) = replicate 64 (CHR ''a'')"
    by (simp add: return_example_def RETURN_SUFFIX_def sliceEnd_def)
  have h: "looksLikeTonTxHash (replicate 64 (CHR ''a''))" by code_simp
  have "validateGramReturn hash_example deps_example return_example = Inr ()"
    unfolding validateGramReturn_def s
    using h by (simp add: deps_example_def burn_example_def return_example_def RETURN_SUFFIX_def fees_example_def)
  moreover have "act_direction return_example \<noteq> PEG_IN" by (simp add: return_example_def)
  ultimately show ?thesis using inner_return [OF _ e] by (simp add: validateAction_ok)
qed

text \<open>
  wVIZ is returned to a TON sender only for a burn the operator's own node knows, whose home
  account does not exist on the operator's own VIZ node, and for exactly the burnt amount less the
  refund fee: a usable destination is released, never returned.
\<close>

lemma accepted_return_only_if_undeliverable:
  assumes "validateAction sha deps a h = Inr u" "act_direction a \<noteq> PEG_IN" "endsWith (act_id a) RETURN_SUFFIX"
  shows "\<exists>b. sv_getBurn deps (sliceEnd (act_id a) (length RETURN_SUFFIX)) = Inr (Some b) \<and>
    sv_accountExists deps (burn_homeDestination b) = Inr False \<and> act_recipient a = burn_from b \<and>
    act_amountMilliViz a = burn_amountMilliViz b - fc_refundFeeMilliViz (sv_fees deps) \<and> 0 < act_amountMilliViz a"
  using assms validateGramReturn_ok [of sha deps a u] by (auto simp: validateAction_ok inner_return)

text \<open>
  The validator alone does not exclude paying a deposit out twice: of every mintable deposit
  worth more than the refund fee that the operator's node returns, it accepts both the mint and
  the refund to the sender.
\<close>

lemma mint_and_refund_both_accepted:
  assumes "sv_getDeposit deps (dep_trxId d) (dep_opIndex d) (hintBlock h) = Inr (Some d)"
    "dep_trxId d \<noteq> []" "CHR '':'' \<notin> set (dep_trxId d)" "dep_destinationValid d"
    "fc_refundFeeMilliViz (sv_fees deps) < dep_amountMilliViz d"
  shows "validateAction sha deps (canonicalPegIn sha d) h = Inr () \<and>
    (\<exists>r. validateAction sha deps r h = Inr () \<and> act_direction r = PEG_OUT \<and> act_recipient r = dep_from d \<and>
       act_amountMilliViz r = dep_amountMilliViz d - fc_refundFeeMilliViz (sv_fees deps))"
  using honest_mint_accepted [OF assms(1-4)] honest_refund_accepted [OF assms(1-3) _ assms(5), of PEG_OUT]
  by (intro conjI exI [of _ "refundOf sha (sv_fees deps) d PEG_OUT"]) (simp_all add: refundOf_def)

end
