(* ===== verification/KeyedSigner.thy ===== *)
theory KeyedSigner
  imports ReplayLedger VizChain SourceValidator
begin

text \<open>
  One operator's signer: \<open>packages/signer/src/keyedSigner.ts\<close>, \<open>routeApproval.ts\<close>,
  \<open>resolveOperatorId.ts\<close> and the \<open>/approve\<close> handler of \<open>packages/signer/src/index.ts\<close>.

  The signature schemes and the on-chain approver are parameters: \<open>ks_signTx\<close> is
  \<open>viz.auth.signTransaction\<close>, \<open>ks_mintMessage\<close>, \<open>ks_member\<close> and \<open>ks_partialSign\<close> are what
  \<open>signMint\<close> takes from web3.js, and an approver acts on a world \<open>'w\<close>.
\<close>

section \<open>keyedSigner.ts\<close>

record SolanaPins =
  pin_mint :: string
  pin_multisig :: string
  pin_nonceAccount :: string
  pin_feePayer :: "string option"

record GramApprovalReceipt =
  rc_orderAddr :: string
  rc_myIdx :: nat
  rc_role :: string

definition encodeReceipt :: "GramApprovalReceipt \<Rightarrow> string" where
  "encodeReceipt r = ''ton:'' @ rc_orderAddr r @ '':'' @ decNat (rc_myIdx r) @ '':'' @ rc_role r"

record 'w GramApprovalClient =
  gac_approveMint :: "json_obj \<Rightarrow> 'w \<Rightarrow> GramApprovalReceipt result \<times> 'w"
  gac_approveReturn :: "json_obj \<Rightarrow> 'w \<Rightarrow> GramApprovalReceipt result \<times> 'w"

record 'w KeyedSigner =
  ks_operatorId :: string
  ks_vizWif :: string
  ks_fees :: GatewayFeeConfig
  ks_solanaSecret :: "string option"
  ks_validateSource :: "(CanonicalAction \<Rightarrow> SourceHint option \<Rightarrow> unit result) option"
  ks_solanaPins :: "SolanaPins option"
  ks_gramApprover :: "'w GramApprovalClient option"
  ks_accounts :: "GatewayAccounts option"
  ks_signTx :: "VizTransaction \<Rightarrow> string \<Rightarrow> string result"
  ks_mintMessage :: "json_obj \<Rightarrow> string result"
  ks_member :: "string \<Rightarrow> string"
  ks_partialSign :: "json_obj \<Rightarrow> string \<Rightarrow> string result"

text \<open>\<open>signRelease\<close> of vizSign.ts and \<open>signMint\<close> of solanaSign.ts.\<close>

definition signRelease :: "'w KeyedSigner \<Rightarrow> json_obj \<Rightarrow> string result" where
  "signRelease ks p =
     (if ks_vizWif ks = [] then Inl (GenericError ''VIZ signing key (WIF) not set; refusing to sign'')
      else ks_signTx ks (buildReleaseTx p) (ks_vizWif ks))"

definition signMint :: "'w KeyedSigner \<Rightarrow> json_obj \<Rightarrow> string \<Rightarrow> string result" where
  "signMint ks p secret =
     bindE (ks_mintMessage ks p) (\<lambda>m.
       if p ''messageB64'' \<noteq> Some (JString m) then Inl (GenericError ''rebuilt mint message != proposal.messageB64'')
       else let member = ks_member ks secret
            in (case p ''signers'' of
                  Some (JArray ss) \<Rightarrow>
                    if member \<notin> set ss then Inl (GenericError ''signer is not in the proposal multisig signer set'')
                    else bindE (ks_partialSign ks p secret) (\<lambda>sig. Inr (member @ '':'' @ sig))
                | _ \<Rightarrow> Inl (GenericError ''TypeError: signers'')))"

definition assertSource :: "'w KeyedSigner \<Rightarrow> CanonicalAction \<Rightarrow> SourceHint option \<Rightarrow> unit result" where
  "assertSource ks action hint =
     (case ks_validateSource ks of None \<Rightarrow> Inr () | Some v \<Rightarrow> v action hint)"

definition assertNet ::
  "'w KeyedSigner \<Rightarrow> CanonicalAction \<Rightarrow> RemoteChainId \<Rightarrow> bool \<Rightarrow> json option \<Rightarrow> unit result" where
  "assertNet ks action chain destProvisioned proposalNet =
     (let policy = pegInFeePolicyFor (ks_fees ks) chain;
          gross = act_amountMilliViz action;
          base = baseFee gross policy;
          activation = (if destProvisioned then 0 else fp_activationSurchargeMilliViz policy);
          net = gross - base - activation
      in if net \<le> 0 then Inl (GenericError ''net <= 0'')
         else if proposalNet \<noteq> Some (JString (decInt net)) then Inl (GenericError ''proposal net != derived net'')
         else Inr ())"

definition approvalOf :: "'w KeyedSigner \<Rightarrow> CanonicalAction \<Rightarrow> string \<Rightarrow> Approval" where
  "approvalOf ks action sig =
     \<lparr>apr_actionId = act_id action, apr_operatorId = ks_operatorId ks, apr_signature = sig\<rparr>"

definition assertReleaseFrom :: "'w KeyedSigner \<Rightarrow> CanonicalAction \<Rightarrow> json_obj \<Rightarrow> unit result" where
  "assertReleaseFrom ks action p =
     (case ks_accounts ks of
        None \<Rightarrow> Inr ()
      | Some accounts \<Rightarrow>
          (case act_remoteChain action of
             None \<Rightarrow> Inl (GenericError ''release missing remoteChain'')
           | Some chain \<Rightarrow>
               bindE (accountFor accounts chain) (\<lambda>expectedFrom.
                 throwIf (p ''from'' \<noteq> Some (JString expectedFrom)) (GenericError ''proposal.from != expected backing account''))))"

definition signVizRelease ::
  "'w KeyedSigner \<Rightarrow> CanonicalAction \<Rightarrow> json_obj \<Rightarrow> SourceHint option \<Rightarrow> Approval result" where
  "signVizRelease ks action p hint =
     bindE (throwIf (act_direction action \<noteq> PEG_OUT) (GenericError ''signVizRelease expects a PEG_OUT action'')) (\<lambda>_.
     bindE (assertSource ks action hint) (\<lambda>_.
     bindE (assertReleaseFrom ks action p) (\<lambda>_.
     bindE (throwIf (p ''to'' \<noteq> Some (JString (act_recipient action))) (GenericError ''proposal.to != action.recipient'')) (\<lambda>_.
     bindE (throwIf (p ''amount'' \<noteq> Some (JString (milliToViz (act_amountMilliViz action))))
              (GenericError ''proposal.amount != action amount'')) (\<lambda>_.
     bindE (throwIf (p ''memo'' \<noteq> Some (JString (act_id action))) (GenericError ''proposal.memo != action.id'')) (\<lambda>_.
     bindE (signRelease ks p) (\<lambda>sig. Inr (approvalOf ks action sig))))))))"

definition callApprover ::
  "'w KeyedSigner \<Rightarrow> CanonicalAction \<Rightarrow> ('w GramApprovalClient \<Rightarrow> json_obj \<Rightarrow> 'w \<Rightarrow> GramApprovalReceipt result \<times> 'w) \<Rightarrow>
   json_obj \<Rightarrow> 'w \<Rightarrow> Approval result \<times> 'w" where
  "callApprover ks action f p w =
     (case ks_gramApprover ks of
        None \<Rightarrow> (Inl (GenericError ''GRAM approver not configured on this signer; refusing to approve''), w)
      | Some c \<Rightarrow> (case f c p w of
          (Inl e, w') \<Rightarrow> (Inl e, w')
        | (Inr r, w') \<Rightarrow> (Inr (approvalOf ks action (encodeReceipt r)), w')))"

definition gramMintChecks ::
  "'w KeyedSigner \<Rightarrow> CanonicalAction \<Rightarrow> json_obj \<Rightarrow> SourceHint option \<Rightarrow> unit result" where
  "gramMintChecks ks action p hint =
     bindE (throwIf (act_direction action \<noteq> PEG_IN) (GenericError ''approveGramMint expects a PEG_IN action'')) (\<lambda>_.
     bindE (assertSource ks action hint) (\<lambda>_.
     bindE (throwIf (p ''toAddress'' \<noteq> Some (JString (act_recipient action)))
              (GenericError ''proposal.toAddress != action.recipient'')) (\<lambda>_.
     assertNet ks action GRAM (jsTruthy (p ''destProvisioned'')) (p ''amountMilliViz''))))"

definition approveGramMint ::
  "'w KeyedSigner \<Rightarrow> CanonicalAction \<Rightarrow> json_obj \<Rightarrow> SourceHint option \<Rightarrow> 'w \<Rightarrow> Approval result \<times> 'w" where
  "approveGramMint ks action p hint w =
     (case gramMintChecks ks action p hint of
        Inl e \<Rightarrow> (Inl e, w)
      | Inr _ \<Rightarrow> callApprover ks action gac_approveMint p w)"

definition gramReturnChecks ::
  "'w KeyedSigner \<Rightarrow> CanonicalAction \<Rightarrow> json_obj \<Rightarrow> SourceHint option \<Rightarrow> unit result" where
  "gramReturnChecks ks action p hint =
     bindE (throwIf (act_direction action \<noteq> GRAM_RETURN) (GenericError ''approveGramReturn expects a GRAM_RETURN action'')) (\<lambda>_.
     bindE (assertSource ks action hint) (\<lambda>_.
     bindE (throwIf (p ''toAddress'' \<noteq> Some (JString (act_recipient action)))
              (GenericError ''proposal.toAddress != action.recipient'')) (\<lambda>_.
     (case jsBigInt (p ''amountMilliViz'') of
        None \<Rightarrow> Inl (GenericError ''Cannot convert to a BigInt'')
      | Some n \<Rightarrow> throwIf (n \<noteq> act_amountMilliViz action) (GenericError ''proposal amount != action amount'')))))"

definition approveGramReturn ::
  "'w KeyedSigner \<Rightarrow> CanonicalAction \<Rightarrow> json_obj \<Rightarrow> SourceHint option \<Rightarrow> 'w \<Rightarrow> Approval result \<times> 'w" where
  "approveGramReturn ks action p hint w =
     (case gramReturnChecks ks action p hint of
        Inl e \<Rightarrow> (Inl e, w)
      | Inr _ \<Rightarrow> callApprover ks action gac_approveReturn p w)"

definition assertPins :: "'w KeyedSigner \<Rightarrow> json_obj \<Rightarrow> unit result" where
  "assertPins ks p =
     (case ks_solanaPins ks of
        None \<Rightarrow> Inr ()
      | Some pins \<Rightarrow>
          throwIf (p ''mint'' \<noteq> Some (JString (pin_mint pins)) \<or>
                   p ''multisig'' \<noteq> Some (JString (pin_multisig pins)) \<or>
                   p ''nonceAccount'' \<noteq> Some (JString (pin_nonceAccount pins)) \<or>
                   (case pin_feePayer pins of None \<Rightarrow> False
                    | Some f \<Rightarrow> f \<noteq> [] \<and> p ''feePayer'' \<noteq> Some (JString f)))
            (GenericError ''proposal field != signer-configured field''))"

definition approveSolanaMint ::
  "'w KeyedSigner \<Rightarrow> CanonicalAction \<Rightarrow> json_obj \<Rightarrow> SourceHint option \<Rightarrow> Approval result" where
  "approveSolanaMint ks action p hint =
     bindE (throwIf (act_direction action \<noteq> PEG_IN) (GenericError ''approveSolanaMint expects a PEG_IN action'')) (\<lambda>_.
     bindE (assertSource ks action hint) (\<lambda>_.
     bindE (assertPins ks p) (\<lambda>_.
     bindE (throwIf (p ''recipient'' \<noteq> Some (JString (act_recipient action)))
              (GenericError ''proposal.recipient != action.recipient'')) (\<lambda>_.
     bindE (assertNet ks action SOLANA (jsTruthy (p ''destProvisioned'')) (p ''amountMilliViz'')) (\<lambda>_.
     (case ks_solanaSecret ks of
        None \<Rightarrow> Inl (GenericError ''Solana signer secret not set; refusing to sign'')
      | Some secret \<Rightarrow> bindE (signMint ks p secret) (\<lambda>sig. Inr (approvalOf ks action sig))))))))"

section \<open>routeApproval.ts\<close>

definition routeApproval ::
  "'w KeyedSigner \<Rightarrow> CanonicalAction \<Rightarrow> json_obj \<Rightarrow> SourceHint option \<Rightarrow> 'w \<Rightarrow> Approval result \<times> 'w" where
  "routeApproval ks action p hint w =
     (if act_direction action = GRAM_RETURN
      then (if \<not> isGramMintProposal p then (Inl (GenericError ''GRAM_RETURN proposal shape not recognized''), w)
            else approveGramReturn ks action p hint w)
      else if act_direction action = PEG_OUT then (signVizRelease ks action p hint, w)
      else if isSolanaMintProposal p
      then (if act_remoteChain action \<noteq> None \<and> act_remoteChain action \<noteq> Some SOLANA
            then (Inl (GenericError ''Solana proposal for another chain''), w)
            else (approveSolanaMint ks action p hint, w))
      else if isGramMintProposal p
      then (if act_remoteChain action \<noteq> None \<and> act_remoteChain action \<noteq> Some GRAM
            then (Inl (GenericError ''GRAM proposal for another chain''), w)
            else approveGramMint ks action p hint w)
      else (Inl (GenericError ''PEG_IN proposal shape not recognized''), w))"

section \<open>resolveOperatorId.ts\<close>

text \<open>\<open>pubkeyFromWif\<close> is a parameter; the flag tells whether the warning is printed.\<close>

definition resolveOperatorId ::
  "(string \<Rightarrow> string result) \<Rightarrow> string \<Rightarrow> OperatorRef list \<Rightarrow> string option \<Rightarrow> (string \<times> bool) result" where
  "resolveOperatorId pubkeyFromWif signingWif operators suppliedId =
     bindE (pubkeyFromWif signingWif) (\<lambda>pubkey.
       case List.find (\<lambda>o'. op_vizPubkey o' = pubkey) operators of
         None \<Rightarrow> Inl (GenericError ''VIZ signing key is not in the operator set'')
       | Some m \<Rightarrow>
           let supplied = map_option trim suppliedId
           in Inr (op_id m, case supplied of None \<Rightarrow> False | Some s \<Rightarrow> s \<noteq> [] \<and> s \<noteq> op_id m))"

section \<open>The /approve handler (index.ts)\<close>

record ApproveRequest =
  aq_action :: wire
  aq_proposal :: json_obj
  aq_sourceBlockNum :: "json option"

definition hintFromRequest :: "ApproveRequest \<Rightarrow> SourceHint option" where
  "hintFromRequest req =
     (case aq_sourceBlockNum req of
        Some (JNumber n) \<Rightarrow> if n > 0 then Some \<lparr>hint_sourceBlockNum = Some (nat n)\<rparr> else None
      | _ \<Rightarrow> None)"

datatype ApproveReply = Approved Approval | Refused nat string

text \<open>\<open>None\<close> is a body that \<open>JSON.parse\<close> rejects.\<close>

definition approveHandler ::
  "LedgerCrypto \<Rightarrow> ReplayLedgerDeps \<Rightarrow> 'w KeyedSigner \<Rightarrow> ApproveRequest option \<Rightarrow> SqliteStore \<times> 'w \<Rightarrow>
   ApproveReply \<times> (SqliteStore \<times> 'w)" where
  "approveHandler lc deps ks req sw =
     (case sw of (s, w) \<Rightarrow>
        if sql_isPaused s then (Refused 423 ''paused'', (s, w))
        else (case req of
            None \<Rightarrow> (Refused 500 ''SyntaxError'', (s, w))
          | Some r \<Rightarrow>
              (case actionFromWire (aq_action r) of
                 Inl e \<Rightarrow> (Refused 500 (error_text e), (s, w))
               | Inr action \<Rightarrow>
                   (case assertNotReplay lc deps id (act_id action) (aq_proposal r) s of
                      (Inl e, s1) \<Rightarrow> (Refused 500 (error_text e), (s1, w))
                    | (Inr _, s1) \<Rightarrow>
                        (case routeApproval ks action (aq_proposal r) (hintFromRequest r) w of
                           (Inl e, w1) \<Rightarrow> (Refused 500 (error_text e), (s1, w1))
                         | (Inr a, w1) \<Rightarrow> (Approved a, (s1, w1)))))))"

section \<open>What an approval means\<close>

lemma signVizRelease_ok:
  assumes "signVizRelease ks action p hint = Inr a"
  shows "act_direction action = PEG_OUT" "assertSource ks action hint = Inr ()"
    "assertReleaseFrom ks action p = Inr ()"
    "p ''to'' = Some (JString (act_recipient action))"
    "p ''amount'' = Some (JString (milliToViz (act_amountMilliViz action)))"
    "p ''memo'' = Some (JString (act_id action))"
    "\<exists>sig. ks_signTx ks (buildReleaseTx p) (ks_vizWif ks) = Inr sig \<and> a = approvalOf ks action sig"
  using assms by (auto simp: signVizRelease_def err_simps signRelease_def split: if_splits)

lemma assertReleaseFrom_ok:
  assumes "assertReleaseFrom ks action p = Inr ()" "ks_accounts ks = Some ga"
  shows "\<exists>chain from'. act_remoteChain action = Some chain \<and> accountFor ga chain = Inr from' \<and>
    p ''from'' = Some (JString from')"
  using assms by (auto simp: assertReleaseFrom_def err_simps split: option.splits)

lemma assertNet_ok:
  assumes "assertNet ks action chain prov q = Inr ()"
  shows "\<exists>net. net = netOf (act_amountMilliViz action) prov (pegInFeePolicyFor (ks_fees ks) chain) \<and> 0 < net \<and>
    q = Some (JString (decInt net))"
  using assms by (auto simp: assertNet_def Let_def netOf_def split: if_splits)

lemma approveGramMint_ok:
  assumes "approveGramMint ks action p hint w = (Inr a, w')"
  shows "act_direction action = PEG_IN" "assertSource ks action hint = Inr ()"
    "p ''toAddress'' = Some (JString (act_recipient action))"
    "assertNet ks action GRAM (jsTruthy (p ''destProvisioned'')) (p ''amountMilliViz'') = Inr ()"
  using assms
  by (auto simp: approveGramMint_def gramMintChecks_def err_simps split: sum.splits)

lemma approveSolanaMint_ok:
  assumes "approveSolanaMint ks action p hint = Inr a"
  shows "act_direction action = PEG_IN" "assertSource ks action hint = Inr ()" "assertPins ks p = Inr ()"
    "p ''recipient'' = Some (JString (act_recipient action))"
    "assertNet ks action SOLANA (jsTruthy (p ''destProvisioned'')) (p ''amountMilliViz'') = Inr ()"
    "\<exists>secret m. ks_solanaSecret ks = Some secret \<and> ks_mintMessage ks p = Inr m \<and> p ''messageB64'' = Some (JString m)"
  using assms
  by (auto simp: approveSolanaMint_def signMint_def err_simps Let_def split: option.splits if_splits json.splits)

lemma approveGramReturn_ok:
  assumes "approveGramReturn ks action p hint w = (Inr a, w')"
  shows "act_direction action = GRAM_RETURN" "assertSource ks action hint = Inr ()"
    "p ''toAddress'' = Some (JString (act_recipient action))"
    "jsBigInt (p ''amountMilliViz'') = Some (act_amountMilliViz action)"
  using assms
  by (auto simp: approveGramReturn_def gramReturnChecks_def err_simps split: sum.splits option.splits)

text \<open>Every approval rests on the operator's own source check.\<close>

lemma routeApproval_source:
  assumes "routeApproval ks action p hint w = (Inr a, w')"
  shows "assertSource ks action hint = Inr ()"
  using assms approveGramReturn_ok(2) signVizRelease_ok(2) approveSolanaMint_ok(2) approveGramMint_ok(2)
  unfolding routeApproval_def by (auto split: if_splits)

lemma approveHandler_ok:
  assumes "approveHandler lc deps ks req (s, w) = (Approved a, (s', w'))"
  shows "\<exists>r action. req = Some r \<and> actionFromWire (aq_action r) = Inr action \<and> \<not> sql_isPaused s \<and>
    assertNotReplay lc deps id (act_id action) (aq_proposal r) s = (Inr (), s') \<and>
    routeApproval ks action (aq_proposal r) (hintFromRequest r) w = (Inr a, w')"
  using assms by (auto simp: approveHandler_def split: if_splits option.splits sum.splits prod.splits)

lemma claimKey_isPaused:
  "sql_isPaused (snd (claimKey deps id a k e s)) = sql_isPaused s"
  by (auto simp: claimKey_alone sql_putSignedProposal_def sql_isPaused_def sql_getKey_def
      split: option.splits sum.splits)

section \<open>The ledger the signer process wires up (index.ts)\<close>

definition replayDeps ::
  "int result \<Rightarrow> (string \<Rightarrow> AnnotatedTransaction option result) \<Rightarrow> ReplayLedgerDeps" where
  "replayDeps headMs getTransaction = \<lparr>rl_headBlockTimeMs = headMs,
     rl_releaseLanded = (\<lambda>txid. Inr (confirmReleaseByTxId getTransaction txid \<noteq> None))\<rparr>"

section \<open>Properties\<close>

text \<open>
  C8. An operator approves a peg-out, refund or fee sweep only while not paused, and only as the
  signature of one transfer: from the backing account of the action's chain, to the action's
  recipient, of the action's amount, with the action's id as the memo, for an action that its own
  source validation accepts.
\<close>

theorem release_signature_exact:
  assumes "approveHandler lc deps ks (Some r) (s, w) = (Approved a, (s', w'))"
    "actionFromWire (aq_action r) = Inr action" "act_direction action = PEG_OUT"
    "ks_accounts ks = Some ga" "ks_validateSource ks = Some (validateAction sha svd)"
  shows "\<not> sql_isPaused s \<and> validateAction sha svd action (hintFromRequest r) = Inr () \<and>
    (\<exists>chain from' tx sig. act_remoteChain action = Some chain \<and> accountFor ga chain = Inr from' \<and>
       tx_from tx = Some (JString from') \<and> tx_to tx = Some (JString (act_recipient action)) \<and>
       tx_amount tx = Some (JString (milliToViz (act_amountMilliViz action))) \<and>
       tx_memo tx = Some (JString (act_id action)) \<and>
       ks_signTx ks tx (ks_vizWif ks) = Inr sig \<and> a = approvalOf ks action sig)"
proof -
  have h: "\<not> sql_isPaused s" "signVizRelease ks action (aq_proposal r) (hintFromRequest r) = Inr a"
    using approveHandler_ok [OF assms(1)] assms(2,3) by (auto simp: routeApproval_def)
  note ok = signVizRelease_ok [OF h(2)]
  have v: "validateAction sha svd action (hintFromRequest r) = Inr ()"
    using ok(2) assms(5) by (simp add: assertSource_def)
  obtain chain from' where c: "act_remoteChain action = Some chain" "accountFor ga chain = Inr from'"
    "aq_proposal r ''from'' = Some (JString from')"
    using assertReleaseFrom_ok [OF ok(3) assms(4)] by blast
  obtain sig where g: "ks_signTx ks (buildReleaseTx (aq_proposal r)) (ks_vizWif ks) = Inr sig"
    "a = approvalOf ks action sig" using ok(7) by blast
  show ?thesis
    using h(1) v c g ok(4-6)
    by (intro conjI exI [of _ chain] exI [of _ from'] exI [of _ "buildReleaseTx (aq_proposal r)"] exI [of _ sig])
      (simp_all add: buildReleaseTx_def)
qed

definition crypto_example :: LedgerCrypto where
  "crypto_example = \<lparr>lc_sha256hex = (\<lambda>s. ''h'' @ s),
     lc_releaseTxId = (\<lambda>tx. Inr (jsString (tx_expiration tx))), lc_dateParse = (\<lambda>s. Some (int (length s)))\<rparr>"

definition keyed_example :: "unit KeyedSigner" where
  "keyed_example = \<lparr>ks_operatorId = ''op1'', ks_vizWif = ''5J'', ks_fees = fees_example, ks_solanaSecret = None,
     ks_validateSource = Some (validateAction hash_example deps_example), ks_solanaPins = None,
     ks_gramApprover = None, ks_accounts = Some \<lparr>ga_byChain = [(GRAM, ''gate.gram'')], ga_byAccount = [(''gate.gram'', GRAM)]\<rparr>,
     ks_signTx = (\<lambda>tx w. Inr (jsString (tx_expiration tx))), ks_mintMessage = (\<lambda>_. Inr ''m''),
     ks_member = (\<lambda>_. ''member''), ks_partialSign = (\<lambda>_ _. Inr ''sig'')\<rparr>"

text \<open>A release of the refund of the example deposit, as the coordinator builds it.\<close>

definition release_example :: "string \<Rightarrow> json_obj" where
  "release_example expiration = [''refBlockNum'' \<mapsto> JNumber 7, ''refBlockPrefix'' \<mapsto> JNumber 9,
     ''expiration'' \<mapsto> JString expiration, ''from'' \<mapsto> JString ''gate.gram'', ''to'' \<mapsto> JString ''alice'',
     ''amount'' \<mapsto> JString (milliToViz 24900), ''memo'' \<mapsto> JString ''ab01:3:refund'']"

definition request_example :: "json_obj \<Rightarrow> ApproveRequest" where
  "request_example p = \<lparr>aq_action = actionToWire refund_example, aq_proposal = p, aq_sourceBlockNum = None\<rparr>"

lemma refund_example_wire: "actionFromWire (actionToWire refund_example) = Inr refund_example"
  by (rule actionFromWire_actionToWire) (simp add: wellFormedAction_def refund_example_def)

lemma request_example_wire: "actionFromWire (aq_action (request_example p)) = Inr refund_example"
  by (simp add: request_example_def refund_example_wire)

lemma refund_example_fields:
  "act_direction refund_example = PEG_OUT" "act_remoteChain refund_example = Some GRAM"
  "act_id refund_example = ''ab01:3:refund''" "act_recipient refund_example = ''alice''"
  "act_amountMilliViz refund_example = 24900"
  by (simp_all add: refund_example_def)

lemma keyed_example_fields:
  "ks_validateSource keyed_example = Some (validateAction hash_example deps_example)"
  "ks_accounts keyed_example =
     Some \<lparr>ga_byChain = [(GRAM, ''gate.gram'')], ga_byAccount = [(''gate.gram'', GRAM)]\<rparr>"
  "ks_operatorId keyed_example = ''op1''" "ks_vizWif keyed_example = ''5J''"
  "ks_signTx keyed_example tx w = Inr (jsString (tx_expiration tx))"
  by (simp_all add: keyed_example_def)

text \<open>The example signer signs any object that agrees with the refund in the fields it checks.\<close>

lemma keyed_example_signs:
  assumes "p ''from'' = Some (JString ''gate.gram'')" "p ''to'' = Some (JString ''alice'')"
    "p ''amount'' = Some (JString (milliToViz 24900))" "p ''memo'' = Some (JString ''ab01:3:refund'')"
    "p ''expiration'' = Some (JString x)"
  shows "signVizRelease keyed_example refund_example p None = Inr (approvalOf keyed_example refund_example x)"
  using assms
  by (simp add: signVizRelease_def assertSource_def assertReleaseFrom_def signRelease_def throwIf_def
      refund_example_fields keyed_example_fields refund_example_ok accountFor_def buildReleaseTx_def)

definition ledger_example :: ReplayLedgerDeps where
  "ledger_example = \<lparr>rl_headBlockTimeMs = Inr 0, rl_releaseLanded = (\<lambda>_. Inr False)\<rparr>"

lemma empty_not_paused: "\<not> sql_isPaused emptySqlite"
  by (simp add: sql_isPaused_def sql_getKey_def emptySqlite_def)

lemma handler_example:
  assumes "signVizRelease keyed_example refund_example p None = Inr a"
    "proposalKey crypto_example p = Inr (k, e)"
  shows "approveHandler crypto_example ledger_example keyed_example (Some (request_example p)) (emptySqlite, ()) =
    (Approved a, (snd (sql_putSignedProposal ''ab01:3:refund'' k e None emptySqlite), ()))"
  using assms
  by (simp add: approveHandler_def request_example_def refund_example_wire empty_not_paused assertNotReplay_def
      claimKey_alone empty_claims refund_example_fields routeApproval_def hintFromRequest_def)

lemma release_example_signed:
  "signVizRelease keyed_example refund_example (release_example x) None =
     Inr (approvalOf keyed_example refund_example x)"
  by (rule keyed_example_signs) (simp_all add: release_example_def)

lemma release_example_key:
  "proposalKey crypto_example (release_example x) = Inr (vizKey x, int (length x) + 1)"
  by (simp add: proposalKey_def isSolanaMintProposal_def isGramMintProposal_def hasKey_def release_example_def
      crypto_example_def buildReleaseTx_def vizKey_def)

theorem release_signature_exact_witness:
  "\<exists>tx :: VizTransaction. tx_from tx = Some (JString ''gate.gram'') \<and> tx_to tx = Some (JString ''alice'') \<and>
     tx_amount tx = Some (JString (milliToViz 24900)) \<and> tx_memo tx = Some (JString ''ab01:3:refund'')"
  using release_signature_exact [OF handler_example [OF release_example_signed release_example_key, of "''x''"]
      request_example_wire refund_example_fields(1) keyed_example_fields(2,1)]
  by (simp add: refund_example_fields accountFor_def) blast

text \<open>
  C9. A mint is approved only for the net the operator derives itself: an approved Solana mint has
  the mint, multisig and nonce account the operator is configured with, pays the action's recipient,
  is the message the operator rebuilt, and its amount is the text of the gross less the base fee and
  the activation surcharge of the operator's own fee table, a positive number.
\<close>

theorem solana_mint_approval_exact:
  assumes "approveSolanaMint ks action p hint = Inr a" "ks_solanaPins ks = Some pins"
    "ks_validateSource ks = Some (validateAction sha svd)"
  shows "act_direction action = PEG_IN \<and> validateAction sha svd action hint = Inr () \<and>
    p ''mint'' = Some (JString (pin_mint pins)) \<and> p ''multisig'' = Some (JString (pin_multisig pins)) \<and>
    p ''nonceAccount'' = Some (JString (pin_nonceAccount pins)) \<and>
    p ''recipient'' = Some (JString (act_recipient action)) \<and>
    (\<exists>m. ks_mintMessage ks p = Inr m \<and> p ''messageB64'' = Some (JString m)) \<and>
    (\<exists>net. 0 < net \<and> p ''amountMilliViz'' = Some (JString (decInt net)) \<and>
       net = netOf (act_amountMilliViz action) (jsTruthy (p ''destProvisioned''))
               (pegInFeePolicyFor (ks_fees ks) SOLANA))"
proof -
  note ok = approveSolanaMint_ok [OF assms(1)]
  have v: "validateAction sha svd action hint = Inr ()" using ok(2) assms(3) by (simp add: assertSource_def)
  have pins: "p ''mint'' = Some (JString (pin_mint pins))" "p ''multisig'' = Some (JString (pin_multisig pins))"
    "p ''nonceAccount'' = Some (JString (pin_nonceAccount pins))"
    using ok(3) assms(2) by (auto simp: assertPins_def err_simps)
  show ?thesis using ok(1,4,6) v pins assertNet_ok [OF ok(5)] by blast
qed

definition sol_deposit_example :: VizDeposit where
  "sol_deposit_example = mintable_example\<lparr>dep_remoteChain := SOLANA\<rparr>"

definition sol_deps_example :: SourceValidatorDeps where
  "sol_deps_example = deps_example\<lparr>sv_getDeposit := (\<lambda>t i h. Inr (Some sol_deposit_example))\<rparr>"

definition sol_keyed_example :: "unit KeyedSigner" where
  "sol_keyed_example = keyed_example\<lparr>ks_solanaSecret := Some ''sk'',
     ks_validateSource := Some (validateAction hash_example sol_deps_example),
     ks_solanaPins := Some \<lparr>pin_mint = ''M'', pin_multisig = ''S'', pin_nonceAccount = ''N'', pin_feePayer = None\<rparr>\<rparr>"

definition sol_mint_example :: json_obj where
  "sol_mint_example = [''messageB64'' \<mapsto> JString ''m'', ''mint'' \<mapsto> JString ''M'', ''multisig'' \<mapsto> JString ''S'',
     ''nonceAccount'' \<mapsto> JString ''N'', ''recipient'' \<mapsto> JString (dep_remoteDestination sol_deposit_example),
     ''destProvisioned'' \<mapsto> JBool True, ''amountMilliViz'' \<mapsto> JString (decInt 15000),
     ''signers'' \<mapsto> JArray [''member'']]"

lemma sol_fields:
  "dep_amountMilliViz sol_deposit_example = 25000" "dep_remoteChain sol_deposit_example = SOLANA"
  "dep_destinationValid sol_deposit_example" "dep_trxId sol_deposit_example = ''ab01''"
  by (simp_all add: sol_deposit_example_def mintable_simps)

lemma sol_mint_example_ok:
  "approveSolanaMint sol_keyed_example (canonicalPegIn hash_example sol_deposit_example) sol_mint_example None =
     Inr (approvalOf sol_keyed_example (canonicalPegIn hash_example sol_deposit_example) ''member:sig'')"
proof -
  have v: "validateAction hash_example sol_deps_example (canonicalPegIn hash_example sol_deposit_example) None = Inr ()"
    by (rule honest_mint_accepted)
      (simp_all add: sol_deps_example_def sol_fields)
  show ?thesis
    by (simp add: approveSolanaMint_def assertSource_def assertPins_def assertNet_def signMint_def throwIf_def v
        sol_keyed_example_def keyed_example_def sol_mint_example_def Let_def baseFee_def pegInFeePolicyFor_def
        fees_example_def sol_fields)
qed

theorem solana_mint_approval_exact_witness:
  "sol_mint_example ''amountMilliViz'' = Some (JString (decInt (netOf 25000 True (pegInFeePolicyFor fees_example SOLANA))))"
proof -
  have f: "ks_solanaPins sol_keyed_example =
      Some \<lparr>pin_mint = ''M'', pin_multisig = ''S'', pin_nonceAccount = ''N'', pin_feePayer = None\<rparr>"
    "ks_validateSource sol_keyed_example = Some (validateAction hash_example sol_deps_example)"
    "ks_fees sol_keyed_example = fees_example" "sol_mint_example ''destProvisioned'' = Some (JBool True)"
    "act_amountMilliViz (canonicalPegIn hash_example sol_deposit_example) = 25000"
    by (simp_all add: sol_keyed_example_def keyed_example_def sol_mint_example_def sol_fields)
  show ?thesis
    using solana_mint_approval_exact [OF sol_mint_example_ok f(1,2)] f(3-5) by auto
qed

text \<open>
  The ledger's key and the signed effect can disagree. A peg-out proposal that also carries the
  three fields of a Solana mint is keyed by the hash of its message field alone, while the release
  that is signed is built from its VIZ fields. So once one such object has been approved, a second
  one with the same message field is approved too, at once and with the first still live, although
  its reference block and expiration, hence its transaction, may be different: the operator signs
  two live releases for one action.
\<close>

lemma hybrid_release_signed_again:
  assumes "approveHandler lc deps ks (Some r) (s, w) = (Approved a, (s1, w1))"
    "actionFromWire (aq_action r) = Inr action" "act_direction action = PEG_OUT"
    "isSolanaMintProposal (aq_proposal r)" "isSolanaMintProposal q"
    "q ''messageB64'' = aq_proposal r ''messageB64''" "q ''from'' = aq_proposal r ''from''"
    "q ''to'' = aq_proposal r ''to''" "q ''amount'' = aq_proposal r ''amount''"
    "q ''memo'' = aq_proposal r ''memo''" "ks_signTx ks (buildReleaseTx q) (ks_vizWif ks) = Inr sig"
  shows "approveHandler lc deps ks (Some (r\<lparr>aq_proposal := q\<rparr>)) (s1, w1) =
    (Approved (approvalOf ks action sig), (s1, w1))"
proof -
  from approveHandler_ok [OF assms(1)] assms(2) have h: "\<not> sql_isPaused s"
    "assertNotReplay lc deps id (act_id action) (aq_proposal r) s = (Inr (), s1)"
    "routeApproval ks action (aq_proposal r) (hintFromRequest r) w = (Inr a, w1)" by auto
  then obtain k e where k: "proposalKey lc (aq_proposal r) = Inr (k, e)"
    "claimKey deps id (act_id action) k e s = (Inr (), s1)"
    by (auto simp: assertNotReplay_def split: sum.splits)
  have kq: "proposalKey lc q = Inr (k, e)" using k(1) assms(4-6) by (simp add: proposalKey_def)
  have again: "assertNotReplay lc deps id (act_id action) q s1 = (Inr (), s1)"
    using claimKey_holds [OF k(2)] kq by (auto simp: assertNotReplay_def claimKey_def)
  have p1: "\<not> sql_isPaused s1" using h(1) claimKey_isPaused [of deps "act_id action" k e s] k(2) by simp
  have rel: "signVizRelease ks action (aq_proposal r) (hintFromRequest r) = Inr a"
    using h(3) assms(3) by (simp add: routeApproval_def)
  have wif: "ks_vizWif ks \<noteq> []" using rel by (auto simp: signVizRelease_def signRelease_def err_simps)
  have hint: "hintFromRequest (r\<lparr>aq_proposal := q\<rparr>) = hintFromRequest r" by (simp add: hintFromRequest_def)
  have "assertReleaseFrom ks action q = Inr ()"
    using signVizRelease_ok(3) [OF rel] unfolding assertReleaseFrom_def assms(7) .
  then have "signVizRelease ks action q (hintFromRequest r) = Inr (approvalOf ks action sig)"
    using signVizRelease_ok(1,2,4-6) [OF rel] assms(8-11) wif
    by (simp add: signVizRelease_def signRelease_def throwIf_def)
  then show ?thesis
    using p1 again assms(2,3) hint by (simp add: approveHandler_def routeApproval_def)
qed

definition hybrid_example :: "string \<Rightarrow> json_obj" where
  "hybrid_example x = (release_example x)(''messageB64'' \<mapsto> JString ''m'', ''mint'' \<mapsto> JString ''M'',
     ''multisig'' \<mapsto> JString ''S'')"

lemma hybrid_example_fields:
  "hybrid_example x ''from'' = Some (JString ''gate.gram'')" "hybrid_example x ''to'' = Some (JString ''alice'')"
  "hybrid_example x ''amount'' = Some (JString (milliToViz 24900))"
  "hybrid_example x ''memo'' = Some (JString ''ab01:3:refund'')"
  "hybrid_example x ''expiration'' = Some (JString x)" "hybrid_example x ''messageB64'' = Some (JString ''m'')"
  "isSolanaMintProposal (hybrid_example x)"
  by (simp_all add: hybrid_example_def release_example_def isSolanaMintProposal_def hasKey_def)

lemma hybrid_example_key: "proposalKey crypto_example (hybrid_example x) = Inr (''solana-msg:hm'', 0)"
  by (simp add: proposalKey_def hybrid_example_fields crypto_example_def)

lemma hybrid_example_signed:
  "signVizRelease keyed_example refund_example (hybrid_example x) None =
     Inr (approvalOf keyed_example refund_example x)"
  by (rule keyed_example_signs) (simp_all add: hybrid_example_fields)

text \<open>
  The ledger opens when the operator's node cannot answer: \<open>confirmReleaseByTxId\<close> turns every
  error of the transaction lookup, a time-out included, into "not landed". If the lookups fail while
  the head time is still read, an expired claim is replaced whether or not its transaction landed,
  so the same burn is signed for a second release.
\<close>

lemma lookup_error_opens_ledger:
  assumes "sql_getSignedProposal s a = Some (vizKey t, e)" "e + VIZ_EXPIRY_MARGIN_MS < headMs"
    "getTransaction t = Inl err"
  shows "\<exists>s'. claimKey (replayDeps (Inr headMs) getTransaction) id a (vizKey t') e' s = (Inr (), s') \<and>
    map_option fst (sql_getSignedProposal s' a) = Some (vizKey t')"
proof -
  have "fst (claimKey (replayDeps (Inr headMs) getTransaction) id a (vizKey t') e' s) = Inr ()"
    using assms
    by (auto simp: claimKey_alone vizKey_startsWith replayDeps_def confirmReleaseByTxId_def)
  then obtain s' where c: "claimKey (replayDeps (Inr headMs) getTransaction) id a (vizKey t') e' s = (Inr (), s')"
    by (metis prod.collapse)
  with claimKey_holds [OF c] show ?thesis by blast
qed

text \<open>
  The key is claimed before the request is validated: a mint request that is refused (a wrong
  amount, a forged source) still occupies the ledger, and every later request for that action with
  another order address is refused, the honest one included.
\<close>

lemma refused_mint_blocks_action:
  assumes "approveHandler lc deps ks (Some r) (s, w) = (Refused c m, (s1, w1))" "\<not> sql_isPaused s"
    "actionFromWire (aq_action r) = Inr action" "sql_getSignedProposal s (act_id action) = None"
    "\<not> isSolanaMintProposal (aq_proposal r)" "isGramMintProposal (aq_proposal r)"
    "\<not> isSolanaMintProposal (aq_proposal r')" "isGramMintProposal (aq_proposal r')"
    "actionFromWire (aq_action r') = Inr action"
    "jsString (aq_proposal r ''orderAddr'') \<noteq> jsString (aq_proposal r' ''orderAddr'')"
  shows "\<exists>m'. approveHandler lc deps ks (Some r') (s1, w1) = (Refused 500 m', (s1, w1))"
proof -
  let ?k = "\<lambda>q. ''gram-order:'' @ jsString (aq_proposal q ''orderAddr'')"
  have key: "proposalKey lc (aq_proposal r) = Inr (?k r, 0)" "proposalKey lc (aq_proposal r') = Inr (?k r', 0)"
    using assms(5-8) by (simp_all add: proposalKey_def)
  let ?s1 = "snd (sql_putSignedProposal (act_id action) (?k r) 0 None s)"
  have an: "assertNotReplay lc deps id (act_id action) (aq_proposal r) s = (Inr (), ?s1)"
    using assms(4) by (simp add: assertNotReplay_def key claimKey_alone)
  then have s1: "s1 = ?s1"
    using assms(1-3) by (auto simp: approveHandler_def split: sum.splits prod.splits)
  have get: "sql_getSignedProposal s1 (act_id action) = Some (?k r, 0)"
    using assms(4) by (simp add: s1 claim_reads)
  have viz: "\<not> startsWith (''gram-order:'' @ x) VIZ_KEY_PREFIX" for x
    by (simp add: startsWith_def VIZ_KEY_PREFIX_def)
  have "\<exists>e. assertNotReplay lc deps id (act_id action) (aq_proposal r') s1 = (Inl e, s1)"
    using get assms(10) viz by (simp add: assertNotReplay_def key claimKey_alone)
  moreover have "\<not> sql_isPaused s1"
    using assms(2) claimKey_isPaused [of deps "act_id action" "?k r" 0 s] an
    by (simp add: assertNotReplay_def key s1)
  ultimately show ?thesis using assms(9) by (auto simp: approveHandler_def)
qed

definition mint_request_example :: "string \<Rightarrow> int \<Rightarrow> ApproveRequest" where
  "mint_request_example addr amt = \<lparr>aq_action = actionToWire (canonicalPegIn hash_example mintable_example),
     aq_proposal = [''orderHashHex'' \<mapsto> JString ''00'', ''orderAddr'' \<mapsto> JString addr,
       ''toAddress'' \<mapsto> JString (dep_remoteDestination mintable_example), ''destProvisioned'' \<mapsto> JBool True,
       ''amountMilliViz'' \<mapsto> JString (decInt amt)],
     aq_sourceBlockNum = None\<rparr>"

lemma mint_request_example_fields:
  "actionFromWire (aq_action (mint_request_example x n)) = Inr (canonicalPegIn hash_example mintable_example)"
  "\<not> isSolanaMintProposal (aq_proposal (mint_request_example x n))"
  "isGramMintProposal (aq_proposal (mint_request_example x n))"
  "jsString (aq_proposal (mint_request_example x n) ''orderAddr'') = x"
  by (simp_all add: mint_request_example_def actionFromWire_actionToWire wellFormedAction_def mintable_simps
      isSolanaMintProposal_def isGramMintProposal_def hasKey_def)

lemma mint_request_example_refused:
  "\<exists>m s1. approveHandler crypto_example ledger_example keyed_example (Some (mint_request_example ''EQ1'' 25000))
     (emptySqlite, ()) = (Refused 500 m, (s1, ()))"
proof -
  let ?r = "mint_request_example ''EQ1'' 25000" and ?a = "canonicalPegIn hash_example mintable_example"
  let ?x = "routeApproval keyed_example ?a (aq_proposal ?r) (hintFromRequest ?r) ()"
  have ne: "fst ?x \<noteq> Inr x" for x
    by (auto simp: routeApproval_def mint_request_example_fields approveGramMint_def callApprover_def
        keyed_example_def split: sum.splits)
  obtain e where "?x = (Inl e, ())"
  proof (cases "fst ?x")
    case (Inl e)
    then have "?x = (Inl e, ())" by (intro prod_eqI) simp_all
    then show thesis by (rule that)
  qed (use ne in blast)
  then show ?thesis
    by (simp add: approveHandler_def empty_not_paused mint_request_example_fields assertNotReplay_def
        proposalKey_def claimKey_alone empty_claims)
qed

end
