(* ===== verification/Broadcasters.thy ===== *)
theory Broadcasters
  imports Orchestrator StoreSqlite Fees VizChain GramChain KeyedSigner
begin

text \<open>
  The collaborators of the orchestrator: \<open>packages/coordinator/src/adapters.ts\<close> and the reads of
  \<open>vizChain.ts\<close> and \<open>gramChain.ts\<close> it drives. A world holds the coordinator's store, the bodies
  \<open>VizReleaseBroadcaster\<close> has pinned, the sticky TON endpoint of \<open>GramHttpChain\<close>, and everything
  outside the process as \<open>'x\<close>: nodes, chains, the other services, the clock. The RPC clients, the
  codecs of the chain libraries, \<open>Date\<close> parsing and printing and \<open>fetch\<close> are parameters that act
  on \<open>'x\<close>; a VIZ call includes its failover.
\<close>

section \<open>The world\<close>

record 'x Clock =
  ck_now :: "'x \<Rightarrow> int"
  ck_sleep :: "int \<Rightarrow> 'x \<Rightarrow> 'x"

record 'x CoordWorld =
  cw_store :: SqliteStore
  cw_pinned :: "string \<rightharpoonup> VizReleaseProposal"
  cw_tonIdx :: nat
  cw_ext :: 'x

definition rowTxid :: "'x CoordWorld \<Rightarrow> string \<Rightarrow> string option" where
  "rowTxid w k = (case sql_get (cw_store w) k of None \<Rightarrow> None
     | Some r \<Rightarrow> (case ob_txid r of None \<Rightarrow> None | Some t \<Rightarrow> if t = [] then None else Some t))"

definition pinTxid :: "'x Clock \<Rightarrow> string \<Rightarrow> string \<Rightarrow> 'x CoordWorld \<Rightarrow> 'x CoordWorld" where
  "pinTxid ck k txid w =
     w\<lparr>cw_store := sql_setStatus k BROADCAST (noPatch\<lparr>pt_txid := Some (Some txid)\<rparr>) (ck_now ck (cw_ext w)) (cw_store w)\<rparr>"

section \<open>HttpSignerClient\<close>

text \<open>A reply: its status, what \<open>text()\<close> and what \<open>json()\<close> give.\<close>

datatype FetchReply = FetchFailed js_error | SignerReply nat "string result" "Approval result"

record HttpSigner =
  hs_operatorId :: string
  hs_endpoint :: string
  hs_pegInTimeoutMs :: int
  hs_pegOutTimeoutMs :: int

type_synonym 'x fetch = "string \<Rightarrow> ApproveRequest \<Rightarrow> int \<Rightarrow> 'x \<Rightarrow> FetchReply \<times> 'x"

definition approveUrl :: "string \<Rightarrow> string" where
  "approveUrl endpoint = (if endsWith endpoint ''/'' then sliceEnd endpoint 1 else endpoint) @ ''/approve''"

definition approveBody :: "CanonicalAction \<Rightarrow> json_obj \<Rightarrow> SourceHint option \<Rightarrow> ApproveRequest" where
  "approveBody action proposal hint = \<lparr>aq_action = actionToWire action, aq_proposal = proposal,
     aq_sourceBlockNum = (case hint of None \<Rightarrow> None | Some h \<Rightarrow> map_option (\<lambda>n. JNumber (int n)) (hint_sourceBlockNum h))\<rparr>"

definition approveReply :: "string \<Rightarrow> FetchReply \<Rightarrow> Approval result" where
  "approveReply endpoint reply =
     (case reply of
        FetchFailed e \<Rightarrow> Inl e
      | SignerReply status txt body \<Rightarrow>
          if status = 423 then Inl (GenericError (''signer '' @ endpoint @ '' is paused''))
          else if \<not> (200 \<le> status \<and> status < 300)
          then let detail = (case txt of Inl _ \<Rightarrow> [] | Inr t \<Rightarrow> t)
               in Inl (GenericError (''signer '' @ endpoint @ '' -> HTTP '' @ decNat status @
                    (if detail = [] then [] else '': '' @ detail)))
          else body)"

definition httpApprove ::
  "'x fetch \<Rightarrow> HttpSigner \<Rightarrow> CanonicalAction \<Rightarrow> json_obj \<Rightarrow> SourceHint option \<Rightarrow> 'x \<Rightarrow> Approval result \<times> 'x" where
  "httpApprove fetch hs action proposal hint x =
     (let timeoutMs = (if act_direction action = PEG_IN then hs_pegInTimeoutMs hs else hs_pegOutTimeoutMs hs)
      in (case fetch (approveUrl (hs_endpoint hs)) (approveBody action proposal hint) timeoutMs x of
            (reply, x') \<Rightarrow> (approveReply (hs_endpoint hs) reply, x')))"

text \<open>The client as the orchestrator's collaborator; \<open>toJson\<close> is the proposal as JSON sends it.\<close>

definition httpSignerClient ::
  "'x fetch \<Rightarrow> ('p \<Rightarrow> json_obj) \<Rightarrow> HttpSigner \<Rightarrow> ('p, 'x CoordWorld) SignerClient" where
  "httpSignerClient fetch toJson hs = \<lparr>sc_operatorId = hs_operatorId hs,
     sc_approve = (\<lambda>action p hint w.
       case httpApprove fetch hs action (toJson p) hint (cw_ext w) of (r, x') \<Rightarrow> (r, w\<lparr>cw_ext := x'\<rparr>))\<rparr>"

section \<open>VizReleaseBroadcaster\<close>

record 'x VizRpc =
  vr_globalProps :: "'x \<Rightarrow> (nat \<times> string) result \<times> 'x"
  vr_getAccount :: "string \<Rightarrow> 'x \<Rightarrow> VizAccount option result \<times> 'x"
  vr_getTransaction :: "string \<Rightarrow> 'x \<Rightarrow> AnnotatedTransaction option result \<times> 'x"
  vr_broadcastTransaction :: "VizReleaseProposal \<Rightarrow> string list \<Rightarrow> 'x \<Rightarrow> unit result \<times> 'x"
  vr_toISOString :: "int \<Rightarrow> string"
  vr_dateParse :: "string \<Rightarrow> int option"
  vr_releaseTxId :: "VizReleaseProposal \<Rightarrow> string"
  vr_recover :: "VizReleaseProposal \<Rightarrow> string \<Rightarrow> string result"

definition hexDigitVal :: "char \<Rightarrow> nat" where
  "hexDigitVal c = (if isDigit c then digitVal c else if of_char c \<ge> (97 :: nat) then of_char c - 87 else of_char c - 55)"

text \<open>\<open>Buffer.from(s, "hex")\<close> stops at the first pair that is not hexadecimal.\<close>

fun hexBytes :: "string \<Rightarrow> nat list" where
  "hexBytes (a # b # s) =
     (if isHexDigit a \<and> isHexDigit b then (16 * hexDigitVal a + hexDigitVal b) # hexBytes s else [])"
| "hexBytes _ = []"

definition readUInt32LE4 :: "nat list \<Rightarrow> nat result" where
  "readUInt32LE4 bs =
     (if length bs < 8 then Inl (GenericError ''RangeError [ERR_OUT_OF_RANGE]'')
      else Inr (bs ! 4 + 256 * bs ! 5 + 65536 * bs ! 6 + 16777216 * bs ! 7))"

definition buildReleaseCall ::
  "'x Clock \<Rightarrow> 'x VizRpc \<Rightarrow> CanonicalAction \<Rightarrow> string \<Rightarrow> 'x \<Rightarrow> VizReleaseProposal result \<times> 'x" where
  "buildReleaseCall ck rpc action gatewayAccount x =
     (case vr_globalProps rpc x of
        (Inl e, x1) \<Rightarrow> (Inl e, x1)
      | (Inr (headBlockNumber, headBlockId), x1) \<Rightarrow>
          (bindE (readUInt32LE4 (hexBytes headBlockId)) (\<lambda>prefix.
             Inr (buildReleaseProposal action gatewayAccount headBlockNumber prefix
               (take 19 (vr_toISOString rpc (ck_now ck x1 + 600000))))), x1))"

definition RELEASE_REUSE_MIN_REMAINING_MS :: int where
  "RELEASE_REUSE_MIN_REMAINING_MS = 90000"

text \<open>An unparseable expiration is \<open>NaN\<close>, and no comparison with it holds.\<close>

definition reusable :: "'x Clock \<Rightarrow> 'x VizRpc \<Rightarrow> VizReleaseProposal \<Rightarrow> 'x \<Rightarrow> bool" where
  "reusable ck rpc prev x \<longleftrightarrow> (case vr_dateParse rpc (vp_expiration prev @ ''Z'') of
       None \<Rightarrow> False | Some ms \<Rightarrow> ms - ck_now ck x > RELEASE_REUSE_MIN_REMAINING_MS)"

definition buildAndPin ::
  "'x Clock \<Rightarrow> 'x VizRpc \<Rightarrow> CanonicalAction \<Rightarrow> string \<Rightarrow> 'x CoordWorld \<Rightarrow>
   VizReleaseProposal BuildResult result \<times> 'x CoordWorld" where
  "buildAndPin ck rpc action from' w =
     (case buildReleaseCall ck rpc action from' (cw_ext w) of
        (Inl e, x1) \<Rightarrow> (Inl e, w\<lparr>cw_ext := x1\<rparr>)
      | (Inr p, x1) \<Rightarrow> (Inr \<lparr>br_proposal = p, br_feeMilliViz = 0\<rparr>,
          w\<lparr>cw_pinned := (cw_pinned w)(act_id action \<mapsto> p), cw_ext := x1\<rparr>))"

definition vizBuildProposal ::
  "'x Clock \<Rightarrow> 'x VizRpc \<Rightarrow> GatewayAccounts \<Rightarrow> CanonicalAction \<Rightarrow> 'x CoordWorld \<Rightarrow>
   VizReleaseProposal BuildResult result \<times> 'x CoordWorld" where
  "vizBuildProposal ck rpc accounts action w =
     (case act_remoteChain action of
        None \<Rightarrow> (Inl (GenericError (''release '' @ act_id action @ '' missing remoteChain'')), w)
      | Some chain \<Rightarrow>
          if chainString chain = [] then (Inl (GenericError (''release '' @ act_id action @ '' missing remoteChain'')), w)
          else (case accountFor accounts chain of
              Inl e \<Rightarrow> (Inl e, w)
            | Inr from' \<Rightarrow>
                (case cw_pinned w (act_id action) of
                   Some prev \<Rightarrow>
                     if reusable ck rpc prev (cw_ext w)
                     then (Inr \<lparr>br_proposal = prev, br_feeMilliViz = 0\<rparr>, w)
                     else buildAndPin ck rpc action from' w
                 | None \<Rightarrow> buildAndPin ck rpc action from' w)))"

definition confirmCall :: "'x VizRpc \<Rightarrow> string \<Rightarrow> 'x \<Rightarrow> string option \<times> 'x" where
  "confirmCall rpc txid x =
     (if txid = [] then (None, x)
      else (case vr_getTransaction rpc txid x of (r, x1) \<Rightarrow> (confirmReleaseByTxId (\<lambda>_. r) txid, x1)))"

definition RELEASE_CONFIRM_INTERVAL_MS :: int where
  "RELEASE_CONFIRM_INTERVAL_MS = 3000"

fun confirmPolls :: "'x Clock \<Rightarrow> 'x VizRpc \<Rightarrow> string \<Rightarrow> nat \<Rightarrow> 'x \<Rightarrow> bool \<times> 'x" where
  "confirmPolls ck rpc txid 0 x = (False, x)"
| "confirmPolls ck rpc txid (Suc n) x =
     (case confirmCall rpc txid (ck_sleep ck RELEASE_CONFIRM_INTERVAL_MS x) of
        (Some _, x1) \<Rightarrow> (True, x1)
      | (None, x1) \<Rightarrow> confirmPolls ck rpc txid n x1)"

definition notConfirmed :: "string \<Rightarrow> unit result \<Rightarrow> js_error" where
  "notConfirmed txid sendR = GenericError (''viz release '' @ txid @ '' not confirmed after 60s'' @
     (case sendR of Inl e \<Rightarrow> '' (broadcast error: '' @ error_text e @ '')'' | Inr _ \<Rightarrow> []))"

definition broadcastReleaseCall ::
  "'x Clock \<Rightarrow> 'x VizRpc \<Rightarrow> VizReleaseProposal \<Rightarrow> string list \<Rightarrow> 'x \<Rightarrow> string result \<times> 'x" where
  "broadcastReleaseCall ck rpc p signatures x =
     (if signatures = [] then (Inl (GenericError ''no signatures to broadcast''), x)
      else (case vr_getAccount rpc (vp_from p) x of (reply, x1) \<Rightarrow>
        (case activeAuthority reply of
           Inl e \<Rightarrow> (Inl e, x1)
         | Inr auth \<Rightarrow>
             (case selectAuthoritySignatures (vr_recover rpc p) signatures auth of
                Inl e \<Rightarrow> (Inl e, x1)
              | Inr chosen \<Rightarrow>
                  let txid = vr_releaseTxId rpc p
                  in (case vr_broadcastTransaction rpc p chosen x1 of (sendR, x2) \<Rightarrow>
                       (case confirmPolls ck rpc txid RELEASE_CONFIRM_POLLS x2 of
                          (True, x3) \<Rightarrow> (Inr txid, x3)
                        | (False, x3) \<Rightarrow> (Inl (notConfirmed txid sendR), x3)))))))"

definition vizBroadcast ::
  "'x Clock \<Rightarrow> 'x VizRpc \<Rightarrow> CanonicalAction \<Rightarrow> VizReleaseProposal \<Rightarrow> string list \<Rightarrow> 'x CoordWorld \<Rightarrow>
   string result \<times> 'x CoordWorld" where
  "vizBroadcast ck rpc action p signatures w =
     (let txid = vr_releaseTxId rpc p;
          w1 = pinTxid ck (act_id action) txid w
      in (case broadcastReleaseCall ck rpc p signatures (cw_ext w1) of
            (Inl e, x2) \<Rightarrow> (Inl e, w1\<lparr>cw_ext := x2\<rparr>)
          | (Inr sent, x2) \<Rightarrow>
              (Inr (if sent = [] then txid else sent),
               w1\<lparr>cw_pinned := (cw_pinned w1)(act_id action := None), cw_ext := x2\<rparr>)))"

definition vizActionExecuted ::
  "'x VizRpc \<Rightarrow> CanonicalAction \<Rightarrow> 'x CoordWorld \<Rightarrow> (bool \<times> string option) result \<times> 'x CoordWorld" where
  "vizActionExecuted rpc action w =
     (case rowTxid w (act_id action) of
        None \<Rightarrow> (Inr (False, None), w)
      | Some txid \<Rightarrow>
          (case confirmCall rpc txid (cw_ext w) of (found, x1) \<Rightarrow>
            (Inr (found \<noteq> None, found), w\<lparr>cw_ext := x1\<rparr>)))"

definition vizReleaseBroadcaster ::
  "'x Clock \<Rightarrow> 'x VizRpc \<Rightarrow> GatewayAccounts \<Rightarrow> (VizReleaseProposal, 'x CoordWorld) Broadcaster" where
  "vizReleaseBroadcaster ck rpc accounts = \<lparr>bc_buildProposal = vizBuildProposal ck rpc accounts,
     bc_broadcast = vizBroadcast ck rpc, bc_actionExecuted = vizActionExecuted rpc\<rparr>"

section \<open>GramMintBroadcaster and GramReturnBroadcaster\<close>

text \<open>
  A read takes the endpoint and the attempt it is made at; \<open>tn_elapse\<close> is the world after a call. \<open>tn_mintOrderHash\<close> and \<open>tn_returnOrderHash\<close> are the hashes of the order cells.
\<close>

record 'x TonRpc =
  tn_clients :: nat
  tn_transient :: "js_error \<Rightarrow> bool"
  tn_elapse :: "'x \<Rightarrow> 'x"
  tn_parseAddress :: "string \<Rightarrow> unit result"
  tn_state :: "nat \<Rightarrow> nat \<Rightarrow> string \<Rightarrow> 'x \<Rightarrow> string result"
  tn_order :: "nat \<Rightarrow> nat \<Rightarrow> string \<Rightarrow> 'x \<Rightarrow> RawOrder result"
  tn_walletOf :: "nat \<Rightarrow> nat \<Rightarrow> string \<Rightarrow> 'x \<Rightarrow> string result"
  tn_nextOrderSeqno :: "nat \<Rightarrow> nat \<Rightarrow> 'x \<Rightarrow> nat result"
  tn_orderAddress :: "nat \<Rightarrow> nat \<Rightarrow> nat \<Rightarrow> 'x \<Rightarrow> string result"
  tn_mintOrderHash :: "string \<Rightarrow> int \<Rightarrow> string result"
  tn_returnOrderHash :: "string \<Rightarrow> int \<Rightarrow> string result"
  tn_multisigAddress :: string

definition tonRead ::
  "'x TonRpc \<Rightarrow> (nat \<Rightarrow> nat \<Rightarrow> 'x \<Rightarrow> 'a result) \<Rightarrow> 'x CoordWorld \<Rightarrow> 'a result \<times> 'x CoordWorld" where
  "tonRead tn f w =
     (case tonCall (tn_transient tn) (tn_clients tn) (\<lambda>i a. f i a (cw_ext w)) (cw_tonIdx w) 1 of
        (r, i) \<Rightarrow> (r, w\<lparr>cw_tonIdx := i, cw_ext := tn_elapse tn (cw_ext w)\<rparr>))"

definition isDestinationProvisioned :: "'x TonRpc \<Rightarrow> string \<Rightarrow> 'x CoordWorld \<Rightarrow> bool result \<times> 'x CoordWorld" where
  "isDestinationProvisioned tn recipient =
     tonRead tn (\<lambda>i a x. bindE (tn_walletOf tn i a recipient x) (\<lambda>wallet.
       bindE (tn_state tn i a wallet x) (\<lambda>st. Inr (st = ''active''))))"

definition nextOrderAddress :: "'x TonRpc \<Rightarrow> 'x CoordWorld \<Rightarrow> (string \<times> string) result \<times> 'x CoordWorld" where
  "nextOrderAddress tn w =
     (if tn_multisigAddress tn = [] then (Inl (GenericError ''GRAM_MULTISIG_ADDRESS is required for nextOrderAddress''), w)
      else tonRead tn (\<lambda>i a x. bindE (tn_nextOrderSeqno tn i a x) (\<lambda>n.
             bindE (tn_orderAddress tn i a n x) (\<lambda>addr. Inr (addr, decNat n)))) w)"

definition orderExecuted :: "'x TonRpc \<Rightarrow> string \<Rightarrow> 'x CoordWorld \<Rightarrow> bool result \<times> 'x CoordWorld" where
  "orderExecuted tn orderAddr w =
     (case tn_parseAddress tn orderAddr of
        Inl e \<Rightarrow> (Inl e, w)
      | Inr _ \<Rightarrow> tonRead tn (\<lambda>i a x. orderExecutedOnce (tn_state tn i a orderAddr x) (tn_order tn i a orderAddr x)) w)"

text \<open>The order an action is bound to: the address already pinned, or the next one, pinned now.\<close>

definition pinOrder :: "'x Clock \<Rightarrow> 'x TonRpc \<Rightarrow> string \<Rightarrow> 'x CoordWorld \<Rightarrow> (string \<times> string) result \<times> 'x CoordWorld" where
  "pinOrder ck tn k w =
     (case rowTxid w k of
        Some t \<Rightarrow> (Inr (t, []), w)
      | None \<Rightarrow> (case nextOrderAddress tn w of
          (Inl e, w1) \<Rightarrow> (Inl e, w1)
        | (Inr (addr, seqno), w1) \<Rightarrow> (Inr (addr, seqno), pinTxid ck k addr w1)))"

definition belowMinimum :: "string \<Rightarrow> int \<Rightarrow> js_error" where
  "belowMinimum k m = GenericError (''PEG_IN '' @ k @ '' below minimum (refund): need >= '' @ decInt m @ '' mVIZ'')"

definition orderProposal :: "CanonicalAction \<Rightarrow> int \<Rightarrow> bool \<Rightarrow> string \<Rightarrow> string \<times> string \<Rightarrow> GramMintProposal" where
  "orderProposal action amount prov hash o' =
     \<lparr>gp_orderSeqno = snd o', gp_orderAddr = fst o', gp_toAddress = act_recipient action,
      gp_amountMilliViz = decInt amount, gp_destProvisioned = prov, gp_orderHashHex = hash,
      gp_actionId = act_id action\<rparr>"

definition gramMintBuild ::
  "'x Clock \<Rightarrow> 'x TonRpc \<Rightarrow> PegInFeePolicy \<Rightarrow> CanonicalAction \<Rightarrow> 'x CoordWorld \<Rightarrow>
   GramMintProposal BuildResult result \<times> 'x CoordWorld" where
  "gramMintBuild ck tn policy action w =
     (case isDestinationProvisioned tn (act_recipient action) w of
        (Inl e, w1) \<Rightarrow> (Inl e, w1)
      | (Inr prov, w1) \<Rightarrow>
          (case quotePegIn (act_amountMilliViz action) prov policy of
             BelowMin m \<Rightarrow> (Inl (belowMinimum (act_id action) m), w1)
           | QuoteOk b \<Rightarrow>
               (case tn_mintOrderHash tn (act_recipient action) (bd_net b) of
                  Inl e \<Rightarrow> (Inl e, w1)
                | Inr hash \<Rightarrow>
                    (case pinOrder ck tn (act_id action) w1 of
                       (Inl e, w2) \<Rightarrow> (Inl e, w2)
                     | (Inr o', w2) \<Rightarrow>
                         (Inr \<lparr>br_proposal = orderProposal action (bd_net b) prov hash o', br_feeMilliViz = bd_fee b\<rparr>, w2)))))"

definition gramReturnBuild ::
  "'x Clock \<Rightarrow> 'x TonRpc \<Rightarrow> CanonicalAction \<Rightarrow> 'x CoordWorld \<Rightarrow> GramMintProposal BuildResult result \<times> 'x CoordWorld" where
  "gramReturnBuild ck tn action w =
     (case tn_returnOrderHash tn (act_recipient action) (act_amountMilliViz action) of
        Inl e \<Rightarrow> (Inl e, w)
      | Inr hash \<Rightarrow>
          (case pinOrder ck tn (act_id action) w of
             (Inl e, w1) \<Rightarrow> (Inl e, w1)
           | (Inr o', w1) \<Rightarrow>
               (Inr \<lparr>br_proposal = orderProposal action (act_amountMilliViz action) False hash o', br_feeMilliViz = 0\<rparr>, w1)))"

definition GRAM_EXECUTE_POLL_MAX_MS :: int where "GRAM_EXECUTE_POLL_MAX_MS = 90000"

definition GRAM_EXECUTE_POLL_INTERVAL_MS :: int where "GRAM_EXECUTE_POLL_INTERVAL_MS = 3000"

text \<open>
  The wait for the order, with fuel; \<open>gramWait_returns\<close> shows that 31 rounds are enough when a sleep
  lasts as long as it is asked to.
\<close>

definition waitFuel :: nat where "waitFuel = 31"

fun gramWait ::
  "'x Clock \<Rightarrow> 'x TonRpc \<Rightarrow> js_error \<Rightarrow> string \<Rightarrow> int \<Rightarrow> nat \<Rightarrow> 'x CoordWorld \<Rightarrow> (string result \<times> 'x CoordWorld) option" where
  "gramWait ck tn late orderAddr deadline 0 w = None"
| "gramWait ck tn late orderAddr deadline (Suc n) w =
     (case orderExecuted tn orderAddr w of
        (Inl e, w1) \<Rightarrow> Some (Inl e, w1)
      | (Inr True, w1) \<Rightarrow> Some (Inr orderAddr, w1)
      | (Inr False, w1) \<Rightarrow>
          if ck_now ck (cw_ext w1) \<ge> deadline then Some (Inl late, w1)
          else gramWait ck tn late orderAddr deadline n
                 (w1\<lparr>cw_ext := ck_sleep ck GRAM_EXECUTE_POLL_INTERVAL_MS (cw_ext w1)\<rparr>))"

definition lateMint :: "string \<Rightarrow> string \<Rightarrow> js_error" where
  "lateMint orderAddr k = GenericError (''GRAM order '' @ orderAddr @ '' for '' @ k @
     '' not executed within 90000ms (approvals below threshold?)'')"

definition lateReturn :: "string \<Rightarrow> string \<Rightarrow> js_error" where
  "lateReturn orderAddr k = GenericError (''GRAM return order '' @ orderAddr @ '' for '' @ k @
     '' not executed in time (approvals below threshold?)'')"

definition gramBroadcast ::
  "'x Clock \<Rightarrow> 'x TonRpc \<Rightarrow> (string \<Rightarrow> string \<Rightarrow> js_error) \<Rightarrow> CanonicalAction \<Rightarrow> GramMintProposal \<Rightarrow> string list \<Rightarrow>
   'x CoordWorld \<Rightarrow> string result \<times> 'x CoordWorld" where
  "gramBroadcast ck tn late action p signatures w =
     (let orderAddr = gp_orderAddr p
      in (case gramWait ck tn (late orderAddr (act_id action)) orderAddr
                 (ck_now ck (cw_ext w) + GRAM_EXECUTE_POLL_MAX_MS) waitFuel w of
            None \<Rightarrow> (Inl (GenericError ''still waiting''), w)
          | Some r \<Rightarrow> r))"

definition gramActionExecuted ::
  "'x TonRpc \<Rightarrow> CanonicalAction \<Rightarrow> 'x CoordWorld \<Rightarrow> (bool \<times> string option) result \<times> 'x CoordWorld" where
  "gramActionExecuted tn action w =
     (case rowTxid w (act_id action) of
        None \<Rightarrow> (Inr (False, None), w)
      | Some txid \<Rightarrow>
          (case orderExecuted tn txid w of
             (Inl e, w1) \<Rightarrow> (Inl e, w1)
           | (Inr executed, w1) \<Rightarrow> (Inr (executed, if executed then Some txid else None), w1)))"

definition gramMintBroadcaster ::
  "'x Clock \<Rightarrow> 'x TonRpc \<Rightarrow> PegInFeePolicy \<Rightarrow> (GramMintProposal, 'x CoordWorld) Broadcaster" where
  "gramMintBroadcaster ck tn policy = \<lparr>bc_buildProposal = gramMintBuild ck tn policy,
     bc_broadcast = gramBroadcast ck tn lateMint, bc_actionExecuted = gramActionExecuted tn\<rparr>"

definition gramReturnBroadcaster :: "'x Clock \<Rightarrow> 'x TonRpc \<Rightarrow> (GramMintProposal, 'x CoordWorld) Broadcaster" where
  "gramReturnBroadcaster ck tn = \<lparr>bc_buildProposal = gramReturnBuild ck tn,
     bc_broadcast = gramBroadcast ck tn lateReturn, bc_actionExecuted = gramActionExecuted tn\<rparr>"

section \<open>SolanaMintBroadcaster\<close>

text \<open>The chain client is the constructor's argument.\<close>

record 'x SolanaClient =
  so_isDestinationProvisioned :: "string \<Rightarrow> 'x \<Rightarrow> bool result \<times> 'x"
  so_buildMintProposal :: "string \<Rightarrow> int \<Rightarrow> bool \<Rightarrow> string list \<Rightarrow> string \<Rightarrow> 'x \<Rightarrow> SolanaMintProposal result \<times> 'x"
  so_submitMint :: "SolanaMintProposal \<Rightarrow> string list \<Rightarrow> 'x \<Rightarrow> string result \<times> 'x"
  so_mintByActionId :: "string \<Rightarrow> 'x \<Rightarrow> string option result \<times> 'x"

definition solanaBuild ::
  "'x SolanaClient \<Rightarrow> string list \<Rightarrow> GatewayFeeConfig \<Rightarrow> CanonicalAction \<Rightarrow> 'x CoordWorld \<Rightarrow>
   SolanaMintProposal BuildResult result \<times> 'x CoordWorld" where
  "solanaBuild so signerSet fees action w =
     (case so_isDestinationProvisioned so (act_recipient action) (cw_ext w) of
        (Inl e, x1) \<Rightarrow> (Inl e, w\<lparr>cw_ext := x1\<rparr>)
      | (Inr prov, x1) \<Rightarrow>
          (case quotePegIn (act_amountMilliViz action) prov (pegInFeePolicyFor fees SOLANA) of
             BelowMin m \<Rightarrow> (Inl (belowMinimum (act_id action) m), w\<lparr>cw_ext := x1\<rparr>)
           | QuoteOk b \<Rightarrow>
               (case so_buildMintProposal so (act_recipient action) (bd_net b) prov signerSet (act_id action) x1 of
                  (Inl e, x2) \<Rightarrow> (Inl e, w\<lparr>cw_ext := x2\<rparr>)
                | (Inr p, x2) \<Rightarrow> (Inr \<lparr>br_proposal = p, br_feeMilliViz = bd_fee b\<rparr>, w\<lparr>cw_ext := x2\<rparr>))))"

definition solanaBroadcast ::
  "'x SolanaClient \<Rightarrow> CanonicalAction \<Rightarrow> SolanaMintProposal \<Rightarrow> string list \<Rightarrow> 'x CoordWorld \<Rightarrow> string result \<times> 'x CoordWorld" where
  "solanaBroadcast so action p signatures w =
     (case so_submitMint so p signatures (cw_ext w) of (r, x1) \<Rightarrow> (r, w\<lparr>cw_ext := x1\<rparr>))"

definition solanaActionExecuted ::
  "'x SolanaClient \<Rightarrow> CanonicalAction \<Rightarrow> 'x CoordWorld \<Rightarrow> (bool \<times> string option) result \<times> 'x CoordWorld" where
  "solanaActionExecuted so action w =
     (case rowTxid w (act_id action) of
        Some t \<Rightarrow> (Inr (True, Some t), w)
      | None \<Rightarrow>
          (case sql_get (cw_store w) (act_id action) of
             None \<Rightarrow> (Inr (False, None), w)
           | Some rec \<Rightarrow>
               if ob_attempts rec = 0 then (Inr (False, None), w)
               else (case so_mintByActionId so (act_id action) (cw_ext w) of
                   (Inl e, x1) \<Rightarrow> (Inl e, w\<lparr>cw_ext := x1\<rparr>)
                 | (Inr found, x1) \<Rightarrow> (Inr (found \<noteq> None, found), w\<lparr>cw_ext := x1\<rparr>))))"

definition solanaMintBroadcaster ::
  "'x SolanaClient \<Rightarrow> string list \<Rightarrow> GatewayFeeConfig \<Rightarrow> (SolanaMintProposal, 'x CoordWorld) Broadcaster" where
  "solanaMintBroadcaster so signerSet fees = \<lparr>bc_buildProposal = solanaBuild so signerSet fees,
     bc_broadcast = solanaBroadcast so, bc_actionExecuted = solanaActionExecuted so\<rparr>"

section \<open>Pins and their order\<close>

declare sql_get_setStatus [simp]

lemma pinTxid_reads [simp]:
  "cw_ext (pinTxid ck k t w) = cw_ext w" "cw_pinned (pinTxid ck k t w) = cw_pinned w"
  "sql_get (cw_store (pinTxid ck k t w)) k' =
     (if k' = k then map_option (applyStatus BROADCAST (noPatch\<lparr>pt_txid := Some (Some t)\<rparr>) (ck_now ck (cw_ext w))) (sql_get (cw_store w) k)
      else sql_get (cw_store w) k')"
  by (simp_all add: pinTxid_def)

lemma rowTxid_pinTxid:
  "sql_get (cw_store w) k \<noteq> None \<Longrightarrow> t \<noteq> [] \<Longrightarrow>
     rowTxid (pinTxid ck k t w) k' = (if k' = k then Some t else rowTxid w k')"
  by (auto simp: rowTxid_def noPatch_def)

lemma rowTxid_SomeD: "rowTxid w k = Some t \<Longrightarrow> \<exists>r. sql_get (cw_store w) k = Some r \<and> ob_txid r = Some t \<and> t \<noteq> []"
  by (auto simp: rowTxid_def split: option.splits if_splits)

lemma rowTxid_cong: "cw_store w' = cw_store w \<Longrightarrow> rowTxid w' = rowTxid w"
  by (simp add: rowTxid_def fun_eq_iff)

lemma tonRead_frame [simp]:
  "cw_store (snd (tonRead tn f w)) = cw_store w" "cw_pinned (snd (tonRead tn f w)) = cw_pinned w"
  by (simp_all add: tonRead_def split: prod.split)

lemma tonRead_store: "tonRead tn f w = (r, w') \<Longrightarrow> cw_store w' = cw_store w"
  using tonRead_frame(1) [of tn f w] by simp

lemma isDestinationProvisioned_frame: "isDestinationProvisioned tn a w = (r, w') \<Longrightarrow> cw_store w' = cw_store w"
  unfolding isDestinationProvisioned_def by (rule tonRead_store)

lemma nextOrderAddress_frame: "nextOrderAddress tn w = (r, w') \<Longrightarrow> cw_store w' = cw_store w"
  unfolding nextOrderAddress_def by (auto split: if_splits dest: tonRead_store)

lemma orderExecuted_frame: "orderExecuted tn a w = (r, w') \<Longrightarrow> cw_store w' = cw_store w"
  unfolding orderExecuted_def by (auto split: sum.splits dest: tonRead_store)

text \<open>A read through the failover ring returns what some endpoint answered.\<close>

lemma tonCall_Inr: "tonCall tr n f i a = (Inr v, j) \<Longrightarrow> \<exists>i' a'. f i' a' = Inr v"
proof (induction tr n f i a rule: tonCall.induct)
  case (1 tr n f i a)
  show ?case
  proof (cases "f i a")
    case (Inr x)
    with 1(2) show ?thesis by (auto simp: tonCall.simps)
  next
    case (Inl e)
    show ?thesis
    proof (cases "a \<ge> n \<or> \<not> tr e")
      case True
      with Inl 1(2) show ?thesis by (simp add: tonCall.simps)
    next
      case False
      then have "tonCall tr n f ((i + 1) mod n) (a + 1) = (Inr v, j)"
        using Inl 1(2) by (subst (asm) tonCall.simps) simp
      then show ?thesis using 1(1) [OF Inl False] by blast
    qed
  qed
qed

lemma tonRead_Inr: "tonRead tn f w = (Inr v, w') \<Longrightarrow> \<exists>i a. f i a (cw_ext w) = Inr v"
  unfolding tonRead_def by (auto split: prod.splits dest!: tonCall_Inr)

section \<open>The interface: one order per action\<close>

text \<open>
  A builder of order proposals over a world in which the address of an action's order can be
  pinned. \<open>addrsOk\<close> says that the chain names orders by non-empty addresses.
\<close>

fun redrives :: "(CanonicalAction \<Rightarrow> 'w \<Rightarrow> 'r \<times> 'w) \<Rightarrow> CanonicalAction \<Rightarrow> ('w \<Rightarrow> 'w) list \<Rightarrow> 'w \<Rightarrow> 'r list" where
  "redrives build action [] w = []"
| "redrives build action (f # fs) w = (case build action (f w) of (r, w') \<Rightarrow> r # redrives build action fs w')"

text \<open>What else runs between two drives keeps the rows and the pin.\<close>

definition keepsPin :: "('w \<Rightarrow> string \<Rightarrow> bool) \<Rightarrow> ('w \<Rightarrow> string \<Rightarrow> string option) \<Rightarrow> string \<Rightarrow> ('w \<Rightarrow> 'w) \<Rightarrow> bool" where
  "keepsPin known pin k f \<longleftrightarrow>
     (\<forall>w. (known w k \<longrightarrow> known (f w) k) \<and> (\<forall>t. pin w k = Some t \<longrightarrow> pin (f w) k = Some t))"

locale order_pin =
  fixes build :: "CanonicalAction \<Rightarrow> 'w \<Rightarrow> 'p BuildResult result \<times> 'w"
    and addr :: "'p \<Rightarrow> string"
    and pin :: "'w \<Rightarrow> string \<Rightarrow> string option"
    and known :: "'w \<Rightarrow> string \<Rightarrow> bool"
    and addrsOk :: bool
  assumes build_pins: "addrsOk \<Longrightarrow> known w (act_id a) \<Longrightarrow> build a w = (Inr b, w') \<Longrightarrow>
      pin w' (act_id a) = Some (addr (br_proposal b))"
    and build_reuses: "pin w (act_id a) = Some t \<Longrightarrow> build a w = (Inr b, w') \<Longrightarrow> addr (br_proposal b) = t"
    and build_keeps: "build a w = (r, w') \<Longrightarrow> pin w (act_id a) = Some t \<Longrightarrow> pin w' (act_id a) = Some t"
    and build_known: "build a w = (r, w') \<Longrightarrow> known w k \<Longrightarrow> known w' k"
begin

lemma redrives_pinned:
  assumes "pin w (act_id a) = Some t" "\<forall>f \<in> set fs. keepsPin known pin (act_id a) f" "Inr b \<in> set (redrives build a fs w)"
  shows "addr (br_proposal b) = t"
  using assms
proof (induction fs arbitrary: w)
  case Nil
  then show ?case by simp
next
  case (Cons f fs)
  obtain r w' where b: "build a (f w) = (r, w')" by (metis prod.exhaust)
  have p: "pin (f w) (act_id a) = Some t" using Cons.prems(1,2) by (simp add: keepsPin_def)
  from Cons.prems(3) b consider "r = Inr b" | "Inr b \<in> set (redrives build a fs w')" by auto
  then show ?case
  proof cases
    case 1
    with b build_reuses [OF p] show ?thesis by simp
  next
    case 2
    with Cons.IH [OF build_keeps [OF b p]] Cons.prems(2) show ?thesis by simp
  qed
qed

lemma redrives_one:
  assumes "addrsOk" "known w (act_id a)" "\<forall>f \<in> set fs. keepsPin known pin (act_id a) f"
    "Inr b \<in> set (redrives build a fs w)" "Inr b' \<in> set (redrives build a fs w)"
  shows "addr (br_proposal b) = addr (br_proposal b')"
  using assms(2-5)
proof (induction fs arbitrary: w)
  case Nil
  then show ?case by simp
next
  case (Cons f fs)
  obtain r w' where b: "build a (f w) = (r, w')" by (metis prod.exhaust)
  have k: "known (f w) (act_id a)" using Cons.prems(1,2) by (simp add: keepsPin_def)
  have k': "known w' (act_id a)" by (rule build_known [OF b k])
  have fs: "\<forall>f \<in> set fs. keepsPin known pin (act_id a) f" using Cons.prems(2) by simp
  have in_rest: "x = r \<or> x \<in> set (redrives build a fs w')" if "x \<in> set (redrives build a (f # fs) w)" for x
    using that b by auto
  show ?case
  proof (cases r)
    case (Inl e)
    then have "Inr b \<in> set (redrives build a fs w')" "Inr b' \<in> set (redrives build a fs w')"
      using in_rest [OF Cons.prems(3)] in_rest [OF Cons.prems(4)] by auto
    then show ?thesis using Cons.IH [OF k' fs] by blast
  next
    case (Inr c)
    then have p: "pin w' (act_id a) = Some (addr (br_proposal c))"
      using build_pins [OF assms(1) k] b by simp
    have "addr (br_proposal x) = addr (br_proposal c)" if "Inr x \<in> set (redrives build a (f # fs) w)" for x
      using in_rest [OF that] Inr redrives_pinned [OF p fs] by auto
    then show ?thesis using Cons.prems(3,4) by metis
  qed
qed

end

section \<open>The two TON broadcasters provide it\<close>

definition rowKnown :: "'x CoordWorld \<Rightarrow> string \<Rightarrow> bool" where
  "rowKnown w k \<longleftrightarrow> sql_get (cw_store w) k \<noteq> None"

definition orderAddressesOk :: "'x TonRpc \<Rightarrow> bool" where
  "orderAddressesOk tn \<longleftrightarrow> (\<forall>i a n x. tn_orderAddress tn i a n x \<noteq> Inr [])"

lemma nextOrderAddress_nonempty:
  assumes "orderAddressesOk tn" "nextOrderAddress tn w = (Inr (addr, seqno), w')"
  shows "addr \<noteq> []"
  using assms by (auto simp: nextOrderAddress_def orderAddressesOk_def err_simps split: if_splits dest!: tonRead_Inr)

lemma pinOrder_reuses: "rowTxid w k = Some t \<Longrightarrow> pinOrder ck tn k w = (Inr (t, []), w)"
  by (simp add: pinOrder_def)

lemma pinOrder_pins:
  assumes "orderAddressesOk tn" "rowKnown w k" "pinOrder ck tn k w = (Inr o', w')"
  shows "rowTxid w' k = Some (fst o')"
proof (cases "rowTxid w k")
  case (Some t)
  with assms(3) show ?thesis by (auto simp: pinOrder_def)
next
  case None
  then obtain w1 where n: "nextOrderAddress tn w = (Inr o', w1)" "w' = pinTxid ck k (fst o') w1"
    using assms(3) by (auto simp: pinOrder_def split: prod.splits sum.splits)
  have "fst o' \<noteq> []" using nextOrderAddress_nonempty [OF assms(1)] n(1) by (cases o') auto
  then show ?thesis
    using n rowTxid_pinTxid [of w1 k "fst o'" ck k] nextOrderAddress_frame [OF n(1)] assms(2) by (simp add: rowKnown_def)
qed

lemma pinOrder_known: "pinOrder ck tn k w = (r, w') \<Longrightarrow> rowKnown w j \<Longrightarrow> rowKnown w' j"
  by (auto simp: pinOrder_def rowKnown_def split: option.splits prod.splits sum.splits
      dest!: nextOrderAddress_frame)

lemma gramMintBuild_cases:
  assumes "gramMintBuild ck tn policy a w = (r, w')"
  obtains e where "r = Inl e" "cw_store w' = cw_store w"
  | prov bd hash ro w1 where "isDestinationProvisioned tn (act_recipient a) w = (Inr prov, w1)"
    "cw_store w1 = cw_store w" "quotePegIn (act_amountMilliViz a) prov policy = QuoteOk bd"
    "tn_mintOrderHash tn (act_recipient a) (bd_net bd) = Inr hash" "pinOrder ck tn (act_id a) w1 = (ro, w')"
    "r = (case ro of Inl e \<Rightarrow> Inl e
       | Inr o' \<Rightarrow> Inr \<lparr>br_proposal = orderProposal a (bd_net bd) prov hash o', br_feeMilliViz = bd_fee bd\<rparr>)"
proof -
  obtain rp w1 where d: "isDestinationProvisioned tn (act_recipient a) w = (rp, w1)" by (metis prod.exhaust)
  note st = isDestinationProvisioned_frame [OF d]
  show thesis
  proof (cases rp)
    case (Inl e)
    with assms d st show ?thesis by (intro that(1)) (auto simp: gramMintBuild_def)
  next
    case prov: (Inr prov)
    show ?thesis
    proof (cases "quotePegIn (act_amountMilliViz a) prov policy")
      case (BelowMin m)
      with assms d st prov show ?thesis by (intro that(1)) (auto simp: gramMintBuild_def)
    next
      case q: (QuoteOk bd)
      show ?thesis
      proof (cases "tn_mintOrderHash tn (act_recipient a) (bd_net bd)")
        case (Inl e)
        with assms d st prov q show ?thesis by (intro that(1)) (auto simp: gramMintBuild_def)
      next
        case h: (Inr hash)
        obtain ro w2 where po: "pinOrder ck tn (act_id a) w1 = (ro, w2)" by (metis prod.exhaust)
        show ?thesis
          using assms d st prov q h po
          by (intro that(2) [of prov w1 bd hash ro]) (auto simp: gramMintBuild_def split: sum.splits)
      qed
    qed
  qed
qed

lemma gramReturnBuild_cases:
  assumes "gramReturnBuild ck tn a w = (r, w')"
  obtains e where "r = Inl e" "w' = w"
  | hash ro where "tn_returnOrderHash tn (act_recipient a) (act_amountMilliViz a) = Inr hash"
    "pinOrder ck tn (act_id a) w = (ro, w')"
    "r = (case ro of Inl e \<Rightarrow> Inl e
       | Inr o' \<Rightarrow> Inr \<lparr>br_proposal = orderProposal a (act_amountMilliViz a) False hash o', br_feeMilliViz = 0\<rparr>)"
proof (cases "tn_returnOrderHash tn (act_recipient a) (act_amountMilliViz a)")
  case (Inl e)
  with assms show ?thesis by (intro that(1)) (auto simp: gramReturnBuild_def)
next
  case h: (Inr hash)
  obtain ro w2 where "pinOrder ck tn (act_id a) w = (ro, w2)" by (metis prod.exhaust)
  with assms h show ?thesis
    by (intro that(2) [of hash ro]) (auto simp: gramReturnBuild_def split: sum.splits)
qed

interpretation mint_orders: order_pin "gramMintBuild ck tn policy" gp_orderAddr rowTxid rowKnown "orderAddressesOk tn"
proof
  fix a w b w'
  assume ok: "orderAddressesOk tn" "rowKnown w (act_id a)" and b: "gramMintBuild ck tn policy a w = (Inr b, w')"
  from b show "rowTxid w' (act_id a) = Some (gp_orderAddr (br_proposal b))"
  proof (cases rule: gramMintBuild_cases)
    case (2 prov bd hash ro w1)
    then obtain o' where o': "ro = Inr o'" "gp_orderAddr (br_proposal b) = fst o'"
      by (cases ro) (auto simp: orderProposal_def)
    with 2(2,5) ok pinOrder_pins [of tn w1 "act_id a" ck o' w'] show ?thesis by (simp add: rowKnown_def)
  qed simp
next
  fix a w t b w'
  assume t: "rowTxid w (act_id a) = Some t" and b: "gramMintBuild ck tn policy a w = (Inr b, w')"
  from b show "gp_orderAddr (br_proposal b) = t"
  proof (cases rule: gramMintBuild_cases)
    case (2 prov bd hash ro w1)
    then show ?thesis using t rowTxid_cong [OF 2(2)] by (auto simp: pinOrder_def orderProposal_def)
  qed simp
next
  fix a w r w' t
  assume b: "gramMintBuild ck tn policy a w = (r, w')" and t: "rowTxid w (act_id a) = Some t"
  from b show "rowTxid w' (act_id a) = Some t"
  proof (cases rule: gramMintBuild_cases)
    case 1
    then show ?thesis using t by (simp add: rowTxid_cong [OF 1(2)])
  next
    case (2 prov bd hash ro w1)
    then show ?thesis using t rowTxid_cong [OF 2(2)] by (simp add: pinOrder_def)
  qed
next
  fix a w r w' k
  assume b: "gramMintBuild ck tn policy a w = (r, w')" and k: "rowKnown w k"
  from b show "rowKnown w' k"
  proof (cases rule: gramMintBuild_cases)
    case 1
    then show ?thesis using k by (simp add: rowKnown_def)
  next
    case (2 prov bd hash ro w1)
    then show ?thesis using k pinOrder_known [OF 2(5), of k] by (simp add: rowKnown_def)
  qed
qed

interpretation return_orders: order_pin "gramReturnBuild ck tn" gp_orderAddr rowTxid rowKnown "orderAddressesOk tn"
proof
  fix a w b w'
  assume ok: "orderAddressesOk tn" "rowKnown w (act_id a)" and b: "gramReturnBuild ck tn a w = (Inr b, w')"
  from b show "rowTxid w' (act_id a) = Some (gp_orderAddr (br_proposal b))"
  proof (cases rule: gramReturnBuild_cases)
    case (2 hash ro)
    then obtain o' where o': "ro = Inr o'" "gp_orderAddr (br_proposal b) = fst o'"
      by (cases ro) (auto simp: orderProposal_def)
    with 2 ok pinOrder_pins [of tn w "act_id a" ck o' w'] show ?thesis by simp
  qed simp
next
  fix a w t b w'
  assume t: "rowTxid w (act_id a) = Some t" and b: "gramReturnBuild ck tn a w = (Inr b, w')"
  from b show "gp_orderAddr (br_proposal b) = t"
    by (cases rule: gramReturnBuild_cases) (use t in \<open>auto simp: pinOrder_def orderProposal_def\<close>)
next
  fix a w r w' t
  assume b: "gramReturnBuild ck tn a w = (r, w')" and t: "rowTxid w (act_id a) = Some t"
  from b show "rowTxid w' (act_id a) = Some t"
    by (cases rule: gramReturnBuild_cases) (use t in \<open>auto simp: pinOrder_def\<close>)
next
  fix a w r w' k
  assume b: "gramReturnBuild ck tn a w = (r, w')" and k: "rowKnown w k"
  from b show "rowKnown w' k"
    by (cases rule: gramReturnBuild_cases) (use k pinOrder_known in auto)
qed

section \<open>The wait for an order\<close>

text \<open>What \<open>setTimeout\<close> and \<open>Date.now\<close> promise: a sleep lasts, and a call does not turn the clock back.\<close>

definition clockRuns :: "'x Clock \<Rightarrow> ('x \<Rightarrow> 'x) \<Rightarrow> bool" where
  "clockRuns ck elapse \<longleftrightarrow> (\<forall>x n. 0 \<le> n \<longrightarrow> ck_now ck x + n \<le> ck_now ck (ck_sleep ck n x)) \<and>
     (\<forall>x. ck_now ck x \<le> ck_now ck (elapse x))"

lemma clockRuns_sleep: "clockRuns ck e \<Longrightarrow> 0 \<le> n \<Longrightarrow> ck_now ck x + n \<le> ck_now ck (ck_sleep ck n x)"
  by (simp add: clockRuns_def)

lemma orderExecuted_clock:
  assumes "clockRuns ck (tn_elapse tn)" "orderExecuted tn a w = (r, w')"
  shows "ck_now ck (cw_ext w) \<le> ck_now ck (cw_ext w')"
  using assms by (auto simp: orderExecuted_def tonRead_def clockRuns_def split: sum.splits prod.splits)

lemma gramWait_enough:
  assumes "clockRuns ck (tn_elapse tn)" "deadline \<le> ck_now ck (cw_ext w) + GRAM_EXECUTE_POLL_INTERVAL_MS * int n"
  shows "\<exists>r w'. gramWait ck tn late a deadline (Suc n) w = Some (r, w')"
  using assms(2)
proof (induction n arbitrary: w)
  case (0 w)
  obtain r w1 where r: "orderExecuted tn a w = (r, w1)" by (metis prod.exhaust)
  have "deadline \<le> ck_now ck (cw_ext w1)" using 0 orderExecuted_clock [OF assms(1) r] by simp
  with r show ?case by (auto split: sum.split bool.split)
next
  case (Suc n w)
  obtain r w1 where r: "orderExecuted tn a w = (r, w1)" by (metis prod.exhaust)
  let ?w = "w1\<lparr>cw_ext := ck_sleep ck GRAM_EXECUTE_POLL_INTERVAL_MS (cw_ext w1)\<rparr>"
  have "ck_now ck (cw_ext w) + GRAM_EXECUTE_POLL_INTERVAL_MS \<le> ck_now ck (cw_ext ?w)"
    using orderExecuted_clock [OF assms(1) r] clockRuns_sleep [OF assms(1), of GRAM_EXECUTE_POLL_INTERVAL_MS "cw_ext w1"]
    by (simp add: GRAM_EXECUTE_POLL_INTERVAL_MS_def)
  then have "deadline \<le> ck_now ck (cw_ext ?w) + GRAM_EXECUTE_POLL_INTERVAL_MS * int n"
    using Suc.prems by (simp add: algebra_simps)
  from Suc.IH [OF this] r show ?case by (subst gramWait.simps) (auto split: sum.split bool.split)
qed

lemma gramWait_store:
  "gramWait ck tn late a deadline n w = Some (r, w') \<Longrightarrow> cw_store w' = cw_store w"
proof (induction n arbitrary: w)
  case (Suc n)
  obtain x w1 where x: "orderExecuted tn a w = (x, w1)" by (metis prod.exhaust)
  let ?w = "w1\<lparr>cw_ext := ck_sleep ck GRAM_EXECUTE_POLL_INTERVAL_MS (cw_ext w1)\<rparr>"
  from Suc.prems x have "w' = w1 \<or> gramWait ck tn late a deadline n ?w = Some (r, w')"
    by (auto split: sum.splits bool.splits if_splits)
  with Suc.IH [of ?w] orderExecuted_frame [OF x] show ?case by auto
qed simp

lemma gramWait_Inr:
  "gramWait ck tn late a deadline n w = Some (Inr t, w') \<Longrightarrow> t = a \<and> (\<exists>w1 w2. orderExecuted tn a w1 = (Inr True, w2))"
  by (induction n arbitrary: w) (auto split: sum.splits bool.splits prod.splits if_splits)

text \<open>The order is on chain and its flag says that it was executed.\<close>

definition executedOnTon :: "'x TonRpc \<Rightarrow> string \<Rightarrow> bool" where
  "executedOnTon tn t \<longleftrightarrow> (\<exists>i a x od. tn_state tn i a t x = Inr ''active'' \<and> tn_order tn i a t x = Inr od \<and> ro_executed od)"

lemma orderExecuted_True: "orderExecuted tn t w = (Inr True, w') \<Longrightarrow> executedOnTon tn t"
  by (auto simp: orderExecuted_def executedOnTon_def orderExecutedOnce_def orderDataOnce_def err_simps
      split: sum.splits if_splits dest!: tonRead_Inr) blast

lemma gramBroadcast_Inr: "fst (gramBroadcast ck tn late a p sigs w) = Inr t \<Longrightarrow> t = gp_orderAddr p \<and> executedOnTon tn t"
  by (auto simp: gramBroadcast_def Let_def split: option.splits dest!: gramWait_Inr orderExecuted_True)

lemma gramActionExecuted_True:
  assumes "gramActionExecuted tn a w = (Inr (True, tx), w')"
  shows "\<exists>t. tx = Some t \<and> rowTxid w (act_id a) = Some t \<and> executedOnTon tn t"
  using assms by (auto simp: gramActionExecuted_def split: option.splits prod.splits sum.splits dest: orderExecuted_True)

lemma gramActionExecuted_frame: "cw_store (snd (gramActionExecuted tn a w)) = cw_store w"
  by (auto simp: gramActionExecuted_def split: option.split prod.split sum.split dest: orderExecuted_frame)

section \<open>Releases keep their body\<close>

lemma vizBuildProposal_pins:
  assumes "vizBuildProposal ck rpc accounts a w = (Inr b, w')"
  shows "cw_pinned w' (act_id a) = Some (br_proposal b)" "cw_store w' = cw_store w" "br_feeMilliViz b = 0"
  using assms
  by (auto simp: vizBuildProposal_def buildAndPin_def split: option.splits if_splits sum.splits prod.splits)

lemma vizBuildProposal_store: "cw_store (snd (vizBuildProposal ck rpc accounts a w)) = cw_store w"
  by (auto simp: vizBuildProposal_def buildAndPin_def split: option.split sum.split prod.split)

lemma vizBuildProposal_reuses:
  assumes "vizBuildProposal ck rpc accounts a w = (Inr b, w')"
    and "cw_pinned w1 (act_id a) = Some p" "reusable ck rpc p (cw_ext w1)"
  shows "vizBuildProposal ck rpc accounts a w1 = (Inr \<lparr>br_proposal = p, br_feeMilliViz = 0\<rparr>, w1)"
  using assms by (auto simp: vizBuildProposal_def split: option.splits if_splits sum.splits)

lemma broadcastReleaseCall_Inr: "broadcastReleaseCall ck rpc p sigs x = (Inr t, x') \<Longrightarrow> t = vr_releaseTxId rpc p"
  by (auto simp: broadcastReleaseCall_def Let_def split: if_splits prod.splits sum.splits bool.splits)

lemma vizBroadcast_effect:
  assumes "rowKnown w (act_id a)" "vr_releaseTxId rpc p \<noteq> []" "vizBroadcast ck rpc a p sigs w = (r, w')"
  shows "rowTxid w' (act_id a) = Some (vr_releaseTxId rpc p)"
    and "cw_pinned w' = (case r of Inl _ \<Rightarrow> cw_pinned w | Inr _ \<Rightarrow> (cw_pinned w)(act_id a := None))"
    and "r = Inr t \<Longrightarrow> t = vr_releaseTxId rpc p"
proof -
  let ?w1 = "pinTxid ck (act_id a) (vr_releaseTxId rpc p) w"
  have st: "cw_store w' = cw_store ?w1"
    using assms(3) by (auto simp: vizBroadcast_def Let_def split: sum.splits prod.splits)
  then show "rowTxid w' (act_id a) = Some (vr_releaseTxId rpc p)"
    using rowTxid_pinTxid [of w "act_id a" "vr_releaseTxId rpc p" ck "act_id a"] assms(1,2) rowTxid_cong [OF st]
    by (simp add: rowKnown_def)
  show "cw_pinned w' = (case r of Inl _ \<Rightarrow> cw_pinned w | Inr _ \<Rightarrow> (cw_pinned w)(act_id a := None))"
    using assms(3) by (auto simp: vizBroadcast_def Let_def split: sum.splits prod.splits)
  show "t = vr_releaseTxId rpc p" if "r = Inr t"
    using assms(3) that by (auto simp: vizBroadcast_def Let_def split: sum.splits prod.splits if_splits dest: broadcastReleaseCall_Inr)
qed

section \<open>Properties\<close>


text \<open>A world whose external part is the clock; the next order's number changes with it.\<close>

definition clock_example :: "int Clock" where
  "clock_example = \<lparr>ck_now = (\<lambda>x. x), ck_sleep = (\<lambda>n x. x + n)\<rparr>"

definition ton_example :: "int TonRpc" where
  "ton_example = \<lparr>tn_clients = 1, tn_transient = (\<lambda>_. False), tn_elapse = (\<lambda>x. x + 1),
     tn_parseAddress = (\<lambda>_. Inr ()), tn_state = (\<lambda>_ _ _ _. Inr ''active''),
     tn_order = (\<lambda>_ _ _ x. Inr \<lparr>ro_inited = True, ro_executed = (x \<ge> 50), ro_approvals_num = None, ro_threshold = None\<rparr>),
     tn_walletOf = (\<lambda>_ _ r _. Inr r), tn_nextOrderSeqno = (\<lambda>_ _ x. Inr (nat x)),
     tn_orderAddress = (\<lambda>_ _ n _. Inr (''EQ'' @ decNat n)), tn_mintOrderHash = (\<lambda>r n. Inr (r @ decInt n)),
     tn_returnOrderHash = (\<lambda>r n. Inr r), tn_multisigAddress = ''EQmultisig''\<rparr>"

definition mint_policy_example :: PegInFeePolicy where
  "mint_policy_example = \<lparr>fp_floorMilliViz = 1000, fp_bps = 20, fp_activationSurchargeMilliViz = 500, fp_mintGasFloorMilliViz = 100\<rparr>"

definition mint_action_example :: CanonicalAction where
  "mint_action_example = \<lparr>act_direction = PEG_IN, act_remoteChain = Some GRAM, act_id = ''ab01:3'',
     act_recipient = ''EQbob'', act_amountMilliViz = 25000, act_digest = ''d''\<rparr>"

definition row_example :: OutboxRecord where
  "row_example = recordOf \<lparr>ei_id = ''ab01:3'', ei_direction = O_PEG_IN, ei_remoteChain = Some GRAM, ei_recipient = ''EQbob'',
     ei_sender = Some ''alice'', ei_amountMilliViz = 25000, ei_feeMilliViz = None, ei_digest = ''d'', ei_status = Some QUEUED,
     ei_lastError = None, ei_parentId = None, ei_blockNum = None\<rparr> 1"

definition world_example :: "int CoordWorld" where
  "world_example = \<lparr>cw_store = emptySqlite\<lparr>tb_outbox := [row_example]\<rparr>, cw_pinned = Map.empty, cw_tonIdx = 0, cw_ext = 7\<rparr>"

lemma world_example_row:
  "sql_get (cw_store world_example) ''ab01:3'' = Some row_example" "rowTxid world_example ''ab01:3'' = None"
  by (simp_all add: world_example_def sql_get_def rowTxid_def row_example_def)

lemma ton_example_read:
  "tonRead ton_example f w = (f (cw_tonIdx w) 1 (cw_ext w), w\<lparr>cw_ext := cw_ext w + 1\<rparr>)"
  by (cases "f (cw_tonIdx w) 1 (cw_ext w)") (simp_all add: tonRead_def tonCall.simps ton_example_def)

lemma ton_example_ok: "orderAddressesOk ton_example"
  by (simp add: orderAddressesOk_def ton_example_def)

lemma decNat_8: "decNat 8 = ''8''"
  by code_simp

lemma mint_example_built:
  "\<exists>w1. gramMintBuild clock_example ton_example mint_policy_example mint_action_example world_example =
     (Inr \<lparr>br_proposal = orderProposal mint_action_example 24000 True (''EQbob'' @ decInt 24000) (''EQ8'', ''8''), br_feeMilliViz = 1000\<rparr>, w1)"
proof -
  have d: "isDestinationProvisioned ton_example ''EQbob'' world_example = (Inr True, world_example\<lparr>cw_ext := 8\<rparr>)"
    by (simp add: isDestinationProvisioned_def ton_example_read) (simp add: ton_example_def world_example_def)
  have q: "quotePegIn 25000 True mint_policy_example =
      QuoteOk \<lparr>bd_gross = 25000, bd_base = 1000, bd_activation = 0, bd_fee = 1000, bd_net = 24000\<rparr>"
    by (simp add: quotePegIn_def baseFee_def mint_policy_example_def)
  have n: "rowTxid (world_example\<lparr>cw_ext := 8\<rparr>) ''ab01:3'' = None"
    using world_example_row(2) rowTxid_cong [of "world_example\<lparr>cw_ext := 8\<rparr>" world_example] by simp
  have h: "tn_mintOrderHash ton_example ''EQbob'' 24000 = Inr (''EQbob'' @ decInt 24000)"
    by (simp add: ton_example_def)
  have m: "nextOrderAddress ton_example (world_example\<lparr>cw_ext := 8\<rparr>) = (Inr (''EQ8'', ''8''), world_example\<lparr>cw_ext := 9\<rparr>)"
    by (simp add: nextOrderAddress_def ton_example_read) (simp add: ton_example_def decNat_8)
  show ?thesis
    by (simp add: gramMintBuild_def mint_action_example_def d q h pinOrder_def n m)
qed


text \<open>
  A drive after the recipient's wallet appeared describes another order at the address already
  pinned: the surcharge is gone from the fee, so amount and order hash change while the address does
  not. If the first order is on chain, no operator can approve the new description.
\<close>

lemma redrive_describes_other_order:
  assumes "rowTxid w (act_id a) = Some t" "gramMintBuild ck tn policy a w = (Inr b, w1)"
    "rowTxid w2 (act_id a) = Some t" "gramMintBuild ck tn policy a w2 = (Inr b', w3)"
    "\<not> gp_destProvisioned (br_proposal b)" "gp_destProvisioned (br_proposal b')"
    "fp_activationSurchargeMilliViz policy \<noteq> 0"
  shows "gp_orderAddr (br_proposal b) = gp_orderAddr (br_proposal b')"
    and "gp_amountMilliViz (br_proposal b) \<noteq> gp_amountMilliViz (br_proposal b')"
proof -
  show "gp_orderAddr (br_proposal b) = gp_orderAddr (br_proposal b')"
    using mint_orders.build_reuses [OF assms(1,2)] mint_orders.build_reuses [OF assms(3,4)] by simp
  have amt: "gp_amountMilliViz (br_proposal c) =
      decInt (netOf (act_amountMilliViz a) (gp_destProvisioned (br_proposal c)) policy)"
    if "gramMintBuild ck tn policy a v = (Inr c, v')" for c v v'
    using that
  proof (cases rule: gramMintBuild_cases)
    case (2 prov bd hash ro v1)
    then show ?thesis using quotePegIn_OkD(5) [OF 2(3)] by (auto simp: orderProposal_def split: sum.splits)
  qed simp
  show "gp_amountMilliViz (br_proposal b) \<noteq> gp_amountMilliViz (br_proposal b')"
    using amt [OF assms(2)] amt [OF assms(4)] assms(5-7) by (simp add: netOf_def)
qed

text \<open>
  C21. The coordinator reports a mint only when TON says so. Whatever the operators answered, a mint
  the orchestrator reports as broadcast is an order that is active on chain with its executed flag
  set, and its address is the one bound to the action: pinned in the outbox before this drive or by
  the proposal this drive built.
\<close>

theorem mint_reported_only_if_executed:
  assumes "fst (orchestrate thr operators signers (gramMintBroadcaster ck tn policy) pf action hint w) = Inr r"
    "or_broadcast r" "orderAddressesOk tn" "rowKnown w (act_id action)"
  shows "\<exists>t. or_txid r = Some t \<and> executedOnTon tn t \<and>
    (rowTxid w (act_id action) = Some t \<or>
     (\<exists>b w1 w2. gramMintBuild ck tn policy action w1 = (Inr b, w2) \<and> cw_store w1 = cw_store w \<and>
        rowTxid w2 (act_id action) = Some t))"
proof -
  let ?bc = "gramMintBroadcaster ck tn policy"
  have sel: "bc_actionExecuted ?bc = gramActionExecuted tn" "bc_buildProposal ?bc = gramMintBuild ck tn policy"
    "bc_broadcast ?bc = gramBroadcast ck tn lateMint"
    by (simp_all add: gramMintBroadcaster_def)
  from orchestrate_broadcast [OF assms(1,2)] show ?thesis
  proof
    assume "\<exists>w1. bc_actionExecuted ?bc action w = (Inr (True, or_txid r), w1)"
    then show ?thesis using gramActionExecuted_True by (fastforce simp: sel)
  next
    assume "\<exists>t. or_txid r = Some t \<and> roundBroadcast thr operators signers ?bc action hint w t"
    then obtain t b w2 sigs v where t: "or_txid r = Some t"
      and b: "gramMintBuild ck tn policy action (snd (gramActionExecuted tn action w)) = (Inr b, w2)"
      and s: "fst (gramBroadcast ck tn lateMint action (br_proposal b) sigs v) = Inr t"
      unfolding roundBroadcast_def sel by blast
    have st: "cw_store (snd (gramActionExecuted tn action w)) = cw_store w" by (rule gramActionExecuted_frame)
    with assms(4) have "rowKnown (snd (gramActionExecuted tn action w)) (act_id action)" by (simp add: rowKnown_def)
    from mint_orders.build_pins [OF assms(3) this b] gramBroadcast_Inr [OF s]
    have "rowTxid w2 (act_id action) = Some t" "executedOnTon tn t" by auto
    with t b st show ?thesis by blast
  qed
qed

text \<open>A drive of the example: the operator answers, and the order is executed when it is looked at.\<close>

definition operator_example :: "(GramMintProposal, int CoordWorld) SignerClient" where
  "operator_example = \<lparr>sc_operatorId = ''op1'', sc_approve = (\<lambda>a p h w.
     (Inr \<lparr>apr_actionId = act_id a, apr_operatorId = ''op1'', apr_signature = ''ton:EQ8:0:approve''\<rparr>, w\<lparr>cw_ext := 60\<rparr>))\<rparr>"

lemma ton_example_executed:
  "orderExecuted ton_example t w = (Inr (cw_ext w \<ge> 50), w\<lparr>cw_ext := cw_ext w + 1\<rparr>)"
proof -
  have "tn_parseAddress ton_example t = Inr ()" "tn_state ton_example i a t x = Inr ''active''"
    "tn_order ton_example i a t x = Inr \<lparr>ro_inited = True, ro_executed = (x \<ge> 50), ro_approvals_num = None, ro_threshold = None\<rparr>"
    for i a x by (simp_all add: ton_example_def)
  then show ?thesis by (simp add: orderExecuted_def ton_example_read orderExecutedOnce_def orderDataOnce_def)
qed

lemma mint_action_fields:
  "act_id mint_action_example = ''ab01:3''" "act_direction mint_action_example = PEG_IN"
  by (simp_all add: mint_action_example_def)

lemma mint_example_broadcast:
  "\<exists>r. fst (orchestrate 1 [''op1''] [operator_example] (gramMintBroadcaster clock_example ton_example mint_policy_example) None
      mint_action_example None world_example) = Inr r \<and> or_broadcast r"
proof -
  let ?bc = "gramMintBroadcaster clock_example ton_example mint_policy_example"
  obtain b w1 where b: "bc_buildProposal ?bc mint_action_example world_example = (Inr b, w1)"
    and addr: "gp_orderAddr (br_proposal b) = ''EQ8''"
    using mint_example_built by (auto simp: gramMintBroadcaster_def orderProposal_def)
  have x: "bc_actionExecuted ?bc mint_action_example world_example = (Inr (False, None), world_example)"
    by (simp add: gramMintBroadcaster_def gramActionExecuted_def world_example_row mint_action_fields)
  have "gramWait clock_example ton_example late a deadline 31 (w1\<lparr>cw_ext := 60\<rparr>) =
      Some (Inr a, w1\<lparr>cw_ext := 61\<rparr>)" for late a deadline
    by (simp add: numeral_eq_Suc ton_example_executed)
  then have s: "bc_broadcast ?bc mint_action_example (br_proposal b) sigs (w1\<lparr>cw_ext := 60\<rparr>) =
      (Inr ''EQ8'', w1\<lparr>cw_ext := 61\<rparr>)" for sigs
    by (simp add: gramMintBroadcaster_def gramBroadcast_def waitFuel_def addr)
  define t where "t = snd (as_add \<lparr>apr_actionId = ''ab01:3'', apr_operatorId = ''op1'', apr_signature = ''ton:EQ8:0:approve''\<rparr>
      (newApprovalSet 1 [''op1'']))"
  have c: "collect mint_action_example (br_proposal b) None [operator_example] (newApprovalSet 1 [''op1'']) w1 =
      (t, w1\<lparr>cw_ext := 60\<rparr>)"
    by (simp add: operator_example_def mint_action_fields Let_def t_def)
  have "as_isMet t ''ab01:3''"
    by (simp add: t_def as_add_def as_isMet_def as_count_def approvalsOf_def newApprovalSet_def)
  then show ?thesis
    unfolding orchestrate_def x
    by (simp add: b c c [unfolded One_nat_def] s pinFee_def mint_action_fields Let_def del: collect.simps)
qed

theorem mint_reported_only_if_executed_witness:
  "\<exists>r t. fst (orchestrate 1 [''op1''] [operator_example] (gramMintBroadcaster clock_example ton_example mint_policy_example) None
      mint_action_example None world_example) = Inr r \<and> or_txid r = Some t \<and> executedOnTon ton_example t"
proof -
  obtain r where r: "fst (orchestrate 1 [''op1''] [operator_example]
      (gramMintBroadcaster clock_example ton_example mint_policy_example) None mint_action_example None world_example) = Inr r"
    "or_broadcast r"
    using mint_example_broadcast by blast
  have "rowKnown world_example (act_id mint_action_example)"
    by (simp add: rowKnown_def mint_action_example_def world_example_row)
  from mint_reported_only_if_executed [OF r ton_example_ok this] r(1) show ?thesis by blast
qed

text \<open>
  C23. The wait for an order ends: with sleeps as long as they are asked to be and a clock that no call
  turns back, the loop returns within 31 looks at the order, with its address or an error.
\<close>

theorem gram_wait_returns:
  assumes "clockRuns ck (tn_elapse tn)"
  shows "\<exists>r w'. gramWait ck tn late a (ck_now ck (cw_ext w) + GRAM_EXECUTE_POLL_MAX_MS) waitFuel w = Some (r, w') \<and>
    cw_store w' = cw_store w \<and> (\<forall>t. r = Inr t \<longrightarrow> t = a \<and> executedOnTon tn a)"
proof -
  have "\<exists>r w'. gramWait ck tn late a (ck_now ck (cw_ext w) + GRAM_EXECUTE_POLL_MAX_MS) (Suc 30) w = Some (r, w')"
    by (rule gramWait_enough [OF assms]) (simp add: GRAM_EXECUTE_POLL_MAX_MS_def GRAM_EXECUTE_POLL_INTERVAL_MS_def)
  then obtain r w' where g: "gramWait ck tn late a (ck_now ck (cw_ext w) + GRAM_EXECUTE_POLL_MAX_MS) waitFuel w = Some (r, w')"
    by (auto simp: waitFuel_def simp del: gramWait.simps)
  have "t = a \<and> executedOnTon tn a" if "r = Inr t" for t
    using gramWait_Inr [OF g [unfolded that]] orderExecuted_True by blast
  then show ?thesis using g gramWait_store [OF g] by blast
qed

theorem gram_wait_returns_witness:
  "\<exists>r w'. gramWait clock_example ton_example (lateMint ''EQ8'' ''ab01:3'') ''EQ8'' (7 + GRAM_EXECUTE_POLL_MAX_MS) waitFuel world_example = Some (r, w')"
  using gram_wait_returns [of clock_example ton_example "lateMint ''EQ8'' ''ab01:3''" "''EQ8''" world_example]
  by (simp add: clockRuns_def clock_example_def ton_example_def world_example_def) blast

text \<open>
  A release that may have been sent is retried as the same transaction. However the send ends,
  the id of the body is in the outbox row; and after a failed send, as long as more than the reuse
  margin of the body's life is left and nobody touched the pin, the next drive offers exactly that
  body again, with no new reference block and no change of state.
\<close>

lemma failed_release_retried_exactly:
  assumes "vizBuildProposal ck rpc accounts a w = (Inr b, w1)" "cw_pinned w2 = cw_pinned w1" "rowKnown w2 (act_id a)"
    "vizBroadcast ck rpc a (br_proposal b) sigs w2 = (r, w3)" "vr_releaseTxId rpc (br_proposal b) \<noteq> []"
    "cw_pinned w4 = cw_pinned w3" "reusable ck rpc (br_proposal b) (cw_ext w4)"
  shows "rowTxid w3 (act_id a) = Some (vr_releaseTxId rpc (br_proposal b)) \<and>
    (\<forall>t. r = Inr t \<longrightarrow> t = vr_releaseTxId rpc (br_proposal b)) \<and>
    (\<forall>e. r = Inl e \<longrightarrow> vizBuildProposal ck rpc accounts a w4 = (Inr b, w4))"
proof (intro conjI allI impI)
  note eff = vizBroadcast_effect [OF assms(3,5,4)]
  show "rowTxid w3 (act_id a) = Some (vr_releaseTxId rpc (br_proposal b))" by (rule eff(1))
  show "t = vr_releaseTxId rpc (br_proposal b)" if "r = Inr t" for t by (rule eff(3) [OF that])
  fix e assume "r = Inl e"
  then have "cw_pinned w4 (act_id a) = Some (br_proposal b)"
    using eff(2) assms(2,6) vizBuildProposal_pins(1) [OF assms(1)] by simp
  from vizBuildProposal_reuses [OF assms(1) this assms(7)] vizBuildProposal_pins(3) [OF assms(1)]
  show "vizBuildProposal ck rpc accounts a w4 = (Inr b, w4)" by simp
qed

text \<open>A node that knows no transaction; dates are numbers of seconds.\<close>

definition viz_example :: "int VizRpc" where
  "viz_example = \<lparr>vr_globalProps = (\<lambda>x. (Inr (70000, ''0001117012345678''), x)),
     vr_getAccount = (\<lambda>_ x. (Inl (GenericError ''ETIMEDOUT''), x + 10)),
     vr_getTransaction = (\<lambda>t x. (if t = ''landed'' then Inr (Some \<lparr>at_transaction_id = Some t, at_block_num = 5,
        at_operations = None\<rparr>) else Inl (GenericError ''unknown transaction''), x)),
     vr_broadcastTransaction = (\<lambda>_ _ x. (Inr (), x)), vr_toISOString = (\<lambda>_. ''2026-01-01T00:10:00.000Z''),
     vr_dateParse = (\<lambda>_. Some 600000), vr_releaseTxId = (\<lambda>p. ''tx''), vr_recover = (\<lambda>_ s. Inr s)\<rparr>"

definition release_action_example :: CanonicalAction where
  "release_action_example = \<lparr>act_direction = PEG_OUT, act_remoteChain = Some GRAM, act_id = ''ab01:3'',
     act_recipient = ''alice'', act_amountMilliViz = 900, act_digest = ''d''\<rparr>"

definition accounts_example :: GatewayAccounts where
  "accounts_example = \<lparr>ga_byChain = [(GRAM, ''gate.gram'')], ga_byAccount = [(''gate.gram'', GRAM)]\<rparr>"

lemma release_action_fields:
  "act_id release_action_example = ''ab01:3''" "act_remoteChain release_action_example = Some GRAM"
  "act_direction release_action_example = PEG_OUT" "accountFor accounts_example GRAM = Inr ''gate.gram''"
  by (simp_all add: release_action_example_def accounts_example_def accountFor_def)

lemma viz_example_fields:
  "vr_globalProps viz_example x = (Inr (70000, ''0001117012345678''), x)"
  "vr_getAccount viz_example n x = (Inl (GenericError ''ETIMEDOUT''), x + 10)"
  "vr_releaseTxId viz_example p = ''tx''" "vr_dateParse viz_example d = Some 600000"
  "ck_now clock_example x = x" "cw_pinned world_example = Map.empty" "cw_ext world_example = 7"
  by (simp_all add: viz_example_def clock_example_def world_example_def)

lemma release_example_built:
  obtains b w1 where "vizBuildProposal clock_example viz_example accounts_example release_action_example world_example = (Inr b, w1)"
    "cw_store w1 = cw_store world_example" "cw_ext w1 = 7"
proof -
  obtain n where h: "readUInt32LE4 (hexBytes ''0001117012345678'') = Inr n"
    by (simp add: readUInt32LE4_def isHexDigit_def charIn_def)
  obtain p where "buildReleaseCall clock_example viz_example release_action_example ''gate.gram'' 7 = (Inr p, 7)"
    by (simp add: buildReleaseCall_def viz_example_fields h del: hexBytes.simps)
  then show thesis
    by (intro that [of "\<lparr>br_proposal = p, br_feeMilliViz = 0\<rparr>"
          "world_example\<lparr>cw_pinned := [''ab01:3'' \<mapsto> p], cw_ext := 7\<rparr>"])
      (simp_all add: vizBuildProposal_def buildAndPin_def release_action_fields viz_example_fields)
qed

text \<open>
  C24. What has landed is not sent again: once the node answers for the transaction whose id is in the
  row, a drive of the release reports that id with no approval asked for, whoever the signers are, and
  leaves the outbox as it was.
\<close>

theorem landed_release_never_resent:
  assumes "rowTxid w (act_id a) = Some t" "vr_getTransaction rpc t (cw_ext w) = (Inr (Some tx), x1)"
    "act_direction a \<noteq> PEG_IN"
  shows "\<exists>r w'. orchestrate thr operators signers (vizReleaseBroadcaster ck rpc accounts) pf a hint w = (Inr r, w') \<and>
    or_broadcast r \<and> or_txid r = Some t \<and> or_approvals r = 0 \<and> cw_store w' = cw_store w"
proof -
  let ?bc = "vizReleaseBroadcaster ck rpc accounts"
  have "t \<noteq> []" using rowTxid_SomeD [OF assms(1)] by blast
  then have e: "bc_actionExecuted ?bc a w = (Inr (True, Some t), w\<lparr>cw_ext := x1\<rparr>)"
    using assms(1,2) by (simp add: vizReleaseBroadcaster_def vizActionExecuted_def confirmCall_def confirmReleaseByTxId_def)
  obtain rb w2 where b: "bc_buildProposal ?bc a (w\<lparr>cw_ext := x1\<rparr>) = (rb, w2)" by (metis prod.exhaust)
  have st: "cw_store w2 = cw_store w"
    using vizBuildProposal_store [of ck rpc accounts a "w\<lparr>cw_ext := x1\<rparr>"] b by (simp add: vizReleaseBroadcaster_def)
  have "pinFee pf a fee w2 = w2" for fee using assms(3) by (simp add: pinFee_def split: option.split)
  with e b st show ?thesis by (cases rb) (simp_all add: orchestrate_def)
qed

theorem landed_release_never_resent_witness:
  "\<exists>w r w'. rowTxid w ''ab01:3'' = Some ''landed'' \<and>
     orchestrate 2 [''op1'', ''op2''] [] (vizReleaseBroadcaster clock_example viz_example accounts_example) None
       release_action_example None w = (Inr r, w') \<and> or_txid r = Some ''landed'' \<and> cw_store w' = cw_store w"
proof -
  let ?w = "pinTxid clock_example ''ab01:3'' ''landed'' world_example"
  have t: "rowTxid ?w (act_id release_action_example) = Some ''landed''"
    by (simp add: rowTxid_pinTxid world_example_row release_action_fields)
  obtain tx where g: "vr_getTransaction viz_example ''landed'' (cw_ext ?w) = (Inr (Some tx), cw_ext ?w)"
    by (simp add: viz_example_def)
  from landed_release_never_resent [OF t g, of 2 "[''op1'', ''op2'']" "[]" clock_example accounts_example None None] t
  show ?thesis by (auto simp: release_action_fields)
qed

end
