(* ===== verification/GramApprove.thy ===== *)
theory GramApprove
  imports Broadcasters
begin

text \<open>
  One operator's TON approver (\<open>packages/gram-watcher/src/gramApprove.ts\<close>, \<open>gramSign.ts\<close>), the only
  component that sends a TON message, and the order bodies it rebuilds (\<open>gramChain.ts\<close>). The two
  RPC clients, key derivation, wallet addresses and the packing and hashing of an order (the vendored
  multisig wrapper and \<open>@ton/core\<close>) are the record \<open>ApproverNode\<close>, over a world \<open>'x\<close>. \<open>aw_sent\<close> is
  the list of the messages this process has handed to a client, whether or not the call then failed.
\<close>

section \<open>Order bodies\<close>

text \<open>A cell as the sequence of its builder's calls: values with their width in bits, coins, addresses, references.\<close>

datatype CellField =
    StoreUint nat nat
  | StoreCoins int
  | StoreAddress string
  | StoreBit bool
  | StoreNoRef
  | StoreRef "CellField list"

record TransferRequest =
  tq_sendMode :: nat
  tq_to :: string
  tq_value :: int
  tq_body :: "CellField list"

definition PAY_GAS_SEPARATELY :: nat where "PAY_GAS_SEPARATELY = 1"

definition OP_MINT :: nat where "OP_MINT = 21"

definition OP_JETTON_TRANSFER :: nat where "OP_JETTON_TRANSFER = 0x0f8a7ea5"

definition mintMasterMsg :: "string \<Rightarrow> string \<Rightarrow> int \<Rightarrow> CellField list" where
  "mintMasterMsg minter toAddr amountBaseUnits =
     [StoreUint OP_INTERNAL_TRANSFER 32, StoreUint 0 64, StoreCoins amountBaseUnits, StoreAddress minter,
      StoreAddress toAddr, StoreCoins 0, StoreBit False]"

text \<open>\<open>toNano("0.05")\<close> and \<open>toNano("0.06")\<close>.\<close>

definition buildMintTransfer :: "string \<Rightarrow> string \<Rightarrow> int \<Rightarrow> TransferRequest" where
  "buildMintTransfer minter toAddr amountBaseUnits =
     \<lparr>tq_sendMode = PAY_GAS_SEPARATELY, tq_to = minter, tq_value = 60000000,
      tq_body = [StoreUint OP_MINT 32, StoreUint 0 64, StoreAddress toAddr, StoreCoins 50000000,
        StoreRef (mintMasterMsg minter toAddr amountBaseUnits)]\<rparr>"

definition buildReturnTransfer :: "string \<Rightarrow> string \<Rightarrow> int \<Rightarrow> TransferRequest" where
  "buildReturnTransfer gatewayJettonWallet toAddr amountBaseUnits =
     \<lparr>tq_sendMode = PAY_GAS_SEPARATELY, tq_to = gatewayJettonWallet, tq_value = 100000000,
      tq_body = [StoreUint OP_JETTON_TRANSFER 32, StoreUint 0 64, StoreCoins amountBaseUnits, StoreAddress toAddr,
        StoreAddress toAddr, StoreNoRef, StoreCoins 50000000, StoreBit False]\<rparr>"

text \<open>The hash of the packed order; \<open>packHash\<close> throws when a field does not fit its cell.\<close>

definition mintOrderCell :: "(TransferRequest list \<Rightarrow> string result) \<Rightarrow> string \<Rightarrow> string \<Rightarrow> int \<Rightarrow> string result" where
  "mintOrderCell packHash minter toAddr amountBaseUnits = packHash [buildMintTransfer minter toAddr amountBaseUnits]"

definition returnOrderCell :: "(TransferRequest list \<Rightarrow> string result) \<Rightarrow> string \<Rightarrow> string \<Rightarrow> int \<Rightarrow> string result" where
  "returnOrderCell packHash gatewayJettonWallet toAddr amountBaseUnits =
     packHash [buildReturnTransfer gatewayJettonWallet toAddr amountBaseUnits]"

section \<open>The approver's world\<close>

record MultisigData =
  ms_nextOrderSeqno :: nat
  ms_threshold :: nat
  ms_signers :: "string list"
  ms_proposers :: "string list"

text \<open>\<open>getOrderData\<close>: the flag and the cell may be null; the cell is read for its hash only.\<close>

record DeployedOrder =
  dor_executed :: "bool option"
  dor_approvals :: "bool list"
  dor_orderHash :: "string option"

datatype TonSend =
    SendNewOrder string "TransferRequest list" int int nat bool
  | SendApprove string nat

record 'x ApproverNode =
  an_clients :: nat
  an_transient :: "js_error \<Rightarrow> bool"
  an_elapse :: "'x \<Rightarrow> 'x"
  an_clock :: "'x Clock"
  an_parseAddress :: "string \<Rightarrow> string result"
  an_packHash :: "TransferRequest list \<Rightarrow> string result"
  an_mnemonicToPrivateKey :: "string list \<Rightarrow> string result"
  an_walletV4 :: "string \<Rightarrow> string"
  an_walletV5R1 :: "string \<Rightarrow> string"
  an_multisigData :: "nat \<Rightarrow> nat \<Rightarrow> 'x \<Rightarrow> MultisigData result"
  an_nextAddress :: "nat \<Rightarrow> nat \<Rightarrow> nat \<Rightarrow> 'x \<Rightarrow> string result"
  an_state :: "nat \<Rightarrow> nat \<Rightarrow> string \<Rightarrow> 'x \<Rightarrow> string result"
  an_order :: "nat \<Rightarrow> nat \<Rightarrow> string \<Rightarrow> 'x \<Rightarrow> DeployedOrder result"
  an_send :: "nat \<Rightarrow> string \<Rightarrow> TonSend \<Rightarrow> 'x \<Rightarrow> unit result \<times> 'x"

record ApproverConfig =
  ac_minter :: string
  ac_multisig :: string
  ac_mnemonic :: string
  ac_jettonWallet :: string
  ac_pollIntervalMs :: int
  ac_maxWaitMs :: int
  ac_orderValueNano :: int

record 'x ApproverWorld =
  aw_idx :: nat
  aw_sent :: "(string \<times> TonSend) list"
  aw_ext :: 'x

text \<open>The constructor; the addresses are stored as \<open>Address.parse\<close> returns them.\<close>

definition newGramApprover ::
  "(string \<Rightarrow> string result) \<Rightarrow> string \<Rightarrow> string \<Rightarrow> string \<Rightarrow> string \<Rightarrow> int option \<Rightarrow> int option \<Rightarrow> int option \<Rightarrow>
   ApproverConfig result" where
  "newGramApprover parseAddress minterAddress multisigAddress mnemonic jettonWallet poll wait' value' =
     (if minterAddress = [] then Inl (GenericError ''GramApprover: minter address is required'')
      else if multisigAddress = [] then Inl (GenericError ''GramApprover: GRAM_MULTISIG_ADDRESS is required'')
      else if mnemonic = [] then Inl (GenericError ''GramApprover: GRAM_SIGNER_MNEMONIC is required to approve on-chain'')
      else bindE (parseAddress minterAddress) (\<lambda>minter.
           bindE (parseAddress multisigAddress) (\<lambda>multisig.
           Inr \<lparr>ac_minter = minter, ac_multisig = multisig, ac_mnemonic = mnemonic, ac_jettonWallet = jettonWallet,
                ac_pollIntervalMs = (case poll of None \<Rightarrow> 3000 | Some n \<Rightarrow> n),
                ac_maxWaitMs = (case wait' of None \<Rightarrow> 60000 | Some n \<Rightarrow> n),
                ac_orderValueNano = (case value' of None \<Rightarrow> 1000000000 | Some n \<Rightarrow> n)\<rparr>)))"

text \<open>A step of the approver; \<open>None\<close> is a wait that has run out of fuel.\<close>

type_synonym ('a, 'x) approve_step = "'x ApproverWorld \<Rightarrow> ('a result \<times> 'x ApproverWorld) option"

definition bindA :: "('a, 'x) approve_step \<Rightarrow> ('a \<Rightarrow> ('b, 'x) approve_step) \<Rightarrow> ('b, 'x) approve_step" where
  "bindA m f w = (case m w of
       None \<Rightarrow> None
     | Some (Inl e, w1) \<Rightarrow> Some (Inl e, w1)
     | Some (Inr x, w1) \<Rightarrow> f x w1)"

definition liftA :: "'a result \<Rightarrow> ('a, 'x) approve_step" where
  "liftA r w = Some (r, w)"

definition readA :: "'x ApproverNode \<Rightarrow> (nat \<Rightarrow> nat \<Rightarrow> 'x \<Rightarrow> 'a result) \<Rightarrow> ('a, 'x) approve_step" where
  "readA node f w =
     (case tonCall (an_transient node) (an_clients node) (\<lambda>i a. f i a (aw_ext w)) (aw_idx w) 1 of
        (r, i) \<Rightarrow> Some (r, w\<lparr>aw_idx := i, aw_ext := an_elapse node (aw_ext w)\<rparr>))"

definition sendA :: "'x ApproverNode \<Rightarrow> string \<Rightarrow> TonSend \<Rightarrow> (unit, 'x) approve_step" where
  "sendA node wallet msg w =
     (case an_send node (aw_idx w) wallet msg (aw_ext w) of
        (r, x') \<Rightarrow> Some (r, w\<lparr>aw_sent := aw_sent w @ [(wallet, msg)], aw_ext := x'\<rparr>))"

section \<open>Keys\<close>

lemma dropWhile_shorter:
  assumes "dropWhile (\<lambda>c. \<not> isSpace c) s \<noteq> []"
  shows "length (dropWhile isSpace (dropWhile (\<lambda>c. \<not> isSpace c) s)) < length s"
proof -
  obtain c cs where r: "dropWhile (\<lambda>c. \<not> isSpace c) s = c # cs" using assms by (cases "dropWhile (\<lambda>c. \<not> isSpace c) s") auto
  then have "isSpace c" by (metis hd_dropWhile list.distinct(1) list.sel(1))
  moreover have "length (c # cs) \<le> length s" unfolding r [symmetric] by (rule length_dropWhile_le)
  ultimately show ?thesis using length_dropWhile_le [of isSpace cs] by (simp add: r)
qed

text \<open>\<open>split(/\s+/)\<close>.\<close>

function wordsOf :: "string \<Rightarrow> string list" where
  "wordsOf s = (let rest = dropWhile (\<lambda>c. \<not> isSpace c) s
     in if rest = [] then [s] else takeWhile (\<lambda>c. \<not> isSpace c) s # wordsOf (dropWhile isSpace rest))"
  by pat_completeness auto

termination by (relation "measure length") (auto simp: dropWhile_shorter)

declare wordsOf.simps [simp del]

definition keyPairFromMnemonic :: "'x ApproverNode \<Rightarrow> string \<Rightarrow> string result" where
  "keyPairFromMnemonic node mnemonic =
     (let ws = wordsOf (trim mnemonic)
      in if length ws < 12 then Inl (GenericError ''TON signer mnemonic looks too short (expected 24 words)'')
         else an_mnemonicToPrivateKey node ws)"

fun findIndex :: "'a \<Rightarrow> 'a list \<Rightarrow> nat option" where
  "findIndex x [] = None"
| "findIndex x (y # ys) = (if y = x then Some 0 else map_option Suc (findIndex x ys))"

fun findWallet :: "string list \<Rightarrow> string list \<Rightarrow> (string \<times> nat) option" where
  "findWallet signers [] = None"
| "findWallet signers (cand # cands) =
     (case findIndex cand signers of Some i \<Rightarrow> Some (cand, i) | None \<Rightarrow> findWallet signers cands)"

declare findWallet.simps [simp del]

section \<open>Waiting\<close>

definition orderIsInited :: "'x ApproverNode \<Rightarrow> string \<Rightarrow> (bool, 'x) approve_step" where
  "orderIsInited node orderAddr =
     readA node (\<lambda>i a x. bindE (an_state node i a orderAddr x) (\<lambda>st. Inr (st = ''active'')))"

definition readOrder :: "'x ApproverNode \<Rightarrow> string \<Rightarrow> (DeployedOrder, 'x) approve_step" where
  "readOrder node orderAddr = readA node (\<lambda>i a x. an_order node i a orderAddr x)"

text \<open>The bit of one signer; a missing element is \<open>undefined\<close>.\<close>

definition approvedBy :: "nat \<Rightarrow> DeployedOrder \<Rightarrow> bool" where
  "approvedBy myIdx od \<longleftrightarrow> myIdx < length (dor_approvals od) \<and> dor_approvals od ! myIdx"

text \<open>The two bounded polls have one loop: \<open>poll\<close> tells whether it is over.\<close>

fun waitLoop ::
  "'x ApproverNode \<Rightarrow> ApproverConfig \<Rightarrow> (bool, 'x) approve_step \<Rightarrow> js_error \<Rightarrow> int \<Rightarrow> nat \<Rightarrow> (unit, 'x) approve_step" where
  "waitLoop node cfg poll late deadline 0 w = None"
| "waitLoop node cfg poll late deadline (Suc n) w =
     (if \<not> ck_now (an_clock node) (aw_ext w) < deadline then Some (Inl late, w)
      else bindA poll (\<lambda>over w1.
             if over then Some (Inr (), w1)
             else waitLoop node cfg poll late deadline n
                    (w1\<lparr>aw_ext := ck_sleep (an_clock node) (ac_pollIntervalMs cfg) (aw_ext w1)\<rparr>)) w)"

text \<open>Fuel for a wait of \<open>ac_maxWaitMs\<close> in steps of \<open>ac_pollIntervalMs\<close>.\<close>

definition approveFuel :: "ApproverConfig \<Rightarrow> nat" where
  "approveFuel cfg = nat (ac_maxWaitMs cfg div ac_pollIntervalMs cfg) + 2"

definition notInited :: "ApproverConfig \<Rightarrow> string \<Rightarrow> string \<Rightarrow> js_error" where
  "notInited cfg orderAddr actionId = GenericError (''TON order '' @ orderAddr @ '' for '' @ actionId @
     '' did not appear within '' @ decInt (ac_maxWaitMs cfg) @ ''ms'')"

definition notReflected :: "ApproverConfig \<Rightarrow> nat \<Rightarrow> string \<Rightarrow> js_error" where
  "notReflected cfg myIdx actionId = GenericError (''TON approval for '' @ actionId @ '' (idx '' @ decNat myIdx @
     '') not reflected within '' @ decInt (ac_maxWaitMs cfg) @ ''ms'')"

definition waitForOrderInited :: "'x ApproverNode \<Rightarrow> ApproverConfig \<Rightarrow> string \<Rightarrow> string \<Rightarrow> (unit, 'x) approve_step" where
  "waitForOrderInited node cfg orderAddr actionId w =
     waitLoop node cfg (orderIsInited node orderAddr) (notInited cfg orderAddr actionId)
       (ck_now (an_clock node) (aw_ext w) + ac_maxWaitMs cfg) (approveFuel cfg) w"

definition approvalReflected :: "'x ApproverNode \<Rightarrow> string \<Rightarrow> nat \<Rightarrow> (bool, 'x) approve_step" where
  "approvalReflected node orderAddr myIdx =
     bindA (readOrder node orderAddr) (\<lambda>od. liftA (Inr (dor_executed od = Some True \<or> approvedBy myIdx od)))"

definition waitForApproval :: "'x ApproverNode \<Rightarrow> ApproverConfig \<Rightarrow> string \<Rightarrow> nat \<Rightarrow> string \<Rightarrow> (unit, 'x) approve_step" where
  "waitForApproval node cfg orderAddr myIdx actionId w =
     waitLoop node cfg (approvalReflected node orderAddr myIdx) (notReflected cfg myIdx actionId)
       (ck_now (an_clock node) (aw_ext w) + ac_maxWaitMs cfg) (approveFuel cfg) w"

section \<open>Approving\<close>

definition assertDeployedOrderHash :: "string option \<Rightarrow> json option \<Rightarrow> string \<Rightarrow> string \<Rightarrow> unit result" where
  "assertDeployedOrderHash deployed expected orderAddr actionId =
     throwIf (map_option JString deployed \<noteq> expected)
       (GenericError (''TON on-chain order body at '' @ orderAddr @ '' does not match validated action '' @ actionId))"

definition ORDER_TTL_SEC :: int where "ORDER_TTL_SEC = 3600"

definition receipt :: "string \<Rightarrow> nat \<Rightarrow> string \<Rightarrow> GramApprovalReceipt" where
  "receipt orderAddr myIdx role = \<lparr>rc_orderAddr = orderAddr, rc_myIdx = myIdx, rc_role = role\<rparr>"

text \<open>A string argument of \<open>Address.parse\<close>.\<close>

definition addressField :: "'x ApproverNode \<Rightarrow> json_obj \<Rightarrow> string \<Rightarrow> string result" where
  "addressField node p k = (case p k of
       Some (JString s) \<Rightarrow> an_parseAddress node s
     | _ \<Rightarrow> Inl (GenericError ''TypeError: not an address''))"

definition bigIntField :: "json_obj \<Rightarrow> string \<Rightarrow> int result" where
  "bigIntField p k = (case jsBigInt (p k) of
       None \<Rightarrow> Inl (GenericError ''SyntaxError: Cannot convert to a BigInt'') | Some n \<Rightarrow> Inr n)"

text \<open>The order is absent: open it if it is the next one, and wait for it. \<open>Some r\<close> ends the approval.\<close>

definition openOrder ::
  "'x ApproverNode \<Rightarrow> ApproverConfig \<Rightarrow> TransferRequest \<Rightarrow> json_obj \<Rightarrow> string \<Rightarrow> MultisigData \<Rightarrow> string \<Rightarrow> nat \<Rightarrow>
   (GramApprovalReceipt option, 'x) approve_step" where
  "openOrder node cfg transfer p orderAddr md wallet myIdx =
     bindA (readA node (\<lambda>i a x. an_nextAddress node i a (ms_nextOrderSeqno md) x)) (\<lambda>liveNext.
       if liveNext = orderAddr
       then (\<lambda>w. bindA
              (sendA node wallet (SendNewOrder (ac_multisig cfg) [transfer]
                 (ck_now (an_clock node) (aw_ext w) div 1000 + ORDER_TTL_SEC) (ac_orderValueNano cfg) myIdx True))
              (\<lambda>_. bindA (waitForOrderInited node cfg orderAddr (jsString (p ''actionId'')))
              (\<lambda>_. liftA (Inr (Some (receipt (jsString (p ''orderAddr'')) myIdx ''propose''))))) w)
       else bindA (waitForOrderInited node cfg orderAddr (jsString (p ''actionId''))) (\<lambda>_. liftA (Inr None)))"

definition approveDeployed ::
  "'x ApproverNode \<Rightarrow> ApproverConfig \<Rightarrow> json_obj \<Rightarrow> string \<Rightarrow> string \<Rightarrow> nat \<Rightarrow> (GramApprovalReceipt, 'x) approve_step" where
  "approveDeployed node cfg p orderAddr wallet myIdx =
     bindA (readOrder node orderAddr) (\<lambda>od.
     bindA (liftA (assertDeployedOrderHash (dor_orderHash od) (p ''orderHashHex'') (jsString (p ''orderAddr'')) (jsString (p ''actionId'')))) (\<lambda>_.
       if dor_executed od = Some True then liftA (Inr (receipt (jsString (p ''orderAddr'')) myIdx ''executed''))
       else if approvedBy myIdx od then liftA (Inr (receipt (jsString (p ''orderAddr'')) myIdx ''already''))
       else bindA (sendA node wallet (SendApprove orderAddr myIdx)) (\<lambda>_.
            bindA (waitForApproval node cfg orderAddr myIdx (jsString (p ''actionId''))) (\<lambda>_.
            liftA (Inr (receipt (jsString (p ''orderAddr'')) myIdx ''approve''))))))"

definition sendOrApprove ::
  "'x ApproverNode \<Rightarrow> ApproverConfig \<Rightarrow> TransferRequest \<Rightarrow> json_obj \<Rightarrow> (GramApprovalReceipt, 'x) approve_step" where
  "sendOrApprove node cfg transfer p =
     bindA (liftA (keyPairFromMnemonic node (ac_mnemonic cfg))) (\<lambda>pk.
     bindA (readA node (an_multisigData node)) (\<lambda>md.
       case findWallet (ms_signers md) [an_walletV4 node pk, an_walletV5R1 node pk] of
         None \<Rightarrow> liftA (Inl (GenericError ''TON approve: operator wallet is not in the multisig signer set''))
       | Some (wallet, myIdx) \<Rightarrow>
           bindA (liftA (addressField node p ''orderAddr'')) (\<lambda>orderAddr.
           bindA (orderIsInited node orderAddr) (\<lambda>inited.
           bindA (if inited then liftA (Inr None) else openOrder node cfg transfer p orderAddr md wallet myIdx) (\<lambda>opened.
             case opened of
               Some r \<Rightarrow> liftA (Inr r)
             | None \<Rightarrow> approveDeployed node cfg p orderAddr wallet myIdx)))))"

definition approveMint :: "'x ApproverNode \<Rightarrow> ApproverConfig \<Rightarrow> json_obj \<Rightarrow> (GramApprovalReceipt, 'x) approve_step" where
  "approveMint node cfg p =
     bindA (liftA (addressField node p ''toAddress'')) (\<lambda>toAddr.
     bindA (liftA (bigIntField p ''amountMilliViz'')) (\<lambda>amountBaseUnits.
     bindA (liftA (mintOrderCell (an_packHash node) (ac_minter cfg) toAddr amountBaseUnits)) (\<lambda>hashHex.
     bindA (liftA (throwIf (p ''orderHashHex'' \<noteq> Some (JString hashHex))
                     (GenericError (''TON order hash mismatch for '' @ jsString (p ''actionId''))))) (\<lambda>_.
       sendOrApprove node cfg (buildMintTransfer (ac_minter cfg) toAddr amountBaseUnits) p))))"

definition assertReturnOrderHash :: "'x ApproverNode \<Rightarrow> string \<Rightarrow> string \<Rightarrow> int \<Rightarrow> json option \<Rightarrow> unit result" where
  "assertReturnOrderHash node gatewayJettonWallet toAddr amountBaseUnits expected =
     bindE (returnOrderCell (an_packHash node) gatewayJettonWallet toAddr amountBaseUnits) (\<lambda>hashHex.
       throwIf (expected \<noteq> Some (JString hashHex)) (GenericError ''TON return order hash mismatch''))"

definition approveReturn :: "'x ApproverNode \<Rightarrow> ApproverConfig \<Rightarrow> json_obj \<Rightarrow> (GramApprovalReceipt, 'x) approve_step" where
  "approveReturn node cfg p =
     bindA (liftA (addressField node p ''toAddress'')) (\<lambda>toAddr.
     bindA (liftA (bigIntField p ''amountMilliViz'')) (\<lambda>amountBaseUnits.
     bindA (liftA (assertReturnOrderHash node (ac_jettonWallet cfg) toAddr amountBaseUnits (p ''orderHashHex''))) (\<lambda>_.
       sendOrApprove node cfg (buildReturnTransfer (ac_jettonWallet cfg) toAddr amountBaseUnits) p)))"

text \<open>The approver as the signer's collaborator.\<close>

definition runApprover :: "(GramApprovalReceipt, 'x) approve_step \<Rightarrow> 'x ApproverWorld \<Rightarrow>
   GramApprovalReceipt result \<times> 'x ApproverWorld" where
  "runApprover m w = (case m w of None \<Rightarrow> (Inl (GenericError ''still waiting''), w) | Some rw \<Rightarrow> rw)"

definition gramApprover :: "'x ApproverNode \<Rightarrow> ApproverConfig \<Rightarrow> 'x ApproverWorld GramApprovalClient" where
  "gramApprover node cfg = \<lparr>gac_approveMint = (\<lambda>p. runApprover (approveMint node cfg p)),
     gac_approveReturn = (\<lambda>p. runApprover (approveReturn node cfg p))\<rparr>"

section \<open>orbsEndpoint.ts\<close>

text \<open>The console output is not modelled; the resolver and the probe may throw.\<close>

definition resolveGramEndpoints ::
  "(string \<Rightarrow> string result) \<Rightarrow> (string \<Rightarrow> unit result) \<Rightarrow> string option \<Rightarrow> string list \<Rightarrow> bool \<Rightarrow> string list" where
  "resolveGramEndpoints resolve verify network configured enableOrbs =
     (if \<not> enableOrbs then configured
      else (case resolve (case network of None \<Rightarrow> ''mainnet'' | Some n \<Rightarrow> n) of
          Inl _ \<Rightarrow> configured
        | Inr raw \<Rightarrow>
            (let url = trim raw
             in if url = [] then configured
                else if url \<in> set configured then configured
                else (case verify url of Inl _ \<Rightarrow> configured | Inr _ \<Rightarrow> configured @ [url]))))"


section \<open>What a step sends\<close>

lemma bindA_eq:
  "bindA m f w = Some (r, w') \<longleftrightarrow>
     (\<exists>e. m w = Some (Inl e, w') \<and> r = Inl e) \<or> (\<exists>x w1. m w = Some (Inr x, w1) \<and> f x w1 = Some (r, w'))"
  by (auto simp: bindA_def split: option.splits sum.splits)

lemma bindA_step: "m w = Some (Inr x, w1) \<Longrightarrow> bindA m f w = f x w1"
  by (simp add: bindA_def)

lemma liftA_eq [simp]: "liftA r w = Some (r', w') \<longleftrightarrow> r' = r \<and> w' = w"
  by (auto simp: liftA_def)

lemma bindA_liftA [simp]:
  "bindA (liftA (Inl e)) f w = Some (Inl e, w)" "bindA (liftA (Inr x)) f w = f x w"
  by (simp_all add: bindA_def liftA_def)

definition quiet :: "('a, 'x) approve_step \<Rightarrow> bool" where
  "quiet m \<longleftrightarrow> (\<forall>w r w'. m w = Some (r, w') \<longrightarrow> aw_sent w' = aw_sent w)"

lemma quietD: "quiet m \<Longrightarrow> m w = Some (r, w') \<Longrightarrow> aw_sent w' = aw_sent w"
  by (simp add: quiet_def)

lemma quiet_liftA [simp]: "quiet (liftA r)"
  by (simp add: quiet_def)

lemma quiet_readA [simp]: "quiet (readA node f)"
  by (auto simp: quiet_def readA_def split: prod.splits)

lemma quiet_bindA: "quiet m \<Longrightarrow> (\<And>x. quiet (f x)) \<Longrightarrow> quiet (bindA m f)"
  unfolding quiet_def bindA_eq by metis

lemma quiet_waitLoop:
  assumes "quiet poll"
  shows "quiet (waitLoop node cfg poll late deadline n)"
  unfolding quiet_def
proof (intro allI impI)
  fix w r w'
  assume "waitLoop node cfg poll late deadline n w = Some (r, w')"
  then show "aw_sent w' = aw_sent w"
  proof (induction n arbitrary: w)
    case (Suc n)
    then show ?case by (auto simp: bindA_eq dest: quietD [OF assms] split: if_splits)
  qed simp
qed

lemma quiet_polls [simp]: "quiet (orderIsInited node a)" "quiet (readOrder node a)" "quiet (approvalReflected node a i)"
  by (simp_all add: orderIsInited_def readOrder_def approvalReflected_def quiet_bindA)

lemma quiet_waits [simp]: "quiet (waitForOrderInited node cfg a k)" "quiet (waitForApproval node cfg a i k)"
  unfolding quiet_def waitForOrderInited_def waitForApproval_def
  by (auto dest: quietD [OF quiet_waitLoop [OF quiet_polls(1)]] quietD [OF quiet_waitLoop [OF quiet_polls(3)]])

lemma sendA_sent: "sendA node wallet msg w = Some (r, w') \<Longrightarrow> aw_sent w' = aw_sent w @ [(wallet, msg)]"
  by (auto simp: sendA_def split: prod.splits)

lemma readA_Inr: "readA node f w = Some (Inr v, w') \<Longrightarrow> \<exists>i a x. f i a x = Inr v"
  by (auto simp: readA_def split: prod.splits dest!: tonCall_Inr)

text \<open>An order at an address, as some client of this operator has read it.\<close>

definition readsOrder :: "'x ApproverNode \<Rightarrow> string \<Rightarrow> DeployedOrder \<Rightarrow> bool" where
  "readsOrder node orderAddr od \<longleftrightarrow> (\<exists>i a x. an_order node i a orderAddr x = Inr od)"

text \<open>The two messages the approver has for a transfer: opening its order, and approving a deployed order of that hash.\<close>

definition opens :: "ApproverConfig \<Rightarrow> TransferRequest \<Rightarrow> TonSend \<Rightarrow> bool" where
  "opens cfg transfer msg \<longleftrightarrow>
     (\<exists>expiration myIdx. msg = SendNewOrder (ac_multisig cfg) [transfer] expiration (ac_orderValueNano cfg) myIdx True)"

definition approvesDeployed :: "'x ApproverNode \<Rightarrow> string \<Rightarrow> TonSend \<Rightarrow> bool" where
  "approvesDeployed node hash msg \<longleftrightarrow>
     (\<exists>orderAddr myIdx od. msg = SendApprove orderAddr myIdx \<and> readsOrder node orderAddr od \<and>
        dor_orderHash od = Some hash \<and> dor_executed od \<noteq> Some True \<and> \<not> approvedBy myIdx od)"

lemma openOrder_sends:
  assumes "openOrder node cfg transfer p orderAddr md wallet myIdx w = Some (r, w')"
  shows "(aw_sent w' = aw_sent w \<and> (\<forall>x. r \<noteq> Inr (Some x))) \<or>
    (\<exists>msg. aw_sent w' = aw_sent w @ [(wallet, msg)] \<and> opens cfg transfer msg \<and> r \<noteq> Inr None)"
  using assms unfolding openOrder_def opens_def
  by (auto simp: bindA_eq dest!: quietD [OF quiet_readA] quietD [OF quiet_waits(1)] sendA_sent split: if_splits)

lemma approveDeployed_sends:
  assumes "approveDeployed node cfg p orderAddr wallet myIdx w = Some (r, w')" "p ''orderHashHex'' = Some (JString hash)"
  shows "aw_sent w' = aw_sent w \<or> (\<exists>msg. aw_sent w' = aw_sent w @ [(wallet, msg)] \<and> approvesDeployed node hash msg)"
proof -
  have step: "aw_sent w' = aw_sent w1 \<or> aw_sent w' = aw_sent w1 @ [(wallet, SendApprove orderAddr myIdx)]"
    if "bindA (sendA node wallet (SendApprove orderAddr myIdx)) (\<lambda>_.
          bindA (waitForApproval node cfg orderAddr myIdx k) (\<lambda>_. liftA rc)) w1 = Some (r, w')" for w1 k rc
    using that by (auto simp: bindA_eq dest!: quietD [OF quiet_waits(2)] sendA_sent)
  show ?thesis
  proof (cases "\<exists>od w1. readOrder node orderAddr w = Some (Inr od, w1)")
    case False
    then show ?thesis using assms(1) quietD [OF quiet_polls(2)] by (auto simp: approveDeployed_def bindA_eq)
  next
    case True
    then obtain od w1 where od: "readOrder node orderAddr w = Some (Inr od, w1)" by blast
    have w1: "aw_sent w1 = aw_sent w" by (rule quietD [OF quiet_polls(2) od])
    have rd: "readsOrder node orderAddr od"
      using readA_Inr [OF od [unfolded readOrder_def]] by (auto simp: readsOrder_def)
    show ?thesis
    proof (cases "dor_orderHash od = Some hash \<and> dor_executed od \<noteq> Some True \<and> \<not> approvedBy myIdx od")
      case True
      then have "approvesDeployed node hash (SendApprove orderAddr myIdx)" using rd by (auto simp: approvesDeployed_def)
      moreover from assms(1) True have "aw_sent w' = aw_sent w1 \<or> aw_sent w' = aw_sent w1 @ [(wallet, SendApprove orderAddr myIdx)]"
        by (simp add: approveDeployed_def od bindA_def [of "readOrder node orderAddr"] assms(2) assertDeployedOrderHash_def step)
      ultimately show ?thesis using w1 by auto
    next
      case False
      with assms od w1 show ?thesis
        by (auto simp: approveDeployed_def bindA_def [of "readOrder node orderAddr"] assertDeployedOrderHash_def throwIf_def
            split: if_splits)
    qed
  qed
qed

text \<open>At most one message leaves, and it is one of the two.\<close>

lemma sendOrApprove_sends:
  assumes "sendOrApprove node cfg transfer p w = Some (r, w')" "p ''orderHashHex'' = Some (JString hash)"
  shows "aw_sent w' = aw_sent w \<or>
    (\<exists>wallet msg. aw_sent w' = aw_sent w @ [(wallet, msg)] \<and> (opens cfg transfer msg \<or> approvesDeployed node hash msg))"
proof -
  obtain pk where pk: "keyPairFromMnemonic node (ac_mnemonic cfg) = Inr pk \<or> aw_sent w' = aw_sent w"
    using assms(1) by (cases "keyPairFromMnemonic node (ac_mnemonic cfg)") (auto simp: sendOrApprove_def)
  show ?thesis
  proof (cases "aw_sent w' = aw_sent w")
    case False
    with pk assms(1) obtain md w1 where md: "readA node (an_multisigData node) w = Some (Inr md, w1)" and
      rest: "(case findWallet (ms_signers md) [an_walletV4 node pk, an_walletV5R1 node pk] of
         None \<Rightarrow> liftA (Inl (GenericError ''TON approve: operator wallet is not in the multisig signer set''))
       | Some (wallet, myIdx) \<Rightarrow>
           bindA (liftA (addressField node p ''orderAddr'')) (\<lambda>orderAddr.
           bindA (orderIsInited node orderAddr) (\<lambda>inited.
           bindA (if inited then liftA (Inr None) else openOrder node cfg transfer p orderAddr md wallet myIdx) (\<lambda>opened.
             case opened of
               Some r \<Rightarrow> liftA (Inr r)
             | None \<Rightarrow> approveDeployed node cfg p orderAddr wallet myIdx)))) w1 = Some (r, w')"
      using quietD [OF quiet_readA, of node "an_multisigData node" w]
      by (simp add: sendOrApprove_def) (auto simp: bindA_eq [of "readA node (an_multisigData node)"])
    have w1: "aw_sent w1 = aw_sent w" by (rule quietD [OF quiet_readA md])
    obtain wallet myIdx where wal: "findWallet (ms_signers md) [an_walletV4 node pk, an_walletV5R1 node pk] = Some (wallet, myIdx)"
      using rest w1 False by (cases "findWallet (ms_signers md) [an_walletV4 node pk, an_walletV5R1 node pk]") auto
    obtain orderAddr where oa: "addressField node p ''orderAddr'' = Inr orderAddr"
      using rest w1 False wal by (cases "addressField node p ''orderAddr''") auto
    obtain inited w2 where i: "orderIsInited node orderAddr w1 = Some (Inr inited, w2)" and
      rest2: "bindA (if inited then liftA (Inr None) else openOrder node cfg transfer p orderAddr md wallet myIdx) (\<lambda>opened.
             case opened of
               Some r \<Rightarrow> liftA (Inr r)
             | None \<Rightarrow> approveDeployed node cfg p orderAddr wallet myIdx) w2 = Some (r, w')"
      using rest w1 False quietD [OF quiet_polls(1), of node orderAddr w1]
      by (simp add: wal oa) (auto simp: bindA_eq [of "orderIsInited node orderAddr"])
    have w2: "aw_sent w2 = aw_sent w" using quietD [OF quiet_polls(1) i] w1 by simp
    show ?thesis
    proof (cases inited)
      case True
      with rest2 have "approveDeployed node cfg p orderAddr wallet myIdx w2 = Some (r, w')" by simp
      from approveDeployed_sends [OF this assms(2)] w2 show ?thesis by auto
    next
      case no: False
      from rest2 no have "(\<exists>e. openOrder node cfg transfer p orderAddr md wallet myIdx w2 = Some (Inl e, w')) \<or>
          (\<exists>x. openOrder node cfg transfer p orderAddr md wallet myIdx w2 = Some (Inr (Some x), w')) \<or>
          (\<exists>w3. openOrder node cfg transfer p orderAddr md wallet myIdx w2 = Some (Inr None, w3) \<and>
             approveDeployed node cfg p orderAddr wallet myIdx w3 = Some (r, w'))"
        by (auto simp: bindA_eq [of "openOrder node cfg transfer p orderAddr md wallet myIdx"] split: option.splits)
      then show ?thesis
      proof (elim disjE exE conjE)
        fix w3
        assume o3: "openOrder node cfg transfer p orderAddr md wallet myIdx w2 = Some (Inr None, w3)"
          and a: "approveDeployed node cfg p orderAddr wallet myIdx w3 = Some (r, w')"
        from openOrder_sends [OF o3] w2 have "aw_sent w3 = aw_sent w" by simp
        with approveDeployed_sends [OF a assms(2)] show ?thesis by auto
      next
        fix e assume "openOrder node cfg transfer p orderAddr md wallet myIdx w2 = Some (Inl e, w')"
        from openOrder_sends [OF this] w2 show ?thesis by auto
      next
        fix x assume "openOrder node cfg transfer p orderAddr md wallet myIdx w2 = Some (Inr (Some x), w')"
        from openOrder_sends [OF this] w2 show ?thesis by auto
      qed
    qed
  qed blast
qed

section \<open>Every wait ends\<close>

definition total :: "('a, 'x) approve_step \<Rightarrow> bool" where
  "total m \<longleftrightarrow> (\<forall>w. m w \<noteq> None)"

lemma total_simps [simp]: "total (liftA r)" "total (readA node f)" "total (sendA node wal msg)"
  by (auto simp: total_def liftA_def readA_def sendA_def split: prod.splits)

lemma total_bindA: "total m \<Longrightarrow> (\<And>x. total (f x)) \<Longrightarrow> total (bindA m f)"
  by (auto simp: total_def bindA_def split: option.splits sum.splits)

definition onTime :: "'x ApproverNode \<Rightarrow> ('a, 'x) approve_step \<Rightarrow> bool" where
  "onTime node m \<longleftrightarrow> (\<forall>w r w'. m w = Some (r, w') \<longrightarrow> ck_now (an_clock node) (aw_ext w) \<le> ck_now (an_clock node) (aw_ext w'))"

lemma onTime_readA: "clockRuns (an_clock node) (an_elapse node) \<Longrightarrow> onTime node (readA node f)"
  by (auto simp: onTime_def readA_def clockRuns_def split: prod.splits)

lemma onTime_polls:
  assumes "clockRuns (an_clock node) (an_elapse node)"
  shows "onTime node (orderIsInited node a)" "onTime node (approvalReflected node a i)"
  using onTime_readA [OF assms]
  by (auto simp: orderIsInited_def approvalReflected_def readOrder_def onTime_def bindA_eq)

lemma total_polls [simp]: "total (orderIsInited node a)" "total (readOrder node a)" "total (approvalReflected node a i)"
  by (simp_all add: orderIsInited_def readOrder_def approvalReflected_def total_bindA)

lemma waitLoop_enough:
  assumes "clockRuns (an_clock node) (an_elapse node)" "0 < ac_pollIntervalMs cfg" "total poll" "onTime node poll"
    "deadline \<le> ck_now (an_clock node) (aw_ext w) + ac_pollIntervalMs cfg * int n"
  shows "waitLoop node cfg poll late deadline (Suc n) w \<noteq> None"
  using assms(5)
proof (induction n arbitrary: w)
  case (Suc n)
  obtain r w1 where r: "poll w = Some (r, w1)" using assms(3) by (fastforce simp: total_def)
  let ?w = "w1\<lparr>aw_ext := ck_sleep (an_clock node) (ac_pollIntervalMs cfg) (aw_ext w1)\<rparr>"
  have "ck_now (an_clock node) (aw_ext w) + ac_pollIntervalMs cfg \<le> ck_now (an_clock node) (aw_ext ?w)"
    using assms(2,4) r clockRuns_sleep [OF assms(1), of "ac_pollIntervalMs cfg" "aw_ext w1"]
    by (fastforce simp: onTime_def)
  then have "deadline \<le> ck_now (an_clock node) (aw_ext ?w) + ac_pollIntervalMs cfg * int n"
    using Suc.prems by (simp add: algebra_simps)
  from Suc.IH [OF this] r show ?case
    by (subst waitLoop.simps) (auto simp: bindA_def split: sum.split)
qed simp

lemma fuel_enough:
  assumes "0 < ac_pollIntervalMs cfg"
  shows "ac_maxWaitMs cfg \<le> ac_pollIntervalMs cfg * int (nat (ac_maxWaitMs cfg div ac_pollIntervalMs cfg) + 1)"
proof (cases "0 \<le> ac_maxWaitMs cfg")
  case True
  let ?q = "ac_maxWaitMs cfg div ac_pollIntervalMs cfg"
  have "0 \<le> ?q" using assms True by (simp add: pos_imp_zdiv_nonneg_iff)
  then have "ac_pollIntervalMs cfg * int (nat ?q + 1) = ac_pollIntervalMs cfg * ?q + ac_pollIntervalMs cfg"
    by (simp add: distrib_left)
  moreover have "ac_pollIntervalMs cfg * ?q + ac_maxWaitMs cfg mod ac_pollIntervalMs cfg = ac_maxWaitMs cfg"
    by (rule mult_div_mod_eq)
  moreover have "ac_maxWaitMs cfg mod ac_pollIntervalMs cfg < ac_pollIntervalMs cfg" using assms by simp
  ultimately show ?thesis by linarith
next
  case False
  moreover have "0 \<le> ac_pollIntervalMs cfg * int (nat (ac_maxWaitMs cfg div ac_pollIntervalMs cfg) + 1)"
    using assms by simp
  ultimately show ?thesis by linarith
qed

lemma total_waits:
  assumes "clockRuns (an_clock node) (an_elapse node)" "0 < ac_pollIntervalMs cfg"
  shows "total (waitForOrderInited node cfg a k)" "total (waitForApproval node cfg a i k)"
  using waitLoop_enough [OF assms total_polls(1) onTime_polls(1) [OF assms(1)]]
    waitLoop_enough [OF assms total_polls(3) onTime_polls(2) [OF assms(1)]] fuel_enough [OF assms(2)]
  by (simp_all add: total_def waitForOrderInited_def waitForApproval_def approveFuel_def del: waitLoop.simps)

lemma total_if: "total a \<Longrightarrow> total b \<Longrightarrow> total (if c then a else b)"
  by simp

lemma total_send: "(\<And>x. total (f x)) \<Longrightarrow> total (\<lambda>w. bindA (sendA node wallet (msg w)) f w)"
  unfolding total_def
proof (intro allI)
  fix w
  assume f: "\<And>x. \<forall>w. f x w \<noteq> None"
  have "sendA node wallet (msg w) w \<noteq> None" by (simp add: sendA_def split: prod.split)
  with f show "bindA (sendA node wallet (msg w)) f w \<noteq> None"
    by (auto simp: bindA_def split: option.splits sum.splits)
qed

lemma total_openOrder:
  assumes "clockRuns (an_clock node) (an_elapse node)" "0 < ac_pollIntervalMs cfg"
  shows "total (openOrder node cfg transfer p orderAddr md wallet myIdx)"
  unfolding openOrder_def
  by (intro total_bindA total_if total_send total_simps total_waits [OF assms])

lemma total_approveDeployed:
  assumes "clockRuns (an_clock node) (an_elapse node)" "0 < ac_pollIntervalMs cfg"
  shows "total (approveDeployed node cfg p orderAddr wallet myIdx)"
  unfolding approveDeployed_def
  by (intro total_bindA total_if total_simps total_polls total_waits [OF assms])

lemma total_sendOrApprove:
  assumes "clockRuns (an_clock node) (an_elapse node)" "0 < ac_pollIntervalMs cfg"
  shows "total (sendOrApprove node cfg transfer p)"
  unfolding sendOrApprove_def
  by (intro total_bindA total_if total_simps total_polls total_openOrder [OF assms])
    (auto split: option.splits intro!: total_bindA total_if total_openOrder [OF assms] total_approveDeployed [OF assms])

lemma total_approve:
  assumes "clockRuns (an_clock node) (an_elapse node)" "0 < ac_pollIntervalMs cfg"
  shows "total (approveMint node cfg p)" "total (approveReturn node cfg p)"
  unfolding approveMint_def approveReturn_def
  by (intro total_bindA total_simps total_sendOrApprove [OF assms])+

section \<open>Properties\<close>

text \<open>The order an operator stands for when it approves a mint or a return.\<close>

definition standsFor :: "'x ApproverNode \<Rightarrow> ApproverConfig \<Rightarrow> TransferRequest \<Rightarrow> TonSend \<Rightarrow> bool" where
  "standsFor node cfg transfer msg \<longleftrightarrow> opens cfg transfer msg \<or>
     (\<exists>hash. an_packHash node [transfer] = Inr hash \<and> approvesDeployed node hash msg)"

lemma approveMint_sends:
  assumes "approveMint node cfg p w = Some (r, w')"
  shows "aw_sent w' = aw_sent w \<or>
    (\<exists>toAddr n wallet msg. addressField node p ''toAddress'' = Inr toAddr \<and> jsBigInt (p ''amountMilliViz'') = Some n \<and>
       aw_sent w' = aw_sent w @ [(wallet, msg)] \<and> standsFor node cfg (buildMintTransfer (ac_minter cfg) toAddr n) msg)"
proof (cases "aw_sent w' = aw_sent w")
  case False
  obtain toAddr where to: "addressField node p ''toAddress'' = Inr toAddr"
    using assms False by (cases "addressField node p ''toAddress''") (auto simp: approveMint_def)
  obtain n where n: "jsBigInt (p ''amountMilliViz'') = Some n"
    using assms False by (cases "jsBigInt (p ''amountMilliViz'')") (auto simp: approveMint_def to bigIntField_def)
  obtain hash where h: "an_packHash node [buildMintTransfer (ac_minter cfg) toAddr n] = Inr hash"
    using assms False
    by (cases "an_packHash node [buildMintTransfer (ac_minter cfg) toAddr n]")
      (auto simp: approveMint_def to n bigIntField_def mintOrderCell_def)
  have e: "p ''orderHashHex'' = Some (JString hash)"
    using assms False by (auto simp: approveMint_def to n h bigIntField_def mintOrderCell_def throwIf_def split: if_splits)
  have "sendOrApprove node cfg (buildMintTransfer (ac_minter cfg) toAddr n) p w = Some (r, w')"
    using assms by (simp add: approveMint_def to n h e bigIntField_def mintOrderCell_def)
  from sendOrApprove_sends [OF this e] False to n h show ?thesis by (auto simp: standsFor_def)
qed simp

lemma approveReturn_sends:
  assumes "approveReturn node cfg p w = Some (r, w')"
  shows "aw_sent w' = aw_sent w \<or>
    (\<exists>toAddr n wallet msg. addressField node p ''toAddress'' = Inr toAddr \<and> jsBigInt (p ''amountMilliViz'') = Some n \<and>
       aw_sent w' = aw_sent w @ [(wallet, msg)] \<and> standsFor node cfg (buildReturnTransfer (ac_jettonWallet cfg) toAddr n) msg)"
proof (cases "aw_sent w' = aw_sent w")
  case False
  obtain toAddr where to: "addressField node p ''toAddress'' = Inr toAddr"
    using assms False by (cases "addressField node p ''toAddress''") (auto simp: approveReturn_def)
  obtain n where n: "jsBigInt (p ''amountMilliViz'') = Some n"
    using assms False by (cases "jsBigInt (p ''amountMilliViz'')") (auto simp: approveReturn_def to bigIntField_def)
  obtain hash where h: "an_packHash node [buildReturnTransfer (ac_jettonWallet cfg) toAddr n] = Inr hash"
    using assms False
    by (cases "an_packHash node [buildReturnTransfer (ac_jettonWallet cfg) toAddr n]")
      (auto simp: approveReturn_def to n bigIntField_def assertReturnOrderHash_def returnOrderCell_def)
  have e: "p ''orderHashHex'' = Some (JString hash)"
    using assms False
    by (auto simp: approveReturn_def to n h bigIntField_def assertReturnOrderHash_def returnOrderCell_def throwIf_def split: if_splits)
  have "sendOrApprove node cfg (buildReturnTransfer (ac_jettonWallet cfg) toAddr n) p w = Some (r, w')"
    using assms by (simp add: approveReturn_def to n h e bigIntField_def assertReturnOrderHash_def returnOrderCell_def)
  from sendOrApprove_sends [OF this e] False to n h show ?thesis by (auto simp: standsFor_def)
qed simp

lemma callApprover_world:
  assumes "ks_gramApprover ks = Some (gramApprover node cfg)"
  shows "snd (callApprover ks action gac_approveMint p w) = snd (runApprover (approveMint node cfg p) w)"
    "snd (callApprover ks action gac_approveReturn p w) = snd (runApprover (approveReturn node cfg p) w)"
  using assms by (simp_all add: callApprover_def gramApprover_def split: prod.split sum.split)

lemma routeApproval_world:
  assumes "routeApproval ks action p hint w = (res, w')"
  shows "w' = w \<or> (gramMintChecks ks action p hint = Inr () \<and> w' = snd (callApprover ks action gac_approveMint p w)) \<or>
    (gramReturnChecks ks action p hint = Inr () \<and> w' = snd (callApprover ks action gac_approveReturn p w))"
  using assms by (auto simp: routeApproval_def approveGramMint_def approveGramReturn_def split: if_splits sum.splits)

text \<open>
  C22. What a signer sends to TON is what it validated. When a signer is asked to approve anything,
  its approver ends its bounded waits, and at most one message leaves; if one does, the operator's
  own source check has accepted the action, and the message either opens the order that transfers
  to exactly this action's recipient exactly the derived net amount (for a return: the action's
  amount), or approves an order that is deployed, not executed, and whose body this operator has
  read and found to hash to that order.
\<close>

theorem ton_message_is_validated_order:
  assumes "clockRuns (an_clock node) (an_elapse node)" "0 < ac_pollIntervalMs cfg"
    "ks_gramApprover ks = Some (gramApprover node cfg)" "routeApproval ks action p hint w = (res, w')"
  shows "approveMint node cfg p w \<noteq> None \<and> approveReturn node cfg p w \<noteq> None \<and>
    (aw_sent w' = aw_sent w \<or> (\<exists>toAddr transfer wallet msg.
       assertSource ks action hint = Inr () \<and> an_parseAddress node (act_recipient action) = Inr toAddr \<and>
       (act_direction action = PEG_IN \<and> transfer = buildMintTransfer (ac_minter cfg) toAddr
          (netOf (act_amountMilliViz action) (jsTruthy (p ''destProvisioned'')) (pegInFeePolicyFor (ks_fees ks) GRAM)) \<or>
        act_direction action = GRAM_RETURN \<and> transfer = buildReturnTransfer (ac_jettonWallet cfg) toAddr (act_amountMilliViz action)) \<and>
       aw_sent w' = aw_sent w @ [(wallet, msg)] \<and> standsFor node cfg transfer msg))"
proof -
  obtain r1 w1 where m: "approveMint node cfg p w = Some (r1, w1)"
    using total_approve(1) [OF assms(1,2)] by (fastforce simp: total_def)
  obtain r2 w2 where t: "approveReturn node cfg p w = Some (r2, w2)"
    using total_approve(2) [OF assms(1,2)] by (fastforce simp: total_def)
  show ?thesis
  proof (cases "w' = w")
    case False
    then consider
      (mint) "gramMintChecks ks action p hint = Inr ()" "w' = w1"
    | (return') "gramReturnChecks ks action p hint = Inr ()" "w' = w2"
      using routeApproval_world [OF assms(4)] callApprover_world [OF assms(3), of action p w]
      by (auto simp: m t runApprover_def)
    then show ?thesis
    proof cases
      case mint
      then have c: "act_direction action = PEG_IN" "assertSource ks action hint = Inr ()"
        "p ''toAddress'' = Some (JString (act_recipient action))"
        "assertNet ks action GRAM (jsTruthy (p ''destProvisioned'')) (p ''amountMilliViz'') = Inr ()"
        by (auto simp: gramMintChecks_def err_simps)
      have "jsBigInt (p ''amountMilliViz'') = Some (netOf (act_amountMilliViz action) (jsTruthy (p ''destProvisioned''))
          (pegInFeePolicyFor (ks_fees ks) GRAM))"
        using assertNet_ok [OF c(4)] by auto
      with approveMint_sends [OF m] c mint(2) m t show ?thesis by (auto simp: addressField_def)
    next
      case return'
      then have c: "act_direction action = GRAM_RETURN" "assertSource ks action hint = Inr ()"
        "p ''toAddress'' = Some (JString (act_recipient action))"
        "jsBigInt (p ''amountMilliViz'') = Some (act_amountMilliViz action)"
        by (auto simp: gramReturnChecks_def err_simps split: option.splits)
      with approveReturn_sends [OF t] return'(2) m t show ?thesis by (auto simp: addressField_def)
    qed
  qed (use m t in simp)
qed

text \<open>
  An operator with a return to approve: its order is deployed with the right body and not yet
  approved; the message to approve it is reflected at once (the world counts the messages).
\<close>

definition approver_node_example :: "int ApproverNode" where
  "approver_node_example = \<lparr>an_clients = 1, an_transient = (\<lambda>_. False), an_elapse = (\<lambda>x. x), an_clock = clock_example,
     an_parseAddress = Inr, an_packHash = (\<lambda>ts. Inr ''hash''), an_mnemonicToPrivateKey = (\<lambda>_. Inr ''pk''),
     an_walletV4 = (\<lambda>pk. ''w4''), an_walletV5R1 = (\<lambda>pk. ''w5''),
     an_multisigData = (\<lambda>_ _ _. Inr \<lparr>ms_nextOrderSeqno = 8, ms_threshold = 2, ms_signers = [''other'', ''w5''], ms_proposers = []\<rparr>),
     an_nextAddress = (\<lambda>_ _ _ _. Inr ''EQ9''), an_state = (\<lambda>_ _ _ _. Inr ''active''),
     an_order = (\<lambda>_ _ _ x. Inr \<lparr>dor_executed = Some False, dor_approvals = [True, x > 0], dor_orderHash = Some ''hash''\<rparr>),
     an_send = (\<lambda>_ _ _ x. (Inr (), x + 1))\<rparr>"

definition approver_config_example :: ApproverConfig where
  "approver_config_example = \<lparr>ac_minter = ''EQm'', ac_multisig = ''EQx'', ac_mnemonic = ''a b c d e f g h i j k l'',
     ac_jettonWallet = ''EQj'', ac_pollIntervalMs = 3000, ac_maxWaitMs = 60000, ac_orderValueNano = 1000000000\<rparr>"

definition approver_signer_example :: "int ApproverWorld KeyedSigner" where
  "approver_signer_example = \<lparr>ks_operatorId = ''op1'', ks_vizWif = ''5J'', ks_fees = fees_example, ks_solanaSecret = None,
     ks_validateSource = Some (validateAction hash_example deps_example), ks_solanaPins = None,
     ks_gramApprover = Some (gramApprover approver_node_example approver_config_example), ks_accounts = None,
     ks_signTx = (\<lambda>_ _. Inr []), ks_mintMessage = (\<lambda>_. Inr []), ks_member = (\<lambda>_. []), ks_partialSign = (\<lambda>_ _. Inr [])\<rparr>"

definition return_proposal_example :: json_obj where
  "return_proposal_example = [''toAddress'' \<mapsto> JString ''EQsender'', ''amountMilliViz'' \<mapsto> JString (decInt (act_amountMilliViz return_example)),
     ''orderAddr'' \<mapsto> JString ''EQ8'', ''orderHashHex'' \<mapsto> JString ''hash'', ''actionId'' \<mapsto> JString ''x'']"

definition approver_world_example :: "int ApproverWorld" where
  "approver_world_example = \<lparr>aw_idx = 0, aw_sent = [], aw_ext = 0\<rparr>"

lemma approver_example_simps:
  "an_order approver_node_example i a o' x =
     Inr \<lparr>dor_executed = Some False, dor_approvals = [True, x > 0], dor_orderHash = Some ''hash''\<rparr>"
  "an_state approver_node_example i a o' x = Inr ''active''" "an_parseAddress approver_node_example s = Inr s"
  "an_packHash approver_node_example ts = Inr ''hash''" "an_send approver_node_example j wal m x = (Inr (), x + 1)"
  "an_multisigData approver_node_example i a x =
     Inr \<lparr>ms_nextOrderSeqno = 8, ms_threshold = 2, ms_signers = [''other'', ''w5''], ms_proposers = []\<rparr>"
  "an_walletV4 approver_node_example k = ''w4''" "an_walletV5R1 approver_node_example k = ''w5''"
  "an_clock approver_node_example = clock_example" "an_elapse approver_node_example = (\<lambda>x. x)"
  "an_mnemonicToPrivateKey approver_node_example ws = Inr ''pk''"
  "ac_pollIntervalMs approver_config_example = 3000" "ac_maxWaitMs approver_config_example = 60000"
  "ac_mnemonic approver_config_example = ''a b c d e f g h i j k l''" "ac_jettonWallet approver_config_example = ''EQj''"
  by (simp_all add: approver_node_example_def approver_config_example_def)

lemma return_proposal_fields:
  "return_proposal_example ''toAddress'' = Some (JString ''EQsender'')"
  "return_proposal_example ''amountMilliViz'' = Some (JString (decInt (act_amountMilliViz return_example)))"
  "return_proposal_example ''orderAddr'' = Some (JString ''EQ8'')"
  "return_proposal_example ''orderHashHex'' = Some (JString ''hash'')"
  by (simp_all add: return_proposal_example_def)

lemma readA_example: "readA approver_node_example f w = Some (f (aw_idx w) 1 (aw_ext w), w)"
proof -
  have "an_clients approver_node_example = 1" "an_elapse approver_node_example = (\<lambda>x. x)"
    by (simp_all add: approver_node_example_def)
  then show ?thesis by (simp add: readA_def tonCall.simps split: sum.split)
qed

lemma approver_example_run:
  "approveReturn approver_node_example approver_config_example return_proposal_example approver_world_example =
     Some (Inr (receipt ''EQ8'' 1 ''approve''), \<lparr>aw_idx = 0, aw_sent = [(''w5'', SendApprove ''EQ8'' 1)], aw_ext = 1\<rparr>)"
proof -
  let ?n = approver_node_example and ?c = approver_config_example and ?p = return_proposal_example
  let ?w = approver_world_example and ?w' = "\<lparr>aw_idx = 0, aw_sent = [(''w5'', SendApprove ''EQ8'' 1)], aw_ext = 1\<rparr> :: int ApproverWorld"
  let ?od = "\<lparr>dor_executed = Some False, dor_approvals = [True, False], dor_orderHash = Some ''hash''\<rparr>"
  have words: "length (wordsOf (trim ''a b c d e f g h i j k l'')) = 12" by code_simp
  have key: "keyPairFromMnemonic ?n ''a b c d e f g h i j k l'' = Inr ''pk''"
    by (simp add: keyPairFromMnemonic_def approver_example_simps words Let_def)
  have fuel: "approveFuel ?c = Suc 21" by (simp add: approveFuel_def approver_example_simps)
  have wait: "waitForApproval ?n ?c ''EQ8'' 1 k ?w' = Some (Inr (), ?w')" for k
    unfolding waitForApproval_def fuel waitLoop.simps
    by (simp add: approvalReflected_def readOrder_def readA_example bindA_def liftA_def approver_example_simps approvedBy_def
        clock_example_def)
  have wallet: "findWallet [''other'', ''w5''] [''w4'', ''w5''] = Some (''w5'', 1)" by (simp add: findWallet.simps)
  have order: "readOrder ?n ''EQ8'' ?w = Some (Inr ?od, ?w)"
    by (simp add: readOrder_def readA_example approver_example_simps approver_world_example_def)
  have send: "sendA ?n ''w5'' (SendApprove ''EQ8'' 1) ?w = Some (Inr (), ?w')"
    by (simp add: sendA_def approver_example_simps approver_world_example_def)
  have "approveDeployed ?n ?c ?p ''EQ8'' ''w5'' 1 ?w = Some (Inr (receipt ''EQ8'' 1 ''approve''), ?w')"
    using order send wait
    by (simp add: approveDeployed_def bindA_step assertDeployedOrderHash_def return_proposal_fields approvedBy_def)
  moreover have "orderIsInited ?n ''EQ8'' ?w = Some (Inr True, ?w)"
    by (simp add: orderIsInited_def readA_example approver_example_simps)
  moreover have "readA ?n (an_multisigData ?n) ?w =
      Some (Inr \<lparr>ms_nextOrderSeqno = 8, ms_threshold = 2, ms_signers = [''other'', ''w5''], ms_proposers = []\<rparr>, ?w)"
    by (simp add: readA_example approver_example_simps)
  ultimately show ?thesis
    by (simp add: approveReturn_def addressField_def return_proposal_fields approver_example_simps bigIntField_def
        assertReturnOrderHash_def returnOrderCell_def sendOrApprove_def key bindA_step wallet)
qed

theorem ton_message_is_validated_order_witness:
  "\<exists>res w' wallet msg. routeApproval approver_signer_example return_example return_proposal_example None approver_world_example = (res, w') \<and>
     aw_sent w' = [(wallet, msg)] \<and>
     standsFor approver_node_example approver_config_example (buildReturnTransfer ''EQj'' ''EQsender'' 6900) msg"
proof -
  let ?ks = approver_signer_example and ?p = return_proposal_example and ?w = approver_world_example
  obtain res w' where r: "routeApproval ?ks return_example ?p None ?w = (res, w')" by (metis prod.exhaust)
  have ks: "ks_gramApprover ?ks = Some (gramApprover approver_node_example approver_config_example)"
    "ks_validateSource ?ks = Some (validateAction hash_example deps_example)"
    by (simp_all add: approver_signer_example_def)
  have act: "act_direction return_example = GRAM_RETURN" "act_recipient return_example = ''EQsender''"
    "act_amountMilliViz return_example = 6900"
    by (simp_all add: return_example_def)
  have "gramReturnChecks ?ks return_example ?p None = Inr ()"
    by (simp add: gramReturnChecks_def act return_proposal_fields assertSource_def ks return_example_ok)
  then have "w' = snd (callApprover ?ks return_example gac_approveReturn ?p ?w)"
    using r by (simp add: routeApproval_def act isGramMintProposal_def hasKey_def return_proposal_fields approveGramReturn_def)
  then have "aw_sent w' = [(''w5'', SendApprove ''EQ8'' 1)]" "aw_sent ?w = []"
    by (simp_all add: callApprover_world [OF ks(1)] runApprover_def approver_example_run) (simp add: approver_world_example_def)
  moreover have "clockRuns (an_clock approver_node_example) (an_elapse approver_node_example)"
    by (simp add: approver_example_simps clockRuns_def clock_example_def)
  moreover have "0 < ac_pollIntervalMs approver_config_example" by (simp add: approver_example_simps)
  ultimately show ?thesis
    using ton_message_is_validated_order [OF _ _ ks(1) r] r
    by (auto simp: act approver_example_simps)
qed

section \<open>Re-driven approvals\<close>

text \<open>
  An approval that has landed is not given again: an operator whose bit is set in a deployed order
  of the right hash, or whose order has been executed, sends nothing and reports success.
\<close>

lemma approval_not_repeated:
  assumes "readOrder node orderAddr w = Some (Inr od, w1)" "p ''orderHashHex'' = Some (JString hash)"
    "dor_orderHash od = Some hash" "dor_executed od = Some True \<or> approvedBy myIdx od"
  shows "\<exists>rc. approveDeployed node cfg p orderAddr wallet myIdx w = Some (Inr rc, w1) \<and> aw_sent w1 = aw_sent w"
  using assms quietD [OF quiet_polls(2) assms(1)]
  by (auto simp: approveDeployed_def bindA_def [of "readOrder node orderAddr"] assertDeployedOrderHash_def liftA_def)

text \<open>
  The operator that opens an order reports its approval without reading the order that is then
  deployed: what is deployed at the address makes no difference to what it does and reports.
\<close>

lemma waitLoop_order:
  "waitLoop (node\<lparr>an_order := f\<rparr>) cfg poll late deadline n = waitLoop node cfg poll late deadline n"
  by (induction n) (rule ext, simp cong: if_cong)+

lemma opener_reports_any_order:
  "openOrder (node\<lparr>an_order := f\<rparr>) cfg transfer p orderAddr md wallet myIdx =
     openOrder node cfg transfer p orderAddr md wallet myIdx"
  by (simp add: openOrder_def readA_def [abs_def] sendA_def [abs_def] waitForOrderInited_def [abs_def] orderIsInited_def
      waitLoop_order cong: if_cong)

text \<open>The Orbs fallback never takes a configured endpoint away, and adds at most one that has answered.\<close>

lemma orbs_fallback_only_adds:
  "\<exists>extra. resolveGramEndpoints resolve verify network configured enableOrbs = configured @ extra \<and> length extra \<le> 1 \<and>
     (\<forall>u \<in> set extra. verify u = Inr () \<and> u \<notin> set configured)"
  by (auto simp: resolveGramEndpoints_def Let_def split: sum.split)

end
