(* ===== verification/Registry.thy ===== *)
theory Registry
  imports Types "HOL-Library.AList"
begin

text \<open>
  Signer discovery: \<open>SignerRegistry\<close> of \<open>packages/coordinator/src/registry.ts\<close>, the challenge of
  \<open>packages/viz-watcher/src/challenge.ts\<close>, the two registration routes of
  \<open>packages/coordinator/src/index.ts\<close> and the client of \<open>packages/signer/src/register.ts\<close>. A
  JavaScript \<open>Map\<close> is an association list. The random nonce, the times \<open>now()\<close> returns and the
  elliptic-curve code (\<open>recover\<close>, \<open>sign\<close>) are arguments.
\<close>

section \<open>challenge.ts\<close>

definition DOMAIN :: string where
  "DOMAIN = ''viz-gateway-register''"

definition challengeMessage :: "string \<Rightarrow> string \<Rightarrow> string \<Rightarrow> string" where
  "challengeMessage operatorId url nonce = joinWith [CHR 0x0A] [DOMAIN, operatorId, url, nonce]"

definition signChallenge :: "(string \<Rightarrow> string \<Rightarrow> string result) \<Rightarrow> string \<Rightarrow> string \<Rightarrow> string \<Rightarrow> string \<Rightarrow> string result" where
  "signChallenge sign operatorId url nonce wif =
     (if wif = [] then Inl (GenericError ''VIZ signing key (WIF) not set; cannot sign registration challenge'')
      else sign (challengeMessage operatorId url nonce) wif)"

definition recoverChallengeSigner ::
  "(string \<Rightarrow> string \<Rightarrow> string result) \<Rightarrow> string \<Rightarrow> string \<Rightarrow> string \<Rightarrow> string \<Rightarrow> string result" where
  "recoverChallengeSigner recover operatorId url nonce sigHex = recover (challengeMessage operatorId url nonce) sigHex"

section \<open>registry.ts\<close>

record Registration =
  re_operatorId :: string
  re_url :: string
  re_expiresAt :: int

record SignerRegistry =
  sr_byId :: "(string \<times> Registration) list"
  sr_nonces :: "(string \<times> string \<times> int) list"
  sr_knownIds :: "string set"
  sr_idOfPubkey :: "(string \<times> string) list"
  sr_order :: "string list"
  sr_leaseMs :: int
  sr_nonceTtlMs :: int

definition newSignerRegistry :: "OperatorRef list \<Rightarrow> int \<Rightarrow> int \<Rightarrow> SignerRegistry" where
  "newSignerRegistry operators leaseMs nonceTtlMs =
     \<lparr>sr_byId = [], sr_nonces = [], sr_knownIds = set (map op_id operators),
      sr_idOfPubkey = foldl (\<lambda>m o'. if op_vizPubkey o' = [] then m else AList.update (op_vizPubkey o') (op_id o') m) [] operators,
      sr_order = map op_id operators, sr_leaseMs = leaseMs, sr_nonceTtlMs = nonceTtlMs\<rparr>"

definition issueChallenge :: "string \<Rightarrow> string \<Rightarrow> int \<Rightarrow> SignerRegistry \<Rightarrow> string result \<times> SignerRegistry" where
  "issueChallenge operatorId nonce t R =
     (if operatorId \<notin> sr_knownIds R then (Inl (GenericError (''unknown operator '' @ operatorId)), R)
      else (Inr nonce, R\<lparr>sr_nonces := AList.update nonce (operatorId, t + sr_nonceTtlMs R)
              (filter (\<lambda>e. \<not> snd (snd e) \<le> t) (sr_nonces R))\<rparr>))"

definition registerChecks ::
  "(string \<Rightarrow> string \<Rightarrow> string result) \<Rightarrow> string \<Rightarrow> string \<Rightarrow> string \<Rightarrow> string \<Rightarrow> int \<Rightarrow> SignerRegistry \<Rightarrow> unit result" where
  "registerChecks recover operatorId url nonce sigHex t R =
     (case map_of (sr_nonces R) nonce of
        None \<Rightarrow> Inl (GenericError ''unknown or already-used nonce'')
      | Some (issuedTo, expiresAt) \<Rightarrow>
          if issuedTo \<noteq> operatorId then Inl (GenericError ''nonce was not issued to this operator'')
          else if t > expiresAt then Inl (GenericError ''challenge nonce expired'')
          else (case recoverChallengeSigner recover operatorId url nonce sigHex of
              Inl err \<Rightarrow> Inl (GenericError (''registration signature unrecoverable: '' @ error_text err))
            | Inr recovered \<Rightarrow>
                (case map_of (sr_idOfPubkey R) recovered of
                   None \<Rightarrow> Inl (GenericError (''registration key '' @ recovered @ '' is not in the federation key set''))
                 | Some keyOwnerId \<Rightarrow>
                     if keyOwnerId = [] then Inl (GenericError (''registration key '' @ recovered @ '' is not in the federation key set''))
                     else throwIf (keyOwnerId \<noteq> operatorId) (GenericError ''registration key mismatch''))))"

text \<open>\<open>t1\<close> is the time the expiry is checked, \<open>t2\<close> the one the lease starts.\<close>

definition register ::
  "(string \<Rightarrow> string \<Rightarrow> string result) \<Rightarrow> string \<Rightarrow> string \<Rightarrow> string \<Rightarrow> string \<Rightarrow> int \<Rightarrow> int \<Rightarrow> SignerRegistry \<Rightarrow>
   Registration result \<times> SignerRegistry" where
  "register recover operatorId url nonce sigHex t1 t2 R =
     (let R1 = R\<lparr>sr_nonces := AList.delete nonce (sr_nonces R)\<rparr>
      in (case registerChecks recover operatorId url nonce sigHex t1 R of
            Inl e \<Rightarrow> (Inl e, R1)
          | Inr _ \<Rightarrow>
              let reg = \<lparr>re_operatorId = operatorId, re_url = url, re_expiresAt = t2 + sr_leaseMs R\<rparr>
              in (Inr reg, R1\<lparr>sr_byId := AList.update operatorId reg (sr_byId R1)\<rparr>)))"

definition live :: "int \<Rightarrow> SignerRegistry \<Rightarrow> Registration list \<times> SignerRegistry" where
  "live t R =
     (let kept = filter (\<lambda>e. \<not> re_expiresAt (snd e) \<le> t) (sr_byId R)
      in (List.map_filter (map_of kept) (sr_order R), R\<lparr>sr_byId := kept\<rparr>))"

definition registryCount :: "int \<Rightarrow> SignerRegistry \<Rightarrow> (nat \<times> nat) \<times> SignerRegistry" where
  "registryCount t R = (case live t R of (l, R') \<Rightarrow> ((length l, length (sr_order R)), R'))"

definition roster :: "int \<Rightarrow> SignerRegistry \<Rightarrow> (string list \<times> string list) \<times> SignerRegistry" where
  "roster t R =
     (case live t R of (l, R') \<Rightarrow>
        let liveIds = set (map re_operatorId l)
        in ((filter (\<lambda>i. i \<in> liveIds) (sr_order R), filter (\<lambda>i. i \<notin> liveIds) (sr_order R)), R'))"

section \<open>The routes (index.ts)\<close>

datatype RegistryRequest = GetChallenge string | PostRegister string string string string

datatype RegistryReply = ChallengeReply string | RegisterReply int | BadRequest string

text \<open>The times of the two reads of the clock in \<open>register\<close>, and the next random nonce.\<close>

fun registryRoute ::
  "(string \<Rightarrow> string \<Rightarrow> string result) \<Rightarrow> string \<Rightarrow> int \<Rightarrow> int \<Rightarrow> RegistryRequest \<Rightarrow> SignerRegistry \<Rightarrow>
   RegistryReply \<times> SignerRegistry" where
  "registryRoute recover nonce t1 t2 (GetChallenge operator) R =
     (case issueChallenge operator nonce t1 R of
        (Inl e, R') \<Rightarrow> (BadRequest (error_text e), R')
      | (Inr n, R') \<Rightarrow> (ChallengeReply n, R'))"
| "registryRoute recover nonce t1 t2 (PostRegister operator url n sig) R =
     (case register recover operator url n sig t1 t2 R of
        (Inl e, R') \<Rightarrow> (BadRequest (error_text e), R')
      | (Inr reg, R') \<Rightarrow> (RegisterReply (re_expiresAt reg), R'))"

section \<open>The signer's side (register.ts)\<close>

record RegisterDeps =
  rd_operatorId :: string
  rd_advertiseUrl :: string
  rd_wif :: string
  rd_heartbeatMs :: int

text \<open>\<open>fetch\<close> carries one request to the coordinator; \<open>Inl\<close> is a network error or a time-out.\<close>

definition registerOnce ::
  "(string \<Rightarrow> string \<Rightarrow> string result) \<Rightarrow> (RegistryRequest \<Rightarrow> 'x \<Rightarrow> RegistryReply result \<times> 'x) \<Rightarrow> RegisterDeps \<Rightarrow>
   'x \<Rightarrow> unit result \<times> 'x" where
  "registerOnce sign fetch d x =
     (case fetch (GetChallenge (rd_operatorId d)) x of
        (Inl e, x1) \<Rightarrow> (Inl e, x1)
      | (Inr (ChallengeReply nonce), x1) \<Rightarrow>
          (case signChallenge sign (rd_operatorId d) (rd_advertiseUrl d) nonce (rd_wif d) of
             Inl e \<Rightarrow> (Inl e, x1)
           | Inr sig \<Rightarrow>
               (case fetch (PostRegister (rd_operatorId d) (rd_advertiseUrl d) nonce sig) x1 of
                  (Inl e, x2) \<Rightarrow> (Inl e, x2)
                | (Inr (BadRequest detail), x2) \<Rightarrow>
                    (Inl (GenericError (''register HTTP 400'' @ (if detail = [] then [] else '': '' @ detail))), x2)
                | (Inr _, x2) \<Rightarrow> (Inr (), x2)))
      | (Inr _, x1) \<Rightarrow> (Inl (GenericError ''challenge HTTP 400''), x1))"

text \<open>One tick of the loop: the delay until the next one.\<close>

definition registerTick ::
  "(string \<Rightarrow> string \<Rightarrow> string result) \<Rightarrow> (RegistryRequest \<Rightarrow> 'x \<Rightarrow> RegistryReply result \<times> 'x) \<Rightarrow> RegisterDeps \<Rightarrow>
   'x \<Rightarrow> int \<times> 'x" where
  "registerTick sign fetch d x =
     (case registerOnce sign fetch d x of
        (Inr _, x1) \<Rightarrow> (rd_heartbeatMs d, x1)
      | (Inl _, x1) \<Rightarrow> (min (rd_heartbeatMs d) 5000, x1))"

section \<open>Runs of the registry\<close>

datatype registry_event =
    Issue string string int
  | Register string string string string int int
  | Live int

fun registryStep :: "(string \<Rightarrow> string \<Rightarrow> string result) \<Rightarrow> SignerRegistry \<Rightarrow> registry_event \<Rightarrow> SignerRegistry" where
  "registryStep recover R (Issue operator nonce t) = snd (issueChallenge operator nonce t R)"
| "registryStep recover R (Register operator url nonce sig t1 t2) = snd (register recover operator url nonce sig t1 t2 R)"
| "registryStep recover R (Live t) = snd (live t R)"

fun usesNonce :: "string \<Rightarrow> registry_event \<Rightarrow> bool" where
  "usesNonce n (Register _ _ n' _ _ _) \<longleftrightarrow> n' = n"
| "usesNonce n _ \<longleftrightarrow> False"

text \<open>An open nonce was issued in the run and has not been presented since.\<close>

definition openNonce :: "int \<Rightarrow> registry_event list \<Rightarrow> string \<Rightarrow> string \<Rightarrow> int \<Rightarrow> bool" where
  "openNonce ttl evs n operator expiresAt \<longleftrightarrow>
     (\<exists>pre mid t. evs = pre @ Issue operator n t # mid \<and> expiresAt = t + ttl \<and> (\<forall>ev \<in> set mid. \<not> usesNonce n ev))"

text \<open>The handshake behind a registration: a challenge, and the first answer to it, in time and signed by the key.\<close>

definition handshake ::
  "(string \<Rightarrow> string \<Rightarrow> string result) \<Rightarrow> (string \<rightharpoonup> string) \<Rightarrow> int \<Rightarrow> int \<Rightarrow> registry_event list \<Rightarrow> string \<Rightarrow> Registration \<Rightarrow> bool" where
  "handshake recover owner ttl lease evs operator reg \<longleftrightarrow>
     (\<exists>pre mid post n t sig key t1 t2.
        evs = pre @ Issue operator n t # mid @ Register operator (re_url reg) n sig t1 t2 # post \<and>
        (\<forall>ev \<in> set mid. \<not> usesNonce n ev) \<and> t1 \<le> t + ttl \<and>
        recover (challengeMessage operator (re_url reg) n) sig = Inr key \<and> owner key = Some operator \<and>
        re_operatorId reg = operator \<and> re_expiresAt reg = t2 + lease)"

lemma openNonce_later: "openNonce ttl evs n o' e \<Longrightarrow> \<not> usesNonce n ev \<Longrightarrow> openNonce ttl (evs @ [ev]) n o' e"
  unfolding openNonce_def by (elim exE conjE) (rule exI, rule_tac x = "mid @ [ev]" in exI, auto)

lemma handshake_later: "handshake rc ow ttl ls evs o' reg \<Longrightarrow> handshake rc ow ttl ls (evs @ [ev]) o' reg"
  unfolding handshake_def by (elim exE conjE) (rule exI, rule exI, rule_tac x = "post @ [ev]" in exI, force)

lemma handshakeI:
  assumes "evs = pre @ Issue o' n t # mid" "\<forall>ev \<in> set mid. \<not> usesNonce n ev" "t1 \<le> t + ttl"
    "rc (challengeMessage o' url n) sig = Inr key" "ow key = Some o'"
  shows "handshake rc ow ttl ls (evs @ [Register o' url n sig t1 t2]) o'
    \<lparr>re_operatorId = o', re_url = url, re_expiresAt = t2 + ls\<rparr>"
  unfolding handshake_def
  by (rule exI [of _ pre], rule exI [of _ mid], rule exI [of _ "[]"], rule exI [of _ n], rule exI [of _ t],
      rule exI [of _ sig], rule exI [of _ key], rule exI [of _ t1], rule exI [of _ t2]) (simp add: assms)

lemma registerChecks_ok:
  assumes "registerChecks recover operator url n sig t R = Inr u"
  shows "\<exists>e key. map_of (sr_nonces R) n = Some (operator, e) \<and> t \<le> e \<and>
    recover (challengeMessage operator url n) sig = Inr key \<and> map_of (sr_idOfPubkey R) key = Some operator"
  using assms
  by (auto simp: registerChecks_def recoverChallengeSigner_def err_simps split: option.splits if_splits sum.splits)

lemma registryStep_fixed [simp]:
  "sr_idOfPubkey (registryStep rc R ev) = sr_idOfPubkey R" "sr_order (registryStep rc R ev) = sr_order R"
  "sr_nonceTtlMs (registryStep rc R ev) = sr_nonceTtlMs R" "sr_leaseMs (registryStep rc R ev) = sr_leaseMs R"
  "sr_knownIds (registryStep rc R ev) = sr_knownIds R"
  by (cases ev; auto simp: issueChallenge_def register_def live_def Let_def split: sum.split)+

lemma run_fixed [simp]:
  "sr_idOfPubkey (foldl (registryStep rc) R evs) = sr_idOfPubkey R" "sr_order (foldl (registryStep rc) R evs) = sr_order R"
  "sr_nonceTtlMs (foldl (registryStep rc) R evs) = sr_nonceTtlMs R" "sr_leaseMs (foldl (registryStep rc) R evs) = sr_leaseMs R"
  by (induction evs arbitrary: R) simp_all

lemma in_update: "x \<in> set (AList.update k v xs) \<Longrightarrow> x = (k, v) \<or> x \<in> set xs"
  by (induction xs) (auto split: if_splits)

text \<open>The invariant of a run: every open nonce was issued, every registration has its handshake.\<close>

definition registryInv ::
  "(string \<Rightarrow> string \<Rightarrow> string result) \<Rightarrow> SignerRegistry \<Rightarrow> registry_event list \<Rightarrow> SignerRegistry \<Rightarrow> bool" where
  "registryInv rc R0 evs R \<longleftrightarrow>
     (\<forall>(n, o', e) \<in> set (sr_nonces R). openNonce (sr_nonceTtlMs R0) evs n o' e) \<and>
     (\<forall>(o', reg) \<in> set (sr_byId R).
        handshake rc (map_of (sr_idOfPubkey R0)) (sr_nonceTtlMs R0) (sr_leaseMs R0) evs o' reg)"

lemma registryInv_step:
  assumes "registryInv rc R0 evs R" "sr_idOfPubkey R = sr_idOfPubkey R0" "sr_nonceTtlMs R = sr_nonceTtlMs R0"
    "sr_leaseMs R = sr_leaseMs R0"
  shows "registryInv rc R0 (evs @ [ev]) (registryStep rc R ev)"
proof -
  let ?hs = "\<lambda>evs o' reg. handshake rc (map_of (sr_idOfPubkey R0)) (sr_nonceTtlMs R0) (sr_leaseMs R0) evs o' reg"
  have old: "?hs (evs @ [ev]) o' reg" if "(o', reg) \<in> set (sr_byId R)" for o' reg
    using assms(1) that handshake_later by (fastforce simp: registryInv_def)
  have nonce: "openNonce (sr_nonceTtlMs R0) (evs @ [ev]) n o' e" if "(n, o', e) \<in> set (sr_nonces R)" "\<not> usesNonce n ev" for n o' e
    using assms(1) that openNonce_later by (fastforce simp: registryInv_def)
  show ?thesis
  proof (cases ev)
    case (Issue o' n t)
    have "openNonce (sr_nonceTtlMs R0) (evs @ [Issue o' n t]) n o' (t + sr_nonceTtlMs R0)"
      unfolding openNonce_def by (rule exI [of _ evs], rule exI [of _ "[]"]) simp
    then show ?thesis
      using old nonce Issue assms(3)
      by (auto simp: registryInv_def issueChallenge_def split: if_splits dest!: in_update)
  next
    case (Live t)
    then show ?thesis using old nonce by (auto simp: registryInv_def live_def Let_def)
  next
    case (Register o' url n sig t1 t2)
    let ?R = "R\<lparr>sr_nonces := AList.delete n (sr_nonces R)\<rparr>"
    have del: "\<forall>(m, p, e) \<in> set (sr_nonces ?R). openNonce (sr_nonceTtlMs R0) (evs @ [ev]) m p e"
      using nonce Register by (auto simp: AList.delete_eq)
    show ?thesis
    proof (cases "registerChecks rc o' url n sig t1 R")
      case (Inl e)
      then have "registryStep rc R ev = ?R" using Register by (simp add: register_def)
      then show ?thesis using del old by (auto simp: registryInv_def)
    next
      case (Inr u)
      let ?reg = "\<lparr>re_operatorId = o', re_url = url, re_expiresAt = t2 + sr_leaseMs R\<rparr>"
      obtain e key where k: "map_of (sr_nonces R) n = Some (o', e)" "t1 \<le> e"
        "rc (challengeMessage o' url n) sig = Inr key" "map_of (sr_idOfPubkey R) key = Some o'"
        using registerChecks_ok [OF Inr] by blast
      have "\<forall>(n, o', e) \<in> set (sr_nonces R). openNonce (sr_nonceTtlMs R0) evs n o' e"
        using assms(1) unfolding registryInv_def by (rule conjunct1)
      from bspec [OF this map_of_SomeD [OF k(1)]] have "openNonce (sr_nonceTtlMs R0) evs n o' e"
        by (simp only: prod.case)
      then obtain pre mid t where i: "evs = pre @ Issue o' n t # mid" "e = t + sr_nonceTtlMs R0"
        "\<forall>ev \<in> set mid. \<not> usesNonce n ev" unfolding openNonce_def by blast
      have "?hs (evs @ [ev]) o' ?reg"
        unfolding Register assms(4) using k(2) i(2) k(4)
        by (intro handshakeI [OF i(1,3), where rc = rc and url = url and sig = sig and key = key])
            (simp_all only: k(3) assms(2))
      moreover have "registryStep rc R ev = ?R\<lparr>sr_byId := AList.update o' ?reg (sr_byId R)\<rparr>"
        using Register Inr by (simp add: register_def Let_def)
      ultimately show ?thesis using del old by (auto simp: registryInv_def dest!: in_update)
    qed
  qed
qed

lemma registryInv_run:
  assumes "sr_byId R0 = []" "sr_nonces R0 = []"
  shows "registryInv rc R0 evs (foldl (registryStep rc) R0 evs)"
proof (induction evs rule: rev_induct)
  case Nil
  then show ?case using assms by (simp add: registryInv_def)
next
  case (snoc ev evs)
  then show ?case using registryInv_step [OF snoc.IH, of ev] by simp
qed

lemma in_map_filter: "y \<in> set (List.map_filter f xs) \<longleftrightarrow> (\<exists>x \<in> set xs. f x = Some y)"
  by (induction xs) (auto simp: List.map_filter_def split: option.splits)

lemma live_member:
  assumes "reg \<in> set (fst (live t R))"
  shows "\<exists>o'. o' \<in> set (sr_order R) \<and> (o', reg) \<in> set (sr_byId R) \<and> t < re_expiresAt reg"
  using assms by (auto simp: live_def Let_def in_map_filter dest!: map_of_SomeD)

text \<open>The live signers come in the order of the federation file, whatever order they registered in.\<close>

lemma map_filter_ids:
  assumes "\<forall>x r. f x = Some r \<longrightarrow> g r = x"
  shows "map g (List.map_filter f xs) = filter (\<lambda>x. f x \<noteq> None) xs"
  using assms by (induction xs) (auto simp: map_filter_simps split: option.split)

lemma live_order:
  assumes "\<forall>(o', reg) \<in> set (sr_byId R). re_operatorId reg = o'"
  shows "map re_operatorId (fst (live t R)) =
    filter (\<lambda>i. i \<in> re_operatorId ` set (fst (live t R))) (sr_order R)"
proof -
  let ?kept = "filter (\<lambda>e. \<not> re_expiresAt (snd e) \<le> t) (sr_byId R)"
  have id: "\<forall>x r. map_of ?kept x = Some r \<longrightarrow> re_operatorId r = x"
    using assms by (auto dest!: map_of_SomeD)
  have l: "fst (live t R) = List.map_filter (map_of ?kept) (sr_order R)" by (simp add: live_def Let_def)
  have m: "map re_operatorId (fst (live t R)) = filter (\<lambda>x. map_of ?kept x \<noteq> None) (sr_order R)"
    unfolding l by (rule map_filter_ids [OF id])
  have "re_operatorId ` set (fst (live t R)) = set (map re_operatorId (fst (live t R)))" by simp
  then show ?thesis unfolding m by (auto intro!: filter_cong)
qed

section \<open>Properties\<close>

text \<open>
  C26. The coordinator asks only operators that proved their key. Whatever has been sent to its two
  registration routes since it started, a signer it lists as live is an operator of the federation
  with an unexpired lease, and its address was registered by the first answer to a nonce issued to
  that operator, within the nonce's life, signed over operator, address and nonce by a key that the
  federation file gives to that very operator.
\<close>

theorem live_signer_authenticated:
  assumes "R0 = newSignerRegistry operators leaseMs nonceTtlMs"
    "reg \<in> set (fst (live t (foldl (registryStep recover) R0 evs)))"
  shows "re_operatorId reg \<in> op_id ` set operators \<and> t < re_expiresAt reg \<and>
    handshake recover (map_of (sr_idOfPubkey R0)) nonceTtlMs leaseMs evs (re_operatorId reg) reg"
proof -
  have R0: "sr_byId R0 = []" "sr_nonces R0 = []" "sr_order R0 = map op_id operators"
    "sr_nonceTtlMs R0 = nonceTtlMs" "sr_leaseMs R0 = leaseMs"
    using assms(1) by (simp_all add: newSignerRegistry_def)
  obtain o' where l: "o' \<in> set (map op_id operators)" "(o', reg) \<in> set (sr_byId (foldl (registryStep recover) R0 evs))"
    "t < re_expiresAt reg"
    using live_member [OF assms(2)] R0 by auto
  have h: "handshake recover (map_of (sr_idOfPubkey R0)) nonceTtlMs leaseMs evs o' reg"
    using registryInv_run [OF R0(1,2), of recover evs] l(2) R0 by (auto simp: registryInv_def)
  then have "re_operatorId reg = o'" unfolding handshake_def by blast
  with l h show ?thesis by auto
qed

text \<open>Signatures of the example are the key's name before the message.\<close>

definition sign_example :: "string \<Rightarrow> string \<Rightarrow> string" where
  "sign_example key m = key @ m"

definition recover_example :: "string \<Rightarrow> string \<Rightarrow> string result" where
  "recover_example m sig = (if endsWith sig m then Inr (sliceEnd sig (length m)) else Inl (GenericError ''bad signature''))"

lemma recover_sign_example [simp]: "recover_example m (sign_example key m) = Inr key"
  by (simp add: recover_example_def sign_example_def)

definition operators_example :: "OperatorRef list" where
  "operators_example = [\<lparr>op_id = ''op-1'', op_vizPubkey = ''VIZ1'', op_tonPubkey = [], op_solanaPubkey = []\<rparr>,
     \<lparr>op_id = ''op-2'', op_vizPubkey = ''VIZ2'', op_tonPubkey = [], op_solanaPubkey = []\<rparr>]"

definition run_example :: "registry_event list" where
  "run_example = [Issue ''op-2'' ''n1'' 10, Issue ''op-1'' ''n2'' 11,
     Register ''op-2'' ''http://b'' ''n1'' (sign_example ''VIZ2'' (challengeMessage ''op-2'' ''http://b'' ''n1'')) 20 20,
     Register ''op-1'' ''http://evil'' ''n2'' (sign_example ''VIZ2'' (challengeMessage ''op-1'' ''http://evil'' ''n2'')) 21 21]"

lemma run_example_live:
  "fst (live 30 (foldl (registryStep recover_example) (newSignerRegistry operators_example 100 50) run_example)) =
     [\<lparr>re_operatorId = ''op-2'', re_url = ''http://b'', re_expiresAt = 120\<rparr>]"
  by (simp add: run_example_def newSignerRegistry_def operators_example_def issueChallenge_def register_def registerChecks_def
      recoverChallengeSigner_def live_def List.map_filter_def throwIf_def Let_def)

theorem live_signer_authenticated_witness:
  "\<exists>reg. reg \<in> set (fst (live 30 (foldl (registryStep recover_example) (newSignerRegistry operators_example 100 50) run_example))) \<and>
     re_operatorId reg = ''op-2'' \<and>
     handshake recover_example (map_of (sr_idOfPubkey (newSignerRegistry operators_example 100 50))) 50 100 run_example ''op-2'' reg"
proof -
  let ?reg = "\<lparr>re_operatorId = ''op-2'', re_url = ''http://b'', re_expiresAt = 120\<rparr>"
  have "?reg \<in> set (fst (live 30 (foldl (registryStep recover_example) (newSignerRegistry operators_example 100 50) run_example)))"
    unfolding run_example_live by simp
  from live_signer_authenticated [OF refl this] this show ?thesis by (intro exI [of _ ?reg]) simp
qed

text \<open>The coordinator as the signer's \<open>fetch\<close> reaches it, while the clock shows \<open>t1\<close>, then \<open>t2\<close>.\<close>

definition coordinatorFetch ::
  "(string \<Rightarrow> string \<Rightarrow> string result) \<Rightarrow> string \<Rightarrow> int \<Rightarrow> int \<Rightarrow> RegistryRequest \<Rightarrow> SignerRegistry \<Rightarrow>
   RegistryReply result \<times> SignerRegistry" where
  "coordinatorFetch recover nonce t1 t2 req R = (case registryRoute recover nonce t1 t2 req R of (r, R') \<Rightarrow> (Inr r, R'))"

text \<open>
  C27. An operator that holds its key gets listed: one round trip of the signer's client with the
  coordinator succeeds, in any state of the registry, and until the lease ends the address the
  operator advertises is among the live signers; the live signers come in the order of the federation
  file, each operator in its place whatever the order of the registrations; and the client comes back
  after its heartbeat.
\<close>

theorem honest_signer_listed:
  assumes "R0 = newSignerRegistry operators leaseMs nonceTtlMs" "R = foldl (registryStep recover) R0 evs"
    "rd_operatorId d \<in> op_id ` set operators" "rd_operatorId d \<noteq> []" "rd_wif d \<noteq> []" "0 \<le> nonceTtlMs"
    "sign (challengeMessage (rd_operatorId d) (rd_advertiseUrl d) nonce) (rd_wif d) = Inr sig"
    "recover (challengeMessage (rd_operatorId d) (rd_advertiseUrl d) nonce) sig = Inr key"
    "map_of (sr_idOfPubkey R0) key = Some (rd_operatorId d)" "t < t2 + leaseMs"
  shows "\<exists>R'. registerOnce sign (coordinatorFetch recover nonce t1 t2) d R = (Inr (), R') \<and>
    registerTick sign (coordinatorFetch recover nonce t1 t2) d R = (rd_heartbeatMs d, R') \<and>
    \<lparr>re_operatorId = rd_operatorId d, re_url = rd_advertiseUrl d, re_expiresAt = t2 + leaseMs\<rparr> \<in> set (fst (live t R')) \<and>
    map re_operatorId (fst (live t R')) =
      filter (\<lambda>i. i \<in> re_operatorId ` set (fst (live t R'))) (map op_id operators)"
proof -
  let ?o = "rd_operatorId d" and ?url = "rd_advertiseUrl d"
  let ?reg = "\<lparr>re_operatorId = ?o, re_url = ?url, re_expiresAt = t2 + leaseMs\<rparr>"
  have known: "sr_knownIds R0 = op_id ` set operators" "sr_order R0 = map op_id operators"
    "sr_nonceTtlMs R0 = nonceTtlMs" "sr_leaseMs R0 = leaseMs"
    using assms(1) by (simp_all add: newSignerRegistry_def)
  have kn: "sr_knownIds (foldl (registryStep recover) R0 evs) = sr_knownIds R0"
    by (induction evs rule: rev_induct) simp_all
  have R: "sr_knownIds R = op_id ` set operators" "sr_order R = map op_id operators" "sr_nonceTtlMs R = nonceTtlMs"
    "sr_leaseMs R = leaseMs" "sr_idOfPubkey R = sr_idOfPubkey R0"
    using known kn by (simp_all add: assms(2))
  define R1 where "R1 = R\<lparr>sr_nonces := AList.update nonce (?o, t1 + nonceTtlMs) (filter (\<lambda>e. \<not> snd (snd e) \<le> t1) (sr_nonces R))\<rparr>"
  have i: "coordinatorFetch recover nonce t1 t2 (GetChallenge ?o) R = (Inr (ChallengeReply nonce), R1)"
    using R assms(3) by (simp add: coordinatorFetch_def issueChallenge_def R1_def)
  have chk: "registerChecks recover ?o ?url nonce sig t1 R1 = Inr ()"
    using assms(4,6,8,9) R by (simp add: registerChecks_def R1_def recoverChallengeSigner_def)
  define R2 where "R2 = R1\<lparr>sr_nonces := AList.delete nonce (sr_nonces R1), sr_byId := AList.update ?o ?reg (sr_byId R1)\<rparr>"
  have r: "coordinatorFetch recover nonce t1 t2 (PostRegister ?o ?url nonce sig) R1 = (Inr (RegisterReply (t2 + leaseMs)), R2)"
    using chk R by (simp add: coordinatorFetch_def register_def Let_def R2_def R1_def)
  have once: "registerOnce sign (coordinatorFetch recover nonce t1 t2) d R = (Inr (), R2)"
    using assms(5,7) by (simp add: registerOnce_def i r signChallenge_def)
  have "map_of (filter (\<lambda>e. \<not> re_expiresAt (snd e) \<le> t) (AList.update ?o ?reg xs)) ?o = Some ?reg" for xs
    using assms(10) by (induction xs) auto
  then have "?reg \<in> set (fst (live t R2))"
    using assms(3) by (force simp: live_def Let_def in_map_filter R2_def R1_def R(2))
  moreover have "\<forall>(o', reg) \<in> set (sr_byId R2). re_operatorId reg = o'"
  proof -
    have "sr_byId R0 = []" "sr_nonces R0 = []" using assms(1) by (simp_all add: newSignerRegistry_def)
    from registryInv_run [OF this, of recover evs] have "\<forall>(o', reg) \<in> set (sr_byId R). re_operatorId reg = o'"
      by (auto simp: assms(2) registryInv_def handshake_def)
    then show ?thesis by (auto simp: R2_def R1_def dest!: in_update)
  qed
  ultimately show ?thesis using once live_order [of R2 t] R(2) by (auto simp: registerTick_def R2_def R1_def)
qed

theorem honest_signer_listed_witness:
  "\<exists>R'. registerOnce (\<lambda>m w. Inr (sign_example w m)) (coordinatorFetch recover_example ''n9'' 40 41)
       \<lparr>rd_operatorId = ''op-1'', rd_advertiseUrl = ''http://a'', rd_wif = ''VIZ1'', rd_heartbeatMs = 30\<rparr>
       (foldl (registryStep recover_example) (newSignerRegistry operators_example 100 50) run_example) = (Inr (), R') \<and>
     \<lparr>re_operatorId = ''op-1'', re_url = ''http://a'', re_expiresAt = 141\<rparr> \<in> set (fst (live 60 R')) \<and>
     map re_operatorId (fst (live 60 R')) =
       filter (\<lambda>i. i \<in> re_operatorId ` set (fst (live 60 R'))) [''op-1'', ''op-2'']"
proof -
  let ?d = "\<lparr>rd_operatorId = ''op-1'', rd_advertiseUrl = ''http://a'', rd_wif = ''VIZ1'', rd_heartbeatMs = 30\<rparr>"
  have "map_of (sr_idOfPubkey (newSignerRegistry operators_example 100 50)) ''VIZ1'' = Some ''op-1''"
    by (simp add: newSignerRegistry_def operators_example_def)
  moreover have "rd_operatorId ?d \<in> op_id ` set operators_example" by (simp add: operators_example_def)
  ultimately have "\<exists>R'. registerOnce (\<lambda>m w. Inr (sign_example w m)) (coordinatorFetch recover_example ''n9'' 40 41) ?d
       (foldl (registryStep recover_example) (newSignerRegistry operators_example 100 50) run_example) = (Inr (), R') \<and>
     \<lparr>re_operatorId = ''op-1'', re_url = ''http://a'', re_expiresAt = 141\<rparr> \<in> set (fst (live 60 R')) \<and>
     map re_operatorId (fst (live 60 R')) =
       filter (\<lambda>i. i \<in> re_operatorId ` set (fst (live 60 R'))) (map op_id operators_example)"
    using honest_signer_listed [OF refl refl, where d = ?d and operators = operators_example and nonceTtlMs = 50 and
        sign = "\<lambda>m w. Inr (sign_example w m)" and nonce = "''n9''" and recover = recover_example and key = "''VIZ1''" and
        leaseMs = 100 and t = 60 and ?t2.0 = 41 and evs = run_example and ?t1.0 = 40 and
        sig = "sign_example ''VIZ1'' (challengeMessage ''op-1'' ''http://a'' ''n9'')"]
    by simp blast
  moreover have "map op_id operators_example = [''op-1'', ''op-2'']" by (simp add: operators_example_def)
  ultimately show ?thesis by metis
qed

end
