(* ===== verification/Caps.thy ===== *)
theory Caps
  imports StoreSqlite
begin

text \<open>
  The circuit breaker (\<open>packages/common/src/caps.ts\<close>) and the recovery of rows stranded in
  \<open>SEEN\<close> (\<open>packages/common/src/seenRecovery.ts\<close>), on the shared SQL store.
\<close>

section \<open>CircuitBreaker\<close>

record CapPolicy =
  cp_perTxMilliViz :: int
  cp_rolling24hMilliViz :: int
  cp_manualReviewAboveMilliViz :: int

datatype CapReason = OVER_PER_TX | OVER_24H | NEEDS_MANUAL_REVIEW

datatype CapDecision = CapOk | CapReject CapReason

fun capReasonString :: "CapReason \<Rightarrow> string" where
  "capReasonString OVER_PER_TX = ''OVER_PER_TX''"
| "capReasonString OVER_24H = ''OVER_24H''"
| "capReasonString NEEDS_MANUAL_REVIEW = ''NEEDS_MANUAL_REVIEW''"

definition DAY_MS :: int where
  "DAY_MS = 24 * 60 * 60 * 1000"

definition cb_check :: "CapPolicy \<Rightarrow> int \<Rightarrow> int \<Rightarrow> SqliteStore \<Rightarrow> CapDecision \<times> SqliteStore" where
  "cb_check policy amount now s =
     (if amount > cp_perTxMilliViz policy then (CapReject OVER_PER_TX, s)
      else (case sql_capSum (now - DAY_MS) now s of (used, s') \<Rightarrow>
        if used + amount > cp_rolling24hMilliViz policy then (CapReject OVER_24H, s')
        else if amount > cp_manualReviewAboveMilliViz policy then (CapReject NEEDS_MANUAL_REVIEW, s')
        else (CapOk, s')))"

definition cb_record :: "int \<Rightarrow> int \<Rightarrow> SqliteStore \<Rightarrow> SqliteStore" where
  "cb_record amount now s = sql_recordCap amount now s"

definition cb_checkAndRecord :: "CapPolicy \<Rightarrow> int \<Rightarrow> int \<Rightarrow> SqliteStore \<Rightarrow> CapDecision \<times> SqliteStore" where
  "cb_checkAndRecord policy amount now s =
     (if amount > cp_perTxMilliViz policy then (CapReject OVER_PER_TX, s)
      else (case sql_tryReserveCap amount (cp_rolling24hMilliViz policy) (now - DAY_MS) now s of
        (reserved, s') \<Rightarrow>
          if \<not> reserved then (CapReject OVER_24H, s')
          else if amount > cp_manualReviewAboveMilliViz policy then (CapReject NEEDS_MANUAL_REVIEW, s')
          else (CapOk, s')))"

lemma cap_outbox [simp]:
  "tb_outbox (snd (sql_tryReserveCap a c since now s)) = tb_outbox s"
  "tb_state (snd (sql_tryReserveCap a c since now s)) = tb_state s"
  by (simp_all add: sql_tryReserveCap_def sql_capSum_def sql_pruneCap_def sql_recordCap_def)

lemma checkAndRecord_frame [simp]:
  "tb_outbox (snd (cb_checkAndRecord policy a now s)) = tb_outbox s"
  "tb_state (snd (cb_checkAndRecord policy a now s)) = tb_state s"
  by (simp_all add: cb_checkAndRecord_def split: prod.split)
    (metis cap_outbox snd_conv)+

lemma checkAndRecord_isPaused [simp]:
  "sql_isPaused (snd (cb_checkAndRecord policy a now s)) = sql_isPaused s"
  by (simp add: sql_isPaused_def sql_getKey_def)

text \<open>The decision, gate by gate: per transaction, then the window, then manual review.\<close>

lemma checkAndRecord_decision:
  "fst (cb_checkAndRecord policy a now s) =
     (if a > cp_perTxMilliViz policy then CapReject OVER_PER_TX
      else if windowSum (now - DAY_MS) now (tb_cap_window s) + a > cp_rolling24hMilliViz policy
      then CapReject OVER_24H
      else if a > cp_manualReviewAboveMilliViz policy then CapReject NEEDS_MANUAL_REVIEW
      else CapOk)"
  using sqcap.reserve_result [of a "cp_rolling24hMilliViz policy" "now - DAY_MS" now s]
  by (auto simp: cb_checkAndRecord_def split: prod.split)

lemma checkAndRecord_agrees_with_check:
  "fst (cb_checkAndRecord policy a now s) = fst (cb_check policy a now s)"
proof -
  have "fst (sql_capSum (now - DAY_MS) now s) = windowSum (now - DAY_MS) now (tb_cap_window s)"
    by (simp add: sql_capSum_def sql_pruneCap_def windowSum_def not_less conj_commute)
  then show ?thesis by (auto simp: checkAndRecord_decision cb_check_def split: prod.split)
qed

text \<open>A stream of transfers through the breaker.\<close>

fun checkAll :: "CapPolicy \<Rightarrow> SqliteStore \<Rightarrow> (int \<times> int) list \<Rightarrow> SqliteStore" where
  "checkAll policy s [] = s"
| "checkAll policy s ((amount, now) # rs) = checkAll policy (snd (cb_checkAndRecord policy amount now s)) rs"

lemma checkAndRecord_capped:
  assumes "sqcap.capped (cp_rolling24hMilliViz policy) DAY_MS t s" "t \<le> now" "0 \<le> a"
  shows "sqcap.capped (cp_rolling24hMilliViz policy) DAY_MS now (snd (cb_checkAndRecord policy a now s))"
proof (cases "a > cp_perTxMilliViz policy")
  case True
  with assms show ?thesis by (force simp: cb_checkAndRecord_def sqcap.capped_def)
next
  case False
  then have "snd (cb_checkAndRecord policy a now s) =
      snd (sql_tryReserveCap a (cp_rolling24hMilliViz policy) (now - DAY_MS) now s)"
    by (simp add: cb_checkAndRecord_def split: prod.split)
  with sqcap.reserve_capped [OF assms] show ?thesis by simp
qed

lemma checkAll_capped:
  assumes "sqcap.capped (cp_rolling24hMilliViz policy) DAY_MS t s"
    "sorted (t # map snd rs)" "\<forall>r \<in> set rs. 0 \<le> fst r"
  shows "sqcap.capped (cp_rolling24hMilliViz policy) DAY_MS (last (t # map snd rs)) (checkAll policy s rs)"
  using assms
proof (induction rs arbitrary: s t)
  case Nil
  then show ?case by simp
next
  case (Cons r rs)
  obtain a now where r: "r = (a, now)" by (cases r)
  have "sqcap.capped (cp_rolling24hMilliViz policy) DAY_MS now (snd (cb_checkAndRecord policy a now s))"
    using Cons.prems r by (intro checkAndRecord_capped) auto
  moreover have "sorted (now # map snd rs)" using Cons.prems(2) r by simp
  ultimately show ?case using Cons.IH Cons.prems(3) r by auto
qed

section \<open>recoverStaleSeen\<close>

record SeenRecoveryOutcome =
  sr_requeued :: "OutboxRecord list"
  sr_held :: "OutboxRecord list"
  sr_paused :: bool

definition heldPatch :: "string \<Rightarrow> StatusPatch" where
  "heldPatch reason = noPatch\<lparr>pt_lastError := Some (Some reason)\<rparr>"

text \<open>
  The cap decision on one row and what it does to the row: the same three lines in the watchers'
  live path and in the recovery. \<open>True\<close> if the row was requeued.
\<close>

definition capAndAdvance ::
  "CapPolicy \<Rightarrow> string \<Rightarrow> int \<Rightarrow> string \<Rightarrow> int \<Rightarrow> SqliteStore \<Rightarrow> CapDecision \<times> SqliteStore" where
  "capAndAdvance policy capPauseReason now rid amount s =
     (case cb_checkAndRecord policy amount now s of (decision, s1) \<Rightarrow>
        (decision,
         case decision of
           CapOk \<Rightarrow> sql_setStatus rid QUEUED noPatch now s1
         | CapReject reason \<Rightarrow>
             (let s2 = sql_setStatus rid HELD (heldPatch (capReasonString reason)) now s1
              in if reason = OVER_24H then sql_pause capPauseReason now s2 else s2)))"

text \<open>
  The same with the store after every write: what a crash in the middle leaves. A trace is the list of
  the states after each write; \<open>endOf\<close> is the last of them, or where it started.
\<close>

definition endOf :: "'s \<Rightarrow> 's list \<Rightarrow> 's" where
  "endOf s tr = last (s # tr)"

lemma endOf_simps [simp]:
  "endOf s [] = s" "endOf s (x # xs) = endOf x xs" "endOf s (xs @ ys) = endOf (endOf s xs) ys"
  by (simp_all add: endOf_def)

lemma endOf_in: "endOf s tr \<in> set (s # tr)"
  unfolding endOf_def by (rule last_in_set) simp

definition capSteps :: "CapPolicy \<Rightarrow> string \<Rightarrow> int \<Rightarrow> string \<Rightarrow> int \<Rightarrow> SqliteStore \<Rightarrow> SqliteStore list" where
  "capSteps policy capPauseReason now rid amount s =
     (case cb_checkAndRecord policy amount now s of (decision, s1) \<Rightarrow>
        s1 # (case decision of
           CapOk \<Rightarrow> [sql_setStatus rid QUEUED noPatch now s1]
         | CapReject reason \<Rightarrow>
             (let s2 = sql_setStatus rid HELD (heldPatch (capReasonString reason)) now s1
              in if reason = OVER_24H then [s2, sql_pause capPauseReason now s2] else [s2])))"

lemma capSteps_end: "endOf s (capSteps policy reason now rid amount s) = snd (capAndAdvance policy reason now rid amount s)"
  by (simp add: capSteps_def capAndAdvance_def Let_def split: prod.split CapDecision.split)

fun recoverLoop ::
  "CapPolicy \<Rightarrow> string \<Rightarrow> int \<Rightarrow> (OutboxRecord \<Rightarrow> bool) \<Rightarrow> OutboxRecord list \<Rightarrow>
   SeenRecoveryOutcome \<times> SqliteStore \<Rightarrow> SeenRecoveryOutcome \<times> SqliteStore" where
  "recoverLoop policy reason now match [] os = os"
| "recoverLoop policy reason now match (r # rs) (out, s) =
     (if \<not> match r then recoverLoop policy reason now match rs (out, s)
      else (case capAndAdvance policy reason now (ob_id r) (ob_amountMilliViz r) s of
          (CapOk, s') \<Rightarrow>
            recoverLoop policy reason now match rs (out\<lparr>sr_requeued := sr_requeued out @ [r]\<rparr>, s')
        | (CapReject why, s') \<Rightarrow>
            recoverLoop policy reason now match rs
              (out\<lparr>sr_held := sr_held out @ [r], sr_paused := sr_paused out \<or> why = OVER_24H\<rparr>, s')))"

fun recoverSteps ::
  "CapPolicy \<Rightarrow> string \<Rightarrow> int \<Rightarrow> (OutboxRecord \<Rightarrow> bool) \<Rightarrow> OutboxRecord list \<Rightarrow> SqliteStore \<Rightarrow> SqliteStore list" where
  "recoverSteps policy reason now match [] s = []"
| "recoverSteps policy reason now match (r # rs) s =
     (if \<not> match r then recoverSteps policy reason now match rs s
      else let tr = capSteps policy reason now (ob_id r) (ob_amountMilliViz r) s
           in tr @ recoverSteps policy reason now match rs (endOf s tr))"

lemma recoverSteps_end:
  "endOf s (recoverSteps policy reason now match rs s) = snd (recoverLoop policy reason now match rs (out, s))"
proof (induction rs arbitrary: s out)
  case (Cons r rs)
  obtain d s' where c: "capAndAdvance policy reason now (ob_id r) (ob_amountMilliViz r) s = (d, s')"
    by (cases "capAndAdvance policy reason now (ob_id r) (ob_amountMilliViz r) s")
  have "endOf s (capSteps policy reason now (ob_id r) (ob_amountMilliViz r) s) = s'"
    by (simp add: capSteps_end c)
  with Cons.IH c show ?case by (auto simp: Let_def split: CapDecision.split)
qed simp

definition recoverStaleSeen ::
  "CapPolicy \<Rightarrow> int \<Rightarrow> int \<Rightarrow> (OutboxRecord \<Rightarrow> bool) \<Rightarrow> string \<Rightarrow> SqliteStore \<Rightarrow>
   SeenRecoveryOutcome \<times> SqliteStore" where
  "recoverStaleSeen policy now staleMs match capPauseReason s =
     recoverLoop policy capPauseReason now match (sql_stale s now staleMs [SEEN])
       (\<lparr>sr_requeued = [], sr_held = [], sr_paused = False\<rparr>, s)"

lemma sqlInv_outbox: "tb_outbox s' = tb_outbox s \<Longrightarrow> sqlInv s' = sqlInv s"
  by (simp add: sqlInv_def)

lemma sql_get_outbox: "tb_outbox s' = tb_outbox s \<Longrightarrow> sql_get s' = sql_get s"
  by (simp add: sql_get_def fun_eq_iff)

lemma sql_get_checkAndRecord [simp]:
  "sql_get (snd (cb_checkAndRecord policy a now s)) = sql_get s"
  by (rule sql_get_outbox) simp

lemma sqlInv_checkAndRecord [simp]:
  "sqlInv (snd (cb_checkAndRecord policy a now s)) = sqlInv s"
  by (rule sqlInv_outbox) simp

lemma sqlInv_pause [simp]: "sqlInv (sql_pause reason now s) = sqlInv s"
  by (rule sqlInv_outbox) simp

lemma capAndAdvance_decision:
  "fst (capAndAdvance policy reason now rid amount s) = fst (cb_checkAndRecord policy amount now s)"
  by (simp add: capAndAdvance_def split: prod.split)

lemma capAndAdvance_inv:
  "sqlInv s \<Longrightarrow> sqlInv (snd (capAndAdvance policy reason now rid amount s))"
  using sqlInv_checkAndRecord [of policy amount now s]
  by (cases "cb_checkAndRecord policy amount now s")
    (auto simp: capAndAdvance_def Let_def sq.ledger_inv split: CapDecision.split)

text \<open>The row ends \<open>QUEUED\<close> or \<open>HELD\<close> with the reason; no other row moves.\<close>

lemma capAndAdvance_get:
  assumes "sqlInv s"
  shows "sql_get (snd (capAndAdvance policy reason now rid amount s)) k =
    (if k = rid then map_option
       (case fst (cb_checkAndRecord policy amount now s) of
          CapOk \<Rightarrow> applyStatus QUEUED noPatch now
        | CapReject why \<Rightarrow> applyStatus HELD (heldPatch (capReasonString why)) now) (sql_get s rid)
     else sql_get s k)"
proof -
  obtain d s1 where c: "cb_checkAndRecord policy amount now s = (d, s1)" by (cases "cb_checkAndRecord policy amount now s")
  have s1: "sqlInv s1" "sql_get s1 = sql_get s"
    using assms sqlInv_checkAndRecord [of policy amount now s] sql_get_checkAndRecord [of policy amount now s] c
    by simp_all
  show ?thesis using s1 c
    by (cases d) (auto simp: capAndAdvance_def Let_def sq.get_setStatus)
qed

definition rowSettled :: "SqliteStore \<Rightarrow> OutboxRecord \<Rightarrow> bool" where
  "rowSettled s r \<longleftrightarrow> (case sql_get s (ob_id r) of None \<Rightarrow> False
     | Some r' \<Rightarrow> ob_status r' = QUEUED \<or> ob_status r' = HELD)"

lemma capAndAdvance_settles:
  assumes "sqlInv s" "sql_get s (ob_id r) \<noteq> None"
  shows "rowSettled (snd (capAndAdvance policy reason now (ob_id r) amount s)) r"
  using assms by (auto simp: rowSettled_def capAndAdvance_get split: CapDecision.split)

lemma capAndAdvance_keeps:
  assumes "sqlInv s" "rowSettled s r"
  shows "rowSettled (snd (capAndAdvance policy reason now rid amount s)) r"
  using assms by (auto simp: rowSettled_def capAndAdvance_get split: CapDecision.split option.splits)

lemma capAndAdvance_present:
  assumes "sqlInv s" "sql_get s k \<noteq> None"
  shows "sql_get (snd (capAndAdvance policy reason now rid amount s)) k \<noteq> None"
  using assms by (auto simp: capAndAdvance_get)

lemma recoverLoop_settles:
  assumes "sqlInv s" "\<forall>r \<in> set rs. sql_get s (ob_id r) \<noteq> None" "rowSettled s r0 \<or> (r0 \<in> set rs \<and> match r0)"
  shows "rowSettled (snd (recoverLoop policy reason now match rs (out, s))) r0"
  using assms
proof (induction rs arbitrary: out s)
  case Nil
  then show ?case by simp
next
  case (Cons r rs)
  show ?case
  proof (cases "match r")
    case False
    with Cons show ?thesis by auto
  next
    case True
    obtain d s' where c: "capAndAdvance policy reason now (ob_id r) (ob_amountMilliViz r) s = (d, s')"
      by (cases "capAndAdvance policy reason now (ob_id r) (ob_amountMilliViz r) s")
    have inv: "sqlInv s'"
      using capAndAdvance_inv [OF Cons.prems(1)] c by (metis snd_conv)
    have pres: "\<forall>x \<in> set rs. sql_get s' (ob_id x) \<noteq> None"
      using capAndAdvance_present [OF Cons.prems(1)] Cons.prems(2) c by (metis list.set_intros(2) snd_conv)
    have "rowSettled s' r0 \<or> (r0 \<in> set rs \<and> match r0)"
      using Cons.prems capAndAdvance_settles [OF Cons.prems(1), of r policy reason now "ob_amountMilliViz r"]
        capAndAdvance_keeps [OF Cons.prems(1), of r0 policy reason now "ob_id r" "ob_amountMilliViz r"] c
      by auto
    with Cons.IH [OF inv pres] True c show ?thesis by (simp split: CapDecision.split)
  qed
qed

text \<open>Every stale row the caller owns leaves \<open>SEEN\<close>.\<close>

lemma recoverStaleSeen_settles:
  assumes "sqlInv s" "r \<in> set (tb_outbox s)" "ob_status r = SEEN"
    "ob_updatedAt r < now - staleMs" "match r"
  shows "rowSettled (snd (recoverStaleSeen policy now staleMs match reason s)) r"
proof -
  have "r \<in> set (sql_stale s now staleMs [SEEN])" using assms by (simp add: sql_stale_def)
  moreover have "\<forall>x \<in> set (sql_stale s now staleMs [SEEN]). sql_get s (ob_id x) \<noteq> None"
    using sql_get_row [OF assms(1)] by (auto simp: sql_stale_def)
  ultimately show ?thesis
    unfolding recoverStaleSeen_def using assms by (intro recoverLoop_settles) auto
qed

text \<open>A row that is not stale \<open>SEEN\<close>, or that is not the caller's, is left alone.\<close>

lemma recoverLoop_frame:
  assumes "sqlInv s" "\<forall>r \<in> set rs. match r \<longrightarrow> ob_id r \<noteq> k"
  shows "sql_get (snd (recoverLoop policy reason now match rs (out, s))) k = sql_get s k"
  using assms
proof (induction rs arbitrary: out s)
  case Nil
  then show ?case by simp
next
  case (Cons r rs)
  show ?case
  proof (cases "match r")
    case False
    with Cons show ?thesis by auto
  next
    case True
    obtain d s' where c: "capAndAdvance policy reason now (ob_id r) (ob_amountMilliViz r) s = (d, s')"
      by (cases "capAndAdvance policy reason now (ob_id r) (ob_amountMilliViz r) s")
    have "sqlInv s'" "sql_get s' k = sql_get s k"
      using capAndAdvance_inv [OF Cons.prems(1)] capAndAdvance_get [OF Cons.prems(1)] Cons.prems(2) True c
      by (metis snd_conv, metis list.set_intros(1) snd_conv)
    with Cons.IH Cons.prems(2) True c show ?thesis by (simp split: CapDecision.split)
  qed
qed

section \<open>Properties\<close>

text \<open>
  C3. The circuit breaker holds: whatever transfers are submitted, in a run whose clock does not
  go backwards, the amounts recorded in any 24 hours ending at or after the last one never exceed
  the rolling cap.
\<close>

theorem rolling_cap_never_exceeded:
  assumes "rs \<noteq> []" "sorted (map snd rs)" "\<forall>r \<in> set rs. 0 \<le> fst r"
    "0 \<le> cp_rolling24hMilliViz policy" "snd (last rs) \<le> u"
  shows "windowSum (u - DAY_MS) u (tb_cap_window (checkAll policy emptySqlite rs)) \<le>
    cp_rolling24hMilliViz policy"
proof -
  have "sqcap.capped (cp_rolling24hMilliViz policy) DAY_MS (snd (hd rs)) emptySqlite"
    using assms(4) by (simp add: sqcap.capped_def emptySqlite_def windowSum_def)
  moreover have "sorted (snd (hd rs) # map snd rs)" using assms(1,2) by (cases rs) auto
  ultimately have "sqcap.capped (cp_rolling24hMilliViz policy) DAY_MS
      (last (snd (hd rs) # map snd rs)) (checkAll policy emptySqlite rs)"
    using assms(3) by (rule checkAll_capped)
  with assms(1,5) show ?thesis by (simp add: sqcap.capped_def last_map)
qed

definition cap_example :: CapPolicy where
  "cap_example = \<lparr>cp_perTxMilliViz = 500, cp_rolling24hMilliViz = 800, cp_manualReviewAboveMilliViz = 450\<rparr>"

theorem rolling_cap_never_exceeded_witness:
  "windowSum (30 - DAY_MS) 30 (tb_cap_window (checkAll cap_example emptySqlite [(400, 10), (300, 20), (200, 30)])) \<le> 800"
  using rolling_cap_never_exceeded [of "[(400, 10), (300, 20), (200, 30)]" cap_example 30]
  by (simp add: cap_example_def)

text \<open>
  A transfer is let through exactly when it is within the per-transfer limit, fits what the
  last 24 hours left of the rolling cap, and is below the manual-review mark, each rejection with
  the reason of the first gate it fails; a transfer over the rolling cap leaves the window's sum as
  it was.
\<close>

lemma cap_decision:
  "fst (cb_checkAndRecord policy a now s) =
     (if a > cp_perTxMilliViz policy then CapReject OVER_PER_TX
      else if windowSum (now - DAY_MS) now (tb_cap_window s) + a > cp_rolling24hMilliViz policy
      then CapReject OVER_24H
      else if a > cp_manualReviewAboveMilliViz policy then CapReject NEEDS_MANUAL_REVIEW
      else CapOk) \<and>
   tb_outbox (snd (cb_checkAndRecord policy a now s)) = tb_outbox s"
  by (simp add: checkAndRecord_decision)

text \<open>
  A row that a crash left in \<open>SEEN\<close> is not lost: the recovery gives every stale row of the
  caller a cap decision, so it ends queued or held.
\<close>

lemma stale_seen_recovered:
  assumes "sqlInv s" "sql_get s k = Some r" "ob_status r = SEEN"
    "ob_updatedAt r < now - staleMs" "match r"
  shows "\<exists>r'. sql_get (snd (recoverStaleSeen policy now staleMs match reason s)) k = Some r' \<and>
    (ob_status r' = QUEUED \<or> ob_status r' = HELD)"
  using recoverStaleSeen_settles [of s r now staleMs match policy reason] assms
    sql_get_id [OF assms(2)] sql_get_in [OF assms(2)]
  by (auto simp: rowSettled_def split: option.splits)

end
