(* ===== verification/Refunds.thy ===== *)
theory Refunds
  imports Caps
begin

text \<open>
  What the outbox owes. The rows of the ledger as a map from ids; the state of each row with respect to
  the child row that pays it back (the \<open>:refund\<close> and \<open>:return\<close> rows the dispatcher plans,
  \<open>packages/dispatcher/src/policy.ts\<close>); and the changes of rows that keep every row in one of the
  states. The dispatcher's writes are such changes.
\<close>

section \<open>The invariant of the rows\<close>

text \<open>
  The key of the child that would pay a row back, and what makes a row \<open>c\<close> that child: it owes the
  sender of \<open>r\<close> the gross less the refund fee, on the side the deposit came from.
\<close>

definition childKey :: "OutboxRecord \<Rightarrow> string" where
  "childKey r = ob_id r @ (if ob_direction r = O_PEG_IN then '':refund'' else '':return'')"

definition paysBack :: "int \<Rightarrow> OutboxRecord \<Rightarrow> OutboxRecord \<Rightarrow> bool" where
  "paysBack fee r c \<longleftrightarrow> ob_id c = childKey r \<and> ob_parentId c = Some (ob_id r) \<and>
     ob_remoteChain c = ob_remoteChain r \<and> ob_sender r = Some (ob_recipient c) \<and> ob_recipient c \<noteq> [] \<and>
     ob_amountMilliViz c = ob_amountMilliViz r - fee \<and> 0 < ob_amountMilliViz c \<and>
     (ob_direction r = O_PEG_IN \<and> ob_direction c = O_REFUND \<or>
      ob_direction r = O_PEG_OUT \<and> ob_direction c = O_GRAM_RETURN)"

definition owesNothing :: "int \<Rightarrow> OutboxRecord \<Rightarrow> bool" where
  "owesNothing fee r \<longleftrightarrow> ob_amountMilliViz r \<le> fee \<or> \<not> truthy (ob_sender r)"

type_synonym rows = "string \<Rightarrow> OutboxRecord option"

text \<open>
  A row without a child is not being refunded, and closed as refunded only if it owes nothing; a row
  with a child is being refunded while the child is on its way, and refunded once it is confirmed.
\<close>

definition refundState :: "int \<Rightarrow> rows \<Rightarrow> OutboxRecord \<Rightarrow> bool" where
  "refundState fee g r \<longleftrightarrow>
     (case g (childKey r) of
        None \<Rightarrow> ob_status r \<noteq> REFUNDING \<and> (ob_status r = REFUNDED \<longrightarrow> owesNothing fee r)
      | Some c \<Rightarrow> paysBack fee r c \<and>
          (ob_status r = REFUNDING \<and> ob_status c \<in> {QUEUED, BROADCAST} \<or>
           ob_status r = REFUNDED \<and> ob_status c = CONFIRMED))"

definition refundId :: "string \<Rightarrow> bool" where
  "refundId k \<longleftrightarrow> endsWith k '':refund'' \<or> endsWith k '':return''"

definition refundRow :: "OutboxRecord \<Rightarrow> bool" where
  "refundRow c \<longleftrightarrow> ob_direction c \<in> {O_REFUND, O_GRAM_RETURN} \<or> refundId (ob_id c)"

text \<open>Every row is in one of these states, and every refund row is the child of a row.\<close>

definition backed :: "int \<Rightarrow> rows \<Rightarrow> bool" where
  "backed fee g \<longleftrightarrow> g [] = None \<and>
     (\<forall>k r. g k = Some r \<longrightarrow> ob_id r = k \<and> refundState fee g r \<and>
        (refundRow r \<longrightarrow> (\<exists>p pr. g p = Some pr \<and> childKey pr = k)))"

definition ordinary :: "ActionStatus \<Rightarrow> bool" where
  "ordinary st \<longleftrightarrow> st \<noteq> REFUNDING \<and> st \<noteq> REFUNDED"

definition underway :: "ActionStatus \<Rightarrow> bool" where
  "underway st \<longleftrightarrow> st = QUEUED \<or> st = BROADCAST"

lemma underway_ordinary: "underway st \<Longrightarrow> ordinary st"
  by (auto simp: underway_def ordinary_def)

lemma sameEvent_refund:
  assumes "sameEvent r r'"
  shows "childKey r' = childKey r" "refundRow r' = refundRow r" "paysBack fee r' = paysBack fee r"
    "owesNothing fee r' = owesNothing fee r" "paysBack fee x r' = paysBack fee x r" "ob_id r' = ob_id r"
  using assms by (auto simp: sameEvent_def childKey_def refundRow_def paysBack_def owesNothing_def fun_eq_iff)

lemma refundId_childKey [simp]: "refundId (childKey r)"
  by (simp add: refundId_def childKey_def)

lemma refundRow_childKey: "childKey x = ob_id c \<Longrightarrow> refundRow c"
  unfolding refundRow_def by (metis refundId_childKey)

lemma childKey_neq: "childKey r \<noteq> ob_id r" "childKey r \<noteq> []"
  by (simp_all add: childKey_def)

lemma childKey_id: "childKey r = k @ '':refund'' \<or> childKey r = k @ '':return'' \<Longrightarrow> ob_id r = k"
  by (auto simp: childKey_def split: if_splits)

lemma backedD:
  assumes "backed fee g" "g k = Some r"
  shows "ob_id r = k" "refundState fee g r" "refundRow r \<Longrightarrow> \<exists>p pr. g p = Some pr \<and> childKey pr = k"
    "k \<noteq> []"
  using assms by (auto simp: backed_def)

lemma backed_Nil: "backed fee g \<Longrightarrow> g [] = None"
  unfolding backed_def by (rule conjunct1)

lemma childKey_inj: "childKey x = childKey y \<Longrightarrow> ob_id x = ob_id y"
  by (simp add: childKey_def split: if_splits)

lemma backed_unique: "backed fee g \<Longrightarrow> g p = Some x \<Longrightarrow> g q = Some y \<Longrightarrow> childKey x = childKey y \<Longrightarrow> p = q"
  using backedD(1) childKey_inj by metis

text \<open>The child of a row that is not in the books is not there either.\<close>

lemma key_fresh:
  assumes "backed fee g" "g k = None"
  shows "g (k @ '':refund'') = None" "g (k @ '':return'') = None"
proof -
  have "g (k @ x) = None" if "x = '':refund'' \<or> x = '':return''" for x
  proof (rule ccontr)
    assume "g (k @ x) \<noteq> None"
    then obtain c where c: "g (k @ x) = Some c" by blast
    then have "refundRow c" using backedD(1) [OF assms(1) c] that by (auto simp: refundRow_def refundId_def)
    from backedD(3) [OF assms(1) c this] obtain p pr where p: "g p = Some pr" "childKey pr = k @ x" by blast
    then have "ob_id pr = k" using that childKey_id by blast
    with backedD(1) [OF assms(1) p(1)] p(1) assms(2) show False by simp
  qed
  then show "g (k @ '':refund'') = None" "g (k @ '':return'') = None" by blast+
qed

text \<open>The child of an ordinary row is not there, and the parent of a refund row is.\<close>

lemma ordinary_childless: "backed fee g \<Longrightarrow> g k = Some r \<Longrightarrow> ordinary (ob_status r) \<Longrightarrow> g (childKey r) = None"
  using backedD(2) [of fee g k r] by (auto simp: refundState_def ordinary_def split: option.splits)

lemma refundRow_parent:
  assumes "backed fee g" "g k = Some c" "refundRow c"
  obtains r where "g (ob_id r) = Some r" "childKey r = k" "paysBack fee r c"
    "ob_status r = REFUNDING \<and> underway (ob_status c) \<or> ob_status r = REFUNDED \<and> ob_status c = CONFIRMED"
proof -
  from backedD(3) [OF assms] obtain p r where p: "g p = Some r" "childKey r = k" by blast
  with backedD(1,2) [OF assms(1) p(1)] assms(2) that [of r] show thesis
    by (auto simp: refundState_def underway_def)
qed

section \<open>The changes that keep it\<close>

lemma backed_fresh:
  assumes b: "backed fee g" and k: "g k = None" "k \<noteq> []" "ob_id c = k"
    and c: "ordinary (ob_status c)" "\<not> refundRow c"
  shows "backed fee (g(k \<mapsto> c))"
proof -
  have ck: "childKey x \<noteq> k" for x using c(2) k(3) refundRow_childKey by metis
  have "g (childKey c) = None" using key_fresh [OF b k(1)] k(3) by (simp add: childKey_def)
  then have "refundState fee (g(k \<mapsto> c)) c"
    using ck c(1) by (simp add: refundState_def ordinary_def)
  note new = this
  have same: "refundState fee (g(k \<mapsto> c)) x = refundState fee g x" for x
    using ck [of x] by (simp add: refundState_def)
  have par: "\<exists>p pr. (g(k \<mapsto> c)) p = Some pr \<and> childKey pr = j" if "g p = Some pr" "childKey pr = j" for p pr j
    using that k(1) by (intro exI [of _ p] exI [of _ pr]) auto
  have "ob_id x = j \<and> refundState fee (g(k \<mapsto> c)) x \<and>
      (refundRow x \<longrightarrow> (\<exists>p pr. (g(k \<mapsto> c)) p = Some pr \<and> childKey pr = j))" if x: "(g(k \<mapsto> c)) j = Some x" for j x
  proof (cases "j = k")
    case True
    then show ?thesis using x k(3) c(2) new by simp
  next
    case False
    then have gx: "g j = Some x" using x by simp
    show ?thesis
    proof (intro conjI impI)
      show "ob_id x = j" by (rule backedD(1) [OF b gx])
      show "refundState fee (g(k \<mapsto> c)) x" unfolding same by (rule backedD(2) [OF b gx])
      assume "refundRow x"
      from backedD(3) [OF b gx this] obtain p pr where "g p = Some pr" "childKey pr = j" by blast
      then show "\<exists>p pr. (g(k \<mapsto> c)) p = Some pr \<and> childKey pr = j" by (rule par)
    qed
  qed
  moreover have "(g(k \<mapsto> c)) [] = None" using backed_Nil [OF b] k(2) by simp
  ultimately show ?thesis unfolding backed_def by blast
qed

text \<open>
  An update of rows that are there. Rows it does not touch keep their state if no touched row is
  their child.
\<close>

lemma backed_update_rows:
  assumes b: "backed fee g"
    and upd: "\<And>k r'. h k = Some r' \<Longrightarrow> \<exists>r. g k = Some r \<and> sameEvent r r'"
    and ok: "\<And>k r. (g ++ h) k = Some r \<Longrightarrow> h k \<noteq> None \<or> h (childKey r) \<noteq> None \<Longrightarrow> refundState fee (g ++ h) r"
  shows "backed fee (g ++ h)"
proof -
  have par: "\<exists>p pr. (g ++ h) p = Some pr \<and> childKey pr = j" if p: "g p = Some pr" "childKey pr = j" for p pr j
  proof (cases "h p")
    case None
    with p show ?thesis by (intro exI [of _ p] exI [of _ pr]) (simp add: map_add_def)
  next
    case (Some r')
    with upd [OF Some] p sameEvent_refund(1) show ?thesis
      by (intro exI [of _ p] exI [of _ r']) (auto simp: map_add_def)
  qed
  have orig: "\<exists>r0. g k = Some r0 \<and> sameEvent r0 r" if r: "(g ++ h) k = Some r" for k r
    using r upd [of k] by (cases "h k") (auto simp: map_add_def)
  have row: "ob_id r = k" "refundRow r \<Longrightarrow> \<exists>p pr. (g ++ h) p = Some pr \<and> childKey pr = k"
    if r: "(g ++ h) k = Some r" for k r
  proof -
    from orig [OF r] obtain r0 where r0: "g k = Some r0" "sameEvent r0 r" by blast
    note se = sameEvent_refund [OF r0(2)]
    show "ob_id r = k" using backedD(1) [OF b r0(1)] se by simp
    show "\<exists>p pr. (g ++ h) p = Some pr \<and> childKey pr = k" if "refundRow r"
      using backedD(3) [OF b r0(1)] that se(2) par by blast
  qed
  have "refundState fee (g ++ h) r" if r: "(g ++ h) k = Some r" for k r
  proof (cases "h k \<noteq> None \<or> h (childKey r) \<noteq> None")
    case True
    with ok [OF r] show ?thesis by blast
  next
    case False
    then have "g k = Some r" "(g ++ h) (childKey r) = g (childKey r)" using r by (auto simp: map_add_def)
    with backedD(2) [OF b this(1)] show ?thesis by (simp add: refundState_def)
  qed
  moreover have "(g ++ h) [] = None"
  proof -
    have "g [] = None" by (rule backed_Nil [OF b])
    then show ?thesis using upd [of "[]"] by (cases "h []") (auto simp: map_add_def)
  qed
  ultimately show ?thesis using row unfolding backed_def by (intro conjI allI impI) blast+
qed

text \<open>The row changes, its state does not: it stays ordinary, and on its way if it is a refund.\<close>

lemma backed_ordinary:
  assumes b: "backed fee g" and r: "g k = Some r" "sameEvent r r'"
    and st: "ordinary (ob_status r)" "ordinary (ob_status r')"
    and child: "refundRow r \<Longrightarrow> underway (ob_status r) \<and> underway (ob_status r')"
  shows "backed fee (g(k \<mapsto> r'))"
proof -
  note se = sameEvent_refund [OF r(2)]
  have "backed fee (g ++ [k \<mapsto> r'])"
  proof (rule backed_update_rows [OF b])
    show "\<exists>r. g j = Some r \<and> sameEvent r x" if "[k \<mapsto> r'] j = Some x" for j x
      using that r by (auto split: if_splits)
    fix j x
    assume x: "(g ++ [k \<mapsto> r']) j = Some x" and hit: "[k \<mapsto> r'] j \<noteq> None \<or> [k \<mapsto> r'] (childKey x) \<noteq> None"
    show "refundState fee (g ++ [k \<mapsto> r']) x"
    proof (cases "j = k")
      case True
      then have x': "x = r'" using x by simp
      have "(g ++ [k \<mapsto> r']) (childKey r') = None"
        using ordinary_childless [OF b r(1) st(1)] childKey_neq(1) [of r] backedD(1) [OF b r(1)] se(1)
        by (simp add: map_add_def)
      then show ?thesis using st(2) by (simp add: x' refundState_def ordinary_def)
    next
      case False
      then have gx: "g j = Some x" "childKey x = k" using x hit by (auto split: if_splits)
      then have "refundRow r" using backedD(1) [OF b r(1)] refundRow_childKey by metis
      with child backedD(2) [OF b gx(1)] gx(2) r(1) se(5) show ?thesis
        by (auto simp: refundState_def underway_def map_add_def)
    qed
  qed
  then show ?thesis by simp
qed

lemma backed_same_status:
  assumes b: "backed fee g" and r: "g k = Some r" "sameEvent r r'" "ob_status r' = ob_status r"
  shows "backed fee (g(k \<mapsto> r'))"
proof -
  note se = sameEvent_refund [OF r(2)]
  have k: "ob_id r = k" by (rule backedD(1) [OF b r(1)])
  have "backed fee (g ++ [k \<mapsto> r'])"
  proof (rule backed_update_rows [OF b])
    show "\<exists>r. g j = Some r \<and> sameEvent r x" if "[k \<mapsto> r'] j = Some x" for j x
      using that r by (auto split: if_splits)
    fix j x
    assume x: "(g ++ [k \<mapsto> r']) j = Some x" and hit: "[k \<mapsto> r'] j \<noteq> None \<or> [k \<mapsto> r'] (childKey x) \<noteq> None"
    show "refundState fee (g ++ [k \<mapsto> r']) x"
    proof (cases "j = k")
      case True
      then have "x = r'" using x by simp
      moreover have "(g ++ [k \<mapsto> r']) (childKey r) = g (childKey r)"
        using childKey_neq(1) [of r] k by (simp add: map_add_def)
      ultimately show ?thesis using backedD(2) [OF b r(1)] se r(3) by (auto simp: refundState_def split: option.splits)
    next
      case False
      then have gx: "g j = Some x" "childKey x = k" using x hit by (auto split: if_splits)
      with backedD(2) [OF b gx(1)] r(1,3) se(5) show ?thesis by (simp add: refundState_def map_add_def)
    qed
  qed
  then show ?thesis by simp
qed

text \<open>A row starts its refund together with the child that pays it back.\<close>

lemma not_refundRow:
  assumes "backed fee g" "g k = Some r" "ob_direction r = O_PEG_IN \<or> ob_direction r = O_PEG_OUT"
  shows "\<not> refundRow r"
proof
  assume "refundRow r"
  from refundRow_parent [OF assms(1,2) this] obtain p where "paysBack fee p r" by blast
  with assms(3) show False by (auto simp: paysBack_def)
qed

lemma backed_refund:
  assumes b: "backed fee g" and r: "g k = Some r" "sameEvent r r'" "ordinary (ob_status r)"
    and c: "paysBack fee r c" "ob_status c = QUEUED" and st: "ob_status r' = REFUNDING"
  shows "backed fee (g(k \<mapsto> r', childKey r \<mapsto> c))"
proof -
  note se = sameEvent_refund [OF r(2)]
  let ?g = "g(k \<mapsto> r', childKey r \<mapsto> c)"
  have k: "ob_id r = k" by (rule backedD(1) [OF b r(1)])
  have none: "g (childKey r) = None" by (rule ordinary_childless [OF b r(1,3)])
  have neq: "childKey r \<noteq> k" "childKey r \<noteq> []" "k \<noteq> []" using childKey_neq [of r] k backedD(4) [OF b r(1)] by auto
  have nr: "\<not> refundRow r" using not_refundRow [OF b r(1)] c(1) by (auto simp: paysBack_def)
  have cid: "ob_id c = childKey r" using c(1) by (simp add: paysBack_def)
  have cc: "?g (childKey c) = None"
  proof -
    have "g (childKey c) = None" using key_fresh [OF b none] cid by (simp add: childKey_def [of c])
    moreover have "childKey c \<noteq> k" using nr k refundRow_childKey by metis
    moreover have "childKey c \<noteq> childKey r" using childKey_neq(1) [of c] cid by simp
    ultimately show ?thesis by simp
  qed
  have par: "\<exists>p pr. ?g p = Some pr \<and> childKey pr = j" if p: "g p = Some pr" "childKey pr = j" for p pr j
  proof (cases "p = k")
    case True
    with p r(1) se(1) neq(1) show ?thesis by (intro exI [of _ k] exI [of _ r']) auto
  next
    case False
    with p none show ?thesis by (intro exI [of _ p] exI [of _ pr]) auto
  qed
  have old: "refundState fee ?g x" if x: "g j = Some x" "j \<noteq> k" for j x
  proof -
    have "childKey x \<noteq> k" using nr k refundRow_childKey by metis
    moreover have "childKey x \<noteq> childKey r" using backed_unique [OF b x(1) r(1)] x(2) by blast
    ultimately show ?thesis using backedD(2) [OF b x(1)] by (simp add: refundState_def)
  qed
  have new: "refundState fee ?g r'" "refundState fee ?g c"
    using c st se cc neq(1) by (simp_all add: refundState_def)
  show ?thesis
    unfolding backed_def
  proof (intro conjI allI impI)
    show "?g [] = None" using neq backed_Nil [OF b] by simp
    fix j x
    assume x: "?g j = Some x"
    consider "j = childKey r" "x = c" | "j = k" "x = r'" "j \<noteq> childKey r" | "g j = Some x" "j \<noteq> k"
      using x by (cases "j = childKey r"; cases "j = k") simp_all
    then show "ob_id x = j" "refundState fee ?g x"
      by (cases; use cid k se new old backedD(1) [OF b] in simp)+
    show "\<exists>p pr. ?g p = Some pr \<and> childKey pr = j" if "refundRow x"
      using \<open>?g j = Some x\<close>
    proof (cases "j = childKey r")
      case True
      then show ?thesis using se(1) neq(1) by (intro exI [of _ k] exI [of _ r']) simp
    next
      case False
      then have "j \<noteq> k" using x that nr se(2) by auto
      then have "g j = Some x" using x False by simp
      from backedD(3) [OF b this that] par show ?thesis by blast
    qed
  qed
qed

text \<open>A confirmed child closes its parent.\<close>

lemma backed_close:
  assumes b: "backed fee g" and c: "g k = Some c" "sameEvent c c'" "refundRow c" "underway (ob_status c)"
    and st: "ob_status c' = CONFIRMED" "ob_status r' = REFUNDED"
    and p: "ob_parentId c = Some p" "g p = Some r" "sameEvent r r'"
  shows "backed fee (g(k \<mapsto> c', p \<mapsto> r'))"
proof -
  note sc = sameEvent_refund [OF c(2)] and sr = sameEvent_refund [OF p(3)]
  obtain q where q: "g (ob_id q) = Some q" "childKey q = k" "paysBack fee q c"
    "ob_status q = REFUNDING \<and> underway (ob_status c) \<or> ob_status q = REFUNDED \<and> ob_status c = CONFIRMED"
    by (rule refundRow_parent [OF b c(1,3)])
  then have qr: "ob_id q = p" "q = r" using p by (auto simp: paysBack_def)
  have neq: "k \<noteq> p" using q(2) qr childKey_neq(1) [of r] by auto
  let ?h = "[k \<mapsto> c', p \<mapsto> r']"
  have nc: "g (childKey c) = None" using ordinary_childless [OF b c(1) underway_ordinary [OF c(4)]] .
  have "backed fee (g ++ ?h)"
  proof (rule backed_update_rows [OF b])
    show "\<exists>r. g j = Some r \<and> sameEvent r x" if "?h j = Some x" for j x
      using that c p by (auto split: if_splits)
    fix j x
    assume x: "(g ++ ?h) j = Some x" and hit: "?h j \<noteq> None \<or> ?h (childKey x) \<noteq> None"
    consider "j = p" "x = r'" | "j = k" "j \<noteq> p" "x = c'" | "j \<noteq> p" "j \<noteq> k" "g j = Some x"
      using x by (auto simp: map_add_def split: if_splits)
    then show "refundState fee (g ++ ?h) x"
    proof cases
      case 1
      then show ?thesis using sr sc q qr neq st by (simp add: refundState_def map_add_def)
    next
      case 2
      have "childKey c \<noteq> p" "childKey c \<noteq> k" using nc p(2) c(1) by auto
      then show ?thesis using 2 sc nc st by (simp add: refundState_def map_add_def)
    next
      case 3
      then have "childKey x = k \<or> childKey x = p" using hit by (auto split: if_splits)
      moreover have "childKey x \<noteq> k" using backed_unique [OF b 3(3) p(2)] q(2) qr(2) 3(1) by auto
      moreover have "childKey x \<noteq> p"
      proof
        assume "childKey x = p"
        then have "refundRow r" using backedD(1) [OF b p(2)] refundRow_childKey by metis
        with not_refundRow [OF b p(2)] q(3) qr show False by (auto simp: paysBack_def)
      qed
      ultimately show ?thesis by blast
    qed
  qed
  then show ?thesis using neq by (simp add: map_add_upd fun_upd_twist)
qed

text \<open>A row that owes nothing is closed on the spot.\<close>

lemma backed_dust:
  assumes b: "backed fee g" and r: "g k = Some r" "sameEvent r r'" "ordinary (ob_status r)" "\<not> refundRow r"
    and st: "ob_status r' = REFUNDED" "owesNothing fee r"
  shows "backed fee (g(k \<mapsto> r'))"
proof -
  note se = sameEvent_refund [OF r(2)]
  have k: "ob_id r = k" by (rule backedD(1) [OF b r(1)])
  have "backed fee (g ++ [k \<mapsto> r'])"
  proof (rule backed_update_rows [OF b])
    show "\<exists>r. g j = Some r \<and> sameEvent r x" if "[k \<mapsto> r'] j = Some x" for j x
      using that r by (auto split: if_splits)
    fix j x
    assume x: "(g ++ [k \<mapsto> r']) j = Some x" and hit: "[k \<mapsto> r'] j \<noteq> None \<or> [k \<mapsto> r'] (childKey x) \<noteq> None"
    have "childKey x \<noteq> k" using r(4) k refundRow_childKey by metis
    then have "j = k" using hit by (auto split: if_splits)
    then have "x = r'" using x by simp
    moreover have "(g ++ [k \<mapsto> r']) (childKey r) = None"
      using ordinary_childless [OF b r(1,3)] childKey_neq(1) [of r] k by (simp add: map_add_def)
    ultimately show "refundState fee (g ++ [k \<mapsto> r']) x" using se st by (simp add: refundState_def)
  qed
  then show ?thesis by simp
qed

end
