(* ===== verification/Dispatcher.thy ===== *)
theory Dispatcher
  imports Refunds Fees
begin

text \<open>
  The dispatcher: \<open>packages/dispatcher/src/policy.ts\<close> (the pure policy) and
  \<open>packages/dispatcher/src/index.ts\<close> (the tick that drains the outbox). The coordinator is the
  argument \<open>submit\<close> of the tick: the reply it gives for a row, the time it returns at, and the
  shared store as it leaves it. What a tick writes to the ledger after a decision is a list of
  \<open>ledger_op\<close>, in the order of the code's awaits, so that a crash is a prefix of it.

  The staff alerts are a list of their kinds and ids; console output is not modelled. The
  writes of the phases before the deliveries are stamped with the tick's own \<open>now\<close>.
\<close>

section \<open>policy.ts\<close>

record DeliveryResult =
  dr_broadcast :: bool
  dr_txid :: "string option"
  dr_feeMilliViz :: "int option"
  dr_error :: "string option"

record Transition =
  tr_status :: ActionStatus
  tr_patch :: StatusPatch

record RetryOpts =
  ro_retryIntervalMs :: int
  ro_windowMs :: int

definition planTransition :: "OutboxRecord \<Rightarrow> DeliveryResult \<Rightarrow> int \<Rightarrow> RetryOpts \<Rightarrow> Transition" where
  "planTransition rec result now opts =
     (if dr_broadcast result
      then \<lparr>tr_status = CONFIRMED,
            tr_patch = noPatch\<lparr>pt_txid := Some (dr_txid result), pt_lastError := Some None,
              pt_feeMilliViz := (case dr_feeMilliViz result of None \<Rightarrow> None
                | Some f \<Rightarrow> if f > 0 then Some f else None)\<rparr>\<rparr>
      else
        let attempts = ob_attempts rec + 1;
            err = coalesce (dr_error result) ''delivery failed'';
            nextAttemptAt = now + ro_retryIntervalMs opts
        in if now - ob_createdAt rec \<ge> ro_windowMs opts \<and> ob_direction rec = O_PEG_IN
           then \<lparr>tr_status = REFUNDING,
                 tr_patch = noPatch\<lparr>pt_attempts := Some attempts,
                   pt_lastError := Some (Some (''window exhausted: '' @ err)),
                   pt_nextAttemptAt := Some nextAttemptAt\<rparr>\<rparr>
           else \<lparr>tr_status = QUEUED,
                 tr_patch = noPatch\<lparr>pt_attempts := Some attempts, pt_lastError := Some (Some err),
                   pt_nextAttemptAt := Some nextAttemptAt\<rparr>\<rparr>)"

definition refundAmount :: "int \<Rightarrow> int \<Rightarrow> int" where
  "refundAmount gross refundFee = (let r = gross - refundFee in if r > 0 then r else 0)"

record ChildCtx =
  cx_feesGateAccount :: string
  cx_sweepAmountMilliViz :: int
  cx_refundFeeMilliViz :: int

definition childOf ::
  "OutboxRecord \<Rightarrow> string \<Rightarrow> OutboxDirection \<Rightarrow> string \<Rightarrow> int \<Rightarrow> EnqueueInput" where
  "childOf rec suffix dir recipient amount =
     \<lparr>ei_id = ob_id rec @ suffix, ei_direction = dir, ei_remoteChain = ob_remoteChain rec,
      ei_recipient = recipient, ei_sender = None, ei_amountMilliViz = amount,
      ei_feeMilliViz = None, ei_digest = ob_digest rec @ suffix, ei_status = Some QUEUED,
      ei_lastError = None, ei_parentId = Some (ob_id rec), ei_blockNum = None\<rparr>"

definition RETURN_INVALID_DEST :: string where
  "RETURN_INVALID_DEST = ''RETURN_INVALID_DEST''"

definition INVALID_DESTINATION :: string where
  "INVALID_DESTINATION = ''INVALID_DESTINATION''"

definition planChildren :: "OutboxRecord \<Rightarrow> ActionStatus \<Rightarrow> ChildCtx \<Rightarrow> EnqueueInput list" where
  "planChildren rec status ctx =
     (if status = CONFIRMED \<and> ob_direction rec = O_PEG_IN \<and> cx_sweepAmountMilliViz ctx > 0
      then [childOf rec '':fee'' O_FEE_SWEEP (cx_feesGateAccount ctx) (cx_sweepAmountMilliViz ctx)]
      else if status = REFUNDING \<and> ob_direction rec = O_PEG_IN \<and> truthy (ob_sender rec)
      then (let amt = refundAmount (ob_amountMilliViz rec) (cx_refundFeeMilliViz ctx)
            in if amt = 0 then []
               else [childOf rec '':refund'' O_REFUND (the (ob_sender rec)) amt])
      else if status = REFUNDING \<and> ob_direction rec = O_PEG_OUT \<and>
              ob_lastError rec = Some RETURN_INVALID_DEST \<and> truthy (ob_sender rec)
      then (let amt = refundAmount (ob_amountMilliViz rec) (cx_refundFeeMilliViz ctx)
            in if amt = 0 then []
               else [childOf rec '':return'' O_GRAM_RETURN (the (ob_sender rec)) amt])
      else [])"

section \<open>index.ts: delivery\<close>

definition recordToAction :: "OutboxRecord \<Rightarrow> CanonicalAction" where
  "recordToAction rec = \<lparr>
     act_direction = (case ob_direction rec of O_PEG_IN \<Rightarrow> PEG_IN | O_GRAM_RETURN \<Rightarrow> GRAM_RETURN
       | _ \<Rightarrow> PEG_OUT),
     act_remoteChain = ob_remoteChain rec,
     act_id = ob_id rec,
     act_recipient = ob_recipient rec,
     act_amountMilliViz = ob_amountMilliViz rec,
     act_digest = ob_digest rec\<rparr>"

record SubmitBody =
  sb_broadcast :: "bool option"
  sb_txid :: "string option"
  sb_error :: "string option"
  sb_feeMilliViz :: "string option"

text \<open>What \<open>fetch\<close> and \<open>res.json()\<close> give: an exception with its text, or a status and a body.\<close>

datatype SubmitReply = FetchThrew string | Reply nat SubmitBody

definition deliveryOf :: "SubmitReply \<Rightarrow> DeliveryResult" where
  "deliveryOf reply =
     (let failed = (\<lambda>e. \<lparr>dr_broadcast = False, dr_txid = None, dr_feeMilliViz = None, dr_error = Some e\<rparr>)
      in case reply of
           FetchThrew e \<Rightarrow> failed e
         | Reply status body \<Rightarrow>
             if status = 423 then failed ''coordinator paused''
             else if \<not> (200 \<le> status \<and> status \<le> 299) then failed (''coordinator HTTP '' @ decNat status)
             else (case sb_feeMilliViz body of
                 None \<Rightarrow> \<lparr>dr_broadcast = sb_broadcast body = Some True, dr_txid = sb_txid body,
                   dr_feeMilliViz = None, dr_error = sb_error body\<rparr>
               | Some f \<Rightarrow>
                   (case bigintOf f of
                      None \<Rightarrow> failed ''SyntaxError: Cannot convert to a BigInt''
                    | Some n \<Rightarrow> \<lparr>dr_broadcast = sb_broadcast body = Some True, dr_txid = sb_txid body,
                        dr_feeMilliViz = Some n, dr_error = sb_error body\<rparr>)))"

record TickOpts = RetryOpts +
  to_pegInTimeoutMs :: int
  to_pegOutTimeoutMs :: int
  to_staleDeliveryAlertMs :: int
  to_feesGateAccount :: string
  to_fees :: GatewayFeeConfig
  to_refundFeeMilliViz :: int

record DispState =
  ds_store :: SqliteStore
  ds_alertedWedged :: "string list"
  ds_notices :: "(string \<times> string) list"

abbreviation runWrites :: "SqliteStore \<Rightarrow> ledger_op list \<Rightarrow> SqliteStore" where
  "runWrites \<equiv> foldl (ledgerStep sql_enqueue sql_setStatus sql_setFee)"

definition notify :: "string \<Rightarrow> string \<Rightarrow> DispState \<Rightarrow> DispState" where
  "notify kind rid d = d\<lparr>ds_notices := ds_notices d @ [(kind, rid)]\<rparr>"

definition alertWedged :: "OutboxRecord \<Rightarrow> DispState \<Rightarrow> DispState" where
  "alertWedged rec d =
     (if ob_id rec \<in> set (ds_alertedWedged d) then d
      else (notify ''delivery'' (ob_id rec) d)\<lparr>ds_alertedWedged := ds_alertedWedged d @ [ob_id rec]\<rparr>)"

definition deliveryTimeout :: "'a TickOpts_scheme \<Rightarrow> OutboxRecord \<Rightarrow> int" where
  "deliveryTimeout opts rec =
     (if ob_direction rec = O_PEG_IN then to_pegInTimeoutMs opts else to_pegOutTimeoutMs opts)"

text \<open>Phase 1: orphaned \<open>BROADCAST\<close> rows.\<close>

fun recoverOrphans :: "TickOpts \<Rightarrow> int \<Rightarrow> OutboxRecord list \<Rightarrow> SqliteStore \<Rightarrow> SqliteStore" where
  "recoverOrphans opts now [] s = s"
| "recoverOrphans opts now (rec # recs) s =
     recoverOrphans opts now recs
       (if now - ob_updatedAt rec < deliveryTimeout opts rec then s
        else sql_setStatus (ob_id rec) QUEUED
          (noPatch\<lparr>pt_attempts := Some (ob_attempts rec + 1), pt_nextAttemptAt := Some now\<rparr>) now s)"

definition orphanPhase :: "TickOpts \<Rightarrow> int \<Rightarrow> SqliteStore \<Rightarrow> SqliteStore" where
  "orphanPhase opts now s =
     recoverOrphans opts now
       (sql_stale s now (min (to_pegInTimeoutMs opts) (to_pegOutTimeoutMs opts)) [BROADCAST]) s"

text \<open>
  Phase 2: held rows that can never be delivered. The writes for one row: the child first, then
  the parent.
\<close>

definition holdCtx :: "TickOpts \<Rightarrow> ChildCtx" where
  "holdCtx opts = \<lparr>cx_feesGateAccount = to_feesGateAccount opts, cx_sweepAmountMilliViz = 0,
     cx_refundFeeMilliViz = to_refundFeeMilliViz opts\<rparr>"

definition dustPatch :: StatusPatch where
  "dustPatch = noPatch\<lparr>pt_lastError := Some (Some ''dust retained (<= refund fee)'')\<rparr>"

definition heldWrites :: "TickOpts \<Rightarrow> int \<Rightarrow> OutboxRecord \<Rightarrow> ledger_op list" where
  "heldWrites opts now rec =
     (let children = planChildren rec REFUNDING (holdCtx opts)
      in map (\<lambda>c. OpEnqueue c now) children @
         [if children = [] then OpSetStatus (ob_id rec) REFUNDED dustPatch now
          else OpSetStatus (ob_id rec) REFUNDING noPatch now])"

definition heldFor :: "OutboxDirection \<Rightarrow> string \<Rightarrow> OutboxRecord \<Rightarrow> bool" where
  "heldFor dir why rec \<longleftrightarrow> \<not> (ob_direction rec \<noteq> dir \<or> ob_lastError rec \<noteq> Some why \<or> \<not> truthy (ob_sender rec))"

fun heldLoop ::
  "TickOpts \<Rightarrow> int \<Rightarrow> OutboxDirection \<Rightarrow> string \<Rightarrow> string \<Rightarrow> OutboxRecord list \<Rightarrow> DispState \<Rightarrow> DispState" where
  "heldLoop opts now dir why kind [] d = d"
| "heldLoop opts now dir why kind (rec # recs) d =
     heldLoop opts now dir why kind recs
       (if heldFor dir why rec
        then notify kind (ob_id rec) (d\<lparr>ds_store := runWrites (ds_store d) (heldWrites opts now rec)\<rparr>)
        else d)"

definition heldPhase :: "TickOpts \<Rightarrow> int \<Rightarrow> OutboxDirection \<Rightarrow> string \<Rightarrow> string \<Rightarrow> DispState \<Rightarrow> DispState" where
  "heldPhase opts now dir why kind d = heldLoop opts now dir why kind (sql_due (ds_store d) now [HELD]) d"

text \<open>Phase 3: the delivery of one row. The parent a confirmed refund or return closes out.\<close>

definition parentOf :: "OutboxRecord \<Rightarrow> string option" where
  "parentOf rec =
     (case ob_parentId rec of
        Some p \<Rightarrow> Some p
      | None \<Rightarrow>
          if endsWith (ob_id rec) '':refund'' then Some (sliceEnd (ob_id rec) (length '':refund''))
          else if endsWith (ob_id rec) '':return'' then Some (sliceEnd (ob_id rec) (length '':return''))
          else None)"

definition sweepAmount :: "TickOpts \<Rightarrow> OutboxRecord \<Rightarrow> ActionStatus \<Rightarrow> int" where
  "sweepAmount opts rec status =
     (if status = CONFIRMED \<and> ob_direction rec = O_PEG_IN
      then baseFee (ob_amountMilliViz rec) (pegInFeePolicyFor (to_fees opts) (coalesce (ob_remoteChain rec) SOLANA))
      else 0)"

definition childrenFor :: "TickOpts \<Rightarrow> OutboxRecord \<Rightarrow> ActionStatus \<Rightarrow> EnqueueInput list" where
  "childrenFor opts rec status =
     planChildren rec status \<lparr>cx_feesGateAccount = to_feesGateAccount opts,
       cx_sweepAmountMilliViz = sweepAmount opts rec status,
       cx_refundFeeMilliViz = to_refundFeeMilliViz opts\<rparr>"

definition deliveryWrites :: "TickOpts \<Rightarrow> OutboxRecord \<Rightarrow> DeliveryResult \<Rightarrow> int \<Rightarrow> ledger_op list" where
  "deliveryWrites opts rec result now =
     (let t = planTransition rec result now (RetryOpts.truncate opts);
          children = childrenFor opts rec (tr_status t)
      in [OpSetStatus (ob_id rec) (tr_status t) (tr_patch t) now] @
         map (\<lambda>c. OpEnqueue c now) children @
         (if tr_status t = REFUNDING \<and> ob_direction rec = O_PEG_IN \<and> children = []
          then [OpSetStatus (ob_id rec) REFUNDED dustPatch now] else []) @
         (if tr_status t = CONFIRMED \<and> (ob_direction rec = O_REFUND \<or> ob_direction rec = O_GRAM_RETURN)
          then (case parentOf rec of
                  None \<Rightarrow> []
                | Some p \<Rightarrow> if p = [] then [] else [OpSetStatus p REFUNDED noPatch now])
          else []))"

type_synonym submit = "OutboxRecord \<Rightarrow> SqliteStore \<Rightarrow> SubmitReply \<times> int \<times> SqliteStore"

definition deliverOne :: "TickOpts \<Rightarrow> int \<Rightarrow> submit \<Rightarrow> OutboxRecord \<Rightarrow> DispState \<Rightarrow> DispState" where
  "deliverOne opts now submit rec d =
     (let d1 = (if now - ob_createdAt rec \<ge> to_staleDeliveryAlertMs opts then alertWedged rec d else d);
          s1 = sql_setStatus (ob_id rec) BROADCAST noPatch now (ds_store d1)
      in case submit rec s1 of (reply, now', s2) \<Rightarrow>
        let result = deliveryOf reply;
            st = tr_status (planTransition rec result now' (RetryOpts.truncate opts));
            d2 = d1\<lparr>ds_store := runWrites s2 (deliveryWrites opts rec result now'),
                    ds_alertedWedged := (if st \<noteq> QUEUED then removeAll (ob_id rec) (ds_alertedWedged d1)
                                         else ds_alertedWedged d1)\<rparr>;
            d3 = (if st = REFUNDING \<and> ob_direction rec = O_PEG_IN \<and> childrenFor opts rec st = []
                  then notify ''refund'' (ob_id rec) d2 else d2)
        in if st = REFUNDING then notify ''refund'' (ob_id rec) d3 else d3)"

fun deliverLoop :: "TickOpts \<Rightarrow> int \<Rightarrow> submit \<Rightarrow> OutboxRecord list \<Rightarrow> DispState \<Rightarrow> DispState" where
  "deliverLoop opts now submit [] d = d"
| "deliverLoop opts now submit (rec # recs) d =
     deliverLoop opts now submit recs (deliverOne opts now submit rec d)"

definition alertLoop :: "OutboxRecord list \<Rightarrow> DispState \<Rightarrow> DispState" where
  "alertLoop recs d = foldl (\<lambda>d rec. alertWedged rec d) d recs"

definition tick :: "TickOpts \<Rightarrow> submit \<Rightarrow> int \<Rightarrow> DispState \<Rightarrow> DispState" where
  "tick opts submit now d =
     (let d1 = d\<lparr>ds_store := orphanPhase opts now (ds_store d)\<rparr>;
          d2 = alertLoop (sql_stale (ds_store d1) now (to_staleDeliveryAlertMs opts) [REFUNDING]) d1;
          d3 = heldPhase opts now O_PEG_IN INVALID_DESTINATION ''refund'' d2;
          d4 = heldPhase opts now O_PEG_OUT RETURN_INVALID_DEST ''return'' d3
      in deliverLoop opts now submit (sql_due (ds_store d4) now [QUEUED]) d4)"

text \<open>One round of the loop of \<open>main\<close>: nothing happens while the gateway is paused.\<close>

definition dispatcherRound :: "TickOpts \<Rightarrow> submit \<Rightarrow> int \<Rightarrow> DispState \<Rightarrow> DispState" where
  "dispatcherRound opts submit now d = (if sql_isPaused (ds_store d) then d else tick opts submit now d)"

section \<open>The store under the writes of a tick\<close>

lemma runWrites_inv: "sqlInv s \<Longrightarrow> sqlInv (runWrites s ops)"
  by (rule sq.run_inv)

lemma runWrites_event:
  "sqlInv s \<Longrightarrow> sql_get s k = Some r \<Longrightarrow> \<exists>r'. sql_get (runWrites s ops) k = Some r' \<and> sameEvent r r'"
  by (rule sq.run_sameEvent)

lemma runWrites_present: "sqlInv s \<Longrightarrow> sql_get s k \<noteq> None \<Longrightarrow> sql_get (runWrites s ops) k \<noteq> None"
  using runWrites_event by fastforce

text \<open>Phase 1 row by row.\<close>

definition overdue :: "TickOpts \<Rightarrow> int \<Rightarrow> OutboxRecord \<Rightarrow> bool" where
  "overdue opts now rec \<longleftrightarrow> deliveryTimeout opts rec \<le> now - ob_updatedAt rec"

definition requeued :: "int \<Rightarrow> OutboxRecord \<Rightarrow> OutboxRecord \<Rightarrow> OutboxRecord" where
  "requeued now rec = applyStatus QUEUED
     (noPatch\<lparr>pt_attempts := Some (ob_attempts rec + 1), pt_nextAttemptAt := Some now\<rparr>) now"

lemma recoverOrphans_get:
  assumes "sqlInv s" "distinct (map ob_id recs)"
  shows "sqlInv (recoverOrphans opts now recs s) \<and>
    sql_get (recoverOrphans opts now recs s) k =
      (case List.find (\<lambda>r. ob_id r = k \<and> overdue opts now r) recs of
         None \<Rightarrow> sql_get s k
       | Some r \<Rightarrow> map_option (requeued now r) (sql_get s k))"
  using assms
proof (induction recs arbitrary: s)
  case Nil
  then show ?case by simp
next
  case (Cons rec recs)
  let ?s = "if now - ob_updatedAt rec < deliveryTimeout opts rec then s
     else sql_setStatus (ob_id rec) QUEUED
       (noPatch\<lparr>pt_attempts := Some (ob_attempts rec + 1), pt_nextAttemptAt := Some now\<rparr>) now s"
  have inv: "sqlInv ?s" using Cons.prems by (simp add: sq.inv_setStatus)
  have none: "List.find (\<lambda>r. ob_id r = ob_id rec \<and> overdue opts now r) recs = None"
    using Cons.prems(2) by (auto simp: find_None_iff image_iff)
  have get: "sql_get ?s k = (if ob_id rec = k \<and> overdue opts now rec
      then map_option (requeued now rec) (sql_get s k) else sql_get s k)"
    using Cons.prems(1) by (auto simp: sq.get_setStatus overdue_def requeued_def)
  show ?case
    using Cons.IH [OF inv] Cons.prems(2) get none by (auto split: option.split)
qed

lemma sql_stale_distinct: "sqlInv s \<Longrightarrow> distinct (map ob_id (sql_stale s now age sts))"
  by (simp add: sqlInv_def sql_stale_def distinct_map_filter)

lemma orphanPhase_inv: "sqlInv s \<Longrightarrow> sqlInv (orphanPhase opts now s)"
  unfolding orphanPhase_def using recoverOrphans_get sql_stale_distinct by blast

lemma find_unique:
  "distinct (map f xs) \<Longrightarrow> r \<in> set xs \<Longrightarrow> P r \<Longrightarrow> List.find (\<lambda>x. f x = f r \<and> P x) xs = Some r"
  by (induction xs) (auto simp: rev_image_eqI)

text \<open>A row past its own timeout is queued again with one more attempt.\<close>

lemma orphanPhase_recovers:
  assumes "sqlInv s" "sql_get s k = Some r" "ob_status r = BROADCAST"
    "deliveryTimeout opts r < now - ob_updatedAt r"
  shows "sql_get (orphanPhase opts now s) k = Some (requeued now r r)"
proof -
  let ?recs = "sql_stale s now (min (to_pegInTimeoutMs opts) (to_pegOutTimeoutMs opts)) [BROADCAST]"
  have k: "ob_id r = k" using assms(2) by (rule sql_get_id)
  have "r \<in> set (tb_outbox s)" using assms(2) by (rule sql_get_in)
  then have "r \<in> set ?recs" using assms(3,4) by (auto simp: sql_stale_def deliveryTimeout_def split: if_splits)
  then have "List.find (\<lambda>x. ob_id x = k \<and> overdue opts now x) ?recs = Some r"
    using find_unique [OF sql_stale_distinct [OF assms(1)], of r _ _ _ "overdue opts now"] assms(4) k
    by (simp add: overdue_def)
  then show ?thesis
    unfolding orphanPhase_def using recoverOrphans_get [OF assms(1) sql_stale_distinct [OF assms(1)]] assms(2)
    by simp
qed

text \<open>Every other row is left alone.\<close>

lemma orphanPhase_frame:
  assumes "sqlInv s" "sql_get s k = Some r"
    "ob_status r \<noteq> BROADCAST \<or> now - ob_updatedAt r < deliveryTimeout opts r"
  shows "sql_get (orphanPhase opts now s) k = Some r"
proof -
  let ?recs = "sql_stale s now (min (to_pegInTimeoutMs opts) (to_pegOutTimeoutMs opts)) [BROADCAST]"
  have "List.find (\<lambda>x. ob_id x = k \<and> overdue opts now x) ?recs = None"
  proof (rule ccontr)
    assume "\<not> ?thesis"
    then obtain x where "List.find (\<lambda>x. ob_id x = k \<and> overdue opts now x) ?recs = Some x" by blast
    then have x: "x \<in> set (tb_outbox s)" "ob_status x = BROADCAST" "ob_id x = k" "overdue opts now x"
      by (auto dest!: find_Some_iff' simp: sql_stale_def split: if_splits)
    with sql_get_row [OF assms(1) x(1)] assms(2,3) show False by (auto simp: overdue_def)
  qed
  then show ?thesis
    unfolding orphanPhase_def using recoverOrphans_get [OF assms(1) sql_stale_distinct [OF assms(1)]] assms(2)
    by simp
qed

section \<open>Refunds are never left without a child\<close>

definition refundChild :: "SqliteStore \<Rightarrow> string \<Rightarrow> bool" where
  "refundChild s k \<longleftrightarrow> sql_get s (k @ '':refund'') \<noteq> None \<or> sql_get s (k @ '':return'') \<noteq> None"

lemma refundChild_step:
  "sqlInv s \<Longrightarrow> refundChild s k \<Longrightarrow> refundChild (ledgerStep sql_enqueue sql_setStatus sql_setFee s op) k"
  unfolding refundChild_def using sq.step_sameEvent by (metis not_Some_eq)

text \<open>A child planned for a refund is the one that backs its parent.\<close>

lemma planChildren_refund:
  assumes "planChildren rec REFUNDING ctx = c # cs"
  shows "cs = []" and "ei_id c = ob_id rec @ '':refund'' \<or> ei_id c = ob_id rec @ '':return''"
  using assms by (auto simp: planChildren_def childOf_def Let_def split: if_splits)

lemma enqueue_refundChild:
  assumes "sqlInv s" "ei_id c = k @ '':refund'' \<or> ei_id c = k @ '':return''"
  shows "refundChild (snd (sql_enqueue c now s)) k"
  using assms by (auto simp: refundChild_def sq.get_enqueue)

lemma planChildren_pays:
  assumes "planChildren rec REFUNDING ctx = c # cs"
  shows "paysBack (cx_refundFeeMilliViz ctx) rec (recordOf c now)" "ob_status (recordOf c now) = QUEUED"
  using assms
  by (auto simp: planChildren_def childOf_def paysBack_def childKey_def refundAmount_def recordOf_def Let_def truthy_def
      split: if_splits option.splits)

text \<open>The books: the rows of the store are backed at the refund fee.\<close>

definition refundsBacked :: "int \<Rightarrow> SqliteStore \<Rightarrow> bool" where
  "refundsBacked fee s \<longleftrightarrow> sqlInv s \<and> backed fee (sql_get s)"

text \<open>
  What the other services write: the watchers enqueue source rows and decide the rows they left
  \<open>SEEN\<close>; the coordinator pins transactions of rows that are on their way, and fees.
\<close>

fun otherOp :: "SqliteStore \<Rightarrow> ledger_op \<Rightarrow> bool" where
  "otherOp s (OpEnqueue i now) \<longleftrightarrow> ei_id i \<noteq> [] \<and> \<not> refundId (ei_id i) \<and>
     ei_direction i \<notin> {O_REFUND, O_GRAM_RETURN} \<and> coalesce (ei_status i) SEEN \<in> {SEEN, QUEUED, HELD}"
| "otherOp s (OpSetStatus k st p now) \<longleftrightarrow>
     (case sql_get s k of None \<Rightarrow> True
      | Some r \<Rightarrow> underway (ob_status r) \<and> st = BROADCAST \<or> ob_status r = SEEN \<and> st \<in> {SEEN, QUEUED, HELD})"
| "otherOp s (OpSetFee k fee now) \<longleftrightarrow> True"

fun otherOps :: "SqliteStore \<Rightarrow> ledger_op list \<Rightarrow> bool" where
  "otherOps s [] \<longleftrightarrow> True"
| "otherOps s (op # ops) \<longleftrightarrow> otherOp s op \<and> otherOps (ledgerStep sql_enqueue sql_setStatus sql_setFee s op) ops"

text \<open>A write that starts and closes no refund.\<close>

fun safeOp :: "SqliteStore \<Rightarrow> ledger_op \<Rightarrow> bool" where
  "safeOp s (OpEnqueue i now) \<longleftrightarrow> ei_id i \<noteq> [] \<and> \<not> refundId (ei_id i) \<and>
     ei_direction i \<notin> {O_REFUND, O_GRAM_RETURN} \<and> ordinary (coalesce (ei_status i) SEEN)"
| "safeOp s (OpSetStatus k st p now) \<longleftrightarrow>
     (\<forall>r. sql_get s k = Some r \<longrightarrow> ordinary st \<and> ordinary (ob_status r) \<and> (refundRow r \<longrightarrow> underway (ob_status r) \<and> underway st))"
| "safeOp s (OpSetFee k fee now) \<longleftrightarrow> True"

lemma get_maps:
  assumes "sqlInv s"
  shows "sql_get (snd (sql_enqueue i now s)) =
      (if sql_get s (ei_id i) = None then (sql_get s)(ei_id i \<mapsto> recordOf i now) else sql_get s)"
    and "sql_get (sql_setStatus k st p now s) =
      (case sql_get s k of None \<Rightarrow> sql_get s | Some r \<Rightarrow> (sql_get s)(k \<mapsto> applyStatus st p now r))"
    and "sql_get (sql_setFee k fee now s) =
      (case sql_get s k of None \<Rightarrow> sql_get s | Some r \<Rightarrow> (sql_get s)(k \<mapsto> applyFee fee now r))"
  using assms by (auto simp: fun_eq_iff sq.ledger_reads split: option.split)

lemma applyFee_status [simp]: "ob_status (applyFee fee now r) = ob_status r"
  by (simp add: applyFee_def)

lemma safe_backed:
  assumes "refundsBacked fee s" "safeOp s op"
  shows "refundsBacked fee (ledgerStep sql_enqueue sql_setStatus sql_setFee s op)"
proof -
  have s: "sqlInv s" "backed fee (sql_get s)" using assms(1) by (simp_all add: refundsBacked_def)
  have "backed fee (sql_get (ledgerStep sql_enqueue sql_setStatus sql_setFee s op))"
  proof (cases op)
    case (OpEnqueue i now)
    with assms(2) have c: "ordinary (ob_status (recordOf i now))" "\<not> refundRow (recordOf i now)" "ei_id i \<noteq> []"
      by (simp_all add: refundRow_def)
    show ?thesis
      using backed_fresh [OF s(2) _ c(3) _ c(1,2)] s by (simp add: OpEnqueue get_maps(1))
  next
    case (OpSetStatus k st p now)
    show ?thesis
    proof (cases "sql_get s k")
      case None
      with s show ?thesis by (simp add: OpSetStatus get_maps(2))
    next
      case (Some r)
      with assms(2) OpSetStatus have st: "ordinary st" "ordinary (ob_status r)"
        "refundRow r \<Longrightarrow> underway (ob_status r) \<and> underway st" by simp_all
      show ?thesis
        using backed_ordinary [OF s(2) Some, of "applyStatus st p now r"] st s Some
        by (simp add: OpSetStatus get_maps(2))
    qed
  next
    case (OpSetFee k f now)
    show ?thesis
    proof (cases "sql_get s k")
      case None
      with s show ?thesis by (simp add: OpSetFee get_maps(3))
    next
      case (Some r)
      show ?thesis
        using backed_same_status [OF s(2) Some, of "applyFee f now r"] s Some by (simp add: OpSetFee get_maps(3))
    qed
  qed
  then show ?thesis using sq.step_inv [OF s(1)] by (simp add: refundsBacked_def)
qed

lemma otherOp_safe:
  assumes "refundsBacked fee s" "otherOp s op"
  shows "safeOp s op"
proof (cases op)
  case (OpSetStatus k st p now)
  have "ordinary st \<and> ordinary (ob_status r) \<and> (refundRow r \<longrightarrow> underway (ob_status r) \<and> underway st)"
    if r: "sql_get s k = Some r" for r
  proof -
    have b: "backed fee (sql_get s)" using assms(1) by (simp add: refundsBacked_def)
    have "ob_status r \<noteq> SEEN" if "refundRow r"
      by (rule refundRow_parent [OF b r that]) (auto simp: underway_def)
    then show ?thesis using assms(2) OpSetStatus r by (auto simp: underway_def ordinary_def)
  qed
  then show ?thesis by (simp add: OpSetStatus)
qed (use assms(2) in \<open>auto simp: ordinary_def\<close>)

text \<open>
  A row the dispatcher read from a query and has not come to yet: still on its way, or still held.
\<close>

definition waiting :: "SqliteStore \<Rightarrow> OutboxRecord \<Rightarrow> bool" where
  "waiting s x \<longleftrightarrow> (\<exists>r. sql_get s (ob_id x) = Some r \<and> sameEvent x r \<and> underway (ob_status r))"

definition stillHeld :: "SqliteStore \<Rightarrow> OutboxRecord \<Rightarrow> bool" where
  "stillHeld s x \<longleftrightarrow> (\<exists>r. sql_get s (ob_id x) = Some r \<and> sameEvent x r \<and> ob_status r = HELD)"

definition others :: "(SqliteStore \<Rightarrow> OutboxRecord \<Rightarrow> bool) \<Rightarrow> OutboxRecord \<Rightarrow> SqliteStore \<Rightarrow> SqliteStore \<Rightarrow> bool" where
  "others P rec s s' \<longleftrightarrow> (\<forall>x. ob_id x \<noteq> ob_id rec \<longrightarrow> P s x \<longrightarrow> P s' x)"

lemma others_trans: "others P rec s s' \<Longrightarrow> others P rec s' s'' \<Longrightarrow> others P rec s s''"
  by (simp add: others_def)

lemma others_refl: "others P rec s s"
  by (simp add: others_def)

lemma others_rest:
  "others P rec s s' \<Longrightarrow> \<forall>x \<in> set (rec # recs). P s x \<Longrightarrow> distinct (map ob_id (rec # recs)) \<Longrightarrow> \<forall>x \<in> set recs. P s' x"
  unfolding others_def by (simp add: image_iff) metis

lemma waiting_other:
  assumes "sqlInv s" "waiting s x" "otherOp s op"
  shows "waiting (ledgerStep sql_enqueue sql_setStatus sql_setFee s op) x"
proof -
  obtain r where r: "sql_get s (ob_id x) = Some r" "sameEvent x r" "underway (ob_status r)"
    using assms(2) by (auto simp: waiting_def)
  show ?thesis
  proof (cases op)
    case (OpSetStatus k st p now)
    then show ?thesis
      using r assms(1,3) sameEvent_trans [OF r(2) sameEvent_applyStatus]
      by (auto simp: waiting_def sq.get_setStatus underway_def)
  next
    case (OpSetFee k f now)
    then show ?thesis
      using r assms(1) sameEvent_trans [OF r(2) sameEvent_applyFee]
      by (auto simp: waiting_def sq.get_setFee)
  qed (use r assms(1) in \<open>auto simp: waiting_def sq.get_enqueue\<close>)
qed

lemma others_setStatus:
  "sqlInv s \<Longrightarrow> others waiting rec s (sql_setStatus (ob_id rec) st p now s)"
  "sqlInv s \<Longrightarrow> others stillHeld rec s (sql_setStatus (ob_id rec) st p now s)"
  by (auto simp: others_def waiting_def stillHeld_def sq.get_setStatus)

lemma others_enqueue:
  "sqlInv s \<Longrightarrow> others waiting rec s (snd (sql_enqueue i now s))"
  "sqlInv s \<Longrightarrow> others stillHeld rec s (snd (sql_enqueue i now s))"
  by (auto simp: others_def waiting_def stillHeld_def sq.get_enqueue)

lemma otherOps_backed:
  "refundsBacked fee s \<Longrightarrow> otherOps s ops \<Longrightarrow>
   refundsBacked fee (runWrites s ops) \<and> (\<forall>x. waiting s x \<longrightarrow> waiting (runWrites s ops) x)"
proof (induction ops arbitrary: s)
  case (Cons op ops)
  have inv: "sqlInv s" using Cons.prems(1) by (simp add: refundsBacked_def)
  have "refundsBacked fee (ledgerStep sql_enqueue sql_setStatus sql_setFee s op)"
    using Cons.prems safe_backed otherOp_safe by simp
  with Cons.IH Cons.prems(2) waiting_other [OF inv] show ?case by simp
qed simp

section \<open>A held row, a delivery, a tick\<close>

lemma heldWrites_backed:
  assumes b: "refundsBacked (to_refundFeeMilliViz opts) s" and h: "stillHeld s rec"
    and why: "heldFor dir why rec" "dir = O_PEG_IN \<or> dir = O_PEG_OUT \<and> why = RETURN_INVALID_DEST"
  shows "refundsBacked (to_refundFeeMilliViz opts) (runWrites s (heldWrites opts now rec)) \<and>
    others stillHeld rec s (runWrites s (heldWrites opts now rec))"
proof -
  let ?fee = "to_refundFeeMilliViz opts"
  have s: "sqlInv s" "backed ?fee (sql_get s)" using b by (simp_all add: refundsBacked_def)
  obtain r where r: "sql_get s (ob_id rec) = Some r" "sameEvent rec r" "ob_status r = HELD"
    using h by (auto simp: stillHeld_def)
  note se = sameEvent_refund [OF r(2)]
  have o: "ordinary (ob_status r)" by (simp add: r(3) ordinary_def)
  have d: "ob_direction r = O_PEG_IN \<or> ob_direction r = O_PEG_OUT" "truthy (ob_sender rec)"
    using why r(2) by (auto simp: heldFor_def sameEvent_def)
  show ?thesis
  proof (cases "planChildren rec REFUNDING (holdCtx opts)")
    case Nil
    then have "owesNothing ?fee r"
      using why r(2) by (auto simp: planChildren_def heldFor_def holdCtx_def Let_def owesNothing_def refundAmount_def
          sameEvent_def split: if_splits)
    from backed_dust [OF s(2) r(1) sameEvent_applyStatus o not_refundRow [OF s(2) r(1) d(1)] _ this]
    show ?thesis using Nil s r(1) others_setStatus(2) [OF s(1), of rec]
      by (simp add: heldWrites_def refundsBacked_def get_maps sq.inv_setStatus)
  next
    case (Cons c cs)
    have cs: "cs = []" by (rule planChildren_refund [OF Cons])
    have c: "paysBack ?fee r (recordOf c now)" "ob_status (recordOf c now) = QUEUED"
      using planChildren_pays [OF Cons, of now] se(3) by (simp_all add: holdCtx_def)
    then have cid: "ei_id c = childKey r" by (simp add: paysBack_def)
    have none: "sql_get s (childKey r) = None" by (rule ordinary_childless [OF s(2) r(1) o])
    define s1 where "s1 = snd (sql_enqueue c now s)"
    have s1: "sqlInv s1" "sql_get s1 = (sql_get s)(childKey r \<mapsto> recordOf c now)"
      using s(1) none by (simp_all add: s1_def sq.inv_enqueue get_maps cid)
    have neq: "childKey r \<noteq> ob_id rec" using childKey_neq(1) [of rec] se(1) by simp
    define s2 where "s2 = sql_setStatus (ob_id rec) REFUNDING noPatch now s1"
    have "sql_get s2 = (sql_get s)(ob_id rec \<mapsto> applyStatus REFUNDING noPatch now r, childKey r \<mapsto> recordOf c now)"
      using s1 neq r(1) by (simp add: s2_def get_maps fun_upd_twist)
    with backed_refund [OF s(2) r(1) sameEvent_applyStatus o c] have "refundsBacked ?fee s2"
      using s1(1) by (simp add: refundsBacked_def s2_def sq.inv_setStatus)
    moreover have "others stillHeld rec s s2"
      using others_trans [OF others_enqueue(2) [OF s(1)] others_setStatus(2)] s1(1) by (simp add: s2_def s1_def)
    moreover have "runWrites s (heldWrites opts now rec) = s2"
      using Cons cs by (simp add: heldWrites_def s1_def s2_def)
    ultimately show ?thesis by simp
  qed
qed

lemma planTransition_status:
  "tr_status (planTransition rec result now opts) = REFUNDING \<Longrightarrow> ob_direction rec = O_PEG_IN"
  "tr_status (planTransition rec result now opts) \<in> {CONFIRMED, REFUNDING, QUEUED}"
  by (auto simp: planTransition_def Let_def split: if_splits)

lemma feeId_not_refund: "\<not> refundId (k @ '':fee'')"
  by (simp add: refundId_def endsWith_def)

lemma planChildren_other:
  "st \<noteq> CONFIRMED \<Longrightarrow> st \<noteq> REFUNDING \<Longrightarrow> planChildren rec st ctx = []"
  "ob_direction rec \<noteq> O_PEG_IN \<Longrightarrow> planChildren rec CONFIRMED ctx = []"
  "c \<in> set (planChildren rec CONFIRMED ctx) \<Longrightarrow> ei_id c = ob_id rec @ '':fee'' \<and> ei_direction c = O_FEE_SWEEP \<and>
     ei_status c = Some QUEUED"
  by (auto simp: planChildren_def childOf_def split: if_splits)

lemma enqueues_backed:
  assumes "refundsBacked fee s" "\<forall>c \<in> set cs. ei_id c = ob_id rec @ '':fee'' \<and> ei_direction c = O_FEE_SWEEP \<and> ei_status c = Some QUEUED"
  shows "refundsBacked fee (runWrites s (map (\<lambda>c. OpEnqueue c now) cs)) \<and>
    others waiting rec s (runWrites s (map (\<lambda>c. OpEnqueue c now) cs))"
  using assms
proof (induction cs arbitrary: s)
  case Nil
  then show ?case by (simp add: others_def)
next
  case (Cons c cs)
  have inv: "sqlInv s" using Cons.prems(1) by (simp add: refundsBacked_def)
  have "safeOp s (OpEnqueue c now)" using Cons.prems(2) by (simp add: feeId_not_refund ordinary_def)
  from safe_backed [OF Cons.prems(1) this] have "refundsBacked fee (snd (sql_enqueue c now s))" by simp
  moreover have "\<forall>c \<in> set cs. ei_id c = ob_id rec @ '':fee'' \<and> ei_direction c = O_FEE_SWEEP \<and> ei_status c = Some QUEUED"
    using Cons.prems(2) by simp
  ultimately have "refundsBacked fee (runWrites (snd (sql_enqueue c now s)) (map (\<lambda>c. OpEnqueue c now) cs)) \<and>
    others waiting rec (snd (sql_enqueue c now s)) (runWrites (snd (sql_enqueue c now s)) (map (\<lambda>c. OpEnqueue c now) cs))"
    by (rule Cons.IH)
  with others_trans [OF others_enqueue(1) [OF inv, of rec c now]]
  have "refundsBacked fee (runWrites (snd (sql_enqueue c now s)) (map (\<lambda>c. OpEnqueue c now) cs)) \<and>
    others waiting rec s (runWrites (snd (sql_enqueue c now s)) (map (\<lambda>c. OpEnqueue c now) cs))" by blast
  then show ?case by simp
qed

text \<open>The delivery of a row, by the status it ends in.\<close>

lemma deliver_queued:
  assumes b: "refundsBacked fee s" and w: "waiting s rec"
  shows "refundsBacked fee (sql_setStatus (ob_id rec) QUEUED p now s)"
    "refundsBacked fee (sql_setStatus (ob_id rec) BROADCAST p now s)"
proof -
  have "safeOp s (OpSetStatus (ob_id rec) st p now)" if "underway st" for st
    using w that underway_ordinary by (auto simp: waiting_def)
  from safe_backed [OF b this] show "refundsBacked fee (sql_setStatus (ob_id rec) QUEUED p now s)"
    "refundsBacked fee (sql_setStatus (ob_id rec) BROADCAST p now s)" by (simp_all add: underway_def)
qed

lemma deliver_confirmed:
  assumes b: "refundsBacked fee s" and w: "waiting s rec" and d: "\<not> (ob_direction rec = O_REFUND \<or> ob_direction rec = O_GRAM_RETURN)"
  shows "refundsBacked fee (sql_setStatus (ob_id rec) CONFIRMED p now s)"
proof -
  have s: "backed fee (sql_get s)" using b by (simp add: refundsBacked_def)
  have "\<not> refundRow r" if r: "sql_get s (ob_id rec) = Some r" "sameEvent rec r" for r
  proof
    assume "refundRow r"
    then obtain x where "paysBack fee x r" by (rule refundRow_parent [OF s r(1)])
    with d r(2) show False by (auto simp: paysBack_def sameEvent_def)
  qed
  then have "safeOp s (OpSetStatus (ob_id rec) CONFIRMED p now)"
    using w by (auto simp: waiting_def underway_def ordinary_def)
  from safe_backed [OF b this] show ?thesis by simp
qed

lemma deliver_refunding:
  fixes p :: StatusPatch and now :: int
  assumes b: "refundsBacked (to_refundFeeMilliViz opts) s" and w: "waiting s rec" and d: "ob_direction rec = O_PEG_IN"
  defines "s1 \<equiv> sql_setStatus (ob_id rec) REFUNDING p now s"
  shows "childrenFor opts rec REFUNDING = [] \<Longrightarrow>
      refundsBacked (to_refundFeeMilliViz opts) (sql_setStatus (ob_id rec) REFUNDED p' now s1)"
    and "childrenFor opts rec REFUNDING = c # cs \<Longrightarrow> refundsBacked (to_refundFeeMilliViz opts) (snd (sql_enqueue c now s1))"
proof -
  let ?fee = "to_refundFeeMilliViz opts"
  have s: "sqlInv s" "backed ?fee (sql_get s)" using b by (simp_all add: refundsBacked_def)
  obtain r where r: "sql_get s (ob_id rec) = Some r" "sameEvent rec r" "underway (ob_status r)"
    using w by (auto simp: waiting_def)
  note se = sameEvent_refund [OF r(2)] and o = underway_ordinary [OF r(3)]
  have dr: "ob_direction r = O_PEG_IN" using d r(2) by (simp add: sameEvent_def)
  have s1: "sqlInv s1" "sql_get s1 = (sql_get s)(ob_id rec \<mapsto> applyStatus REFUNDING p now r)"
    using s r(1) by (simp_all add: s1_def sq.inv_setStatus get_maps)
  show "refundsBacked ?fee (sql_setStatus (ob_id rec) REFUNDED p' now s1)" if n: "childrenFor opts rec REFUNDING = []"
  proof -
    have "owesNothing ?fee rec" using n d by (auto simp: childrenFor_def planChildren_def owesNothing_def refundAmount_def Let_def split: if_splits)
    then have "owesNothing ?fee r" using se(4) by simp
    from backed_dust [OF s(2) r(1) sameEvent_trans [OF sameEvent_applyStatus sameEvent_applyStatus] o _ _ this]
    show ?thesis using not_refundRow [OF s(2) r(1)] dr s1
      by (simp add: refundsBacked_def get_maps sq.inv_setStatus)
  qed
  show "refundsBacked ?fee (snd (sql_enqueue c now s1))" if c: "childrenFor opts rec REFUNDING = c # cs"
  proof -
    have pays: "paysBack ?fee r (recordOf c now)" "ob_status (recordOf c now) = QUEUED"
      using planChildren_pays [OF c [unfolded childrenFor_def], of now] se(3) by simp_all
    then have cid: "ei_id c = childKey r" by (simp add: paysBack_def)
    have "sql_get s (childKey r) = None" by (rule ordinary_childless [OF s(2) r(1) o])
    then have "sql_get s1 (ei_id c) = None" using s1(2) cid childKey_neq(1) [of rec] se(1) by simp
    then have "sql_get (snd (sql_enqueue c now s1)) =
        (sql_get s)(ob_id rec \<mapsto> applyStatus REFUNDING p now r, childKey r \<mapsto> recordOf c now)"
      using s1 cid by (simp add: get_maps)
    with backed_refund [OF s(2) r(1) sameEvent_applyStatus o pays] s1(1) show ?thesis
      by (simp add: refundsBacked_def sq.inv_enqueue)
  qed
qed

lemma deliver_closes:
  fixes p :: StatusPatch and now :: int
  assumes b: "refundsBacked fee s" and w: "waiting s rec" and d: "ob_direction rec = O_REFUND \<or> ob_direction rec = O_GRAM_RETURN"
  defines "s1 \<equiv> sql_setStatus (ob_id rec) CONFIRMED p now s"
  shows "\<exists>q. parentOf rec = Some q \<and> q \<noteq> [] \<and> refundsBacked fee (sql_setStatus q REFUNDED p' now s1) \<and>
    others waiting rec s (sql_setStatus q REFUNDED p' now s1)"
proof -
  have s: "sqlInv s" "backed fee (sql_get s)" using b by (simp_all add: refundsBacked_def)
  obtain c where c: "sql_get s (ob_id rec) = Some c" "sameEvent rec c" "underway (ob_status c)"
    using w by (auto simp: waiting_def)
  have cr: "refundRow c" using d c(2) by (auto simp: refundRow_def sameEvent_def)
  obtain r where r: "sql_get s (ob_id r) = Some r" "childKey r = ob_id rec" "paysBack fee r c"
    "ob_status r = REFUNDING \<and> underway (ob_status c) \<or> ob_status r = REFUNDED \<and> ob_status c = CONFIRMED"
    by (rule refundRow_parent [OF s(2) c(1) cr])
  have st: "ob_status r = REFUNDING" using r(4) c(3) by (auto simp: underway_def)
  have par: "ob_parentId c = Some (ob_id r)" using r(3) by (simp add: paysBack_def)
  then have "ob_parentId rec = Some (ob_id r)" using c(2) by (simp add: sameEvent_def)
  then have q: "parentOf rec = Some (ob_id r)" by (simp add: parentOf_def)
  have neq: "ob_id r \<noteq> ob_id rec" using childKey_neq(1) [of r] r(2) by simp
  let ?s2 = "sql_setStatus (ob_id r) REFUNDED p' now s1"
  have s1: "sqlInv s1" "sql_get s1 = (sql_get s)(ob_id rec \<mapsto> applyStatus CONFIRMED p now c)"
    using s c(1) by (simp_all add: s1_def sq.inv_setStatus get_maps)
  have "sql_get ?s2 = (sql_get s)(ob_id rec \<mapsto> applyStatus CONFIRMED p now c, ob_id r \<mapsto> applyStatus REFUNDED p' now r)"
    using s1 neq r(1) by (simp add: get_maps)
  with backed_close [OF s(2) c(1) sameEvent_applyStatus cr c(3) _ _ par r(1) sameEvent_applyStatus] s1(1)
  have "refundsBacked fee ?s2" by (simp add: refundsBacked_def sq.inv_setStatus)
  moreover have "waiting ?s2 x" if x: "ob_id x \<noteq> ob_id rec" "waiting s x" for x
  proof -
    have "ob_id x \<noteq> ob_id r" using x(2) r(1) st by (auto simp: waiting_def underway_def)
    then show ?thesis using x s1 by (auto simp: waiting_def sq.get_setStatus)
  qed
  ultimately show ?thesis using q backedD(4) [OF s(2) r(1)] by (auto simp: others_def)
qed

lemma deliveryWrites_backed:
  assumes b: "refundsBacked (to_refundFeeMilliViz opts) s" and w: "waiting s rec"
  shows "refundsBacked (to_refundFeeMilliViz opts) (runWrites s (deliveryWrites opts rec result now)) \<and>
    others waiting rec s (runWrites s (deliveryWrites opts rec result now))"
proof -
  define t where "t = planTransition rec result now (RetryOpts.truncate opts)"
  have inv: "sqlInv s" using b by (simp add: refundsBacked_def)
  let ?s1 = "sql_setStatus (ob_id rec) (tr_status t) (tr_patch t) now s"
  have inv1: "sqlInv ?s1" by (rule sq.inv_setStatus [OF inv])
  note o1 = others_setStatus(1) [OF inv, of rec "tr_status t" "tr_patch t" now]
  consider "tr_status t = QUEUED" | "tr_status t = REFUNDING"
    | (refund) "tr_status t = CONFIRMED" "ob_direction rec = O_REFUND \<or> ob_direction rec = O_GRAM_RETURN"
    | (other) "tr_status t = CONFIRMED" "\<not> (ob_direction rec = O_REFUND \<or> ob_direction rec = O_GRAM_RETURN)"
    using planTransition_status(2) [of rec result now "RetryOpts.truncate opts"] by (auto simp: t_def)
  then show ?thesis
  proof cases
    case 1
    then have "runWrites s (deliveryWrites opts rec result now) = ?s1"
      by (simp add: deliveryWrites_def Let_def t_def [symmetric] childrenFor_def planChildren_other(1))
    then show ?thesis using deliver_queued(1) [OF b w] o1 1 by simp
  next
    case 2
    then have d: "ob_direction rec = O_PEG_IN" using planTransition_status(1) by (simp add: t_def)
    show ?thesis
    proof (cases "childrenFor opts rec REFUNDING")
      case Nil
      then have "runWrites s (deliveryWrites opts rec result now) = sql_setStatus (ob_id rec) REFUNDED dustPatch now ?s1"
        using 2 d by (simp add: deliveryWrites_def Let_def t_def [symmetric])
      then show ?thesis
        using deliver_refunding(1) [OF b w d Nil] others_trans [OF o1 others_setStatus(1) [OF inv1]] 2 by simp
    next
      case (Cons c cs)
      have "cs = []" using planChildren_refund(1) Cons by (simp add: childrenFor_def)
      then have "runWrites s (deliveryWrites opts rec result now) = snd (sql_enqueue c now ?s1)"
        using 2 d Cons by (simp add: deliveryWrites_def Let_def t_def [symmetric])
      then show ?thesis
        using deliver_refunding(2) [OF b w d Cons] others_trans [OF o1 others_enqueue(1) [OF inv1]] 2 by simp
    qed
  next
    case refund
    then have "childrenFor opts rec CONFIRMED = []" unfolding childrenFor_def by (intro planChildren_other(2)) auto
    moreover obtain q where q: "parentOf rec = Some q" "q \<noteq> []"
      "refundsBacked (to_refundFeeMilliViz opts) (sql_setStatus q REFUNDED noPatch now ?s1)"
      "others waiting rec s (sql_setStatus q REFUNDED noPatch now ?s1)"
      using deliver_closes [OF b w refund(2)] refund(1) by metis
    ultimately have "runWrites s (deliveryWrites opts rec result now) = sql_setStatus q REFUNDED noPatch now ?s1"
      using refund by (simp add: deliveryWrites_def Let_def t_def [symmetric])
    then show ?thesis using q by simp
  next
    case other
    then have "runWrites s (deliveryWrites opts rec result now) =
        runWrites ?s1 (map (\<lambda>c. OpEnqueue c now) (childrenFor opts rec CONFIRMED))"
      by (simp add: deliveryWrites_def Let_def t_def [symmetric])
    moreover have "\<forall>c \<in> set (childrenFor opts rec CONFIRMED). ei_id c = ob_id rec @ '':fee'' \<and>
        ei_direction c = O_FEE_SWEEP \<and> ei_status c = Some QUEUED"
      unfolding childrenFor_def using planChildren_other(3) by blast
    moreover have "refundsBacked (to_refundFeeMilliViz opts) ?s1"
      using deliver_confirmed [OF b w other(2)] other(1) by simp
    ultimately show ?thesis using enqueues_backed others_trans [OF o1] by metis
  qed
qed

text \<open>
  What the coordinator leaves of the store after a submission: the rows after writes of the other
  services.
\<close>

definition coordinatorQuiet :: "submit \<Rightarrow> bool" where
  "coordinatorQuiet submit \<longleftrightarrow> (\<forall>rec s. sqlInv s \<longrightarrow>
     (\<exists>ops. otherOps s ops \<and> sqlInv (snd (snd (submit rec s))) \<and>
        sql_get (snd (snd (submit rec s))) = sql_get (runWrites s ops)))"

lemma refundsBacked_get:
  "refundsBacked fee s \<Longrightarrow> sqlInv s' \<Longrightarrow> sql_get s' = sql_get s \<Longrightarrow> refundsBacked fee s'"
  by (simp add: refundsBacked_def)

lemma submit_backed:
  assumes "coordinatorQuiet submit" "refundsBacked fee s" "submit rec s = (reply, now', s2)"
  shows "refundsBacked fee s2 \<and> (\<forall>x. waiting s x \<longrightarrow> waiting s2 x)"
proof -
  have "sqlInv s" using assms(2) by (simp add: refundsBacked_def)
  with assms(1,3) obtain ops where ops: "otherOps s ops" "sqlInv s2" "sql_get s2 = sql_get (runWrites s ops)"
    unfolding coordinatorQuiet_def by (metis snd_conv)
  note run = otherOps_backed [OF assms(2) ops(1)]
  have "refundsBacked fee s2" by (rule refundsBacked_get [OF conjunct1 [OF run] ops(2,3)])
  then show ?thesis using conjunct2 [OF run] by (simp add: waiting_def ops(3))
qed

lemma alertWedged_store [simp]: "ds_store (alertWedged rec d) = ds_store d"
  by (simp add: alertWedged_def notify_def)

lemma notify_store [simp]: "ds_store (notify kind rid d) = ds_store d"
  by (simp add: notify_def)

lemma alertLoop_store [simp]: "ds_store (alertLoop recs d) = ds_store d"
  unfolding alertLoop_def by (induction recs arbitrary: d) auto

lemma deliverOne_backed:
  assumes "coordinatorQuiet submit" "refundsBacked (to_refundFeeMilliViz opts) (ds_store d)" "waiting (ds_store d) rec"
  shows "refundsBacked (to_refundFeeMilliViz opts) (ds_store (deliverOne opts now submit rec d)) \<and>
    others waiting rec (ds_store d) (ds_store (deliverOne opts now submit rec d))"
proof -
  let ?fee = "to_refundFeeMilliViz opts"
  define s1 where "s1 = sql_setStatus (ob_id rec) BROADCAST noPatch now (ds_store d)"
  obtain reply now' s2 where sub: "submit rec s1 = (reply, now', s2)" by (metis prod_cases3)
  let ?s3 = "runWrites s2 (deliveryWrites opts rec (deliveryOf reply) now')"
  have inv: "sqlInv (ds_store d)" using assms(2) by (simp add: refundsBacked_def)
  have b1: "refundsBacked ?fee s1" unfolding s1_def by (rule deliver_queued(2) [OF assms(2,3)])
  have w1: "waiting s1 rec"
    using assms(3) inv sameEvent_trans [OF _ sameEvent_applyStatus]
    by (auto simp: waiting_def s1_def sq.get_setStatus underway_def)
  have s2: "refundsBacked ?fee s2" "\<forall>x. waiting s1 x \<longrightarrow> waiting s2 x"
    using submit_backed [OF assms(1) b1 sub] by blast+
  have s3: "refundsBacked ?fee ?s3" "others waiting rec s2 ?s3"
    using deliveryWrites_backed [OF s2(1)] s2(2) w1 by blast+
  have "others waiting rec (ds_store d) s2"
    using others_setStatus(1) [OF inv, of rec BROADCAST noPatch now] s2(2) by (simp add: others_def s1_def)
  from others_trans [OF this s3(2)] s3(1)
  have "refundsBacked ?fee ?s3 \<and> others waiting rec (ds_store d) ?s3" by blast
  moreover have "ds_store (deliverOne opts now submit rec d) = ?s3"
    using sub by (simp add: deliverOne_def Let_def s1_def)
  ultimately show ?thesis by simp
qed

lemma deliverLoop_backed:
  "coordinatorQuiet submit \<Longrightarrow> refundsBacked (to_refundFeeMilliViz opts) (ds_store d) \<Longrightarrow>
   \<forall>rec \<in> set recs. waiting (ds_store d) rec \<Longrightarrow> distinct (map ob_id recs) \<Longrightarrow>
   refundsBacked (to_refundFeeMilliViz opts) (ds_store (deliverLoop opts now submit recs d))"
proof (induction recs arbitrary: d)
  case (Cons rec recs)
  have "waiting (ds_store d) rec" using Cons.prems(3) by simp
  note one = deliverOne_backed [OF Cons.prems(1,2) this, of now]
  have "\<forall>x \<in> set recs. waiting (ds_store (deliverOne opts now submit rec d)) x"
    by (rule others_rest [OF conjunct2 [OF one] Cons.prems(3,4)])
  with Cons one show ?case by simp
qed simp

lemma heldLoop_backed:
  assumes "dir = O_PEG_IN \<or> dir = O_PEG_OUT \<and> why = RETURN_INVALID_DEST"
  shows "refundsBacked (to_refundFeeMilliViz opts) (ds_store d) \<Longrightarrow> \<forall>rec \<in> set recs. stillHeld (ds_store d) rec \<Longrightarrow>
   distinct (map ob_id recs) \<Longrightarrow>
   refundsBacked (to_refundFeeMilliViz opts) (ds_store (heldLoop opts now dir why kind recs d))"
proof (induction recs arbitrary: d)
  case (Cons rec recs)
  show ?case
  proof (cases "heldFor dir why rec")
    case False
    with Cons show ?thesis by simp
  next
    case True
    let ?s = "runWrites (ds_store d) (heldWrites opts now rec)"
    have "stillHeld (ds_store d) rec" using Cons.prems(2) by simp
    note one = heldWrites_backed [OF Cons.prems(1) this True assms, of now]
    have "\<forall>x \<in> set recs. stillHeld ?s x"
      by (rule others_rest [OF conjunct2 [OF one] Cons.prems(2,3)])
    with Cons one True show ?thesis by simp
  qed
qed simp

lemma recoverOrphans_backed:
  "refundsBacked fee s \<Longrightarrow> \<forall>rec \<in> set recs. waiting s rec \<Longrightarrow> distinct (map ob_id recs) \<Longrightarrow>
   refundsBacked fee (recoverOrphans opts now recs s)"
proof (induction recs arbitrary: s)
  case (Cons rec recs)
  let ?p = "noPatch\<lparr>pt_attempts := Some (ob_attempts rec + 1), pt_nextAttemptAt := Some now\<rparr>"
  let ?s = "if now - ob_updatedAt rec < deliveryTimeout opts rec then s else sql_setStatus (ob_id rec) QUEUED ?p now s"
  have inv: "sqlInv s" using Cons.prems(1) by (simp add: refundsBacked_def)
  have "waiting s rec" using Cons.prems(2) by simp
  from deliver_queued(1) [OF Cons.prems(1) this] Cons.prems(1) have "refundsBacked fee ?s" by simp
  moreover have "others waiting rec s ?s" by (simp add: others_setStatus(1) [OF inv] others_refl)
  from others_rest [OF this Cons.prems(2,3)] have "\<forall>x \<in> set recs. waiting ?s x" .
  moreover have "distinct (map ob_id recs)" using Cons.prems(3) by simp
  ultimately have "refundsBacked fee (recoverOrphans opts now recs ?s)" by (rule Cons.IH)
  then show ?case by (simp only: recoverOrphans.simps)
qed simp

lemma query_rows:
  assumes "sqlInv s"
  shows "\<forall>r \<in> set (sql_due s now [QUEUED]). waiting s r" "distinct (map ob_id (sql_due s now [QUEUED]))"
    "\<forall>r \<in> set (sql_due s now [HELD]). stillHeld s r" "distinct (map ob_id (sql_due s now [HELD]))"
    "\<forall>r \<in> set (sql_stale s now age [BROADCAST]). waiting s r"
proof -
  have d: "distinct (map ob_id (sort_key f (filter P (tb_outbox s))))"
    "distinct (map ob_id (sort_key f (visit s q (filter P (tb_outbox s)))))" for f P q
    using assms by (auto simp: sqlInv_def distinct_map intro: inj_on_subset)
  show "distinct (map ob_id (sql_due s now [QUEUED]))" "distinct (map ob_id (sql_due s now [HELD]))"
    by (simp_all add: sql_due_def d)
qed (use sql_get_row [OF assms] in \<open>auto simp: sql_due_def sql_stale_def waiting_def stillHeld_def underway_def\<close>)

lemma tick_backed:
  assumes "coordinatorQuiet submit" "refundsBacked (to_refundFeeMilliViz opts) (ds_store d)"
  shows "refundsBacked (to_refundFeeMilliViz opts) (ds_store (tick opts submit now d))"
proof -
  let ?B = "\<lambda>d. refundsBacked (to_refundFeeMilliViz opts) (ds_store d)"
  define d2 where "d2 = alertLoop (sql_stale (orphanPhase opts now (ds_store d)) now (to_staleDeliveryAlertMs opts) [REFUNDING])
    (d\<lparr>ds_store := orphanPhase opts now (ds_store d)\<rparr>)"
  define d3 where "d3 = heldPhase opts now O_PEG_IN INVALID_DESTINATION ''refund'' d2"
  define d4 where "d4 = heldPhase opts now O_PEG_OUT RETURN_INVALID_DEST ''return'' d3"
  have inv: "sqlInv (ds_store d)" using assms(2) by (simp add: refundsBacked_def)
  have 2: "?B d2"
    using recoverOrphans_backed [OF assms(2) query_rows(5) [OF inv] sql_stale_distinct [OF inv]]
    by (simp add: d2_def orphanPhase_def)
  have 3: "?B d3"
    using heldLoop_backed [OF _ 2 query_rows(3,4)] 2 by (simp add: d3_def heldPhase_def refundsBacked_def)
  have 4: "?B d4"
    using heldLoop_backed [OF _ 3 query_rows(3,4)] 3 by (simp add: d4_def heldPhase_def refundsBacked_def)
  have "?B (deliverLoop opts now submit (sql_due (ds_store d4) now [QUEUED]) d4)"
    using deliverLoop_backed [OF assms(1) 4 query_rows(1,2)] 4 by (simp add: refundsBacked_def)
  then show ?thesis by (simp add: tick_def Let_def d2_def [symmetric] d3_def [symmetric] d4_def [symmetric])
qed

section \<open>The dispatcher among the other services\<close>

text \<open>
  The states a gateway reaches from an empty outbox: the dispatcher's rounds, each run to its end,
  between the writes of the other services and changes of the rest of the store (pauses, cursors,
  windows).
\<close>

inductive dispatcherReach :: "TickOpts \<Rightarrow> submit \<Rightarrow> DispState \<Rightarrow> bool" for opts submit where
  start: "tb_outbox (ds_store d) = [] \<Longrightarrow> dispatcherReach opts submit d"
| round: "dispatcherReach opts submit d \<Longrightarrow> dispatcherReach opts submit (dispatcherRound opts submit now d)"
| service: "dispatcherReach opts submit d \<Longrightarrow> otherOp (ds_store d) op \<Longrightarrow>
    dispatcherReach opts submit (d\<lparr>ds_store := ledgerStep sql_enqueue sql_setStatus sql_setFee (ds_store d) op\<rparr>)"
| rest: "dispatcherReach opts submit d \<Longrightarrow> tb_outbox s = tb_outbox (ds_store d) \<Longrightarrow>
    dispatcherReach opts submit (d\<lparr>ds_store := s\<rparr>)"

lemma reach_backed:
  assumes "dispatcherReach opts submit d" "coordinatorQuiet submit"
  shows "refundsBacked (to_refundFeeMilliViz opts) (ds_store d)"
  using assms(1)
proof induction
  case (start d)
  then show ?case by (simp add: refundsBacked_def sqlInv_def backed_def sql_get_def)
next
  case (round d now)
  then show ?case using tick_backed [OF assms(2)] by (simp add: dispatcherRound_def)
next
  case (service d op)
  from safe_backed [OF service.IH otherOp_safe [OF service.IH service.hyps(2)]] show ?case by simp
next
  case (rest d s)
  then show ?case using sqlInv_outbox [OF rest.hyps(2)] sql_get_outbox [OF rest.hyps(2)] by (simp add: refundsBacked_def)
qed


section \<open>Single rows\<close>

lemma refundAmount_pos: "refundAmount g f \<noteq> 0 \<longleftrightarrow> f < g"
  by (simp add: refundAmount_def Let_def)

lemma refundAmount_exact: "f < g \<Longrightarrow> refundAmount g f = g - f"
  by (simp add: refundAmount_def Let_def)

lemma heldFor_iff:
  "heldFor dir why rec \<longleftrightarrow> ob_direction rec = dir \<and> ob_lastError rec = Some why \<and> truthy (ob_sender rec)"
  by (auto simp: heldFor_def)

text \<open>The transition of a failed delivery after the window.\<close>

definition exhausted :: "TickOpts \<Rightarrow> OutboxRecord \<Rightarrow> DeliveryResult \<Rightarrow> int \<Rightarrow> bool" where
  "exhausted opts rec result now \<longleftrightarrow> \<not> dr_broadcast result \<and> ob_direction rec = O_PEG_IN \<and>
     ro_windowMs opts \<le> now - ob_createdAt rec"

lemma exhausted_status:
  "exhausted opts rec result now \<Longrightarrow>
   tr_status (planTransition rec result now (RetryOpts.truncate opts)) = REFUNDING"
  by (simp add: exhausted_def planTransition_def RetryOpts.truncate_def Let_def)

lemma exhausted_children:
  assumes "exhausted opts rec result now"
  shows "childrenFor opts rec REFUNDING =
    (if truthy (ob_sender rec) \<and> to_refundFeeMilliViz opts < ob_amountMilliViz rec
     then [childOf rec '':refund'' O_REFUND (the (ob_sender rec))
             (ob_amountMilliViz rec - to_refundFeeMilliViz opts)]
     else [])"
  using assms by (auto simp: exhausted_def childrenFor_def planChildren_def Let_def refundAmount_def)

lemma deliveryWrites_exhausted:
  assumes "exhausted opts rec result now"
  shows "\<exists>p. deliveryWrites opts rec result now =
    OpSetStatus (ob_id rec) REFUNDING p now #
    (if truthy (ob_sender rec) \<and> to_refundFeeMilliViz opts < ob_amountMilliViz rec
     then [OpEnqueue (childOf rec '':refund'' O_REFUND (the (ob_sender rec))
             (ob_amountMilliViz rec - to_refundFeeMilliViz opts)) now]
     else [OpSetStatus (ob_id rec) REFUNDED dustPatch now])"
  using assms exhausted_status [OF assms] exhausted_children [OF assms]
  by (auto simp: deliveryWrites_def Let_def exhausted_def)

lemma child_id_neq: "ob_id rec @ '':refund'' \<noteq> ob_id rec" "ob_id rec @ '':return'' \<noteq> ob_id rec"
  by simp_all

section \<open>Properties\<close>

definition row_example :: OutboxRecord where
  "row_example = (recordOf enqueue_example 1000)\<lparr>ob_status := QUEUED\<rparr>"

definition opts_example :: TickOpts where
  "opts_example = \<lparr>ro_retryIntervalMs = 10000, ro_windowMs = 180000, to_pegInTimeoutMs = 60000,
     to_pegOutTimeoutMs = 30000, to_staleDeliveryAlertMs = 3600000, to_feesGateAccount = ''fees.gate'',
     to_fees = \<lparr>fc_floorMilliViz = 10000, fc_gramFloorMilliViz = None, fc_bps = 20,
       fc_activationSurchargeMilliViz = (\<lambda>_. 0), fc_mintGasFloorMilliViz = (\<lambda>_. 1000),
       fc_refundFeeMilliViz = 100\<rparr>, to_refundFeeMilliViz = 100\<rparr>"

definition failed_example :: DeliveryResult where
  "failed_example = deliveryOf (FetchThrew ''timeout'')"

definition store_example :: SqliteStore where
  "store_example = emptySqlite\<lparr>tb_outbox := [row_example]\<rparr>"

lemma store_example_simps:
  "sqlInv store_example" "sql_get store_example ''ab01:3'' = Some row_example"
  "ob_id row_example = ''ab01:3''" "sql_get store_example ''ab01:3:refund'' = None"
  "sql_get store_example ''ab01:3:return'' = None"
  by (simp_all add: store_example_def sqlInv_def sql_get_def row_example_def enqueue_example_def recordOf_def)

lemma row_example_simps:
  "ob_direction row_example = O_PEG_IN" "ob_sender row_example = Some ''alice''"
  "ob_amountMilliViz row_example = 25000" "ob_createdAt row_example = 1000" "ob_status row_example = QUEUED"
  by (simp_all add: row_example_def enqueue_example_def recordOf_def)

lemma opts_example_simps:
  "to_refundFeeMilliViz opts_example = 100" "ro_windowMs opts_example = 180000"
  "to_pegInTimeoutMs opts_example = 60000"
  by (simp_all add: opts_example_def)

lemma exhausted_example: "exhausted opts_example row_example failed_example 200000"
  by (simp add: exhausted_def failed_example_def deliveryOf_def row_example_simps opts_example_simps Let_def)


text \<open>A coordinator that cannot mint, pins what it tried, and delivers refunds.\<close>

definition submit_example :: submit where
  "submit_example rec s =
     (if ob_direction rec = O_REFUND
      then (Reply 200 \<lparr>sb_broadcast = Some True, sb_txid = Some ''tx'', sb_error = None, sb_feeMilliViz = None\<rparr>, 210001, s)
      else (FetchThrew ''timeout'', 200000, sql_setFee (ob_id rec) 7 9 s))"

lemma submit_example_quiet: "coordinatorQuiet submit_example"
  unfolding coordinatorQuiet_def
proof (intro allI impI)
  fix rec s assume inv: "sqlInv s"
  show "\<exists>ops. otherOps s ops \<and> sqlInv (snd (snd (submit_example rec s))) \<and>
      sql_get (snd (snd (submit_example rec s))) = sql_get (runWrites s ops)"
    using inv by (intro exI [of _ "if ob_direction rec = O_REFUND then [] else [OpSetFee (ob_id rec) 7 9]"])
      (simp add: submit_example_def sq.inv_setFee)
qed

definition refunding_example :: "int \<Rightarrow> DispState" where
  "refunding_example now = dispatcherRound opts_example submit_example now
     \<lparr>ds_store = snd (sql_enqueue (enqueue_example\<lparr>ei_status := Some QUEUED\<rparr>) 1000 emptySqlite), ds_alertedWedged = [], ds_notices = []\<rparr>"

lemma refunding_example_reached:
  "dispatcherReach opts_example submit_example (refunding_example now)"
proof -
  let ?d = "\<lparr>ds_store = emptySqlite, ds_alertedWedged = [], ds_notices = []\<rparr>"
  have "dispatcherReach opts_example submit_example ?d" by (rule start) (simp add: emptySqlite_def)
  from service [OF this, of "OpEnqueue (enqueue_example\<lparr>ei_status := Some QUEUED\<rparr>) 1000"]
  have "dispatcherReach opts_example submit_example
      (?d\<lparr>ds_store := snd (sql_enqueue (enqueue_example\<lparr>ei_status := Some QUEUED\<rparr>) 1000 emptySqlite)\<rparr>)"
    by (simp add: enqueue_example_def refundId_def endsWith_def)
  from round [OF this, of now] show ?thesis by (simp add: refunding_example_def)
qed

lemma refunding_example_rows:
  "map_option (\<lambda>r. (ob_status r, ob_direction r, ob_sender r, ob_amountMilliViz r))
     (sql_get (ds_store (refunding_example 200000)) ''ab01:3'') = Some (REFUNDING, O_PEG_IN, Some ''alice'', 25000)"
  "map_option ob_status (sql_get (ds_store (dispatcherRound opts_example submit_example 210000 (refunding_example 200000)))
     ''ab01:3'') = Some REFUNDED"
  by code_simp+


text \<open>
  A peg-in whose delivery window ran out is refunded exactly: after the delivery's writes the
  row is refunding and a queued child owes its sender the gross less the refund fee.
\<close>

lemma exhausted_peg_in_refunded:
  assumes "exhausted opts rec result now" "sqlInv s" "sql_get s (ob_id rec) = Some rec"
    "ob_sender rec = Some sender" "sender \<noteq> []" "to_refundFeeMilliViz opts < ob_amountMilliViz rec"
    "sql_get s (ob_id rec @ '':refund'') = None"
  shows "\<exists>r c. sql_get (runWrites s (deliveryWrites opts rec result now)) (ob_id rec) = Some r \<and>
      ob_status r = REFUNDING \<and>
      sql_get (runWrites s (deliveryWrites opts rec result now)) (ob_id rec @ '':refund'') = Some c \<and>
      ob_status c = QUEUED \<and> ob_direction c = O_REFUND \<and> ob_recipient c = sender \<and>
      ob_amountMilliViz c = ob_amountMilliViz rec - to_refundFeeMilliViz opts \<and>
      ob_parentId c = Some (ob_id rec)"
proof -
  obtain p where w: "deliveryWrites opts rec result now =
      [OpSetStatus (ob_id rec) REFUNDING p now,
       OpEnqueue (childOf rec '':refund'' O_REFUND sender
         (ob_amountMilliViz rec - to_refundFeeMilliViz opts)) now]"
    using deliveryWrites_exhausted [OF assms(1)] assms(4-6) by auto
  show ?thesis
    using assms(2,3,7) by (simp add: w sq.get_enqueue sq.get_setStatus sq.inv_setStatus childOf_def)
qed

text \<open>
  The same writes are not safe against a crash: if the process stops after the first of them,
  the row is refunding, its refund child does not exist, and none of the queries a tick works from
  (orphaned, held, queued) ever selects the row again; only the staff alert sees it.
\<close>

lemma crash_strands_refund:
  assumes "exhausted opts rec result now" "sqlInv s" "sql_get s (ob_id rec) = Some rec"
    "\<not> refundChild s (ob_id rec)"
  shows "let s' = runWrites s (take 1 (deliveryWrites opts rec result now))
    in (\<exists>r. sql_get s' (ob_id rec) = Some r \<and> ob_status r = REFUNDING) \<and> \<not> refundChild s' (ob_id rec) \<and>
       (\<forall>now' age. ob_id rec \<notin> ob_id ` set (sql_due s' now' [QUEUED]) \<and>
          ob_id rec \<notin> ob_id ` set (sql_due s' now' [HELD]) \<and>
          ob_id rec \<notin> ob_id ` set (sql_stale s' now' age [BROADCAST]))"
proof -
  obtain p ws where "deliveryWrites opts rec result now = OpSetStatus (ob_id rec) REFUNDING p now # ws"
    using deliveryWrites_exhausted [OF assms(1)] by blast
  then have s': "runWrites s (take 1 (deliveryWrites opts rec result now)) =
      sql_setStatus (ob_id rec) REFUNDING p now s" (is "_ = ?s'") by simp
  note inv = sq.inv_setStatus [OF assms(2), of "ob_id rec" REFUNDING p now]
  have get: "sql_get ?s' (ob_id rec) = Some (applyStatus REFUNDING p now rec)"
    using assms(2,3) by (simp add: sq.get_setStatus)
  have "\<not> refundChild ?s' (ob_id rec)"
    using assms(2,4) by (simp add: refundChild_def sq.get_setStatus)
  moreover have "ob_status x = REFUNDING" if "x \<in> set (tb_outbox ?s')" "ob_id x = ob_id rec" for x
    using sql_get_row [OF inv that(1)] get that(2) by auto
  ultimately show ?thesis
    unfolding Let_def s' using get by (force simp: sql_due_def sql_stale_def)
qed

text \<open>
  Routing a held row to its refund is safe against a crash at any point: whatever prefix of the
  writes happened, the row is still held (and the next tick picks it up again), or it is refunding
  with its child in the outbox, or it was closed as dust, worth no more than the refund fee.
\<close>

lemma held_refund_crash_safe:
  assumes "heldFor dir why rec" "dir = O_PEG_IN \<or> (dir = O_PEG_OUT \<and> why = RETURN_INVALID_DEST)"
    "sqlInv s" "sql_get s (ob_id rec) = Some rec" "ob_status rec = HELD"
  shows "\<exists>r. sql_get (runWrites s (take n (heldWrites opts now rec))) (ob_id rec) = Some r \<and>
    (ob_status r = HELD \<or>
     ob_status r = REFUNDING \<and> refundChild (runWrites s (take n (heldWrites opts now rec))) (ob_id rec) \<or>
     ob_status r = REFUNDED \<and> ob_amountMilliViz rec \<le> to_refundFeeMilliViz opts)"
proof (cases "planChildren rec REFUNDING (holdCtx opts)")
  case Nil
  then have "ob_amountMilliViz rec \<le> to_refundFeeMilliViz opts"
    using assms(1,2) refundAmount_pos [of "ob_amountMilliViz rec" "to_refundFeeMilliViz opts"]
    by (auto simp: planChildren_def heldFor_iff holdCtx_def Let_def split: if_splits)
  then show ?thesis
    using assms(3-5) Nil by (cases n) (simp_all add: heldWrites_def sq.get_setStatus)
next
  case (Cons c cs)
  note child = planChildren_refund [OF Cons]
  have c: "ei_id c \<noteq> ob_id rec" using child(2) by auto
  have w: "heldWrites opts now rec = [OpEnqueue c now, OpSetStatus (ob_id rec) REFUNDING noPatch now]"
    using Cons child(1) by (simp add: heldWrites_def)
  have backed: "refundChild (sql_setStatus (ob_id rec) REFUNDING noPatch now (snd (sql_enqueue c now s))) (ob_id rec)"
    using refundChild_step [of "snd (sql_enqueue c now s)" "ob_id rec" "OpSetStatus (ob_id rec) REFUNDING noPatch now"]
      enqueue_refundChild [OF assms(3) child(2)] sq.inv_enqueue [OF assms(3)] by simp
  consider "n = 0" | "n = 1" | "n \<ge> 2" by linarith
  then show ?thesis
    using assms(3-5) c backed
    by cases (auto simp: w take_Cons' sq.get_enqueue sq.get_setStatus sq.inv_enqueue)
qed

definition held_example :: OutboxRecord where
  "held_example = row_example\<lparr>ob_status := HELD, ob_lastError := Some INVALID_DESTINATION\<rparr>"

text \<open>
  An orphaned delivery is never stranded: a row in \<open>BROADCAST\<close> for longer than its direction's
  timeout is queued again with one more attempt (which is what makes the coordinator look for a
  mint that already landed), and no other row changes.
\<close>

lemma orphans_requeued:
  assumes "sqlInv s" "sql_get s k = Some r"
  shows "(ob_status r = BROADCAST \<and> deliveryTimeout opts r < now - ob_updatedAt r \<longrightarrow>
      (\<exists>r'. sql_get (orphanPhase opts now s) k = Some r' \<and> ob_status r' = QUEUED \<and>
         ob_attempts r' = ob_attempts r + 1 \<and> ob_nextAttemptAt r' = now \<and> sameEvent r r')) \<and>
    (ob_status r \<noteq> BROADCAST \<or> now - ob_updatedAt r < deliveryTimeout opts r \<longrightarrow>
      sql_get (orphanPhase opts now s) k = Some r)"
  using orphanPhase_recovers [OF assms] orphanPhase_frame [OF assms]
  by (auto simp: requeued_def)

definition orphan_example :: OutboxRecord where
  "orphan_example = row_example\<lparr>ob_status := BROADCAST\<rparr>"

text \<open>
  A peg-in without a recorded sender is closed as dust when its window runs out, whatever its
  amount: the close-out tests only that there is no child, and there is none without a sender.
\<close>

lemma senderless_peg_in_closed_as_dust:
  assumes "exhausted opts rec result now" "sqlInv s" "sql_get s (ob_id rec) = Some rec"
    "\<not> truthy (ob_sender rec)"
  shows "\<exists>r. sql_get (runWrites s (deliveryWrites opts rec result now)) (ob_id rec) = Some r \<and>
    ob_status r = REFUNDED \<and> ob_lastError r = Some ''dust retained (<= refund fee)'' \<and>
    sql_get (runWrites s (deliveryWrites opts rec result now)) (ob_id rec @ '':refund'') =
      sql_get s (ob_id rec @ '':refund'')"
proof -
  obtain p where w: "deliveryWrites opts rec result now =
      [OpSetStatus (ob_id rec) REFUNDING p now, OpSetStatus (ob_id rec) REFUNDED dustPatch now]"
    using deliveryWrites_exhausted [OF assms(1)] assms(4) by auto
  show ?thesis
    using assms(2,3) by (simp add: w sq.get_setStatus sq.inv_setStatus dustPatch_def)
qed

definition senderless_example :: OutboxRecord where
  "senderless_example = row_example\<lparr>ob_sender := None\<rparr>"

end
