(* ===== verification/SourceHints.thy ===== *)
theory SourceHints
  imports Dispatcher SourceValidator
begin

text \<open>
  The operator's resolution directives: \<open>packages/coordinator/src/sourceHints.ts\<close>. The file is what
  \<open>JSON.parse(readFileSync(..))\<close> gives; the store is the SQL store. Log lines and staff notifications
  are not modelled.
\<close>

section \<open>The directive file\<close>

record SourceHintDirective =
  shd_sourceBlockNum :: "nat option"
  shd_resolution :: "string option"

type_synonym SourceHintsFile = "(string \<times> SourceHintDirective) list"

datatype hint_value = HvInteger int | HvFraction | HvString string | HvOther

datatype hints_file = Unreadable | NotAnObject | HintEntries "(string \<times> (string \<rightharpoonup> hint_value) option) list"

text \<open>\<open>None\<close> for an entry that is skipped.\<close>

definition blockNumOf :: "(string \<rightharpoonup> hint_value) \<Rightarrow> nat option option" where
  "blockNumOf d = (case d ''sourceBlockNum'' of
       None \<Rightarrow> Some None
     | Some (HvInteger n) \<Rightarrow> if n \<le> 0 then None else Some (Some (nat n))
     | Some _ \<Rightarrow> None)"

definition resolutionOf :: "(string \<rightharpoonup> hint_value) \<Rightarrow> string option option" where
  "resolutionOf d = (case d ''resolution'' of
       None \<Rightarrow> Some None
     | Some (HvString r) \<Rightarrow> if r \<noteq> ''mint'' \<and> r \<noteq> ''refund'' then None else Some (Some r)
     | Some _ \<Rightarrow> None)"

definition directiveOf :: "(string \<rightharpoonup> hint_value) option \<Rightarrow> SourceHintDirective option" where
  "directiveOf raw =
     (case raw of
        None \<Rightarrow> None
      | Some d \<Rightarrow>
          (case blockNumOf d of
             None \<Rightarrow> None
           | Some b \<Rightarrow> (case resolutionOf d of
               None \<Rightarrow> None
             | Some r \<Rightarrow> Some \<lparr>shd_sourceBlockNum = b, shd_resolution = r\<rparr>)))"

fun loadEntries :: "(string \<times> (string \<rightharpoonup> hint_value) option) list \<Rightarrow> SourceHintsFile \<Rightarrow> SourceHintsFile" where
  "loadEntries [] out = out"
| "loadEntries ((k, raw) # es) out =
     (case directiveOf raw of
        None \<Rightarrow> loadEntries es out
      | Some dir \<Rightarrow> loadEntries es (AList.update (toLowerCase k) dir out))"

fun loadSourceHints :: "hints_file \<Rightarrow> SourceHintsFile" where
  "loadSourceHints Unreadable = []"
| "loadSourceHints NotAnObject = []"
| "loadSourceHints (HintEntries es) = loadEntries es []"

section \<open>The hint of an action\<close>

definition parentPegInIdOf :: "CanonicalAction \<Rightarrow> string option" where
  "parentPegInIdOf action =
     (if act_direction action = PEG_IN then Some (act_id action)
      else if endsWith (act_id action) REFUND_SUFFIX then Some (sliceEnd (act_id action) (length REFUND_SUFFIX))
      else if endsWith (act_id action) FEE_SWEEP_SUFFIX then Some (sliceEnd (act_id action) (length FEE_SWEEP_SUFFIX))
      else None)"

definition resolveSourceHint :: "CanonicalAction \<Rightarrow> SqliteStore \<Rightarrow> SourceHintsFile \<Rightarrow> SourceHint option" where
  "resolveSourceHint action s hints =
     (case parentPegInIdOf action of
        None \<Rightarrow> None
      | Some parentId \<Rightarrow>
          if parentId = [] then None
          else (case (case sql_get s parentId of None \<Rightarrow> None | Some rec \<Rightarrow> ob_blockNum rec) of
              Some b \<Rightarrow> Some \<lparr>hint_sourceBlockNum = Some b\<rparr>
            | None \<Rightarrow>
                (case (case map_of hints parentId of None \<Rightarrow> None | Some d \<Rightarrow> shd_sourceBlockNum d) of
                   Some b \<Rightarrow> Some \<lparr>hint_sourceBlockNum = Some b\<rparr>
                 | None \<Rightarrow> None)))"

section \<open>The mint redirect\<close>

definition APPLIED_PREFIX :: string where
  "APPLIED_PREFIX = ''source-hint-applied:''"

definition marker :: "string \<Rightarrow> string" where
  "marker parentId = APPLIED_PREFIX @ parentId"

definition abandonedBy :: "string \<Rightarrow> string" where
  "abandonedBy parentId = ''abandoned by source-hint mint redirect for '' @ parentId"

text \<open>The writes of one redirect, in their order: a crash leaves a prefix of them.\<close>

datatype redirect_write = Abandon string string | Redrive string | Mark string

fun applyWrite :: "int \<Rightarrow> SqliteStore \<Rightarrow> redirect_write \<Rightarrow> SqliteStore" where
  "applyWrite now s (Abandon childId parentId) =
     sql_setStatus childId FAILED (noPatch\<lparr>pt_lastError := Some (Some (abandonedBy parentId))\<rparr>) now s"
| "applyWrite now s (Redrive parentId) =
     sql_setStatus parentId QUEUED
       (noPatch\<lparr>pt_lastError := Some (Some ''re-driven to mint by source-hint directive''), pt_nextAttemptAt := Some now\<rparr>) now s"
| "applyWrite now s (Mark parentId) = sql_setState (marker parentId) (decInt now) now s"

definition redirectWrites :: "string \<Rightarrow> OutboxRecord option \<Rightarrow> redirect_write list" where
  "redirectWrites parentId child =
     (case child of None \<Rightarrow> [] | Some c \<Rightarrow> [Abandon (ob_id c) parentId]) @ [Redrive parentId, Mark parentId]"

definition runStoreWrites :: "int \<Rightarrow> redirect_write list \<Rightarrow> SqliteStore \<Rightarrow> SqliteStore" where
  "runStoreWrites now ws s = foldl (applyWrite now) s ws"

definition refundGone :: "OutboxRecord option \<Rightarrow> bool" where
  "refundGone child \<longleftrightarrow> (case child of None \<Rightarrow> False | Some c \<Rightarrow> ob_status c = CONFIRMED \<or> ob_txid c \<noteq> None)"

definition directiveWrites :: "string \<Rightarrow> SqliteStore \<Rightarrow> redirect_write list" where
  "directiveWrites parentId s =
     (if truthy (sql_getState s (marker parentId)) then []
      else (case sql_get s parentId of
          None \<Rightarrow> []
        | Some parent \<Rightarrow>
            if ob_direction parent \<noteq> O_PEG_IN then [Mark parentId]
            else if ob_status parent = CONFIRMED then [Mark parentId]
            else if ob_status parent \<notin> {REFUNDING, REFUNDED, HELD} then []
            else let child = sql_get s (parentId @ REFUND_SUFFIX)
                 in if refundGone child then [Mark parentId] else redirectWrites parentId child))"

fun applyDirectives :: "int \<Rightarrow> string list \<Rightarrow> SqliteStore \<Rightarrow> SqliteStore" where
  "applyDirectives now [] s = s"
| "applyDirectives now (p # ps) s = applyDirectives now ps (runStoreWrites now (directiveWrites p s) s)"

definition mintDirectives :: "SourceHintsFile \<Rightarrow> string list" where
  "mintDirectives hints = map fst (filter (\<lambda>e. shd_resolution (snd e) = Some ''mint'') hints)"

definition applySourceHintResolutions :: "SourceHintsFile \<Rightarrow> int \<Rightarrow> SqliteStore \<Rightarrow> SqliteStore" where
  "applySourceHintResolutions hints now s =
     (if mintDirectives hints = [] then s
      else if \<not> sql_isPaused s then s
      else applyDirectives now (mintDirectives hints) s)"

section \<open>Every state a boot can leave\<close>

fun bootStates :: "int \<Rightarrow> string list \<Rightarrow> SqliteStore \<Rightarrow> SqliteStore list" where
  "bootStates now [] s = [s]"
| "bootStates now (p # ps) s =
     map (\<lambda>n. runStoreWrites now (take n (directiveWrites p s)) s) [0 ..< Suc (length (directiveWrites p s))] @
     bootStates now ps (runStoreWrites now (directiveWrites p s) s)"

lemma bootStates_last: "applyDirectives now ps s \<in> set (bootStates now ps s)"
  by (induction now ps s rule: applyDirectives.induct) simp_all

definition inRefund :: "OutboxRecord \<Rightarrow> bool" where
  "inRefund r \<longleftrightarrow> ob_status r \<in> {REFUNDING, REFUNDED, HELD}"

definition refundAbandoned :: "SqliteStore \<Rightarrow> string \<Rightarrow> bool" where
  "refundAbandoned s p \<longleftrightarrow> (case sql_get s (p @ REFUND_SUFFIX) of None \<Rightarrow> True
     | Some c \<Rightarrow> ob_status c = FAILED \<and> ob_txid c = None)"

definition noPegInChildren :: "SqliteStore \<Rightarrow> bool" where
  "noPegInChildren s \<longleftrightarrow> (\<forall>k r. sql_get s (k @ REFUND_SUFFIX) = Some r \<longrightarrow> ob_direction r \<noteq> O_PEG_IN)"

text \<open>What holds between the state a boot starts in and any state it passes.\<close>

definition sameFacts :: "SqliteStore \<Rightarrow> SqliteStore \<Rightarrow> bool" where
  "sameFacts s0 s \<longleftrightarrow> (\<forall>k. map_option (\<lambda>r. (ob_direction r, ob_txid r)) (sql_get s k) =
        map_option (\<lambda>r. (ob_direction r, ob_txid r)) (sql_get s0 k)) \<and>
     (\<forall>k r0. sql_get s0 k = Some r0 \<and> ob_status r0 = CONFIRMED \<longrightarrow> map_option ob_status (sql_get s k) = Some CONFIRMED)"

definition redriveSafe :: "SqliteStore \<Rightarrow> SqliteStore \<Rightarrow> bool" where
  "redriveSafe s0 s \<longleftrightarrow> (\<forall>p r0 r. sql_get s0 p = Some r0 \<and> inRefund r0 \<and> sql_get s p = Some r \<and> ob_status r = QUEUED \<longrightarrow>
      refundAbandoned s p \<and> ob_direction r = O_PEG_IN \<and> \<not> refundGone (sql_get s0 (p @ REFUND_SUFFIX)))"

lemma sql_get_setState [simp]: "sql_get (sql_setState k v now s) = sql_get s"
  by (simp add: sql_get_def sql_setState_def fun_eq_iff)

lemma sameFacts_refundGone:
  assumes "sameFacts s0 s" "\<not> refundGone (sql_get s k)"
  shows "\<not> refundGone (sql_get s0 k)"
proof
  assume "refundGone (sql_get s0 k)"
  then obtain c where c: "sql_get s0 k = Some c" "ob_status c = CONFIRMED \<or> ob_txid c \<noteq> None"
    by (cases "sql_get s0 k") (auto simp: refundGone_def)
  have "map_option (\<lambda>r. (ob_direction r, ob_txid r)) (sql_get s k) = Some (ob_direction c, ob_txid c)"
    using assms(1) c(1) by (simp add: sameFacts_def)
  then obtain c' where c': "sql_get s k = Some c'" "ob_txid c' = ob_txid c" by auto
  have "ob_status c = CONFIRMED \<longrightarrow> ob_status c' = CONFIRMED"
    using assms(1) c(1) c'(1) unfolding sameFacts_def by fastforce
  with assms(2) c c' show False by (simp add: refundGone_def)
qed

lemma sameFacts_setStatus:
  assumes "sameFacts s0 s" "pt_txid p = None" "\<And>r. sql_get s k = Some r \<Longrightarrow> ob_status r \<noteq> CONFIRMED"
  shows "sameFacts s0 (sql_setStatus k st p now s)"
proof -
  have "map_option (\<lambda>r. (ob_direction r, ob_txid r)) (sql_get (sql_setStatus k st p now s) j) =
      map_option (\<lambda>r. (ob_direction r, ob_txid r)) (sql_get s j)" for j
    using assms(2) by (simp add: sql_get_setStatus option.map_comp comp_def)
  moreover have "map_option ob_status (sql_get (sql_setStatus k st p now s) j) = Some CONFIRMED"
    if "sql_get s0 j = Some r0" "ob_status r0 = CONFIRMED" for j r0
  proof -
    have j: "map_option ob_status (sql_get s j) = Some CONFIRMED" using assms(1) that by (simp add: sameFacts_def)
    then have "j \<noteq> k" using assms(3) by auto
    with j show ?thesis by (simp add: sql_get_setStatus)
  qed
  ultimately show ?thesis using assms(1) unfolding sameFacts_def by simp
qed

lemma step_abandon:
  assumes "sameFacts s0 s" "redriveSafe s0 s" "sql_get s (p @ REFUND_SUFFIX) = Some c" "\<not> refundGone (Some c)"
  shows "sameFacts s0 (applyWrite now s (Abandon (p @ REFUND_SUFFIX) p))"
    and "redriveSafe s0 (applyWrite now s (Abandon (p @ REFUND_SUFFIX) p))"
    and "refundAbandoned (applyWrite now s (Abandon (p @ REFUND_SUFFIX) p)) p"
proof -
  show "sameFacts s0 (applyWrite now s (Abandon (p @ REFUND_SUFFIX) p))"
    unfolding applyWrite.simps by (rule sameFacts_setStatus [OF assms(1)]) (use assms(3,4) in \<open>simp_all add: refundGone_def noPatch_def\<close>)
  show here: "refundAbandoned (applyWrite now s (Abandon (p @ REFUND_SUFFIX) p)) p"
    using assms(3,4) by (simp add: refundAbandoned_def sql_get_setStatus refundGone_def)
  have "refundAbandoned (applyWrite now s (Abandon (p @ REFUND_SUFFIX) p)) q" if "refundAbandoned s q" for q
    using that here by (cases "q = p") (simp_all add: refundAbandoned_def sql_get_setStatus)
  then show "redriveSafe s0 (applyWrite now s (Abandon (p @ REFUND_SUFFIX) p))"
    using assms(2) by (auto simp: redriveSafe_def sql_get_setStatus split: if_splits)
qed

lemma step_redrive:
  assumes "sameFacts s0 s" "redriveSafe s0 s" "noPegInChildren s0" "sql_get s p = Some parent" "ob_direction parent = O_PEG_IN"
    "ob_status parent \<noteq> CONFIRMED" "refundAbandoned s p" "\<not> refundGone (sql_get s0 (p @ REFUND_SUFFIX))"
  shows "sameFacts s0 (applyWrite now s (Redrive p))" and "redriveSafe s0 (applyWrite now s (Redrive p))"
proof -
  show "sameFacts s0 (applyWrite now s (Redrive p))"
    unfolding applyWrite.simps by (rule sameFacts_setStatus [OF assms(1)]) (use assms(4,6) in \<open>simp_all add: noPatch_def\<close>)
  have "map_option (\<lambda>r. (ob_direction r, ob_txid r)) (sql_get s0 p) = Some (O_PEG_IN, ob_txid parent)"
    using assms(1,4,5) unfolding sameFacts_def by (metis option.map(2))
  then have ne: "q @ REFUND_SUFFIX \<noteq> p" for q
    using assms(3) by (auto simp: noPegInChildren_def)
  then have "refundAbandoned (applyWrite now s (Redrive p)) q = refundAbandoned s q" for q
    by (simp add: refundAbandoned_def sql_get_setStatus)
  then show "redriveSafe s0 (applyWrite now s (Redrive p))"
    using assms(2,4,5,7,8) by (auto simp: redriveSafe_def sql_get_setStatus split: if_splits)
qed

lemma step_mark:
  "sameFacts s0 s \<Longrightarrow> sameFacts s0 (applyWrite now s (Mark p))" "redriveSafe s0 s \<Longrightarrow> redriveSafe s0 (applyWrite now s (Mark p))"
  by (simp_all add: sameFacts_def redriveSafe_def refundAbandoned_def)

lemma directive_cases:
  obtains "directiveWrites p s = []" | "directiveWrites p s = [Mark p]"
    | parent where "sql_get s p = Some parent" "ob_direction parent = O_PEG_IN" "ob_status parent \<noteq> CONFIRMED" "inRefund parent"
      "\<not> refundGone (sql_get s (p @ REFUND_SUFFIX))"
      "directiveWrites p s = redirectWrites p (sql_get s (p @ REFUND_SUFFIX))"
proof (cases "sql_get s p")
  case None
  then show thesis using that(1) by (simp add: directiveWrites_def)
next
  case (Some parent)
  consider "truthy (sql_getState s (marker p)) \<or> (ob_direction parent = O_PEG_IN \<and> ob_status parent \<noteq> CONFIRMED \<and> \<not> inRefund parent)"
    | "\<not> truthy (sql_getState s (marker p))" "ob_direction parent \<noteq> O_PEG_IN \<or> ob_status parent = CONFIRMED
        \<or> (inRefund parent \<and> refundGone (sql_get s (p @ REFUND_SUFFIX)))"
    | "\<not> truthy (sql_getState s (marker p))" "ob_direction parent = O_PEG_IN" "ob_status parent \<noteq> CONFIRMED" "inRefund parent"
      "\<not> refundGone (sql_get s (p @ REFUND_SUFFIX))" by blast
  then show thesis
  proof cases
    case 1
    with Some that(1) show thesis by (auto simp: directiveWrites_def inRefund_def)
  next
    case 2
    with Some that(2) show thesis by (auto simp: directiveWrites_def inRefund_def)
  next
    case 3
    then have "directiveWrites p s = redirectWrites p (sql_get s (p @ REFUND_SUFFIX))"
      unfolding directiveWrites_def Some option.case inRefund_def Let_def by simp
    with 3 Some that(3) show thesis by blast
  qed
qed

lemma directive_prefix:
  assumes "sameFacts s0 s" "redriveSafe s0 s" "noPegInChildren s0"
  shows "sameFacts s0 (runStoreWrites now (take n (directiveWrites p s)) s) \<and>
    redriveSafe s0 (runStoreWrites now (take n (directiveWrites p s)) s)"
proof -
  let ?ok = "\<lambda>s. sameFacts s0 s \<and> redriveSafe s0 s"
  show ?thesis
  proof (cases rule: directive_cases [of p s])
    case 1
    with assms show ?thesis by (simp add: runStoreWrites_def)
  next
    case 2
    with assms step_mark show ?thesis by (cases n) (simp_all add: runStoreWrites_def)
  next
    case (3 parent)
    have gone: "\<not> refundGone (sql_get s0 (p @ REFUND_SUFFIX))" by (rule sameFacts_refundGone [OF assms(1) 3(5)])
    show ?thesis
    proof (cases "sql_get s (p @ REFUND_SUFFIX)")
      case None
      then have "refundAbandoned s p" by (simp add: refundAbandoned_def)
      note r = step_redrive [OF assms 3(1-3) this gone, of now]
      have "directiveWrites p s = [Redrive p, Mark p]" using 3(6) None by (simp add: redirectWrites_def)
      moreover have "n = 0 \<or> n = Suc 0 \<or> 2 \<le> n" by arith
      ultimately show ?thesis using assms r step_mark [of s0 "applyWrite now s (Redrive p)"]
        by (elim disjE) (simp_all add: runStoreWrites_def del: applyWrite.simps)
    next
      case (Some c)
      have "ob_id c = p @ REFUND_SUFFIX" using Some by (auto simp: sql_get_def find_Some_iff)
      then have ws: "directiveWrites p s = [Abandon (p @ REFUND_SUFFIX) p, Redrive p, Mark p]"
        using 3(6) Some by (simp add: redirectWrites_def)
      let ?s1 = "applyWrite now s (Abandon (p @ REFUND_SUFFIX) p)"
      note a = step_abandon [OF assms(1,2) Some 3(5) [unfolded Some], of now]
      have "sql_get ?s1 p = Some parent" using 3(1) by (simp add: sql_get_setStatus REFUND_SUFFIX_def)
      note r = step_redrive [OF a(1,2) assms(3) this 3(2,3) a(3) gone, of now]
      have "n = 0 \<or> n = Suc 0 \<or> n = 2 \<or> 3 \<le> n" by arith
      then show ?thesis using assms a r step_mark [of s0 "applyWrite now ?s1 (Redrive p)"]
        by (elim disjE) (simp_all add: ws runStoreWrites_def numeral_eq_Suc del: applyWrite.simps)
    qed
  qed
qed

lemma bootStates_safe:
  assumes "sameFacts s0 s" "redriveSafe s0 s" "noPegInChildren s0" "s' \<in> set (bootStates now ps s)"
  shows "sameFacts s0 s' \<and> redriveSafe s0 s'"
  using assms(1,2,4)
proof (induction now ps s rule: bootStates.induct)
  case (1 now s)
  then show ?case by simp
next
  case (2 now p ps s)
  let ?ws = "directiveWrites p s"
  note pre = directive_prefix [OF 2(2,3) assms(3), of now _ p]
  have "s' \<in> (\<lambda>n. runStoreWrites now (take n ?ws) s) ` set [0 ..< Suc (length ?ws)]
      \<or> s' \<in> set (bootStates now ps (runStoreWrites now ?ws s))"
    using 2(4) unfolding bootStates.simps set_append set_map Un_iff .
  then consider n where "s' = runStoreWrites now (take n ?ws) s" | "s' \<in> set (bootStates now ps (runStoreWrites now ?ws s))"
    by blast
  then show ?case
  proof cases
    case 1
    with pre show ?thesis by simp
  next
    case 2
    with "2.IH" pre [of "length ?ws"] show ?thesis by simp
  qed
qed

section \<open>What a redirect can do\<close>

text \<open>Every state \<open>applySourceHintResolutions\<close> can leave behind, by returning or by dying on the way.\<close>

definition redirectStates :: "SourceHintsFile \<Rightarrow> int \<Rightarrow> SqliteStore \<Rightarrow> SqliteStore list" where
  "redirectStates hints now s =
     (if mintDirectives hints = [] \<or> \<not> sql_isPaused s then [s] else bootStates now (mintDirectives hints) s)"

lemma applied_in_redirectStates: "applySourceHintResolutions hints now s \<in> set (redirectStates hints now s)"
  by (simp add: applySourceHintResolutions_def redirectStates_def bootStates_last)

lemma redirectStates_safe:
  assumes "noPegInChildren s" "s' \<in> set (redirectStates hints now s)"
  shows "redriveSafe s s'"
proof -
  have "sameFacts s s" "redriveSafe s s" by (auto simp: sameFacts_def redriveSafe_def inRefund_def)
  with bootStates_safe [OF this assms(1)] assms(2) show ?thesis
    by (auto simp: redirectStates_def split: if_splits)
qed

text \<open>
  C28. A mint redirect never pays a deposit twice, wherever it is interrupted: if a deposit that was
  refunding, refunded or held is queued for its mint again, then the gateway was paused, the row is
  a peg-in, its refund had neither been confirmed nor been given a transaction id, and the refund
  child is either absent or abandoned (\<open>FAILED\<close>, still without a transaction id).
\<close>

theorem redirect_never_pays_twice:
  assumes "noPegInChildren s" "s' \<in> set (redirectStates hints now s)"
    and "sql_get s p = Some r0" "inRefund r0" "sql_get s' p = Some r" "ob_status r = QUEUED"
  shows "sql_isPaused s \<and> ob_direction r = O_PEG_IN \<and>
    (case sql_get s (p @ REFUND_SUFFIX) of None \<Rightarrow> True | Some c \<Rightarrow> ob_status c \<noteq> CONFIRMED \<and> ob_txid c = None) \<and>
    (case sql_get s' (p @ REFUND_SUFFIX) of None \<Rightarrow> True | Some c \<Rightarrow> ob_status c = FAILED \<and> ob_txid c = None)"
proof -
  have "sql_isPaused s"
    using assms(2-6) by (auto simp: redirectStates_def inRefund_def split: if_splits)
  moreover have "refundAbandoned s' p \<and> ob_direction r = O_PEG_IN \<and> \<not> refundGone (sql_get s (p @ REFUND_SUFFIX))"
    using redirectStates_safe [OF assms(1,2)] assms(3-6) unfolding redriveSafe_def by blast
  ultimately show ?thesis by (simp add: refundAbandoned_def refundGone_def split: option.splits)
qed

definition refunding_example :: OutboxRecord where
  "refunding_example = row_example\<lparr>ob_status := REFUNDING, ob_lastError := Some INVALID_DESTINATION\<rparr>"

definition child_example :: OutboxRecord where
  "child_example = row_example\<lparr>ob_id := ''ab01:3:refund'', ob_direction := O_REFUND\<rparr>"

definition stuck_example :: SqliteStore where
  "stuck_example = sql_pause ''ops'' 1 (emptySqlite\<lparr>tb_outbox := [refunding_example, child_example]\<rparr>)"

definition hints_example :: SourceHintsFile where
  "hints_example = loadSourceHints (HintEntries [(''AB01:3'', Some [''resolution'' \<mapsto> HvString ''mint''])])"

lemma mintDirectives_example: "mintDirectives hints_example = [''ab01:3'']"
proof -
  have "toLowerCase ''AB01:3'' = ''ab01:3''" by code_simp
  then show ?thesis
    by (simp add: hints_example_def mintDirectives_def directiveOf_def blockNumOf_def resolutionOf_def)
qed

lemma stuck_example_reads:
  "sql_get stuck_example ''ab01:3'' = Some refunding_example"
  "sql_get stuck_example ''ab01:3:refund'' = Some child_example"
  "sql_isPaused stuck_example" "\<not> truthy (sql_getState stuck_example (marker ''ab01:3''))"
  "noPegInChildren stuck_example"
proof -
  show "sql_get stuck_example ''ab01:3'' = Some refunding_example" "sql_get stuck_example ''ab01:3:refund'' = Some child_example"
    by (simp_all add: stuck_example_def sql_get_def refunding_example_def child_example_def row_example_def
        enqueue_example_def recordOf_def)
  show "sql_isPaused stuck_example" by (simp add: stuck_example_def)
  show "\<not> truthy (sql_getState stuck_example (marker ''ab01:3''))"
    by (simp add: stuck_example_def sql_getState_def sql_pause_def marker_def APPLIED_PREFIX_def)
      (simp add: emptySqlite_def sql_getKey_def)
  show "noPegInChildren stuck_example"
    by (simp add: stuck_example_def noPegInChildren_def REFUND_SUFFIX_def sql_get_def refunding_example_def
        child_example_def row_example_def enqueue_example_def recordOf_def)
qed

theorem redirect_never_pays_twice_witness:
  "(case sql_get (applySourceHintResolutions hints_example 9 stuck_example) ''ab01:3:refund'' of
     None \<Rightarrow> True | Some c \<Rightarrow> ob_status c = FAILED \<and> ob_txid c = None) \<and>
   map_option ob_status (sql_get (applySourceHintResolutions hints_example 9 stuck_example) ''ab01:3'') = Some QUEUED"
proof -
  have w: "directiveWrites ''ab01:3'' stuck_example = [Abandon ''ab01:3:refund'' ''ab01:3'', Redrive ''ab01:3'', Mark ''ab01:3'']"
    using stuck_example_reads
    by (simp add: directiveWrites_def redirectWrites_def refundGone_def REFUND_SUFFIX_def refunding_example_def child_example_def
        row_example_def enqueue_example_def recordOf_def)
  have a: "applySourceHintResolutions hints_example 9 stuck_example =
      runStoreWrites 9 [Abandon ''ab01:3:refund'' ''ab01:3'', Redrive ''ab01:3'', Mark ''ab01:3''] stuck_example"
    using stuck_example_reads by (simp add: applySourceHintResolutions_def mintDirectives_example w)
  then obtain r where r: "sql_get (applySourceHintResolutions hints_example 9 stuck_example) ''ab01:3'' = Some r" "ob_status r = QUEUED"
    using stuck_example_reads by (auto simp: runStoreWrites_def sql_get_setStatus applyStatus_def)
  have "inRefund refunding_example" by (simp add: inRefund_def refunding_example_def)
  from redirect_never_pays_twice [OF stuck_example_reads(5) applied_in_redirectStates stuck_example_reads(1) this r] r
  show ?thesis by (simp add: REFUND_SUFFIX_def)
qed

text \<open>
  The abandoned child keeps its id. If the redirected mint fails and the deposit is held again,
  the dispatcher's refund of the held row loses to that \<open>FAILED\<close> child: the parent goes to
  \<open>REFUNDING\<close> with nothing in the outbox that will ever pay it.
\<close>

lemma redirected_deposit_not_refunded_again:
  assumes "sqlInv s" "sql_get s (ob_id rec) = Some rec" "ob_direction rec = O_PEG_IN"
    and "sql_get s (ob_id rec @ REFUND_SUFFIX) = Some c" "ob_status c = FAILED"
    and "to_refundFeeMilliViz opts < ob_amountMilliViz rec" "truthy (ob_sender rec)"
  shows "\<exists>r. sql_get (runWrites s (heldWrites opts now rec)) (ob_id rec) = Some r \<and> ob_status r = REFUNDING \<and>
    sql_get (runWrites s (heldWrites opts now rec)) (ob_id rec @ REFUND_SUFFIX) = Some c"
proof -
  obtain i where i: "planChildren rec REFUNDING (holdCtx opts) = [i]" "ei_id i = ob_id rec @ REFUND_SUFFIX"
    using assms(3,6,7) refundAmount_pos [of "ob_amountMilliViz rec" "to_refundFeeMilliViz opts"]
    by (auto simp: planChildren_def childOf_def holdCtx_def REFUND_SUFFIX_def Let_def)
  show ?thesis
    using assms(1,2,4) by (simp add: heldWrites_def i sq.get_enqueue sq.get_setStatus sq.inv_enqueue, simp add: REFUND_SUFFIX_def)
qed

end
