(* ===== verification/Intake.thy ===== *)
theory Intake
  imports Caps Canonical
begin

text \<open>
  What the three watchers share: each turns the events of one scan into rows of the outbox, one
  event after the other, each at the time \<open>clock\<close> gives it. The locale states the contract of the
  step on one event; its lemmas are about a whole scan, and about a scan that is repeated after a
  crash in the middle of it.
\<close>

definition STALE_SEEN_MS :: int where "STALE_SEEN_MS = 5 * 60 * 1000"

definition intakeRun ::
  "('e \<Rightarrow> int \<Rightarrow> SqliteStore \<Rightarrow> SqliteStore) \<Rightarrow> ('e \<Rightarrow> int) \<Rightarrow> 'e list \<Rightarrow> SqliteStore \<Rightarrow> SqliteStore" where
  "intakeRun step clock es s = foldl (\<lambda>s e. step e (clock e) s) s es"

lemma intakeRun_simps [simp]:
  "intakeRun step clock [] s = s"
  "intakeRun step clock (e # es) s = intakeRun step clock es (step e (clock e) s)"
  by (simp_all add: intakeRun_def)

locale event_intake =
  fixes key :: "'e \<Rightarrow> string"
    and step :: "'e \<Rightarrow> int \<Rightarrow> SqliteStore \<Rightarrow> SqliteStore"
    and good :: "'e \<Rightarrow> OutboxRecord \<Rightarrow> bool"
  assumes step_inv: "sqlInv s \<Longrightarrow> sqlInv (step e now s)"
    and step_new: "sqlInv s \<Longrightarrow> sql_get s (key e) = None \<Longrightarrow>
      \<exists>r. sql_get (step e now s) (key e) = Some r \<and> good e r"
    and step_known: "sqlInv s \<Longrightarrow> sql_get s (key e) = Some r \<Longrightarrow> sql_get (step e now s) (key e) = Some r"
    and step_other: "sqlInv s \<Longrightarrow> k \<noteq> key e \<Longrightarrow> sql_get (step e now s) k = sql_get s k"
begin

lemma run_inv: "sqlInv s \<Longrightarrow> sqlInv (intakeRun step clock es s)"
  by (induction es arbitrary: s) (simp_all add: step_inv)

lemma run_known:
  "sqlInv s \<Longrightarrow> sql_get s k = Some r \<Longrightarrow> sql_get (intakeRun step clock es s) k = Some r"
proof (induction es arbitrary: s)
  case (Cons e es)
  have "sql_get (step e (clock e) s) k = Some r"
    using step_known [OF Cons.prems(1)] step_other [OF Cons.prems(1)] Cons.prems(2) by (cases "k = key e") auto
  then show ?case using Cons.IH [OF step_inv [OF Cons.prems(1)]] by simp
qed simp

lemma run_other:
  "sqlInv s \<Longrightarrow> k \<notin> key ` set es \<Longrightarrow> sql_get (intakeRun step clock es s) k = sql_get s k"
  by (induction es arbitrary: s) (simp_all add: step_inv step_other)

text \<open>Every event of a scan has its row afterwards, and a row it made is as it should be.\<close>

lemma run_new:
  assumes "sqlInv s" "distinct (map key es)" "e \<in> set es" "sql_get s (key e) = None"
  shows "\<exists>r. sql_get (intakeRun step clock es s) (key e) = Some r \<and> good e r"
  using assms
proof (induction es arbitrary: s)
  case (Cons x es)
  let ?s = "step x (clock x) s"
  have inv: "sqlInv ?s" by (rule step_inv [OF Cons.prems(1)])
  show ?case
  proof (cases "x = e")
    case True
    from step_new [OF Cons.prems(1,4)] obtain r where "sql_get ?s (key e) = Some r" "good e r"
      using True by blast
    with run_known [OF inv this(1)] show ?thesis by auto
  next
    case False
    then have "e \<in> set es" using Cons.prems(3) by auto
    then have "key e \<in> key ` set es" by (rule imageI)
    then have "key e \<noteq> key x" using Cons.prems(2) by auto
    note this \<open>e \<in> set es\<close>
    with Cons.IH [OF inv] step_other [OF Cons.prems(1)] Cons.prems(2,4) show ?thesis by auto
  qed
qed simp

text \<open>
  A scan that a crash cut off after any prefix, and that is repeated from the same cursor: every
  event has its row, and a row neither run found is as it should be.
\<close>

lemma rerun_new:
  assumes "sqlInv s" "distinct (map key (pre @ rest))" "e \<in> set (pre @ rest)" "sql_get s (key e) = None"
  shows "\<exists>r. sql_get (intakeRun step clock' (pre @ rest) (intakeRun step clock pre s)) (key e) = Some r \<and> good e r"
proof (cases "e \<in> set pre")
  case True
  have "distinct (map key pre)" using assms(2) by simp
  from run_new [OF assms(1) this True assms(4)] obtain r where
    "sql_get (intakeRun step clock pre s) (key e) = Some r" "good e r" by blast
  with run_known [OF run_inv [OF assms(1)] this(1)] show ?thesis by blast
next
  case False
  then have "key e \<notin> key ` set pre" using assms(2,3) by (auto simp: image_iff)
  then have "sql_get (intakeRun step clock pre s) (key e) = None" using run_other assms(1,4) by simp
  from run_new [OF run_inv [OF assms(1)] assms(2,3) this] show ?thesis .
qed

end

section \<open>The store after every write\<close>

text \<open>
  The writes of a scan as the sequence of stores they leave, in the order of the code's awaits: a crash
  or an exception leaves one of them.
\<close>

fun intakeSteps ::
  "('e \<Rightarrow> int \<Rightarrow> SqliteStore \<Rightarrow> SqliteStore list) \<Rightarrow> ('e \<Rightarrow> int) \<Rightarrow> 'e list \<Rightarrow> SqliteStore \<Rightarrow> SqliteStore list" where
  "intakeSteps steps clock [] s = []"
| "intakeSteps steps clock (e # es) s =
     (let tr = steps e (clock e) s in tr @ intakeSteps steps clock es (endOf s tr))"

lemma intakeSteps_end:
  assumes "\<And>e now s. endOf s (steps e now s) = step e now s"
  shows "endOf s (intakeSteps steps clock es s) = intakeRun step clock es s"
  by (induction es arbitrary: s) (simp_all add: Let_def assms)

text \<open>
  What the writes of an intake keep: the events of the rows that are there, and the scan cursor \<open>n\<close>;
  and a row that was not there is one of the inputs \<open>I\<close>.
\<close>

definition madeFrom :: "EnqueueInput set \<Rightarrow> string \<Rightarrow> OutboxRecord \<Rightarrow> bool" where
  "madeFrom I k r \<longleftrightarrow> (\<exists>i \<in> I. \<exists>now. ei_id i = k \<and> sameEvent (recordOf i now) r)"

lemma madeFrom_same: "madeFrom I k r \<Longrightarrow> sameEvent r r' \<Longrightarrow> madeFrom I k r'"
  unfolding madeFrom_def using sameEvent_trans by blast

definition keepsRows :: "string \<Rightarrow> EnqueueInput set \<Rightarrow> SqliteStore \<Rightarrow> SqliteStore \<Rightarrow> bool" where
  "keepsRows n I s s' \<longleftrightarrow> (sqlInv s \<longrightarrow> sqlInv s' \<and> sql_getCursor s' n = sql_getCursor s n \<and>
     (\<forall>k. case sql_get s k of
        Some r \<Rightarrow> (\<exists>r'. sql_get s' k = Some r' \<and> sameEvent r r')
      | None \<Rightarrow> (\<forall>r'. sql_get s' k = Some r' \<longrightarrow> madeFrom I k r')))"

definition cursorName :: "string \<Rightarrow> bool" where
  "cursorName n \<longleftrightarrow> n \<noteq> ''paused'' \<and> n \<noteq> ''pause_reason''"

lemma keepsRowsD:
  assumes "keepsRows n I s s'" "sqlInv s"
  shows "sqlInv s'" "sql_getCursor s' n = sql_getCursor s n"
    "sql_get s k = Some r \<Longrightarrow> \<exists>r'. sql_get s' k = Some r' \<and> sameEvent r r'"
    "sql_get s k = None \<Longrightarrow> sql_get s' k = Some r' \<Longrightarrow> madeFrom I k r'"
proof -
  from assms have k: "case sql_get s k of
        Some r \<Rightarrow> (\<exists>r'. sql_get s' k = Some r' \<and> sameEvent r r')
      | None \<Rightarrow> (\<forall>r'. sql_get s' k = Some r' \<longrightarrow> madeFrom I k r')" for k
    unfolding keepsRows_def by blast
  show "sqlInv s'" "sql_getCursor s' n = sql_getCursor s n" using assms unfolding keepsRows_def by blast+
  show "\<exists>r'. sql_get s' k = Some r' \<and> sameEvent r r'" if "sql_get s k = Some r" using k [of k] that by simp
  show "madeFrom I k r'" if "sql_get s k = None" "sql_get s' k = Some r'" using k [of k] that by simp
qed

lemma keepsRowsI:
  assumes "sqlInv s \<Longrightarrow> sqlInv s'" "sqlInv s \<Longrightarrow> sql_getCursor s' n = sql_getCursor s n"
    "\<And>k r. sqlInv s \<Longrightarrow> sql_get s k = Some r \<Longrightarrow> \<exists>r'. sql_get s' k = Some r' \<and> sameEvent r r'"
    "\<And>k r'. sqlInv s \<Longrightarrow> sql_get s k = None \<Longrightarrow> sql_get s' k = Some r' \<Longrightarrow> madeFrom I k r'"
  shows "keepsRows n I s s'"
  using assms unfolding keepsRows_def by (simp split: option.split)

lemma keepsRows_refl [simp]: "keepsRows n I s s"
  by (rule keepsRowsI) auto

lemma keepsRows_trans:
  assumes "keepsRows n I s s'" "keepsRows n I s' s''"
  shows "keepsRows n I s s''"
proof (rule keepsRowsI)
  fix k r
  assume inv: "sqlInv s"
  note 1 = keepsRowsD [OF assms(1) inv] and 2 = keepsRowsD [OF assms(2) keepsRowsD(1) [OF assms(1) inv]]
  show "\<exists>r'. sql_get s'' k = Some r' \<and> sameEvent r r'" if "sql_get s k = Some r"
    using 1(3) [OF that] 2(3) sameEvent_trans by blast
  show "madeFrom I k r" if r: "sql_get s k = None" "sql_get s'' k = Some r"
  proof (cases "sql_get s' k")
    case None
    from 2(4) [OF this r(2)] show ?thesis .
  next
    case (Some x)
    from 2(3) [OF this] r(2) madeFrom_same [OF 1(4) [OF r(1) Some]] show ?thesis by auto
  qed
qed (use keepsRowsD(1,2) [OF assms(1)] keepsRowsD(1,2) [OF assms(2)] in auto)

lemma getCursor_state: "tb_state s' = tb_state s \<Longrightarrow> sql_getCursor s' = sql_getCursor s"
  by (simp add: sql_getCursor_def sql_getKey_def fun_eq_iff)

lemma keepsRows_outbox:
  "tb_outbox s' = tb_outbox s \<Longrightarrow> sql_getCursor s' n = sql_getCursor s n \<Longrightarrow> keepsRows n I s s'"
  using sqlInv_outbox [of s' s] sql_get_outbox [of s' s] by (intro keepsRowsI) auto

lemma getCursor_pause: "cursorName n \<Longrightarrow> sql_getCursor (sql_pause reason now s) n = sql_getCursor s n"
  by (simp add: cursorName_def sql_pause_def sql_getCursor_def)

lemma keepsRows_pause: "cursorName n \<Longrightarrow> keepsRows n I s (sql_pause reason now s)"
  by (rule keepsRows_outbox) (simp_all add: getCursor_pause)

lemma getCursor_outbox [simp]: "sql_getCursor (s\<lparr>tb_outbox := rs\<rparr>) = sql_getCursor s"
  by (rule getCursor_state) simp

lemma getCursor_ledger:
  assumes "cursorName n"
  shows "sql_getCursor (ledgerStep sql_enqueue sql_setStatus sql_setFee s op) n = sql_getCursor s n"
  using getCursor_pause [OF assms]
  by (cases op) (simp_all add: sql_enqueue_def sql_setStatus_def sql_setFee_def split: option.split)

lemma keepsRows_ledger:
  assumes "cursorName n" "\<And>i now. op = OpEnqueue i now \<Longrightarrow> i \<in> I"
  shows "keepsRows n I s (ledgerStep sql_enqueue sql_setStatus sql_setFee s op)"
proof (rule keepsRowsI)
  fix k r
  assume inv: "sqlInv s"
  show "\<exists>r'. sql_get (ledgerStep sql_enqueue sql_setStatus sql_setFee s op) k = Some r' \<and> sameEvent r r'"
    if "sql_get s k = Some r" by (rule sq.step_sameEvent [OF inv that])
  show "madeFrom I k r" if "sql_get s k = None" "sql_get (ledgerStep sql_enqueue sql_setStatus sql_setFee s op) k = Some r"
  proof (cases op)
    case (OpEnqueue i now)
    then have "r = recordOf i now" "ei_id i = k" using that inv by (auto simp: sq.ledger_reads split: if_splits)
    then show ?thesis unfolding madeFrom_def using assms(2) [OF OpEnqueue] by (auto intro!: bexI [of _ i] exI [of _ now])
  qed (use that inv in \<open>auto simp: sq.ledger_reads split: if_splits\<close>)
qed (use sq.step_inv getCursor_ledger [OF assms(1)] in auto)

lemma keepsRows_enqueue: "cursorName n \<Longrightarrow> i \<in> I \<Longrightarrow> keepsRows n I s (snd (sql_enqueue i now s))"
  using keepsRows_ledger [of n "OpEnqueue i now" I s] by simp

lemma keepsRows_setStatus: "cursorName n \<Longrightarrow> keepsRows n I s (sql_setStatus k st p now s)"
  using keepsRows_ledger [of n "OpSetStatus k st p now" I s] by simp

lemma keepsRows_cap: "keepsRows n I s (snd (cb_checkAndRecord policy a now s))"
  by (rule keepsRows_outbox [OF _ fun_cong [OF getCursor_state]]) simp_all

lemma keepsRows_rate: "keepsRows n I s (snd (sql_tryReserveSenderRate x m w now s))"
  by (rule keepsRows_outbox [OF _ fun_cong [OF getCursor_state]]) (simp_all add: sql_tryReserveSenderRate_def Let_def)

definition keepsAll :: "string \<Rightarrow> EnqueueInput set \<Rightarrow> SqliteStore \<Rightarrow> SqliteStore list \<Rightarrow> bool" where
  "keepsAll n I s tr \<longleftrightarrow> (\<forall>s' \<in> set tr. keepsRows n I s s')"

lemma keepsAll_Nil [simp]: "keepsAll n I s []"
  by (simp add: keepsAll_def)

lemma keepsAll_Cons: "keepsRows n I s s1 \<Longrightarrow> keepsAll n I s1 tr \<Longrightarrow> keepsAll n I s (s1 # tr)"
  unfolding keepsAll_def using keepsRows_trans by auto

lemma keepsAll_end: "keepsAll n I s tr \<Longrightarrow> keepsRows n I s (endOf s tr)"
  using endOf_in [of s tr] by (auto simp: keepsAll_def)

lemma keepsAll_append: "keepsAll n I s tr \<Longrightarrow> keepsAll n I (endOf s tr) tr' \<Longrightarrow> keepsAll n I s (tr @ tr')"
  using keepsAll_end [of n I s tr] keepsRows_trans unfolding keepsAll_def by (metis Un_iff set_append)

lemma capSteps_keeps:
  assumes "cursorName n"
  shows "keepsAll n I s (capSteps policy reason now rid amount s)"
proof -
  obtain d s1 where c: "cb_checkAndRecord policy amount now s = (d, s1)"
    by (cases "cb_checkAndRecord policy amount now s")
  have s1: "keepsRows n I s s1" using keepsRows_cap [of n I s policy amount now] c by simp
  note st = keepsRows_setStatus [OF assms]
  show ?thesis
    using c st keepsRows_pause [OF assms]
    by (cases d) (auto simp: capSteps_def Let_def intro!: keepsAll_Cons [OF s1] keepsAll_Cons)
qed

lemma recoverSteps_keeps: "cursorName n \<Longrightarrow> keepsAll n I s (recoverSteps policy reason now match rs s)"
proof (induction rs arbitrary: s)
  case (Cons r rs)
  then show ?case using keepsAll_append [OF capSteps_keeps [OF Cons.prems]] by (simp add: Let_def)
qed simp

lemma intakeSteps_keeps:
  "(\<And>e now s. e \<in> set es \<Longrightarrow> keepsAll n I s (steps e now s)) \<Longrightarrow> keepsAll n I s (intakeSteps steps clock es s)"
proof (induction es arbitrary: s)
  case (Cons e es)
  have "keepsAll n I s (steps e (clock e) s)" by (rule Cons.prems) simp
  moreover have "keepsAll n I (endOf s (steps e (clock e) s)) (intakeSteps steps clock es (endOf s (steps e (clock e) s)))"
    by (rule Cons.IH) (rule Cons.prems, simp)
  ultimately show ?case using keepsAll_append by (simp add: Let_def)
qed simp

text \<open>The live path of a row, write by write.\<close>

definition enqueueSteps :: "CapPolicy \<Rightarrow> string \<Rightarrow> EnqueueInput \<Rightarrow> int \<Rightarrow> SqliteStore \<Rightarrow> SqliteStore list" where
  "enqueueSteps policy pauseReason i now s =
     (case sql_enqueue i now s of (first, s1) \<Rightarrow>
        s1 # (if \<not> first then [] else capSteps policy pauseReason now (ei_id i) (ei_amountMilliViz i) s1))"

lemma enqueueSteps_keeps: "cursorName n \<Longrightarrow> i \<in> I \<Longrightarrow> keepsAll n I s (enqueueSteps policy reason i now s)"
  using keepsRows_enqueue [of n i I s now] capSteps_keeps
  by (auto simp: enqueueSteps_def split: prod.split intro!: keepsAll_Cons)

section \<open>The recovery before a scan adds no row\<close>

lemma recoverLoop_inv:
  "sqlInv s \<Longrightarrow> sqlInv (snd (recoverLoop policy reason now match rs (out, s)))"
proof (induction rs arbitrary: out s)
  case (Cons r rs)
  obtain d s' where c: "capAndAdvance policy reason now (ob_id r) (ob_amountMilliViz r) s = (d, s')"
    by (cases "capAndAdvance policy reason now (ob_id r) (ob_amountMilliViz r) s")
  then have "sqlInv s'" using capAndAdvance_inv [OF Cons.prems] by (metis snd_conv)
  with Cons c show ?case by (simp split: CapDecision.split)
qed simp

lemma recoverLoop_None:
  "sqlInv s \<Longrightarrow> sql_get (snd (recoverLoop policy reason now match rs (out, s))) k = None \<longleftrightarrow> sql_get s k = None"
proof (induction rs arbitrary: out s)
  case (Cons r rs)
  obtain d s' where c: "capAndAdvance policy reason now (ob_id r) (ob_amountMilliViz r) s = (d, s')"
    by (cases "capAndAdvance policy reason now (ob_id r) (ob_amountMilliViz r) s")
  then have "sqlInv s'" "sql_get s' k = None \<longleftrightarrow> sql_get s k = None"
    using capAndAdvance_inv [OF Cons.prems] capAndAdvance_get [OF Cons.prems]
    by (metis snd_conv, metis (no_types, lifting) option.map_disc_iff snd_conv)
  with Cons c show ?case by (simp split: CapDecision.split)
qed simp

lemma recoverStaleSeen_inv: "sqlInv s \<Longrightarrow> sqlInv (snd (recoverStaleSeen policy now ms match reason s))"
  by (simp add: recoverStaleSeen_def recoverLoop_inv)

lemma recoverStaleSeen_None:
  "sqlInv s \<Longrightarrow> sql_get (snd (recoverStaleSeen policy now ms match reason s)) k = None \<longleftrightarrow> sql_get s k = None"
  by (simp add: recoverStaleSeen_def recoverLoop_None)

section \<open>The live path of one row\<close>

text \<open>
  A row that is enqueued in \<open>SEEN\<close> and, if it is the first of its id, given its cap decision.
\<close>

definition enqueueSeen :: "CapPolicy \<Rightarrow> string \<Rightarrow> EnqueueInput \<Rightarrow> int \<Rightarrow> SqliteStore \<Rightarrow> SqliteStore" where
  "enqueueSeen policy pauseReason i now s =
     (case sql_enqueue i now s of (first, s1) \<Rightarrow>
        if \<not> first then s1
        else snd (capAndAdvance policy pauseReason now (ei_id i) (ei_amountMilliViz i) s1))"

lemma enqueueSteps_end: "endOf s (enqueueSteps policy reason i now s) = enqueueSeen policy reason i now s"
  by (simp add: enqueueSteps_def enqueueSeen_def capSteps_end split: prod.split)

definition decidedRow :: "EnqueueInput \<Rightarrow> OutboxRecord \<Rightarrow> bool" where
  "decidedRow i r \<longleftrightarrow> (\<exists>now. sameEvent (recordOf i now) r) \<and> (ob_status r = QUEUED \<or> ob_status r = HELD)"

lemma enqueueSeen_inv: "sqlInv s \<Longrightarrow> sqlInv (enqueueSeen policy reason i now s)"
  using sq.inv_enqueue [of s i now]
  by (cases "sql_enqueue i now s") (auto simp: enqueueSeen_def capAndAdvance_inv)

lemma enqueueSeen_get:
  assumes "sqlInv s"
  shows "sql_get s (ei_id i) = None \<Longrightarrow>
      \<exists>r. sql_get (enqueueSeen policy reason i now s) (ei_id i) = Some r \<and> decidedRow i r"
    and "sql_get s k = Some r \<Longrightarrow> sql_get (enqueueSeen policy reason i now s) k = Some r"
    and "k \<noteq> ei_id i \<Longrightarrow> sql_get (enqueueSeen policy reason i now s) k = sql_get s k"
proof -
  obtain first s1 where e: "sql_enqueue i now s = (first, s1)" by (cases "sql_enqueue i now s")
  have inv: "sqlInv s1" using sq.inv_enqueue [OF assms, of i now] e by simp
  have first: "first \<longleftrightarrow> sql_get s (ei_id i) = None" using sq.enqueue_result [OF assms, of i now] e by simp
  have get: "sql_get s1 k = (if k = ei_id i \<and> sql_get s k = None then Some (recordOf i now) else sql_get s k)" for k
    using sq.get_enqueue [OF assms, of i now k] e by simp
  show "\<exists>r. sql_get (enqueueSeen policy reason i now s) (ei_id i) = Some r \<and> decidedRow i r"
    if "sql_get s (ei_id i) = None"
    using that e first get [of "ei_id i"] inv
    by (auto simp: enqueueSeen_def capAndAdvance_get decidedRow_def intro!: exI [of _ now] split: CapDecision.split)
  show "sql_get (enqueueSeen policy reason i now s) k = Some r" if "sql_get s k = Some r"
    using that e first get [of k] inv by (auto simp: enqueueSeen_def capAndAdvance_get)
  show "sql_get (enqueueSeen policy reason i now s) k = sql_get s k" if "k \<noteq> ei_id i"
    using that e first get [of k] inv by (auto simp: enqueueSeen_def capAndAdvance_get)
qed

section \<open>The recovery keeps a decided row\<close>

lemma recoverStaleSeen_keeps:
  assumes "sqlInv s" "sql_get s k = Some r" "ob_status r \<noteq> SEEN"
  shows "sql_get (snd (recoverStaleSeen policy now ms match reason s)) k = Some r"
proof -
  have "ob_id x \<noteq> k" if "x \<in> set (sql_stale s now ms [SEEN])" for x
    using that sql_get_row [OF assms(1), of x] assms(2,3) by (auto simp: sql_stale_def)
  then show ?thesis
    using recoverLoop_frame [OF assms(1), of "sql_stale s now ms [SEEN]" match k] assms(2)
    by (simp add: recoverStaleSeen_def)
qed

lemma recoverLoop_lastError:
  assumes "sqlInv s" "\<forall>r. sql_get s k = Some r \<longrightarrow> ob_lastError r \<noteq> Some ''RETURN_INVALID_DEST''"
  shows "\<forall>r. sql_get (snd (recoverLoop policy reason now match rs (out, s))) k = Some r \<longrightarrow>
    ob_lastError r \<noteq> Some ''RETURN_INVALID_DEST''"
  using assms
proof (induction rs arbitrary: out s)
  case (Cons r rs)
  obtain d s' where c: "capAndAdvance policy reason now (ob_id r) (ob_amountMilliViz r) s = (d, s')"
    by (cases "capAndAdvance policy reason now (ob_id r) (ob_amountMilliViz r) s")
  have inv: "sqlInv s'" using capAndAdvance_inv [OF Cons.prems(1)] c by (metis snd_conv)
  have cap: "capReasonString why \<noteq> ''RETURN_INVALID_DEST''" for why by (cases why) simp_all
  have "ob_lastError x \<noteq> Some ''RETURN_INVALID_DEST''" if x: "sql_get s' k = Some x" for x
  proof (cases "k = ob_id r")
    case True
    with x c capAndAdvance_get [OF Cons.prems(1), of policy reason now "ob_id r" "ob_amountMilliViz r" k]
    obtain y where y: "sql_get s k = Some y"
      "x = (case fst (cb_checkAndRecord policy (ob_amountMilliViz r) now s) of
         CapOk \<Rightarrow> applyStatus QUEUED noPatch now
       | CapReject why \<Rightarrow> applyStatus HELD (heldPatch (capReasonString why)) now) y"
      by (cases "sql_get s (ob_id r)") auto
    with Cons.prems(2) cap show ?thesis
      by (cases "fst (cb_checkAndRecord policy (ob_amountMilliViz r) now s)") (auto simp: heldPatch_def noPatch_def)
  next
    case False
    with x c capAndAdvance_get [OF Cons.prems(1), of policy reason now "ob_id r" "ob_amountMilliViz r" k]
    have "sql_get s k = Some x" by simp
    with Cons.prems(2) show ?thesis by blast
  qed
  then have "\<forall>x. sql_get s' k = Some x \<longrightarrow> ob_lastError x \<noteq> Some ''RETURN_INVALID_DEST''" by blast
  note later = Cons.IH [OF inv this] and same = Cons.IH [OF Cons.prems]
  show ?case using later same c by (cases "match r"; cases d) simp_all
qed simp

section \<open>A watcher over its whole life\<close>

text \<open>
  The cursor in the watcher's memory and the shared store: what the watcher's own passes write, up to any
  of their writes (an exception ends a pass there and the loop goes on), a restart at any moment, which
  reads the cursor \<open>n\<close> from the store, and what the other services do to the store in between: any write
  of rows other than the claim of one of the keys of this watcher, and any change of the other tables
  and keys.
\<close>

inductive watcherReach ::
  "(int \<Rightarrow> SqliteStore \<Rightarrow> int \<Rightarrow> SqliteStore \<Rightarrow> bool) \<Rightarrow> string \<Rightarrow> string set \<Rightarrow> int \<Rightarrow> SqliteStore \<Rightarrow>
   int \<Rightarrow> SqliteStore \<Rightarrow> bool"
  for writes n keys c0 s0 where
  watcherStart: "watcherReach writes n keys c0 s0 c0 s0"
| watcherWrites: "watcherReach writes n keys c0 s0 c s \<Longrightarrow> writes c s c' s' \<Longrightarrow> watcherReach writes n keys c0 s0 c' s'"
| watcherRestart: "watcherReach writes n keys c0 s0 c s \<Longrightarrow> sql_getCursor s n = Some p \<Longrightarrow>
    watcherReach writes n keys c0 s0 p s"
| watcherLedger: "watcherReach writes n keys c0 s0 c s \<Longrightarrow> (\<And>i now. op = OpEnqueue i now \<Longrightarrow> ei_id i \<notin> keys) \<Longrightarrow>
    watcherReach writes n keys c0 s0 c (ledgerStep sql_enqueue sql_setStatus sql_setFee s op)"
| watcherRest: "watcherReach writes n keys c0 s0 c s \<Longrightarrow> tb_outbox s' = tb_outbox s \<Longrightarrow>
    sql_getCursor s' n = sql_getCursor s n \<Longrightarrow> watcherReach writes n keys c0 s0 c s'"

text \<open>
  The invariant: the persisted cursor is at most the one in memory, up to that one every event of the
  history has its row, and a row under an event's key is that event's.
\<close>

definition scanSound ::
  "('e \<Rightarrow> string) \<Rightarrow> ('e \<Rightarrow> OutboxRecord \<Rightarrow> bool) \<Rightarrow> ('e \<Rightarrow> int) \<Rightarrow> 'e set \<Rightarrow> string \<Rightarrow> int \<Rightarrow> int \<Rightarrow>
   SqliteStore \<Rightarrow> bool" where
  "scanSound key ev pos hist n c0 c s \<longleftrightarrow> sqlInv s \<and>
     (\<exists>p. sql_getCursor s n = Some p \<and> c0 \<le> p \<and> p \<le> c) \<and>
     (\<forall>e \<in> hist. \<forall>r. sql_get s (key e) = Some r \<longrightarrow> ev e r) \<and>
     (\<forall>e \<in> hist. c0 < pos e \<and> pos e \<le> c \<longrightarrow> sql_get s (key e) \<noteq> None)"

lemma setCursor_frame: "tb_outbox (sql_setCursor n v now s) = tb_outbox s"
  by (simp add: sql_setCursor_def split: option.split)

lemma setCursor_get [simp]:
  "sql_get (sql_setCursor n v now s) = sql_get s" "sqlInv (sql_setCursor n v now s) = sqlInv s"
  using sql_get_outbox [OF setCursor_frame] sqlInv_outbox [OF setCursor_frame] by auto

locale scan_events =
  fixes key :: "'e \<Rightarrow> string" and ev :: "'e \<Rightarrow> OutboxRecord \<Rightarrow> bool" and inputs :: "'e \<Rightarrow> EnqueueInput set"
  assumes input_key: "i \<in> inputs e \<Longrightarrow> ei_id i = key e"
    and input_event: "i \<in> inputs e \<Longrightarrow> ev e (recordOf i now)"
    and event_same: "ev e r \<Longrightarrow> sameEvent r r' \<Longrightarrow> ev e r'"
begin

lemma madeFrom_event:
  assumes "inj_on key hist" "e \<in> hist" "madeFrom (\<Union>e \<in> hist. inputs e) (key e) r"
  shows "ev e r"
proof -
  from assms(3) obtain e' i now where i: "e' \<in> hist" "i \<in> inputs e'" "ei_id i = key e" "sameEvent (recordOf i now) r"
    unfolding madeFrom_def by blast
  have "e' = e" using assms(1,2) i(1,3) input_key [OF i(2)] by (simp add: inj_on_def)
  with event_same [OF input_event [OF i(2)] i(4)] show ?thesis by simp
qed

lemma sound_moved:
  assumes "inj_on key hist" "scanSound key ev pos hist n c0 c s" "keepsRows n (\<Union>e \<in> hist. inputs e) s s'" "c \<le> c'"
    "\<forall>e \<in> hist. c < pos e \<and> pos e \<le> c' \<longrightarrow> sql_get s' (key e) \<noteq> None"
  shows "scanSound key ev pos hist n c0 c' s'"
proof -
  have inv: "sqlInv s" using assms(2) by (simp add: scanSound_def)
  note k = keepsRowsD [OF assms(3) inv]
  have "ev e r" if e: "e \<in> hist" and r: "sql_get s' (key e) = Some r" for e r
  proof (cases "sql_get s (key e)")
    case None
    from madeFrom_event [OF assms(1) e k(4) [OF None r]] show ?thesis .
  next
    case (Some x)
    then have "ev e x" using assms(2) e by (simp add: scanSound_def)
    with k(3) [OF Some] r event_same show ?thesis by auto
  qed
  moreover have "sql_get s' (key e) \<noteq> None" if "e \<in> hist" "c0 < pos e" "pos e \<le> c'" for e
    using assms(2,5) that k(3) [of "key e"] by (cases "c < pos e") (fastforce simp: scanSound_def)+
  moreover have "\<exists>p. sql_getCursor s' n = Some p \<and> c0 \<le> p \<and> p \<le> c'"
    using assms(2,4) k(2) by (auto simp: scanSound_def)
  ultimately show ?thesis using k(1) unfolding scanSound_def by blast
qed

lemma sound_keeps:
  "inj_on key hist \<Longrightarrow> scanSound key ev pos hist n c0 c s \<Longrightarrow> keepsRows n (\<Union>e \<in> hist. inputs e) s s' \<Longrightarrow>
   scanSound key ev pos hist n c0 c s'"
  by (rule sound_moved) auto

lemma sound_persisted:
  assumes "scanSound key ev pos hist n c0 c s"
  shows "scanSound key ev pos hist n c0 c (sql_setCursor n c now s)"
    "sql_getCursor (sql_setCursor n c now s) n = Some c"
proof -
  from assms obtain p where p: "sql_getCursor s n = Some p" "c0 \<le> p" "p \<le> c" by (auto simp: scanSound_def)
  from sqcur.get_setCursor [OF this(1), of c now] p(3)
  show c: "sql_getCursor (sql_setCursor n c now s) n = Some c" by simp
  show "scanSound key ev pos hist n c0 c (sql_setCursor n c now s)"
    using assms p c by (simp add: scanSound_def)
qed

lemma sound_restart:
  "scanSound key ev pos hist n c0 c s \<Longrightarrow> sql_getCursor s n = Some p \<Longrightarrow> scanSound key ev pos hist n c0 p s"
  by (auto simp: scanSound_def)

lemma sound_ledger:
  assumes "cursorName n" "scanSound key ev pos hist n c0 c s" "\<And>i now. op = OpEnqueue i now \<Longrightarrow> ei_id i \<notin> key ` hist"
  shows "scanSound key ev pos hist n c0 c (ledgerStep sql_enqueue sql_setStatus sql_setFee s op)"
proof -
  let ?s = "ledgerStep sql_enqueue sql_setStatus sql_setFee s op"
  have inv: "sqlInv s" using assms(2) by (simp add: scanSound_def)
  have new: "sql_get ?s (key e) = None" if "sql_get s (key e) = None" "e \<in> hist" for e
  proof (cases op)
    case (OpEnqueue i now)
    have "ei_id i \<noteq> key e" using assms(3) [OF OpEnqueue] that(2) by blast
    with OpEnqueue that(1) inv show ?thesis by (simp add: sq.ledger_reads)
  qed (use that inv in \<open>auto simp: sq.ledger_reads\<close>)
  have known: "\<exists>r'. sql_get ?s (key e) = Some r' \<and> sameEvent r r'" if "sql_get s (key e) = Some r" for e r
    by (rule sq.step_sameEvent [OF inv that])
  have "ev e r" if e: "e \<in> hist" and r: "sql_get ?s (key e) = Some r" for e r
  proof (cases "sql_get s (key e)")
    case None
    with new [OF this e] r show ?thesis by simp
  next
    case (Some x)
    then have "ev e x" using assms(2) e by (simp add: scanSound_def)
    with known [OF Some] r event_same show ?thesis by auto
  qed
  moreover have "sql_get ?s (key e) \<noteq> None" if "e \<in> hist" "c0 < pos e" "pos e \<le> c" for e
    using assms(2) that known [of e] by (fastforce simp: scanSound_def)
  ultimately show ?thesis
    using assms(2) sq.step_inv [OF inv] getCursor_ledger [OF assms(1)] unfolding scanSound_def by auto
qed

lemma sound_rest:
  "scanSound key ev pos hist n c0 c s \<Longrightarrow> tb_outbox s' = tb_outbox s \<Longrightarrow> sql_getCursor s' n = sql_getCursor s n \<Longrightarrow>
   scanSound key ev pos hist n c0 c s'"
  using sqlInv_outbox [of s' s] sql_get_outbox [of s' s] by (simp add: scanSound_def)

text \<open>Whatever keeps the invariant in its own writes keeps it over its whole life.\<close>

lemma reach_sound:
  assumes "watcherReach writes n (key ` hist) c0 s0 c s" "cursorName n" "scanSound key ev pos hist n c0 c0 s0"
    "\<And>c s c' s'. scanSound key ev pos hist n c0 c s \<Longrightarrow> writes c s c' s' \<Longrightarrow> scanSound key ev pos hist n c0 c' s'"
  shows "scanSound key ev pos hist n c0 c s"
  using assms(1)
proof (induction rule: watcherReach.induct)
  case watcherStart
  from assms(3) show ?case .
next
  case (watcherWrites c s c' s')
  from assms(4) [OF watcherWrites.IH watcherWrites.hyps(2)] show ?case .
next
  case (watcherRestart c s p)
  from sound_restart [OF watcherRestart.IH watcherRestart.hyps(2)] show ?case .
next
  case (watcherLedger c s op)
  from sound_ledger [OF assms(2) watcherLedger.IH watcherLedger.hyps(2)] show ?case .
next
  case (watcherRest c s s')
  from sound_rest [OF watcherRest.IH watcherRest.hyps(2,3)] show ?case .
qed

end

lemma scanSound_start:
  "sqlInv s0 \<Longrightarrow> sql_getCursor s0 n = Some c0 \<Longrightarrow> \<forall>e \<in> hist. \<forall>r. sql_get s0 (key e) = Some r \<longrightarrow> ev e r \<Longrightarrow>
   scanSound key ev pos hist n c0 c0 s0"
  by (auto simp: scanSound_def)

lemma scanSoundD:
  assumes "scanSound key ev pos hist n c0 c s"
  shows "sqlInv s"
    "\<exists>p. sql_getCursor s n = Some p \<and> c0 \<le> p \<and> p \<le> c \<and>
       (\<forall>e \<in> hist. c0 < pos e \<and> pos e \<le> p \<longrightarrow> (\<exists>r. sql_get s (key e) = Some r \<and> ev e r))"
  using assms unfolding scanSound_def by (simp, metis not_None_eq order_trans)

end
