(* ===== verification/SolanaSign.thy ===== *)
theory SolanaSign
  imports Types
begin

text \<open>
  The Solana mint transaction (\<open>packages/solana-watcher/src/solanaSign.ts\<close>): the instructions
  every operator rebuilds from a proposal, one operator's partial signature, and the assembly of the
  signed transaction. The library \<open>@solana/web3.js\<close> (keys, message bytes, signatures) is the
  record \<open>Web3\<close>; a \<open>PublicKey\<close> is its base-58 string.
\<close>

section \<open>The transaction\<close>

datatype AuthorityType = MintTokens | FreezeAccount | MetadataPointer

datatype SolIx =
    NonceAdvance string string
  | CreateAtaIdempotent string string string string
  | MintTo string string string int "string list"
  | MemoIx string string
  | SetAuthority string string AuthorityType string "string list"

record SolTransaction =
  tx_feePayer :: string
  tx_recentBlockhash :: string
  tx_instructions :: "SolIx list"
  tx_signatures :: "(string \<times> string) list"

record Web3 =
  w3_publicKey :: "string \<Rightarrow> string result"
  w3_ata :: "string \<Rightarrow> string \<Rightarrow> string result"
  w3_messageB64 :: "SolTransaction \<Rightarrow> string result"
  w3_keypair :: "string \<Rightarrow> string result"
  w3_addSignature :: "SolTransaction \<Rightarrow> string \<Rightarrow> string \<Rightarrow> SolTransaction result"
  w3_partialSign :: "SolTransaction \<Rightarrow> string \<Rightarrow> SolTransaction result"
  w3_verifySignatures :: "SolTransaction \<Rightarrow> bool"
  w3_serialize :: "SolTransaction \<Rightarrow> string result"

definition recipientAta :: "Web3 \<Rightarrow> SolanaMintProposal \<Rightarrow> string result" where
  "recipientAta w3 p =
     bindE (w3_publicKey w3 (sp_mint p)) (\<lambda>mint.
     bindE (w3_publicKey w3 (sp_recipient p)) (\<lambda>owner. w3_ata w3 mint owner))"

definition MEMO_PROGRAM_ID_STR :: string where
  "MEMO_PROGRAM_ID_STR = ''Memo1UhkJRfHyvLMcVucJwxXeuD728EqVDDwQDxFMNo''"

definition memoIxs :: "Web3 \<Rightarrow> string option \<Rightarrow> SolIx list result" where
  "memoIxs w3 actionId =
     (case actionId of
        None \<Rightarrow> Inr []
      | Some a \<Rightarrow> if a = [] then Inr []
                  else bindE (w3_publicKey w3 MEMO_PROGRAM_ID_STR) (\<lambda>memoProgram. Inr [MemoIx memoProgram a]))"

definition mintIxs :: "Web3 \<Rightarrow> SolanaMintProposal \<Rightarrow> string \<Rightarrow> SolIx list result" where
  "mintIxs w3 p submitter =
     bindE (w3_publicKey w3 (sp_nonceAccount p)) (\<lambda>nonceAccount.
     bindE (recipientAta w3 p) (\<lambda>ata.
     bindE (mapE (w3_publicKey w3) (sp_signers p)) (\<lambda>multiSigners.
     bindE (w3_publicKey w3 (sp_recipient p)) (\<lambda>recipient.
     bindE (w3_publicKey w3 (sp_mint p)) (\<lambda>mint.
     bindE (w3_publicKey w3 (sp_multisig p)) (\<lambda>multisig.
     bindE (case bigintOf (sp_amountMilliViz p) of
              None \<Rightarrow> Inl (GenericError ''SyntaxError: Cannot convert to a BigInt'') | Some n \<Rightarrow> Inr n) (\<lambda>amount.
       Inr [NonceAdvance nonceAccount submitter, CreateAtaIdempotent submitter ata recipient mint,
            MintTo mint ata multisig amount multiSigners])))))))"

definition buildMintTx :: "Web3 \<Rightarrow> SolanaMintProposal \<Rightarrow> SolTransaction result" where
  "buildMintTx w3 p =
     bindE (w3_publicKey w3 (sp_feePayer p)) (\<lambda>submitter.
     bindE (mintIxs w3 p submitter) (\<lambda>ixs.
     bindE (memoIxs w3 (sp_actionId p)) (\<lambda>memo.
       Inr \<lparr>tx_feePayer = submitter, tx_recentBlockhash = sp_nonceValue p, tx_instructions = ixs @ memo,
            tx_signatures = []\<rparr>)))"

definition mintMessageB64 :: "Web3 \<Rightarrow> SolanaMintProposal \<Rightarrow> string result" where
  "mintMessageB64 w3 p = bindE (buildMintTx w3 p) (w3_messageB64 w3)"

section \<open>Signatures\<close>

definition sol_signMint :: "Web3 \<Rightarrow> SolanaMintProposal \<Rightarrow> string \<Rightarrow> string result" where
  "sol_signMint w3 p secretKey =
     bindE (mintMessageB64 w3 p) (\<lambda>m.
     bindE (throwIf (m \<noteq> sp_messageB64 p) (GenericError ''rebuilt mint message != proposal.messageB64; refusing to sign'')) (\<lambda>_.
     bindE (w3_keypair w3 secretKey) (\<lambda>member.
     bindE (throwIf (member \<notin> set (sp_signers p)) (GenericError ''signer is not in the proposal multisig signer set'')) (\<lambda>_.
     bindE (buildMintTx w3 p) (\<lambda>tx.
     bindE (w3_partialSign w3 tx secretKey) (\<lambda>tx'.
       case map_of (tx_signatures tx') member of
         None \<Rightarrow> Inl (GenericError ''partialSign produced no signature'')
       | Some sig \<Rightarrow> Inr (member @ '':'' @ sig)))))))"

definition addMintAuth :: "Web3 \<Rightarrow> SolanaMintProposal \<Rightarrow> SolTransaction \<Rightarrow> string \<Rightarrow> SolTransaction result" where
  "addMintAuth w3 p tx entry =
     (case indexOf entry (CHR '':'') of
        None \<Rightarrow> Inl (GenericError (''malformed mintAuth entry: '' @ entry))
      | Some idx \<Rightarrow>
          (let pk = take idx entry; sigHex = drop (idx + 1) entry
           in if pk \<notin> set (sp_signers p)
              then Inl (GenericError (''mintAuth signer '' @ pk @ '' not in multisig signer set''))
              else bindE (w3_publicKey w3 pk) (\<lambda>key. w3_addSignature w3 tx key sigHex)))"

fun addMintAuths :: "Web3 \<Rightarrow> SolanaMintProposal \<Rightarrow> string list \<Rightarrow> SolTransaction \<Rightarrow> SolTransaction result" where
  "addMintAuths w3 p [] tx = Inr tx"
| "addMintAuths w3 p (e # es) tx = bindE (addMintAuth w3 p tx e) (addMintAuths w3 p es)"

definition buildSignedMintTx :: "Web3 \<Rightarrow> SolanaMintProposal \<Rightarrow> string list \<Rightarrow> string \<Rightarrow> string result" where
  "buildSignedMintTx w3 p mintAuth submitterSecret =
     bindE (buildMintTx w3 p) (\<lambda>tx.
     bindE (addMintAuths w3 p mintAuth tx) (\<lambda>tx1.
     bindE (w3_keypair w3 submitterSecret) (\<lambda>_.
     bindE (w3_partialSign w3 tx1 submitterSecret) (\<lambda>tx2.
       if \<not> w3_verifySignatures w3 tx2
       then Inl (GenericError ''assembled mint tx failed signature verification'')
       else w3_serialize w3 tx2))))"

section \<open>What the transaction does\<close>

text \<open>The message part of a transaction, without its signatures.\<close>

definition unsigned :: "SolTransaction \<Rightarrow> SolTransaction" where
  "unsigned tx = tx\<lparr>tx_signatures := []\<rparr>"

text \<open>Signing changes the signatures only, and the message bytes fix everything else.\<close>

definition faithfulWeb3 :: "Web3 \<Rightarrow> bool" where
  "faithfulWeb3 w3 \<longleftrightarrow>
     (\<forall>tx tx' m. w3_messageB64 w3 tx = Inr m \<and> w3_messageB64 w3 tx' = Inr m \<longrightarrow> unsigned tx = unsigned tx') \<and>
     (\<forall>tx k sig tx'. w3_addSignature w3 tx k sig = Inr tx' \<longrightarrow> unsigned tx' = unsigned tx) \<and>
     (\<forall>tx secret tx'. w3_partialSign w3 tx secret = Inr tx' \<longrightarrow> unsigned tx' = unsigned tx)"

lemma faithfulWeb3_laws:
  assumes "faithfulWeb3 w3"
  shows "w3_messageB64 w3 tx = Inr m \<Longrightarrow> w3_messageB64 w3 tx' = Inr m \<Longrightarrow> unsigned tx = unsigned tx'"
    and "w3_addSignature w3 tx k sig = Inr tx' \<Longrightarrow> unsigned tx' = unsigned tx"
    and "w3_partialSign w3 tx secret = Inr tx' \<Longrightarrow> unsigned tx' = unsigned tx"
  using assms unfolding faithfulWeb3_def by blast+

text \<open>A mint of \<open>amount\<close> to the token account of \<open>recipient\<close>, tagged with the action.\<close>

definition mintsExactly :: "Web3 \<Rightarrow> SolTransaction \<Rightarrow> string \<Rightarrow> string \<Rightarrow> int \<Rightarrow> string \<Rightarrow> bool" where
  "mintsExactly w3 tx mint recipient amount actionId \<longleftrightarrow>
     (\<exists>mintKey owner ata nonceAccount submitter authority multiSigners memoProgram.
        w3_publicKey w3 mint = Inr mintKey \<and> w3_publicKey w3 recipient = Inr owner \<and> w3_ata w3 mintKey owner = Inr ata \<and>
        tx_instructions tx = [NonceAdvance nonceAccount submitter, CreateAtaIdempotent submitter ata owner mintKey,
          MintTo mintKey ata authority amount multiSigners, MemoIx memoProgram actionId])"

lemma buildMintTx_mints:
  assumes "buildMintTx w3 p = Inr tx" "bigintOf (sp_amountMilliViz p) = Some n" "sp_actionId p = Some a" "a \<noteq> []"
  shows "mintsExactly w3 tx (sp_mint p) (sp_recipient p) n a" "unsigned tx = tx"
  using assms by (auto simp: buildMintTx_def mintIxs_def memoIxs_def recipientAta_def mintsExactly_def err_simps unsigned_def)

lemma mintsExactly_unsigned: "unsigned t = unsigned u \<Longrightarrow> mintsExactly w3 t m r n a = mintsExactly w3 u m r n a"
proof -
  assume "unsigned t = unsigned u"
  then have "tx_instructions (unsigned t) = tx_instructions (unsigned u)" by simp
  then show ?thesis by (simp add: unsigned_def mintsExactly_def)
qed

lemma sol_signMint_ok:
  assumes "sol_signMint w3 p secret = Inr s"
  obtains tx m member sig where "buildMintTx w3 p = Inr tx" "w3_messageB64 w3 tx = Inr m" "m = sp_messageB64 p"
    "w3_keypair w3 secret = Inr member" "member \<in> set (sp_signers p)" "s = member @ '':'' @ sig"
proof -
  from assms obtain m where m: "mintMessageB64 w3 p = Inr m" by (auto simp: sol_signMint_def err_simps)
  then obtain tx where "buildMintTx w3 p = Inr tx" "w3_messageB64 w3 tx = Inr m" by (auto simp: mintMessageB64_def err_simps)
  with assms m that show thesis by (auto simp: sol_signMint_def err_simps split: option.splits)
qed

lemma addMintAuth_ok:
  assumes "faithfulWeb3 w3" "addMintAuth w3 p tx e = Inr tx'"
  shows "unsigned tx' = unsigned tx" "\<exists>pk sig. e = pk @ '':'' @ sig \<and> pk \<in> set (sp_signers p)"
proof -
  obtain idx where i: "indexOf e (CHR '':'') = Some idx" "take idx e \<in> set (sp_signers p)"
    using assms(2) by (auto simp: addMintAuth_def Let_def split: option.splits if_splits)
  then show "unsigned tx' = unsigned tx"
    using assms by (auto simp: addMintAuth_def faithfulWeb3_def err_simps)
  have "e = take idx e @ '':'' @ drop (idx + 1) e"
    using indexOf_Some [OF i(1)] by (metis Cons_eq_appendI append_take_drop_id Cons_nth_drop_Suc Suc_eq_plus1 append_Nil)
  with i(2) show "\<exists>pk sig. e = pk @ '':'' @ sig \<and> pk \<in> set (sp_signers p)" by blast
qed

lemma addMintAuths_ok:
  assumes "faithfulWeb3 w3" "addMintAuths w3 p es tx = Inr tx'"
  shows "unsigned tx' = unsigned tx \<and> (\<forall>e \<in> set es. \<exists>pk sig. e = pk @ '':'' @ sig \<and> pk \<in> set (sp_signers p))"
  using assms(2)
proof (induction es arbitrary: tx)
  case (Cons e es)
  from Cons.prems obtain t where t: "addMintAuth w3 p tx e = Inr t" "addMintAuths w3 p es t = Inr tx'"
    by (auto simp: err_simps)
  from addMintAuth_ok [OF assms(1) t(1)] Cons.IH [OF t(2)] show ?case by simp
qed simp

lemma buildSignedMintTx_ok:
  assumes "buildSignedMintTx w3 p mintAuth secret = Inr raw"
  shows "\<exists>tx t1 t2. buildMintTx w3 p = Inr tx \<and> addMintAuths w3 p mintAuth tx = Inr t1 \<and>
    w3_partialSign w3 t1 secret = Inr t2 \<and> w3_verifySignatures w3 t2 \<and> w3_serialize w3 t2 = Inr raw"
  using assms unfolding buildSignedMintTx_def bindE_eq_Inr by (metis Inl_Inr_False)

text \<open>
  All operators and the coordinator act on one mint. When an operator has signed a proposal and
  the coordinator, holding the same message bytes under possibly other field values, assembles and
  sends a transaction, what is sent mints exactly the amount the operator's copy names, to the token
  account of the recipient it names, tagged with the action it names; the operator is one of the
  members its copy lists, every collected signature names a member of the list, and the library has
  verified all signatures.
\<close>

lemma signed_mint_is_submitted_mint:
  assumes "faithfulWeb3 w3" "sol_signMint w3 p secret = Inr s"
    "sp_messageB64 q = sp_messageB64 p" "mintMessageB64 w3 q = Inr (sp_messageB64 q)"
    "buildSignedMintTx w3 q mintAuth submitterSecret = Inr raw"
    "bigintOf (sp_amountMilliViz p) = Some n" "sp_actionId p = Some a" "a \<noteq> []"
  shows "\<exists>tx. w3_serialize w3 tx = Inr raw \<and> w3_verifySignatures w3 tx \<and>
    mintsExactly w3 tx (sp_mint p) (sp_recipient p) n a \<and>
    (\<exists>member sig. w3_keypair w3 secret = Inr member \<and> member \<in> set (sp_signers p) \<and> s = member @ '':'' @ sig) \<and>
    (\<forall>e \<in> set mintAuth. \<exists>pk sig. e = pk @ '':'' @ sig \<and> pk \<in> set (sp_signers q))"
proof -
  obtain tx m member sig where p: "buildMintTx w3 p = Inr tx" "w3_messageB64 w3 tx = Inr m" "m = sp_messageB64 p"
    "w3_keypair w3 secret = Inr member" "member \<in> set (sp_signers p)" "s = member @ '':'' @ sig"
    by (rule sol_signMint_ok [OF assms(2)])
  obtain tq t1 t2 where q: "buildMintTx w3 q = Inr tq" "addMintAuths w3 q mintAuth tq = Inr t1"
    "w3_partialSign w3 t1 submitterSecret = Inr t2" "w3_verifySignatures w3 t2" "w3_serialize w3 t2 = Inr raw"
    using buildSignedMintTx_ok [OF assms(5)] by (elim exE conjE)
  have "w3_messageB64 w3 tq = Inr m" using assms(3,4) q(1) p(3) by (simp add: mintMessageB64_def)
  then have "unsigned tq = unsigned tx" using faithfulWeb3_laws(1) [OF assms(1)] p(2) by blast
  moreover note auth = addMintAuths_ok [OF assms(1) q(2)]
  moreover have "unsigned t2 = unsigned t1" by (rule faithfulWeb3_laws(3) [OF assms(1) q(3)])
  ultimately have "mintsExactly w3 t2 (sp_mint p) (sp_recipient p) n a"
    using buildMintTx_mints(1) [OF p(1) assms(6-8)] mintsExactly_unsigned [of t2 tx] by simp
  moreover have "\<exists>member sig. w3_keypair w3 secret = Inr member \<and> member \<in> set (sp_signers p) \<and> s = member @ '':'' @ sig"
    using p(4-6) by blast
  ultimately show ?thesis using q(4,5) conjunct2 [OF auth] by (intro exI [of _ t2] conjI)
qed

text \<open>A library that knows the keys of two members and the message of one transaction.\<close>

definition sol_proposal_example :: SolanaMintProposal where
  "sol_proposal_example = \<lparr>sp_recipient = ''R'', sp_amountMilliViz = ''900'', sp_destProvisioned = True, sp_mint = ''M'',
     sp_multisig = ''S'', sp_signers = [''A'', ''B''], sp_feePayer = ''F'', sp_nonceAccount = ''N'', sp_nonceValue = ''n'',
     sp_decimals = 3, sp_messageB64 = ''bytes'', sp_actionId = Some ''ab01:3''\<rparr>"

definition sol_tx_example :: SolTransaction where
  "sol_tx_example = \<lparr>tx_feePayer = ''F'', tx_recentBlockhash = ''n'',
     tx_instructions = [NonceAdvance ''N'' ''F'', CreateAtaIdempotent ''F'' ''MR'' ''R'' ''M'',
       MintTo ''M'' ''MR'' ''S'' 900 [''A'', ''B''], MemoIx MEMO_PROGRAM_ID_STR ''ab01:3''], tx_signatures = []\<rparr>"

definition web3_example :: Web3 where
  "web3_example = \<lparr>w3_publicKey = Inr, w3_ata = (\<lambda>m r. Inr (m @ r)),
     w3_messageB64 = (\<lambda>tx. if unsigned tx = sol_tx_example then Inr ''bytes'' else Inl (GenericError ''unknown'')),
     w3_keypair = (\<lambda>s. Inr (tl s)),
     w3_addSignature = (\<lambda>tx k sig. Inr (tx\<lparr>tx_signatures := tx_signatures tx @ [(k, sig)]\<rparr>)),
     w3_partialSign = (\<lambda>tx s. Inr (tx\<lparr>tx_signatures := tx_signatures tx @ [(tl s, s)]\<rparr>)),
     w3_verifySignatures = (\<lambda>tx. map fst (tx_signatures tx) = [''A'', ''B'', ''F'']),
     w3_serialize = (\<lambda>tx. Inr (concat (map snd (tx_signatures tx))))\<rparr>"

lemma faithful_example: "faithfulWeb3 web3_example"
  by (auto simp: faithfulWeb3_def web3_example_def unsigned_def split: if_splits)

lemma bigint_900: "bigintOf ''900'' = Some 900"
  by code_simp

lemma web3_example_simps:
  "w3_keypair web3_example secret = Inr (tl secret)" "w3_publicKey web3_example = Inr"
  "w3_addSignature web3_example tx k sig = Inr (tx\<lparr>tx_signatures := tx_signatures tx @ [(k, sig)]\<rparr>)"
  "w3_partialSign web3_example tx secret = Inr (tx\<lparr>tx_signatures := tx_signatures tx @ [(tl secret, secret)]\<rparr>)"
  "w3_verifySignatures web3_example tx \<longleftrightarrow> map fst (tx_signatures tx) = [''A'', ''B'', ''F'']"
  "w3_serialize web3_example tx = Inr (concat (map snd (tx_signatures tx)))"
  "sp_signers sol_proposal_example = [''A'', ''B'']" "sp_messageB64 sol_proposal_example = ''bytes''"
  "sp_amountMilliViz sol_proposal_example = ''900''" "sp_actionId sol_proposal_example = Some ''ab01:3''"
  "tx_signatures sol_tx_example = []"
  by (simp_all add: web3_example_def sol_proposal_example_def sol_tx_example_def)

lemma buildMintTx_example: "buildMintTx web3_example sol_proposal_example = Inr sol_tx_example"
  by (simp add: buildMintTx_def mintIxs_def memoIxs_def recipientAta_def sol_proposal_example_def web3_example_def sol_tx_example_def
      bigint_900)

end
