(* ===== verification/SolanaChain.thy ===== *)
theory SolanaChain
  imports Canonical SolanaSign "HOL-Library.List_Lexorder"
begin

text \<open>
  The Solana adapter (\<open>packages/solana-watcher/src/solanaChain.ts\<close>): the parsers of the
  transactions an RPC node serves in parsed form, the peg-out scan over the gateway token account,
  the scan of one deposit account with the signer's re-read of one transfer, and the reads and
  writes of the mint path. The node is a record of functions that may throw; the delay between two
  reads is not modelled. Amounts go through \<open>BigInt\<close>, slots are \<open>nat\<close>.
\<close>

section \<open>Parsed transactions\<close>

record TokenInfo =
  ti_mint :: "string option"
  ti_destination :: "string option"
  ti_source :: "string option"
  ti_authority :: "string option"
  ti_tokenAmount :: "string option"
  ti_amount :: "string option"

text \<open>\<open>parsed\<close>: absent, a string (a memo), or an object with \<open>type\<close> and \<open>info\<close>.\<close>

datatype ParsedIx = NotParsed | ParsedText string | ParsedObject "string option" "TokenInfo option"

record SolInstruction =
  ix_program :: "string option"
  ix_programId :: "string option"
  ix_parsed :: ParsedIx

record SolTx =
  st_slot :: nat
  st_failed :: bool
  st_instructions :: "SolInstruction list"
  st_inner :: "SolInstruction list list"

definition allIxs :: "SolTx \<Rightarrow> SolInstruction list" where
  "allIxs tx = st_instructions tx @ concat (st_inner tx)"

definition MEMO_PROGRAM_ID :: string where
  "MEMO_PROGRAM_ID = ''MemoSq4gq4PtfDg1xv9JaY9Cz9c6Tn3ANk6tDsj4hf''"

definition MEMO_V1_PROGRAM_ID :: string where
  "MEMO_V1_PROGRAM_ID = ''Memo1UhkJRfHyvLMcVucJwxXeuD728EqVDDwQDxFMNo''"

text \<open>\<open>String(parsed)\<close> of a value that is there.\<close>

fun parsedString :: "ParsedIx \<Rightarrow> string option" where
  "parsedString NotParsed = None"
| "parsedString (ParsedText t) = Some t"
| "parsedString (ParsedObject _ _) = Some ''[object Object]''"

definition isTokenIx :: "SolInstruction \<Rightarrow> bool" where
  "isTokenIx ix \<longleftrightarrow> ix_program ix = Some ''spl-token'' \<or> ix_program ix = Some ''spl-token-2022''"

definition tokenAmountOf :: "TokenInfo \<Rightarrow> string option" where
  "tokenAmountOf info = (case ti_tokenAmount info of Some a \<Rightarrow> Some a | None \<Rightarrow> ti_amount info)"

definition bigIntE :: "string \<Rightarrow> int result" where
  "bigIntE s = (case bigintOf s of None \<Rightarrow> Inl (GenericError ''SyntaxError: Cannot convert to a BigInt'') | Some n \<Rightarrow> Inr n)"

section \<open>The parsers\<close>

record GatewayDeposit =
  gd_from :: string
  gd_amountBaseUnits :: int
  gd_memo :: string

definition transferInto :: "string \<Rightarrow> SolInstruction \<Rightarrow> TokenInfo option" where
  "transferInto acct ix =
     (if \<not> isTokenIx ix then None
      else (case ix_parsed ix of
          ParsedObject ty (Some info) \<Rightarrow>
            if (ty = Some ''transfer'' \<or> ty = Some ''transferChecked'') \<and> ti_destination info = Some acct
            then Some info else None
        | _ \<Rightarrow> None))"

definition transferFrom :: "TokenInfo \<Rightarrow> string" where
  "transferFrom info = (case ti_authority info of Some a \<Rightarrow> a
     | None \<Rightarrow> (case ti_source info of Some src \<Rightarrow> src | None \<Rightarrow> []))"

definition isMemoIx :: "SolInstruction \<Rightarrow> bool" where
  "isMemoIx ix \<longleftrightarrow> ix_program ix = Some ''spl-memo'' \<or> ix_programId ix = Some MEMO_PROGRAM_ID"

fun depositLoop :: "string \<Rightarrow> SolInstruction list \<Rightarrow> int option \<times> string \<times> string \<Rightarrow> (int option \<times> string \<times> string) result" where
  "depositLoop acct [] st = Inr st"
| "depositLoop acct (ix # ixs) (amount, from', memo) =
     (if isMemoIx ix
      then depositLoop acct ixs (amount, from', case parsedString (ix_parsed ix) of None \<Rightarrow> [] | Some t \<Rightarrow> t)
      else (case transferInto acct ix of
          None \<Rightarrow> depositLoop acct ixs (amount, from', memo)
        | Some info \<Rightarrow>
            bindE (case tokenAmountOf info of
                None \<Rightarrow> Inr amount
              | Some amt \<Rightarrow> if amt = [] then Inr amount else bindE (bigIntE amt) (\<lambda>n. Inr (Some n)))
              (\<lambda>amount'. depositLoop acct ixs (amount', transferFrom info, memo))))"

definition parseGatewayDeposit :: "SolTx \<Rightarrow> string \<Rightarrow> GatewayDeposit option result" where
  "parseGatewayDeposit tx acct =
     bindE (depositLoop acct (allIxs tx) (None, [], [])) (\<lambda>(amount, from', memo).
       Inr (case amount of None \<Rightarrow> None
            | Some n \<Rightarrow> Some \<lparr>gd_from = from', gd_amountBaseUnits = n, gd_memo = memo\<rparr>))"

definition burnOf :: "string \<Rightarrow> SolInstruction \<Rightarrow> (string \<times> string) option" where
  "burnOf mint ix =
     (if \<not> isTokenIx ix then None
      else (case ix_parsed ix of
          ParsedObject ty (Some info) \<Rightarrow>
            if (ty = Some ''burn'' \<or> ty = Some ''burnChecked'') \<and> ti_mint info = Some mint
            then (case tokenAmountOf info of
                None \<Rightarrow> None
              | Some amt \<Rightarrow> if amt = [] then None
                  else Some (case ti_authority info of None \<Rightarrow> [] | Some a \<Rightarrow> a, amt))
            else None
        | _ \<Rightarrow> None))"

definition parseBurn :: "SolTx \<Rightarrow> string \<Rightarrow> (string \<times> int) option result" where
  "parseBurn tx mint =
     (case List.map_filter (burnOf mint) (allIxs tx) of
        [] \<Rightarrow> Inr None
      | (authority, amt) # _ \<Rightarrow> bindE (bigIntE amt) (\<lambda>n. Inr (Some (authority, n))))"

definition isMintMemo :: "SolInstruction \<Rightarrow> bool" where
  "isMintMemo ix \<longleftrightarrow> isMemoIx ix \<or> ix_programId ix = Some MEMO_V1_PROGRAM_ID"

definition parseMemoFromTx :: "SolTx \<Rightarrow> string option" where
  "parseMemoFromTx tx = (case List.find isMintMemo (allIxs tx) of None \<Rightarrow> None | Some ix \<Rightarrow> parsedString (ix_parsed ix))"

section \<open>The scan\<close>

record ScanSig =
  ss_signature :: string
  ss_slot :: nat
  ss_failed :: bool

fun scanSigs ::
  "nat \<Rightarrow> int \<Rightarrow> (string \<Rightarrow> nat \<Rightarrow> RemoteBurn option result) \<Rightarrow> ScanSig list \<Rightarrow> RemoteBurn list \<times> nat \<times> bool \<Rightarrow>
   (RemoteBurn list \<times> nat \<times> bool \<times> bool) result" where
  "scanSigs fromSlot safeSlot toBurn [] (burns, newest, fresh) = Inr (burns, newest, fresh, False)"
| "scanSigs fromSlot safeSlot toBurn (s # ss) (burns, newest, fresh) =
     (if ss_slot s \<le> fromSlot then Inr (burns, newest, fresh, True)
      else if ss_failed s then scanSigs fromSlot safeSlot toBurn ss (burns, newest, True)
      else if int (ss_slot s) \<le> safeSlot
      then bindE (toBurn (ss_signature s) (ss_slot s)) (\<lambda>b.
             scanSigs fromSlot safeSlot toBurn ss
               (case b of None \<Rightarrow> burns | Some x \<Rightarrow> burns @ [x], if ss_slot s > newest then ss_slot s else newest, True))
      else scanSigs fromSlot safeSlot toBurn ss (burns, newest, True))"

text \<open>The loop over pages; the first argument is how many may still be fetched.\<close>

fun slotLoop ::
  "nat \<Rightarrow> nat \<Rightarrow> int \<Rightarrow> nat \<Rightarrow> (string option \<Rightarrow> ScanSig list result) \<Rightarrow> (string \<Rightarrow> nat \<Rightarrow> RemoteBurn option result) \<Rightarrow>
   string option \<Rightarrow> RemoteBurn list \<times> nat \<Rightarrow> (RemoteBurn list \<times> nat \<times> bool) result" where
  "slotLoop 0 fromSlot safeSlot limit fetchPage toBurn before (burns, newest) = Inr (burns, newest, False)"
| "slotLoop (Suc pages) fromSlot safeSlot limit fetchPage toBurn before (burns, newest) =
     bindE (fetchPage before) (\<lambda>page.
       if page = [] then Inr (burns, newest, True)
       else bindE (scanSigs fromSlot safeSlot toBurn page (burns, newest, False)) (\<lambda>(burns', newest', sawFresh, drained).
            if drained then Inr (burns', newest', True)
            else if \<not> sawFresh \<or> length page < limit then Inr (burns', newest', True)
            else slotLoop pages fromSlot safeSlot limit fetchPage toBurn (Some (ss_signature (last page))) (burns', newest')))"

definition paginateBurnsBySlot ::
  "nat \<Rightarrow> int \<Rightarrow> nat \<Rightarrow> nat \<Rightarrow> (string option \<Rightarrow> ScanSig list result) \<Rightarrow> (string \<Rightarrow> nat \<Rightarrow> RemoteBurn option result) \<Rightarrow>
   (RemoteBurn list \<times> nat \<times> bool) result" where
  "paginateBurnsBySlot fromSlot safeSlot limit maxScanPages fetchPage toBurn =
     slotLoop maxScanPages fromSlot safeSlot limit fetchPage toBurn None ([], fromSlot)"

section \<open>The adapter\<close>

record SolWriter =
  wr_multisig :: string
  wr_nonceAccount :: string
  wr_submitterSecret :: string

record SolanaConfig =
  sc_mint :: string
  sc_gatewayTokenAccount :: "string option"
  sc_finalitySlots :: nat
  sc_maxSignatures :: nat
  sc_maxScanPages :: nat
  sc_writer :: "SolWriter option"

definition solanaConfig ::
  "string \<Rightarrow> string \<Rightarrow> int \<Rightarrow> SolWriter option \<Rightarrow> int option \<Rightarrow> int option \<Rightarrow> SolanaConfig" where
  "solanaConfig mint gatewayTokenAccount finalitySlots writer maxSignatures maxScanPages =
     \<lparr>sc_mint = mint, sc_gatewayTokenAccount = (if gatewayTokenAccount = [] then None else Some gatewayTokenAccount),
      sc_finalitySlots = nat (max 0 finalitySlots),
      sc_maxSignatures = nat (max 1 (case maxSignatures of None \<Rightarrow> 25 | Some n \<Rightarrow> n)),
      sc_maxScanPages = nat (max 1 (case maxScanPages of None \<Rightarrow> 50 | Some n \<Rightarrow> n)), sc_writer = writer\<rparr>"

text \<open>A signature's status: the JSON of its error, and its commitment.\<close>

record SigStatus =
  gs_err :: "string option"
  gs_confirmation :: "string option"

record SolReads =
  sr_finalizedSlot :: "nat result"
  sr_signatures :: "string \<Rightarrow> string option \<Rightarrow> nat \<Rightarrow> ScanSig list result"
  sr_transaction :: "string \<Rightarrow> SolTx option result"
  sr_status :: "string \<Rightarrow> SigStatus option result"
  sr_supply :: "string \<Rightarrow> string result"
  sr_accountData :: "string \<Rightarrow> nat option result"
  sr_nonce :: "string \<Rightarrow> string option result"

definition sol_circulatingSupply :: "SolanaConfig \<Rightarrow> SolReads \<Rightarrow> int result" where
  "sol_circulatingSupply cfg rd = bindE (sr_supply rd (sc_mint cfg)) bigIntE"

definition sol_isDestinationProvisioned :: "SolanaConfig \<Rightarrow> Web3 \<Rightarrow> SolReads \<Rightarrow> string \<Rightarrow> bool result" where
  "sol_isDestinationProvisioned cfg w3 rd recipient =
     bindE (w3_publicKey w3 recipient) (\<lambda>owner.
     bindE (w3_ata w3 (sc_mint cfg) owner) (\<lambda>ata.
     bindE (sr_accountData rd ata) (\<lambda>info. Inr (case info of None \<Rightarrow> False | Some len \<Rightarrow> len > 0))))"

definition solToBurn :: "SolReads \<Rightarrow> string \<Rightarrow> string \<Rightarrow> nat \<Rightarrow> RemoteBurn option result" where
  "solToBurn rd acct sig slot =
     bindE (sr_transaction rd sig) (\<lambda>tx. case tx of
         None \<Rightarrow> Inr None
       | Some t \<Rightarrow> bindE (parseGatewayDeposit t acct) (\<lambda>parsed. Inr (case parsed of
             None \<Rightarrow> None
           | Some d \<Rightarrow> Some \<lparr>burn_chain = SOLANA, burn_sourceId = sig, burn_height = slot, burn_from = gd_from d,
               burn_amountMilliViz = gd_amountBaseUnits d, burn_homeDestination = trim (gd_memo d)\<rparr>)))"

definition sol_finalizedBurnsPaginated :: "SolanaConfig \<Rightarrow> SolReads \<Rightarrow> nat \<Rightarrow> (RemoteBurn list \<times> nat \<times> bool) result" where
  "sol_finalizedBurnsPaginated cfg rd fromSlot =
     (case sc_gatewayTokenAccount cfg of
        None \<Rightarrow> Inr ([], fromSlot, True)
      | Some acct \<Rightarrow>
          bindE (sr_finalizedSlot rd) (\<lambda>height.
            paginateBurnsBySlot fromSlot (int height - int (sc_finalitySlots cfg)) (sc_maxSignatures cfg) (sc_maxScanPages cfg)
              (\<lambda>before. sr_signatures rd acct before (sc_maxSignatures cfg)) (solToBurn rd acct)))"

text \<open>The finality test the two re-reads share.\<close>

definition sol_isFinal :: "SolanaConfig \<Rightarrow> SolReads \<Rightarrow> SolTx \<Rightarrow> bool result" where
  "sol_isFinal cfg rd tx =
     (if sc_finalitySlots cfg > 0
      then bindE (sr_finalizedSlot rd) (\<lambda>height. Inr (int (st_slot tx) \<le> int height - int (sc_finalitySlots cfg)))
      else Inr True)"

definition sol_getBurn :: "SolanaConfig \<Rightarrow> SolReads \<Rightarrow> string \<Rightarrow> RemoteBurn option result" where
  "sol_getBurn cfg rd sourceId =
     bindE (sr_transaction rd sourceId) (\<lambda>tx. case tx of
         None \<Rightarrow> Inr None
       | Some t \<Rightarrow> if st_failed t then Inr None
           else bindE (sol_isFinal cfg rd t) (\<lambda>final.
             if \<not> final then Inr None
             else bindE (parseBurn t (sc_mint cfg)) (\<lambda>burn. Inr (case burn of
                 None \<Rightarrow> None
               | Some (authority, n) \<Rightarrow> Some \<lparr>burn_chain = SOLANA, burn_sourceId = sourceId, burn_height = st_slot t,
                   burn_from = authority, burn_amountMilliViz = n, burn_homeDestination = []\<rparr>))))"

definition sol_getDepositTransfer :: "SolanaConfig \<Rightarrow> SolReads \<Rightarrow> string \<Rightarrow> string \<Rightarrow> (nat \<times> int) option result" where
  "sol_getDepositTransfer cfg rd sourceId ata =
     bindE (sr_transaction rd sourceId) (\<lambda>tx. case tx of
         None \<Rightarrow> Inr None
       | Some t \<Rightarrow> if st_failed t then Inr None
           else bindE (sol_isFinal cfg rd t) (\<lambda>final.
             if \<not> final then Inr None
             else bindE (parseGatewayDeposit t ata) (\<lambda>parsed. Inr (case parsed of
                 None \<Rightarrow> None
               | Some d \<Rightarrow> Some (st_slot t, gd_amountBaseUnits d)))))"

record IncomingTransfer =
  it_signature :: string
  it_slot :: nat
  it_amountBaseUnits :: int

fun incomingLoop :: "SolReads \<Rightarrow> string \<Rightarrow> int \<Rightarrow> ScanSig list \<Rightarrow> IncomingTransfer list result" where
  "incomingLoop rd ata safeSlot [] = Inr []"
| "incomingLoop rd ata safeSlot (s # ss) =
     (if ss_failed s \<or> int (ss_slot s) > safeSlot then incomingLoop rd ata safeSlot ss
      else bindE (sr_transaction rd (ss_signature s)) (\<lambda>tx. case tx of
          None \<Rightarrow> incomingLoop rd ata safeSlot ss
        | Some t \<Rightarrow> bindE (parseGatewayDeposit t ata) (\<lambda>parsed. case parsed of
              None \<Rightarrow> incomingLoop rd ata safeSlot ss
            | Some d \<Rightarrow> bindE (incomingLoop rd ata safeSlot ss) (\<lambda>out.
                Inr (\<lparr>it_signature = ss_signature s, it_slot = ss_slot s, it_amountBaseUnits = gd_amountBaseUnits d\<rparr> # out)))))"

definition incomingTransfersTo :: "SolanaConfig \<Rightarrow> SolReads \<Rightarrow> string \<Rightarrow> nat \<Rightarrow> IncomingTransfer list result" where
  "incomingTransfersTo cfg rd ata toSlot =
     bindE (sr_signatures rd ata None (sc_maxSignatures cfg))
       (incomingLoop rd ata (int toSlot - int (sc_finalitySlots cfg)))"

definition landedStatus :: "SigStatus \<Rightarrow> bool" where
  "landedStatus v \<longleftrightarrow> gs_confirmation v = Some ''confirmed'' \<or> gs_confirmation v = Some ''finalized''"

definition signatureLanded :: "SolReads \<Rightarrow> string \<Rightarrow> bool result" where
  "signatureLanded rd sig =
     bindE (sr_status rd sig) (\<lambda>value. Inr (case value of None \<Rightarrow> False
       | Some v \<Rightarrow> if gs_err v \<noteq> None then False else landedStatus v))"

text \<open>\<open>status i\<close> is the answer to the \<open>i\<close>-th poll of the signature.\<close>

fun confirmSignature :: "(nat \<Rightarrow> SigStatus option result) \<Rightarrow> nat \<Rightarrow> nat \<Rightarrow> unit result" where
  "confirmSignature status i 0 = Inr ()"
| "confirmSignature status i (Suc left) =
     bindE (status i) (\<lambda>value. case value of
         None \<Rightarrow> confirmSignature status (Suc i) left
       | Some v \<Rightarrow>
           (case gs_err v of
              Some e \<Rightarrow> Inl (GenericError (''mint tx failed on-chain: '' @ e))
            | None \<Rightarrow> if landedStatus v then Inr () else confirmSignature status (Suc i) left))"

definition CONFIRM_ATTEMPTS :: nat where "CONFIRM_ATTEMPTS = 30"

definition submitMint ::
  "SolanaConfig \<Rightarrow> Web3 \<Rightarrow> (string \<Rightarrow> string result) \<Rightarrow> (string \<Rightarrow> nat \<Rightarrow> SigStatus option result) \<Rightarrow> SolanaMintProposal \<Rightarrow>
   string list \<Rightarrow> string result" where
  "submitMint cfg w3 sendRaw status proposal mintAuth =
     (case sc_writer cfg of
        None \<Rightarrow> Inl (GenericError ''SolanaChain has no writer config; cannot submit a mint'')
      | Some writer \<Rightarrow>
          if sp_signers proposal = [] then Inl (GenericError ''proposal has no signers'')
          else if length mintAuth < length (sp_signers proposal)
          then Inl (GenericError (''mintAuth has '' @ decNat (length mintAuth) @ '' signatures; proposal requires all '' @
                 decNat (length (sp_signers proposal))))
          else bindE (buildSignedMintTx w3 proposal mintAuth (wr_submitterSecret writer)) (\<lambda>raw.
               bindE (sendRaw raw) (\<lambda>sig.
               bindE (confirmSignature (status sig) 0 CONFIRM_ATTEMPTS) (\<lambda>_. Inr sig))))"

text \<open>\<open>sort()\<close> of strings compares their code units.\<close>

definition codeUnits :: "string \<Rightarrow> nat list" where
  "codeUnits s = map of_char s"

definition sol_buildMintProposal ::
  "SolanaConfig \<Rightarrow> Web3 \<Rightarrow> SolReads \<Rightarrow> string \<Rightarrow> int \<Rightarrow> bool \<Rightarrow> string list \<Rightarrow> string option \<Rightarrow> SolanaMintProposal result" where
  "sol_buildMintProposal cfg w3 rd recipient netMilliViz destProvisioned signerSet actionId =
     (case sc_writer cfg of
        None \<Rightarrow> Inl (GenericError ''SolanaChain has no writer config; cannot build a mint proposal'')
      | Some writer \<Rightarrow>
          bindE (sr_nonce rd (wr_nonceAccount writer)) (\<lambda>nonce. case nonce of
              None \<Rightarrow> Inl (GenericError (''nonce account '' @ wr_nonceAccount writer @ '' not found''))
            | Some nonceValue \<Rightarrow>
                bindE (w3_keypair w3 (wr_submitterSecret writer)) (\<lambda>feePayer.
                  let proposal = \<lparr>sp_recipient = recipient, sp_amountMilliViz = decInt netMilliViz,
                        sp_destProvisioned = destProvisioned, sp_mint = sc_mint cfg, sp_multisig = wr_multisig writer,
                        sp_signers = sort_key codeUnits signerSet, sp_feePayer = feePayer,
                        sp_nonceAccount = wr_nonceAccount writer, sp_nonceValue = nonceValue, sp_decimals = 3,
                        sp_messageB64 = [], sp_actionId = actionId\<rparr>
                  in bindE (mintMessageB64 w3 proposal) (\<lambda>m. Inr (proposal\<lparr>sp_messageB64 := m\<rparr>)))))"

fun memoLoop :: "SolReads \<Rightarrow> string \<Rightarrow> ScanSig list \<Rightarrow> string option result" where
  "memoLoop rd actionId [] = Inr None"
| "memoLoop rd actionId (s # ss) =
     (if ss_failed s then memoLoop rd actionId ss
      else bindE (sr_transaction rd (ss_signature s)) (\<lambda>tx. case tx of
          None \<Rightarrow> memoLoop rd actionId ss
        | Some t \<Rightarrow> if parseMemoFromTx t = Some actionId then Inr (Some (ss_signature s)) else memoLoop rd actionId ss))"

definition mintByActionId :: "SolanaConfig \<Rightarrow> SolReads \<Rightarrow> string \<Rightarrow> string option result" where
  "mintByActionId cfg rd actionId = bindE (sr_signatures rd (sc_mint cfg) None 100) (memoLoop rd actionId)"

section \<open>What the parser takes from a transaction\<close>

text \<open>The amounts of the token transfers into an account, in the order of the instructions.\<close>

definition transferAmounts :: "string \<Rightarrow> SolTx \<Rightarrow> string list" where
  "transferAmounts acct tx =
     filter (\<lambda>a. a \<noteq> []) (List.map_filter tokenAmountOf (List.map_filter (transferInto acct)
       (filter (\<lambda>ix. \<not> isMemoIx ix) (allIxs tx))))"

definition lastAmount :: "int option \<Rightarrow> string list \<Rightarrow> int option" where
  "lastAmount amount as = (if as = [] then amount else bigintOf (last as))"

lemma bigIntE_eq [err_simps]: "bigIntE s = Inr n \<longleftrightarrow> bigintOf s = Some n"
  by (simp add: bigIntE_def split: option.split)

lemma depositLoop_amount:
  assumes "depositLoop acct ixs (amount, f, m) = Inr (amount', f', m')"
  shows "amount' = lastAmount amount (filter (\<lambda>a. a \<noteq> []) (List.map_filter tokenAmountOf
    (List.map_filter (transferInto acct) (filter (\<lambda>ix. \<not> isMemoIx ix) ixs))))"
  using assms
proof (induction acct ixs "(amount, f, m)" arbitrary: amount f m rule: depositLoop.induct)
  case (2 acct ix ixs amount f m)
  show ?case
  proof (cases "isMemoIx ix")
    case True
    with 2 show ?thesis by simp
  next
    case notMemo: False
    show ?thesis
    proof (cases "transferInto acct ix")
      case None
      with notMemo 2 show ?thesis by (simp add: List.map_filter_simps)
    next
      case (Some info)
      with notMemo "2.prems" obtain a where a: "depositLoop acct ixs (a, transferFrom info, m) = Inr (amount', f', m')"
        "(case tokenAmountOf info of None \<Rightarrow> Inr amount
          | Some amt \<Rightarrow> if amt = [] then Inr amount else bindE (bigIntE amt) (\<lambda>n. Inr (Some n))) = Inr a"
        by (auto simp: bindE_eq_Inr)
      from "2.hyps"(3) [OF notMemo Some a(1)] a(2) notMemo Some show ?thesis
        by (auto simp: List.map_filter_simps lastAmount_def err_simps split: option.splits if_splits)
    qed
  qed
qed (simp add: lastAmount_def List.map_filter_simps)

text \<open>
  One transaction stands for one deposit: the amount is that of its last transfer into the account,
  and the transfers before it are not counted.
\<close>

lemma deposit_amount_is_last_transfer:
  assumes "parseGatewayDeposit tx acct = Inr r"
  shows "map_option gd_amountBaseUnits r = lastAmount None (transferAmounts acct tx)"
  using assms depositLoop_amount by (fastforce simp: parseGatewayDeposit_def err_simps transferAmounts_def split: option.splits)

section \<open>The scan as one fold\<close>

definition finalSig :: "int \<Rightarrow> ScanSig \<Rightarrow> bool" where
  "finalSig safeSlot s \<longleftrightarrow> \<not> ss_failed s \<and> int (ss_slot s) \<le> safeSlot"

fun foldSigs ::
  "int \<Rightarrow> (string \<Rightarrow> nat \<Rightarrow> RemoteBurn option result) \<Rightarrow> ScanSig list \<Rightarrow> RemoteBurn list \<times> nat \<Rightarrow> (RemoteBurn list \<times> nat) result" where
  "foldSigs safeSlot toBurn [] st = Inr st"
| "foldSigs safeSlot toBurn (s # ss) (burns, newest) =
     (if finalSig safeSlot s
      then bindE (toBurn (ss_signature s) (ss_slot s)) (\<lambda>b. foldSigs safeSlot toBurn ss
             (case b of None \<Rightarrow> burns | Some x \<Rightarrow> burns @ [x], max newest (ss_slot s)))
      else foldSigs safeSlot toBurn ss (burns, newest))"

lemma foldSigs_append:
  "foldSigs safeSlot toBurn (xs @ ys) st = bindE (foldSigs safeSlot toBurn xs st) (foldSigs safeSlot toBurn ys)"
proof (induction xs arbitrary: st)
  case (Cons s xs)
  then show ?case by (cases st; cases "toBurn (ss_signature s) (ss_slot s)") simp_all
qed simp

lemma scanSigs_fold:
  "scanSigs fromSlot safeSlot toBurn page (burns, newest, fresh) =
    bindE (foldSigs safeSlot toBurn (takeWhile (\<lambda>s. fromSlot < ss_slot s) page) (burns, newest))
      (\<lambda>(burns', newest'). Inr (burns', newest', fresh \<or> takeWhile (\<lambda>s. fromSlot < ss_slot s) page \<noteq> [],
         takeWhile (\<lambda>s. fromSlot < ss_slot s) page \<noteq> page))"
proof (induction page arbitrary: burns newest fresh)
  case (Cons s page)
  show ?case
  proof (cases "fromSlot < ss_slot s")
    case True
    then have "\<not> ss_slot s \<le> fromSlot" "max newest (ss_slot s) = (if ss_slot s > newest then ss_slot s else newest)" by auto
    with True Cons.IH show ?thesis
      by (cases "toBurn (ss_signature s) (ss_slot s)") (simp_all add: finalSig_def)
  qed simp
qed simp

text \<open>
  The signatures of an account as a node lists them: newest slot first, each signature once, a page
  being the next \<open>limit\<close> after the one named by \<open>before\<close>.
\<close>

definition sigHistory :: "ScanSig list \<Rightarrow> bool" where
  "sigHistory hist \<longleftrightarrow> sorted_wrt (\<lambda>x y. ss_slot y \<le> ss_slot x) hist \<and> distinct (map ss_signature hist)"

definition sigPage :: "ScanSig list \<Rightarrow> nat \<Rightarrow> string option \<Rightarrow> ScanSig list result" where
  "sigPage hist limit before = Inr (take limit (case before of None \<Rightarrow> hist
     | Some sig \<Rightarrow> tl (dropWhile (\<lambda>s. ss_signature s \<noteq> sig) hist)))"

lemma sigPage_after:
  assumes "sigHistory (p @ rest)" "p \<noteq> []"
  shows "sigPage (p @ rest) limit (Some (ss_signature (last p))) = Inr (take limit rest)"
proof -
  obtain p' x where p: "p = p' @ [x]" using assms(2) by (cases p rule: rev_cases) auto
  have "distinct (map ss_signature p' @ ss_signature x # map ss_signature rest)"
    using assms(1) by (simp add: sigHistory_def p)
  then have "dropWhile (\<lambda>s. ss_signature s \<noteq> ss_signature x) (p' @ x # rest) = x # rest"
    by (induction p') auto
  then show ?thesis by (simp add: sigPage_def p)
qed

lemma slotLoop_fold:
  assumes "sigHistory (p @ rest)" "1 \<le> limit" "before = (if p = [] then None else Some (ss_signature (last p)))"
    "slotLoop pages fromSlot safeSlot limit (sigPage (p @ rest) limit) toBurn before st = Inr (burns', newest', True)"
  shows "foldSigs safeSlot toBurn (takeWhile (\<lambda>s. fromSlot < ss_slot s) rest) st = Inr (burns', newest')"
  using assms(1,3,4)
proof (induction pages arbitrary: p rest before st)
  case 0
  then show ?case by (cases st) simp
next
  case (Suc pages)
  let ?P = "\<lambda>s. fromSlot < ss_slot s"
  obtain burns newest where st: "st = (burns, newest)" by (cases st)
  define q where "q = take limit rest"
  have fetch: "sigPage (p @ rest) limit before = Inr q"
    using sigPage_after [OF Suc.prems(1)] Suc.prems(2) by (cases "p = []") (simp_all add: q_def sigPage_def)
  show ?case
  proof (cases "q = []")
    case True
    then have "rest = []" using assms(2) by (auto simp: q_def)
    then show ?thesis using Suc.prems(3) fetch True st by simp
  next
    case False
    obtain b n where f: "foldSigs safeSlot toBurn (takeWhile ?P q) (burns, newest) = Inr (b, n)"
      using Suc.prems(3) fetch False
      by (cases "foldSigs safeSlot toBurn (takeWhile ?P q) (burns, newest)") (auto simp: st scanSigs_fold)
    have run: "(if takeWhile ?P q \<noteq> q then Inr (b, n, True)
        else if takeWhile ?P q = [] \<or> length q < limit then Inr (b, n, True)
        else slotLoop pages fromSlot safeSlot limit (sigPage (p @ rest) limit) toBurn (Some (ss_signature (last q))) (b, n)) =
      Inr (burns', newest', True)"
      using Suc.prems(3) by (simp only: st slotLoop.simps fetch bindE_Inr False if_False scanSigs_fold f prod.case not_not simp_thms)
    consider (drained) "takeWhile ?P q \<noteq> q" | (ended) "takeWhile ?P q = q" "length q < limit"
      | (more) "takeWhile ?P q = q" "\<not> length q < limit" by blast
    then show ?thesis
    proof cases
      case drained
      then show ?thesis using run f st takeWhile_take_stop [of ?P limit rest] by (simp add: q_def)
    next
      case ended
      then have "q = rest" by (auto simp: q_def)
      then show ?thesis using run f st ended by simp
    next
      case more
      have "slotLoop pages fromSlot safeSlot limit (sigPage (p @ rest) limit) toBurn
          (Some (ss_signature (last q))) (b, n) = Inr (burns', newest', True)"
        using run more False by (simp del: takeWhile_eq_all_conv)
      moreover have pq: "p @ rest = (p @ q) @ drop limit rest" by (simp add: q_def)
      ultimately have "slotLoop pages fromSlot safeSlot limit (sigPage ((p @ q) @ drop limit rest) limit) toBurn
          (Some (ss_signature (last q))) (b, n) = Inr (burns', newest', True)" by simp
      from Suc.IH [OF _ _ this] have "foldSigs safeSlot toBurn (takeWhile ?P (drop limit rest)) (b, n) = Inr (burns', newest')"
        using Suc.prems(1) False unfolding pq by simp
      then show ?thesis using f st more takeWhile_take_all [of ?P limit rest]
        by (simp add: q_def foldSigs_append del: takeWhile_eq_all_conv)
    qed
  qed
qed

lemma foldSigs_ok:
  assumes "foldSigs safeSlot toBurn ss (burns, newest) = Inr (burns', newest')"
  shows "\<forall>s \<in> set ss. finalSig safeSlot s \<longrightarrow> ss_slot s \<le> newest' \<and>
      (\<exists>r. toBurn (ss_signature s) (ss_slot s) = Inr r \<and> (\<forall>b. r = Some b \<longrightarrow> b \<in> set burns'))"
    and "newest' = newest \<or> (\<exists>s \<in> set ss. finalSig safeSlot s \<and> ss_slot s = newest')" "newest \<le> newest'"
    and "set burns' = set burns \<union> {b. \<exists>s \<in> set ss. finalSig safeSlot s \<and> toBurn (ss_signature s) (ss_slot s) = Inr (Some b)}"
  using assms
proof (induction ss arbitrary: burns newest)
  case (Cons s ss)
  {
    case 1
    then show ?case
      using Cons.IH(1,3,4) by (cases "finalSig safeSlot s") (force simp: err_simps split: option.splits)+
  next
    case 2
    then show ?case using Cons.IH(2) by (cases "finalSig safeSlot s") (force simp: err_simps max_def split: option.splits if_splits)+
  next
    case 3
    then show ?case using Cons.IH(3) by (cases "finalSig safeSlot s") (force simp: err_simps)+
  next
    case 4
    then show ?case using Cons.IH(4) by (cases "finalSig safeSlot s") (force simp: err_simps split: option.splits)+
  }
qed simp_all

lemma above_cursor_sigs:
  assumes "sigHistory hist"
  shows "set (takeWhile (\<lambda>s. fromSlot < ss_slot s) hist) = {s \<in> set hist. fromSlot < ss_slot s}"
  using assms by (induction hist) (force simp: sigHistory_def)+

lemma paginateBurnsBySlot_fold:
  assumes "sigHistory hist" "1 \<le> limit"
    "paginateBurnsBySlot fromSlot safeSlot limit maxScanPages (sigPage hist limit) toBurn = Inr (burns, newest, True)"
  shows "foldSigs safeSlot toBurn (takeWhile (\<lambda>s. fromSlot < ss_slot s) hist) ([], fromSlot) = Inr (burns, newest)"
  using slotLoop_fold [of "[]" hist limit None maxScanPages fromSlot safeSlot toBurn "([], fromSlot)" burns newest] assms
  by (simp add: paginateBurnsBySlot_def)

section \<open>Properties\<close>

text \<open>
  A drained scan of the gateway token account has seen everything it may move the cursor past:
  for any page size, the reported burns are exactly those of the final transactions above the
  cursor, each of these was read, the new cursor lies at or above all of them and is final itself,
  and nothing that succeeded and lies at or below it was left out as unfinalised.
\<close>

lemma slot_scan_complete:
  assumes "sigHistory hist" "1 \<le> limit"
    "paginateBurnsBySlot fromSlot safeSlot limit maxScanPages (sigPage hist limit) toBurn = Inr (burns, newest, True)"
  shows "set burns = {b. \<exists>s \<in> set hist. fromSlot < ss_slot s \<and> finalSig safeSlot s \<and>
        toBurn (ss_signature s) (ss_slot s) = Inr (Some b)} \<and>
    (\<forall>s \<in> set hist. fromSlot < ss_slot s \<and> finalSig safeSlot s \<longrightarrow>
        ss_slot s \<le> newest \<and> isOk (toBurn (ss_signature s) (ss_slot s))) \<and>
    (\<forall>s \<in> set hist. fromSlot < ss_slot s \<and> ss_slot s \<le> newest \<and> \<not> ss_failed s \<longrightarrow> finalSig safeSlot s)"
proof -
  note ok = foldSigs_ok [OF paginateBurnsBySlot_fold [OF assms], unfolded above_cursor_sigs [OF assms(1)]]
  have "set burns = {b. \<exists>s \<in> set hist. fromSlot < ss_slot s \<and> finalSig safeSlot s \<and>
      toBurn (ss_signature s) (ss_slot s) = Inr (Some b)}"
    using ok(4) by auto
  moreover have "\<forall>s \<in> set hist. fromSlot < ss_slot s \<and> finalSig safeSlot s \<longrightarrow>
      ss_slot s \<le> newest \<and> isOk (toBurn (ss_signature s) (ss_slot s))"
    using ok(1) by fastforce
  moreover have "\<forall>s \<in> set hist. fromSlot < ss_slot s \<and> ss_slot s \<le> newest \<and> \<not> ss_failed s \<longrightarrow> finalSig safeSlot s"
    using ok(2) by (auto simp: finalSig_def)
  ultimately show ?thesis by blast
qed

definition sig_example :: "nat \<Rightarrow> ScanSig" where
  "sig_example slot = \<lparr>ss_signature = decNat slot, ss_slot = slot, ss_failed = False\<rparr>"

definition sol_burn_example :: "string \<Rightarrow> nat \<Rightarrow> RemoteBurn option result" where
  "sol_burn_example sig slot = Inr (Some \<lparr>burn_chain = SOLANA, burn_sourceId = sig, burn_height = slot, burn_from = ''x'',
     burn_amountMilliViz = 5, burn_homeDestination = ''alice''\<rparr>)"

definition sigs_example :: "ScanSig list" where
  "sigs_example = map sig_example [9, 7, 5, 3]"

lemma sigs_example_history: "sigHistory sigs_example"
  by (simp add: sigHistory_def sigs_example_def sig_example_def)

text \<open>
  A final transaction the node cannot return is skipped for good: the scan drains, the cursor moves
  to it or past it, and no burn is reported for it.
\<close>

lemma missing_transaction_skipped:
  assumes "sigHistory hist" "sc_gatewayTokenAccount cfg = Some acct" "1 \<le> sc_maxSignatures cfg"
    "sr_signatures rd acct = (\<lambda>before limit. sigPage hist limit before)" "sr_finalizedSlot rd = Inr height"
    "sol_finalizedBurnsPaginated cfg rd fromSlot = Inr (burns, newest, True)"
    "s \<in> set hist" "fromSlot < ss_slot s" "finalSig (int height - int (sc_finalitySlots cfg)) s"
    "sr_transaction rd (ss_signature s) = Inr None"
  shows "ss_slot s \<le> newest \<and> ss_signature s \<notin> burn_sourceId ` set burns"
proof -
  have run: "paginateBurnsBySlot fromSlot (int height - int (sc_finalitySlots cfg)) (sc_maxSignatures cfg) (sc_maxScanPages cfg)
      (sigPage hist (sc_maxSignatures cfg)) (solToBurn rd acct) = Inr (burns, newest, True)"
    using assms(2,4-6) by (simp add: sol_finalizedBurnsPaginated_def)
  note ok = foldSigs_ok [OF paginateBurnsBySlot_fold [OF assms(1,3) run], unfolded above_cursor_sigs [OF assms(1)]]
  have "burn_sourceId b = sig" if "solToBurn rd acct sig slot = Inr (Some b)" for sig slot b
    using that by (auto simp: solToBurn_def err_simps split: option.splits)
  with ok(4) assms(10) have "ss_signature s \<notin> burn_sourceId ` set burns"
    by (fastforce simp: solToBurn_def)
  with ok(1) assms(7-9) show ?thesis by auto
qed

text \<open>
  The scan of one deposit account reads the newest \<open>maxSignatures\<close> only and keeps no cursor: a
  transfer with that many newer signatures on the account is not reported, however often it runs.
\<close>

lemma incomingLoop_from:
  "incomingLoop rd ata safeSlot ss = Inr out \<Longrightarrow> x \<in> set out \<Longrightarrow>
   \<exists>s \<in> set ss. \<not> ss_failed s \<and> int (ss_slot s) \<le> safeSlot \<and> it_signature x = ss_signature s \<and> it_slot x = ss_slot s \<and>
     (\<exists>t d. sr_transaction rd (ss_signature s) = Inr (Some t) \<and> parseGatewayDeposit t ata = Inr (Some d) \<and>
        it_amountBaseUnits x = gd_amountBaseUnits d)"
proof (induction ss arbitrary: out)
  case (Cons s ss)
  let ?from = "\<lambda>s. \<not> ss_failed s \<and> int (ss_slot s) \<le> safeSlot \<and> it_signature x = ss_signature s \<and> it_slot x = ss_slot s \<and>
     (\<exists>t d. sr_transaction rd (ss_signature s) = Inr (Some t) \<and> parseGatewayDeposit t ata = Inr (Some d) \<and>
        it_amountBaseUnits x = gd_amountBaseUnits d)"
  have "\<exists>s' \<in> set ss. ?from s'" if "incomingLoop rd ata safeSlot ss = Inr out'" "x \<in> set out'" for out'
    using Cons.IH that by blast
  then have "\<exists>s' \<in> set ss. ?from s'" if "\<not> ?from s"
    using that Cons.prems by (auto simp: bindE_eq_Inr split: if_splits option.splits)
  then show ?case by auto
qed simp

lemma deep_transfer_missed:
  assumes "sigHistory hist" "sr_signatures rd ata = (\<lambda>before limit. sigPage hist limit before)"
    "incomingTransfersTo cfg rd ata toSlot = Inr out" "s \<in> set (drop (sc_maxSignatures cfg) hist)"
  shows "ss_signature s \<notin> it_signature ` set out"
proof -
  have run: "incomingLoop rd ata (int toSlot - int (sc_finalitySlots cfg)) (take (sc_maxSignatures cfg) hist) = Inr out"
    using assms(2,3) by (simp add: incomingTransfersTo_def sigPage_def)
  have fresh: "ss_signature s \<notin> ss_signature ` set (take (sc_maxSignatures cfg) hist)"
  proof
    assume "ss_signature s \<in> ss_signature ` set (take (sc_maxSignatures cfg) hist)"
    moreover have "distinct (map ss_signature (take (sc_maxSignatures cfg) hist) @ map ss_signature (drop (sc_maxSignatures cfg) hist))"
      using assms(1) by (simp add: sigHistory_def flip: map_append)
    ultimately show False using assms(4) by auto
  qed
  show ?thesis
  proof
    assume "ss_signature s \<in> it_signature ` set out"
    then obtain x where "x \<in> set out" "it_signature x = ss_signature s" by auto
    from incomingLoop_from [OF run this(1)] this(2) fresh show False by auto
  qed
qed

text \<open>
  Anyone can make the coordinator believe that a mint has happened: any successful transaction that
  names the mint and carries the action's id as its memo is taken for it, whatever else it does.
\<close>

lemma foreign_memo_taken_for_mint:
  assumes "sr_signatures rd (sc_mint cfg) None 100 = Inr (s # ss)" "\<not> ss_failed s"
    "sr_transaction rd (ss_signature s) = Inr (Some tx)" "st_instructions tx = ix # rest"
    "ix_program ix = Some ''spl-memo''" "ix_parsed ix = ParsedText actionId"
  shows "mintByActionId cfg rd actionId = Inr (Some (ss_signature s))"
  using assms by (simp add: mintByActionId_def parseMemoFromTx_def allIxs_def isMintMemo_def isMemoIx_def)

text \<open>
  The scanner and a signer see the same transfer. What the scan of a deposit account reports, a
  signer that reads the same transaction on its own node finds again under the same signature, with
  the same slot and amount, provided its node is as far as the scanner's safe slot and the node's
  list agrees with its transactions.
\<close>

lemma transfer_reread_agrees:
  assumes "incomingTransfersTo cfg rd ata toSlot = Inr out" "x \<in> set out"
    "sr_signatures rd ata None (sc_maxSignatures cfg) = Inr sigs"
    "\<forall>s \<in> set sigs. \<forall>t. sr_transaction rd (ss_signature s) = Inr (Some t) \<longrightarrow> st_slot t = ss_slot s \<and> st_failed t = ss_failed s"
    "sr_transaction rd' (it_signature x) = sr_transaction rd (it_signature x)"
    "sc_finalitySlots cfg' = 0 \<or> (\<exists>h. sr_finalizedSlot rd' = Inr h \<and>
       int toSlot - int (sc_finalitySlots cfg) \<le> int h - int (sc_finalitySlots cfg'))"
  shows "sol_getDepositTransfer cfg' rd' (it_signature x) ata = Inr (Some (it_slot x, it_amountBaseUnits x))"
proof -
  have "incomingLoop rd ata (int toSlot - int (sc_finalitySlots cfg)) sigs = Inr out"
    using assms(1,3) by (simp add: incomingTransfersTo_def)
  from incomingLoop_from [OF this assms(2)] obtain s t d where
    s: "s \<in> set sigs" "\<not> ss_failed s" "int (ss_slot s) \<le> int toSlot - int (sc_finalitySlots cfg)"
      "it_signature x = ss_signature s" "it_slot x = ss_slot s" and
    t: "sr_transaction rd (ss_signature s) = Inr (Some t)" "parseGatewayDeposit t ata = Inr (Some d)"
      "it_amountBaseUnits x = gd_amountBaseUnits d" by blast
  have "st_slot t = ss_slot s" "\<not> st_failed t" using assms(4) s(1,2) t(1) by auto
  moreover from this have "sol_isFinal cfg' rd' t = Inr True"
    using assms(6) s(3) by (auto simp: sol_isFinal_def)
  ultimately show ?thesis
    using assms(5) s(4,5) t by (simp add: sol_getDepositTransfer_def)
qed

definition transfer_ix_example :: "string \<Rightarrow> SolInstruction" where
  "transfer_ix_example amount = \<lparr>ix_program = Some ''spl-token-2022'', ix_programId = None,
     ix_parsed = ParsedObject (Some ''transferChecked'') (Some \<lparr>ti_mint = Some ''M'', ti_destination = Some ''ata'',
       ti_source = Some ''src'', ti_authority = Some ''owner'', ti_tokenAmount = Some amount, ti_amount = None\<rparr>)\<rparr>"

definition sol_reads_example :: SolReads where
  "sol_reads_example = \<lparr>sr_finalizedSlot = Inr 60, sr_signatures = (\<lambda>a b n. Inr [sig_example 40]),
     sr_transaction = (\<lambda>s. Inr (Some \<lparr>st_slot = 40, st_failed = False, st_instructions = [],
        st_inner = [[transfer_ix_example ''900'']]\<rparr>)),
     sr_status = (\<lambda>_. Inr None), sr_supply = (\<lambda>_. Inr ''0''), sr_accountData = (\<lambda>_. Inr None), sr_nonce = (\<lambda>_. Inr None)\<rparr>"

definition sol_config_example :: SolanaConfig where
  "sol_config_example = solanaConfig ''M'' [] 4 None None None"

lemma parse_transfer_example:
  "parseGatewayDeposit \<lparr>st_slot = 40, st_failed = False, st_instructions = [], st_inner = [[transfer_ix_example ''900'']]\<rparr> ''ata'' =
     Inr (Some \<lparr>gd_from = ''owner'', gd_amountBaseUnits = 900, gd_memo = []\<rparr>)"
  by (simp add: parseGatewayDeposit_def allIxs_def transfer_ix_example_def isMemoIx_def transferInto_def isTokenIx_def
      tokenAmountOf_def bigIntE_def bigint_900 transferFrom_def)

lemma incoming_example:
  "incomingTransfersTo sol_config_example sol_reads_example ''ata'' 50 =
     Inr [\<lparr>it_signature = decNat 40, it_slot = 40, it_amountBaseUnits = 900\<rparr>]"
  by (simp add: incomingTransfersTo_def sol_reads_example_def sig_example_def sol_config_example_def solanaConfig_def
      parse_transfer_example)

end
