(* ===== verification/SolanaLookup.thy ===== *)
theory SolanaLookup
  imports SolanaChain StoreSqlite
begin

text \<open>
  Deposit addresses: \<open>packages/solana-watcher/src/depositAddress.ts\<close>, \<open>lookupValidate.ts\<close>, the
  lookup service \<open>lookup.ts\<close> and its public mirror \<open>/solana/address\<close> in
  \<open>packages/coordinator/src/index.ts\<close>. The program-address derivation and the instruction encoder
  are the record \<open>PdaLib\<close>.
\<close>

section \<open>depositAddress.ts\<close>

record PdaLib =
  pl_publicKey :: "string \<Rightarrow> string result"
  pl_findProgramAddress :: "string list \<Rightarrow> string \<Rightarrow> string result"
  pl_ata :: "string \<Rightarrow> string \<Rightarrow> string result"
  pl_encodeBurn :: "string \<Rightarrow> int \<Rightarrow> string result"

definition DEPOSIT_SEED :: string where "DEPOSIT_SEED = ''deposit''"

definition depositPubkey :: "PdaLib \<Rightarrow> string \<Rightarrow> string \<Rightarrow> string result" where
  "depositPubkey pl programId vizAccount =
     (if vizAccount = [] then Inl (GenericError ''vizAccount required'')
      else bindE (pl_publicKey pl programId) (\<lambda>program. pl_findProgramAddress pl [DEPOSIT_SEED, vizAccount] program))"

definition depositAddress :: "PdaLib \<Rightarrow> string \<Rightarrow> string \<Rightarrow> string result" where
  "depositAddress pl programId vizAccount = depositPubkey pl programId vizAccount"

definition depositAta :: "PdaLib \<Rightarrow> string \<Rightarrow> string \<Rightarrow> string \<Rightarrow> string result" where
  "depositAta pl programId vizAccount mint =
     bindE (depositPubkey pl programId vizAccount) (\<lambda>owner.
     bindE (pl_publicKey pl mint) (\<lambda>m. pl_ata pl m owner))"

text \<open>The accounts of an instruction, each with its signer and writable flags.\<close>

record BurnInstruction =
  bi_programId :: string
  bi_keys :: "(string \<times> bool \<times> bool) list"
  bi_data :: string

definition TOKEN_2022_PROGRAM_ID :: string where
  "TOKEN_2022_PROGRAM_ID = ''TokenzQdBNbLqP5VEhdkAS6EPFLC1PHnBqCXEpPxuEb''"

definition buildBurnDepositIx :: "PdaLib \<Rightarrow> string \<Rightarrow> string \<Rightarrow> int \<Rightarrow> string \<Rightarrow> BurnInstruction result" where
  "buildBurnDepositIx pl programId vizAccount amount mint =
     bindE (pl_publicKey pl programId) (\<lambda>program.
     bindE (depositPubkey pl programId vizAccount) (\<lambda>authority.
     bindE (depositAta pl programId vizAccount mint) (\<lambda>ata.
     bindE (pl_encodeBurn pl vizAccount amount) (\<lambda>data.
     bindE (pl_publicKey pl mint) (\<lambda>m.
       Inr \<lparr>bi_programId = program,
            bi_keys = [(authority, False, False), (m, False, True), (ata, False, True), (TOKEN_2022_PROGRAM_ID, False, False)],
            bi_data = data\<rparr>)))))"

text \<open>
  The burn of a deposit (\<open>burnFromDeposit\<close> of \<open>solanaChain.ts\<close>): the one instruction, paid for and
  signed by the submitter, on the newest finalized block hash. Signing and sending are parameters.
\<close>

record BurnTransaction =
  bt_feePayer :: string
  bt_instructions :: "BurnInstruction list"
  bt_recentBlockhash :: "string option"

definition buildBurnTxForTest :: "PdaLib \<Rightarrow> string \<Rightarrow> string \<Rightarrow> string \<Rightarrow> int \<Rightarrow> string \<Rightarrow> BurnTransaction result" where
  "buildBurnTxForTest pl programId mint vizAccount amount payer =
     bindE (buildBurnDepositIx pl programId vizAccount amount mint) (\<lambda>ix.
       Inr \<lparr>bt_feePayer = payer, bt_instructions = [ix], bt_recentBlockhash = None\<rparr>)"

definition burnFromDeposit ::
  "PdaLib \<Rightarrow> string \<Rightarrow> string \<Rightarrow> string result \<Rightarrow> (BurnTransaction \<Rightarrow> string result) \<Rightarrow> (string \<Rightarrow> string result) \<Rightarrow>
   string \<Rightarrow> int \<Rightarrow> string \<Rightarrow> string result" where
  "burnFromDeposit pl depositProgramId mint latestBlockhash signAndSerialize sendRaw vizAccount amount payer =
     (if depositProgramId = [] then Inl (GenericError ''SolanaChain has no depositProgramId; cannot burn via program'')
      else bindE (buildBurnTxForTest pl depositProgramId mint vizAccount amount payer) (\<lambda>tx.
           bindE latestBlockhash (\<lambda>blockhash.
           bindE (signAndSerialize (tx\<lparr>bt_recentBlockhash := Some blockhash\<rparr>)) sendRaw)))"

lemma burnFromDeposit_sends:
  assumes "burnFromDeposit pl programId mint latestBlockhash signAndSerialize sendRaw vizAccount amount payer = Inr sig"
  shows "\<exists>tx raw ata owner data. depositAta pl programId vizAccount mint = Inr ata \<and> depositAddress pl programId vizAccount = Inr owner \<and>
    pl_encodeBurn pl vizAccount amount = Inr data \<and> bt_feePayer tx = payer \<and>
    (\<exists>ix. bt_instructions tx = [ix] \<and> bi_data ix = data \<and> map fst (bi_keys ix) ! 0 = owner \<and> map fst (bi_keys ix) ! 2 = ata \<and>
       list_all (\<lambda>k. \<not> fst (snd k)) (bi_keys ix)) \<and>
    signAndSerialize tx = Inr raw \<and> sendRaw raw = Inr sig"
  using assms
  by (auto simp: burnFromDeposit_def buildBurnTxForTest_def buildBurnDepositIx_def depositAddress_def bindE_eq_Inr
      split: if_splits) (force simp: bindE_eq_Inr)

section \<open>lookupValidate.ts\<close>

definition isAccountChar :: "char \<Rightarrow> bool" where
  "isAccountChar c \<longleftrightarrow> charIn (CHR ''a'') (CHR ''z'') c \<or> isDigit c \<or> c = CHR ''.'' \<or> c = CHR ''-''"

fun VIZ_ACCOUNT_RE :: "string \<Rightarrow> bool" where
  "VIZ_ACCOUNT_RE [] \<longleftrightarrow> False"
| "VIZ_ACCOUNT_RE (c # cs) \<longleftrightarrow> charIn (CHR ''a'') (CHR ''z'') c \<and> 1 \<le> length cs \<and> length cs \<le> 31 \<and> list_all isAccountChar cs"

definition MAX_VIZ_ACCOUNT_BYTES :: nat where "MAX_VIZ_ACCOUNT_BYTES = 16"

definition normalizeVizAccount :: "string option \<Rightarrow> string option" where
  "normalizeVizAccount raw =
     (let v = toLowerCase (trim (case raw of None \<Rightarrow> [] | Some r \<Rightarrow> r))
      in if VIZ_ACCOUNT_RE v then Some v else None)"

datatype LookupResolution = LookupError nat string | LookupOk string string string

record LookupDeps =
  lk_accountExists :: "string \<Rightarrow> bool result"
  lk_depositAddress :: "string \<Rightarrow> string result"
  lk_depositAta :: "string \<Rightarrow> string result"

text \<open>The names that pass the format are ASCII, so their bytes are their characters.\<close>

definition resolveDepositAddress :: "string option \<Rightarrow> LookupDeps \<Rightarrow> LookupResolution result" where
  "resolveDepositAddress raw deps =
     (case normalizeVizAccount raw of
        None \<Rightarrow> Inr (LookupError 400 ''invalid viz_account'')
      | Some vizAccount \<Rightarrow>
          if length vizAccount > MAX_VIZ_ACCOUNT_BYTES
          then Inr (LookupError 400 ''viz_account exceeds 16 bytes (on-chain deposit limit)'')
          else bindE (lk_accountExists deps vizAccount) (\<lambda>ex.
            if \<not> ex then Inr (LookupError 404 ''viz_account does not exist on VIZ'')
            else bindE (lk_depositAddress deps vizAccount) (\<lambda>address.
                 bindE (lk_depositAta deps vizAccount) (\<lambda>ata. Inr (LookupOk vizAccount address ata)))))"

text \<open>The reply: an error, or the account, its address, its token account and the mint.\<close>

datatype LookupBody = ErrorBody string | AddressBody string string string string

definition lookupResponseBody :: "string \<Rightarrow> string \<Rightarrow> string \<Rightarrow> string \<Rightarrow> LookupBody" where
  "lookupResponseBody vizAccount address ata mint = AddressBody vizAccount address ata mint"

section \<open>The two services\<close>

definition lookupDeps :: "PdaLib \<Rightarrow> string \<Rightarrow> string \<Rightarrow> (string \<Rightarrow> bool result) \<Rightarrow> LookupDeps" where
  "lookupDeps pl programId mint accountExists =
     \<lparr>lk_accountExists = accountExists, lk_depositAddress = depositAddress pl programId,
      lk_depositAta = (\<lambda>name. depositAta pl programId name mint)\<rparr>"

definition lookupHandler ::
  "PdaLib \<Rightarrow> string \<Rightarrow> string \<Rightarrow> (string \<Rightarrow> bool result) \<Rightarrow> string option \<Rightarrow> int \<Rightarrow> SqliteStore \<Rightarrow>
   (nat \<times> LookupBody) \<times> SqliteStore" where
  "lookupHandler pl programId mint accountExists raw now s =
     (case resolveDepositAddress raw (lookupDeps pl programId mint accountExists) of
        Inl err \<Rightarrow> ((500, ErrorBody (error_text err)), s)
      | Inr (LookupError status msg) \<Rightarrow> ((status, ErrorBody msg), s)
      | Inr (LookupOk vizAccount address ata) \<Rightarrow>
          ((200, lookupResponseBody vizAccount address ata mint), sql_registerDepositAddress vizAccount address ata now s))"

definition lookupRoute ::
  "PdaLib \<Rightarrow> string \<Rightarrow> string \<Rightarrow> (string \<Rightarrow> bool result) \<Rightarrow> string \<Rightarrow> string \<Rightarrow> string option \<Rightarrow> int \<Rightarrow> SqliteStore \<Rightarrow>
   (nat \<times> LookupBody) \<times> SqliteStore" where
  "lookupRoute pl programId mint accountExists httpMethod pathname raw now s =
     (if httpMethod \<noteq> ''GET'' \<or> pathname \<noteq> ''/address'' then ((404, ErrorBody ''not found''), s)
      else lookupHandler pl programId mint accountExists raw now s)"

definition solanaAddressRoute ::
  "PdaLib \<Rightarrow> string \<Rightarrow> string \<Rightarrow> (string \<Rightarrow> bool result) \<Rightarrow> string option \<Rightarrow> int \<Rightarrow> SqliteStore \<Rightarrow>
   (nat \<times> LookupBody) \<times> SqliteStore" where
  "solanaAddressRoute pl programId mint accountExists raw now s =
     (if programId = [] \<or> mint = [] then ((404, ErrorBody ''Solana peg-out not configured''), s)
      else lookupHandler pl programId mint accountExists raw now s)"

section \<open>The registry of addresses\<close>

text \<open>A row whose addresses are those of its account, which is one the burn program accepts.\<close>

definition derivedDeposit :: "PdaLib \<Rightarrow> string \<Rightarrow> string \<Rightarrow> DepositAddressRecord \<Rightarrow> bool" where
  "derivedDeposit pl programId mint d \<longleftrightarrow>
     depositAddress pl programId (da_vizAccount d) = Inr (da_solAddress d) \<and>
     depositAta pl programId (da_vizAccount d) mint = Inr (da_wvizAta d) \<and>
     VIZ_ACCOUNT_RE (da_vizAccount d) \<and> length (da_vizAccount d) \<le> MAX_VIZ_ACCOUNT_BYTES"

definition derivedDeposits :: "PdaLib \<Rightarrow> string \<Rightarrow> string \<Rightarrow> SqliteStore \<Rightarrow> bool" where
  "derivedDeposits pl programId mint s \<longleftrightarrow>
     (\<forall>d \<in> set (tb_deposits s). derivedDeposit pl programId mint d) \<and> distinct (map da_vizAccount (tb_deposits s))"

lemma resolve_ok:
  assumes "resolveDepositAddress raw (lookupDeps pl programId mint accountExists) = Inr (LookupOk vizAccount address ata)"
  shows "normalizeVizAccount raw = Some vizAccount" "accountExists vizAccount = Inr True"
    "depositAddress pl programId vizAccount = Inr address" "depositAta pl programId vizAccount mint = Inr ata"
    "VIZ_ACCOUNT_RE vizAccount" "length vizAccount \<le> MAX_VIZ_ACCOUNT_BYTES"
proof -
  obtain v where v: "normalizeVizAccount raw = Some v"
    using assms by (auto simp: resolveDepositAddress_def split: option.splits)
  then have re: "VIZ_ACCOUNT_RE v" by (auto simp: normalizeVizAccount_def Let_def split: if_splits)
  from assms v have all: "v = vizAccount \<and> accountExists vizAccount = Inr True \<and>
      depositAddress pl programId vizAccount = Inr address \<and> depositAta pl programId vizAccount mint = Inr ata \<and>
      length vizAccount \<le> MAX_VIZ_ACCOUNT_BYTES"
    by (auto simp: resolveDepositAddress_def lookupDeps_def err_simps split: if_splits)
  with v re show "normalizeVizAccount raw = Some vizAccount" "accountExists vizAccount = Inr True"
    "depositAddress pl programId vizAccount = Inr address" "depositAta pl programId vizAccount mint = Inr ata"
    "VIZ_ACCOUNT_RE vizAccount" "length vizAccount \<le> MAX_VIZ_ACCOUNT_BYTES" by simp_all
qed

text \<open>A name in normal form stays as it is.\<close>

lemma lowerChar_account: "isAccountChar c \<Longrightarrow> lowerChar c = c"
  by (auto simp: isAccountChar_def lowerChar_def charIn_def isDigit_def)

lemma normalize_id:
  assumes "VIZ_ACCOUNT_RE v"
  shows "normalizeVizAccount (Some v) = Some v"
proof -
  obtain c cs where v: "v = c # cs" using assms by (cases v) auto
  have chars: "list_all isAccountChar v" using assms v by (simp add: isAccountChar_def)
  then have "\<not> isSpace x" if "x \<in> set v" for x
    using that by (auto simp: list_all_iff isAccountChar_def charIn_def isSpace_def isDigit_def Let_def)
  then have "trim v = v" using v by (intro trim_id) auto
  moreover have "toLowerCase v = v"
    using chars lowerChar_account by (simp add: toLowerCase_def list_all_iff map_idI)
  ultimately show ?thesis using assms by (simp add: normalizeVizAccount_def)
qed

lemma lookup_derived:
  assumes "derivedDeposits pl programId mint s"
  shows "derivedDeposits pl programId mint (snd (lookupHandler pl programId mint accountExists raw now s))"
proof (cases "resolveDepositAddress raw (lookupDeps pl programId mint accountExists)")
  case (Inl err)
  with assms show ?thesis by (simp add: lookupHandler_def)
next
  case (Inr r)
  show ?thesis
  proof (cases r)
    case (LookupOk vizAccount address ata)
    with Inr resolve_ok [of raw pl programId mint accountExists vizAccount address ata] assms show ?thesis
      by (auto simp: lookupHandler_def derivedDeposits_def derivedDeposit_def sql_registerDepositAddress_def)
  qed (use Inr assms in \<open>simp add: lookupHandler_def\<close>)
qed

text \<open>
  C29. A deposit address is given out only if the federation can pay it out. Starting from an empty
  registry, whatever names have been asked for: a reply with status 200 names an account that exists
  on VIZ, in the normal form of the request and within the 16 bytes of the burn program; the address
  and token account in it are those every signer derives from that name; and the registry the
  scanner reads holds exactly these under the account. Every other reply leaves the registry alone.
\<close>

theorem issued_address_is_payable:
  assumes "derivedDeposits pl programId mint s"
    "lookupHandler pl programId mint accountExists raw now s = ((status, body), s')"
  shows "derivedDeposits pl programId mint s' \<and>
    (status = 200 \<longrightarrow> (\<exists>name address ata. body = AddressBody name address ata mint \<and>
       normalizeVizAccount raw = Some name \<and> normalizeVizAccount (Some name) = Some name \<and>
       accountExists name = Inr True \<and> length name \<le> 16 \<and>
       depositAddress pl programId name = Inr address \<and> depositAta pl programId name mint = Inr ata \<and>
       (\<exists>d \<in> set (tb_deposits s'). da_vizAccount d = name \<and> da_solAddress d = address \<and> da_wvizAta d = ata))) \<and>
    (status \<noteq> 200 \<longrightarrow> s' = s)"
proof (cases "resolveDepositAddress raw (lookupDeps pl programId mint accountExists)")
  case (Inl err)
  with assms show ?thesis by (auto simp: lookupHandler_def)
next
  case (Inr r)
  show ?thesis
  proof (cases r)
    case (LookupError st msg)
    have "st \<noteq> 200" using Inr LookupError
      by (auto simp: resolveDepositAddress_def err_simps split: option.splits if_splits)
    with Inr LookupError assms show ?thesis by (auto simp: lookupHandler_def)
  next
    case (LookupOk name address ata)
    have s': "status = 200" "body = AddressBody name address ata mint" "s' = sql_registerDepositAddress name address ata now s"
      using assms(2) Inr LookupOk by (auto simp: lookupHandler_def lookupResponseBody_def)
    note ok = resolve_ok [OF Inr [unfolded LookupOk]]
    have "\<exists>d \<in> set (tb_deposits s'). da_vizAccount d = name \<and> da_solAddress d = address \<and> da_wvizAta d = ata"
    proof (cases "name \<in> da_vizAccount ` set (tb_deposits s)")
      case True
      then obtain d where "d \<in> set (tb_deposits s)" "da_vizAccount d = name" by auto
      with assms(1) ok(3,4) True show ?thesis
        by (auto simp: s'(3) sql_registerDepositAddress_def derivedDeposits_def derivedDeposit_def)
    qed (simp add: s'(3) sql_registerDepositAddress_def)
    moreover have "derivedDeposits pl programId mint s'" using lookup_derived [OF assms(1)] assms(2) by (metis snd_conv)
    ultimately show ?thesis
      using s'(1,2) ok normalize_id [OF ok(5)] by (auto simp: MAX_VIZ_ACCOUNT_BYTES_def)
  qed
qed

definition pda_example :: PdaLib where
  "pda_example = \<lparr>pl_publicKey = Inr, pl_findProgramAddress = (\<lambda>seeds p. Inr (concat seeds @ p)),
     pl_ata = (\<lambda>m o'. Inr (m @ o')), pl_encodeBurn = (\<lambda>v n. Inr (v @ decInt n))\<rparr>"

theorem issued_address_is_payable_witness:
  "case lookupHandler pda_example ''P'' ''M'' (\<lambda>n. Inr (n = ''alice'')) (Some '' Alice '') 5 emptySqlite of
     ((status, body), s') \<Rightarrow> status = 200 \<and> derivedDeposits pda_example ''P'' ''M'' s' \<and> tb_deposits s' \<noteq> []"
proof -
  have n: "normalizeVizAccount (Some '' Alice '') = Some ''alice''" by code_simp
  obtain body s' where h: "lookupHandler pda_example ''P'' ''M'' (\<lambda>n. Inr (n = ''alice'')) (Some '' Alice '') 5 emptySqlite =
      ((200, body), s')"
    by (simp add: lookupHandler_def resolveDepositAddress_def n MAX_VIZ_ACCOUNT_BYTES_def lookupDeps_def depositAddress_def
        depositAta_def depositPubkey_def pda_example_def)
  have "derivedDeposits pda_example ''P'' ''M'' emptySqlite" by (simp add: derivedDeposits_def emptySqlite_def)
  from issued_address_is_payable [OF this h] show ?thesis by (auto simp: h)
qed

end
