(* ===== verification/PegoutScanner.thy ===== *)
theory PegoutScanner
  imports Intake SolanaLookup
begin

text \<open>
  The Solana peg-out scanner (\<open>packages/solana-watcher/src/pegoutScanner.ts\<close> and
  \<open>pegoutGuard.ts\<close>): one pass of its loop. The node's answers are parameters, each may throw; the
  answer to a burn depends on the transfer it is made for. \<open>ps_burns\<close> is the list of the burn
  transactions the node has accepted (account, amount, signature). \<open>fault k = Some n\<close> says that,
  after the burn for \<open>k\<close>, the store fails on its write number \<open>n\<close> (of three).
\<close>

section \<open>pegoutGuard.ts\<close>

datatype PegOutGuard = Burn | NoBurn string "string option"

definition guardPegOut :: "CapDecision \<Rightarrow> bool \<Rightarrow> PegOutGuard" where
  "guardPegOut cap accountExists =
     (case cap of
        CapReject why \<Rightarrow> NoBurn (capReasonString why) (if why = OVER_24H then Some ''Solana peg-out 24h cap exceeded'' else None)
      | CapOk \<Rightarrow> if \<not> accountExists then NoBurn ''VIZ account does not exist'' None else Burn)"

datatype SeenRecovery = ALERT | REQUEUE | RELEASE

definition classifySeenRecovery :: "bool \<Rightarrow> bool \<Rightarrow> SeenRecovery" where
  "classifySeenRecovery hasBurnCheckpoint burnLanded =
     (if \<not> hasBurnCheckpoint then ALERT else if burnLanded then REQUEUE else RELEASE)"

section \<open>The loop\<close>

record PegoutNode =
  pn_signatureLanded :: "string \<Rightarrow> bool result"
  pn_finalizedSlot :: "nat result"
  pn_incoming :: "string \<Rightarrow> nat \<Rightarrow> IncomingTransfer list result"
  pn_accountExists :: "string \<Rightarrow> bool result"
  pn_burn :: "string \<Rightarrow> string result"

record PegoutState =
  ps_store :: SqliteStore
  ps_alertedSeen :: "string list"
  ps_burns :: "(string \<times> int \<times> string) list"
  ps_notices :: "string list"

definition staff :: "string \<Rightarrow> PegoutState \<Rightarrow> PegoutState" where
  "staff rid st = st\<lparr>ps_notices := ps_notices st @ [rid]\<rparr>"

definition onStore :: "(SqliteStore \<Rightarrow> SqliteStore) \<Rightarrow> PegoutState \<Rightarrow> PegoutState" where
  "onStore f st = st\<lparr>ps_store := f (ps_store st)\<rparr>"

text \<open>One row left in \<open>SEEN\<close>; the row is left alone when the status of its burn cannot be read.\<close>

definition forgetAlert :: "string \<Rightarrow> PegoutState \<Rightarrow> PegoutState" where
  "forgetAlert rid st = st\<lparr>ps_alertedSeen := filter (\<lambda>x. x \<noteq> rid) (ps_alertedSeen st)\<rparr>"

definition recoverAs :: "SeenRecovery \<Rightarrow> int \<Rightarrow> string \<Rightarrow> PegoutState \<Rightarrow> PegoutState" where
  "recoverAs recovery now rid st =
     (case recovery of
        REQUEUE \<Rightarrow> forgetAlert rid (onStore (sql_setStatus rid QUEUED noPatch now) st)
      | RELEASE \<Rightarrow> forgetAlert rid (onStore (sql_delete rid) st)
      | ALERT \<Rightarrow> if rid \<in> set (ps_alertedSeen st) then st
          else (staff rid st)\<lparr>ps_alertedSeen := ps_alertedSeen st @ [rid]\<rparr>)"

definition recoverSeenRow :: "PegoutNode \<Rightarrow> int \<Rightarrow> OutboxRecord \<Rightarrow> PegoutState \<Rightarrow> PegoutState" where
  "recoverSeenRow node now r st =
     (if ob_direction r \<noteq> O_PEG_OUT then st
      else if truthy (ob_txid r)
      then (case pn_signatureLanded node (the (ob_txid r)) of
          Inl _ \<Rightarrow> st
        | Inr landed \<Rightarrow> recoverAs (classifySeenRecovery True landed) now (ob_id r) st)
      else recoverAs (classifySeenRecovery False False) now (ob_id r) st)"

definition recoverSeen :: "PegoutNode \<Rightarrow> int \<Rightarrow> PegoutState \<Rightarrow> PegoutState" where
  "recoverSeen node now st =
     foldl (\<lambda>st r. recoverSeenRow node now r st) st (sql_stale (ps_store st) now STALE_SEEN_MS [SEEN])"

definition transferAction :: "(string \<Rightarrow> string) \<Rightarrow> DepositAddressRecord \<Rightarrow> IncomingTransfer \<Rightarrow> CanonicalAction" where
  "transferAction sha dep t = canonicalPegOut sha
     \<lparr>burn_chain = SOLANA, burn_sourceId = it_signature t, burn_height = it_slot t, burn_from = da_solAddress dep,
      burn_amountMilliViz = it_amountBaseUnits t, burn_homeDestination = da_vizAccount dep\<rparr>"

definition claimInput :: "(string \<Rightarrow> string) \<Rightarrow> DepositAddressRecord \<Rightarrow> IncomingTransfer \<Rightarrow> EnqueueInput" where
  "claimInput sha dep t =
     (let action = transferAction sha dep t
      in \<lparr>ei_id = act_id action, ei_direction = O_PEG_OUT, ei_remoteChain = act_remoteChain action,
          ei_recipient = act_recipient action, ei_sender = None, ei_amountMilliViz = act_amountMilliViz action,
          ei_feeMilliViz = None, ei_digest = act_digest action, ei_status = Some SEEN, ei_lastError = None,
          ei_parentId = None, ei_blockNum = None\<rparr>)"

text \<open>The three writes after the burn; a failure of one of them ends in the same \<open>catch\<close> as a failed burn.\<close>

definition burnWrites :: "string \<Rightarrow> int \<Rightarrow> string \<Rightarrow> int \<Rightarrow> (SqliteStore \<Rightarrow> SqliteStore) list" where
  "burnWrites rid amount burnSig now =
     [cb_record amount now, sql_setStatus rid SEEN (noPatch\<lparr>pt_txid := Some (Some burnSig)\<rparr>) now,
      sql_setStatus rid QUEUED noPatch now]"

definition runAll :: "(SqliteStore \<Rightarrow> SqliteStore) list \<Rightarrow> SqliteStore \<Rightarrow> SqliteStore" where
  "runAll ws s = foldl (\<lambda>s w. w s) s ws"

definition burnFailed :: "string \<Rightarrow> PegoutState \<Rightarrow> PegoutState" where
  "burnFailed rid st = staff rid (onStore (sql_delete rid) st)"

definition burnAndQueue ::
  "PegoutNode \<Rightarrow> (string \<Rightarrow> nat option) \<Rightarrow> DepositAddressRecord \<Rightarrow> string \<Rightarrow> int \<Rightarrow> int \<Rightarrow> PegoutState \<Rightarrow> PegoutState" where
  "burnAndQueue node fault dep rid amount now st =
     (case pn_burn node rid of
        Inl _ \<Rightarrow> burnFailed rid st
      | Inr burnSig \<Rightarrow>
          (let st1 = st\<lparr>ps_burns := ps_burns st @ [(da_vizAccount dep, amount, burnSig)]\<rparr>;
               ws = burnWrites rid amount burnSig now
           in case fault rid of
                None \<Rightarrow> onStore (runAll ws) st1
              | Some n \<Rightarrow> burnFailed rid (onStore (runAll (take n ws)) st1)))"

definition scanTransfer ::
  "(string \<Rightarrow> string) \<Rightarrow> CapPolicy \<Rightarrow> PegoutNode \<Rightarrow> (string \<Rightarrow> nat option) \<Rightarrow> int \<Rightarrow> DepositAddressRecord \<Rightarrow> IncomingTransfer \<Rightarrow>
   PegoutState \<Rightarrow> unit result \<times> PegoutState" where
  "scanTransfer sha policy node fault now dep t st =
     (let action = transferAction sha dep t; rid = act_id action; amount = act_amountMilliViz action
      in case sql_enqueue (claimInput sha dep t) now (ps_store st) of (first, s1) \<Rightarrow>
           if \<not> first then (Inr (), st\<lparr>ps_store := s1\<rparr>)
           else (case cb_check policy amount now s1 of (cap, s2) \<Rightarrow>
             (case (if cap = CapOk then pn_accountExists node (da_vizAccount dep) else Inr False) of
                Inl e \<Rightarrow> (Inl e, st\<lparr>ps_store := s2\<rparr>)
              | Inr ex \<Rightarrow>
                  (case guardPegOut cap ex of
                     NoBurn reason pause \<Rightarrow>
                       (Inr (), onStore (\<lambda>s. case pause of None \<Rightarrow> s | Some p \<Rightarrow> sql_pause p now s)
                          (staff rid (st\<lparr>ps_store := sql_setStatus rid HELD (heldPatch reason) now s2\<rparr>)))
                   | Burn \<Rightarrow> (Inr (), burnAndQueue node fault dep rid amount now (st\<lparr>ps_store := s2\<rparr>))))))"

fun transferLoop ::
  "(string \<Rightarrow> string) \<Rightarrow> CapPolicy \<Rightarrow> PegoutNode \<Rightarrow> (string \<Rightarrow> nat option) \<Rightarrow> int \<Rightarrow> DepositAddressRecord \<Rightarrow>
   IncomingTransfer list \<Rightarrow> PegoutState \<Rightarrow> unit result \<times> PegoutState" where
  "transferLoop sha policy node fault now dep [] st = (Inr (), st)"
| "transferLoop sha policy node fault now dep (t # ts) st =
     (case scanTransfer sha policy node fault now dep t st of
        (Inl e, st') \<Rightarrow> (Inl e, st')
      | (Inr _, st') \<Rightarrow> transferLoop sha policy node fault now dep ts st')"

fun depositScan ::
  "(string \<Rightarrow> string) \<Rightarrow> CapPolicy \<Rightarrow> PegoutNode \<Rightarrow> (string \<Rightarrow> nat option) \<Rightarrow> int \<Rightarrow> nat \<Rightarrow> DepositAddressRecord list \<Rightarrow>
   PegoutState \<Rightarrow> unit result \<times> PegoutState" where
  "depositScan sha policy node fault now slot [] st = (Inr (), st)"
| "depositScan sha policy node fault now slot (dep # deps) st =
     (case pn_incoming node (da_wvizAta dep) slot of
        Inl e \<Rightarrow> (Inl e, st)
      | Inr transfers \<Rightarrow>
          (case transferLoop sha policy node fault now dep transfers st of
             (Inl e, st') \<Rightarrow> (Inl e, st')
           | (Inr _, st') \<Rightarrow>
               depositScan sha policy node fault now slot deps (onStore (sql_touchDepositScan (da_vizAccount dep) now) st')))"

definition pegoutPass ::
  "(string \<Rightarrow> string) \<Rightarrow> CapPolicy \<Rightarrow> PegoutNode \<Rightarrow> (string \<Rightarrow> nat option) \<Rightarrow> nat \<Rightarrow> int \<Rightarrow> PegoutState \<Rightarrow> PegoutState" where
  "pegoutPass sha policy node fault batch now st =
     (if sql_isPaused (ps_store st) then st
      else let st1 = recoverSeen node now st
           in (case pn_finalizedSlot node of
                 Inl _ \<Rightarrow> st1
               | Inr slot \<Rightarrow>
                   snd (depositScan sha policy node fault now slot (sql_depositAddressesForScan (ps_store st1) batch) st1)))"

section \<open>The store operations\<close>

lemma sql_get_delete: "sql_get (sql_delete rid s) k = (if k = rid then None else sql_get s k)"
proof -
  have "List.find (\<lambda>r. ob_id r = rid) (filter (\<lambda>r. ob_id r \<noteq> rid) rs) = None" for rs :: "OutboxRecord list"
    by (induction rs) auto
  moreover have "List.find (\<lambda>r. ob_id r = k) (filter (\<lambda>r. ob_id r \<noteq> rid) rs) = List.find (\<lambda>r. ob_id r = k) rs"
    if "k \<noteq> rid" for rs :: "OutboxRecord list"
    using that by (induction rs) auto
  ultimately show ?thesis by (simp add: sql_get_def sql_delete_def)
qed

lemma sqlInv_delete: "sqlInv s \<Longrightarrow> sqlInv (sql_delete rid s)"
  by (simp add: sqlInv_def sql_delete_def distinct_map_filter)

lemma touch_reads [simp]:
  "sql_get (sql_touchDepositScan v now s) = sql_get s" "sqlInv (sql_touchDepositScan v now s) = sqlInv s"
  by (simp_all add: sql_touchDepositScan_def sql_get_def sqlInv_def fun_eq_iff)

lemma record_reads [simp]: "sql_get (cb_record a now s) = sql_get s" "sqlInv (cb_record a now s) = sqlInv s"
  by (simp_all add: cb_record_def sql_recordCap_def sql_get_def sqlInv_def fun_eq_iff)

lemma check_reads [simp]:
  "sql_get (snd (cb_check policy a now s)) = sql_get s" "sqlInv (snd (cb_check policy a now s)) = sqlInv s"
  by (simp_all add: cb_check_def sql_capSum_def sql_pruneCap_def sql_get_def sqlInv_def fun_eq_iff)

lemma claimInput_simps [simp]:
  "ei_id (claimInput sha dep t) = it_signature t" "ei_direction (claimInput sha dep t) = O_PEG_OUT"
  "ei_remoteChain (claimInput sha dep t) = Some SOLANA" "ei_recipient (claimInput sha dep t) = da_vizAccount dep"
  "ei_amountMilliViz (claimInput sha dep t) = it_amountBaseUnits t" "ei_status (claimInput sha dep t) = Some SEEN"
  by (simp_all add: claimInput_def transferAction_def)

lemma check_ok: "fst (cb_check policy a now s) = CapOk \<Longrightarrow> a \<le> cp_perTxMilliViz policy"
  by (auto simp: cb_check_def split: if_splits)

section \<open>One transfer\<close>

text \<open>The row of a claim that was queued for its release.\<close>

definition releasedBy :: "CapPolicy \<Rightarrow> PegoutNode \<Rightarrow> string \<times> int \<times> string \<Rightarrow> OutboxRecord \<Rightarrow> bool" where
  "releasedBy policy node b r \<longleftrightarrow> ob_direction r = O_PEG_OUT \<and> ob_remoteChain r = Some SOLANA \<and> ob_status r = QUEUED \<and>
     b = (ob_recipient r, ob_amountMilliViz r, the (ob_txid r)) \<and> ob_txid r \<noteq> None \<and>
     pn_accountExists node (ob_recipient r) = Inr True \<and> ob_amountMilliViz r \<le> cp_perTxMilliViz policy"

text \<open>The row of a claim that was not: still claimed, or held. Nothing was burned for it.\<close>

definition parked :: "OutboxRecord \<Rightarrow> bool" where
  "parked r \<longleftrightarrow> ob_direction r = O_PEG_OUT \<and> ob_remoteChain r = Some SOLANA \<and> (ob_status r = SEEN \<or> ob_status r = HELD) \<and>
     ob_txid r = None"

lemma runAll_queued:
  assumes "sqlInv s" "sql_get s rid = Some r"
  shows "sqlInv (runAll (burnWrites rid amount burnSig now) s)"
    "sql_get (runAll (burnWrites rid amount burnSig now) s) k = (if k = rid then
       Some (r\<lparr>ob_status := QUEUED, ob_txid := Some burnSig, ob_updatedAt := now\<rparr>) else sql_get s k)"
  using assms
  by (simp_all add: runAll_def burnWrites_def sq.inv_setStatus sq.get_setStatus applyStatus_def coalesce_def)

text \<open>
  What one step does. In a pass whose writes succeed: the transfer was known or its burn failed, and
  nothing changed; or it is parked without a burn; or it is queued with the burn just made.
\<close>

definition transferStep ::
  "CapPolicy \<Rightarrow> PegoutNode \<Rightarrow> string \<Rightarrow> PegoutState \<Rightarrow> PegoutState \<Rightarrow> bool" where
  "transferStep policy node k st st' \<longleftrightarrow> sqlInv (ps_store st') \<and>
     (\<forall>j. j \<noteq> k \<longrightarrow> sql_get (ps_store st') j = sql_get (ps_store st) j) \<and>
     (sql_get (ps_store st') k = sql_get (ps_store st) k \<and> ps_burns st' = ps_burns st \<or>
      sql_get (ps_store st) k = None \<and> (\<exists>r. sql_get (ps_store st') k = Some r \<and>
        (parked r \<and> ps_burns st' = ps_burns st \<or>
         (\<exists>b. releasedBy policy node b r \<and> ps_burns st' = ps_burns st @ [b]))))"

lemma burnAndQueue_step:
  assumes "sqlInv (ps_store st)" "fault rid = None" "sql_get (ps_store st) rid = Some r" "ob_status r = SEEN"
    "ob_direction r = O_PEG_OUT" "ob_remoteChain r = Some SOLANA" "ob_recipient r = da_vizAccount dep"
    "ob_amountMilliViz r = amount" "amount \<le> cp_perTxMilliViz policy" "pn_accountExists node (da_vizAccount dep) = Inr True"
    "sql_get (ps_store st0) rid = None" "ps_burns st = ps_burns st0"
    "\<forall>j. j \<noteq> rid \<longrightarrow> sql_get (ps_store st) j = sql_get (ps_store st0) j"
  shows "transferStep policy node rid st0 (burnAndQueue node fault dep rid amount now st)"
proof (cases "pn_burn node rid")
  case (Inl e)
  with assms show ?thesis
    by (simp add: burnAndQueue_def burnFailed_def staff_def onStore_def transferStep_def sql_get_delete sqlInv_delete)
next
  case (Inr burnSig)
  let ?r = "r\<lparr>ob_status := QUEUED, ob_txid := Some burnSig, ob_updatedAt := now\<rparr>"
  have "releasedBy policy node (da_vizAccount dep, amount, burnSig) ?r"
    using assms by (simp add: releasedBy_def)
  with Inr assms show ?thesis
    by (simp add: burnAndQueue_def onStore_def transferStep_def runAll_queued [OF assms(1,3)])
qed

lemma scanTransfer_step:
  assumes "sqlInv (ps_store st)" "fault (it_signature t) = None"
  shows "transferStep policy node (it_signature t) st (snd (scanTransfer sha policy node fault now dep t st))"
proof -
  let ?i = "claimInput sha dep t" and ?k = "it_signature t" and ?s = "ps_store st"
  have a: "act_id (transferAction sha dep t) = ?k" "act_amountMilliViz (transferAction sha dep t) = it_amountBaseUnits t"
    by (simp_all add: transferAction_def)
  obtain first s1 where e: "sql_enqueue ?i now ?s = (first, s1)" by (cases "sql_enqueue ?i now ?s")
  have s1: "sqlInv s1" "first \<longleftrightarrow> sql_get ?s ?k = None"
    using sq.inv_enqueue [OF assms(1), of ?i now] sq.enqueue_result [OF assms(1), of ?i now] e by simp_all
  have get: "sql_get s1 j = (if j = ?k \<and> sql_get ?s j = None then Some (recordOf ?i now) else sql_get ?s j)" for j
    using sq.get_enqueue [OF assms(1), of ?i now j] e by simp
  obtain cap s2 where c: "cb_check policy (it_amountBaseUnits t) now s1 = (cap, s2)"
    by (cases "cb_check policy (it_amountBaseUnits t) now s1")
  have s2: "sqlInv s2" "sql_get s2 = sql_get s1" "cap = CapOk \<Longrightarrow> it_amountBaseUnits t \<le> cp_perTxMilliViz policy"
    using check_reads [of policy "it_amountBaseUnits t" now s1] check_ok [of policy "it_amountBaseUnits t" now s1] s1(1) c by simp_all
  note step = scanTransfer_def Let_def a e c
  show ?thesis
  proof (cases first)
    case False
    then have "sql_get s1 j = sql_get ?s j" for j using s1(2) get [of j] by auto
    with False s1(1) show ?thesis by (simp add: step transferStep_def)
  next
    case True
    then have new: "sql_get ?s ?k = None" using s1(2) by simp
    have held: "transferStep policy node ?k st (staff ?k (st\<lparr>ps_store := sql_setStatus ?k HELD (heldPatch reason) now s2\<rparr>))"
      for reason
      using new get s2 by (simp add: transferStep_def staff_def sq.inv_setStatus sq.get_setStatus parked_def heldPatch_def noPatch_def)
    have heldPause: "transferStep policy node ?k st (onStore (sql_pause p now)
        (staff ?k (st\<lparr>ps_store := sql_setStatus ?k HELD (heldPatch reason) now s2\<rparr>)))" for reason p
      using held [of reason] by (simp add: transferStep_def onStore_def staff_def sql_get_outbox [of "sql_pause p now _"])
    show ?thesis
    proof (cases cap)
      case (CapReject why)
      with True held heldPause show ?thesis by (simp add: step guardPegOut_def onStore_def)
    next
      case CapOk
      show ?thesis
      proof (cases "pn_accountExists node (da_vizAccount dep)")
        case (Inl err)
        with True CapOk new get s2 show ?thesis
          by (simp add: step transferStep_def parked_def)
      next
        case (Inr ex)
        show ?thesis
        proof (cases ex)
          case False
          with Inr True CapOk held show ?thesis by (simp add: step guardPegOut_def onStore_def)
        next
          case ex: True
          have "transferStep policy node ?k st (burnAndQueue node fault dep ?k (it_amountBaseUnits t) now (st\<lparr>ps_store := s2\<rparr>))"
            by (rule burnAndQueue_step [where r = "recordOf ?i now"])
              (use new get s2 CapOk Inr ex assms(2) in \<open>simp_all\<close>)
          with Inr True CapOk ex show ?thesis by (simp add: step guardPegOut_def)
        qed
      qed
    qed
  qed
qed

section \<open>One scan\<close>

text \<open>
  Between the start of a scan and any later moment of it: old rows stand; the ids of the queued
  claims and the burns made so far correspond one to one; every other new row is parked.
\<close>

definition scanInv :: "CapPolicy \<Rightarrow> PegoutNode \<Rightarrow> PegoutState \<Rightarrow> PegoutState \<Rightarrow> bool" where
  "scanInv policy node st0 st \<longleftrightarrow> sqlInv (ps_store st) \<and>
     (\<forall>k r. sql_get (ps_store st0) k = Some r \<longrightarrow> sql_get (ps_store st) k = Some r) \<and>
     (\<exists>ids made. distinct ids \<and> ps_burns st = ps_burns st0 @ made \<and>
        list_all2 (\<lambda>k b. \<exists>r. sql_get (ps_store st) k = Some r \<and> releasedBy policy node b r) ids made \<and>
        (\<forall>k \<in> set ids. sql_get (ps_store st0) k = None) \<and>
        (\<forall>k r. sql_get (ps_store st) k = Some r \<and> sql_get (ps_store st0) k = None \<and> k \<notin> set ids \<longrightarrow> parked r))"

lemma scanInv_refl: "sqlInv (ps_store st) \<Longrightarrow> scanInv policy node st st"
  unfolding scanInv_def by (intro conjI exI [of _ "[]"]) auto

lemma scanInv_step:
  assumes "scanInv policy node st0 st" "transferStep policy node k st st'"
  shows "scanInv policy node st0 st'"
proof -
  let ?old = "ps_store st0" and ?cur = "ps_store st" and ?nxt = "ps_store st'"
  obtain ids made where old: "\<And>j r. sql_get ?old j = Some r \<Longrightarrow> sql_get ?cur j = Some r" and
    ids: "distinct ids" "ps_burns st = ps_burns st0 @ made" "\<forall>j \<in> set ids. sql_get ?old j = None"
      "list_all2 (\<lambda>j b. \<exists>r. sql_get ?cur j = Some r \<and> releasedBy policy node b r) ids made"
      "\<And>j r. sql_get ?cur j = Some r \<Longrightarrow> sql_get ?old j = None \<Longrightarrow> j \<notin> set ids \<Longrightarrow> parked r"
    using assms(1) unfolding scanInv_def by blast
  have inv: "sqlInv ?nxt" and other: "\<And>j. j \<noteq> k \<Longrightarrow> sql_get ?nxt j = sql_get ?cur j"
    using assms(2) by (simp_all add: transferStep_def)
  have idsIn: "sql_get ?cur j \<noteq> None" if "j \<in> set ids" for j
    using ids(4) that by (auto simp: list_all2_conv_all_nth in_set_conv_nth)
  show ?thesis
  proof (cases "sql_get ?nxt k = sql_get ?cur k \<and> ps_burns st' = ps_burns st")
    case True
    then have "sql_get ?nxt j = sql_get ?cur j" for j using other by (cases "j = k") auto
    with True inv old ids show ?thesis
      unfolding scanInv_def by (intro conjI exI [of _ ids] exI [of _ made]) auto
  next
    case False
    then obtain r where r: "sql_get ?cur k = None" "sql_get ?nxt k = Some r"
      "parked r \<and> ps_burns st' = ps_burns st \<or> (\<exists>b. releasedBy policy node b r \<and> ps_burns st' = ps_burns st @ [b])"
      using assms(2) unfolding transferStep_def by blast
    have k: "k \<notin> set ids" "sql_get ?old k = None" using idsIn [of k] r(1) old [of k] by (auto, cases "sql_get (ps_store st0) k", auto)
    have old': "\<And>j x. sql_get ?old j = Some x \<Longrightarrow> sql_get ?nxt j = Some x" using old other k(2) by (metis option.distinct(1))
    have ids': "list_all2 (\<lambda>j b. \<exists>r. sql_get ?nxt j = Some r \<and> releasedBy policy node b r) ids made"
      using ids(4) k(1) other unfolding list_all2_conv_all_nth by (metis nth_mem)
    have parked': "parked x" if "sql_get ?nxt j = Some x" "sql_get ?old j = None" "j \<notin> set ids" "j \<noteq> k" for j x
      using ids(5) [of j x] other [of j] that by simp
    from r(3) show ?thesis
    proof (elim disjE exE conjE)
      assume "parked r" "ps_burns st' = ps_burns st"
      with r(2) parked' have "\<forall>j x. sql_get ?nxt j = Some x \<and> sql_get ?old j = None \<and> j \<notin> set ids \<longrightarrow> parked x"
        by (metis option.inject)
      with \<open>ps_burns st' = ps_burns st\<close> inv old' ids(1-3) ids' show ?thesis
        unfolding scanInv_def by (intro conjI exI [of _ ids] exI [of _ made]) simp_all
    next
      fix b assume "releasedBy policy node b r" "ps_burns st' = ps_burns st @ [b]"
      with r(2) inv old' ids(1-3) ids' k parked' show ?thesis
        unfolding scanInv_def by (intro conjI exI [of _ "ids @ [k]"] exI [of _ "made @ [b]"]) (auto intro: list_all2_appendI)
    qed
  qed
qed

lemma transferLoop_inv:
  assumes "fault = (\<lambda>_. None)" "scanInv policy node st0 st"
  shows "scanInv policy node st0 (snd (transferLoop sha policy node fault now dep ts st))"
  using assms(2)
proof (induction ts arbitrary: st)
  case (Cons t ts)
  obtain res st' where s: "scanTransfer sha policy node fault now dep t st = (res, st')"
    by (cases "scanTransfer sha policy node fault now dep t st")
  have "sqlInv (ps_store st)" using Cons.prems by (simp add: scanInv_def)
  from scanTransfer_step [where policy = policy and node = node and sha = sha and now = now and dep = dep and t = t,
    OF this, of fault] s assms(1)
  have "scanInv policy node st0 st'" using scanInv_step [OF Cons.prems] by simp
  with Cons.IH s show ?case by (cases res) simp_all
qed simp

lemma depositScan_inv:
  assumes "fault = (\<lambda>_. None)" "scanInv policy node st0 st"
  shows "scanInv policy node st0 (snd (depositScan sha policy node fault now slot deps st))"
  using assms(2)
proof (induction deps arbitrary: st)
  case (Cons dep deps)
  show ?case
  proof (cases "pn_incoming node (da_wvizAta dep) slot")
    case (Inr ts)
    obtain res st' where l: "transferLoop sha policy node fault now dep ts st = (res, st')"
      by (cases "transferLoop sha policy node fault now dep ts st")
    have st': "scanInv policy node st0 st'"
      using transferLoop_inv [OF assms(1) Cons.prems, where sha = sha and now = now and dep = dep and ts = ts] l by simp
    then have "scanInv policy node st0 (onStore (sql_touchDepositScan (da_vizAccount dep) now) st')"
      by (simp add: scanInv_def onStore_def)
    from Cons.IH [OF this] st' Inr l show ?thesis by (cases res) simp_all
  qed (use Cons.prems in simp)
qed simp

section \<open>The recovery\<close>

definition recoveredRow :: "PegoutNode \<Rightarrow> int \<Rightarrow> OutboxRecord \<Rightarrow> OutboxRecord option" where
  "recoveredRow node now r =
     (if ob_direction r = O_PEG_OUT \<and> truthy (ob_txid r)
      then (case pn_signatureLanded node (the (ob_txid r)) of
          Inl _ \<Rightarrow> Some r
        | Inr landed \<Rightarrow> if landed then Some (applyStatus QUEUED noPatch now r) else None)
      else Some r)"

lemma recoverSeenRow_effect:
  assumes "sqlInv (ps_store st)" "sql_get (ps_store st) (ob_id r) = Some r"
  shows "sqlInv (ps_store (recoverSeenRow node now r st))"
    and "sql_get (ps_store (recoverSeenRow node now r st)) k =
      (if k = ob_id r then recoveredRow node now r else sql_get (ps_store st) k)"
    and "ob_direction r = O_PEG_OUT \<Longrightarrow> \<not> truthy (ob_txid r) \<Longrightarrow> ob_id r \<in> set (ps_alertedSeen (recoverSeenRow node now r st))"
    and "x \<noteq> ob_id r \<Longrightarrow> x \<in> set (ps_alertedSeen st) \<Longrightarrow> x \<in> set (ps_alertedSeen (recoverSeenRow node now r st))"
    and "ps_burns (recoverSeenRow node now r st) = ps_burns st"
  using assms
  by (auto simp: recoverSeenRow_def classifySeenRecovery_def recoverAs_def onStore_def forgetAlert_def staff_def recoveredRow_def
      sq.inv_setStatus sq.get_setStatus sqlInv_delete sql_get_delete split: sum.splits)

abbreviation recoverRows :: "PegoutNode \<Rightarrow> int \<Rightarrow> OutboxRecord list \<Rightarrow> PegoutState \<Rightarrow> PegoutState" where
  "recoverRows node now rs st \<equiv> foldl (\<lambda>st r. recoverSeenRow node now r st) st rs"

text \<open>The rows a recovery starts from: each is in the store, once.\<close>

definition rowsOf :: "PegoutState \<Rightarrow> OutboxRecord list \<Rightarrow> bool" where
  "rowsOf st rs \<longleftrightarrow> sqlInv (ps_store st) \<and> distinct (map ob_id rs) \<and> (\<forall>r \<in> set rs. sql_get (ps_store st) (ob_id r) = Some r)"

lemma rowsOf_step: "rowsOf st (r # rs) \<Longrightarrow> rowsOf (recoverSeenRow node now r st) rs"
proof -
  assume rows: "rowsOf st (r # rs)"
  then have here: "sqlInv (ps_store st)" "sql_get (ps_store st) (ob_id r) = Some r" by (simp_all add: rowsOf_def)
  have "sql_get (ps_store (recoverSeenRow node now r st)) (ob_id x) = Some x" if x: "x \<in> set rs" for x
  proof -
    have "ob_id x \<noteq> ob_id r" using rows x by (force simp: rowsOf_def)
    moreover have "sql_get (ps_store st) (ob_id x) = Some x" using rows x by (simp add: rowsOf_def)
    ultimately show ?thesis by (simp add: recoverSeenRow_effect(2) [OF here])
  qed
  with rows recoverSeenRow_effect(1) [OF here] show ?thesis by (simp add: rowsOf_def)
qed

lemma recoverRows_other:
  "rowsOf st rs \<Longrightarrow> k \<notin> ob_id ` set rs \<Longrightarrow> sql_get (ps_store (recoverRows node now rs st)) k = sql_get (ps_store st) k"
proof (induction rs arbitrary: st)
  case (Cons r rs)
  then have here: "sqlInv (ps_store st)" "sql_get (ps_store st) (ob_id r) = Some r" by (simp_all add: rowsOf_def)
  show ?case using Cons.IH [OF rowsOf_step [OF Cons.prems(1)]] Cons.prems(2) by (simp add: recoverSeenRow_effect(2) [OF here])
qed simp

lemma recoverRows_alerted:
  "rowsOf st rs \<Longrightarrow> x \<in> set (ps_alertedSeen st) \<Longrightarrow> x \<notin> ob_id ` set rs \<Longrightarrow>
   x \<in> set (ps_alertedSeen (recoverRows node now rs st))"
proof (induction rs arbitrary: st)
  case (Cons r rs)
  then have here: "sqlInv (ps_store st)" "sql_get (ps_store st) (ob_id r) = Some r" by (simp_all add: rowsOf_def)
  show ?case using Cons.IH [OF rowsOf_step [OF Cons.prems(1)]] Cons.prems(2,3) by (simp add: recoverSeenRow_effect(4) [OF here])
qed simp

lemma recoverRows_row:
  "rowsOf st rs \<Longrightarrow> r \<in> set rs \<Longrightarrow>
   sql_get (ps_store (recoverRows node now rs st)) (ob_id r) = recoveredRow node now r \<and>
   (ob_direction r = O_PEG_OUT \<and> \<not> truthy (ob_txid r) \<longrightarrow> ob_id r \<in> set (ps_alertedSeen (recoverRows node now rs st)))"
proof (induction rs arbitrary: st)
  case (Cons x rs)
  then have here: "sqlInv (ps_store st)" "sql_get (ps_store st) (ob_id x) = Some x" by (simp_all add: rowsOf_def)
  note step = rowsOf_step [OF Cons.prems(1), of node now]
  show ?case
  proof (cases "r = x")
    case True
    then have "ob_id r \<notin> ob_id ` set rs" using Cons.prems(1) by (simp add: rowsOf_def)
    with True show ?thesis
      using recoverRows_other [OF step] recoverRows_alerted [OF step] recoverSeenRow_effect(2,3) [OF here] by simp
  next
    case False
    with Cons.prems(2) have "r \<in> set rs" by simp
    from Cons.IH [OF step this] show ?thesis by simp
  qed
qed simp

lemma recoverRows_inv:
  "rowsOf st rs \<Longrightarrow> sqlInv (ps_store (recoverRows node now rs st)) \<and> ps_burns (recoverRows node now rs st) = ps_burns st"
proof (induction rs arbitrary: st)
  case (Cons r rs)
  then have here: "sqlInv (ps_store st)" "sql_get (ps_store st) (ob_id r) = Some r" by (simp_all add: rowsOf_def)
  show ?case using Cons.IH [OF rowsOf_step [OF Cons.prems]] by (simp add: recoverSeenRow_effect(5) [OF here])
qed (simp add: rowsOf_def)

lemma rowsOf_stale: "sqlInv (ps_store st) \<Longrightarrow> rowsOf st (sql_stale (ps_store st) now age statuses)"
  using sql_get_row by (auto simp: rowsOf_def sql_stale_def sqlInv_def distinct_map_filter)

section \<open>Properties\<close>

text \<open>
  C30. The scanner releases exactly what it burned. In a pass whose store writes succeed, the rows
  newly queued for a VIZ release and the burns the node accepted correspond one to one: each has the
  account, the amount and the burn's signature in its row, the account exists on VIZ and the amount
  is within the cap of one transfer. Every other new row is parked, without a burn, and no row that
  stood after the recovery is touched, so a transfer that was claimed before is not burned again.
\<close>

theorem one_burn_per_release:
  assumes "sqlInv (ps_store st)" "\<not> sql_isPaused (ps_store st)"
    "st1 = recoverSeen node now st" "st' = pegoutPass sha policy node (\<lambda>_. None) batch now st"
  shows "(\<exists>ids made. distinct ids \<and> ps_burns st' = ps_burns st @ made \<and>
      list_all2 (\<lambda>k b. sql_get (ps_store st1) k = None \<and>
        (\<exists>r. sql_get (ps_store st') k = Some r \<and> releasedBy policy node b r)) ids made \<and>
      (\<forall>k r. sql_get (ps_store st') k = Some r \<and> sql_get (ps_store st1) k = None \<and> k \<notin> set ids \<longrightarrow> parked r)) \<and>
    (\<forall>k r. sql_get (ps_store st1) k = Some r \<longrightarrow> sql_get (ps_store st') k = Some r)"
proof -
  have st1: "sqlInv (ps_store st1)" "ps_burns st1 = ps_burns st"
    using recoverRows_inv [OF rowsOf_stale [OF assms(1)]] by (simp_all add: assms(3) recoverSeen_def)
  have "scanInv policy node st1 st'"
    using assms(2) scanInv_refl [OF st1(1)] depositScan_inv [OF refl scanInv_refl [OF st1(1)]]
    by (simp add: assms(3,4) pegoutPass_def Let_def split: sum.split)
  then obtain ids made where inv: "\<forall>k r. sql_get (ps_store st1) k = Some r \<longrightarrow> sql_get (ps_store st') k = Some r"
    "distinct ids" "ps_burns st' = ps_burns st1 @ made" "\<forall>k \<in> set ids. sql_get (ps_store st1) k = None"
    "list_all2 (\<lambda>k b. \<exists>r. sql_get (ps_store st') k = Some r \<and> releasedBy policy node b r) ids made"
    "\<forall>k r. sql_get (ps_store st') k = Some r \<and> sql_get (ps_store st1) k = None \<and> k \<notin> set ids \<longrightarrow> parked r"
    unfolding scanInv_def by blast
  have "list_all2 (\<lambda>k b. sql_get (ps_store st1) k = None \<and>
        (\<exists>r. sql_get (ps_store st') k = Some r \<and> releasedBy policy node b r)) ids made"
    using inv(4,5) by (simp add: list_all2_conv_all_nth)
  with inv st1(2) show ?thesis by (intro conjI exI [of _ ids] exI [of _ made]) simp_all
qed

definition dep_example :: DepositAddressRecord where
  "dep_example = \<lparr>da_vizAccount = ''alice'', da_solAddress = ''pda'', da_wvizAta = ''ata'', da_createdAt = 1,
     da_scanTime = 0, da_priority = 0\<rparr>"

definition transfer_example :: IncomingTransfer where
  "transfer_example = \<lparr>it_signature = ''tsig'', it_slot = 40, it_amountBaseUnits = 900\<rparr>"

definition node_example :: PegoutNode where
  "node_example = \<lparr>pn_signatureLanded = (\<lambda>_. Inr True), pn_finalizedSlot = Inr 60,
     pn_incoming = (\<lambda>a slot. Inr [transfer_example]), pn_accountExists = (\<lambda>n. Inr (n = ''alice'')),
     pn_burn = (\<lambda>_. Inr ''bsig'')\<rparr>"

definition scan_state_example :: PegoutState where
  "scan_state_example = \<lparr>ps_store = emptySqlite\<lparr>tb_deposits := [dep_example]\<rparr>, ps_alertedSeen = [], ps_burns = [],
     ps_notices = []\<rparr>"

definition scan_policy_example :: CapPolicy where
  "scan_policy_example = \<lparr>cp_perTxMilliViz = 1000, cp_rolling24hMilliViz = 5000, cp_manualReviewAboveMilliViz = 1000\<rparr>"

lemma scan_example_start:
  "sqlInv (ps_store scan_state_example)" "\<not> sql_isPaused (ps_store scan_state_example)"
  "recoverSeen node_example 9 scan_state_example = scan_state_example"
  by (simp_all add: scan_state_example_def sqlInv_def emptySqlite_def sql_isPaused_def sql_getKey_def recoverSeen_def sql_stale_def)

lemma pass_example:
  "ps_burns (pegoutPass (\<lambda>s. s) scan_policy_example node_example (\<lambda>_. None) 5 9 scan_state_example) = [(''alice'', 900, ''bsig'')]"
  using scan_example_start(2)
  by (simp add: pegoutPass_def scan_example_start(3))
    (simp add: node_example_def scan_state_example_def sql_depositAddressesForScan_def scanTransfer_def Let_def sql_enqueue_def
      sql_get_def emptySqlite_def cb_check_def sql_capSum_def sql_pruneCap_def windowSum_def scan_policy_example_def
      transferAction_def transfer_example_def dep_example_def guardPegOut_def burnAndQueue_def onStore_def)

theorem one_burn_per_release_witness:
  "\<exists>k r. sql_get (ps_store (pegoutPass (\<lambda>s. s) scan_policy_example node_example (\<lambda>_. None) 5 9 scan_state_example)) k = Some r \<and>
     ob_status r = QUEUED \<and> ob_txid r = Some ''bsig''"
proof -
  let ?st' = "pegoutPass (\<lambda>s. s) scan_policy_example node_example (\<lambda>_. None) 5 9 scan_state_example"
  from one_burn_per_release [OF scan_example_start(1,2) refl refl,
      where node = node_example and now = 9 and sha = "\<lambda>s. s" and policy = scan_policy_example and batch = 5]
  obtain ids made where m: "ps_burns ?st' = ps_burns scan_state_example @ made"
    "list_all2 (\<lambda>k b. sql_get (ps_store (recoverSeen node_example 9 scan_state_example)) k = None \<and>
       (\<exists>r. sql_get (ps_store ?st') k = Some r \<and> releasedBy scan_policy_example node_example b r)) ids made" by blast
  have "ps_burns scan_state_example = []" by (simp add: scan_state_example_def)
  with m(1) have "made = [(''alice'', 900, ''bsig'')]" by (simp add: pass_example)
  with m(2) obtain k r where "sql_get (ps_store ?st') k = Some r"
    "releasedBy scan_policy_example node_example (''alice'', 900, ''bsig'') r"
    by (auto simp: list_all2_Cons2)
  then show ?thesis by (intro exI [of _ k] exI [of _ r]) (auto simp: releasedBy_def)
qed

text \<open>
  The recovery never guesses. A claim stuck in \<open>SEEN\<close> for five minutes is queued for its release
  only if the node says that the checkpointed burn has landed, and dropped for a new attempt only if
  the node says that it has not; without an answer the row waits; without a checkpoint it waits and
  its id is among those reported to the staff. Every other row is left alone, and nothing is burned.
\<close>

lemma stale_claims_settled:
  assumes "sqlInv (ps_store st)" "st' = recoverSeen node now st" "sql_get (ps_store st) k = Some r"
  shows "sql_get (ps_store st') k =
      (if ob_status r = SEEN \<and> ob_updatedAt r < now - STALE_SEEN_MS \<and> ob_direction r = O_PEG_OUT \<and> truthy (ob_txid r)
       then (case pn_signatureLanded node (the (ob_txid r)) of
           Inl _ \<Rightarrow> Some r
         | Inr landed \<Rightarrow> if landed then Some (applyStatus QUEUED noPatch now r) else None)
       else Some r) \<and>
    (ob_status r = SEEN \<and> ob_updatedAt r < now - STALE_SEEN_MS \<and> ob_direction r = O_PEG_OUT \<and> \<not> truthy (ob_txid r) \<longrightarrow>
       k \<in> set (ps_alertedSeen st')) \<and> ps_burns st' = ps_burns st"
proof -
  let ?rs = "sql_stale (ps_store st) now STALE_SEEN_MS [SEEN]"
  note rows = rowsOf_stale [OF assms(1), of now STALE_SEEN_MS "[SEEN]"]
  have id: "ob_id r = k" by (rule sql_get_id [OF assms(3)])
  have mem: "r \<in> set ?rs \<longleftrightarrow> ob_status r = SEEN \<and> ob_updatedAt r < now - STALE_SEEN_MS"
    using sql_get_in [OF assms(3)] by (auto simp: sql_stale_def)
  have other: "k \<notin> ob_id ` set ?rs" if "r \<notin> set ?rs"
  proof
    assume "k \<in> ob_id ` set ?rs"
    then obtain x where "x \<in> set ?rs" "ob_id x = k" by auto
    with rows assms(3) have "x = r" by (auto simp: rowsOf_def)
    with that \<open>x \<in> set ?rs\<close> show False by simp
  qed
  show ?thesis
  proof (cases "r \<in> set ?rs")
    case True
    with recoverRows_row [OF rows True, of node now] recoverRows_inv [OF rows, of node now] id mem show ?thesis
      by (simp add: assms(2) recoverSeen_def recoveredRow_def)
  next
    case False
    with recoverRows_other [OF rows other [OF False], of node now] recoverRows_inv [OF rows, of node now] assms(3) mem
    show ?thesis by (auto simp: assms(2) recoverSeen_def)
  qed
qed

definition seen_example :: OutboxRecord where
  "seen_example = (recordOf (claimInput (\<lambda>s. s) dep_example transfer_example) 5)\<lparr>ob_txid := Some ''bsig''\<rparr>"

section \<open>What the code leaves open\<close>

text \<open>
  A store write that fails after the burn is taken for a failed burn: the claim is deleted although
  the wVIZ is gone, so nothing will release it, and the next scan burns for the same transfer again.
\<close>

lemma failed_write_forgets_burn:
  assumes "pn_burn node rid = Inr burnSig" "fault rid = Some n"
  shows "sql_get (ps_store (burnAndQueue node fault dep rid amount now st)) rid = None \<and>
    ps_burns (burnAndQueue node fault dep rid amount now st) = ps_burns st @ [(da_vizAccount dep, amount, burnSig)]"
  using assms by (simp add: burnAndQueue_def burnFailed_def staff_def onStore_def sql_get_delete)

text \<open>
  The release is queued as soon as the node has accepted the burn. That the burn lands is never
  checked: the recovery looks at \<open>SEEN\<close> rows only, so a dropped burn is released all the same.
\<close>

lemma dropped_burn_still_released:
  assumes "sqlInv (ps_store st)" "sql_get (ps_store st) rid = Some r" "pn_burn node rid = Inr burnSig" "fault rid = None"
    "st1 = burnAndQueue node fault dep rid amount now st" "pn_signatureLanded later = (\<lambda>_. Inr False)"
  shows "\<exists>x. sql_get (ps_store (recoverSeen later now' st1)) rid = Some x \<and> ob_status x = QUEUED"
proof -
  let ?x = "r\<lparr>ob_status := QUEUED, ob_txid := Some burnSig, ob_updatedAt := now\<rparr>"
  have "sqlInv (ps_store st1)" "sql_get (ps_store st1) rid = Some ?x"
    using assms(3-5)
    by (simp_all add: burnAndQueue_def onStore_def runAll_queued [OF assms(1,2)])
  note one = this
  have "rid \<notin> ob_id ` set (sql_stale (ps_store st1) now' STALE_SEEN_MS [SEEN])"
  proof
    assume "rid \<in> ob_id ` set (sql_stale (ps_store st1) now' STALE_SEEN_MS [SEEN])"
    then obtain y where "y \<in> set (sql_stale (ps_store st1) now' STALE_SEEN_MS [SEEN])" "ob_id y = rid" by auto
    with rowsOf_stale [OF one(1), of now' STALE_SEEN_MS "[SEEN]"] one(2) show False
      by (auto simp: rowsOf_def sql_stale_def)
  qed
  from recoverRows_other [OF rowsOf_stale [OF one(1)] this] one(2) show ?thesis by (simp add: recoverSeen_def)
qed

text \<open>
  An error of the account check strands the deposit: the claim is in the outbox before the check, so
  the pass ends with the row in \<open>SEEN\<close> and no checkpoint. Later scans skip the transfer as claimed,
  and the recovery only reports it.
\<close>

lemma account_error_strands_claim:
  assumes "sqlInv (ps_store st)" "sql_get (ps_store st) (it_signature t) = None" "pn_accountExists node (da_vizAccount dep) = Inl e"
    "fst (cb_check policy (it_amountBaseUnits t) now (snd (sql_enqueue (claimInput sha dep t) now (ps_store st)))) = CapOk"
    "scanTransfer sha policy node fault now dep t st = (res, st1)"
  shows "res = Inl e" "\<exists>r. sql_get (ps_store st1) (it_signature t) = Some r \<and> ob_status r = SEEN \<and> ob_txid r = None"
    and "\<exists>r. sql_get (ps_store (recoverSeen later now' st1)) (it_signature t) = Some r \<and> ob_status r = SEEN"
proof -
  let ?i = "claimInput sha dep t"
  have a: "act_id (transferAction sha dep t) = it_signature t" "act_amountMilliViz (transferAction sha dep t) = it_amountBaseUnits t"
    by (simp_all add: transferAction_def)
  obtain s1 where enq: "sql_enqueue ?i now (ps_store st) = (True, s1)"
    using sq.enqueue_result [OF assms(1), of ?i now] assms(2) by (cases "sql_enqueue ?i now (ps_store st)") simp
  have s1: "sqlInv s1" "sql_get s1 (it_signature t) = Some (recordOf ?i now)"
    using sq.inv_enqueue [OF assms(1), of ?i now] sq.get_enqueue [OF assms(1), of ?i now] assms(2) enq by simp_all
  obtain s2 where c: "cb_check policy (it_amountBaseUnits t) now s1 = (CapOk, s2)"
    using assms(4) enq by (cases "cb_check policy (it_amountBaseUnits t) now s1") simp
  have s2: "sqlInv s2" "sql_get s2 = sql_get s1"
    using check_reads [of policy "it_amountBaseUnits t" now s1] s1(1) c by simp_all
  have "scanTransfer sha policy node fault now dep t st = (Inl e, st\<lparr>ps_store := s2\<rparr>)"
    using assms(3) by (simp add: scanTransfer_def Let_def a enq c)
  with assms(5) have res: "res = Inl e" "st1 = st\<lparr>ps_store := s2\<rparr>" by simp_all
  then show "res = Inl e" by simp
  have row: "sqlInv (ps_store st1)" "sql_get (ps_store st1) (it_signature t) = Some (recordOf ?i now)"
    using s1 s2 res(2) by simp_all
  then show "\<exists>r. sql_get (ps_store st1) (it_signature t) = Some r \<and> ob_status r = SEEN \<and> ob_txid r = None" by simp
  let ?rs = "sql_stale (ps_store st1) now' STALE_SEEN_MS [SEEN]"
  note rows = rowsOf_stale [OF row(1), of now' STALE_SEEN_MS "[SEEN]"]
  have "sql_get (ps_store (recoverSeen later now' st1)) (it_signature t) = Some (recordOf ?i now)"
  proof (cases "it_signature t \<in> ob_id ` set ?rs")
    case True
    then obtain x where x: "x \<in> set ?rs" "ob_id x = it_signature t" by auto
    then have "x = recordOf ?i now" using rows row(2) by (auto simp: rowsOf_def)
    with recoverRows_row [OF rows x(1), of later now'] x(2) show ?thesis
      by (simp add: recoverSeen_def recoveredRow_def)
  next
    case False
    from recoverRows_other [OF rows this] row(2) show ?thesis by (simp add: recoverSeen_def)
  qed
  then show "\<exists>r. sql_get (ps_store (recoverSeen later now' st1)) (it_signature t) = Some r \<and> ob_status r = SEEN" by simp
qed

end
