(* ===== verification/SolanaWatcher.thy ===== *)
theory SolanaWatcher
  imports Intake SolanaChain
begin

text \<open>
  The Solana watcher (\<open>packages/solana-watcher/src/index.ts\<close>): one pass of its loop over the
  returns to the gateway token account. The node's answers are parameters and may throw; an
  exception ends the pass with what it has written so far.
\<close>

definition SOLANA_CURSOR :: string where "SOLANA_CURSOR = ''cursor:solana-watcher''"

definition SOLANA_CAP_REASON :: string where "SOLANA_CAP_REASON = ''Solana peg-out 24h cap exceeded''"

definition solReturnInput :: "(string \<Rightarrow> string) \<Rightarrow> RemoteBurn \<Rightarrow> EnqueueInput" where
  "solReturnInput sha burn =
     (let action = canonicalPegOut sha burn
      in \<lparr>ei_id = act_id action, ei_direction = O_PEG_OUT, ei_remoteChain = act_remoteChain action,
          ei_recipient = act_recipient action, ei_sender = None, ei_amountMilliViz = act_amountMilliViz action,
          ei_feeMilliViz = None, ei_digest = act_digest action, ei_status = Some SEEN, ei_lastError = None,
          ei_parentId = None, ei_blockNum = None\<rparr>)"

definition processReturn :: "(string \<Rightarrow> string) \<Rightarrow> CapPolicy \<Rightarrow> RemoteBurn \<Rightarrow> int \<Rightarrow> SqliteStore \<Rightarrow> SqliteStore" where
  "processReturn sha policy burn now s = enqueueSeen policy SOLANA_CAP_REASON (solReturnInput sha burn) now s"

record SolanaWatchNode =
  sn_finalizedSlot :: "nat result"
  sn_burns :: "nat \<Rightarrow> (RemoteBurn list \<times> nat \<times> bool) result"

record SolanaWatcherState =
  sw_cursor :: nat
  sw_store :: SqliteStore

definition solTruncatedReason :: "nat \<Rightarrow> nat \<Rightarrow> string" where
  "solTruncatedReason cursor maxScanPages =
     ''Solana peg-out scan truncated at slot '' @ decNat cursor @
     '': burst exceeds scan window (maxScanPages='' @ decNat maxScanPages @ '')''"

definition solTick ::
  "(string \<Rightarrow> string) \<Rightarrow> CapPolicy \<Rightarrow> nat \<Rightarrow> SolanaWatchNode \<Rightarrow> int \<Rightarrow> (RemoteBurn \<Rightarrow> int) \<Rightarrow> SolanaWatcherState \<Rightarrow>
   SolanaWatcherState" where
  "solTick sha policy maxScanPages node now clock st =
     (if sql_isPaused (sw_store st) then st
      else (case sn_finalizedSlot node of
          Inl _ \<Rightarrow> st
        | Inr slot \<Rightarrow>
            if sw_cursor st = 0
            then \<lparr>sw_cursor = slot, sw_store = sql_setCursor SOLANA_CURSOR (int slot) now (sw_store st)\<rparr>
            else if slot > sw_cursor st
            then (case sn_burns node (sw_cursor st) of
                Inl _ \<Rightarrow> st
              | Inr (burns, newestFinalSlot, drained) \<Rightarrow>
                  let s1 = intakeRun (processReturn sha policy) clock burns (sw_store st)
                  in if drained
                     then \<lparr>sw_cursor = newestFinalSlot,
                            sw_store = sql_setCursor SOLANA_CURSOR (int newestFinalSlot) now s1\<rparr>
                     else st\<lparr>sw_store := sql_pause (solTruncatedReason (sw_cursor st) maxScanPages) now s1\<rparr>)
            else st))"

lemma solReturnInput_simps [simp]:
  "ei_id (solReturnInput sha b) = burn_sourceId b" "ei_direction (solReturnInput sha b) = O_PEG_OUT"
  "ei_amountMilliViz (solReturnInput sha b) = burn_amountMilliViz b" "ei_recipient (solReturnInput sha b) = burn_homeDestination b"
  "ei_remoteChain (solReturnInput sha b) = Some (burn_chain b)" "ei_status (solReturnInput sha b) = Some SEEN"
  "ei_digest (solReturnInput sha b) = act_digest (canonicalPegOut sha b)"
  by (simp_all add: solReturnInput_def)

text \<open>The row of a return that was decided: queued for its release, or held over a cap.\<close>

definition returnRow :: "(string \<Rightarrow> string) \<Rightarrow> RemoteBurn \<Rightarrow> OutboxRecord \<Rightarrow> bool" where
  "returnRow sha b r \<longleftrightarrow>
     ob_direction r = O_PEG_OUT \<and> ob_remoteChain r = Some (burn_chain b) \<and> ob_recipient r = burn_homeDestination b \<and>
     ob_amountMilliViz r = burn_amountMilliViz b \<and> ob_digest r = act_digest (canonicalPegOut sha b) \<and>
     (ob_status r = QUEUED \<or> ob_status r = HELD)"

interpretation solIntake: event_intake burn_sourceId "processReturn sha policy" "returnRow sha"
  for sha policy
proof
  fix s b now k r
  assume inv: "sqlInv s"
  show "sqlInv (processReturn sha policy b now s)" using inv by (simp add: processReturn_def enqueueSeen_inv)
  show "\<exists>r. sql_get (processReturn sha policy b now s) (burn_sourceId b) = Some r \<and> returnRow sha b r"
    if "sql_get s (burn_sourceId b) = None"
    using enqueueSeen_get(1) [OF inv, of "solReturnInput sha b" policy SOLANA_CAP_REASON now] that
    by (auto simp: processReturn_def decidedRow_def sameEvent_def returnRow_def)
  show "sql_get (processReturn sha policy b now s) (burn_sourceId b) = Some r" if "sql_get s (burn_sourceId b) = Some r"
    using that by (simp add: processReturn_def enqueueSeen_get(2) [OF inv])
  show "sql_get (processReturn sha policy b now s) k = sql_get s k" if "k \<noteq> burn_sourceId b"
    using that by (simp add: processReturn_def enqueueSeen_get(3) [OF inv])
qed

lemma sql_get_cursor [simp]: "sql_get (sql_setCursor n v now s) = sql_get s"
  by (rule sql_get_outbox) (simp add: sql_setCursor_def split: option.split)

text \<open>
  No return is lost between two passes: let a pass have died after any number of the returns of
  its scan, before it wrote its cursor. The next pass, when its scan drains, moves the cursor to the
  scan's end, and every return it saw that had no row before has one, with its recipient, amount,
  chain and digest, queued or held; when the scan is truncated the cursor stays and the gateway is
  paused; and a pass changes no row that was there.
\<close>

lemma no_return_lost:
  assumes "sqlInv s" "sql_get s (burn_sourceId b) = None"
    "sw_store st = intakeRun (processReturn sha policy) clock0 pre s"
    "\<not> sql_isPaused (sw_store st)" "sw_cursor st \<noteq> 0" "sn_finalizedSlot node = Inr slot" "sw_cursor st < slot"
    "sn_burns node (sw_cursor st) = Inr (pre @ rest, newest, drained)"
    "distinct (map burn_sourceId (pre @ rest))" "b \<in> set (pre @ rest)"
    "st' = solTick sha policy maxScanPages node now clock st"
  shows "(\<exists>r. sql_get (sw_store st') (burn_sourceId b) = Some r \<and> returnRow sha b r) \<and>
    sw_cursor st' = (if drained then newest else sw_cursor st) \<and> (\<not> drained \<longrightarrow> sql_isPaused (sw_store st')) \<and>
    (\<forall>k r. sql_get (sw_store st) k = Some r \<longrightarrow> sql_get (sw_store st') k = Some r)"
proof -
  let ?s1 = "intakeRun (processReturn sha policy) clock (pre @ rest) (sw_store st)"
  have "\<exists>r. sql_get ?s1 (burn_sourceId b) = Some r \<and> returnRow sha b r"
    unfolding assms(3) by (rule solIntake.rerun_new [OF assms(1,9,10,2)])
  moreover have "sqlInv (sw_store st)" using solIntake.run_inv [OF assms(1)] assms(3) by simp
  then have "\<forall>k r. sql_get (sw_store st) k = Some r \<longrightarrow> sql_get ?s1 k = Some r"
    using solIntake.run_known by blast
  ultimately show ?thesis
    using assms(4-8) by (simp add: assms(11) solTick_def Let_def)
qed

definition sol_return_a :: RemoteBurn where
  "sol_return_a = \<lparr>burn_chain = SOLANA, burn_sourceId = ''sa'', burn_height = 5, burn_from = ''x'', burn_amountMilliViz = 300,
     burn_homeDestination = ''alice''\<rparr>"

definition sol_return_b :: RemoteBurn where
  "sol_return_b = sol_return_a\<lparr>burn_sourceId := ''sb''\<rparr>"

definition sol_node_example :: SolanaWatchNode where
  "sol_node_example = \<lparr>sn_finalizedSlot = Inr 90, sn_burns = (\<lambda>c. Inr ([sol_return_b, sol_return_a], 70, True))\<rparr>"

definition sol_state_example :: SolanaWatcherState where
  "sol_state_example = \<lparr>sw_cursor = 60,
     sw_store = intakeRun (processReturn (\<lambda>s. s) cap_example) (\<lambda>_. 5) [sol_return_b] emptySqlite\<rparr>"

lemma sol_state_not_paused: "\<not> sql_isPaused (sw_store sol_state_example)"
  by (simp add: sol_state_example_def sol_return_b_def sol_return_a_def processReturn_def enqueueSeen_def solReturnInput_def
      Let_def sql_enqueue_def sql_isPaused_def sql_getKey_def emptySqlite_def sql_get_def capAndAdvance_def cb_checkAndRecord_def
      sql_tryReserveCap_def sql_capSum_def sql_pruneCap_def windowSum_def cap_example_def sql_recordCap_def sql_setStatus_def)

section \<open>A crash in the middle of one return\<close>

lemma solTick_keeps_row:
  assumes "sqlInv (sw_store st)" "sql_get (sw_store st) k = Some r"
  shows "sqlInv (sw_store (solTick sha policy maxScanPages node now clock st)) \<and>
    sql_get (sw_store (solTick sha policy maxScanPages node now clock st)) k = Some r"
proof -
  have cursor: "sqlInv (sql_setCursor n v now s) = sqlInv s" for n v s
    by (rule sqlInv_outbox) (simp add: sql_setCursor_def split: option.split)
  have "sqlInv (intakeRun (processReturn sha policy) clock bs (sw_store st)) \<and>
      sql_get (intakeRun (processReturn sha policy) clock bs (sw_store st)) k = Some r" for bs
    using solIntake.run_inv [OF assms(1)] solIntake.run_known [OF assms] by blast
  with assms show ?thesis by (auto simp: solTick_def Let_def cursor split: sum.splits prod.splits)
qed

text \<open>
  This watcher has no recovery of \<open>SEEN\<close> rows. A crash between the claim of a return and its cap
  decision leaves the row in \<open>SEEN\<close>, and no sequence of later passes moves it.
\<close>

fun solRun ::
  "(string \<Rightarrow> string) \<Rightarrow> CapPolicy \<Rightarrow> nat \<Rightarrow> (SolanaWatchNode \<times> int) list \<Rightarrow> (RemoteBurn \<Rightarrow> int) \<Rightarrow> SolanaWatcherState \<Rightarrow>
   SolanaWatcherState" where
  "solRun sha policy maxScanPages [] clock st = st"
| "solRun sha policy maxScanPages ((node, now) # es) clock st =
     solRun sha policy maxScanPages es clock (solTick sha policy maxScanPages node now clock st)"

lemma crashed_return_stays_seen:
  assumes "sqlInv s" "sql_get s (burn_sourceId b) = None"
    "sw_store st = snd (sql_enqueue (solReturnInput sha b) now s)"
  shows "\<exists>r. sql_get (sw_store (solRun sha policy maxScanPages es clock st)) (burn_sourceId b) = Some r \<and> ob_status r = SEEN"
proof -
  have "sqlInv (sw_store st)" "sql_get (sw_store st) (burn_sourceId b) = Some (recordOf (solReturnInput sha b) now)"
    using assms sq.inv_enqueue sq.get_enqueue by simp_all
  then have "sql_get (sw_store (solRun sha policy maxScanPages es clock st)) (burn_sourceId b) =
      Some (recordOf (solReturnInput sha b) now)"
  proof (induction sha policy maxScanPages es clock st rule: solRun.induct)
    case (2 sha policy maxScanPages node now' es clock st)
    from "2.IH" solTick_keeps_row [OF "2.prems"] show ?case by simp
  qed simp
  then show ?thesis by simp
qed

end
