(* ===== verification/VizWatcher.thy ===== *)
theory VizWatcher
  imports Intake VizChain
begin

text \<open>
  The VIZ watcher (\<open>packages/viz-watcher/src/index.ts\<close>): one pass of its loop, from the pause
  check to the cursor write. The node is a parameter, as the interface \<open>VizChain\<close> the code types
  it by: the last irreversible block and the scan of a block window, each of which may throw. An
  exception ends the pass with what it has written so far; the staff notifications are not modelled.
\<close>

definition VIZ_CURSOR :: string where "VIZ_CURSOR = ''cursor:viz-watcher''"

record PegInRateLimit =
  pr_maxPerWindow :: int
  pr_windowMs :: int

text \<open>The row of a deposit: the gross amount, the sender as the refund target, the block as hint.\<close>

definition pegInInput ::
  "(string \<Rightarrow> string) \<Rightarrow> VizDeposit \<Rightarrow> ActionStatus \<Rightarrow> string option \<Rightarrow> EnqueueInput" where
  "pegInInput sha dep st lastError =
     (let action = canonicalPegIn sha dep
      in \<lparr>ei_id = act_id action, ei_direction = O_PEG_IN, ei_remoteChain = act_remoteChain action,
          ei_recipient = act_recipient action, ei_sender = Some (dep_from dep),
          ei_amountMilliViz = act_amountMilliViz action, ei_feeMilliViz = None,
          ei_digest = act_digest action, ei_status = Some st, ei_lastError = lastError,
          ei_parentId = None, ei_blockNum = Some (dep_blockNum dep)\<rparr>)"

definition processDeposit ::
  "(string \<Rightarrow> string) \<Rightarrow> CapPolicy \<Rightarrow> PegInRateLimit \<Rightarrow> VizDeposit \<Rightarrow> int \<Rightarrow> SqliteStore \<Rightarrow> SqliteStore" where
  "processDeposit sha policy rate dep now s =
     (if \<not> dep_destinationValid dep
      then snd (sql_enqueue (pegInInput sha dep HELD (Some ''INVALID_DESTINATION'')) now s)
      else (case sql_tryReserveSenderRate (dep_from dep) (pr_maxPerWindow rate) (pr_windowMs rate) now s of
        (ok, s1) \<Rightarrow>
          if \<not> ok then snd (sql_enqueue (pegInInput sha dep HELD (Some ''RATE_LIMITED'')) now s1)
          else enqueueSeen policy ''VIZ peg-in 24h cap exceeded'' (pegInInput sha dep SEEN None) now s1))"

record VizWatcherState =
  vw_cursor :: int
  vw_store :: SqliteStore

text \<open>The writes for one deposit, in order.\<close>

definition depositSteps ::
  "(string \<Rightarrow> string) \<Rightarrow> CapPolicy \<Rightarrow> PegInRateLimit \<Rightarrow> VizDeposit \<Rightarrow> int \<Rightarrow> SqliteStore \<Rightarrow> SqliteStore list" where
  "depositSteps sha policy rate dep now s =
     (if \<not> dep_destinationValid dep
      then [snd (sql_enqueue (pegInInput sha dep HELD (Some ''INVALID_DESTINATION'')) now s)]
      else (case sql_tryReserveSenderRate (dep_from dep) (pr_maxPerWindow rate) (pr_windowMs rate) now s of
        (ok, s1) \<Rightarrow>
          s1 # (if \<not> ok then [snd (sql_enqueue (pegInInput sha dep HELD (Some ''RATE_LIMITED'')) now s1)]
                else enqueueSteps policy ''VIZ peg-in 24h cap exceeded'' (pegInInput sha dep SEEN None) now s1)))"

text \<open>
  One pass: the states of the watcher after each of its writes, in the order of the code's awaits, and
  \<open>caughtUp\<close>. The cursor in memory moves just before it is persisted, after the last deposit. A crash
  or an exception leaves one of the states. The recovery runs at \<open>now\<close>, the deposits each at the time
  the clock gives them.
\<close>

definition vizPass ::
  "(string \<Rightarrow> string) \<Rightarrow> CapPolicy \<Rightarrow> PegInRateLimit \<Rightarrow> int \<Rightarrow> int result \<Rightarrow>
   (int \<Rightarrow> int \<Rightarrow> VizDeposit list result) \<Rightarrow> int \<Rightarrow> (VizDeposit \<Rightarrow> int) \<Rightarrow>
   VizWatcherState \<Rightarrow> VizWatcherState list \<times> bool" where
  "vizPass sha policy rate extraConfirmations libR scan now clock st =
     (if sql_isPaused (vw_store st) then ([], True)
      else
        let cursor = vw_cursor st;
            at = map (\<lambda>s. st\<lparr>vw_store := s\<rparr>);
            rec = recoverSteps policy ''VIZ peg-in 24h cap exceeded'' now (\<lambda>r. ob_direction r = O_PEG_IN)
                    (sql_stale (vw_store st) now STALE_SEEN_MS [SEEN]) (vw_store st);
            s1 = endOf (vw_store st) rec;
            moved = (\<lambda>c s. [\<lparr>vw_cursor = c, vw_store = s\<rparr>,
                             \<lparr>vw_cursor = c, vw_store = sql_setCursor VIZ_CURSOR c now s\<rparr>])
        in case libR of
             Inl _ \<Rightarrow> (at rec, True)
           | Inr lib \<Rightarrow>
               let safeHead = lib - extraConfirmations
               in if cursor = 0 then (at rec @ moved safeHead s1, True)
                  else if safeHead > cursor
                  then (case nextScanWindow cursor safeHead of (scannedTo, reached) \<Rightarrow>
                    (case scan cursor scannedTo of
                       Inl _ \<Rightarrow> (at rec, True)
                     | Inr deposits \<Rightarrow>
                         let deps = intakeSteps (depositSteps sha policy rate) clock deposits s1
                         in (at (rec @ deps) @ moved scannedTo (endOf s1 deps), reached)))
                  else (at rec, True))"

definition vizTick ::
  "(string \<Rightarrow> string) \<Rightarrow> CapPolicy \<Rightarrow> PegInRateLimit \<Rightarrow> int \<Rightarrow> int result \<Rightarrow>
   (int \<Rightarrow> int \<Rightarrow> VizDeposit list result) \<Rightarrow> int \<Rightarrow> (VizDeposit \<Rightarrow> int) \<Rightarrow>
   VizWatcherState \<Rightarrow> VizWatcherState \<times> bool" where
  "vizTick sha policy rate extraConfirmations libR scan now clock st =
     (case vizPass sha policy rate extraConfirmations libR scan now clock st of (tr, caughtUp) \<Rightarrow> (endOf st tr, caughtUp))"

section \<open>One deposit\<close>

definition depositKey :: "VizDeposit \<Rightarrow> string" where
  "depositKey d = pegInId (dep_trxId d) (dep_opIndex d)"

lemma pegInInput_simps [simp]:
  "ei_id (pegInInput sha d st e) = depositKey d" "ei_direction (pegInInput sha d st e) = O_PEG_IN"
  "ei_sender (pegInInput sha d st e) = Some (dep_from d)"
  "ei_amountMilliViz (pegInInput sha d st e) = dep_amountMilliViz d"
  "ei_digest (pegInInput sha d st e) = act_digest (canonicalPegIn sha d)"
  "ei_status (pegInInput sha d st e) = Some st" "ei_lastError (pegInInput sha d st e) = e"
  "ei_recipient (pegInInput sha d st e) = dep_remoteDestination d"
  "ei_remoteChain (pegInInput sha d st e) = Some (dep_remoteChain d)"
  "ei_blockNum (pegInInput sha d st e) = Some (dep_blockNum d)"
  by (simp_all add: pegInInput_def depositKey_def)

text \<open>
  The row a deposit should have: it carries the event, and its status is decided. Only a deposit
  with a valid destination may be queued; one without is held with the marker that the dispatcher
  refunds.
\<close>

definition depositRow :: "(string \<Rightarrow> string) \<Rightarrow> VizDeposit \<Rightarrow> OutboxRecord \<Rightarrow> bool" where
  "depositRow sha d r \<longleftrightarrow>
     ob_direction r = O_PEG_IN \<and> ob_sender r = Some (dep_from d) \<and> ob_amountMilliViz r = dep_amountMilliViz d \<and>
     ob_digest r = act_digest (canonicalPegIn sha d) \<and> ob_recipient r = dep_remoteDestination d \<and>
     ob_remoteChain r = Some (dep_remoteChain d) \<and> ob_blockNum r = Some (dep_blockNum d) \<and>
     (if dep_destinationValid d then ob_status r = QUEUED \<or> ob_status r = HELD
      else ob_status r = HELD \<and> ob_lastError r = Some ''INVALID_DESTINATION'')"

lemma decidedRow_deposit:
  "decidedRow (pegInInput sha d st e) r \<Longrightarrow> dep_destinationValid d \<Longrightarrow> depositRow sha d r"
  by (auto simp: decidedRow_def sameEvent_def depositRow_def recordOf_def)

lemma heldRow_deposit:
  "depositRow sha d (recordOf (pegInInput sha d HELD (Some e)) now) \<longleftrightarrow>
     dep_destinationValid d \<or> e = ''INVALID_DESTINATION''"
  by (auto simp: depositRow_def) (auto simp: recordOf_def)

lemma rate_frame:
  "tb_outbox (snd (sql_tryReserveSenderRate x m w now s)) = tb_outbox s"
  by (simp add: sql_tryReserveSenderRate_def Let_def)

lemma rate_get [simp]:
  "sqlInv (snd (sql_tryReserveSenderRate x m w now s)) = sqlInv s"
  "sql_get (snd (sql_tryReserveSenderRate x m w now s)) = sql_get s"
  using sqlInv_outbox [OF rate_frame] sql_get_outbox [OF rate_frame] by auto

lemma processDeposit_cases:
  obtains (invalid) "\<not> dep_destinationValid d"
      "processDeposit sha policy rate d now s =
         snd (sql_enqueue (pegInInput sha d HELD (Some ''INVALID_DESTINATION'')) now s)"
  | (limited) s1 where "dep_destinationValid d" "sql_get s1 = sql_get s" "sqlInv s1 = sqlInv s"
      "processDeposit sha policy rate d now s =
         snd (sql_enqueue (pegInInput sha d HELD (Some ''RATE_LIMITED'')) now s1)"
  | (live) s1 where "dep_destinationValid d" "sql_get s1 = sql_get s" "sqlInv s1 = sqlInv s"
      "processDeposit sha policy rate d now s =
         enqueueSeen policy ''VIZ peg-in 24h cap exceeded'' (pegInInput sha d SEEN None) now s1"
proof -
  obtain ok s1 where r: "sql_tryReserveSenderRate (dep_from d) (pr_maxPerWindow rate) (pr_windowMs rate) now s = (ok, s1)"
    by (cases "sql_tryReserveSenderRate (dep_from d) (pr_maxPerWindow rate) (pr_windowMs rate) now s")
  have f: "sql_get s1 = sql_get s" "sqlInv s1 = sqlInv s"
    using rate_get [of "dep_from d" "pr_maxPerWindow rate" "pr_windowMs rate" now s] r by simp_all
  show thesis
    using that r f by (cases "dep_destinationValid d"; cases ok) (auto simp: processDeposit_def)
qed

interpretation vizIntake: event_intake depositKey "processDeposit sha policy rate" "depositRow sha"
  for sha policy rate
proof
  fix s d now k r
  assume inv: "sqlInv s"
  show "sqlInv (processDeposit sha policy rate d now s)"
    using inv by (cases rule: processDeposit_cases [of d sha policy rate now s])
      (simp_all add: sq.inv_enqueue enqueueSeen_inv)
  show "\<exists>r. sql_get (processDeposit sha policy rate d now s) (depositKey d) = Some r \<and> depositRow sha d r"
    if "sql_get s (depositKey d) = None"
  proof (cases rule: processDeposit_cases [of d sha policy rate now s])
    case invalid
    then show ?thesis using inv that by (simp add: sq.get_enqueue heldRow_deposit)
  next
    case (limited s1)
    then show ?thesis using inv that by (simp add: sq.get_enqueue heldRow_deposit)
  next
    case (live s1)
    then show ?thesis
      using inv that enqueueSeen_get(1) [of s1 "pegInInput sha d SEEN None" policy "''VIZ peg-in 24h cap exceeded''" now]
        decidedRow_deposit by fastforce
  qed
  show "sql_get (processDeposit sha policy rate d now s) (depositKey d) = Some r"
    if "sql_get s (depositKey d) = Some r"
    using inv that by (cases rule: processDeposit_cases [of d sha policy rate now s])
      (simp_all add: sq.get_enqueue enqueueSeen_get(2))
  show "sql_get (processDeposit sha policy rate d now s) k = sql_get s k" if "k \<noteq> depositKey d"
    using inv that by (cases rule: processDeposit_cases [of d sha policy rate now s])
      (simp_all add: sq.get_enqueue enqueueSeen_get(3))
qed

section \<open>One pass\<close>

definition vizRecovered :: "CapPolicy \<Rightarrow> int \<Rightarrow> SqliteStore \<Rightarrow> SqliteStore" where
  "vizRecovered policy now s = snd (recoverStaleSeen policy now STALE_SEEN_MS (\<lambda>r. ob_direction r = O_PEG_IN)
     ''VIZ peg-in 24h cap exceeded'' s)"

lemma depositSteps_end: "endOf s (depositSteps sha policy rate d now s) = processDeposit sha policy rate d now s"
  by (simp add: depositSteps_def processDeposit_def enqueueSteps_end split: prod.split)

lemma vizRecovered_steps:
  "endOf s (recoverSteps policy ''VIZ peg-in 24h cap exceeded'' now (\<lambda>r. ob_direction r = O_PEG_IN)
     (sql_stale s now STALE_SEEN_MS [SEEN]) s) = vizRecovered policy now s"
  unfolding vizRecovered_def recoverStaleSeen_def by (rule recoverSteps_end)

lemma cursorName_viz [simp]: "cursorName VIZ_CURSOR"
  by (simp add: cursorName_def VIZ_CURSOR_def)

definition depositInputs :: "(string \<Rightarrow> string) \<Rightarrow> VizDeposit \<Rightarrow> EnqueueInput set" where
  "depositInputs sha d = {i. \<exists>st e. i = pegInInput sha d st e}"

lemma depositSteps_keeps:
  "depositInputs sha d \<subseteq> I \<Longrightarrow> keepsAll VIZ_CURSOR I s (depositSteps sha policy rate d now s)"
  using keepsRows_rate [of VIZ_CURSOR I s "dep_from d" "pr_maxPerWindow rate" "pr_windowMs rate" now]
  by (auto simp: depositSteps_def depositInputs_def split: prod.split
      intro!: keepsAll_Cons keepsRows_enqueue enqueueSteps_keeps)

lemma vizScan_keeps:
  assumes "\<forall>d \<in> set ds. depositInputs sha d \<subseteq> I"
  shows "keepsRows VIZ_CURSOR I s (intakeRun (processDeposit sha policy rate) clock ds (vizRecovered policy now s))"
proof -
  let ?rec = "recoverSteps policy ''VIZ peg-in 24h cap exceeded'' now (\<lambda>r. ob_direction r = O_PEG_IN)
     (sql_stale s now STALE_SEEN_MS [SEEN]) s"
  let ?deps = "intakeSteps (depositSteps sha policy rate) clock ds (endOf s ?rec)"
  have "keepsAll VIZ_CURSOR I s (?rec @ ?deps)"
    using assms by (intro keepsAll_append recoverSteps_keeps intakeSteps_keeps depositSteps_keeps) auto
  from keepsAll_end [OF this] show ?thesis
    by (simp add: vizRecovered_steps intakeSteps_end [of "depositSteps sha policy rate", OF depositSteps_end])
qed

text \<open>
  The states of a pass: what it has written so far under the old cursor, or the whole scan under the
  new one.
\<close>

lemma vizPass_states:
  assumes "st' \<in> set (fst (vizPass sha policy rate extra libR scan now clock st))" "vw_cursor st \<noteq> 0"
    "\<forall>a b ds. scan a b = Inr ds \<longrightarrow> (\<forall>d \<in> set ds. depositInputs sha d \<subseteq> I)"
  obtains (within) "vw_cursor st' = vw_cursor st" "keepsRows VIZ_CURSOR I (vw_store st) (vw_store st')"
  | (moved) lib scannedTo reached ds s2 where "libR = Inr lib" "vw_cursor st < lib - extra"
      "nextScanWindow (vw_cursor st) (lib - extra) = (scannedTo, reached)" "scan (vw_cursor st) scannedTo = Inr ds"
      "s2 = intakeRun (processDeposit sha policy rate) clock ds (vizRecovered policy now (vw_store st))"
      "vw_cursor st' = scannedTo"
      "vw_store st' = s2 \<or> vw_store st' = sql_setCursor VIZ_CURSOR scannedTo now s2"
proof -
  define rec where "rec = recoverSteps policy ''VIZ peg-in 24h cap exceeded'' now (\<lambda>r. ob_direction r = O_PEG_IN)
    (sql_stale (vw_store st) now STALE_SEEN_MS [SEEN]) (vw_store st)"
  have rec: "keepsAll VIZ_CURSOR I (vw_store st) rec" "endOf (vw_store st) rec = vizRecovered policy now (vw_store st)"
    by (simp_all add: rec_def recoverSteps_keeps vizRecovered_steps)
  have keeps: thesis
    if "keepsAll VIZ_CURSOR I (vw_store st) tr" "st' \<in> set (map (\<lambda>s. st\<lparr>vw_store := s\<rparr>) tr)" for tr
    using that within by (auto simp: keepsAll_def)
  have np: "\<not> sql_isPaused (vw_store st)" using assms(1) by (auto simp: vizPass_def)
  show thesis
  proof (cases libR)
    case (Inl e)
    then have "st' \<in> set (map (\<lambda>s. st\<lparr>vw_store := s\<rparr>) rec)" using assms(1,2) np by (simp add: vizPass_def Let_def rec_def)
    then show ?thesis by (rule keeps [OF rec(1)])
  next
    case (Inr lib)
    obtain scannedTo reached where w: "nextScanWindow (vw_cursor st) (lib - extra) = (scannedTo, reached)"
      by (cases "nextScanWindow (vw_cursor st) (lib - extra)")
    show ?thesis
    proof (cases "vw_cursor st < lib - extra \<and> isOk (scan (vw_cursor st) scannedTo)")
      case False
      then have "st' \<in> set (map (\<lambda>s. st\<lparr>vw_store := s\<rparr>) rec)"
        using assms(1,2) np Inr w by (auto simp: vizPass_def Let_def rec_def split: sum.splits if_splits)
      then show ?thesis by (rule keeps [OF rec(1)])
    next
      case True
      then obtain ds where ds: "scan (vw_cursor st) scannedTo = Inr ds" by (cases "scan (vw_cursor st) scannedTo") auto
      define deps where "deps = intakeSteps (depositSteps sha policy rate) clock ds (endOf (vw_store st) rec)"
      define s2 where "s2 = intakeRun (processDeposit sha policy rate) clock ds (vizRecovered policy now (vw_store st))"
      have e: "endOf (endOf (vw_store st) rec) deps = s2"
        unfolding deps_def s2_def rec(2) by (rule intakeSteps_end) (rule depositSteps_end)
      have k: "keepsAll VIZ_CURSOR I (vw_store st) (rec @ deps)"
        by (rule keepsAll_append [OF rec(1)])
          (use assms(3) ds in \<open>simp add: deps_def intakeSteps_keeps depositSteps_keeps\<close>)
      have "st' \<in> set (map (\<lambda>s. st\<lparr>vw_store := s\<rparr>) (rec @ deps)) \<or>
          st' = \<lparr>vw_cursor = scannedTo, vw_store = s2\<rparr> \<or>
          st' = \<lparr>vw_cursor = scannedTo, vw_store = sql_setCursor VIZ_CURSOR scannedTo now s2\<rparr>"
        using assms(1,2) np Inr w ds True e [unfolded deps_def rec(2)]
        by (auto simp: vizPass_def Let_def rec_def deps_def vizRecovered_steps)
      then show ?thesis using keeps [OF k] moved [OF Inr _ w ds s2_def] True by auto
    qed
  qed
qed

lemma vizTick_scan:
  assumes "\<not> sql_isPaused (vw_store st)" "vw_cursor st \<noteq> 0" "vw_cursor st < lib - extra"
    "nextScanWindow (vw_cursor st) (lib - extra) = (scannedTo, reached)" "scan (vw_cursor st) scannedTo = Inr ds"
  shows "vizTick sha policy rate extra (Inr lib) scan now clock st =
    (\<lparr>vw_cursor = scannedTo, vw_store = sql_setCursor VIZ_CURSOR scannedTo now
       (intakeRun (processDeposit sha policy rate) clock ds (vizRecovered policy now (vw_store st)))\<rparr>, reached)"
  using assms
  by (simp add: vizTick_def vizPass_def vizRecovered_steps
      intakeSteps_end [of "depositSteps sha policy rate" "processDeposit sha policy rate", OF depositSteps_end] Let_def)

lemma depositRow_decided: "depositRow sha d r \<Longrightarrow> ob_status r \<noteq> SEEN"
  by (auto simp: depositRow_def split: if_splits)

section \<open>The watcher over its whole life\<close>

text \<open>What of a row is the deposit's, whatever has become of the row since.\<close>

definition depositEvent :: "(string \<Rightarrow> string) \<Rightarrow> VizDeposit \<Rightarrow> OutboxRecord \<Rightarrow> bool" where
  "depositEvent sha d r \<longleftrightarrow>
     ob_direction r = O_PEG_IN \<and> ob_sender r = Some (dep_from d) \<and> ob_amountMilliViz r = dep_amountMilliViz d \<and>
     ob_digest r = act_digest (canonicalPegIn sha d) \<and> ob_recipient r = dep_remoteDestination d \<and>
     ob_remoteChain r = Some (dep_remoteChain d) \<and> ob_blockNum r = Some (dep_blockNum d)"

text \<open>
  A node that serves the history of deposits: a scan that answers has exactly the deposits of its
  window, in any order. It may fail at any time.
\<close>

definition vizServes :: "VizDeposit set \<Rightarrow> (int \<Rightarrow> int \<Rightarrow> VizDeposit list result) \<Rightarrow> bool" where
  "vizServes hist scan \<longleftrightarrow> (\<forall>a b ds. scan a b = Inr ds \<longrightarrow>
     distinct ds \<and> set ds = {d \<in> hist. a < int (dep_blockNum d) \<and> int (dep_blockNum d) \<le> b})"

text \<open>One write of the watcher: some prefix of a pass against such a node.\<close>

definition vizWrites ::
  "(string \<Rightarrow> string) \<Rightarrow> CapPolicy \<Rightarrow> PegInRateLimit \<Rightarrow> int \<Rightarrow> VizDeposit set \<Rightarrow>
   int \<Rightarrow> SqliteStore \<Rightarrow> int \<Rightarrow> SqliteStore \<Rightarrow> bool" where
  "vizWrites sha policy rate extra hist c s c' s' \<longleftrightarrow> (\<exists>libR scan now clock. vizServes hist scan \<and>
     \<lparr>vw_cursor = c', vw_store = s'\<rparr> \<in>
       set (fst (vizPass sha policy rate extra libR scan now clock \<lparr>vw_cursor = c, vw_store = s\<rparr>)))"

definition blockOf :: "VizDeposit \<Rightarrow> int" where "blockOf d = int (dep_blockNum d)"

interpretation vizEvents: scan_events depositKey "depositEvent sha" "depositInputs sha" for sha
proof
  fix i d now r r'
  show "ei_id i = depositKey d" "depositEvent sha d (recordOf i now)" if "i \<in> depositInputs sha d"
    using that by (auto simp: depositInputs_def depositEvent_def recordOf_def)
  show "depositEvent sha d r'" if "depositEvent sha d r" "sameEvent r r'"
    using that by (auto simp: depositEvent_def sameEvent_def)
qed

lemma nextScanWindow_moves: "c < h \<Longrightarrow> nextScanWindow c h = (t, reached) \<Longrightarrow> c < t"
  by (auto simp: nextScanWindow_def MAX_BLOCKS_PER_SCAN_def Let_def split: if_splits)

text \<open>After the whole scan every deposit of the window has its row, and the new ones their decided row.\<close>

lemma viz_scan_rows:
  assumes "sqlInv s" "inj_on depositKey hist" "vizServes hist scan" "scan a b = Inr ds"
    "s2 = intakeRun (processDeposit sha policy rate) clock ds (vizRecovered policy now s)"
  shows "\<forall>d \<in> set ds. sql_get s (depositKey d) = None \<longrightarrow> (\<exists>r. sql_get s2 (depositKey d) = Some r \<and> depositRow sha d r)"
    "\<forall>d \<in> hist. a < blockOf d \<and> blockOf d \<le> b \<longrightarrow> sql_get s2 (depositKey d) \<noteq> None"
proof -
  let ?s1 = "vizRecovered policy now s"
  have ds: "distinct ds" "set ds = {d \<in> hist. a < blockOf d \<and> blockOf d \<le> b}"
    using assms(3,4) by (auto simp: vizServes_def blockOf_def)
  have dist: "distinct (map depositKey ds)"
    using ds assms(2) by (auto simp: distinct_map intro: inj_on_subset)
  have inv: "sqlInv ?s1" and none: "sql_get ?s1 k = None \<longleftrightarrow> sql_get s k = None" for k
    by (simp_all add: vizRecovered_def recoverStaleSeen_inv recoverStaleSeen_None assms(1))
  show new: "\<forall>d \<in> set ds. sql_get s (depositKey d) = None \<longrightarrow>
      (\<exists>r. sql_get s2 (depositKey d) = Some r \<and> depositRow sha d r)"
    using vizIntake.run_new [OF inv dist] none by (simp add: assms(5))
  have "sql_get s2 (depositKey d) \<noteq> None" if "d \<in> set ds" for d
  proof (cases "sql_get ?s1 (depositKey d)")
    case None
    with new that none show ?thesis by auto
  next
    case (Some r)
    from vizIntake.run_known [OF inv this] show ?thesis by (simp add: assms(5))
  qed
  with ds(2) show "\<forall>d \<in> hist. a < blockOf d \<and> blockOf d \<le> b \<longrightarrow> sql_get s2 (depositKey d) \<noteq> None" by auto
qed

lemma vizScan_sound:
  assumes inj: "inj_on depositKey hist" and scan: "vizServes hist scan" "scan c scannedTo = Inr ds"
    and w: "c < lib" "nextScanWindow c lib = (scannedTo, reached)"
    and sound: "scanSound depositKey (depositEvent sha) blockOf hist VIZ_CURSOR c0 c s"
  shows "scanSound depositKey (depositEvent sha) blockOf hist VIZ_CURSOR c0 scannedTo
    (intakeRun (processDeposit sha policy rate) clock ds (vizRecovered policy now s))"
proof (rule vizEvents.sound_moved [OF inj sound])
  show "keepsRows VIZ_CURSOR (\<Union>d \<in> hist. depositInputs sha d) s
      (intakeRun (processDeposit sha policy rate) clock ds (vizRecovered policy now s))"
    by (rule vizScan_keeps) (use scan in \<open>auto simp: vizServes_def\<close>)
  show "c \<le> scannedTo" using nextScanWindow_moves [OF w] by simp
  show "\<forall>d \<in> hist. c < blockOf d \<and> blockOf d \<le> scannedTo \<longrightarrow> sql_get
      (intakeRun (processDeposit sha policy rate) clock ds (vizRecovered policy now s)) (depositKey d) \<noteq> None"
    by (rule viz_scan_rows(2) [OF scanSoundD(1) [OF sound] inj scan refl])
qed

lemma vizWrites_sound:
  assumes inj: "inj_on depositKey hist" and c0: "0 < c0"
    and sound: "scanSound depositKey (depositEvent sha) blockOf hist VIZ_CURSOR c0 c s"
    and w: "vizWrites sha policy rate extra hist c s c' s'"
  shows "scanSound depositKey (depositEvent sha) blockOf hist VIZ_CURSOR c0 c' s'"
proof -
  let ?I = "\<Union>d \<in> hist. depositInputs sha d"
  let ?st = "\<lparr>vw_cursor = c, vw_store = s\<rparr>" and ?st' = "\<lparr>vw_cursor = c', vw_store = s'\<rparr>"
  from w obtain libR scan now clock where scan: "vizServes hist scan"
    and st': "?st' \<in> set (fst (vizPass sha policy rate extra libR scan now clock ?st))"
    unfolding vizWrites_def by blast
  have c: "vw_cursor ?st \<noteq> 0" using sound c0 by (auto simp: scanSound_def)
  have I: "\<forall>a b ds. scan a b = Inr ds \<longrightarrow> (\<forall>d \<in> set ds. depositInputs sha d \<subseteq> ?I)"
    using scan by (auto simp: vizServes_def)
  show ?thesis
  proof (cases rule: vizPass_states [OF st' c I])
    case 1
    with vizEvents.sound_keeps [OF inj sound] show ?thesis by simp
  next
    case (2 lib scannedTo reached ds s2)
    have "scanSound depositKey (depositEvent sha) blockOf hist VIZ_CURSOR c0 scannedTo s2"
      using vizScan_sound [OF inj scan _ _ _ sound] 2(2-5) by simp
    with vizEvents.sound_persisted(1) [OF this] 2(6,7) show ?thesis by auto
  qed
qed

lemma vizRecovered_settles:
  assumes "sqlInv s" "sql_get s k = Some r" "ob_direction r = O_PEG_IN" "ob_status r = SEEN"
    "ob_updatedAt r < now - STALE_SEEN_MS"
  shows "\<exists>r'. sql_get (vizRecovered policy now s) k = Some r' \<and> (ob_status r' = QUEUED \<or> ob_status r' = HELD)"
  using recoverStaleSeen_settles [OF assms(1) sql_get_in [OF assms(2)] assms(4,5),
      of "\<lambda>r. ob_direction r = O_PEG_IN" policy "''VIZ peg-in 24h cap exceeded''"] assms(3) sql_get_id [OF assms(2)]
  by (auto simp: vizRecovered_def rowSettled_def split: option.splits)

section \<open>Properties\<close>

text \<open>
  C14. No deposit is lost. Take the watcher from a persisted cursor on, against a node whose scans
  answer with the deposits of their window or fail: whatever it has written, a pass cut off after
  any of its writes (also between the writes for one deposit), restarts, and the other
  services' work on the shared store in between, every deposit above the start and up to the persisted
  cursor has its row, with its sender, gross amount, chain, destination, digest and block; so the cursor a
  restart reads skips none. And from every such state a pass that is not paused and gets its answers
  moves the cursor forward to the end of its window and persists it; each deposit it sees for the first time
  then has a row that is queued or held if its destination is valid, and otherwise held with the marker for the
  refund, and each peg-in that a crash left in \<open>SEEN\<close> more than five minutes ago is queued or held.
\<close>

theorem no_deposit_lost:
  assumes "sqlInv s0" "sql_getCursor s0 VIZ_CURSOR = Some c0" "0 < c0" "inj_on depositKey hist"
    "\<forall>d \<in> hist. \<forall>r. sql_get s0 (depositKey d) = Some r \<longrightarrow> depositEvent sha d r"
    "watcherReach (vizWrites sha policy rate extra hist) VIZ_CURSOR (depositKey ` hist) c0 s0 c s"
  shows "(\<exists>p. sql_getCursor s VIZ_CURSOR = Some p \<and> c0 \<le> p \<and> p \<le> c \<and>
      (\<forall>d \<in> hist. c0 < int (dep_blockNum d) \<and> int (dep_blockNum d) \<le> p \<longrightarrow>
         (\<exists>r. sql_get s (depositKey d) = Some r \<and> depositEvent sha d r))) \<and>
    (\<forall>lib scan now clock scannedTo reached ds.
       vizServes hist scan \<and> \<not> sql_isPaused s \<and> c < lib - extra \<and>
       nextScanWindow c (lib - extra) = (scannedTo, reached) \<and> scan c scannedTo = Inr ds \<longrightarrow>
       (\<exists>s'. vizTick sha policy rate extra (Inr lib) scan now clock \<lparr>vw_cursor = c, vw_store = s\<rparr> =
              (\<lparr>vw_cursor = scannedTo, vw_store = s'\<rparr>, reached) \<and>
          c < scannedTo \<and> sql_getCursor s' VIZ_CURSOR = Some scannedTo \<and>
          (\<forall>d \<in> set ds. sql_get s (depositKey d) = None \<longrightarrow>
             (\<exists>r. sql_get s' (depositKey d) = Some r \<and> depositRow sha d r)) \<and>
          (\<forall>k r. sql_get s k = Some r \<and> ob_direction r = O_PEG_IN \<and> ob_status r = SEEN \<and>
             ob_updatedAt r < now - STALE_SEEN_MS \<longrightarrow>
             (\<exists>r'. sql_get s' k = Some r' \<and> (ob_status r' = QUEUED \<or> ob_status r' = HELD)))))"
proof (intro conjI allI impI)
  let ?sound = "scanSound depositKey (depositEvent sha) blockOf hist VIZ_CURSOR c0"
  have sound: "?sound c s"
    by (rule vizEvents.reach_sound [OF assms(6) cursorName_viz scanSound_start [OF assms(1,2,5)]])
      (rule vizWrites_sound [OF assms(4,3)])
  note inv = scanSoundD(1) [OF sound]
  show "\<exists>p. sql_getCursor s VIZ_CURSOR = Some p \<and> c0 \<le> p \<and> p \<le> c \<and>
      (\<forall>d \<in> hist. c0 < int (dep_blockNum d) \<and> int (dep_blockNum d) \<le> p \<longrightarrow>
         (\<exists>r. sql_get s (depositKey d) = Some r \<and> depositEvent sha d r))"
    using scanSoundD(2) [OF sound] by (simp add: blockOf_def)
  fix lib scan now clock scannedTo reached ds
  assume a: "vizServes hist scan \<and> \<not> sql_isPaused s \<and> c < lib - extra \<and>
       nextScanWindow c (lib - extra) = (scannedTo, reached) \<and> scan c scannedTo = Inr ds"
  let ?st = "\<lparr>vw_cursor = c, vw_store = s\<rparr>"
  define s2 where "s2 = intakeRun (processDeposit sha policy rate) clock ds (vizRecovered policy now s)"
  have c: "c \<noteq> 0" using sound assms(3) by (auto simp: scanSound_def)
  have tick: "vizTick sha policy rate extra (Inr lib) scan now clock ?st =
      (\<lparr>vw_cursor = scannedTo, vw_store = sql_setCursor VIZ_CURSOR scannedTo now s2\<rparr>, reached)"
    using vizTick_scan [of ?st lib extra scannedTo reached scan ds] a c by (simp add: s2_def)
  have t: "c < scannedTo" using a nextScanWindow_moves by blast
  have rec: "sqlInv (vizRecovered policy now s)" by (simp add: vizRecovered_def recoverStaleSeen_inv inv)
  from vizScan_sound [OF assms(4) _ _ _ _ sound, of scan scannedTo ds "lib - extra" reached policy rate clock now] a
  have "?sound scannedTo s2" by (simp add: s2_def)
  note cur = vizEvents.sound_persisted(2) [OF this, of now]
  have new: "\<forall>d \<in> set ds. sql_get s (depositKey d) = None \<longrightarrow>
      (\<exists>r. sql_get s2 (depositKey d) = Some r \<and> depositRow sha d r)"
    using viz_scan_rows(1) [OF inv assms(4) _ _ s2_def] a by blast
  have stale: "\<exists>r'. sql_get s2 k = Some r' \<and> (ob_status r' = QUEUED \<or> ob_status r' = HELD)"
    if "sql_get s k = Some r \<and> ob_direction r = O_PEG_IN \<and> ob_status r = SEEN \<and> ob_updatedAt r < now - STALE_SEEN_MS" for k r
    using vizRecovered_settles [OF inv, of k r now policy] vizIntake.run_known [OF rec] that by (fastforce simp: s2_def)
  let ?s = "sql_setCursor VIZ_CURSOR scannedTo now s2"
  have rows: "(\<forall>d \<in> set ds. sql_get s (depositKey d) = None \<longrightarrow>
        (\<exists>r. sql_get ?s (depositKey d) = Some r \<and> depositRow sha d r)) \<and>
      (\<forall>k r. sql_get s k = Some r \<and> ob_direction r = O_PEG_IN \<and> ob_status r = SEEN \<and>
         ob_updatedAt r < now - STALE_SEEN_MS \<longrightarrow>
         (\<exists>r'. sql_get ?s k = Some r' \<and> (ob_status r' = QUEUED \<or> ob_status r' = HELD)))"
    unfolding setCursor_get using new stale by blast
  show "\<exists>s'. vizTick sha policy rate extra (Inr lib) scan now clock ?st = (\<lparr>vw_cursor = scannedTo, vw_store = s'\<rparr>, reached) \<and>
          c < scannedTo \<and> sql_getCursor s' VIZ_CURSOR = Some scannedTo \<and>
          (\<forall>d \<in> set ds. sql_get s (depositKey d) = None \<longrightarrow>
             (\<exists>r. sql_get s' (depositKey d) = Some r \<and> depositRow sha d r)) \<and>
          (\<forall>k r. sql_get s k = Some r \<and> ob_direction r = O_PEG_IN \<and> ob_status r = SEEN \<and>
             ob_updatedAt r < now - STALE_SEEN_MS \<longrightarrow>
             (\<exists>r'. sql_get s' k = Some r' \<and> (ob_status r' = QUEUED \<or> ob_status r' = HELD)))"
    using tick t cur rows by (intro exI [of _ ?s]) blast
qed

definition second_example :: VizDeposit where
  "second_example = deposit_example\<lparr>dep_trxId := ''cd02'', dep_destinationValid := False, dep_remoteDestination := []\<rparr>"

definition rate_example :: PegInRateLimit where
  "rate_example = \<lparr>pr_maxPerWindow = 3, pr_windowMs = 1000\<rparr>"

definition viz_scan_example :: "int \<Rightarrow> int \<Rightarrow> VizDeposit list result" where
  "viz_scan_example a b = Inr (filter (\<lambda>d. a < int (dep_blockNum d) \<and> int (dep_blockNum d) \<le> b) [second_example, deposit_example])"

definition viz_boot_example :: SqliteStore where
  "viz_boot_example = sql_setCursor VIZ_CURSOR 690 1 emptySqlite"

text \<open>The state after the row of the first deposit and the rate slot of the second.\<close>

definition viz_crashed_example :: VizWatcherState where
  "viz_crashed_example = fst (vizPass (\<lambda>s. s) cap_example rate_example 2 (Inr 720) viz_scan_example 5 (\<lambda>_. 5)
     \<lparr>vw_cursor = 690, vw_store = viz_boot_example\<rparr>) ! 1"

lemma emptySqlite_get [simp]: "sql_get emptySqlite k = None"
  by (simp add: sql_get_def emptySqlite_def)

lemma viz_boot_example: "sql_getCursor viz_boot_example VIZ_CURSOR = Some 690" "sql_get viz_boot_example k = None"
    "sqlInv viz_boot_example" "\<not> sql_isPaused viz_boot_example"
proof -
  have "sql_getCursor emptySqlite VIZ_CURSOR = Some 0" by (simp add: sql_getCursor_def sql_getKey_def emptySqlite_def)
  from sqcur.get_setCursor [OF this, of 690 1] show "sql_getCursor viz_boot_example VIZ_CURSOR = Some 690"
    by (simp add: viz_boot_example_def)
  show "sql_get viz_boot_example k = None" "sqlInv viz_boot_example" by (simp_all add: viz_boot_example_def sqlInv_empty)
  show "\<not> sql_isPaused viz_boot_example"
    by (simp add: viz_boot_example_def sql_setCursor_def sql_getCursor_def sql_getKey_def sql_setKey_def sql_isPaused_def
        emptySqlite_def VIZ_CURSOR_def)
qed

definition viz_first_example :: SqliteStore where
  "viz_first_example = snd (sql_enqueue (pegInInput (\<lambda>s. s) second_example HELD (Some ''INVALID_DESTINATION'')) 5 viz_boot_example)"

lemma viz_boot_stale: "sql_stale viz_boot_example now ms sts = []"
  by (simp add: sql_stale_def visit_def viz_boot_example_def setCursor_frame emptySqlite_def)

lemma viz_crashed_example:
  "vw_store viz_crashed_example = snd (sql_tryReserveSenderRate ''alice'' 3 1000 5 viz_first_example)"
  "viz_crashed_example \<in> set (fst (vizPass (\<lambda>s. s) cap_example rate_example 2 (Inr 720) viz_scan_example 5 (\<lambda>_. 5)
     \<lparr>vw_cursor = 690, vw_store = viz_boot_example\<rparr>))"
  by (auto simp: viz_crashed_example_def vizPass_def viz_boot_example viz_boot_stale nextScanWindow_def MAX_BLOCKS_PER_SCAN_def
      viz_scan_example_def second_example_def deposit_example_def depositSteps_def viz_first_example_def Let_def
      rate_example_def split: prod.split)
lemma keys_example: "depositKey deposit_example \<noteq> depositKey second_example"
  by (simp add: depositKey_def pegInId_def deposit_example_def second_example_def)

lemma viz_serves_example: "vizServes {second_example, deposit_example} viz_scan_example"
  unfolding vizServes_def viz_scan_example_def using keys_example by (auto simp: distinct_length_2_or_more)

lemma viz_crashed_laws:
  "vw_cursor viz_crashed_example = 690" "sql_get (vw_store viz_crashed_example) (depositKey deposit_example) = None"
  "\<not> sql_isPaused (vw_store viz_crashed_example)" "sql_getCursor (vw_store viz_crashed_example) VIZ_CURSOR = Some 690"
proof -
  show "vw_cursor viz_crashed_example = 690"
    by (simp add: viz_crashed_example_def vizPass_def viz_boot_example viz_boot_stale nextScanWindow_def
        MAX_BLOCKS_PER_SCAN_def viz_scan_example_def second_example_def deposit_example_def depositSteps_def Let_def
        split: prod.split)
  show "sql_get (vw_store viz_crashed_example) (depositKey deposit_example) = None"
    using keys_example by (simp add: viz_crashed_example viz_first_example_def sq.get_enqueue viz_boot_example)
  have st: "tb_state (vw_store viz_crashed_example) = tb_state viz_boot_example"
    by (simp add: viz_crashed_example viz_first_example_def sql_tryReserveSenderRate_def sql_enqueue_def Let_def
        viz_boot_example)
  then show "sql_getCursor (vw_store viz_crashed_example) VIZ_CURSOR = Some 690"
    using getCursor_state [OF st] viz_boot_example(1) by simp
  show "\<not> sql_isPaused (vw_store viz_crashed_example)"
    using viz_boot_example(4) st by (simp add: sql_isPaused_def sql_getKey_def)
qed

text \<open>
  The process dies between the rate slot and the row of the second deposit; it restarts from the
  persisted cursor, and the next pass gives that deposit its row.
\<close>

theorem no_deposit_lost_witness:
  "\<exists>r. sql_get (vw_store (fst (vizTick (\<lambda>s. s) cap_example rate_example 2 (Inr 720) viz_scan_example 9 (\<lambda>_. 9)
       \<lparr>vw_cursor = 690, vw_store = vw_store viz_crashed_example\<rparr>))) (depositKey deposit_example) = Some r \<and>
     depositRow (\<lambda>s. s) deposit_example r"
proof -
  let ?hist = "{second_example, deposit_example}"
  let ?reach = "watcherReach (vizWrites (\<lambda>s. s) cap_example rate_example 2 ?hist) VIZ_CURSOR (depositKey ` ?hist)
    690 viz_boot_example"
  have "vizWrites (\<lambda>s. s) cap_example rate_example 2 ?hist 690 viz_boot_example 690 (vw_store viz_crashed_example)"
    unfolding vizWrites_def using viz_serves_example viz_crashed_example(2) viz_crashed_laws(1)
    by (intro exI [of _ "Inr 720"] exI [of _ viz_scan_example] exI [of _ 5] exI [of _ "\<lambda>_. 5"]) (metis VizWatcherState.surjective old.unit.exhaust)
  then have "?reach 690 (vw_store viz_crashed_example)" by (rule watcherWrites [OF watcherStart])
  from watcherRestart [OF this viz_crashed_laws(4)] have reach: "?reach 690 (vw_store viz_crashed_example)" .
  have inj: "inj_on depositKey ?hist" using keys_example by auto
  have window: "nextScanWindow 690 (720 - 2) = (718, True)" by (simp add: nextScanWindow_def MAX_BLOCKS_PER_SCAN_def)
  have scan: "viz_scan_example 690 718 = Inr [second_example, deposit_example]"
    by (simp add: viz_scan_example_def second_example_def deposit_example_def)
  have "\<forall>d \<in> ?hist. \<forall>r. sql_get viz_boot_example (depositKey d) = Some r \<longrightarrow> depositEvent (\<lambda>s. s) d r"
    by (simp add: viz_boot_example)
  from no_deposit_lost [OF viz_boot_example(3,1) _ inj this reach, THEN conjunct2, rule_format, of viz_scan_example 720
      718 True "[second_example, deposit_example]" 9 "\<lambda>_. 9"]
  show ?thesis using viz_serves_example viz_crashed_laws(2,3) window scan by auto
qed

text \<open>
  The rate slot is taken before the row is known to be new: a deposit whose row already exists,
  read again by a repeated scan, changes no row but uses up one more slot of its sender's window. So
  a restart can push the sender's next, genuinely new deposit over the limit into HELD, where it
  waits for an operator.
\<close>

lemma rescan_consumes_rate_slot:
  assumes "sqlInv s" "dep_destinationValid d" "sql_get s (depositKey d) = Some r" "0 < pr_windowMs rate"
    "int (senderCount (dep_from d) (now - pr_windowMs rate) (tb_pegin_rate s)) < pr_maxPerWindow rate"
  shows "sql_get (processDeposit sha policy rate d now s) = sql_get s \<and>
    senderCount (dep_from d) (now - pr_windowMs rate) (tb_pegin_rate (processDeposit sha policy rate d now s)) =
      Suc (senderCount (dep_from d) (now - pr_windowMs rate) (tb_pegin_rate s))"
proof -
  obtain ok s1 where t: "sql_tryReserveSenderRate (dep_from d) (pr_maxPerWindow rate) (pr_windowMs rate) now s = (ok, s1)"
    by (cases "sql_tryReserveSenderRate (dep_from d) (pr_maxPerWindow rate) (pr_windowMs rate) now s")
  have ok: "ok" using sqrate.rate_result [of "dep_from d" "pr_maxPerWindow rate" "pr_windowMs rate" now s] t assms(5) by simp
  have n: "senderCount (dep_from d) (now - pr_windowMs rate) (tb_pegin_rate s1) =
      Suc (senderCount (dep_from d) (now - pr_windowMs rate) (tb_pegin_rate s))"
    using sqrate.rate_entries [of now "pr_windowMs rate" "now - pr_windowMs rate" "dep_from d" "dep_from d"
        "pr_maxPerWindow rate" s] t ok assms(4) by simp
  have f: "sqlInv s1" "sql_get s1 = sql_get s"
    using rate_get [of "dep_from d" "pr_maxPerWindow rate" "pr_windowMs rate" now s] t assms(1) by simp_all
  have e: "fst (sql_enqueue i now s1) = False" "tb_pegin_rate (snd (sql_enqueue i now s1)) = tb_pegin_rate s1"
    if "ei_id i = depositKey d" for i
    using that f(2) assms(3) by (simp_all add: sql_enqueue_def)
  have "tb_pegin_rate (processDeposit sha policy rate d now s) = tb_pegin_rate s1"
    using e [of "pegInInput sha d SEEN None"] assms(2) t ok
    by (cases "sql_enqueue (pegInInput sha d SEEN None) now s1") (simp add: processDeposit_def enqueueSeen_def)
  moreover have "sql_get (processDeposit sha policy rate d now s) = sql_get s"
    using vizIntake.step_known [OF assms(1,3), of sha policy rate now]
      vizIntake.step_other [OF assms(1), of _ d sha policy rate now] assms(3) by (intro ext) metis
  ultimately show ?thesis using n by simp
qed

definition queued_example :: SqliteStore where
  "queued_example = emptySqlite\<lparr>tb_outbox := [recordOf (pegInInput (\<lambda>s. s) (deposit_example\<lparr>dep_destinationValid := True\<rparr>) SEEN None) 1]\<rparr>"

end
