(* ===== verification/GramWatcher.thy ===== *)
theory GramWatcher
  imports Intake GramChain
begin

text \<open>
  The TON watcher (\<open>packages/gram-watcher/src/index.ts\<close> and \<open>returnClassify.ts\<close>): one pass of its
  loop. Its readers are parameters: the wallet's tip, the peg-out scan (\<open>finalizedBurnsPaginated\<close>
  of GramChain) and the existence check of a VIZ account, each of which may throw. An exception ends
  the pass with what it has written so far.
\<close>

definition GRAM_CURSOR :: string where "GRAM_CURSOR = ''cursor:gram-watcher''"

definition classifyPegOutDestination :: "string \<Rightarrow> (string \<Rightarrow> bool result) \<Rightarrow> string result" where
  "classifyPegOutDestination destination accountExists =
     bindE (accountExists destination) (\<lambda>ex. Inr (if ex then [] else ''RETURN_INVALID_DEST''))"

definition pegOutInput :: "(string \<Rightarrow> string) \<Rightarrow> RemoteBurn \<Rightarrow> EnqueueInput" where
  "pegOutInput sha burn =
     (let action = canonicalPegOut sha burn
      in \<lparr>ei_id = act_id action, ei_direction = O_PEG_OUT, ei_remoteChain = act_remoteChain action,
          ei_recipient = act_recipient action, ei_sender = Some (burn_from burn),
          ei_amountMilliViz = act_amountMilliViz action, ei_feeMilliViz = None,
          ei_digest = act_digest action, ei_status = Some SEEN, ei_lastError = None,
          ei_parentId = None, ei_blockNum = None\<rparr>)"

definition processBurn ::
  "(string \<Rightarrow> string) \<Rightarrow> CapPolicy \<Rightarrow> (string \<Rightarrow> bool result) \<Rightarrow> RemoteBurn \<Rightarrow> int \<Rightarrow> SqliteStore \<Rightarrow>
   unit result \<times> SqliteStore" where
  "processBurn sha policy accountExists burn now s =
     (let i = pegOutInput sha burn
      in case sql_enqueue i now s of (first, s1) \<Rightarrow>
           if \<not> first then (Inr (), s1)
           else (case classifyPegOutDestination (ei_recipient i) accountExists of
               Inl e \<Rightarrow> (Inl e, s1)
             | Inr reason \<Rightarrow>
                 if reason \<noteq> [] then (Inr (), sql_setStatus (ei_id i) HELD (heldPatch reason) now s1)
                 else (Inr (), snd (capAndAdvance policy ''TON peg-out 24h cap exceeded'' now
                        (ei_id i) (ei_amountMilliViz i) s1))))"

fun burnLoop ::
  "(string \<Rightarrow> string) \<Rightarrow> CapPolicy \<Rightarrow> (string \<Rightarrow> bool result) \<Rightarrow> (RemoteBurn \<Rightarrow> int) \<Rightarrow> RemoteBurn list \<Rightarrow>
   SqliteStore \<Rightarrow> unit result \<times> SqliteStore" where
  "burnLoop sha policy accountExists clock [] s = (Inr (), s)"
| "burnLoop sha policy accountExists clock (b # bs) s =
     (case processBurn sha policy accountExists b (clock b) s of
        (Inl e, s') \<Rightarrow> (Inl e, s')
      | (Inr _, s') \<Rightarrow> burnLoop sha policy accountExists clock bs s')"

text \<open>The same with the stores after every write.\<close>

definition burnSteps ::
  "(string \<Rightarrow> string) \<Rightarrow> CapPolicy \<Rightarrow> (string \<Rightarrow> bool result) \<Rightarrow> RemoteBurn \<Rightarrow> int \<Rightarrow> SqliteStore \<Rightarrow>
   unit result \<times> SqliteStore list" where
  "burnSteps sha policy accountExists burn now s =
     (let i = pegOutInput sha burn
      in case sql_enqueue i now s of (first, s1) \<Rightarrow>
           if \<not> first then (Inr (), [s1])
           else (case classifyPegOutDestination (ei_recipient i) accountExists of
               Inl e \<Rightarrow> (Inl e, [s1])
             | Inr reason \<Rightarrow>
                 if reason \<noteq> [] then (Inr (), [s1, sql_setStatus (ei_id i) HELD (heldPatch reason) now s1])
                 else (Inr (), s1 # capSteps policy ''TON peg-out 24h cap exceeded'' now
                        (ei_id i) (ei_amountMilliViz i) s1)))"

fun burnLoopSteps ::
  "(string \<Rightarrow> string) \<Rightarrow> CapPolicy \<Rightarrow> (string \<Rightarrow> bool result) \<Rightarrow> (RemoteBurn \<Rightarrow> int) \<Rightarrow> RemoteBurn list \<Rightarrow>
   SqliteStore \<Rightarrow> unit result \<times> SqliteStore list" where
  "burnLoopSteps sha policy accountExists clock [] s = (Inr (), [])"
| "burnLoopSteps sha policy accountExists clock (b # bs) s =
     (case burnSteps sha policy accountExists b (clock b) s of
        (Inl e, tr) \<Rightarrow> (Inl e, tr)
      | (Inr _, tr) \<Rightarrow> (case burnLoopSteps sha policy accountExists clock bs (endOf s tr) of
            (r, tr') \<Rightarrow> (r, tr @ tr')))"

record GramNode =
  gn_newestLt :: "nat result"
  gn_burns :: "nat \<Rightarrow> (RemoteBurn list \<times> nat \<times> bool) result"
  gn_accountExists :: "string \<Rightarrow> bool result"

record GramWatcherState =
  gw_cursor :: nat
  gw_store :: SqliteStore

definition truncatedReason :: "nat \<Rightarrow> nat \<Rightarrow> string" where
  "truncatedReason cursor maxScanPages =
     ''TON peg-out scan truncated at lt '' @ decNat cursor @
     '': burst exceeds scan window (maxScanPages='' @ decNat maxScanPages @ '')''"

definition gramOwns :: "OutboxRecord \<Rightarrow> bool" where
  "gramOwns r \<longleftrightarrow> ob_direction r = O_PEG_OUT \<and> ob_remoteChain r = Some GRAM"

definition gramRecovered :: "CapPolicy \<Rightarrow> int \<Rightarrow> SqliteStore \<Rightarrow> SqliteStore" where
  "gramRecovered policy now s =
     snd (recoverStaleSeen policy now STALE_SEEN_MS gramOwns ''TON peg-out 24h cap exceeded'' s)"

text \<open>
  One pass: the states of the watcher after each of its writes, in the order of the code's awaits. The
  cursor in memory moves just before it is persisted, after the last burn of a drained scan. A
  crash or an exception leaves one of the states.
\<close>

definition gramPass ::
  "(string \<Rightarrow> string) \<Rightarrow> CapPolicy \<Rightarrow> nat \<Rightarrow> GramNode \<Rightarrow> int \<Rightarrow> (RemoteBurn \<Rightarrow> int) \<Rightarrow> GramWatcherState \<Rightarrow>
   GramWatcherState list" where
  "gramPass sha policy maxScanPages node now clock st =
     (if sql_isPaused (gw_store st) then []
      else
        let at = map (\<lambda>s. st\<lparr>gw_store := s\<rparr>);
            rec = recoverSteps policy ''TON peg-out 24h cap exceeded'' now gramOwns
                    (sql_stale (gw_store st) now STALE_SEEN_MS [SEEN]) (gw_store st);
            s1 = endOf (gw_store st) rec;
            moved = (\<lambda>c s. [\<lparr>gw_cursor = c, gw_store = s\<rparr>,
                             \<lparr>gw_cursor = c, gw_store = sql_setCursor GRAM_CURSOR (int c) now s\<rparr>])
        in if gw_cursor st = 0
           then (case gn_newestLt node of
               Inl _ \<Rightarrow> at rec
             | Inr tip \<Rightarrow> at rec @ moved (coldStartAnchorLt tip) s1)
           else (case gn_burns node (gw_cursor st) of
               Inl _ \<Rightarrow> at rec
             | Inr (burns, newestFinalLt, drained) \<Rightarrow>
                 (case burnLoopSteps sha policy (gn_accountExists node) clock burns s1 of
                    (Inl _, tr) \<Rightarrow> at (rec @ tr)
                  | (Inr _, tr) \<Rightarrow>
                      at (rec @ tr) @
                      (if drained then moved newestFinalLt (endOf s1 tr)
                       else at [sql_pause (truncatedReason (gw_cursor st) maxScanPages) now (endOf s1 tr)]))))"

definition gramTick ::
  "(string \<Rightarrow> string) \<Rightarrow> CapPolicy \<Rightarrow> nat \<Rightarrow> GramNode \<Rightarrow> int \<Rightarrow> (RemoteBurn \<Rightarrow> int) \<Rightarrow> GramWatcherState \<Rightarrow>
   GramWatcherState" where
  "gramTick sha policy maxScanPages node now clock st = endOf st (gramPass sha policy maxScanPages node now clock st)"

section \<open>One burn\<close>

lemma pegOutInput_simps [simp]:
  "ei_id (pegOutInput sha b) = burn_sourceId b" "ei_direction (pegOutInput sha b) = O_PEG_OUT"
  "ei_sender (pegOutInput sha b) = Some (burn_from b)"
  "ei_amountMilliViz (pegOutInput sha b) = burn_amountMilliViz b"
  "ei_digest (pegOutInput sha b) = act_digest (canonicalPegOut sha b)"
  "ei_status (pegOutInput sha b) = Some SEEN" "ei_lastError (pegOutInput sha b) = None"
  "ei_recipient (pegOutInput sha b) = burn_homeDestination b"
  "ei_remoteChain (pegOutInput sha b) = Some (burn_chain b)"
  by (simp_all add: pegOutInput_def)

text \<open>The row a burn should have, when \<open>ex\<close> says which VIZ accounts exist.\<close>

definition burnRow :: "(string \<Rightarrow> string) \<Rightarrow> (string \<Rightarrow> bool) \<Rightarrow> RemoteBurn \<Rightarrow> OutboxRecord \<Rightarrow> bool" where
  "burnRow sha ex b r \<longleftrightarrow>
     ob_direction r = O_PEG_OUT \<and> ob_sender r = Some (burn_from b) \<and> ob_amountMilliViz r = burn_amountMilliViz b \<and>
     ob_digest r = act_digest (canonicalPegOut sha b) \<and> ob_recipient r = burn_homeDestination b \<and>
     ob_remoteChain r = Some (burn_chain b) \<and>
     (if ex (burn_homeDestination b) then ob_status r = QUEUED \<or> ob_status r = HELD
      else ob_status r = HELD \<and> ob_lastError r = Some ''RETURN_INVALID_DEST'')"

text \<open>With the account check answering, a burn is either the live path or held for its return.\<close>

lemma processBurn_total:
  "snd (processBurn sha policy (\<lambda>n. Inr (ex n)) b now s) =
     (if ex (burn_homeDestination b)
      then enqueueSeen policy ''TON peg-out 24h cap exceeded'' (pegOutInput sha b) now s
      else (case sql_enqueue (pegOutInput sha b) now s of (first, s1) \<Rightarrow>
              if first then sql_setStatus (burn_sourceId b) HELD (heldPatch ''RETURN_INVALID_DEST'') now s1 else s1))"
  "fst (processBurn sha policy (\<lambda>n. Inr (ex n)) b now s) = Inr ()"
  by (auto simp: processBurn_def classifyPegOutDestination_def enqueueSeen_def Let_def split: prod.split)

lemma decidedRow_burn:
  "decidedRow (pegOutInput sha b) r \<Longrightarrow> ex (burn_homeDestination b) \<Longrightarrow> burnRow sha ex b r"
  by (auto simp: decidedRow_def sameEvent_def burnRow_def)

lemma heldRow_burn:
  "\<not> ex (burn_homeDestination b) \<Longrightarrow>
   burnRow sha ex b (applyStatus HELD (heldPatch ''RETURN_INVALID_DEST'') now (recordOf (pegOutInput sha b) now))"
  by (simp add: burnRow_def heldPatch_def noPatch_def)

interpretation gramIntake: event_intake burn_sourceId
  "\<lambda>b now s. snd (processBurn sha policy (\<lambda>n. Inr (ex n)) b now s)" "burnRow sha ex"
  for sha policy ex
proof
  fix s b now k r
  let ?i = "pegOutInput sha b"
  assume inv: "sqlInv s"
  obtain first s1 where e: "sql_enqueue ?i now s = (first, s1)" by (cases "sql_enqueue ?i now s")
  have s1: "sqlInv s1" "first \<longleftrightarrow> sql_get s (burn_sourceId b) = None"
    using sq.inv_enqueue [OF inv, of ?i now] sq.enqueue_result [OF inv, of ?i now] e by simp_all
  have get: "sql_get s1 k = (if k = burn_sourceId b \<and> sql_get s k = None then Some (recordOf ?i now) else sql_get s k)" for k
    using sq.get_enqueue [OF inv, of ?i now k] e by simp
  show "sqlInv (snd (processBurn sha policy (\<lambda>n. Inr (ex n)) b now s))"
    using inv s1 e by (simp add: processBurn_total enqueueSeen_inv sq.inv_setStatus)
  show "\<exists>r. sql_get (snd (processBurn sha policy (\<lambda>n. Inr (ex n)) b now s)) (burn_sourceId b) = Some r \<and> burnRow sha ex b r"
    if "sql_get s (burn_sourceId b) = None"
    using that inv s1 e get enqueueSeen_get(1) [OF inv, of ?i policy "''TON peg-out 24h cap exceeded''" now]
      decidedRow_burn heldRow_burn
    by (auto simp: processBurn_total sq.get_setStatus)
  show "sql_get (snd (processBurn sha policy (\<lambda>n. Inr (ex n)) b now s)) (burn_sourceId b) = Some r"
    if "sql_get s (burn_sourceId b) = Some r"
    using that inv s1 e get by (auto simp: processBurn_total enqueueSeen_get(2))
  show "sql_get (snd (processBurn sha policy (\<lambda>n. Inr (ex n)) b now s)) k = sql_get s k" if "k \<noteq> burn_sourceId b"
    using that inv s1 e get by (auto simp: processBurn_total enqueueSeen_get(3) sq.get_setStatus)
qed

lemma burnLoop_total:
  "burnLoop sha policy (\<lambda>n. Inr (ex n)) clock bs s =
     (Inr (), intakeRun (\<lambda>b now s. snd (processBurn sha policy (\<lambda>n. Inr (ex n)) b now s)) clock bs s)"
proof (induction bs arbitrary: s)
  case (Cons b bs)
  have "processBurn sha policy (\<lambda>n. Inr (ex n)) b (clock b) s =
      (Inr (), snd (processBurn sha policy (\<lambda>n. Inr (ex n)) b (clock b) s))"
    using processBurn_total(2) by (intro prod_eqI) simp_all
  then show ?case using Cons.IH by (metis (no_types, lifting) burnLoop.simps(2) case_prod_conv intakeRun_simps(2) sum.case(2))
qed simp

section \<open>One pass\<close>

lemma burnRow_decided: "burnRow sha ex b r \<Longrightarrow> ob_status r \<noteq> SEEN"
  by (auto simp: burnRow_def split: if_splits)

lemma gramRecovered_laws:
  assumes "sqlInv s"
  shows "sqlInv (gramRecovered policy now s)"
    "sql_get (gramRecovered policy now s) k = None \<longleftrightarrow> sql_get s k = None"
    "sql_get s k = Some r \<Longrightarrow> ob_status r \<noteq> SEEN \<Longrightarrow> sql_get (gramRecovered policy now s) k = Some r"
  using assms by (simp_all add: gramRecovered_def recoverStaleSeen_inv recoverStaleSeen_None recoverStaleSeen_keeps)

lemma burnSteps_end:
  "(fst (burnSteps sha policy acc b now s), endOf s (snd (burnSteps sha policy acc b now s))) = processBurn sha policy acc b now s"
  by (simp add: burnSteps_def processBurn_def capSteps_end Let_def split: prod.split sum.split)

lemma burnLoopSteps_end:
  "(fst (burnLoopSteps sha policy acc clock bs s), endOf s (snd (burnLoopSteps sha policy acc clock bs s))) =
     burnLoop sha policy acc clock bs s"
proof (induction bs arbitrary: s)
  case (Cons b bs)
  obtain r tr where b: "burnSteps sha policy acc b (clock b) s = (r, tr)" by (cases "burnSteps sha policy acc b (clock b) s")
  then have p: "processBurn sha policy acc b (clock b) s = (r, endOf s tr)"
    using burnSteps_end [of sha policy acc b "clock b" s] by simp
  show ?case using Cons.IH [of "endOf s tr"] by (cases r) (auto simp: b p split: prod.split)
qed simp

lemma gramRecovered_steps:
  "endOf s (recoverSteps policy ''TON peg-out 24h cap exceeded'' now gramOwns (sql_stale s now STALE_SEEN_MS [SEEN]) s) =
     gramRecovered policy now s"
  unfolding gramRecovered_def recoverStaleSeen_def by (rule recoverSteps_end)

lemma cursorName_gram [simp]: "cursorName GRAM_CURSOR"
  by (simp add: cursorName_def GRAM_CURSOR_def)

lemma burnSteps_keeps:
  assumes "pegOutInput sha b \<in> I"
  shows "keepsAll GRAM_CURSOR I s (snd (burnSteps sha policy acc b now s))"
proof -
  obtain first s1 where e: "sql_enqueue (pegOutInput sha b) now s = (first, s1)"
    by (cases "sql_enqueue (pegOutInput sha b) now s")
  then have "keepsRows GRAM_CURSOR I s s1" using keepsRows_enqueue [OF cursorName_gram assms, of s now] by simp
  note k = keepsAll_Cons [OF this]
  show ?thesis
    using k [OF keepsAll_Nil] k [OF capSteps_keeps [OF cursorName_gram]]
      k [OF keepsAll_Cons [OF keepsRows_setStatus [OF cursorName_gram] keepsAll_Nil]]
    by (auto simp: burnSteps_def e Let_def split: sum.split)
qed

lemma burnLoopSteps_keeps:
  "\<forall>b \<in> set bs. pegOutInput sha b \<in> I \<Longrightarrow> keepsAll GRAM_CURSOR I s (snd (burnLoopSteps sha policy acc clock bs s))"
proof (induction bs arbitrary: s)
  case (Cons b bs)
  obtain r tr where b: "burnSteps sha policy acc b (clock b) s = (r, tr)" by (cases "burnSteps sha policy acc b (clock b) s")
  then have k: "keepsAll GRAM_CURSOR I s tr" using burnSteps_keeps [of sha b I s policy acc "clock b"] Cons.prems by simp
  show ?case
  proof (cases r)
    case (Inl e)
    with k b show ?thesis by simp
  next
    case (Inr u)
    with keepsAll_append [OF k Cons.IH] Cons.prems b show ?thesis by (auto split: prod.split)
  qed
qed simp

section \<open>The watcher over its whole life\<close>

text \<open>
  The burns of the chain with their logical times. What of a row is the burn's, whatever has become
  of the row since (the height under which a scan reported it is not part of the row).
\<close>

type_synonym TimedBurn = "nat \<times> RemoteBurn"

definition burnEvent :: "(string \<Rightarrow> string) \<Rightarrow> TimedBurn \<Rightarrow> OutboxRecord \<Rightarrow> bool" where
  "burnEvent sha e r \<longleftrightarrow>
     ob_direction r = O_PEG_OUT \<and> ob_sender r = Some (burn_from (snd e)) \<and>
     ob_amountMilliViz r = burn_amountMilliViz (snd e) \<and> ob_digest r = act_digest (canonicalPegOut sha (snd e)) \<and>
     ob_recipient r = burn_homeDestination (snd e) \<and> ob_remoteChain r = Some (burn_chain (snd e))"

definition timedKey :: "TimedBurn \<Rightarrow> string" where "timedKey e = burn_sourceId (snd e)"

definition timeOf :: "TimedBurn \<Rightarrow> int" where "timeOf e = int (fst e)"

text \<open>
  A node that serves the history: the burns of a scan above \<open>c\<close> are burns of the history above \<open>c\<close>, each once,
  under some height; and when the scan reports itself drained up to \<open>newest\<close>, it has all up to there. It may
  fail at any time. (A scan by \<open>paginateBurnsByLt\<close> is one: \<open>paginated_scan_serves\<close>.)
\<close>

definition gramScanServes :: "TimedBurn set \<Rightarrow> nat \<Rightarrow> RemoteBurn list \<times> nat \<times> bool \<Rightarrow> bool" where
  "gramScanServes hist c = (\<lambda>(bs, newest, drained).
     distinct (map burn_sourceId bs) \<and>
     (\<forall>b \<in> set bs. \<exists>e \<in> hist. \<exists>h. c < fst e \<and> b = (snd e)\<lparr>burn_height := h\<rparr>) \<and>
     (drained \<longrightarrow> c \<le> newest \<and>
        (\<forall>e \<in> hist. c < fst e \<and> fst e \<le> newest \<longrightarrow> (\<exists>h. (snd e)\<lparr>burn_height := h\<rparr> \<in> set bs))))"

definition gramServes :: "TimedBurn set \<Rightarrow> GramNode \<Rightarrow> bool" where
  "gramServes hist node \<longleftrightarrow> (\<forall>c r. gn_burns node c = Inr r \<longrightarrow> gramScanServes hist c r)"

text \<open>One write of the watcher: some prefix of a pass against such a node.\<close>

definition gramWrites ::
  "(string \<Rightarrow> string) \<Rightarrow> CapPolicy \<Rightarrow> nat \<Rightarrow> TimedBurn set \<Rightarrow> int \<Rightarrow> SqliteStore \<Rightarrow> int \<Rightarrow> SqliteStore \<Rightarrow> bool" where
  "gramWrites sha policy maxScanPages hist c s c' s' \<longleftrightarrow> (\<exists>n n' node now clock. gramServes hist node \<and>
     c = int n \<and> c' = int n' \<and>
     \<lparr>gw_cursor = n', gw_store = s'\<rparr> \<in>
       set (gramPass sha policy maxScanPages node now clock \<lparr>gw_cursor = n, gw_store = s\<rparr>))"

lemma pegOutInput_height [simp]: "pegOutInput sha (b\<lparr>burn_height := h\<rparr>) = pegOutInput sha b"
  by (simp add: pegOutInput_def)

interpretation gramEvents: scan_events timedKey "burnEvent sha" "\<lambda>e. {pegOutInput sha (snd e)}" for sha
proof
  fix i e now r r'
  show "ei_id i = timedKey e" "burnEvent sha e (recordOf i now)" if "i \<in> {pegOutInput sha (snd e)}"
    using that by (auto simp: timedKey_def burnEvent_def recordOf_def)
  show "burnEvent sha e r'" if "burnEvent sha e r" "sameEvent r r'"
    using that by (auto simp: burnEvent_def sameEvent_def)
qed

text \<open>
  The loop over the burns of a scan, with any answers of the account check: if it comes to its end
  every burn has a row.
\<close>

lemma processBurn_get:
  assumes "sqlInv s"
  shows "sqlInv (snd (processBurn sha policy acc b now s))"
    "sql_get (snd (processBurn sha policy acc b now s)) (burn_sourceId b) \<noteq> None"
    "sql_get s k \<noteq> None \<Longrightarrow> sql_get (snd (processBurn sha policy acc b now s)) k \<noteq> None"
proof -
  let ?i = "pegOutInput sha b" and ?s = "snd (processBurn sha policy acc b now s)"
  obtain first s1 where e: "sql_enqueue ?i now s = (first, s1)" by (cases "sql_enqueue ?i now s")
  have s1: "sqlInv s1" "sql_get s1 k = (if k = burn_sourceId b \<and> sql_get s k = None then Some (recordOf ?i now) else sql_get s k)" for k
    using sq.inv_enqueue [OF assms, of ?i now] sq.get_enqueue [OF assms, of ?i now k] e by simp_all
  note k = keepsAll_end [OF burnSteps_keeps [where sha = sha and b = b and I = "{?i}" and s = s and policy = policy and acc = acc and now = now]]
  have end': "endOf s (snd (burnSteps sha policy acc b now s)) = ?s"
    using burnSteps_end [of sha policy acc b now s] by (metis snd_conv)
  note kd = keepsRowsD [OF k [unfolded end'] assms]
  show "sqlInv ?s" using kd(1) by simp
  show "sql_get ?s k \<noteq> None" if "sql_get s k \<noteq> None" for k using kd(3) [of k] that by auto
  have "sql_get ?s (burn_sourceId b) \<noteq> None" if "sql_get s (burn_sourceId b) = None"
    using that s1(1) s1(2) [of "burn_sourceId b"] e
    by (auto simp: processBurn_def Let_def sq.get_setStatus capAndAdvance_get split: sum.split)
  with \<open>\<And>k. sql_get s k \<noteq> None \<Longrightarrow> sql_get ?s k \<noteq> None\<close> show "sql_get ?s (burn_sourceId b) \<noteq> None" by blast
qed

lemma burnLoop_rows:
  assumes "sqlInv s" "burnLoop sha policy acc clock bs s = (Inr u, s')"
  shows "(\<forall>b \<in> set bs. sql_get s' (burn_sourceId b) \<noteq> None) \<and> (\<forall>k. sql_get s k \<noteq> None \<longrightarrow> sql_get s' k \<noteq> None)"
  using assms
proof (induction bs arbitrary: s)
  case (Cons b bs)
  obtain r s1 where p: "processBurn sha policy acc b (clock b) s = (r, s1)" by (cases "processBurn sha policy acc b (clock b) s")
  then have "burnLoop sha policy acc clock bs s1 = (Inr u, s')" using Cons.prems(2) by (simp split: sum.splits)
  moreover note laws = processBurn_get [OF Cons.prems(1), where sha = sha and policy = policy and acc = acc and b = b and now = "clock b",
    unfolded p snd_conv]
  ultimately show ?case using Cons.IH [OF laws(1)] laws(2,3) by auto
qed simp

text \<open>
  The states of a pass: what it has written so far under the old cursor, or the whole drained scan under
  the new one.
\<close>

lemma gramPass_states:
  assumes "st' \<in> set (gramPass sha policy maxScanPages node now clock st)" "gw_cursor st \<noteq> 0"
    "\<forall>c bs newest drained. gn_burns node c = Inr (bs, newest, drained) \<longrightarrow> (\<forall>b \<in> set bs. pegOutInput sha b \<in> I)"
  obtains (within) "gw_cursor st' = gw_cursor st" "keepsRows GRAM_CURSOR I (gw_store st) (gw_store st')"
  | (moved) bs newest s2 where "gn_burns node (gw_cursor st) = Inr (bs, newest, True)"
      "burnLoop sha policy (gn_accountExists node) clock bs (gramRecovered policy now (gw_store st)) = (Inr (), s2)"
      "gw_cursor st' = newest" "gw_store st' = s2 \<or> gw_store st' = sql_setCursor GRAM_CURSOR (int newest) now s2"
proof -
  define rec where "rec = recoverSteps policy ''TON peg-out 24h cap exceeded'' now gramOwns
    (sql_stale (gw_store st) now STALE_SEEN_MS [SEEN]) (gw_store st)"
  have rec: "keepsAll GRAM_CURSOR I (gw_store st) rec" "endOf (gw_store st) rec = gramRecovered policy now (gw_store st)"
    by (simp_all add: rec_def recoverSteps_keeps gramRecovered_steps)
  have keeps: thesis
    if "keepsAll GRAM_CURSOR I (gw_store st) tr" "st' \<in> set (map (\<lambda>s. st\<lparr>gw_store := s\<rparr>) tr)" for tr
    using that within by (auto simp: keepsAll_def)
  have np: "\<not> sql_isPaused (gw_store st)" using assms(1) by (auto simp: gramPass_def)
  note pass = assms(1) [unfolded gramPass_def Let_def, folded rec_def, unfolded rec(2)]
  show thesis
  proof (cases "gn_burns node (gw_cursor st)")
    case (Inl e)
    then have "st' \<in> set (map (\<lambda>s. st\<lparr>gw_store := s\<rparr>) rec)" using pass assms(2) np by simp
    then show ?thesis by (rule keeps [OF rec(1)])
  next
    case (Inr r)
    obtain bs newest drained where r: "r = (bs, newest, drained)" by (cases r)
    obtain res tr where l: "burnLoopSteps sha policy (gn_accountExists node) clock bs (gramRecovered policy now (gw_store st)) = (res, tr)"
      by (cases "burnLoopSteps sha policy (gn_accountExists node) clock bs (gramRecovered policy now (gw_store st))")
    define s2 where "s2 = endOf (gramRecovered policy now (gw_store st)) tr"
    have loop: "burnLoop sha policy (gn_accountExists node) clock bs (gramRecovered policy now (gw_store st)) = (res, s2)"
      using burnLoopSteps_end [of sha policy "gn_accountExists node" clock bs "gramRecovered policy now (gw_store st)"] l
      by (simp add: s2_def)
    have ins: "\<forall>b \<in> set bs. pegOutInput sha b \<in> I" using assms(3) Inr r by blast
    have "keepsAll GRAM_CURSOR I (endOf (gw_store st) rec) tr"
      using burnLoopSteps_keeps [of bs sha I "endOf (gw_store st) rec" policy "gn_accountExists node" clock] ins l rec(2)
      by simp
    note k = keepsAll_append [OF rec(1) this]
    have p: "keepsAll GRAM_CURSOR I (gw_store st) ((rec @ tr) @ [sql_pause (truncatedReason (gw_cursor st) maxScanPages) now s2])"
      by (rule keepsAll_append [OF k]) (simp add: s2_def rec(2) keepsAll_Cons keepsRows_pause)
    have "st' \<in> set (map (\<lambda>s. st\<lparr>gw_store := s\<rparr>) (rec @ tr)) \<or>
        (res = Inr () \<and> \<not> drained \<and> st' = st\<lparr>gw_store := sql_pause (truncatedReason (gw_cursor st) maxScanPages) now s2\<rparr>) \<or>
        (res = Inr () \<and> drained \<and> (st' = \<lparr>gw_cursor = newest, gw_store = s2\<rparr> \<or>
           st' = \<lparr>gw_cursor = newest, gw_store = sql_setCursor GRAM_CURSOR (int newest) now s2\<rparr>))"
      using pass assms(2) np Inr r l by (cases res) (auto simp: s2_def split: if_splits)
    then show ?thesis using keeps [OF k] keeps [OF p] moved [of bs newest s2] Inr r loop by auto
  qed
qed

lemma gramScan_keeps:
  assumes "\<forall>b \<in> set bs. pegOutInput sha b \<in> I"
    "burnLoop sha policy acc clock bs (gramRecovered policy now s) = (r, s2)"
  shows "keepsRows GRAM_CURSOR I s s2"
proof -
  let ?rec = "recoverSteps policy ''TON peg-out 24h cap exceeded'' now gramOwns (sql_stale s now STALE_SEEN_MS [SEEN]) s"
  have "keepsAll GRAM_CURSOR I s (?rec @ snd (burnLoopSteps sha policy acc clock bs (endOf s ?rec)))"
    by (intro keepsAll_append recoverSteps_keeps burnLoopSteps_keeps assms(1) cursorName_gram)
  from keepsAll_end [OF this] show ?thesis
    using burnLoopSteps_end [of sha policy acc clock bs "gramRecovered policy now s"] assms(2) by (simp add: gramRecovered_steps)
qed

lemma gramScan_sound:
  assumes inj: "inj_on timedKey hist" and serves: "gramScanServes hist c (bs, newest, True)"
    and loop: "burnLoop sha policy acc clock bs (gramRecovered policy now s) = (Inr (), s2)"
    and sound: "scanSound timedKey (burnEvent sha) timeOf hist GRAM_CURSOR c0 (int c) s"
  shows "scanSound timedKey (burnEvent sha) timeOf hist GRAM_CURSOR c0 (int newest) s2"
proof -
  let ?I = "\<Union>e \<in> hist. {pegOutInput sha (snd e)}"
  have bs: "\<forall>b \<in> set bs. pegOutInput sha b \<in> ?I" using serves by (force simp: gramScanServes_def)
  note keeps = gramScan_keeps [OF bs loop]
  note inv = gramRecovered_laws(1) [OF scanSoundD(1) [OF sound], of policy now]
  have "sql_get s2 (timedKey e) \<noteq> None" if e: "e \<in> hist" "c < fst e" "fst e \<le> newest" for e
  proof -
    from serves e obtain h where "(snd e)\<lparr>burn_height := h\<rparr> \<in> set bs" by (auto simp: gramScanServes_def)
    with burnLoop_rows [OF inv loop] show ?thesis by (auto simp: timedKey_def)
  qed
  moreover have "int c \<le> int newest" using serves by (simp add: gramScanServes_def)
  ultimately show ?thesis using gramEvents.sound_moved [OF inj sound keeps] by (simp add: timeOf_def)
qed

lemma gramWrites_sound:
  assumes inj: "inj_on timedKey hist" and c0: "0 < c0"
    and sound: "scanSound timedKey (burnEvent sha) timeOf hist GRAM_CURSOR c0 c s"
    and w: "gramWrites sha policy maxScanPages hist c s c' s'"
  shows "scanSound timedKey (burnEvent sha) timeOf hist GRAM_CURSOR c0 c' s'"
proof -
  let ?I = "\<Union>e \<in> hist. {pegOutInput sha (snd e)}"
  from w obtain n n' node now clock where n: "c = int n" "c' = int n'" and serves: "gramServes hist node"
    and st': "\<lparr>gw_cursor = n', gw_store = s'\<rparr> \<in>
      set (gramPass sha policy maxScanPages node now clock \<lparr>gw_cursor = n, gw_store = s\<rparr>)" (is "?st' \<in> set (gramPass _ _ _ _ _ _ ?st)")
    unfolding gramWrites_def by blast
  have nz: "gw_cursor ?st \<noteq> 0" using sound c0 n by (auto simp: scanSound_def)
  have I: "\<forall>c bs newest drained. gn_burns node c = Inr (bs, newest, drained) \<longrightarrow> (\<forall>b \<in> set bs. pegOutInput sha b \<in> ?I)"
    using serves unfolding gramServes_def gramScanServes_def by fastforce
  show ?thesis
  proof (cases rule: gramPass_states [OF st' nz I])
    case 1
    with gramEvents.sound_keeps [OF inj sound] n show ?thesis by simp
  next
    case (2 bs newest s2)
    have sv: "gramScanServes hist n (bs, newest, True)" using serves 2(1) by (simp add: gramServes_def)
    from gramScan_sound [OF inj sv] 2(2) sound n(1)
    have "scanSound timedKey (burnEvent sha) timeOf hist GRAM_CURSOR c0 (int newest) s2" by simp
    with gramEvents.sound_persisted(1) [OF this] 2(3,4) n(2) show ?thesis by auto
  qed
qed

text \<open>The scan of GramChain serves the burns of the chain, whatever part of it the node has by then.\<close>

definition chainBurns :: "'sl SliceReader \<Rightarrow> 'sl TonTx list \<Rightarrow> TimedBurn set" where
  "chainBurns rd txs = {(tt_lt tx, b) | tx b. tx \<in> set txs \<and> burnFromTx rd (tt_now tx) tx 0 = Inr (Some b)}"

lemma burnFromTx_final:
  "tt_now tx \<le> cutoff \<Longrightarrow> burnFromTx rd cutoff tx h = Inr (Some b) \<longleftrightarrow>
     (\<exists>b0. burnFromTx rd (tt_now tx) tx 0 = Inr (Some b0) \<and> b = b0\<lparr>burn_height := h\<rparr>)"
  by (cases "tt_body tx"; cases "parseJettonDeposit rd (the (tt_body tx))")
    (auto simp: burnFromTx_def split: option.splits)

lemma paginated_scan_serves:
  assumes "newestFirst txs" "distinct (map tt_hash txs)" "2 \<le> limit"
    "paginateBurnsByLt c cutoff height limit pages (pageOf (filter (\<lambda>t. tt_lt t \<le> tip) txs) limit) (burnFromTx rd cutoff) = Inr r"
  shows "gramScanServes (chainBurns rd txs) c r"
proof -
  let ?chain = "filter (\<lambda>t. tt_lt t \<le> tip) txs" and ?burn = "\<lambda>tx. burnFromTx rd cutoff tx height"
  obtain bs newest drained where r: "r = (bs, newest, drained)" by (cases r)
  have nf: "newestFirst ?chain" using assms(1) by (simp add: newestFirst_def sorted_wrt_filter)
  obtain xs ys where xs: "takeWhile (\<lambda>t. c < tt_lt t) ?chain = xs @ ys" "drained \<longrightarrow> ys = []"
    and fold: "foldBurns cutoff ?burn xs ([], c) = Inr (bs, newest)"
    by (rule paginateBurns_prefix [OF nf assms(3) assms(4) [unfolded r]])
  have above: "set (xs @ ys) = {t \<in> set ?chain. c < tt_lt t}" unfolding xs(1) [symmetric] by (rule above_cursor [OF nf])
  note ok = foldBurns_ok [OF fold]
  have ids: "burn_sourceId b = tt_hash t" if "?burn t = Inr (Some b)" for t b
    using that by (auto simp: burnFromTx_def bindE_eq_Inr split: if_splits option.splits)
  have "distinct (map tt_hash (xs @ ys))"
    unfolding xs(1) [symmetric] using assms(2) by (metis distinct_map_filter distinct_map takeWhile_eq_take distinct_take set_take_subset inj_on_subset)
  then have "distinct (map burn_sourceId bs)" using foldBurns_ids [OF fold ids] by simp
  moreover have "\<exists>e \<in> chainBurns rd txs. \<exists>h. c < fst e \<and> b = (snd e)\<lparr>burn_height := h\<rparr>" if b: "b \<in> set bs" for b
  proof -
    obtain t where t: "t \<in> set xs" "tt_now t \<le> cutoff" "?burn t = Inr (Some b)" using ok(1) b by auto
    then obtain b0 where "burnFromTx rd (tt_now t) t 0 = Inr (Some b0)" "b = b0\<lparr>burn_height := height\<rparr>"
      using burnFromTx_final by blast
    then show ?thesis using t(1) above by (intro bexI [of _ "(tt_lt t, b0)"]) (auto simp: chainBurns_def)
  qed
  moreover have "c \<le> newest" using ok(2) by simp
  moreover have "\<exists>h. (snd e)\<lparr>burn_height := h\<rparr> \<in> set bs"
    if d: "drained" and e: "e \<in> chainBurns rd txs" "c < fst e" "fst e \<le> newest" for e
  proof -
    obtain tx b where tx: "e = (tt_lt tx, b)" "tx \<in> set txs" "burnFromTx rd (tt_now tx) tx 0 = Inr (Some b)"
      using e(1) by (auto simp: chainBurns_def)
    obtain t where t: "t \<in> set xs" "tt_now t \<le> cutoff" "tt_lt t = newest" using ok(2) e tx(1) by auto
    then have "tt_lt t \<le> tip" "t \<in> set txs" using above by auto
    then have "tx \<in> set xs" using above xs(2) d e(2,3) tx(1,2) t(3) by auto
    moreover have "tx = t \<or> tt_now tx \<le> tt_now t"
      using assms(1) \<open>t \<in> set txs\<close> tx(1,2) t(3) e(3) by (induction txs) (auto simp: newestFirst_def)
    then have "tt_now tx \<le> cutoff" using t(2) by auto
    moreover from burnFromTx_final [OF this] tx(3) have "?burn tx = Inr (Some (b\<lparr>burn_height := height\<rparr>))" by blast
    ultimately show ?thesis using ok(1) tx(1) by auto
  qed
  ultimately show ?thesis by (auto simp: gramScanServes_def r)
qed

section \<open>Properties\<close>

lemma gramTick_scan:
  assumes "\<not> sql_isPaused (gw_store st)" "gw_cursor st \<noteq> 0" "gn_burns node (gw_cursor st) = Inr (bs, newest, drained)"
    "burnLoop sha policy (gn_accountExists node) clock bs (gramRecovered policy now (gw_store st)) = (Inr (), s2)"
  shows "gramTick sha policy maxScanPages node now clock st =
    (if drained then \<lparr>gw_cursor = newest, gw_store = sql_setCursor GRAM_CURSOR (int newest) now s2\<rparr>
     else st\<lparr>gw_store := sql_pause (truncatedReason (gw_cursor st) maxScanPages) now s2\<rparr>)"
proof -
  obtain r tr where l: "burnLoopSteps sha policy (gn_accountExists node) clock bs (gramRecovered policy now (gw_store st)) = (r, tr)"
    by (cases "burnLoopSteps sha policy (gn_accountExists node) clock bs (gramRecovered policy now (gw_store st))")
  then have "r = Inr ()" "endOf (gramRecovered policy now (gw_store st)) tr = s2"
    using burnLoopSteps_end [of sha policy "gn_accountExists node" clock bs "gramRecovered policy now (gw_store st)"] assms(4)
    by simp_all
  with assms(1-3) l show ?thesis by (simp add: gramTick_def gramPass_def gramRecovered_steps Let_def)
qed

lemma gramRecovered_settles:
  assumes "sqlInv s" "sql_get s k = Some r" "gramOwns r" "ob_status r = SEEN" "ob_updatedAt r < now - STALE_SEEN_MS"
  shows "\<exists>r'. sql_get (gramRecovered policy now s) k = Some r' \<and> (ob_status r' = QUEUED \<or> ob_status r' = HELD)"
  using recoverStaleSeen_settles [OF assms(1) sql_get_in [OF assms(2)] assms(4,5),
      of gramOwns policy "''TON peg-out 24h cap exceeded''"] assms(3) sql_get_id [OF assms(2)]
  by (auto simp: gramRecovered_def rowSettled_def split: option.splits)

text \<open>
  C15. No peg-out loses its row. Take the watcher from a persisted cursor on, against a node whose
  scans, when they report themselves drained, have all burns up to the new cursor, or fail: whatever
  it has written, a pass cut off after any of its writes, restarts, and the other services' work on the shared
  store in between, every burn above the start and up to the persisted cursor has its row, with its sender,
  amount, chain, destination and digest; so the cursor a restart reads skips none. And from every such state a
  pass that is not paused and gets its answers gives each burn it sees for the first time a row that is queued or
  held if the VIZ account exists and held for the return of the wVIZ if it does not, and queues or holds each
  peg-out that a crash left in \<open>SEEN\<close> more than five minutes ago; the cursor moves to the end of a drained scan,
  and a truncated one leaves it and pauses the gateway. What a cut-off pass left unclassified
  is not checked against the VIZ accounts again (\<open>unclassified_burn_never_returned\<close>).
\<close>

theorem no_burn_lost:
  fixes ex :: "string \<Rightarrow> bool"
  assumes "sqlInv s0" "sql_getCursor s0 GRAM_CURSOR = Some c0" "0 < c0" "inj_on timedKey hist"
    "\<forall>e \<in> hist. \<forall>r. sql_get s0 (timedKey e) = Some r \<longrightarrow> burnEvent sha e r"
    "watcherReach (gramWrites sha policy maxScanPages hist) GRAM_CURSOR (timedKey ` hist) c0 s0 (int c) s"
  shows "(\<exists>p. sql_getCursor s GRAM_CURSOR = Some p \<and> c0 \<le> p \<and> p \<le> int c \<and>
      (\<forall>e \<in> hist. c0 < int (fst e) \<and> int (fst e) \<le> p \<longrightarrow>
         (\<exists>r. sql_get s (burn_sourceId (snd e)) = Some r \<and> burnEvent sha e r))) \<and>
    (\<forall>node now clock bs newest drained.
       gramServes hist node \<and> \<not> sql_isPaused s \<and> gn_burns node c = Inr (bs, newest, drained) \<and>
       gn_accountExists node = (\<lambda>n. Inr (ex n)) \<longrightarrow>
       (\<exists>s'. gramTick sha policy maxScanPages node now clock \<lparr>gw_cursor = c, gw_store = s\<rparr> =
              \<lparr>gw_cursor = (if drained then newest else c), gw_store = s'\<rparr> \<and>
          (if drained then c \<le> newest \<and> sql_getCursor s' GRAM_CURSOR = Some (int newest)
           else sql_isPaused s' \<and> sql_getCursor s' GRAM_CURSOR = sql_getCursor s GRAM_CURSOR) \<and>
          (\<forall>b \<in> set bs. sql_get s (burn_sourceId b) = None \<longrightarrow>
             (\<exists>r. sql_get s' (burn_sourceId b) = Some r \<and> burnRow sha ex b r)) \<and>
          (\<forall>k r. sql_get s k = Some r \<and> ob_direction r = O_PEG_OUT \<and> ob_remoteChain r = Some GRAM \<and>
             ob_status r = SEEN \<and> ob_updatedAt r < now - STALE_SEEN_MS \<longrightarrow>
             (\<exists>r'. sql_get s' k = Some r' \<and> (ob_status r' = QUEUED \<or> ob_status r' = HELD)))))"
proof (intro conjI allI impI)
  let ?sound = "scanSound timedKey (burnEvent sha) timeOf hist GRAM_CURSOR c0"
  have sound: "?sound (int c) s"
    by (rule gramEvents.reach_sound [OF assms(6) cursorName_gram scanSound_start [OF assms(1,2,5)]])
      (rule gramWrites_sound [OF assms(4,3)])
  note inv = scanSoundD(1) [OF sound]
  show "\<exists>p. sql_getCursor s GRAM_CURSOR = Some p \<and> c0 \<le> p \<and> p \<le> int c \<and>
      (\<forall>e \<in> hist. c0 < int (fst e) \<and> int (fst e) \<le> p \<longrightarrow>
         (\<exists>r. sql_get s (burn_sourceId (snd e)) = Some r \<and> burnEvent sha e r))"
    using scanSoundD(2) [OF sound] by (simp add: timeOf_def timedKey_def)
  fix node now clock bs newest drained
  assume a: "gramServes hist node \<and> \<not> sql_isPaused s \<and> gn_burns node c = Inr (bs, newest, drained) \<and>
       gn_accountExists node = (\<lambda>n. Inr (ex n))"
  let ?st = "\<lparr>gw_cursor = c, gw_store = s\<rparr>" and ?s1 = "gramRecovered policy now s"
  define s2 where "s2 = intakeRun (\<lambda>b now s. snd (processBurn sha policy (\<lambda>n. Inr (ex n)) b now s)) clock bs ?s1"
  define s' where "s' = (if drained then sql_setCursor GRAM_CURSOR (int newest) now s2
    else sql_pause (truncatedReason c maxScanPages) now s2)"
  have serves: "gramScanServes hist c (bs, newest, drained)" using a by (simp add: gramServes_def)
  note laws = gramRecovered_laws [OF inv, where policy = policy and now = now]
  have loop: "burnLoop sha policy (gn_accountExists node) clock bs ?s1 = (Inr (), s2)" using a by (simp add: s2_def burnLoop_total)
  have get: "sql_get s' = sql_get s2" using sql_get_outbox [of s' s2] by (simp add: s'_def setCursor_frame)
  have new: "\<exists>r. sql_get s' (burn_sourceId b) = Some r \<and> burnRow sha ex b r"
    if "b \<in> set bs" "sql_get s (burn_sourceId b) = None" for b
    unfolding get s2_def using gramIntake.run_new [OF laws(1) _ that(1)] serves that(2) laws(2) by (auto simp: gramScanServes_def)
  have stale: "\<exists>r'. sql_get s' k = Some r' \<and> (ob_status r' = QUEUED \<or> ob_status r' = HELD)"
    if "sql_get s k = Some r \<and> ob_direction r = O_PEG_OUT \<and> ob_remoteChain r = Some GRAM \<and> ob_status r = SEEN \<and>
      ob_updatedAt r < now - STALE_SEEN_MS" for k r
  proof -
    from gramRecovered_settles [OF inv, of k r now policy] that
    obtain r' where r': "sql_get ?s1 k = Some r'" "ob_status r' = QUEUED \<or> ob_status r' = HELD" by (auto simp: gramOwns_def)
    from gramIntake.run_known [OF laws(1) r'(1)] r'(2) show ?thesis unfolding get s2_def by blast
  qed
  have cur: "if drained then c \<le> newest \<and> sql_getCursor s' GRAM_CURSOR = Some (int newest)
      else sql_isPaused s' \<and> sql_getCursor s' GRAM_CURSOR = sql_getCursor s GRAM_CURSOR"
  proof (cases drained)
    case True
    with gramScan_sound [OF assms(4) _ loop sound] serves have "?sound (int newest) s2" by simp
    from gramEvents.sound_persisted(2) [OF this, of now] True serves show ?thesis by (simp add: s'_def gramScanServes_def)
  next
    case False
    have "keepsRows GRAM_CURSOR {pegOutInput sha b |b. b \<in> set bs} s s2" by (rule gramScan_keeps [OF _ loop]) blast
    from keepsRowsD(2) [OF this inv] have "sql_getCursor s2 GRAM_CURSOR = sql_getCursor s GRAM_CURSOR" .
    with False show ?thesis by (simp add: s'_def getCursor_pause)
  qed
  have c: "0 < c" using sound assms(3) by (auto simp: scanSound_def)
  have tick: "gramTick sha policy maxScanPages node now clock ?st = \<lparr>gw_cursor = (if drained then newest else c), gw_store = s'\<rparr>"
    using gramTick_scan [of ?st node bs newest drained sha policy clock now s2 maxScanPages] a loop c
    by (simp add: s'_def)
  show "\<exists>s'. gramTick sha policy maxScanPages node now clock ?st =
              \<lparr>gw_cursor = (if drained then newest else c), gw_store = s'\<rparr> \<and>
          (if drained then c \<le> newest \<and> sql_getCursor s' GRAM_CURSOR = Some (int newest)
           else sql_isPaused s' \<and> sql_getCursor s' GRAM_CURSOR = sql_getCursor s GRAM_CURSOR) \<and>
          (\<forall>b \<in> set bs. sql_get s (burn_sourceId b) = None \<longrightarrow>
             (\<exists>r. sql_get s' (burn_sourceId b) = Some r \<and> burnRow sha ex b r)) \<and>
          (\<forall>k r. sql_get s k = Some r \<and> ob_direction r = O_PEG_OUT \<and> ob_remoteChain r = Some GRAM \<and>
             ob_status r = SEEN \<and> ob_updatedAt r < now - STALE_SEEN_MS \<longrightarrow>
             (\<exists>r'. sql_get s' k = Some r' \<and> (ob_status r' = QUEUED \<or> ob_status r' = HELD)))"
    using tick cur new stale by (intro exI [of _ s']) blast
qed

definition burn_a :: RemoteBurn where
  "burn_a = \<lparr>burn_chain = GRAM, burn_sourceId = ''aa'', burn_height = 5, burn_from = ''EQa'', burn_amountMilliViz = 300,
     burn_homeDestination = ''alice''\<rparr>"

definition burn_b :: RemoteBurn where
  "burn_b = burn_a\<lparr>burn_sourceId := ''bb'', burn_homeDestination := ''nobody''\<rparr>"

definition gram_node_example :: GramNode where
  "gram_node_example = \<lparr>gn_newestLt = Inr 70,
     gn_burns = (\<lambda>c. if c = 60 then Inr ([burn_b, burn_a], 70, True) else Inl (GenericError ''timeout'')),
     gn_accountExists = (\<lambda>n. Inr (n = ''alice''))\<rparr>"

definition gram_boot_example :: SqliteStore where
  "gram_boot_example = sql_setCursor GRAM_CURSOR 60 1 emptySqlite"

text \<open>The state after the first burn, to a VIZ account that does not exist, was held for its return.\<close>

definition gram_crashed_example :: GramWatcherState where
  "gram_crashed_example = gramPass (\<lambda>s. s) cap_example 50 gram_node_example 5 (\<lambda>_. 5)
     \<lparr>gw_cursor = 60, gw_store = gram_boot_example\<rparr> ! 1"

lemma gram_boot_example: "sql_getCursor gram_boot_example GRAM_CURSOR = Some 60" "sql_get gram_boot_example k = None"
    "sqlInv gram_boot_example" "\<not> sql_isPaused gram_boot_example" "sql_stale gram_boot_example now ms sts = []"
proof -
  have "sql_getCursor emptySqlite GRAM_CURSOR = Some 0" by (simp add: sql_getCursor_def sql_getKey_def emptySqlite_def)
  from sqcur.get_setCursor [OF this, of 60 1] show "sql_getCursor gram_boot_example GRAM_CURSOR = Some 60"
    by (simp add: gram_boot_example_def)
  show "sql_get gram_boot_example k = None" "sqlInv gram_boot_example"
    by (simp_all add: gram_boot_example_def sqlInv_empty) (simp add: sql_get_def emptySqlite_def)
  show "\<not> sql_isPaused gram_boot_example"
    by (simp add: gram_boot_example_def sql_setCursor_def sql_getCursor_def sql_getKey_def sql_setKey_def sql_isPaused_def
        emptySqlite_def GRAM_CURSOR_def)
  show "sql_stale gram_boot_example now ms sts = []"
    by (simp add: sql_stale_def visit_def gram_boot_example_def setCursor_frame emptySqlite_def)
qed

lemma gram_crashed_example:
  "gw_cursor gram_crashed_example = 60"
  "gw_store gram_crashed_example = sql_setStatus ''bb'' HELD (heldPatch ''RETURN_INVALID_DEST'') 5
     (snd (sql_enqueue (pegOutInput (\<lambda>s. s) burn_b) 5 gram_boot_example))"
  "gram_crashed_example \<in> set (gramPass (\<lambda>s. s) cap_example 50 gram_node_example 5 (\<lambda>_. 5)
     \<lparr>gw_cursor = 60, gw_store = gram_boot_example\<rparr>)"
  using sq.enqueue_result [OF gram_boot_example(3), of "pegOutInput (\<lambda>s. s) burn_b" 5]
  by (auto simp: gram_crashed_example_def gramPass_def gram_boot_example gram_node_example_def burnSteps_def burn_b_def burn_a_def
      classifyPegOutDestination_def Let_def split: prod.split)

lemma gram_crashed_laws:
  "sql_get (gw_store gram_crashed_example) ''aa'' = None" "\<not> sql_isPaused (gw_store gram_crashed_example)"
  "sql_getCursor (gw_store gram_crashed_example) GRAM_CURSOR = Some 60"
proof -
  have i: "sqlInv (snd (sql_enqueue (pegOutInput (\<lambda>s. s) burn_b) 5 gram_boot_example))" by (rule sq.inv_enqueue [OF gram_boot_example(3)])
  show "sql_get (gw_store gram_crashed_example) ''aa'' = None"
    using i by (simp add: gram_crashed_example sq.get_setStatus sq.get_enqueue gram_boot_example burn_b_def)
  have st: "tb_state (gw_store gram_crashed_example) = tb_state gram_boot_example"
    by (simp add: gram_crashed_example sql_setStatus_def sql_enqueue_def gram_boot_example)
  then show "sql_getCursor (gw_store gram_crashed_example) GRAM_CURSOR = Some 60"
    using getCursor_state [OF st] gram_boot_example(1) by simp
  show "\<not> sql_isPaused (gw_store gram_crashed_example)"
    using gram_boot_example(4) st by (simp add: sql_isPaused_def sql_getKey_def)
qed

lemma gram_serves_example: "gramServes {(65, burn_a), (68, burn_b)} gram_node_example"
proof -
  have 5: "burn_a\<lparr>burn_height := 5\<rparr> = burn_a" "burn_b\<lparr>burn_height := 5\<rparr> = burn_b" by (simp_all add: burn_a_def burn_b_def)
  have ne: "burn_sourceId burn_b \<noteq> burn_sourceId burn_a" by (simp add: burn_a_def burn_b_def)
  have "\<exists>h. burn_a = burn_a\<lparr>burn_height := h\<rparr>" "\<exists>h. burn_b = burn_b\<lparr>burn_height := h\<rparr>"
    "\<exists>h. burn_a\<lparr>burn_height := h\<rparr> = burn_b \<or> burn_a\<lparr>burn_height := h\<rparr> = burn_a"
    "\<exists>h. burn_b\<lparr>burn_height := h\<rparr> = burn_b \<or> burn_b\<lparr>burn_height := h\<rparr> = burn_a"
    using 5 by metis+
  with ne show ?thesis by (simp add: gramServes_def gramScanServes_def gram_node_example_def split: if_splits)
qed

text \<open>The process dies after the first burn; it restarts, and the next pass gives the second its row.\<close>

theorem no_burn_lost_witness:
  "\<exists>r. sql_get (gw_store (gramTick (\<lambda>s. s) cap_example 50 gram_node_example 9 (\<lambda>_. 9)
       \<lparr>gw_cursor = 60, gw_store = gw_store gram_crashed_example\<rparr>)) ''aa'' = Some r \<and>
     burnRow (\<lambda>s. s) (\<lambda>n. n = ''alice'') burn_a r"
proof -
  let ?hist = "{(65, burn_a), (68, burn_b)}"
  let ?reach = "watcherReach (gramWrites (\<lambda>s. s) cap_example 50 ?hist) GRAM_CURSOR (timedKey ` ?hist) 60 gram_boot_example"
  have ids: "burn_sourceId burn_a = ''aa''" "burn_sourceId burn_b = ''bb''" by (simp_all add: burn_a_def burn_b_def)
  have "gramWrites (\<lambda>s. s) cap_example 50 ?hist 60 gram_boot_example 60 (gw_store gram_crashed_example)"
    unfolding gramWrites_def using gram_serves_example gram_crashed_example(3) gram_crashed_example(1)
    by (intro exI [of _ 60] exI [of _ gram_node_example] exI [of _ 5] exI [of _ "\<lambda>_. 5"])
      (simp, metis GramWatcherState.surjective old.unit.exhaust)
  then have "?reach 60 (gw_store gram_crashed_example)" by (rule watcherWrites [OF watcherStart])
  from watcherRestart [OF this gram_crashed_laws(3)] have reach: "?reach (int 60) (gw_store gram_crashed_example)" by simp
  have inj: "inj_on timedKey ?hist" using ids by (simp add: timedKey_def)
  have scan: "gn_burns gram_node_example 60 = Inr ([burn_b, burn_a], 70, True)"
    "gn_accountExists gram_node_example = (\<lambda>n. Inr (n = ''alice''))" by (simp_all add: gram_node_example_def)
  have "\<forall>e \<in> ?hist. \<forall>r. sql_get gram_boot_example (timedKey e) = Some r \<longrightarrow> burnEvent (\<lambda>s. s) e r"
    by (simp add: gram_boot_example)
  from no_burn_lost [OF gram_boot_example(3,1) _ inj this reach, THEN conjunct2, rule_format, of gram_node_example
      "[burn_b, burn_a]" 70 True "\<lambda>n. n = ''alice''" 9 "\<lambda>_. 9"]
  show ?thesis using gram_serves_example gram_crashed_laws(1,2) scan ids by auto
qed

text \<open>
  A burn whose account check failed is released without it: when \<open>accountExists\<close> throws, the
  row is left in \<open>SEEN\<close>, the repeated scan skips it as known, and after five minutes the recovery
  gives it a cap decision only. The row ends queued, or held over a cap, and is never marked for the
  return, whether or not the VIZ account exists.
\<close>

lemma unclassified_burn_never_returned:
  assumes "sqlInv s" "sql_get s (burn_sourceId b) = None" "burn_chain b = GRAM"
    "accountExists (burn_homeDestination b) = Inl e" "then' + STALE_SEEN_MS < now"
  shows "\<exists>r. sql_get (gramRecovered policy now (snd (processBurn sha policy accountExists b then' s))) (burn_sourceId b) = Some r \<and>
    (ob_status r = QUEUED \<or> ob_status r = HELD) \<and> ob_lastError r \<noteq> Some ''RETURN_INVALID_DEST''"
proof -
  let ?i = "pegOutInput sha b" and ?k = "burn_sourceId b"
  define s1 where "s1 = snd (sql_enqueue ?i then' s)"
  have s1: "sqlInv s1" "sql_get s1 ?k = Some (recordOf ?i then')"
    using sq.inv_enqueue [OF assms(1)] sq.get_enqueue [OF assms(1)] assms(2) by (simp_all add: s1_def)
  have "snd (processBurn sha policy accountExists b then' s) = s1"
    using sq.enqueue_result [OF assms(1), of ?i then'] assms(2,4)
    by (auto simp: processBurn_def classifyPegOutDestination_def s1_def Let_def split: prod.split)
  moreover have "rowSettled (gramRecovered policy now s1) (recordOf ?i then')"
    unfolding gramRecovered_def
    by (rule recoverStaleSeen_settles [OF s1(1) sql_get_in [OF s1(2)]])
      (use assms(3,5) in \<open>simp_all add: gramOwns_def recordOf_def\<close>)
  moreover have "ob_lastError r \<noteq> Some ''RETURN_INVALID_DEST''" if "sql_get (gramRecovered policy now s1) ?k = Some r" for r
    using recoverLoop_lastError [OF s1(1), of ?k] s1(2) that by (fastforce simp: gramRecovered_def recoverStaleSeen_def)
  ultimately show ?thesis by (auto simp: rowSettled_def split: option.splits)
qed

end
