(* ===== verification/Recon.thy ===== *)
theory Recon
  imports StoreSqlite Proposals
begin

text \<open>
  Reconciliation (\<open>packages/recon/src/checker.ts\<close>, the loop of \<open>packages/recon/src/index.ts\<close> and
  the snapshot codec \<open>packages/common/src/recon-snapshot.ts\<close>): the peg invariant of each chain, the
  escalation of repeated read failures to a pause, and the automatic recovery from that pause. What
  the chains answer is an argument of each check; \<open>JSON.stringify\<close> and \<open>JSON.parse\<close> are
  parameters. Console output and staff notifications are not modelled; the dash in one pause text is
  written as a hyphen.
\<close>

section \<open>The snapshot (recon-snapshot.ts)\<close>

definition reconSnapshotKey :: "string \<Rightarrow> string" where
  "reconSnapshotKey chain = ''recon:snapshot:'' @ chain"

record ReconSnapshot =
  rs_chain :: string
  rs_lockedMilliViz :: int
  rs_circulatingMilliViz :: int
  rs_unsweptFeesMilliViz :: int
  rs_driftMilliViz :: int
  rs_ok :: bool
  rs_checkedAt :: int

definition reconStatus :: "bool \<Rightarrow> string" where
  "reconStatus ok = (if ok then ''OK'' else ''UNDER_BACKED'')"

definition snapshotObj :: "ReconSnapshot \<Rightarrow> json_obj" where
  "snapshotObj s = [''chain'' \<mapsto> JString (rs_chain s),
     ''lockedMilliViz'' \<mapsto> JString (decInt (rs_lockedMilliViz s)),
     ''circulatingMilliViz'' \<mapsto> JString (decInt (rs_circulatingMilliViz s)),
     ''unsweptFeesMilliViz'' \<mapsto> JString (decInt (rs_unsweptFeesMilliViz s)),
     ''driftMilliViz'' \<mapsto> JString (decInt (rs_driftMilliViz s)),
     ''status'' \<mapsto> JString (reconStatus (rs_ok s)), ''checkedAt'' \<mapsto> JNumber (rs_checkedAt s)]"

definition serializeReconSnapshot :: "(json_obj \<Rightarrow> string) \<Rightarrow> ReconSnapshot \<Rightarrow> string" where
  "serializeReconSnapshot stringify s = stringify (snapshotObj s)"

definition isDecimal :: "string \<Rightarrow> bool" where
  "isDecimal v \<longleftrightarrow> (case v of [] \<Rightarrow> False | c # cs \<Rightarrow> if c = CHR ''-'' then allDigits cs else allDigits v)"

fun toBigInt :: "json option \<Rightarrow> int option" where
  "toBigInt (Some (JString v)) = (if isDecimal v then bigintOf v else None)"
| "toBigInt _ = None"

definition snapshotOfObj :: "json_obj \<Rightarrow> ReconSnapshot option" where
  "snapshotOfObj o' =
     (case (toBigInt (o' ''lockedMilliViz''), toBigInt (o' ''circulatingMilliViz''),
            toBigInt (o' ''unsweptFeesMilliViz''), toBigInt (o' ''driftMilliViz'')) of
        (Some locked, Some circulating, Some unswept, Some drift) \<Rightarrow>
          (case (o' ''status'', o' ''checkedAt'', o' ''chain'') of
             (Some (JString st), Some (JNumber at'), Some (JString chain)) \<Rightarrow>
               if (st \<noteq> ''OK'' \<and> st \<noteq> ''UNDER_BACKED'') \<or> chain = [] then None
               else Some \<lparr>rs_chain = chain, rs_lockedMilliViz = locked, rs_circulatingMilliViz = circulating,
                 rs_unsweptFeesMilliViz = unswept, rs_driftMilliViz = drift, rs_ok = (st = ''OK''),
                 rs_checkedAt = at'\<rparr>
           | _ \<Rightarrow> None)
      | _ \<Rightarrow> None)"

definition parseReconSnapshot :: "(string \<Rightarrow> json_obj option) \<Rightarrow> string option \<Rightarrow> ReconSnapshot option" where
  "parseReconSnapshot parse text' =
     (case text' of None \<Rightarrow> None
      | Some t \<Rightarrow> if t = [] then None else (case parse t of None \<Rightarrow> None | Some o' \<Rightarrow> snapshotOfObj o'))"

section \<open>One chain (checker.ts)\<close>

definition belowTonFloor :: "int \<Rightarrow> int \<Rightarrow> bool" where
  "belowTonFloor balanceNano floorNano \<longleftrightarrow> balanceNano < floorNano"

definition RECON_STALLED_REASON_PREFIX :: string where
  "RECON_STALLED_REASON_PREFIX = ''recon cannot verify backing''"

record ReconCfg =
  rg_driftToleranceMilliViz :: int
  rg_maxConsecutiveFailures :: nat
  rg_expectedRemotes :: "string list"

definition uncoveredActiveChains :: "string list \<Rightarrow> string set \<Rightarrow> string list" where
  "uncoveredActiveChains active covered = filter (\<lambda>c. c \<notin> covered) active"

record ReconState =
  rn_remotes :: "string list"
  rn_cfg :: ReconCfg
  rn_chain :: "RemoteChainId option"
  rn_sanityFloorMilliViz :: "int option"
  rn_consecutiveFailures :: nat

definition newRecon :: "string list \<Rightarrow> ReconCfg \<Rightarrow> RemoteChainId option \<Rightarrow> int option \<Rightarrow> ReconState result" where
  "newRecon remotes cfg chain floor' =
     (if remotes = [] then Inl (GenericError ''[recon] no remote chain configured'')
      else if filter (\<lambda>n. n \<notin> set remotes) (rg_expectedRemotes cfg) \<noteq> []
      then Inl (GenericError ''[recon] expected remote(s) missing from config'')
      else Inr \<lparr>rn_remotes = remotes, rn_cfg = cfg, rn_chain = chain, rn_sanityFloorMilliViz = floor',
             rn_consecutiveFailures = 0\<rparr>)"

text \<open>What the VIZ node and the remotes answer to one check.\<close>

record CheckReads =
  cr_locked :: "int result"
  cr_supplies :: "int result list"
  cr_now :: int

definition publishSnapshot ::
  "(json_obj \<Rightarrow> string) \<Rightarrow> RemoteChainId option \<Rightarrow> ReconSnapshot \<Rightarrow> int \<Rightarrow> SqliteStore \<Rightarrow> SqliteStore" where
  "publishSnapshot stringify chain f now s =
     (let name = (case chain of None \<Rightarrow> ''ALL'' | Some c \<Rightarrow> chainString c)
      in sql_setState (reconSnapshotKey name) (serializeReconSnapshot stringify (f\<lparr>rs_chain := name\<rparr>)) now s)"

definition floorReason :: "int \<Rightarrow> int \<Rightarrow> RemoteChainId option \<Rightarrow> string" where
  "floorReason minFee floor' chain = ''pinned PEG_IN fee '' @ decInt minFee @ '' mVIZ below sanity floor '' @
     decInt floor' @ '' ('' @ (case chain of None \<Rightarrow> ''all'' | Some c \<Rightarrow> chainString c) @ '')''"

definition overSweepReason :: "int \<Rightarrow> string" where
  "overSweepReason unswept = ''over-swept fees '' @ decInt unswept @
     '' mVIZ: confirmed FEE_SWEEPs exceed derived peg-in fees (mis-pinning or double sweep)''"

definition underBackingReason :: "int \<Rightarrow> int \<Rightarrow> int \<Rightarrow> int \<Rightarrow> string" where
  "underBackingReason drift locked circulating unswept =
     ''under-backing '' @ decInt drift @ '' mVIZ (locked='' @ decInt locked @ '', circulating='' @
     decInt circulating @ '', unsweptFees='' @ decInt unswept @ '')''"

text \<open>\<open>Some True\<close> is healthy, \<open>Some False\<close> a violation, \<open>None\<close> indeterminate.\<close>

definition recon_check ::
  "(json_obj \<Rightarrow> string) \<Rightarrow> ReconState \<Rightarrow> CheckReads \<Rightarrow> SqliteStore \<Rightarrow> bool option \<times> SqliteStore" where
  "recon_check stringify rn rd s =
     (case cr_locked rd of
        Inl _ \<Rightarrow> (None, s)
      | Inr locked \<Rightarrow>
          let unsweptFees = sql_unsweptFees s (rn_chain rn);
              floorBreach = (case rn_sanityFloorMilliViz rn of None \<Rightarrow> None
                | Some fl \<Rightarrow> (case sql_minPegInFee s (rn_chain rn) of None \<Rightarrow> None
                    | Some m \<Rightarrow> if m < fl then Some (floorReason m fl (rn_chain rn)) else None))
          in if \<not> list_all isOk (cr_supplies rd) then (None, s)
             else (case floorBreach of
                 Some reason \<Rightarrow> (Some False, sql_pause reason (cr_now rd) s)
               | None \<Rightarrow>
                   if unsweptFees < 0 then (Some False, sql_pause (overSweepReason unsweptFees) (cr_now rd) s)
                   else
                     let circulating = foldl (\<lambda>a r. case r of Inr v \<Rightarrow> a + v | Inl _ \<Rightarrow> a) 0 (cr_supplies rd);
                         drift = locked - (circulating + unsweptFees);
                         ok = (drift \<ge> - rg_driftToleranceMilliViz (rn_cfg rn));
                         s1 = (if ok then s
                               else sql_pause (underBackingReason drift locked circulating unsweptFees) (cr_now rd) s)
                     in (Some ok, publishSnapshot stringify (rn_chain rn)
                          \<lparr>rs_chain = [], rs_lockedMilliViz = locked, rs_circulatingMilliViz = circulating,
                           rs_unsweptFeesMilliViz = unsweptFees, rs_driftMilliViz = drift, rs_ok = ok,
                           rs_checkedAt = cr_now rd\<rparr> (cr_now rd) s1)))"

definition stalledReason :: "nat \<Rightarrow> string" where
  "stalledReason n = RECON_STALLED_REASON_PREFIX @ '' ('' @ decNat n @ '' consecutive failures)''"

definition onCheckResult :: "bool option \<Rightarrow> int \<Rightarrow> ReconState \<times> SqliteStore \<Rightarrow> ReconState \<times> SqliteStore" where
  "onCheckResult result now rns =
     (case rns of (rn, s) \<Rightarrow>
        (case result of
           None \<Rightarrow>
             let n = rn_consecutiveFailures rn + 1;
                 rn' = rn\<lparr>rn_consecutiveFailures := n\<rparr>
             in (rn', if n \<ge> rg_maxConsecutiveFailures (rn_cfg rn) then sql_pause (stalledReason n) now s else s)
         | Some _ \<Rightarrow> (rn\<lparr>rn_consecutiveFailures := 0\<rparr>, s)))"

record AutoUnpause =
  au_okStreak :: nat
  au_okTicksRequired :: int

definition onTick :: "bool \<Rightarrow> int \<Rightarrow> AutoUnpause \<times> SqliteStore \<Rightarrow> bool \<times> AutoUnpause \<times> SqliteStore" where
  "onTick allOk now aus =
     (case aus of (au, s) \<Rightarrow>
        if \<not> allOk then (False, au\<lparr>au_okStreak := 0\<rparr>, s)
        else
          let au' = au\<lparr>au_okStreak := au_okStreak au + 1\<rparr>
          in if au_okTicksRequired au \<le> 0 \<or> int (au_okStreak au') < au_okTicksRequired au then (False, au', s)
             else if \<not> sql_isPaused s then (False, au', s)
             else
               let reason = (case sql_pauseReason s of None \<Rightarrow> [] | Some r \<Rightarrow> r)
               in if \<not> startsWith reason RECON_STALLED_REASON_PREFIX then (False, au', s)
                  else (True, au', sql_unpause now s))"

section \<open>The loop (index.ts)\<close>

definition coverageReason :: "string list \<Rightarrow> string list \<Rightarrow> string" where
  "coverageReason uncovered covered =
     ''[recon] active chain(s) ['' @ joinWith '','' uncovered @ ''] have minted wVIZ but are not covered by recon (covered: ['' @
     joinWith '','' covered @ '']). A chain with live circulating wVIZ must never drop out of recon'' @
     '' - restore its config (GRAM_JETTON_MINTER_ADDRESS / SOLANA_WVIZ_MINT).''"

definition enforceActiveChainCoverage ::
  "string list \<Rightarrow> bool \<Rightarrow> int \<Rightarrow> SqliteStore \<Rightarrow> unit result \<times> SqliteStore" where
  "enforceActiveChainCoverage covered fatal now s =
     (let uncovered = uncoveredActiveChains (map chainString (sql_activeRemoteChains s)) (set covered)
      in if uncovered = [] then (Inr (), s)
         else (if fatal then Inl (GenericError (coverageReason uncovered covered)) else Inr (),
               sql_pause (coverageReason uncovered covered) now s))"

definition reserveReason :: "int \<Rightarrow> int \<Rightarrow> string" where
  "reserveReason bal floorNano = ''GRAM TON reserve low: '' @ decInt bal @ '' nano < '' @ decInt floorNano"

text \<open>\<open>wired\<close>: the minter and the multisig address are configured.\<close>

definition gramReserveCheck :: "bool \<Rightarrow> int result \<Rightarrow> int \<Rightarrow> int \<Rightarrow> SqliteStore \<Rightarrow> SqliteStore" where
  "gramReserveCheck wired balR floorNano now s =
     (if \<not> wired then s
      else (case balR of
          Inl _ \<Rightarrow> s
        | Inr bal \<Rightarrow> if belowTonFloor bal floorNano then sql_pause (reserveReason bal floorNano) now s else s))"

fun reconLoop ::
  "(json_obj \<Rightarrow> string) \<Rightarrow> (ReconState \<times> CheckReads) list \<Rightarrow> SqliteStore \<Rightarrow> ReconState list \<times> bool \<times> SqliteStore" where
  "reconLoop stringify [] s = ([], True, s)"
| "reconLoop stringify ((rn, rd) # rs) s =
     (case recon_check stringify rn rd s of (result, s1) \<Rightarrow>
        (case onCheckResult result (cr_now rd) (rn, s1) of (rn', s2) \<Rightarrow>
           (case reconLoop stringify rs s2 of (rns, allOk, s3) \<Rightarrow>
              (rn' # rns, result = Some True \<and> allOk, s3))))"

definition reconTick ::
  "(json_obj \<Rightarrow> string) \<Rightarrow> string list \<Rightarrow> (ReconState \<times> CheckReads) list \<Rightarrow> bool \<Rightarrow> int result \<Rightarrow> int \<Rightarrow> int \<Rightarrow>
   AutoUnpause \<Rightarrow> SqliteStore \<Rightarrow> ReconState list \<times> AutoUnpause \<times> SqliteStore" where
  "reconTick stringify covered rs wired balR floorNano now au s =
     (case reconLoop stringify rs (snd (enforceActiveChainCoverage covered False now s)) of (rns, allOk, s2) \<Rightarrow>
        (case onTick allOk now (au, gramReserveCheck wired balR floorNano now s2) of (_, au', s4) \<Rightarrow>
           (rns, au', s4)))"

section \<open>What a check means\<close>

lemma unsweptFees_state: "sql_unsweptFees (sql_setState k v now s) = sql_unsweptFees s"
  by (simp add: sql_setState_def sql_unsweptFees_def fun_eq_iff)

lemma publishSnapshot_frame [simp]:
  "sql_isPaused (publishSnapshot st c f now s) = sql_isPaused s"
  "sql_pauseReason (publishSnapshot st c f now s) = sql_pauseReason s"
  "tb_outbox (publishSnapshot st c f now s) = tb_outbox s"
  by (simp_all add: publishSnapshot_def sql_setState_def sql_isPaused_def sql_pauseReason_def reconSnapshotKey_def Let_def)

definition suppliesSum :: "int result list \<Rightarrow> int" where
  "suppliesSum rs = sum_list (map (\<lambda>r. case r of Inr v \<Rightarrow> v | Inl _ \<Rightarrow> 0) rs)"

lemma foldl_supplies: "foldl (\<lambda>a r. case r of Inr v \<Rightarrow> a + v | Inl _ \<Rightarrow> a) x rs = x + suppliesSum rs"
  by (induction rs arbitrary: x) (auto simp: suppliesSum_def split: sum.split)

lemma recon_check_None: "recon_check st rn rd s = (None, s') \<Longrightarrow> s' = s"
  by (auto simp: recon_check_def Let_def split: sum.splits if_splits option.splits)

lemma recon_check_False: "recon_check st rn rd s = (Some False, s') \<Longrightarrow> sql_isPaused s'"
  by (auto simp: recon_check_def Let_def split: sum.splits if_splits option.splits)

lemma recon_check_True:
  assumes "recon_check st rn rd s = (Some True, s')"
  shows "\<exists>locked. cr_locked rd = Inr locked \<and> list_all isOk (cr_supplies rd) \<and>
      0 \<le> sql_unsweptFees s (rn_chain rn) \<and>
      suppliesSum (cr_supplies rd) + sql_unsweptFees s (rn_chain rn) - rg_driftToleranceMilliViz (rn_cfg rn) \<le> locked"
    and "sql_isPaused s' = sql_isPaused s" "sql_pauseReason s' = sql_pauseReason s"
    and "\<And>fl m. rn_sanityFloorMilliViz rn = Some fl \<Longrightarrow> sql_minPegInFee s (rn_chain rn) = Some m \<Longrightarrow> fl \<le> m"
  using assms
  by (auto simp: recon_check_def foldl_supplies Let_def split: sum.splits if_splits option.splits)

text \<open>A check or an escalation only ever sets the pause.\<close>

lemma recon_check_paused: "sql_isPaused s \<Longrightarrow> sql_isPaused (snd (recon_check st rn rd s))"
  by (auto simp: recon_check_def Let_def split: sum.split option.split)

lemma onCheckResult_paused: "sql_isPaused s \<Longrightarrow> sql_isPaused (snd (onCheckResult r now (rn, s)))"
  by (auto simp: onCheckResult_def Let_def split: option.split)

lemma reconLoop_paused: "sql_isPaused s \<Longrightarrow> sql_isPaused (snd (snd (reconLoop st rs s)))"
proof (induction rs arbitrary: s)
  case (Cons x rs)
  obtain rn rd where x: "x = (rn, rd)" by (cases x)
  have "sql_isPaused (snd (onCheckResult (fst (recon_check st rn rd s)) (cr_now rd) (rn, snd (recon_check st rn rd s))))"
    by (rule onCheckResult_paused [OF recon_check_paused [OF Cons.prems]])
  from Cons.IH [OF this] show ?case by (simp add: x case_prod_beta)
qed simp

text \<open>A loop in which every check was healthy leaves the pause and its reason as they were.\<close>

lemma reconLoop_allOk:
  assumes "reconLoop st rs s = (rns, True, s')"
  shows "sql_isPaused s' = sql_isPaused s \<and> sql_pauseReason s' = sql_pauseReason s"
  using assms
proof (induction rs arbitrary: s rns)
  case (Cons x rs)
  obtain rn rd where x: "x = (rn, rd)" by (cases x)
  obtain r s1 where c: "recon_check st rn rd s = (r, s1)" by (cases "recon_check st rn rd s")
  obtain rns' where "r = Some True" "reconLoop st rs s1 = (rns', True, s')"
    using Cons.prems x c by (auto simp: onCheckResult_def split: prod.splits)
  with Cons.IH [OF this(2)] recon_check_True(2,3) c show ?case by simp
qed simp

lemma reserve_pause:
  "sql_isPaused s \<Longrightarrow> sql_isPaused (gramReserveCheck wired b fl now s)"
  "sql_pauseReason (gramReserveCheck wired b fl now s) = sql_pauseReason s \<or>
   (\<exists>x. sql_pauseReason (gramReserveCheck wired b fl now s) = Some (reserveReason x fl))"
  by (auto simp: gramReserveCheck_def split: sum.split)

lemma onTick_unpaused:
  assumes "onTick allOk now (au, s) = (did, au', s')"
  shows "did \<longleftrightarrow> allOk \<and> 0 < au_okTicksRequired au \<and> au_okTicksRequired au \<le> int (Suc (au_okStreak au)) \<and>
      sql_isPaused s \<and> (\<exists>r. sql_pauseReason s = Some r \<and> startsWith r RECON_STALLED_REASON_PREFIX)"
    and "\<not> did \<Longrightarrow> s' = s" and "did \<Longrightarrow> s' = sql_unpause now s"
    and "au_okStreak au' = (if allOk then Suc (au_okStreak au) else 0)"
    and "au_okTicksRequired au' = au_okTicksRequired au"
  using assms
  by (auto simp: onTick_def Let_def startsWith_def RECON_STALLED_REASON_PREFIX_def split: if_splits option.splits)

lemma not_stalled_reasons:
  "\<not> startsWith (coverageReason u c) RECON_STALLED_REASON_PREFIX"
  "\<not> startsWith (reserveReason b f) RECON_STALLED_REASON_PREFIX"
  by (simp_all add: startsWith_def RECON_STALLED_REASON_PREFIX_def coverageReason_def reserveReason_def)

section \<open>Properties\<close>

text \<open>What a check asks of the books: every source answered, and the peg holds.\<close>

definition reconAnswered :: "CheckReads \<Rightarrow> bool" where
  "reconAnswered rd \<longleftrightarrow> isOk (cr_locked rd) \<and> list_all isOk (cr_supplies rd)"

definition floorHolds :: "ReconState \<Rightarrow> SqliteStore \<Rightarrow> bool" where
  "floorHolds rn s \<longleftrightarrow> (\<forall>fl m. rn_sanityFloorMilliViz rn = Some fl \<and> sql_minPegInFee s (rn_chain rn) = Some m \<longrightarrow> fl \<le> m)"

definition pegHolds :: "ReconState \<Rightarrow> CheckReads \<Rightarrow> SqliteStore \<Rightarrow> bool" where
  "pegHolds rn rd s \<longleftrightarrow> 0 \<le> sql_unsweptFees s (rn_chain rn) \<and>
     (\<exists>locked. cr_locked rd = Inr locked \<and>
        suppliesSum (cr_supplies rd) + sql_unsweptFees s (rn_chain rn) - rg_driftToleranceMilliViz (rn_cfg rn) \<le> locked)"

lemma recon_check_outcome:
  "fst (recon_check st rn rd s) =
     (if \<not> reconAnswered rd then None else Some (floorHolds rn s \<and> pegHolds rn rd s))"
  by (auto simp: recon_check_def foldl_supplies Let_def reconAnswered_def floorHolds_def pegHolds_def
      split: sum.split option.split)

text \<open>
  C17. A check reports health exactly when the peg holds: every source answered, no pinned fee is
  under the sanity floor, confirmed sweeps took no more than the pinned fees, and the locked balance
  covers the circulating supplies and the unswept fees up to the tolerance. If they all answered and
  any of that fails, the check reports a failure and the gateway is paused; a healthy check leaves the
  pause as it was; and a check that could not read leaves the store, the published snapshot included,
  as it was.
\<close>

theorem health_means_backed:
  "(fst (recon_check st rn rd s) = Some True \<longleftrightarrow> reconAnswered rd \<and> floorHolds rn s \<and> pegHolds rn rd s) \<and>
   (fst (recon_check st rn rd s) = Some False \<longleftrightarrow> reconAnswered rd \<and> \<not> (floorHolds rn s \<and> pegHolds rn rd s)) \<and>
   sql_isPaused (snd (recon_check st rn rd s)) =
     (sql_isPaused s \<or> reconAnswered rd \<and> \<not> (floorHolds rn s \<and> pegHolds rn rd s)) \<and>
   (\<not> reconAnswered rd \<longrightarrow> recon_check st rn rd s = (None, s))"
proof -
  obtain r s' where c: "recon_check st rn rd s = (r, s')" by (cases "recon_check st rn rd s")
  have r: "r = (if \<not> reconAnswered rd then None else Some (floorHolds rn s \<and> pegHolds rn rd s))"
    using recon_check_outcome [of st rn rd s] c by simp
  consider "r = None" | "r = Some True" | "r = Some False" by (cases r) auto
  then show ?thesis
    using r c recon_check_None [of st rn rd s s'] recon_check_True(2) [of st rn rd s s']
      recon_check_False [of st rn rd s s']
    by cases (auto split: if_splits)
qed

definition store_row :: OutboxRecord where
  "store_row = (recordOf enqueue_example 10)\<lparr>ob_status := CONFIRMED, ob_feeMilliViz := 50\<rparr>"

definition recon_example :: ReconState where
  "recon_example = \<lparr>rn_remotes = [''GRAM''], rn_cfg = \<lparr>rg_driftToleranceMilliViz = 10, rg_maxConsecutiveFailures = 3,
     rg_expectedRemotes = []\<rparr>, rn_chain = Some GRAM, rn_sanityFloorMilliViz = Some 20, rn_consecutiveFailures = 0\<rparr>"

definition down_example :: CheckReads where
  "down_example = \<lparr>cr_locked = Inl (GenericError ''timeout''), cr_supplies = [Inr 500], cr_now = 7\<rparr>"

definition healthy_example :: CheckReads where
  "healthy_example = \<lparr>cr_locked = Inr 900, cr_supplies = [Inr 500], cr_now = 8\<rparr>"

theorem health_means_backed_witness:
  "recon_check (\<lambda>_. []) recon_example healthy_example (emptySqlite\<lparr>tb_outbox := [store_row]\<rparr>) =
     (Some True, publishSnapshot (\<lambda>_. []) (Some GRAM) \<lparr>rs_chain = [], rs_lockedMilliViz = 900,
        rs_circulatingMilliViz = 500, rs_unsweptFeesMilliViz = 50, rs_driftMilliViz = 350, rs_ok = True,
        rs_checkedAt = 8\<rparr> 8 (emptySqlite\<lparr>tb_outbox := [store_row]\<rparr>)) \<and>
   500 + sql_unsweptFees (emptySqlite\<lparr>tb_outbox := [store_row]\<rparr>) (Some GRAM) - 10 \<le> 900 \<and>
   fst (recon_check (\<lambda>_. []) (recon_example\<lparr>rn_sanityFloorMilliViz := Some 60\<rparr>) healthy_example
     (emptySqlite\<lparr>tb_outbox := [store_row]\<rparr>)) = Some False \<and>
   sql_isPaused (snd (recon_check (\<lambda>_. []) (recon_example\<lparr>rn_sanityFloorMilliViz := Some 60\<rparr>) healthy_example
     (emptySqlite\<lparr>tb_outbox := [store_row]\<rparr>)))"
proof -
  let ?s = "emptySqlite\<lparr>tb_outbox := [store_row]\<rparr>"
  have u: "sql_unsweptFees ?s (Some GRAM) = 50" "sql_minPegInFee ?s (Some GRAM) = Some 50"
    by (simp_all add: sql_unsweptFees_def sql_minPegInFee_def store_row_def enqueue_example_def recordOf_def
        MINTED_STATUSES_def chainFilter_def pinnedPegIn_def)
  have e: "recon_check (\<lambda>_. []) recon_example healthy_example ?s =
     (Some True, publishSnapshot (\<lambda>_. []) (Some GRAM) \<lparr>rs_chain = [], rs_lockedMilliViz = 900,
        rs_circulatingMilliViz = 500, rs_unsweptFeesMilliViz = 50, rs_driftMilliViz = 350, rs_ok = True,
        rs_checkedAt = 8\<rparr> 8 ?s)"
    by (simp add: recon_check_def recon_example_def healthy_example_def u)
  from health_means_backed [of "\<lambda>_. []" recon_example healthy_example ?s] e have "pegHolds recon_example healthy_example ?s" by simp
  moreover have "\<not> floorHolds (recon_example\<lparr>rn_sanityFloorMilliViz := Some 60\<rparr>) ?s"
    using u by (auto simp: floorHolds_def recon_example_def)
  moreover have "reconAnswered healthy_example" by (simp add: reconAnswered_def healthy_example_def)
  ultimately show ?thesis
    using e health_means_backed [of "\<lambda>_. []" "recon_example\<lparr>rn_sanityFloorMilliViz := Some 60\<rparr>" healthy_example ?s]
    by (simp add: pegHolds_def suppliesSum_def healthy_example_def) (simp add: recon_example_def)
qed

text \<open>
  An active chain that reconciliation does not cover keeps the gateway paused: a tick of the
  loop ends paused whatever the covered chains report, and the automatic recovery does not undo it.
\<close>

lemma uncovered_chain_stays_paused:
  assumes "c \<in> set (sql_activeRemoteChains s)" "chainString c \<notin> set covered"
    "reconTick stringify covered rs wired balR floorNano now au s = (rns, au', s')"
  shows "sql_isPaused s'"
proof -
  let ?u = "uncoveredActiveChains (map chainString (sql_activeRemoteChains s)) (set covered)"
  define s1 where "s1 = snd (enforceActiveChainCoverage covered False now s)"
  have "chainString c \<in> set ?u" using assms(1,2) by (auto simp: uncoveredActiveChains_def)
  then have "?u \<noteq> []" by auto
  then have s1: "sql_isPaused s1" "sql_pauseReason s1 = Some (coverageReason ?u covered)"
    by (simp_all add: s1_def enforceActiveChainCoverage_def Let_def)
  obtain rns' allOk s2 where l: "reconLoop stringify rs s1 = (rns', allOk, s2)" by (cases "reconLoop stringify rs s1")
  define s3 where "s3 = gramReserveCheck wired balR floorNano now s2"
  have p3: "sql_isPaused s3"
    using reconLoop_paused [OF s1(1), of stringify rs] l reserve_pause(1) by (simp add: s3_def)
  obtain did au2 s4 where t: "onTick allOk now (au, s3) = (did, au2, s4)" by (cases "onTick allOk now (au, s3)")
  have "\<not> did"
  proof
    assume did
    then have allOk and r: "\<exists>r. sql_pauseReason s3 = Some r \<and> startsWith r RECON_STALLED_REASON_PREFIX"
      using onTick_unpaused(1) [OF t] by blast+
    then have "sql_pauseReason s2 = Some (coverageReason ?u covered)"
      using reconLoop_allOk [of stringify rs s1 rns' s2] l s1(2) by simp
    then show False using r reserve_pause(2) [of wired balR floorNano now s2] not_stalled_reasons by (auto simp: s3_def)
  qed
  then have "s4 = s3" using onTick_unpaused(2) [OF t] by simp
  then show ?thesis using assms(3) p3 l t by (simp add: reconTick_def s1_def s3_def)
qed

text \<open>Healthy ticks, one after the other.\<close>

fun okTicks :: "nat \<Rightarrow> int \<Rightarrow> AutoUnpause \<times> SqliteStore \<Rightarrow> AutoUnpause \<times> SqliteStore" where
  "okTicks 0 now aus = aus"
| "okTicks (Suc n) now aus = (case onTick True now aus of (_, aus') \<Rightarrow> okTicks n now aus')"

lemma okTicks_recover:
  assumes "sql_isPaused s" "sql_pauseReason s = Some r" "startsWith r RECON_STALLED_REASON_PREFIX"
    "au_okTicksRequired au = int (au_okStreak au + Suc n)"
  shows "\<not> sql_isPaused (snd (okTicks (Suc n) now (au, s)))"
  using assms(4)
proof (induction n arbitrary: au)
  case 0
  obtain did au' s' where t: "onTick True now (au, s) = (did, au', s')" by (cases "onTick True now (au, s)")
  then have did using onTick_unpaused(1) [OF t] assms(1-3) 0 by auto
  then show ?case using onTick_unpaused(3) [OF t] t by simp
next
  case (Suc n)
  obtain did au' s' where t: "onTick True now (au, s) = (did, au', s')" by (cases "onTick True now (au, s)")
  have "\<not> did" using onTick_unpaused(1) [OF t] Suc.prems by auto
  then have "s' = s" "au_okTicksRequired au' = int (au_okStreak au' + Suc n)"
    using onTick_unpaused(2,4,5) [OF t] Suc.prems by simp_all
  with Suc.IH [of au'] t show ?case by simp
qed

text \<open>
  A pause that only a human should lift can be lifted automatically. The store keeps one pause
  reason, and the escalation of read failures overwrites whatever reason is there: let the gateway
  be paused for any reason at all, under-backing or a manual pause included, and let the sources
  then be unreadable until the failure limit; after the required number of healthy ticks the gateway
  is running again.
\<close>

lemma latched_pause_lifted:
  assumes "sql_isPaused s" "rg_maxConsecutiveFailures (rn_cfg rn) \<le> rn_consecutiveFailures rn + 1"
    "onCheckResult None now (rn, s) = (rn', s1)" "onTick False now (au, s1) = (did, au1, s2)"
    "0 < au_okTicksRequired au"
  shows "\<not> sql_isPaused (snd (okTicks (nat (au_okTicksRequired au)) now' (au1, s2)))"
proof -
  have s1: "s1 = sql_pause (stalledReason (rn_consecutiveFailures rn + 1)) now s"
    using assms(2,3) by (simp add: onCheckResult_def Let_def)
  have s2: "s2 = s1" "au_okStreak au1 = 0" "au_okTicksRequired au1 = au_okTicksRequired au"
    using onTick_unpaused(1,2,4,5) [OF assms(4)] by auto
  obtain n where n: "nat (au_okTicksRequired au) = Suc n" using assms(5) by (metis gr0_implies_Suc zero_less_nat_eq)
  then have "au_okTicksRequired au1 = int (au_okStreak au1 + Suc n)" using s2 assms(5) by simp
  moreover have "startsWith (stalledReason k) RECON_STALLED_REASON_PREFIX" for k
    by (auto simp: stalledReason_def startsWith_iff)
  ultimately show ?thesis unfolding n s2(1) s1 by (intro okTicks_recover) simp_all
qed

lemma isDecimal_digits: "allDigits v \<Longrightarrow> isDecimal v"
  by (cases v) (auto simp: isDecimal_def allDigits_def isDigit_def)

text \<open>
  A published snapshot is read back exactly, its amounts and the sign of the drift included, by
  every reader of the store (\<open>JSON.parse\<close> being the inverse of \<open>JSON.stringify\<close> on the object).
\<close>

lemma snapshot_roundtrip:
  assumes "rs_chain f \<noteq> []" "parse (stringify (snapshotObj f)) = Some (snapshotObj f)" "stringify (snapshotObj f) \<noteq> []"
  shows "parseReconSnapshot parse (Some (serializeReconSnapshot stringify f)) = Some f"
proof -
  have d: "isDecimal (decInt n)" for n
    using isDecimal_digits [OF allDigits_decNat, of "nat n"] by (simp add: decInt_def) (simp add: isDecimal_def)
  have b: "toBigInt (Some (JString (decInt n))) = Some n" for n
    by (simp add: d)
  have "snapshotOfObj (snapshotObj f) = Some f"
    using assms(1) by (cases f) (simp add: snapshotOfObj_def snapshotObj_def b reconStatus_def del: toBigInt.simps)
  then show ?thesis using assms(2,3) by (simp add: parseReconSnapshot_def serializeReconSnapshot_def)
qed

end
