(* ===== verification/JsValue.thy ===== *)
theory JsValue
  imports Complex_Main Prelude
begin

text \<open>
  The JavaScript values that configuration files and requests are made of: double-precision
  numbers with their rounding, JSON values, and the conversions \<open>Number\<close>, \<open>String\<close>,
  \<open>BigInt\<close> and \<open>Boolean\<close> of the language that the code applies to them.
\<close>

section \<open>Doubles\<close>

text \<open>
  A double is not-a-number, an infinity or a rational; the sign of zero is not kept, nothing in
  the code depends on it. A result is rounded to the nearest double, ties to even.
\<close>

datatype double = DNaN | DInf bool | DFin rat

fun bitLength :: "nat \<Rightarrow> nat" where
  "bitLength n = (if n = 0 then 0 else Suc (bitLength (n div 2)))"

declare bitLength.simps [simp del]

definition pow_rat :: "nat \<Rightarrow> int \<Rightarrow> rat" where
  "pow_rat b e = (if 0 \<le> e then of_nat b ^ nat e else 1 / of_nat b ^ nat (- e))"

definition roundHalfEven :: "rat \<Rightarrow> int" where
  "roundHalfEven y =
     (let f = \<lfloor>y\<rfloor>; d = y - of_int f
      in if d < 1 / 2 then f else if 1 / 2 < d then f + 1 else if even f then f else f + 1)"

text \<open>The exponent of the last mantissa bit of a positive rational: at least that of the subnormals.\<close>

definition ulpExponent :: "rat \<Rightarrow> int" where
  "ulpExponent a =
     (case quotient_of a of (p, q) \<Rightarrow>
        let k = int (bitLength (nat p)) - int (bitLength (nat q));
            l = (if pow_rat 2 k \<le> a then k else k - 1)
        in max (l - 52) (- 1074))"

definition roundDouble :: "rat \<Rightarrow> double" where
  "roundDouble x =
     (if x = 0 then DFin 0
      else let e = ulpExponent \<bar>x\<bar>; v = of_int (roundHalfEven (\<bar>x\<bar> / pow_rat 2 e)) * pow_rat 2 e
           in if pow_rat 2 1024 \<le> v then DInf (x < 0) else DFin (if x < 0 then - v else v))"

fun dblMul :: "double \<Rightarrow> double \<Rightarrow> double" where
  "dblMul (DFin a) (DFin b) = roundDouble (a * b)"
| "dblMul (DInf s) (DInf t) = DInf (s \<noteq> t)"
| "dblMul (DInf s) (DFin b) = (if b = 0 then DNaN else DInf (s \<noteq> (b < 0)))"
| "dblMul (DFin a) (DInf t) = (if a = 0 then DNaN else DInf (t \<noteq> (a < 0)))"
| "dblMul _ _ = DNaN"

text \<open>\<open>Math.ceil\<close>, \<open>Number.isInteger\<close> and the integer a finite integral double is.\<close>

fun dblCeil :: "double \<Rightarrow> double" where
  "dblCeil (DFin a) = DFin (of_int \<lceil>a\<rceil>)"
| "dblCeil d = d"

fun dblInteger :: "double \<Rightarrow> int option" where
  "dblInteger (DFin a) = (if of_int \<lfloor>a\<rfloor> = a then Some \<lfloor>a\<rfloor> else None)"
| "dblInteger _ = None"

lemma dblInteger_of_int [simp]: "dblInteger (DFin (of_int n)) = Some n"
  by simp

lemma dblInteger_nat [simp]: "dblInteger (DFin (of_nat n)) = Some (int n)"
  by simp

lemma dblInteger_numeral [simp]:
  "dblInteger (DFin (numeral k)) = Some (numeral k)" "dblInteger (DFin 0) = Some 0"
  "dblInteger (DFin 1) = Some 1"
  by simp_all

lemma dblInteger_Some: "dblInteger d = Some n \<Longrightarrow> d = DFin (of_int n)"
  by (cases d) (auto split: if_splits)

declare dblInteger.simps(1) [simp del]

text \<open>\<open>Number(s)\<close> of a string.\<close>

definition decExponent :: "string \<Rightarrow> int option" where
  "decExponent t =
     (case t of
        [] \<Rightarrow> None
      | c # ds \<Rightarrow>
          if c = CHR ''-'' then (if allDigits ds then Some (- int (undec ds)) else None)
          else if c = CHR ''+'' then (if allDigits ds then Some (int (undec ds)) else None)
          else if allDigits t then Some (int (undec t)) else None)"

definition unsignedDecimal :: "string \<Rightarrow> rat option" where
  "unsignedDecimal s =
     (let ip = takeWhile isDigit s; r = dropWhile isDigit s;
          frac = (case r of [] \<Rightarrow> [] | c # t \<Rightarrow> if c = CHR ''.'' then takeWhile isDigit t else []);
          r' = (case r of [] \<Rightarrow> [] | c # t \<Rightarrow> if c = CHR ''.'' then dropWhile isDigit t else r);
          m = of_nat (undec (ip @ frac)) / of_nat (10 ^ length frac)
      in if ip = [] \<and> frac = [] then None
         else (case r' of
             [] \<Rightarrow> Some m
           | c # t \<Rightarrow> if c = CHR ''e'' \<or> c = CHR ''E'' then map_option (\<lambda>e. m * pow_rat 10 e) (decExponent t)
                      else None))"

definition unsignedNumber :: "bool \<Rightarrow> string \<Rightarrow> double" where
  "unsignedNumber neg s =
     (if s = ''Infinity'' then DInf neg
      else case unsignedDecimal s of None \<Rightarrow> DNaN | Some x \<Rightarrow> roundDouble (if neg then - x else x))"

definition radixPrefix :: "string \<Rightarrow> nat option" where
  "radixPrefix s =
     (case s of z # p # _ \<Rightarrow>
          if z \<noteq> CHR ''0'' then None
          else if p \<in> {CHR ''x'', CHR ''X''} then Some 16
          else if p \<in> {CHR ''o'', CHR ''O''} then Some 8
          else if p \<in> {CHR ''b'', CHR ''B''} then Some 2 else None
      | _ \<Rightarrow> None)"

definition numberOf :: "string \<Rightarrow> double" where
  "numberOf v =
     (let s = trim v in
      case s of
        [] \<Rightarrow> DFin 0
      | c # t \<Rightarrow>
          if c = CHR ''-'' then unsignedNumber True t
          else if c = CHR ''+'' then unsignedNumber False t
          else (case radixPrefix s of
              Some r \<Rightarrow> (case radixNumber r (drop 2 s) of None \<Rightarrow> DNaN | Some n \<Rightarrow> roundDouble (of_int n))
            | None \<Rightarrow> unsignedNumber False s))"

text \<open>
  \<open>Number.parseInt(s, 10)\<close>: leading white space, a sign, the longest run of digits; what
  follows is ignored. \<open>None\<close> is \<open>NaN\<close>. Results beyond \<open>2^53\<close>, where a double is no longer
  exact, are kept exact here.
\<close>

definition parseInt10 :: "string \<Rightarrow> int option" where
  "parseInt10 v =
     (let s = dropWhile isSpace v;
          t = (case s of [] \<Rightarrow> [] | c # r \<Rightarrow> if c = CHR ''-'' \<or> c = CHR ''+'' then r else s);
          ds = takeWhile isDigit t
      in if ds = [] then None
         else Some (if s \<noteq> [] \<and> hd s = CHR ''-'' then - int (undec ds) else int (undec ds)))"

text \<open>\<open>n.toString()\<close>: the shortest digits that read back as the number.\<close>

definition decMagnitude :: "rat \<Rightarrow> int" where
  "decMagnitude a =
     (case quotient_of a of (p, q) \<Rightarrow>
        let k = int (length (decNat (nat p))) - int (length (decNat (nat q)))
        in if pow_rat 10 k \<le> a then k + 1 else k)"

definition digitCandidate :: "rat \<Rightarrow> int \<Rightarrow> nat \<Rightarrow> nat option" where
  "digitCandidate a n k =
     (let y = a * pow_rat 10 (int k - n);
          ok = (\<lambda>c. roundDouble (of_int c * pow_rat 10 (n - int k)) = DFin a);
          lo = \<lfloor>y\<rfloor>; hi = \<lceil>y\<rceil>
      in if ok lo \<and> (y - of_int lo \<le> of_int hi - y \<or> \<not> ok hi) then Some (nat lo)
         else if ok hi then Some (nat hi) else None)"

definition positiveToString :: "rat \<Rightarrow> string" where
  "positiveToString a =
     (let m = decMagnitude a;
          k = (case List.find (\<lambda>k. digitCandidate a m k \<noteq> None) [1..<18] of Some k \<Rightarrow> k | None \<Rightarrow> 17);
          d = (case digitCandidate a m k of Some d \<Rightarrow> d | None \<Rightarrow> 0);
          n = (if d = 10 ^ k then m + 1 else m);
          ds = (if d = 10 ^ k then ''1'' else decNat d);
          e = n - 1;
          ex = (if e < 0 then ''-'' @ decNat (nat (- e)) else ''+'' @ decNat (nat e))
      in if int k \<le> n \<and> n \<le> 21 then ds @ replicate (nat n - k) (CHR ''0'')
         else if 0 < n \<and> n \<le> 21 then take (nat n) ds @ ''.'' @ drop (nat n) ds
         else if - 6 < n \<and> n \<le> 0 then ''0.'' @ replicate (nat (- n)) (CHR ''0'') @ ds
         else if k = 1 then ds @ ''e'' @ ex
         else take 1 ds @ ''.'' @ drop 1 ds @ ''e'' @ ex)"

fun numToString :: "double \<Rightarrow> string" where
  "numToString DNaN = ''NaN''"
| "numToString (DInf s) = (if s then ''-Infinity'' else ''Infinity'')"
| "numToString (DFin a) =
     (if a = 0 then ''0'' else if a < 0 then ''-'' @ positiveToString (- a) else positiveToString a)"

section \<open>JSON values\<close>

text \<open>An object lists its properties in order; the keys are distinct.\<close>

datatype jsval = VNull | VBool bool | VNum double | VStr string | VArr "jsval list" | VObj "(string \<times> jsval) list"

text \<open>\<open>o["k"]\<close> on a value: \<open>None\<close> is \<open>undefined\<close>, on \<open>null\<close> it throws.\<close>

definition getProp :: "jsval \<Rightarrow> string \<Rightarrow> jsval option result" where
  "getProp v k =
     (case v of
        VNull \<Rightarrow> Inl (GenericError ''TypeError: Cannot read properties of null'')
      | VObj kv \<Rightarrow> Inr (map_of kv k)
      | _ \<Rightarrow> Inr None)"

text \<open>The same on a value that may be \<open>undefined\<close>, which throws as well.\<close>

definition getPropOpt :: "jsval option \<Rightarrow> string \<Rightarrow> jsval option result" where
  "getPropOpt v k =
     (case v of
        None \<Rightarrow> Inl (GenericError ''TypeError: Cannot read properties of undefined'')
      | Some x \<Rightarrow> getProp x k)"

fun stringOf :: "jsval \<Rightarrow> string" where
  "stringOf VNull = ''null''"
| "stringOf (VBool b) = (if b then ''true'' else ''false'')"
| "stringOf (VNum d) = numToString d"
| "stringOf (VStr s) = s"
| "stringOf (VArr xs) = joinWith '','' (map (\<lambda>v. if v = VNull then [] else stringOf v) xs)"
| "stringOf (VObj kv) = ''[object Object]''"

fun numberOfVal :: "jsval option \<Rightarrow> double" where
  "numberOfVal None = DNaN"
| "numberOfVal (Some VNull) = DFin 0"
| "numberOfVal (Some (VBool b)) = DFin (if b then 1 else 0)"
| "numberOfVal (Some (VNum d)) = d"
| "numberOfVal (Some (VStr s)) = numberOf s"
| "numberOfVal (Some (VArr xs)) = numberOf (stringOf (VArr xs))"
| "numberOfVal (Some (VObj kv)) = DNaN"

definition bigintOfString :: "string \<Rightarrow> int result" where
  "bigintOfString s =
     (case bigintOf s of None \<Rightarrow> Inl (GenericError ''SyntaxError: Cannot convert to a BigInt'') | Some n \<Rightarrow> Inr n)"

definition bigintOfDouble :: "double \<Rightarrow> int result" where
  "bigintOfDouble d =
     (case dblInteger d of None \<Rightarrow> Inl (GenericError ''RangeError: The number is not an integer'') | Some n \<Rightarrow> Inr n)"

fun bigintOfVal :: "jsval option \<Rightarrow> int result" where
  "bigintOfVal None = Inl (GenericError ''TypeError: Cannot convert undefined to a BigInt'')"
| "bigintOfVal (Some VNull) = Inl (GenericError ''TypeError: Cannot convert null to a BigInt'')"
| "bigintOfVal (Some (VBool b)) = Inr (if b then 1 else 0)"
| "bigintOfVal (Some (VNum d)) = bigintOfDouble d"
| "bigintOfVal (Some (VStr s)) = bigintOfString s"
| "bigintOfVal (Some (VArr xs)) = bigintOfString (stringOf (VArr xs))"
| "bigintOfVal (Some (VObj kv)) = bigintOfString ''[object Object]''"

fun truthyVal :: "jsval option \<Rightarrow> bool" where
  "truthyVal None \<longleftrightarrow> False"
| "truthyVal (Some VNull) \<longleftrightarrow> False"
| "truthyVal (Some (VBool b)) \<longleftrightarrow> b"
| "truthyVal (Some (VNum d)) \<longleftrightarrow> d \<noteq> DNaN \<and> d \<noteq> DFin 0"
| "truthyVal (Some (VStr s)) \<longleftrightarrow> s \<noteq> []"
| "truthyVal (Some (VArr xs)) \<longleftrightarrow> True"
| "truthyVal (Some (VObj kv)) \<longleftrightarrow> True"

text \<open>\<open>v ?? d\<close> on a value that may be \<open>null\<close> or \<open>undefined\<close>.\<close>

definition nullish :: "jsval option \<Rightarrow> bool" where
  "nullish v \<longleftrightarrow> v = None \<or> v = Some VNull"

lemma getProp_VObj [simp]: "getProp (VObj kv) k = Inr (map_of kv k)"
  by (simp add: getProp_def)

lemma getPropOpt_Some [simp]: "getPropOpt (Some v) k = getProp v k"
  by (simp add: getPropOpt_def)

lemma bigintOfDouble_numeral [simp]: "bigintOfDouble (DFin (numeral k)) = Inr (numeral k)"
  by (simp add: bigintOfDouble_def)

section \<open>A map over a list that may throw\<close>

text \<open>\<open>xs.map(f)\<close> where \<open>f\<close> gets the index as well and may throw.\<close>

fun mapIdxE :: "(nat \<Rightarrow> 'a \<Rightarrow> 'b result) \<Rightarrow> nat \<Rightarrow> 'a list \<Rightarrow> 'b list result" where
  "mapIdxE f i [] = Inr []"
| "mapIdxE f i (x # xs) = bindE (f i x) (\<lambda>y. bindE (mapIdxE f (Suc i) xs) (\<lambda>ys. Inr (y # ys)))"

lemma mapIdxE_length: "mapIdxE f i xs = Inr ys \<Longrightarrow> length ys = length xs"
  by (induction xs arbitrary: i ys) (auto simp: err_simps)

lemma mapIdxE_set: "mapIdxE f i xs = Inr ys \<Longrightarrow> y \<in> set ys \<Longrightarrow> \<exists>j. \<exists>x \<in> set xs. f j x = Inr y"
  by (induction xs arbitrary: i ys) (auto simp: err_simps, blast+)

lemma mapIdxE_pure: "(\<And>j x. x \<in> set xs \<Longrightarrow> f j x = Inr (g x)) \<Longrightarrow> mapIdxE f i xs = Inr (map g xs)"
  by (induction xs arbitrary: i) simp_all

lemma mapIdxE_inverse:
  "(\<And>j y. y \<in> set ys \<Longrightarrow> f j (g y) = Inr y) \<Longrightarrow> mapIdxE f i (map g ys) = Inr ys"
  by (induction ys arbitrary: i) simp_all

end
