(* ===== verification/Keystore.thy ===== *)
theory Keystore
  imports JsValue
begin

text \<open>
  The sealed key store of an operator: \<open>packages/common/src/keystore.ts\<close>. scrypt, AES-256-GCM,
  base64 and the JSON text codec are node library functions, arguments of the definitions; the
  random salt and nonce of a seal are arguments too.
\<close>

record KeystoreSecrets =
  sec_vizSigningWif :: "string option"
  sec_gramSignerMnemonic :: "string option"
  sec_solanaSignerSecret :: "string option"
  sec_vizMemoWifs :: "(string \<times> string) list option"

record KdfParams =
  kdf_N :: int
  kdf_r :: int
  kdf_p :: int
  kdf_keyLen :: int

record Keystore =
  ks_kdfParams :: KdfParams
  ks_salt :: string
  ks_iv :: string
  ks_authTag :: string
  ks_ciphertext :: string

definition DEFAULT_KDF :: KdfParams where
  "DEFAULT_KDF = \<lparr>kdf_N = 131072, kdf_r = 8, kdf_p = 1, kdf_keyLen = 32\<rparr>"

definition AAD :: string where
  "AAD = ''viz-gateway-keystore-v1''"

definition scryptMaxmem :: "KdfParams \<Rightarrow> int" where
  "scryptMaxmem params = 128 * kdf_N params * kdf_r params * 2"

text \<open>
  The library: \<open>scryptSync(passphrase, salt, params, maxmem)\<close>; encryption to ciphertext and tag;
  a decipher for a key, nonce, associated data and tag, which then accepts or rejects a
  ciphertext (\<open>None\<close> is the failure of the tag); base64 both ways; JSON text both ways.
\<close>

record KeyCrypto =
  kc_scrypt :: "string \<Rightarrow> string \<Rightarrow> KdfParams \<Rightarrow> int \<Rightarrow> string result"
  kc_encrypt :: "string \<Rightarrow> string \<Rightarrow> string \<Rightarrow> string \<Rightarrow> (string \<times> string) result"
  kc_decipher :: "string \<Rightarrow> string \<Rightarrow> string \<Rightarrow> string \<Rightarrow> (string \<Rightarrow> string option) result"
  kc_b64 :: "string \<Rightarrow> string"
  kc_unb64 :: "string \<Rightarrow> string"
  kc_stringify :: "jsval \<Rightarrow> string"
  kc_parse :: "string \<Rightarrow> jsval result"

definition deriveKey :: "KeyCrypto \<Rightarrow> string \<Rightarrow> string \<Rightarrow> KdfParams \<Rightarrow> string result" where
  "deriveKey C passphrase salt params =
     (if passphrase = [] then Inl (GenericError ''keystore: passphrase must not be empty'')
      else kc_scrypt C passphrase salt params (scryptMaxmem params))"

section \<open>Sealing\<close>

text \<open>What is sealed: the secrets that are there and not empty.\<close>

definition nonEmptyStr :: "string option \<Rightarrow> string option" where
  "nonEmptyStr s = (if truthy s then s else None)"

definition nonEmptyWifs :: "(string \<times> string) list option \<Rightarrow> (string \<times> string) list option" where
  "nonEmptyWifs w =
     (case w of
        None \<Rightarrow> None
      | Some kv \<Rightarrow> (let wifs = filter (\<lambda>(chain, wif). wif \<noteq> []) kv in if wifs = [] then None else Some wifs))"

definition presentSecrets :: "KeystoreSecrets \<Rightarrow> KeystoreSecrets" where
  "presentSecrets s =
     \<lparr>sec_vizSigningWif = nonEmptyStr (sec_vizSigningWif s),
      sec_gramSignerMnemonic = nonEmptyStr (sec_gramSignerMnemonic s),
      sec_solanaSignerSecret = nonEmptyStr (sec_solanaSignerSecret s),
      sec_vizMemoWifs = nonEmptyWifs (sec_vizMemoWifs s)\<rparr>"

definition noSecrets :: KeystoreSecrets where
  "noSecrets = \<lparr>sec_vizSigningWif = None, sec_gramSignerMnemonic = None, sec_solanaSignerSecret = None,
     sec_vizMemoWifs = None\<rparr>"

text \<open>The object that \<open>JSON.stringify(present)\<close> writes: an absent field has no key.\<close>

definition optField :: "string \<Rightarrow> jsval option \<Rightarrow> (string \<times> jsval) list" where
  "optField k v = (case v of None \<Rightarrow> [] | Some x \<Rightarrow> [(k, x)])"

definition wifsVal :: "(string \<times> string) list \<Rightarrow> jsval" where
  "wifsVal kv = VObj (map (\<lambda>(c, w). (c, VStr w)) kv)"

definition secretsVal :: "KeystoreSecrets \<Rightarrow> jsval" where
  "secretsVal s = VObj
     (optField ''vizSigningWif'' (map_option VStr (sec_vizSigningWif s)) @
      optField ''gramSignerMnemonic'' (map_option VStr (sec_gramSignerMnemonic s)) @
      optField ''solanaSignerSecret'' (map_option VStr (sec_solanaSignerSecret s)) @
      optField ''vizMemoWifs'' (map_option wifsVal (sec_vizMemoWifs s)))"

definition sealKeystore ::
  "KeyCrypto \<Rightarrow> KeystoreSecrets \<Rightarrow> string \<Rightarrow> KdfParams \<Rightarrow> string \<Rightarrow> string \<Rightarrow> Keystore result" where
  "sealKeystore C secrets passphrase kdfParams salt iv =
     (let present = presentSecrets secrets
      in if present = noSecrets then Inl (GenericError ''keystore: nothing to seal - no secret fields provided'')
         else bindE (deriveKey C passphrase salt kdfParams) (\<lambda>key.
              bindE (kc_encrypt C key iv AAD (kc_stringify C (secretsVal present))) (\<lambda>(ciphertext, authTag).
              Inr \<lparr>ks_kdfParams = kdfParams, ks_salt = kc_b64 C salt, ks_iv = kc_b64 C iv,
                   ks_authTag = kc_b64 C authTag, ks_ciphertext = kc_b64 C ciphertext\<rparr>)))"

text \<open>The envelope as the JSON object that is written to the file and read back.\<close>

definition keystoreVal :: "Keystore \<Rightarrow> jsval" where
  "keystoreVal k =
     (let kp = ks_kdfParams k; num = (\<lambda>n. VNum (DFin (of_int n)))
      in VObj [(''v'', VNum (DFin 1)), (''kdf'', VStr ''scrypt''),
           (''kdfParams'', VObj [(''N'', num (kdf_N kp)), (''r'', num (kdf_r kp)), (''p'', num (kdf_p kp)),
              (''keyLen'', num (kdf_keyLen kp))]),
           (''cipher'', VStr ''aes-256-gcm''), (''salt'', VStr (ks_salt k)), (''iv'', VStr (ks_iv k)),
           (''authTag'', VStr (ks_authTag k)), (''ciphertext'', VStr (ks_ciphertext k))])"

section \<open>Opening\<close>

definition requireString :: "jsval \<Rightarrow> string \<Rightarrow> string result" where
  "requireString v k =
     bindE (getProp v k) (\<lambda>x. case x of
         Some (VStr s) \<Rightarrow> if s = [] then Inl (GenericError (''keystore: malformed - missing '' @ k)) else Inr s
       | _ \<Rightarrow> Inl (GenericError (''keystore: malformed - missing '' @ k)))"

definition positiveInteger :: "double \<Rightarrow> int option" where
  "positiveInteger d = (case dblInteger d of None \<Rightarrow> None | Some n \<Rightarrow> if 0 < n then Some n else None)"

definition readKdfParams :: "jsval \<Rightarrow> KdfParams result" where
  "readKdfParams kp =
     bindE (getProp kp ''N'') (\<lambda>vN. bindE (getProp kp ''r'') (\<lambda>vr.
     bindE (getProp kp ''p'') (\<lambda>vp. bindE (getProp kp ''keyLen'') (\<lambda>vl.
       case (positiveInteger (numberOfVal vN), positiveInteger (numberOfVal vr),
             positiveInteger (numberOfVal vp), positiveInteger (numberOfVal vl)) of
         (Some N, Some r, Some p, Some l) \<Rightarrow> Inr \<lparr>kdf_N = N, kdf_r = r, kdf_p = p, kdf_keyLen = l\<rparr>
       | _ \<Rightarrow> Inl (GenericError ''keystore: malformed kdfParams'')))))"

definition stringField :: "jsval option \<Rightarrow> string option" where
  "stringField v = (case v of Some (VStr s) \<Rightarrow> Some s | _ \<Rightarrow> None)"

text \<open>
  \<open>Object.entries\<close> of the parsed memo keys; an array lists its indices, a primitive is not an
  \<open>object\<close>.
\<close>

definition entriesOf :: "jsval option \<Rightarrow> (string \<times> jsval) list" where
  "entriesOf v =
     (case v of
        Some (VObj kv) \<Rightarrow> kv
      | Some (VArr xs) \<Rightarrow> map (\<lambda>i. (decNat i, xs ! i)) [0..<length xs]
      | _ \<Rightarrow> [])"

fun wifEntry :: "string \<times> jsval \<Rightarrow> (string \<times> string) option" where
  "wifEntry (chain, VStr wif) = (if wif = [] then None else Some (chain, wif))"
| "wifEntry _ = None"

definition wifEntries :: "jsval option \<Rightarrow> (string \<times> string) list option" where
  "wifEntries v =
     (let wifs = List.map_filter wifEntry (entriesOf v) in if wifs = [] then None else Some wifs)"

definition readSecrets :: "jsval \<Rightarrow> KeystoreSecrets result" where
  "readSecrets parsed =
     bindE (getProp parsed ''vizSigningWif'') (\<lambda>a. bindE (getProp parsed ''gramSignerMnemonic'') (\<lambda>b.
     bindE (getProp parsed ''solanaSignerSecret'') (\<lambda>c. bindE (getProp parsed ''vizMemoWifs'') (\<lambda>d.
       Inr \<lparr>sec_vizSigningWif = stringField a, sec_gramSignerMnemonic = stringField b,
            sec_solanaSignerSecret = stringField c, sec_vizMemoWifs = wifEntries d\<rparr>))))"

definition openKeystore :: "KeyCrypto \<Rightarrow> jsval \<Rightarrow> string \<Rightarrow> KeystoreSecrets result" where
  "openKeystore C v passphrase =
     bindE (getProp v ''v'') (\<lambda>version.
     bindE (throwIf (version \<noteq> Some (VNum (DFin 1))) (GenericError ''keystore: unsupported version'')) (\<lambda>_.
     bindE (getProp v ''kdf'') (\<lambda>kdf.
     bindE (throwIf (kdf \<noteq> Some (VStr ''scrypt'')) (GenericError ''keystore: unsupported kdf'')) (\<lambda>_.
     bindE (getProp v ''cipher'') (\<lambda>cipher.
     bindE (throwIf (cipher \<noteq> Some (VStr ''aes-256-gcm'')) (GenericError ''keystore: unsupported cipher'')) (\<lambda>_.
     bindE (getProp v ''kdfParams'') (\<lambda>kp.
     bindE (throwIf (\<not> truthyVal kp) (GenericError ''keystore: malformed - missing kdfParams'')) (\<lambda>_.
     bindE (readKdfParams (the kp)) (\<lambda>params.
     bindE (requireString v ''salt'') (\<lambda>salt.
     bindE (requireString v ''iv'') (\<lambda>iv.
     bindE (requireString v ''authTag'') (\<lambda>authTag.
     bindE (requireString v ''ciphertext'') (\<lambda>ciphertext.
     bindE (deriveKey C passphrase (kc_unb64 C salt) params) (\<lambda>key.
     bindE (kc_decipher C key (kc_unb64 C iv) AAD (kc_unb64 C authTag)) (\<lambda>decipher.
       case decipher (kc_unb64 C ciphertext) of
         None \<Rightarrow> Inl (GenericError ''keystore: decryption failed (wrong passphrase or corrupted file)'')
       | Some plaintext \<Rightarrow> bindE (kc_parse C plaintext) readSecrets)))))))))))))))"

text \<open>\<open>constantTimeEqual\<close>: \<open>timingSafeEqual\<close> compares buffers of one length.\<close>

definition constantTimeEqual :: "string \<Rightarrow> string \<Rightarrow> bool" where
  "constantTimeEqual a b = (if length a \<noteq> length b then False else list_all2 (=) a b)"

lemma constantTimeEqual_iff: "constantTimeEqual a b \<longleftrightarrow> a = b"
  by (auto simp: constantTimeEqual_def list.rel_eq)

section \<open>Round trip\<close>

lemma map_of_optField [simp]:
  "map_of (optField k v) k' = (if k = k' then v else None)"
  by (cases v) (auto simp: optField_def)

lemma wifEntries_wifsVal: "wifEntries (map_option wifsVal (nonEmptyWifs w)) = nonEmptyWifs w"
proof (cases "nonEmptyWifs w")
  case None
  then show ?thesis by (simp add: wifEntries_def entriesOf_def map_filter_def)
next
  case (Some kv)
  then have ne: "kv \<noteq> []" by (auto simp: nonEmptyWifs_def Let_def split: option.splits if_splits)
  from Some have "\<forall>x \<in> set kv. snd x \<noteq> []"
    by (auto simp: nonEmptyWifs_def Let_def split: option.splits if_splits)
  then have "List.map_filter wifEntry (map (\<lambda>(c, w). (c, VStr w)) kv) = kv"
    by (induction kv) (auto simp: map_filter_simps)
  with Some ne show ?thesis by (simp add: wifEntries_def entriesOf_def wifsVal_def)
qed

lemma stringField_VStr [simp]: "stringField (map_option VStr s) = s"
  by (cases s) (simp_all add: stringField_def)

lemma readSecrets_secretsVal: "readSecrets (secretsVal (presentSecrets s)) = Inr (presentSecrets s)"
  by (simp add: readSecrets_def secretsVal_def presentSecrets_def map_add_def wifEntries_wifsVal stringField_def
      split: option.split)

text \<open>The memo keys of the secrets are the properties of an object: distinct.\<close>

definition objectKeys :: "KeystoreSecrets \<Rightarrow> bool" where
  "objectKeys s \<longleftrightarrow> (case sec_vizMemoWifs s of None \<Rightarrow> True | Some kv \<Rightarrow> distinct (map fst kv))"

lemma objectKeys_present: "objectKeys s \<Longrightarrow> objectKeys (presentSecrets s)"
  by (auto simp: objectKeys_def presentSecrets_def nonEmptyWifs_def Let_def distinct_map_filter split: option.splits)

text \<open>
  What the code relies on in the library: base64 decodes what it encoded, a decipher with the same
  key, nonce and tag gives the text back, the ciphertext of a stream mode is empty only for the empty
  text and the tag never is, and the JSON codec gives the sealed object back from a text that is not
  empty.
\<close>

definition opensWhatItSealed :: "KeyCrypto \<Rightarrow> KeystoreSecrets \<Rightarrow> bool" where
  "opensWhatItSealed C s \<longleftrightarrow>
     (\<forall>x. kc_unb64 C (kc_b64 C x) = x) \<and> (\<forall>x. x \<noteq> [] \<longrightarrow> kc_b64 C x \<noteq> []) \<and>
     (\<forall>key iv aad pt ct tag. kc_encrypt C key iv aad pt = Inr (ct, tag) \<longrightarrow>
        (pt \<noteq> [] \<longrightarrow> ct \<noteq> []) \<and> tag \<noteq> [] \<and> (\<exists>d. kc_decipher C key iv aad tag = Inr d \<and> d ct = Some pt)) \<and>
     kc_stringify C (secretsVal (presentSecrets s)) \<noteq> [] \<and>
     kc_parse C (kc_stringify C (secretsVal (presentSecrets s))) = Inr (secretsVal (presentSecrets s))"

definition validKdf :: "KdfParams \<Rightarrow> bool" where
  "validKdf p \<longleftrightarrow> 0 < kdf_N p \<and> 0 < kdf_r p \<and> 0 < kdf_p p \<and> 0 < kdf_keyLen p"

lemma readKdfParams_num:
  assumes "validKdf p"
  shows "readKdfParams (VObj [(''N'', VNum (DFin (of_int (kdf_N p)))), (''r'', VNum (DFin (of_int (kdf_r p)))),
    (''p'', VNum (DFin (of_int (kdf_p p)))), (''keyLen'', VNum (DFin (of_int (kdf_keyLen p))))]) = Inr p"
  using assms by (simp add: readKdfParams_def positiveInteger_def validKdf_def)

lemma openKeystore_seal:
  assumes C: "opensWhatItSealed C s" and p: "validKdf kdf" and ne: "salt \<noteq> []" "iv \<noteq> []"
    and seal: "sealKeystore C s pass kdf salt iv = Inr k"
  shows "openKeystore C (keystoreVal k) pass = Inr (presentSecrets s)"
proof -
  from seal obtain key ct tag where key: "deriveKey C pass salt kdf = Inr key"
    and enc: "kc_encrypt C key iv AAD (kc_stringify C (secretsVal (presentSecrets s))) = Inr (ct, tag)"
    and k: "k = \<lparr>ks_kdfParams = kdf, ks_salt = kc_b64 C salt, ks_iv = kc_b64 C iv,
                 ks_authTag = kc_b64 C tag, ks_ciphertext = kc_b64 C ct\<rparr>"
    by (auto simp: sealKeystore_def Let_def err_simps split: if_splits)
  from C enc obtain d where nt: "ct \<noteq> []" "tag \<noteq> []"
    and d: "kc_decipher C key iv AAD tag = Inr d" "d ct = Some (kc_stringify C (secretsVal (presentSecrets s)))"
    unfolding opensWhatItSealed_def by blast
  have b64: "kc_unb64 C (kc_b64 C x) = x" "x \<noteq> [] \<Longrightarrow> kc_b64 C x \<noteq> []" for x
    using C by (auto simp: opensWhatItSealed_def)
  have parse: "kc_parse C (kc_stringify C (secretsVal (presentSecrets s))) = Inr (secretsVal (presentSecrets s))"
    using C by (simp add: opensWhatItSealed_def)
  show ?thesis
    unfolding k keystoreVal_def openKeystore_def Let_def
    by (simp add: readKdfParams_num p requireString_def b64 ne nt key d parse readSecrets_secretsVal)
qed

end
