(* ===== verification/Config.thy ===== *)
theory Config
  imports JsValue Keystore Fees Caps Accounts
begin

text \<open>
  The configuration of every service: \<open>packages/common/src/config.ts\<close>. The process environment
  is a map; a file is its text; the JSON text codec and the cryptography of the sealed key store
  are the arguments collected in \<^typ>\<open>KeyCrypto\<close>. Numbers read with \<open>parseInt\<close> are integers,
  numbers read with \<open>Number\<close> are doubles, and the fee floors are derived from them with the
  rounding of the language. Warnings on the console are left out.
\<close>

section \<open>The environment\<close>

type_synonym environment = "string \<rightharpoonup> string"

definition envSet :: "environment \<Rightarrow> string \<Rightarrow> string option" where
  "envSet E name = (case E name of None \<Rightarrow> None | Some v \<Rightarrow> if v = [] then None else Some v)"

definition envOpt :: "environment \<Rightarrow> string \<Rightarrow> string \<Rightarrow> string" where
  "envOpt E name dflt = (case envSet E name of None \<Rightarrow> dflt | Some v \<Rightarrow> v)"

definition envInt :: "environment \<Rightarrow> string \<Rightarrow> int \<Rightarrow> int result" where
  "envInt E name dflt =
     (case envSet E name of
        None \<Rightarrow> Inr dflt
      | Some v \<Rightarrow> (case parseInt10 v of
          None \<Rightarrow> Inl (GenericError (''Env var is not an integer: '' @ name)) | Some n \<Rightarrow> Inr n))"

definition envBig :: "environment \<Rightarrow> string \<Rightarrow> string \<Rightarrow> int result" where
  "envBig E name dflt = bigintOfString (envOpt E name dflt)"

definition envBool :: "environment \<Rightarrow> string \<Rightarrow> bool \<Rightarrow> bool" where
  "envBool E name dflt =
     (case envSet E name of None \<Rightarrow> dflt | Some v \<Rightarrow> toLowerCase (trim v) \<in> {''1'', ''true'', ''yes''})"

definition envFloat :: "environment \<Rightarrow> string \<Rightarrow> double \<Rightarrow> double result" where
  "envFloat E name dflt =
     (case envSet E name of
        None \<Rightarrow> Inr dflt
      | Some v \<Rightarrow> if numberOf v = DNaN then Inl (GenericError (''Env var is not a number: '' @ name))
                  else Inr (numberOf v))"

text \<open>
  \<open>splitList\<close>: the maximal runs without separators, trimmed and not empty, each once, in the
  order of their first occurrence.
\<close>

fun splitWhere :: "(char \<Rightarrow> bool) \<Rightarrow> string \<Rightarrow> string list" where
  "splitWhere sep [] = [[]]"
| "splitWhere sep (c # cs) =
     (if sep c then [] # splitWhere sep cs
      else (case splitWhere sep cs of [] \<Rightarrow> [[c]] | w # ws \<Rightarrow> (c # w) # ws))"

definition dedupe :: "'a list \<Rightarrow> 'a list" where
  "dedupe xs = rev (remdups (rev xs))"

definition splitList :: "string \<Rightarrow> string list" where
  "splitList raw =
     dedupe (filter (\<lambda>s. s \<noteq> []) (map trim (splitWhere (\<lambda>c. c = CHR '','' \<or> isSpace c) raw)))"

text \<open>A comma-separated list of names.\<close>

definition commaList :: "string \<Rightarrow> string list" where
  "commaList raw = filter (\<lambda>s. s \<noteq> []) (map trim (splitOn (CHR '','') raw))"

text \<open>The elements of a byte array: truncated towards zero, modulo 256; what is not finite is 0.\<close>

definition toUint8 :: "jsval \<Rightarrow> nat" where
  "toUint8 v =
     (case numberOfVal (Some v) of
        DFin a \<Rightarrow> nat ((if a < 0 then \<lceil>a\<rceil> else \<lfloor>a\<rfloor>) mod 256)
      | _ \<Rightarrow> 0)"

definition solanaSecret :: "(string \<Rightarrow> jsval result) \<Rightarrow> environment \<Rightarrow> string \<Rightarrow> nat list option result" where
  "solanaSecret parseJson E name =
     (case E name of
        None \<Rightarrow> Inr None
      | Some v \<Rightarrow>
          if trim v = [] then Inr None
          else if \<not> startsWith (trim v) ''['' then
            Inl (GenericError (name @ '' must be a JSON byte array (solana-keygen format).''))
          else bindE (parseJson v) (\<lambda>j.
            Inr (Some (case j of VArr xs \<Rightarrow> map toUint8 xs | _ \<Rightarrow> []))))"

section \<open>The federation manifest\<close>

record ManifestFees =
  mf_floorMilliViz :: int
  mf_bps :: double
  mf_activationSolana :: int
  mf_activationGram :: int
  mf_mintGasFloorSolana :: int
  mf_mintGasFloorGram :: int
  mf_mintGasTon :: double
  mf_walletDeployGasTon :: double
  mf_margin :: double
  mf_gramVizPerTon :: double
  mf_refundFeeMilliViz :: int

record ManifestGram =
  mg_jettonMinterAddress :: "string option"
  mg_multisigAddress :: "string option"
  mg_gatewayJettonWallet :: "string option"
  mg_frozenMilliViz :: "int option"

record ManifestAccounts =
  ma_gram :: "string option"
  ma_solana :: "string option"
  ma_fees :: "string option"

record ManifestRpc =
  mr_vizNodeUrls :: "string option"
  mr_gramEndpoints :: "string option"
  mr_gramOrbsFallback :: "bool option"

record FederationManifest =
  fm_n :: int
  fm_threshold :: int
  fm_operators :: "OperatorRef list"
  fm_fees :: "ManifestFees option"
  fm_gram :: "ManifestGram option"
  fm_accounts :: "ManifestAccounts option"
  fm_rpc :: "ManifestRpc option"

text \<open>\<open>String(v ?? "")\<close> and \<open>optStr\<close>, \<open>optList\<close>.\<close>

definition strOr :: "jsval option \<Rightarrow> string" where
  "strOr v = (if nullish v then [] else stringOf (the v))"

definition optStr :: "jsval option \<Rightarrow> string option" where
  "optStr v = (if nullish v then None else Some (stringOf (the v)))"

definition optList :: "jsval option \<Rightarrow> string option" where
  "optList v =
     (if nullish v then None
      else (case the v of VArr xs \<Rightarrow> Some (joinWith '','' (map stringOf xs)) | x \<Rightarrow> Some (stringOf x)))"

definition parseOperator :: "nat \<Rightarrow> jsval \<Rightarrow> OperatorRef result" where
  "parseOperator i x =
     bindE (getProp x ''id'') (\<lambda>vid. bindE (getProp x ''vizPubkey'') (\<lambda>vv.
     bindE (getProp x ''tonPubkey'') (\<lambda>vt. bindE (getProp x ''solanaPubkey'') (\<lambda>vs.
       if strOr vid = [] then Inl (GenericError (''federation manifest: operator missing id: '' @ decNat i))
       else Inr \<lparr>op_id = strOr vid, op_vizPubkey = strOr vv, op_tonPubkey = strOr vt,
                 op_solanaPubkey = strOr vs\<rparr>))))"

definition parseManifestFees :: "jsval \<Rightarrow> ManifestFees result" where
  "parseManifestFees f =
     (let prop = getProp f;
          num = (\<lambda>k d. bindE (prop k) (\<lambda>v. Inr (if v = None then d else numberOfVal v)))
      in
     bindE (prop ''activationSurchargeMilliViz'') (\<lambda>activation.
     bindE (prop ''mintGasFloorMilliViz'') (\<lambda>gas.
     bindE (prop ''floorMilliViz'') (\<lambda>vfloor.
     bindE (bigintOfVal vfloor) (\<lambda>floor.
     bindE (prop ''bps'') (\<lambda>vbps.
     bindE (getPropOpt activation ''SOLANA'') (\<lambda>vas.
     bindE (bigintOfVal vas) (\<lambda>as.
     bindE (getPropOpt activation ''GRAM'') (\<lambda>vag.
     bindE (bigintOfVal vag) (\<lambda>ag.
     bindE (getPropOpt gas ''SOLANA'') (\<lambda>vgs.
     bindE (bigintOfVal vgs) (\<lambda>gs.
     bindE (getPropOpt gas ''GRAM'') (\<lambda>vgg.
     bindE (bigintOfVal vgg) (\<lambda>gg.
     bindE (num ''mintGasTon'' (roundDouble (6 / 100))) (\<lambda>mintGasTon.
     bindE (num ''walletDeployGasTon'' (roundDouble (5 / 100))) (\<lambda>walletDeployGasTon.
     bindE (num ''margin'' (DFin (3 / 2))) (\<lambda>margin.
     bindE (num ''gramVizPerTon'' (DFin 500)) (\<lambda>gramVizPerTon.
     bindE (prop ''refundFeeMilliViz'') (\<lambda>vrefund.
     bindE (if vrefund = None then Inr 5000 else bigintOfVal vrefund) (\<lambda>refund.
     Inr \<lparr>mf_floorMilliViz = floor, mf_bps = numberOfVal vbps, mf_activationSolana = as, mf_activationGram = ag,
          mf_mintGasFloorSolana = gs, mf_mintGasFloorGram = gg, mf_mintGasTon = mintGasTon,
          mf_walletDeployGasTon = walletDeployGasTon, mf_margin = margin, mf_gramVizPerTon = gramVizPerTon,
          mf_refundFeeMilliViz = refund\<rparr>))))))))))))))))))))"

definition parseManifestGram :: "jsval \<Rightarrow> ManifestGram result" where
  "parseManifestGram g =
     bindE (getProp g ''jettonMinterAddress'') (\<lambda>m. bindE (getProp g ''multisigAddress'') (\<lambda>ms.
     bindE (getProp g ''gatewayJettonWallet'') (\<lambda>w. bindE (getProp g ''frozenMilliViz'') (\<lambda>fr.
     bindE (if fr = None then Inr None else bindE (bigintOfVal fr) (\<lambda>n. Inr (Some n))) (\<lambda>frozen.
       Inr \<lparr>mg_jettonMinterAddress = optStr m, mg_multisigAddress = optStr ms,
            mg_gatewayJettonWallet = optStr w, mg_frozenMilliViz = frozen\<rparr>)))))"

definition parseManifestAccounts :: "jsval \<Rightarrow> ManifestAccounts result" where
  "parseManifestAccounts a =
     bindE (getProp a ''gram'') (\<lambda>g. bindE (getProp a ''solana'') (\<lambda>s. bindE (getProp a ''fees'') (\<lambda>f.
       Inr \<lparr>ma_gram = optStr g, ma_solana = optStr s, ma_fees = optStr f\<rparr>)))"

definition parseManifestRpc :: "jsval \<Rightarrow> ManifestRpc result" where
  "parseManifestRpc r =
     bindE (getProp r ''vizNodeUrls'') (\<lambda>v. bindE (getProp r ''gramEndpoints'') (\<lambda>g.
     bindE (getProp r ''gramOrbsFallback'') (\<lambda>b.
       Inr \<lparr>mr_vizNodeUrls = optList v, mr_gramEndpoints = optList g,
            mr_gramOrbsFallback = (if b = None then None else Some (truthyVal b))\<rparr>)))"

text \<open>An optional section: absent only when the key is.\<close>

definition optSection :: "(jsval \<Rightarrow> 'a result) \<Rightarrow> jsval \<Rightarrow> string \<Rightarrow> 'a option result" where
  "optSection parse raw k =
     bindE (getProp raw k) (\<lambda>v. case v of None \<Rightarrow> Inr None | Some x \<Rightarrow> bindE (parse x) (\<lambda>y. Inr (Some y)))"

definition parseOperators :: "jsval \<Rightarrow> OperatorRef list result" where
  "parseOperators raw =
     bindE (getProp raw ''operators'') (\<lambda>v. case v of
         Some (VArr xs) \<Rightarrow> mapIdxE parseOperator 0 xs
       | _ \<Rightarrow> Inl (GenericError ''federation manifest: operators must be an array''))"

text \<open>The checks of the federation: integral, one operator each, a threshold in range.\<close>

definition checkFederation :: "double \<Rightarrow> double \<Rightarrow> nat \<Rightarrow> (int \<times> int) result" where
  "checkFederation n threshold operators =
     (case (dblInteger n, dblInteger threshold) of
        (Some n', Some t') \<Rightarrow>
          if int operators \<noteq> n' then Inl (GenericError ''federation manifest: operators.length != n'')
          else if t' \<le> 0 \<or> n' < t' then Inl (GenericError ''federation manifest: threshold must be in 1..n'')
          else Inr (n', t')
      | _ \<Rightarrow> Inl (GenericError ''federation manifest: n and threshold must be integers''))"

definition parseManifest :: "jsval \<Rightarrow> FederationManifest result" where
  "parseManifest raw =
     bindE (getProp raw ''n'') (\<lambda>vn.
     bindE (getProp raw ''threshold'') (\<lambda>vt.
     bindE (parseOperators raw) (\<lambda>operators.
     bindE (checkFederation (numberOfVal vn) (numberOfVal vt) (length operators)) (\<lambda>(n, threshold).
     bindE (optSection parseManifestFees raw ''fees'') (\<lambda>fees.
     bindE (optSection parseManifestGram raw ''gram'') (\<lambda>gram.
     bindE (optSection parseManifestAccounts raw ''accounts'') (\<lambda>accounts.
     bindE (optSection parseManifestRpc raw ''rpc'') (\<lambda>rpc.
     Inr \<lparr>fm_n = n, fm_threshold = threshold, fm_operators = operators, fm_fees = fees, fm_gram = gram,
          fm_accounts = accounts, fm_rpc = rpc\<rparr>))))))))"

section \<open>Fees\<close>

definition deriveFloorMilliViz :: "double \<Rightarrow> double \<Rightarrow> double \<Rightarrow> int result" where
  "deriveFloorMilliViz gasTon vizPerTon margin =
     bigintOfDouble (dblCeil (dblMul (dblMul (dblMul gasTon vizPerTon) margin) (DFin 1000)))"

text \<open>The fee constants a service runs with; the policy of a chain reads the integers.\<close>

record LoadedFees =
  lf_floorMilliViz :: int
  lf_gramFloorMilliViz :: int
  lf_bps :: double
  lf_activationSolana :: int
  lf_activationGram :: int
  lf_mintGasFloorSolana :: int
  lf_mintGasFloorGram :: int
  lf_mintGasTon :: double
  lf_walletDeployGasTon :: double
  lf_margin :: double
  lf_gramVizPerTon :: double
  lf_refundFeeMilliViz :: int

text \<open>\<open>pinned ?? fallback\<close>, where the fallback may throw.\<close>

definition orElse :: "'a option \<Rightarrow> 'a result \<Rightarrow> 'a result" where
  "orElse pinned fallback = (case pinned of None \<Rightarrow> fallback | Some x \<Rightarrow> Inr x)"

definition loadFees :: "environment \<Rightarrow> FederationManifest \<Rightarrow> LoadedFees result" where
  "loadFees E federation =
     (let pin = (\<lambda>field. map_option field (fm_fees federation));
          pinD = (\<lambda>field. map_option field (fm_fees federation))
      in
     bindE (orElse (pinD mf_mintGasTon) (envFloat E ''GRAM_MINT_GAS_TON'' (roundDouble (6 / 100)))) (\<lambda>mintGasTon.
     bindE (orElse (pinD mf_walletDeployGasTon) (envFloat E ''GRAM_WALLET_DEPLOY_GAS_TON'' (roundDouble (5 / 100)))) (\<lambda>walletDeployGasTon.
     bindE (orElse (pinD mf_margin) (envFloat E ''FEE_MARGIN'' (DFin (3 / 2)))) (\<lambda>margin.
     bindE (orElse (pinD mf_gramVizPerTon) (envFloat E ''FEE_GRAM_VIZ_PER_TON'' (DFin 500))) (\<lambda>gramVizPerTon.
     bindE (orElse (pin mf_floorMilliViz) (envBig E ''FEE_FLOOR_MILLI_VIZ'' ''10000'')) (\<lambda>floor.
     bindE (deriveFloorMilliViz mintGasTon gramVizPerTon margin) (\<lambda>gramFloor.
     bindE (orElse (pinD mf_bps) (bindE (envInt E ''FEE_BPS'' 20) (\<lambda>n. Inr (DFin (of_int n))))) (\<lambda>bps.
     bindE (orElse (pin mf_activationSolana) (envBig E ''FEE_ACTIVATION_SOLANA_MILLI_VIZ'' ''10000'')) (\<lambda>actSolana.
     bindE (deriveFloorMilliViz walletDeployGasTon gramVizPerTon margin) (\<lambda>actGram.
     bindE (orElse (pin mf_mintGasFloorSolana) (envBig E ''MINT_GAS_FLOOR_SOLANA_MILLI_VIZ'' ''1000'')) (\<lambda>gasSolana.
     bindE (orElse (pin mf_mintGasFloorGram) (envBig E ''MINT_GAS_FLOOR_GRAM_MILLI_VIZ'' ''1000'')) (\<lambda>gasGram.
     bindE (orElse (pin mf_refundFeeMilliViz) (envBig E ''REFUND_FEE_MILLI_VIZ'' ''5000'')) (\<lambda>refund.
     Inr \<lparr>lf_floorMilliViz = floor, lf_gramFloorMilliViz = gramFloor, lf_bps = bps,
          lf_activationSolana = actSolana, lf_activationGram = actGram, lf_mintGasFloorSolana = gasSolana,
          lf_mintGasFloorGram = gasGram, lf_mintGasTon = mintGasTon, lf_walletDeployGasTon = walletDeployGasTon,
          lf_margin = margin, lf_gramVizPerTon = gramVizPerTon, lf_refundFeeMilliViz = refund\<rparr>)))))))))))))"

text \<open>The fee configuration of the fee arithmetic, where the rate is a natural number.\<close>

definition feeConfigOf :: "LoadedFees \<Rightarrow> GatewayFeeConfig option" where
  "feeConfigOf f =
     (case dblInteger (lf_bps f) of
        None \<Rightarrow> None
      | Some b \<Rightarrow> if b < 0 then None else Some
          \<lparr>fc_floorMilliViz = lf_floorMilliViz f, fc_gramFloorMilliViz = Some (lf_gramFloorMilliViz f),
           fc_bps = nat b,
           fc_activationSurchargeMilliViz =
             (\<lambda>c. if c = GRAM then lf_activationGram f else lf_activationSolana f),
           fc_mintGasFloorMilliViz = (\<lambda>c. if c = GRAM then lf_mintGasFloorGram f else lf_mintGasFloorSolana f),
           fc_refundFeeMilliViz = lf_refundFeeMilliViz f\<rparr>)"

section \<open>The sealed key store\<close>

text \<open>
  The machine a service starts on: its environment, its files, whether standard input is a
  terminal, and the bytes typed at \<open>/dev/tty\<close> (an error when there is no terminal).
\<close>

record Machine =
  mc_env :: environment
  mc_files :: "string \<rightharpoonup> string"
  mc_stdinIsTTY :: bool
  mc_tty :: "string result"

text \<open>
  \<open>readPassphraseFromTty\<close>: the line is read byte by byte, and each byte is decoded on its own,
  so a byte outside ASCII becomes the replacement character U+FFFD.
\<close>

definition decodeByte :: "char \<Rightarrow> string" where
  "decodeByte c = (if (of_char c :: nat) < 128 then [c] else [CHR 0xEF, CHR 0xBF, CHR 0xBD])"

definition ttyLine :: "string \<Rightarrow> string" where
  "ttyLine typed = concat (map decodeByte (takeWhile (\<lambda>c. c \<noteq> CHR 0x0A \<and> c \<noteq> CHR 0x0D) typed))"

definition readPassphraseFromTty :: "Machine \<Rightarrow> string result" where
  "readPassphraseFromTty m = bindE (mc_tty m) (\<lambda>typed. Inr (ttyLine typed))"

definition setIfUnset :: "string \<Rightarrow> string option \<Rightarrow> environment \<Rightarrow> environment" where
  "setIfUnset name value E =
     (case value of None \<Rightarrow> E | Some v \<Rightarrow> if envSet E name = None then E(name \<mapsto> v) else E)"

definition memoVar :: "string \<Rightarrow> string" where
  "memoVar chain = ''VIZ_MEMO_WIF_'' @ chain"

definition setSecrets :: "KeystoreSecrets \<Rightarrow> environment \<Rightarrow> environment" where
  "setSecrets s E =
     foldl (\<lambda>E (chain, wif). setIfUnset (memoVar chain) (Some wif) E)
       (setIfUnset ''SOLANA_SIGNER_SECRET'' (sec_solanaSignerSecret s)
         (setIfUnset ''GRAM_SIGNER_MNEMONIC'' (sec_gramSignerMnemonic s)
           (setIfUnset ''VIZ_SIGNING_WIF'' (sec_vizSigningWif s) E)))
       (case sec_vizMemoWifs s of None \<Rightarrow> [] | Some kv \<Rightarrow> kv)"

definition keystorePassphrase :: "Machine \<Rightarrow> string result" where
  "keystorePassphrase m =
     (case envSet (mc_env m) ''FED_KEYSTORE_PASSPHRASE'' of
        Some p \<Rightarrow> Inr p
      | None \<Rightarrow>
          if \<not> mc_stdinIsTTY m then Inl (GenericError ''FED_KEYSTORE is set but no passphrase and no TTY'')
          else readPassphraseFromTty m)"

definition hydrateKeystore :: "KeyCrypto \<Rightarrow> Machine \<Rightarrow> environment result" where
  "hydrateKeystore C m =
     (case mc_env m ''FED_KEYSTORE'' of
        None \<Rightarrow> Inr (mc_env m)
      | Some path \<Rightarrow>
          if trim path = [] then Inr (mc_env m)
          else (case mc_files m path of
              None \<Rightarrow> Inl (GenericError ''FED_KEYSTORE points to a missing file'')
            | Some text \<Rightarrow>
                bindE (keystorePassphrase m) (\<lambda>passphrase.
                bindE (kc_parse C text) (\<lambda>ks.
                bindE (openKeystore C ks passphrase) (\<lambda>secrets.
                Inr (setSecrets secrets (mc_env m)))))))"

section \<open>The federation of a service\<close>

definition envFederation :: "environment \<Rightarrow> (int \<times> int) result" where
  "envFederation E =
     bindE (envInt E ''FEDERATION_N'' 1) (\<lambda>n. bindE (envInt E ''FEDERATION_THRESHOLD'' 1) (\<lambda>threshold.
       if threshold \<le> 0 \<or> n < threshold then Inl (GenericError ''Invalid federation: threshold must be in 1..n'')
       else Inr (n, threshold)))"

text \<open>
  The count-only federation of a fresh start. \<open>Array.from\<close> refuses a length beyond \<open>2^32 - 1\<close>.
\<close>

definition syntheticOperators :: "int \<Rightarrow> OperatorRef list result" where
  "syntheticOperators n =
     (if 4294967295 < n then Inl (GenericError ''RangeError: Invalid array length'')
      else Inr (map (\<lambda>i. \<lparr>op_id = ''op-'' @ decNat (Suc i), op_vizPubkey = [], op_tonPubkey = [],
                          op_solanaPubkey = []\<rparr>) [0..<nat n]))"

definition loadFederation :: "KeyCrypto \<Rightarrow> (string \<rightharpoonup> string) \<Rightarrow> environment \<Rightarrow> FederationManifest result" where
  "loadFederation C files E =
     bindE (envFederation E) (\<lambda>(n, threshold).
       case files (envOpt E ''FEDERATION_MANIFEST'' ''./federation.json'') of
         Some text \<Rightarrow> bindE (kc_parse C text) parseManifest
       | None \<Rightarrow> bindE (syntheticOperators n) (\<lambda>operators.
           Inr \<lparr>fm_n = n, fm_threshold = threshold, fm_operators = operators, fm_fees = None,
                fm_gram = None, fm_accounts = None, fm_rpc = None\<rparr>))"

section \<open>The settings of the services\<close>

text \<open>A pair of timeouts, one per direction.\<close>

record Timeouts =
  tmo_pegIn :: int
  tmo_pegOut :: int

record VizSettings =
  vs_nodeUrl :: "string option"
  vs_nodeUrls :: "string list"
  vs_gatewayAccounts :: "(RemoteChainId \<times> string) list"
  vs_signingWif :: string
  vs_memoWifs :: "(string \<times> string) list"
  vs_extraConfirmations :: int

record GramSettings =
  gs_endpoint :: "string option"
  gs_endpoints :: "string list"
  gs_orbsFallback :: bool
  gs_apiKey :: string
  gs_multisigAddress :: string
  gs_jettonMinterAddress :: string
  gs_gatewayJettonWallet :: string
  gs_frozenMilliViz :: int
  gs_signerMnemonic :: string
  gs_finalityConfirmations :: int
  gs_scanMaxTransactions :: int
  gs_maxScanPages :: int
  gs_rpcTimeoutMs :: int
  gs_approveMaxWaitMs :: int
  gs_approvePollIntervalMs :: int
  gs_orderValueNano :: int
  gs_submitterMinNano :: int

record SolanaSettings =
  ss_rpcUrl :: string
  ss_wvizMint :: string
  ss_gatewayTokenAccount :: string
  ss_finalitySlots :: int
  ss_multisig :: string
  ss_nonceAccount :: string
  ss_signers :: "string list"
  ss_signerSecret :: "nat list option"
  ss_submitterSecret :: "nat list option"
  ss_submitterPubkey :: string
  ss_scanMaxSignatures :: int
  ss_maxScanPages :: int
  ss_scanTxDelayMs :: int
  ss_scanAddressBatch :: int
  ss_submitterMinLamports :: int
  ss_depositProgramId :: string
  ss_lookupListen :: string

record CoordinatorSettings =
  cs_url :: string
  cs_listen :: string
  cs_submitToken :: string
  cs_signerApproveTimeoutMs :: Timeouts

record DispatcherSettings =
  ds_intervalMs :: int
  ds_retryIntervalMs :: int
  ds_windowMs :: int
  ds_signingTimeoutMs :: Timeouts
  ds_staleDeliveryAlertMs :: int
  ds_submitTimeoutMs :: int

record RegistrationSettings =
  rs_leaseMs :: int
  rs_heartbeatMs :: int
  rs_nonceTtlMs :: int

record ReconSettings =
  rc_intervalMs :: int
  rc_driftToleranceMilliViz :: int
  rc_maxConsecutiveFailures :: int
  rc_autoUnpauseOkTicks :: int
  rc_expectedRemotes :: "string list"

record GatewayConfig =
  gc_service :: string
  gc_operatorId :: string
  gc_federation :: FederationManifest
  gc_viz :: VizSettings
  gc_gram :: GramSettings
  gc_solana :: SolanaSettings
  gc_coordinator :: CoordinatorSettings
  gc_dispatcher :: DispatcherSettings
  gc_feesGateAccount :: string
  gc_signerAdvertiseUrl :: string
  gc_registration :: RegistrationSettings
  gc_caps :: CapPolicy
  gc_fees :: LoadedFees
  gc_pegInRateLimit :: "int \<times> int"
  gc_storeUrl :: string
  gc_recon :: ReconSettings

text \<open>The \<open>/approve\<close> ceilings per direction, and the budget of one peg-in round derived from them.\<close>

definition loadApproveTimeouts :: "environment \<Rightarrow> Timeouts result" where
  "loadApproveTimeouts E =
     bindE (envInt E ''SIGNER_APPROVE_TIMEOUT_MS'' 180000) (\<lambda>d1.
     bindE (envInt E ''SIGNER_APPROVE_TIMEOUT_PEG_IN_MS'' d1) (\<lambda>pegIn.
     bindE (envInt E ''SIGNER_APPROVE_TIMEOUT_MS'' 30000) (\<lambda>d2.
     bindE (envInt E ''SIGNER_APPROVE_TIMEOUT_PEG_OUT_MS'' d2) (\<lambda>pegOut.
     Inr \<lparr>tmo_pegIn = pegIn, tmo_pegOut = pegOut\<rparr>))))"

definition pegInOrchestrationBudgetMs :: "FederationManifest \<Rightarrow> Timeouts \<Rightarrow> int" where
  "pegInOrchestrationBudgetMs federation t = fm_n federation * tmo_pegIn t + 120000"

text \<open>\<open>federation.accounts?.x ?? env\<close> and the like: the manifest wins.\<close>

definition pinnedOr :: "'a option \<Rightarrow> ('a \<Rightarrow> string option) \<Rightarrow> string \<Rightarrow> string" where
  "pinnedOr section field dflt =
     (case section of None \<Rightarrow> dflt | Some s \<Rightarrow> (case field s of None \<Rightarrow> dflt | Some v \<Rightarrow> v))"

definition gateAccount :: "environment \<Rightarrow> FederationManifest \<Rightarrow> RemoteChainId \<Rightarrow> string" where
  "gateAccount E fed chain =
     (if chain = GRAM then pinnedOr (fm_accounts fed) ma_gram (envOpt E ''VIZ_GATEWAY_ACCOUNT_GRAM'' [])
      else pinnedOr (fm_accounts fed) ma_solana (envOpt E ''VIZ_GATEWAY_ACCOUNT_SOLANA'' []))"

text \<open>The memo keys by gate account: an account or a key that is empty is skipped, a later one wins.\<close>

definition memoWifsFor :: "environment \<Rightarrow> FederationManifest \<Rightarrow> (string \<times> string) list" where
  "memoWifsFor E fed =
     (let add = (\<lambda>account wif m. if account \<noteq> [] \<and> wif \<noteq> [] then AList.update account wif m else m)
      in add (gateAccount E fed SOLANA) (envOpt E ''VIZ_MEMO_WIF_SOLANA'' [])
           (add (gateAccount E fed GRAM) (envOpt E ''VIZ_MEMO_WIF_GRAM'' []) []))"

definition vizNodeUrls :: "environment \<Rightarrow> FederationManifest \<Rightarrow> string list" where
  "vizNodeUrls E fed =
     splitList (envOpt E ''VIZ_NODE_URL'' (envOpt E ''VIZ_NODE_WS''
       (pinnedOr (fm_rpc fed) mr_vizNodeUrls ''https://node.viz.cx'')))"

definition gramEndpoints :: "environment \<Rightarrow> FederationManifest \<Rightarrow> string list" where
  "gramEndpoints E fed =
     splitList (envOpt E ''GRAM_ENDPOINT''
       (pinnedOr (fm_rpc fed) mr_gramEndpoints ''https://toncenter.com/api/v2/jsonRPC''))"

text \<open>\<open>xs[0]\<close>, \<open>undefined\<close> for an empty list.\<close>

definition firstOf :: "'a list \<Rightarrow> 'a option" where
  "firstOf xs = (case xs of [] \<Rightarrow> None | x # _ \<Rightarrow> Some x)"

definition loadViz :: "environment \<Rightarrow> FederationManifest \<Rightarrow> VizSettings result" where
  "loadViz E fed =
     bindE (envInt E ''VIZ_EXTRA_CONFIRMATIONS'' 2) (\<lambda>extra.
       Inr \<lparr>vs_nodeUrl = firstOf (vizNodeUrls E fed), vs_nodeUrls = vizNodeUrls E fed,
            vs_gatewayAccounts = [(GRAM, gateAccount E fed GRAM), (SOLANA, gateAccount E fed SOLANA)],
            vs_signingWif = envOpt E ''VIZ_SIGNING_WIF'' [], vs_memoWifs = memoWifsFor E fed,
            vs_extraConfirmations = extra\<rparr>)"

definition loadGram :: "environment \<Rightarrow> FederationManifest \<Rightarrow> GramSettings result" where
  "loadGram E fed =
     bindE (orElse (case fm_gram fed of None \<Rightarrow> None | Some g \<Rightarrow> mg_frozenMilliViz g) (envBig E ''GRAM_FROZEN_MILLIVIZ'' ''0'')) (\<lambda>frozen.
     bindE (envInt E ''GRAM_FINALITY_CONFIRMATIONS'' 1) (\<lambda>fin.
     bindE (envInt E ''GRAM_MAX_TRANSACTIONS'' 20) (\<lambda>maxTx.
     bindE (envInt E ''GRAM_MAX_SCAN_PAGES'' 50) (\<lambda>pages.
     bindE (envInt E ''GRAM_RPC_TIMEOUT_MS'' 30000) (\<lambda>rpc.
     bindE (envInt E ''GRAM_APPROVE_MAX_WAIT_MS'' 60000) (\<lambda>wait.
     bindE (envInt E ''GRAM_APPROVE_POLL_INTERVAL_MS'' 3000) (\<lambda>poll.
     bindE (envInt E ''GRAM_ORDER_VALUE_NANO'' 100000000) (\<lambda>order.
     bindE (envInt E ''GRAM_SUBMITTER_MIN_NANO'' 2000000000) (\<lambda>minNano.
     Inr \<lparr>gs_endpoint = firstOf (gramEndpoints E fed), gs_endpoints = gramEndpoints E fed,
          gs_orbsFallback = envBool E ''GRAM_ORBS_FALLBACK''
            (case fm_rpc fed of None \<Rightarrow> False | Some r \<Rightarrow> coalesce (mr_gramOrbsFallback r) False),
          gs_apiKey = envOpt E ''GRAM_API_KEY'' [],
          gs_multisigAddress = pinnedOr (fm_gram fed) mg_multisigAddress (envOpt E ''GRAM_MULTISIG_ADDRESS'' []),
          gs_jettonMinterAddress =
            pinnedOr (fm_gram fed) mg_jettonMinterAddress (envOpt E ''GRAM_JETTON_MINTER_ADDRESS'' []),
          gs_gatewayJettonWallet =
            pinnedOr (fm_gram fed) mg_gatewayJettonWallet (envOpt E ''GRAM_GATEWAY_JETTON_WALLET'' []),
          gs_frozenMilliViz = frozen, gs_signerMnemonic = envOpt E ''GRAM_SIGNER_MNEMONIC'' [],
          gs_finalityConfirmations = fin, gs_scanMaxTransactions = maxTx, gs_maxScanPages = pages,
          gs_rpcTimeoutMs = rpc, gs_approveMaxWaitMs = wait, gs_approvePollIntervalMs = poll,
          gs_orderValueNano = order, gs_submitterMinNano = minNano\<rparr>)))))))))"

definition loadSolana :: "(string \<Rightarrow> jsval result) \<Rightarrow> environment \<Rightarrow> SolanaSettings result" where
  "loadSolana parseJson E =
     bindE (envInt E ''SOLANA_FINALITY_SLOTS'' 0) (\<lambda>fin.
     bindE (solanaSecret parseJson E ''SOLANA_SIGNER_SECRET'') (\<lambda>signer.
     bindE (solanaSecret parseJson E ''SOLANA_SUBMITTER_SECRET'') (\<lambda>submitter.
     bindE (envInt E ''SOLANA_MAX_SIGNATURES'' 25) (\<lambda>maxSigs.
     bindE (envInt E ''SOLANA_MAX_SCAN_PAGES'' 50) (\<lambda>pages.
     bindE (envInt E ''SOLANA_RPC_TX_DELAY_MS'' 250) (\<lambda>delay.
     bindE (envInt E ''SOLANA_SCAN_ADDRESS_BATCH'' 50) (\<lambda>batch.
     bindE (envInt E ''SOLANA_SUBMITTER_MIN_LAMPORTS'' 50000000) (\<lambda>minLamports.
     Inr \<lparr>ss_rpcUrl = envOpt E ''SOLANA_RPC_URL'' ''https://api.devnet.solana.com'',
          ss_wvizMint = envOpt E ''SOLANA_WVIZ_MINT'' [],
          ss_gatewayTokenAccount = envOpt E ''SOLANA_GATEWAY_TOKEN_ACCOUNT'' [], ss_finalitySlots = fin,
          ss_multisig = envOpt E ''SOLANA_MULTISIG'' [], ss_nonceAccount = envOpt E ''SOLANA_NONCE_ACCOUNT'' [],
          ss_signers = commaList (envOpt E ''SOLANA_SIGNERS'' []), ss_signerSecret = signer,
          ss_submitterSecret = submitter, ss_submitterPubkey = envOpt E ''SOLANA_SUBMITTER_PUBKEY'' [],
          ss_scanMaxSignatures = maxSigs, ss_maxScanPages = pages, ss_scanTxDelayMs = delay,
          ss_scanAddressBatch = batch, ss_submitterMinLamports = minLamports,
          ss_depositProgramId = envOpt E ''SOLANA_DEPOSIT_PROGRAM_ID'' [],
          ss_lookupListen = envOpt E ''LOOKUP_LISTEN'' ''127.0.0.1:8110''\<rparr>))))))))"

definition loadDispatcher :: "environment \<Rightarrow> int \<Rightarrow> DispatcherSettings result" where
  "loadDispatcher E budget =
     bindE (envInt E ''DISPATCHER_INTERVAL_MS'' 5000) (\<lambda>interval.
     bindE (envInt E ''DISPATCHER_RETRY_INTERVAL_MS'' 10000) (\<lambda>retry.
     bindE (envInt E ''DISPATCHER_WINDOW_MS'' 180000) (\<lambda>window.
     bindE (envInt E ''DISPATCHER_SIGNING_TIMEOUT_MS'' budget) (\<lambda>d1.
     bindE (envInt E ''DISPATCHER_SIGNING_TIMEOUT_PEG_IN_MS'' d1) (\<lambda>pegIn.
     bindE (envInt E ''DISPATCHER_SIGNING_TIMEOUT_MS'' 180000) (\<lambda>d2.
     bindE (envInt E ''DISPATCHER_SIGNING_TIMEOUT_PEG_OUT_MS'' d2) (\<lambda>pegOut.
     bindE (envInt E ''DISPATCHER_STALE_ALERT_MS'' 3600000) (\<lambda>stale.
     bindE (envInt E ''DISPATCHER_SIGNING_TIMEOUT_MS'' budget) (\<lambda>d3.
     bindE (envInt E ''DISPATCHER_SUBMIT_TIMEOUT_MS'' d3) (\<lambda>submit.
     Inr \<lparr>ds_intervalMs = interval, ds_retryIntervalMs = retry, ds_windowMs = window,
          ds_signingTimeoutMs = \<lparr>tmo_pegIn = pegIn, tmo_pegOut = pegOut\<rparr>,
          ds_staleDeliveryAlertMs = stale, ds_submitTimeoutMs = submit\<rparr>))))))))))"

definition loadRegistration :: "environment \<Rightarrow> RegistrationSettings result" where
  "loadRegistration E =
     bindE (envInt E ''REGISTRATION_LEASE_MS'' 60000) (\<lambda>lease.
     bindE (envInt E ''REGISTRATION_HEARTBEAT_MS'' 20000) (\<lambda>heartbeat.
     bindE (envInt E ''REGISTRATION_NONCE_TTL_MS'' 30000) (\<lambda>nonceTtl.
     Inr \<lparr>rs_leaseMs = lease, rs_heartbeatMs = heartbeat, rs_nonceTtlMs = nonceTtl\<rparr>)))"

definition loadCaps :: "environment \<Rightarrow> CapPolicy result" where
  "loadCaps E =
     bindE (envBig E ''CAP_PER_TX_MILLI_VIZ'' ''200000000'') (\<lambda>perTx.
     bindE (envBig E ''CAP_24H_MILLI_VIZ'' ''2000000000'') (\<lambda>rolling.
     bindE (envBig E ''MANUAL_REVIEW_ABOVE_MILLI_VIZ'' ''100000000'') (\<lambda>manual.
     Inr \<lparr>cp_perTxMilliViz = perTx, cp_rolling24hMilliViz = rolling,
          cp_manualReviewAboveMilliViz = manual\<rparr>)))"

definition upperChar :: "char \<Rightarrow> char" where
  "upperChar c = (if charIn (CHR ''a'') (CHR ''z'') c then char_of (of_char c - (32 :: nat)) else c)"

definition loadRecon :: "environment \<Rightarrow> ReconSettings result" where
  "loadRecon E =
     bindE (envInt E ''RECON_INTERVAL_MS'' 30000) (\<lambda>interval.
     bindE (envBig E ''RECON_DRIFT_TOLERANCE_MILLI_VIZ'' ''0'') (\<lambda>drift.
     bindE (envInt E ''RECON_MAX_CONSECUTIVE_FAILURES'' 3) (\<lambda>maxFail.
     bindE (envInt E ''RECON_AUTO_UNPAUSE_OK_TICKS'' 5) (\<lambda>okTicks.
     Inr \<lparr>rc_intervalMs = interval, rc_driftToleranceMilliViz = drift, rc_maxConsecutiveFailures = maxFail,
          rc_autoUnpauseOkTicks = okTicks,
          rc_expectedRemotes = map (map upperChar) (commaList (envOpt E ''RECON_EXPECTED_REMOTES'' []))\<rparr>))))"

section \<open>loadConfig\<close>

text \<open>
  The sections are read in the order of the code, the first error ends the load. The deployment
  boundary is \<open>configFrom\<close>: everything after the federation is a function of the environment and
  the federation alone.
\<close>

definition configFrom :: "(string \<Rightarrow> jsval result) \<Rightarrow> environment \<Rightarrow> FederationManifest \<Rightarrow> GatewayConfig result" where
  "configFrom parseJson E federation =
     bindE (loadApproveTimeouts E) (\<lambda>approve.
     bindE (loadViz E federation) (\<lambda>viz.
     bindE (loadGram E federation) (\<lambda>gram.
     bindE (loadSolana parseJson E) (\<lambda>solana.
     bindE (loadDispatcher E (pegInOrchestrationBudgetMs federation approve)) (\<lambda>dispatcher.
     bindE (loadRegistration E) (\<lambda>registration.
     bindE (loadCaps E) (\<lambda>caps.
     bindE (loadFees E federation) (\<lambda>fees.
     bindE (envInt E ''PEG_IN_RATE_MAX_PER_WINDOW'' 10) (\<lambda>ratePer.
     bindE (envInt E ''PEG_IN_RATE_WINDOW_MS'' 3600000) (\<lambda>rateWindow.
     bindE (loadRecon E) (\<lambda>recon.
     Inr \<lparr>gc_service = envOpt E ''SERVICE'' ''signer'', gc_operatorId = envOpt E ''OPERATOR_ID'' ''op-1'',
          gc_federation = federation, gc_viz = viz, gc_gram = gram, gc_solana = solana,
          gc_coordinator = \<lparr>cs_url = envOpt E ''COORDINATOR_URL'' ''http://coordinator:8100'',
            cs_listen = envOpt E ''COORDINATOR_LISTEN'' ''0.0.0.0:8100'',
            cs_submitToken = envOpt E ''COORDINATOR_SUBMIT_TOKEN'' [], cs_signerApproveTimeoutMs = approve\<rparr>,
          gc_dispatcher = dispatcher,
          gc_feesGateAccount = pinnedOr (fm_accounts federation) ma_fees (envOpt E ''FEES_GATE_ACCOUNT'' ''fees.gate''),
          gc_signerAdvertiseUrl = envOpt E ''SIGNER_ADVERTISE_URL'' [],
          gc_registration = registration, gc_caps = caps, gc_fees = fees,
          gc_pegInRateLimit = (ratePer, rateWindow),
          gc_storeUrl = envOpt E ''STORE_URL'' ''sqlite:./data/gateway.sqlite'', gc_recon = recon\<rparr>)))))))))))"

definition loadConfig :: "KeyCrypto \<Rightarrow> Machine \<Rightarrow> GatewayConfig result" where
  "loadConfig C m =
     bindE (hydrateKeystore C m) (\<lambda>E.
     bindE (loadFederation C (mc_files m) E) (\<lambda>federation.
     configFrom (kc_parse C) E federation))"

definition buildGatewayAccounts :: "GatewayConfig \<Rightarrow> GatewayAccounts result" where
  "buildGatewayAccounts cfg = newGatewayAccounts (vs_gatewayAccounts (gc_viz cfg))"

section \<open>What a loaded configuration satisfies\<close>

definition federationWf :: "FederationManifest \<Rightarrow> bool" where
  "federationWf f \<longleftrightarrow>
     1 \<le> fm_threshold f \<and> fm_threshold f \<le> fm_n f \<and> int (length (fm_operators f)) = fm_n f \<and>
     (\<forall>op \<in> set (fm_operators f). op_id op \<noteq> [])"

lemma parseOperator_id: "parseOperator i x = Inr op \<Longrightarrow> op_id op \<noteq> []"
  by (auto simp: parseOperator_def err_simps split: if_splits)

lemma parseOperators_ids:
  "parseOperators raw = Inr ops \<Longrightarrow> op \<in> set ops \<Longrightarrow> op_id op \<noteq> []"
proof -
  assume "parseOperators raw = Inr ops" and op: "op \<in> set ops"
  then obtain v where v: "(case v of Some (VArr xs) \<Rightarrow> mapIdxE parseOperator 0 xs
      | _ \<Rightarrow> Inl (GenericError ''federation manifest: operators must be an array'')) = Inr ops"
    unfolding parseOperators_def bindE_eq_Inr by blast
  then obtain xs where "mapIdxE parseOperator 0 xs = Inr ops"
  proof (cases v)
    case (Some x)
    with v that show ?thesis by (cases x) simp_all
  qed simp
  from mapIdxE_set [OF this op] show "op_id op \<noteq> []" by (auto dest: parseOperator_id)
qed

lemma checkFederation_Inr:
  "checkFederation n t k = Inr (n', t') \<Longrightarrow> int k = n' \<and> 1 \<le> t' \<and> t' \<le> n'"
  by (auto simp: checkFederation_def split: option.splits if_splits)

lemma parseManifest_wf: "parseManifest raw = Inr f \<Longrightarrow> federationWf f"
  unfolding parseManifest_def federationWf_def
  by (auto simp: err_simps dest: checkFederation_Inr parseOperators_ids)

lemma envFederation_range: "envFederation E = Inr (n, t) \<Longrightarrow> 1 \<le> t \<and> t \<le> n"
  by (auto simp: envFederation_def err_simps split: if_splits)

lemma loadFederation_wf:
  assumes "loadFederation C files E = Inr f"
  shows "federationWf f"
proof -
  from assms obtain n t where nt: "envFederation E = Inr (n, t)"
    and f: "(case files (envOpt E ''FEDERATION_MANIFEST'' ''./federation.json'') of
         Some text \<Rightarrow> bindE (kc_parse C text) parseManifest
       | None \<Rightarrow> bindE (syntheticOperators n) (\<lambda>operators.
           Inr \<lparr>fm_n = n, fm_threshold = t, fm_operators = operators, fm_fees = None,
                fm_gram = None, fm_accounts = None, fm_rpc = None\<rparr>)) = Inr f"
    by (auto simp: loadFederation_def err_simps)
  show ?thesis
  proof (cases "files (envOpt E ''FEDERATION_MANIFEST'' ''./federation.json'')")
    case None
    with f envFederation_range [OF nt] show ?thesis
      by (auto simp: err_simps syntheticOperators_def federationWf_def split: if_splits)
  next
    case (Some content)
    with f show ?thesis by (auto simp: err_simps intro: parseManifest_wf)
  qed
qed

lemma configFrom_parts:
  assumes "configFrom J E fed = Inr c"
  shows "gc_federation c = fed" and "loadFees E fed = Inr (gc_fees c)"
    and "loadViz E fed = Inr (gc_viz c)" and "loadGram E fed = Inr (gc_gram c)"
    and "loadApproveTimeouts E = Inr (cs_signerApproveTimeoutMs (gc_coordinator c))"
    and "loadDispatcher E (pegInOrchestrationBudgetMs fed (cs_signerApproveTimeoutMs (gc_coordinator c)))
           = Inr (gc_dispatcher c)"
    and "gc_feesGateAccount c = pinnedOr (fm_accounts fed) ma_fees (envOpt E ''FEES_GATE_ACCOUNT'' ''fees.gate'')"
  using assms unfolding configFrom_def by (auto simp: err_simps)

lemma loadConfig_Inr:
  assumes "loadConfig C m = Inr c"
  shows "\<exists>E fed. hydrateKeystore C m = Inr E \<and> loadFederation C (mc_files m) E = Inr fed \<and>
    configFrom (kc_parse C) E fed = Inr c"
  using assms by (auto simp: loadConfig_def err_simps)

section \<open>Pinned terms\<close>

lemma orElse_Some [simp]: "orElse (Some x) r = Inr x"
  by (simp add: orElse_def)

lemma loadFees_pinned:
  "fm_fees fed = Some mf \<Longrightarrow> loadFees E fed = loadFees E' fed"
  by (simp add: loadFees_def)

lemma pinnedOr_Some: "section = Some s \<Longrightarrow> field s = Some v \<Longrightarrow> pinnedOr section field d = v"
  by (simp add: pinnedOr_def)

definition chainPinned :: "FederationManifest \<Rightarrow> RemoteChainId \<Rightarrow> bool" where
  "chainPinned fed chain \<longleftrightarrow>
     (\<exists>a. fm_accounts fed = Some a \<and> (if chain = GRAM then ma_gram a else ma_solana a) \<noteq> None)"

lemma gateAccount_pinned: "chainPinned fed chain \<Longrightarrow> gateAccount E fed chain = gateAccount E' fed chain"
  by (auto simp: chainPinned_def gateAccount_def pinnedOr_def split: if_splits)

lemma loadGram_addresses:
  assumes "loadGram E fed = Inr g"
  shows "gs_multisigAddress g = pinnedOr (fm_gram fed) mg_multisigAddress (envOpt E ''GRAM_MULTISIG_ADDRESS'' [])"
    and "gs_jettonMinterAddress g =
      pinnedOr (fm_gram fed) mg_jettonMinterAddress (envOpt E ''GRAM_JETTON_MINTER_ADDRESS'' [])"
  using assms by (auto simp: loadGram_def err_simps)

lemma loadViz_accounts:
  "loadViz E fed = Inr v \<Longrightarrow>
     vs_gatewayAccounts v = [(GRAM, gateAccount E fed GRAM), (SOLANA, gateAccount E fed SOLANA)]"
  by (auto simp: loadViz_def err_simps)

section \<open>The keys of the store in the environment\<close>

lemma envSet_setIfUnset:
  assumes "value \<noteq> Some []"
  shows "envSet (setIfUnset name value E) k =
    (if k = name \<and> envSet E name = None then value else envSet E k)"
  using assms by (auto simp: setIfUnset_def envSet_def split: option.splits)

lemma setIfUnset_other: "k \<noteq> name \<Longrightarrow> setIfUnset name value E k = E k"
  by (simp add: setIfUnset_def split: option.splits)

definition secretFor :: "KeystoreSecrets \<Rightarrow> string \<Rightarrow> string option" where
  "secretFor s name =
     (if name = ''VIZ_SIGNING_WIF'' then sec_vizSigningWif s
      else if name = ''GRAM_SIGNER_MNEMONIC'' then sec_gramSignerMnemonic s
      else if name = ''SOLANA_SIGNER_SECRET'' then sec_solanaSignerSecret s
      else if startsWith name ''VIZ_MEMO_WIF_'' then
        map_of (case sec_vizMemoWifs s of None \<Rightarrow> [] | Some kv \<Rightarrow> kv) (drop 13 name)
      else None)"

lemma memoVar_eq_iff [simp]: "memoVar a = memoVar b \<longleftrightarrow> a = b"
  by (simp add: memoVar_def)

lemma envSet_memo_fold:
  assumes "\<forall>x \<in> set kv. snd x \<noteq> []" "distinct (map fst kv)"
  shows "envSet (foldl (\<lambda>E (c, w). setIfUnset (memoVar c) (Some w) E) E kv) name =
    (case envSet E name of Some v \<Rightarrow> Some v
     | None \<Rightarrow> if startsWith name ''VIZ_MEMO_WIF_'' then map_of kv (drop 13 name) else None)"
  using assms
proof (induction kv arbitrary: E)
  case Nil
  then show ?case by (simp split: option.split)
next
  case (Cons x kv)
  obtain c w where x: "x = (c, w)" by (cases x)
  with Cons.prems have w: "w \<noteq> []" and rest: "\<forall>x \<in> set kv. snd x \<noteq> []" "distinct (map fst kv)"
    and c: "c \<notin> fst ` set kv" by auto
  have eq: "name = memoVar c \<longleftrightarrow> startsWith name ''VIZ_MEMO_WIF_'' \<and> drop 13 name = c"
    by (auto simp: memoVar_def startsWith_iff)
  have "map_of kv c = None" using c by (simp add: map_of_eq_None_iff)
  then show ?case
    using w Cons.IH [OF rest, of "setIfUnset (memoVar c) (Some w) E"] eq
    by (auto simp: x envSet_setIfUnset split: option.splits)
qed

lemma envSet_setSecrets:
  assumes "s = presentSecrets s'" "objectKeys s'"
  shows "envSet (setSecrets s E) name =
    (case envSet E name of Some v \<Rightarrow> Some v | None \<Rightarrow> secretFor s name)"
proof -
  have ne: "sec_vizSigningWif s \<noteq> Some []" "sec_gramSignerMnemonic s \<noteq> Some []"
    "sec_solanaSignerSecret s \<noteq> Some []"
    using assms(1) by (auto simp: presentSecrets_def nonEmptyStr_def truthy_def split: option.splits if_splits)
  have "objectKeys s" using assms objectKeys_present by simp
  let ?kv = "case sec_vizMemoWifs s of None \<Rightarrow> [] | Some kv \<Rightarrow> kv"
  have kv: "\<forall>x \<in> set ?kv. snd x \<noteq> []" "distinct (map fst ?kv)"
    using assms(1) \<open>objectKeys s\<close> by (auto simp: presentSecrets_def nonEmptyWifs_def objectKeys_def Let_def
        split: option.splits if_splits)
  show ?thesis
    by (auto simp: setSecrets_def envSet_memo_fold [OF kv] envSet_setIfUnset [OF ne(1)]
        envSet_setIfUnset [OF ne(2)] envSet_setIfUnset [OF ne(3)] secretFor_def startsWith_def
        split: option.splits)
qed

section \<open>Properties\<close>

text \<open>
  C32. A service that has loaded its configuration runs with a well-formed federation, whether it
  was read from the committed manifest or synthesised from the environment: the threshold lies
  between 1 and n, there are exactly n operators, and every one of them has an id.
\<close>

theorem loaded_federation_wellformed:
  assumes "loadConfig C m = Inr c"
  shows "1 \<le> fm_threshold (gc_federation c) \<and> fm_threshold (gc_federation c) \<le> fm_n (gc_federation c) \<and>
    int (length (fm_operators (gc_federation c))) = fm_n (gc_federation c) \<and>
    (\<forall>op \<in> set (fm_operators (gc_federation c)). op_id op \<noteq> [])"
proof -
  from loadConfig_Inr [OF assms] obtain E fed where
    "loadFederation C (mc_files m) E = Inr fed" "configFrom (kc_parse C) E fed = Inr c" by blast
  then have "federationWf (gc_federation c)" using loadFederation_wf configFrom_parts(1) by simp
  then show ?thesis by (simp add: federationWf_def)
qed

definition federation_json :: jsval where
  "federation_json = VObj [(''n'', VNum (DFin 1)), (''threshold'', VNum (DFin 1)),
     (''operators'', VArr [VObj [(''id'', VStr ''op-1''), (''vizPubkey'', VStr ''VIZ1'')]]),
     (''fees'', VObj [(''floorMilliViz'', VNum (DFin 10000)), (''bps'', VNum (DFin 20)),
        (''activationSurchargeMilliViz'', VObj [(''SOLANA'', VNum (DFin 10000)), (''GRAM'', VNum (DFin 10000))]),
        (''mintGasFloorMilliViz'', VObj [(''SOLANA'', VNum (DFin 1000)), (''GRAM'', VStr ''1000'')]),
        (''mintGasTon'', VNum (DFin 0)), (''walletDeployGasTon'', VNum (DFin 0))]),
     (''gram'', VObj [(''multisigAddress'', VStr ''EQm''), (''jettonMinterAddress'', VStr ''EQj'')]),
     (''accounts'', VObj [(''gram'', VStr ''gram.gate''), (''solana'', VStr ''sol.gate'')])]"

definition secrets_example :: KeystoreSecrets where
  "secrets_example = \<lparr>sec_vizSigningWif = Some ''5K'', sec_gramSignerMnemonic = None,
     sec_solanaSignerSecret = Some [], sec_vizMemoWifs = Some [(''GRAM'', ''5M'')]\<rparr>"

definition keystore_example :: Keystore where
  "keystore_example = \<lparr>ks_kdfParams = DEFAULT_KDF, ks_salt = ''s'', ks_iv = ''i'', ks_authTag = ''t'',
     ks_ciphertext = ''p''\<rparr>"

definition keyCrypto_example :: KeyCrypto where
  "keyCrypto_example = \<lparr>kc_scrypt = (\<lambda>p s k mm. Inr p), kc_encrypt = (\<lambda>k iv aad pt. Inr (pt, ''t'')),
     kc_decipher = (\<lambda>k iv aad tag. Inr Some), kc_b64 = (\<lambda>s. s), kc_unb64 = (\<lambda>s. s),
     kc_stringify = (\<lambda>v. ''p''),
     kc_parse = (\<lambda>t. if t = ''p'' then Inr (secretsVal (presentSecrets secrets_example))
                     else if t = ''k'' then Inr (keystoreVal keystore_example) else Inr federation_json)\<rparr>"

definition machine_example :: "environment \<Rightarrow> Machine" where
  "machine_example E = \<lparr>mc_env = E, mc_files = [''./federation.json'' \<mapsto> ''m'', ''k.json'' \<mapsto> ''k''],
     mc_stdinIsTTY = False, mc_tty = Inl (GenericError [])\<rparr>"

lemma envSet_empty [simp]: "envSet Map.empty name = None"
  by (simp add: envSet_def)

lemma envSet_upd [simp]:
  "envSet (E(k \<mapsto> v)) name = (if name = k then (if v = [] then None else Some v) else envSet E name)"
  by (simp add: envSet_def)

text \<open>The federation of the example, and that everything else loads in an almost empty environment.\<close>

definition manifest_federation :: FederationManifest where
  "manifest_federation = \<lparr>fm_n = 1, fm_threshold = 1,
     fm_operators = [\<lparr>op_id = ''op-1'', op_vizPubkey = ''VIZ1'', op_tonPubkey = [], op_solanaPubkey = []\<rparr>],
     fm_fees = Some \<lparr>mf_floorMilliViz = 10000, mf_bps = DFin 20, mf_activationSolana = 10000,
       mf_activationGram = 10000, mf_mintGasFloorSolana = 1000, mf_mintGasFloorGram = 1000,
       mf_mintGasTon = DFin 0, mf_walletDeployGasTon = DFin 0, mf_margin = DFin (3 / 2),
       mf_gramVizPerTon = DFin 500, mf_refundFeeMilliViz = 5000\<rparr>,
     fm_gram = Some \<lparr>mg_jettonMinterAddress = Some ''EQj'', mg_multisigAddress = Some ''EQm'',
       mg_gatewayJettonWallet = None, mg_frozenMilliViz = None\<rparr>,
     fm_accounts = Some \<lparr>ma_gram = Some ''gram.gate'', ma_solana = Some ''sol.gate'', ma_fees = None\<rparr>,
     fm_rpc = None\<rparr>"

lemma bigintOf_1000: "bigintOf ''1000'' = Some 1000"
  by code_simp

lemma parseManifest_example: "parseManifest federation_json = Inr manifest_federation"
proof -
  have ops: "parseOperators federation_json =
      Inr [\<lparr>op_id = ''op-1'', op_vizPubkey = ''VIZ1'', op_tonPubkey = [], op_solanaPubkey = []\<rparr>]"
    by (simp add: parseOperators_def federation_json_def parseOperator_def strOr_def nullish_def)
  have fees: "optSection parseManifestFees federation_json ''fees'' = Inr (fm_fees manifest_federation)"
    by (simp add: optSection_def federation_json_def parseManifestFees_def Let_def bigintOfString_def
        bigintOf_1000 manifest_federation_def)
  have rest: "optSection parseManifestGram federation_json ''gram'' = Inr (fm_gram manifest_federation)"
    "optSection parseManifestAccounts federation_json ''accounts'' = Inr (fm_accounts manifest_federation)"
    "optSection parseManifestRpc federation_json ''rpc'' = Inr None"
    by (simp_all add: optSection_def federation_json_def parseManifestGram_def parseManifestAccounts_def
        optStr_def nullish_def manifest_federation_def)
  have n: "getProp federation_json ''n'' = Inr (Some (VNum (DFin 1)))"
    "getProp federation_json ''threshold'' = Inr (Some (VNum (DFin 1)))"
    by (simp_all add: federation_json_def)
  show ?thesis
    by (simp add: parseManifest_def ops fees rest n checkFederation_def) (simp add: manifest_federation_def)
qed

lemma configFrom_example:
  assumes E: "\<And>name. name \<notin> {''FEE_BPS'', ''VIZ_SIGNING_WIF'', ''FED_KEYSTORE'', ''FED_KEYSTORE_PASSPHRASE'',
    ''VIZ_MEMO_WIF_GRAM''} \<Longrightarrow> E name = None"
  shows "\<exists>c. configFrom J E manifest_federation = Inr c \<and> gc_federation c = manifest_federation \<and>
    vs_signingWif (gc_viz c) = envOpt E ''VIZ_SIGNING_WIF'' [] \<and> vs_memoWifs (gc_viz c) = memoWifsFor E manifest_federation"
proof -
  let ?S = "{''FEE_BPS'', ''VIZ_SIGNING_WIF'', ''FED_KEYSTORE'', ''FED_KEYSTORE_PASSPHRASE'', ''VIZ_MEMO_WIF_GRAM''}"
  have i: "envInt E name d = Inr d" if "name \<notin> ?S" for name d
    using E [OF that] by (simp add: envInt_def envSet_def)
  have o: "envOpt E name d = d" if "name \<notin> ?S" for name d
    using E [OF that] by (simp add: envOpt_def envSet_def)
  have b: "envBig E name v = Inr (int (undec v))" if "name \<notin> ?S" "allDigits v" for name v
    using o [OF that(1)] that(2) by (simp add: envBig_def bigintOfString_def bigintOf_allDigits)
  have caps: "\<exists>x. loadCaps E = Inr x"
    by (simp add: loadCaps_def b allDigits_def isDigit_def)
  have recon: "\<exists>x. loadRecon E = Inr x"
    by (simp add: loadRecon_def i b allDigits_def isDigit_def)
  have gram: "\<exists>x. loadGram E manifest_federation = Inr x"
    by (simp add: loadGram_def i manifest_federation_def orElse_def b allDigits_def isDigit_def)
  have sol: "\<exists>x. loadSolana J E = Inr x"
    using E by (simp add: loadSolana_def i solanaSecret_def)
  have fees: "\<exists>x. loadFees E manifest_federation = Inr x"
    by (simp add: loadFees_def manifest_federation_def Let_def deriveFloorMilliViz_def roundDouble_def
        bigintOfDouble_def)
  have rest: "\<exists>x. loadApproveTimeouts E = Inr x" "\<exists>f. \<forall>bu. loadDispatcher E bu = Inr (f bu)" "\<exists>x. loadRegistration E = Inr x"
    by (simp_all add: loadApproveTimeouts_def loadDispatcher_def loadRegistration_def i) fast
  show ?thesis
    using caps recon gram sol fees rest
    by (auto simp: configFrom_def i loadViz_def)
qed

lemma loadConfig_example:
  assumes "\<And>name. name \<notin> {''FEE_BPS'', ''VIZ_MEMO_WIF_GRAM''} \<Longrightarrow> E name = None"
  shows "\<exists>c. loadConfig keyCrypto_example (machine_example E) = Inr c \<and> gc_federation c = manifest_federation"
proof -
  have hyd: "hydrateKeystore keyCrypto_example (machine_example E) = Inr E"
    using assms [of "''FED_KEYSTORE''"] by (simp add: hydrateKeystore_def machine_example_def)
  have "loadFederation keyCrypto_example (mc_files (machine_example E)) E = Inr manifest_federation"
    using assms by (simp add: loadFederation_def envFederation_def envInt_def envSet_def envOpt_def
        machine_example_def keyCrypto_example_def parseManifest_example)
  with hyd configFrom_example [of E "kc_parse keyCrypto_example"] assms show ?thesis
    by (auto simp: loadConfig_def)
qed

theorem loaded_federation_wellformed_witness:
  "\<exists>c. loadConfig keyCrypto_example (machine_example Map.empty) = Inr c \<and>
     int (length (fm_operators (gc_federation c))) = fm_n (gc_federation c) \<and> fm_n (gc_federation c) = 1"
proof -
  obtain c where c: "loadConfig keyCrypto_example (machine_example Map.empty) = Inr c"
    "gc_federation c = manifest_federation"
    using loadConfig_example [of Map.empty] by auto
  from loaded_federation_wellformed [OF c(1)] c show ?thesis
    by (intro exI [of _ c]) (simp add: manifest_federation_def)
qed

text \<open>
  C33. Two operators whose services read the same manifest with pinned fees run with the same fee
  constants and so with the same fee policy for every chain, whatever their own environments say;
  and the backing accounts, the multisig and the minter address the manifest pins are the same too.
\<close>

theorem same_manifest_same_terms:
  assumes "loadConfig C\<^sub>1 m\<^sub>1 = Inr c\<^sub>1" "loadConfig C\<^sub>2 m\<^sub>2 = Inr c\<^sub>2"
    "gc_federation c\<^sub>1 = gc_federation c\<^sub>2" "fm_fees (gc_federation c\<^sub>1) \<noteq> None"
  shows "gc_fees c\<^sub>1 = gc_fees c\<^sub>2 \<and>
    (\<forall>chain \<in> {GRAM, SOLANA}. chainPinned (gc_federation c\<^sub>1) chain \<longrightarrow>
       map_of (vs_gatewayAccounts (gc_viz c\<^sub>1)) chain = map_of (vs_gatewayAccounts (gc_viz c\<^sub>2)) chain) \<and>
    (\<forall>g a. fm_gram (gc_federation c\<^sub>1) = Some g \<longrightarrow> mg_multisigAddress g = Some a \<longrightarrow>
       gs_multisigAddress (gc_gram c\<^sub>1) = a \<and> gs_multisigAddress (gc_gram c\<^sub>2) = a) \<and>
    (\<forall>g a. fm_gram (gc_federation c\<^sub>1) = Some g \<longrightarrow> mg_jettonMinterAddress g = Some a \<longrightarrow>
       gs_jettonMinterAddress (gc_gram c\<^sub>1) = a \<and> gs_jettonMinterAddress (gc_gram c\<^sub>2) = a)"
proof -
  define fed where "fed = gc_federation c\<^sub>1"
  have parts: "\<exists>E. loadFees E fed = Inr (gc_fees c) \<and> loadViz E fed = Inr (gc_viz c) \<and>
      loadGram E fed = Inr (gc_gram c)" if "loadConfig C m = Inr c" "gc_federation c = fed" for C m c
    using loadConfig_Inr [OF that(1)] configFrom_parts that(2) by metis
  obtain E\<^sub>1 E\<^sub>2 where 1: "loadFees E\<^sub>1 fed = Inr (gc_fees c\<^sub>1)" "loadViz E\<^sub>1 fed = Inr (gc_viz c\<^sub>1)"
      "loadGram E\<^sub>1 fed = Inr (gc_gram c\<^sub>1)"
    and 2: "loadFees E\<^sub>2 fed = Inr (gc_fees c\<^sub>2)" "loadViz E\<^sub>2 fed = Inr (gc_viz c\<^sub>2)"
      "loadGram E\<^sub>2 fed = Inr (gc_gram c\<^sub>2)"
    using parts [OF assms(1)] parts [OF assms(2)] assms(3) by (auto simp: fed_def)
  obtain mf where mf: "fm_fees fed = Some mf" using assms(4) by (auto simp: fed_def)
  have "gc_fees c\<^sub>1 = gc_fees c\<^sub>2" using loadFees_pinned [OF mf, of E\<^sub>1 E\<^sub>2] 1(1) 2(1) by simp
  moreover have "map_of (vs_gatewayAccounts (gc_viz c\<^sub>1)) chain = map_of (vs_gatewayAccounts (gc_viz c\<^sub>2)) chain"
    if "chain \<in> {GRAM, SOLANA}" "chainPinned fed chain" for chain
    using that gateAccount_pinned [OF that(2), of E\<^sub>1 E\<^sub>2] loadViz_accounts [OF 1(2)] loadViz_accounts [OF 2(2)]
    by auto
  ultimately show ?thesis
    using loadGram_addresses [OF 1(3)] loadGram_addresses [OF 2(3)] by (auto simp: fed_def pinnedOr_Some)
qed

theorem same_manifest_same_terms_witness:
  "\<exists>c\<^sub>1 c\<^sub>2. loadConfig keyCrypto_example (machine_example Map.empty) = Inr c\<^sub>1 \<and>
     loadConfig keyCrypto_example (machine_example [''FEE_BPS'' \<mapsto> ''99'']) = Inr c\<^sub>2 \<and> gc_fees c\<^sub>1 = gc_fees c\<^sub>2 \<and>
     gs_multisigAddress (gc_gram c\<^sub>2) = ''EQm''"
proof -
  obtain c\<^sub>1 c\<^sub>2 where c: "loadConfig keyCrypto_example (machine_example Map.empty) = Inr c\<^sub>1"
    "gc_federation c\<^sub>1 = manifest_federation"
    "loadConfig keyCrypto_example (machine_example [''FEE_BPS'' \<mapsto> ''99'']) = Inr c\<^sub>2"
    "gc_federation c\<^sub>2 = manifest_federation"
    using loadConfig_example [of Map.empty] loadConfig_example [of "[''FEE_BPS'' \<mapsto> ''99'']"] by auto
  from same_manifest_same_terms [OF c(1,3)] c show ?thesis
    by (intro exI [of _ c\<^sub>1] exI [of _ c\<^sub>2]) (simp add: manifest_federation_def)
qed

text \<open>
  C34. A sealed key store gives the service exactly the secrets that were sealed into it: when the
  passphrase the start gets, from \<open>FED_KEYSTORE_PASSPHRASE\<close> or else from the terminal, is that of the
  seal, every variable that was not set before carries the sealed secret of that name (the memo key of
  a chain under \<open>VIZ_MEMO_WIF_<CHAIN>\<close>), a variable that was set keeps its value, and a name that
  carries no secret is as it was.
\<close>

theorem sealed_keys_reach_config:
  assumes "sealKeystore C s pass kdf salt iv = Inr k" "opensWhatItSealed C s" "objectKeys s"
    "validKdf kdf" "salt \<noteq> []" "iv \<noteq> []"
    "mc_env m ''FED_KEYSTORE'' = Some path" "trim path \<noteq> []" "mc_files m path = Some content"
    "kc_parse C content = Inr (keystoreVal k)" "keystorePassphrase m = Inr pass"
  shows "\<exists>E. hydrateKeystore C m = Inr E \<and>
    (\<forall>name. envSet E name = (case envSet (mc_env m) name of Some v \<Rightarrow> Some v
                             | None \<Rightarrow> secretFor (presentSecrets s) name))"
  using assms(7-11) openKeystore_seal [OF assms(2,4-6,1)] envSet_setSecrets [OF refl assms(3)]
  by (simp add: hydrateKeystore_def)

theorem sealed_keys_reach_config_witness:
  "\<exists>E. hydrateKeystore keyCrypto_example (machine_example
       [''FED_KEYSTORE'' \<mapsto> ''k.json'', ''FED_KEYSTORE_PASSPHRASE'' \<mapsto> ''pw'', ''VIZ_SIGNING_WIF'' \<mapsto> ''5X'']) = Inr E \<and>
     envSet E ''VIZ_SIGNING_WIF'' = Some ''5X'' \<and> envSet E ''VIZ_MEMO_WIF_GRAM'' = Some ''5M'' \<and>
     envSet E ''SOLANA_SIGNER_SECRET'' = None"
proof -
  let ?m = "machine_example
    [''FED_KEYSTORE'' \<mapsto> ''k.json'', ''FED_KEYSTORE_PASSPHRASE'' \<mapsto> ''pw'', ''VIZ_SIGNING_WIF'' \<mapsto> ''5X'']"
  have p: "presentSecrets secrets_example = \<lparr>sec_vizSigningWif = Some ''5K'', sec_gramSignerMnemonic = None,
     sec_solanaSignerSecret = None, sec_vizMemoWifs = Some [(''GRAM'', ''5M'')]\<rparr>"
    by (simp add: presentSecrets_def secrets_example_def nonEmptyStr_def nonEmptyWifs_def)
  have seal: "sealKeystore keyCrypto_example secrets_example ''pw'' DEFAULT_KDF ''s'' ''i'' = Inr keystore_example"
    by (simp add: sealKeystore_def p noSecrets_def deriveKey_def keyCrypto_example_def keystore_example_def)
  have laws: "opensWhatItSealed keyCrypto_example secrets_example"
    by (simp add: opensWhatItSealed_def keyCrypto_example_def)
  have "trim ''k.json'' = ''k.json''" by (rule trim_id) (simp add: isSpace_def)
  then obtain E where "hydrateKeystore keyCrypto_example ?m = Inr E"
    "\<forall>name. envSet E name = (case envSet (mc_env ?m) name of Some v \<Rightarrow> Some v
                             | None \<Rightarrow> secretFor (presentSecrets secrets_example) name)"
    using sealed_keys_reach_config [OF seal laws, of ?m "''k.json''" "''k''"]
    by (auto simp: machine_example_def keyCrypto_example_def objectKeys_def secrets_example_def validKdf_def
        DEFAULT_KDF_def keystorePassphrase_def)
  then show ?thesis
    by (intro exI [of _ E]) (simp add: machine_example_def p secretFor_def startsWith_def)
qed

section \<open>Deviations\<close>

text \<open>
  A passphrase typed at the terminal loses everything but the position of its bytes outside ASCII:
  two of them that differ only there are the same passphrase. In an environment variable they differ.
\<close>

lemma ttyLine_Cons:
  "ttyLine (c # cs) = (if c = CHR 0x0A \<or> c = CHR 0x0D then [] else decodeByte c @ ttyLine cs)"
  by (simp add: ttyLine_def)

lemma high_byte:
  assumes "128 \<le> (of_char c :: nat)"
  shows "decodeByte c = [CHR 0xEF, CHR 0xBF, CHR 0xBD]" and "c \<noteq> CHR 0x0A" and "c \<noteq> CHR 0x0D"
  using assms by (auto simp: decodeByte_def)

lemma typed_passphrase_collapses:
  assumes "list_all2 (\<lambda>c d. c = d \<or> 128 \<le> (of_char c :: nat) \<and> 128 \<le> (of_char d :: nat)) p q"
  shows "ttyLine p = ttyLine q"
  using assms
proof (induction p q rule: list_all2_induct)
  case Nil
  then show ?case by simp
next
  case (Cons c cs d ds)
  from Cons(1) show ?case
  proof
    assume "c = d"
    with Cons show ?thesis by (simp only: ttyLine_Cons)
  next
    assume "128 \<le> (of_char c :: nat) \<and> 128 \<le> (of_char d :: nat)"
    then show ?thesis
      using high_byte [of c] high_byte [of d] Cons by (simp only: ttyLine_Cons)
  qed
qed

text \<open>An integer with trailing text is accepted, without the text.\<close>

lemma env_integer_ignores_suffix:
  "envInt [''GRAM_RPC_TIMEOUT_MS'' \<mapsto> ''30s''] ''GRAM_RPC_TIMEOUT_MS'' 30000 = Inr 30"
  by (simp add: envInt_def parseInt10_def Let_def isSpace_def isDigit_def undec_def digitVal_def)

text \<open>A node list of separators only gives no node at all instead of the default or an error.\<close>

lemma separators_give_no_node:
  "vizNodeUrls [''VIZ_NODE_URL'' \<mapsto> '' , ''] fed = [] \<and> firstOf (vizNodeUrls [''VIZ_NODE_URL'' \<mapsto> '' , ''] fed) = None"
  by (simp add: vizNodeUrls_def envOpt_def splitList_def dedupe_def isSpace_def trim_def firstOf_def)

text \<open>Without overrides the dispatcher waits out a round in which every signer uses its whole ceiling.\<close>

lemma default_budget_covers_round:
  assumes "loadConfig C m = Inr c" "hydrateKeystore C m = Inr E"
    "\<forall>name \<in> {''DISPATCHER_SUBMIT_TIMEOUT_MS'', ''DISPATCHER_SIGNING_TIMEOUT_MS'',
       ''DISPATCHER_SIGNING_TIMEOUT_PEG_IN_MS''}. envSet E name = None"
  shows "ds_submitTimeoutMs (gc_dispatcher c) =
      int (length (fm_operators (gc_federation c))) * tmo_pegIn (cs_signerApproveTimeoutMs (gc_coordinator c)) + 120000 \<and>
    tmo_pegIn (ds_signingTimeoutMs (gc_dispatcher c)) = ds_submitTimeoutMs (gc_dispatcher c)"
proof -
  from loadConfig_Inr [OF assms(1)] assms(2) obtain fed where
    "loadFederation C (mc_files m) E = Inr fed" and cf: "configFrom (kc_parse C) E fed = Inr c" by auto
  then have n: "int (length (fm_operators fed)) = fm_n fed" using loadFederation_wf by (simp add: federationWf_def)
  have unset: "envInt E name d = Inr d" if "envSet E name = None" for name d
    using that by (simp add: envInt_def)
  have "ds_submitTimeoutMs ds = budget \<and> tmo_pegIn (ds_signingTimeoutMs ds) = budget"
    if "loadDispatcher E budget = Inr ds" for budget ds
    using that assms(3) unfolding loadDispatcher_def by (auto simp: err_simps unset)
  from this [OF configFrom_parts(6) [OF cf]] configFrom_parts(1) [OF cf] n show ?thesis
    by (simp add: pegInOrchestrationBudgetMs_def)
qed

end
