(* ===== verification/Rotation.thy ===== *)
theory Rotation
  imports Config
begin

text \<open>
  Rotation of the operator set: \<open>packages/common/src/rotation.ts\<close> and the VIZ side of the
  operator's command line, \<open>setup-viz/src/rotate.ts\<close>. A proposal is a JSON file that passes from
  operator to operator, so the parts that the code reads without checking their type are JSON
  values. SHA-256, the JSON text codec, \<open>localeCompare\<close>, \<open>Date.parse\<close> and the
  signature of viz-js-lib are arguments; console output is left out.
\<close>

section \<open>The operator specification\<close>

definition parseOperatorEntry :: "string \<Rightarrow> OperatorRef result" where
  "parseOperatorEntry entry =
     (case indexOf entry (CHR ''='') of
        None \<Rightarrow> Inl (GenericError (''operator entry missing '' @ ''=: '' @ entry))
      | Some eq \<Rightarrow>
          (let id = trim (take eq entry);
               parts = map trim (splitOn (CHR '':'') (trim (drop (Suc eq) entry)));
               check = (\<lambda>v t s. if id = [] \<or> v = [] \<or> t = []
                  then Inl (GenericError (''operator entry incomplete (id, vizPub, tonPub required): '' @ entry))
                  else Inr \<lparr>op_id = id, op_vizPubkey = v, op_tonPubkey = t, op_solanaPubkey = s\<rparr>)
           in case parts of
                [v, t] \<Rightarrow> check v t []
              | [v, t, s] \<Rightarrow> check v t s
              | _ \<Rightarrow> Inl (GenericError (''operator entry needs vizPub:tonPub[:solanaPub] (2 or 3 fields): '' @ entry))))"

definition parseOperatorSpec :: "string \<Rightarrow> OperatorRef list result" where
  "parseOperatorSpec spec = mapIdxE (\<lambda>_. parseOperatorEntry) 0 (commaList spec)"

definition serializeOperator :: "OperatorRef \<Rightarrow> string" where
  "serializeOperator o' = op_id o' @ ''='' @ op_vizPubkey o' @ '':'' @ op_tonPubkey o' @
     (if op_solanaPubkey o' = [] then [] else '':'' @ op_solanaPubkey o')"

definition serializeOperators :: "OperatorRef list \<Rightarrow> string" where
  "serializeOperators ops = joinWith '','' (map serializeOperator ops)"

section \<open>Authorities\<close>

text \<open>The threshold is whatever number the caller has: from a file or from \<open>parseInt\<close>, so NaN too.\<close>

record RotationAuthority =
  ra_weight_threshold :: double
  ra_account_auths :: "(string \<times> int) list"
  ra_key_auths :: "(string \<times> int) list"

fun dblLess :: "double \<Rightarrow> double \<Rightarrow> bool" where
  "dblLess DNaN _ \<longleftrightarrow> False"
| "dblLess _ DNaN \<longleftrightarrow> False"
| "dblLess (DFin a) (DFin b) \<longleftrightarrow> a < b"
| "dblLess (DInf s) (DInf t) \<longleftrightarrow> s \<and> \<not> t"
| "dblLess (DInf s) (DFin b) \<longleftrightarrow> s"
| "dblLess (DFin a) (DInf t) \<longleftrightarrow> \<not> t"

definition buildActiveAuthority :: "OperatorRef list \<Rightarrow> double \<Rightarrow> RotationAuthority result" where
  "buildActiveAuthority ops threshold =
     (let keys = map op_vizPubkey ops
      in bindE (throwIf (dblLess threshold (DFin 1)) (GenericError ''threshold must be >= 1'')) (\<lambda>_.
         bindE (throwIf (dblLess (DFin (of_nat (length ops))) threshold)
           (GenericError ''threshold exceeds operator count'')) (\<lambda>_.
         bindE (throwIf (\<not> distinct keys) (GenericError ''duplicate vizPubkey in operator set'')) (\<lambda>_.
         Inr \<lparr>ra_weight_threshold = threshold, ra_account_auths = [],
              ra_key_auths = map (\<lambda>k. (k, 1)) (sort keys)\<rparr>))))"

definition pairVal :: "string \<times> int \<Rightarrow> jsval" where
  "pairVal p = VArr [VStr (fst p), VNum (DFin (of_int (snd p)))]"

definition authorityVal :: "RotationAuthority \<Rightarrow> jsval" where
  "authorityVal a = VObj [(''weight_threshold'', VNum (ra_weight_threshold a)),
     (''account_auths'', VArr (map pairVal (ra_account_auths a))),
     (''key_auths'', VArr (map pairVal (ra_key_auths a)))]"

text \<open>The stable sort of \<open>Array.prototype.sort\<close> under a comparison.\<close>

fun insertBy :: "('a \<Rightarrow> 'a \<Rightarrow> bool) \<Rightarrow> 'a \<Rightarrow> 'a list \<Rightarrow> 'a list" where
  "insertBy le x [] = [x]"
| "insertBy le x (y # ys) = (if le x y then x # y # ys else y # insertBy le x ys)"

definition sortBy :: "('a \<Rightarrow> 'a \<Rightarrow> bool) \<Rightarrow> 'a list \<Rightarrow> 'a list" where
  "sortBy le xs = foldr (insertBy le) xs []"

text \<open>The node functions the rotation uses: SHA-256 in hex, the JSON text, \<open>localeCompare(a, b) <= 0\<close>.\<close>

record RotationLib =
  rl_sha256Hex :: "string \<Rightarrow> string"
  rl_stringify :: "jsval \<Rightarrow> string"
  rl_localeLe :: "string \<Rightarrow> string \<Rightarrow> bool"
  rl_dateParse :: "string \<Rightarrow> int option"
  rl_toISOString :: "int \<Rightarrow> string"

definition authorityHash :: "RotationLib \<Rightarrow> RotationAuthority \<Rightarrow> string" where
  "authorityHash L auth =
     (let le = (\<lambda>a b. rl_localeLe L (fst a) (fst b))
      in rl_sha256Hex L (rl_stringify L (authorityVal
           (auth\<lparr>ra_account_auths := sortBy le (ra_account_auths auth),
                 ra_key_auths := sortBy le (ra_key_auths auth)\<rparr>))))"

definition buildRotationOp :: "string \<Rightarrow> OperatorRef list \<Rightarrow> double \<Rightarrow> string \<Rightarrow> string \<Rightarrow> jsval result" where
  "buildRotationOp account ops threshold memoKey jsonMetadata =
     bindE (buildActiveAuthority ops threshold) (\<lambda>auth.
       Inr (VArr [VStr ''account_update'',
         VObj [(''account'', VStr account), (''active'', authorityVal auth), (''regular'', authorityVal auth),
               (''memo_key'', VStr memoKey), (''json_metadata'', VStr jsonMetadata)]]))"

section \<open>Proposals\<close>

record TaPoS =
  tp_refBlockNum :: int
  tp_refBlockPrefix :: int
  tp_expiration :: string

record RotationVizTx =
  rv_ref_block_num :: int
  rv_ref_block_prefix :: int
  rv_expiration :: string
  rv_operations :: jsval
  rv_extensions :: jsval
  rv_signatures :: "string list"

record RotationProposal =
  rp_version :: double
  rp_chainId :: string
  rp_newOperators :: "OperatorRef list"
  rp_newThreshold :: double
  rp_currentActiveHash :: string
  rp_vizTx :: RotationVizTx

record BuildProposalArgs =
  bp_chainId :: string
  bp_account :: string
  bp_newOperators :: "OperatorRef list"
  bp_newThreshold :: double
  bp_memoKey :: string
  bp_jsonMetadata :: string
  bp_currentActiveHash :: string
  bp_taPoS :: TaPoS

definition buildProposal :: "BuildProposalArgs \<Rightarrow> RotationProposal result" where
  "buildProposal a =
     bindE (buildRotationOp (bp_account a) (bp_newOperators a) (bp_newThreshold a) (bp_memoKey a)
         (bp_jsonMetadata a)) (\<lambda>op.
       Inr \<lparr>rp_version = DFin 1, rp_chainId = bp_chainId a, rp_newOperators = bp_newOperators a,
            rp_newThreshold = bp_newThreshold a, rp_currentActiveHash = bp_currentActiveHash a,
            rp_vizTx = \<lparr>rv_ref_block_num = tp_refBlockNum (bp_taPoS a),
              rv_ref_block_prefix = tp_refBlockPrefix (bp_taPoS a), rv_expiration = tp_expiration (bp_taPoS a),
              rv_operations = VArr [op], rv_extensions = VArr [], rv_signatures = []\<rparr>\<rparr>)"

text \<open>
  \<open>JSON.stringify(a) === JSON.stringify(b)\<close> on values read from JSON: the text determines the value
  up to the numbers JSON cannot write, which become \<open>null\<close>.
\<close>

fun jsonNorm :: "jsval \<Rightarrow> jsval" where
  "jsonNorm (VNum (DFin a)) = VNum (DFin a)"
| "jsonNorm (VNum d) = VNull"
| "jsonNorm (VArr xs) = VArr (map jsonNorm xs)"
| "jsonNorm (VObj kv) = VObj (map (\<lambda>p. (fst p, jsonNorm (snd p))) kv)"
| "jsonNorm v = v"

definition sameJson :: "jsval \<Rightarrow> jsval \<Rightarrow> bool" where
  "sameJson v w \<longleftrightarrow> jsonNorm v = jsonNorm w"

text \<open>\<open>x[i]\<close>: an element of an array, a character of a string, the property of that name.\<close>

definition getIdx :: "jsval \<Rightarrow> nat \<Rightarrow> jsval option result" where
  "getIdx v i =
     (case v of
        VNull \<Rightarrow> Inl (GenericError ''TypeError: Cannot read properties of null'')
      | VArr xs \<Rightarrow> Inr (if i < length xs then Some (xs ! i) else None)
      | VStr s \<Rightarrow> Inr (if i < length s then Some (VStr [s ! i]) else None)
      | VObj kv \<Rightarrow> Inr (map_of kv (decNat i))
      | _ \<Rightarrow> Inr None)"

definition validateOp :: "RotationProposal \<Rightarrow> jsval \<Rightarrow> unit result" where
  "validateOp p fileOp =
     bindE (if truthyVal (Some fileOp) then getIdx fileOp 0 else Inr None) (\<lambda>name.
     bindE (throwIf (name \<noteq> Some (VStr ''account_update'')) (GenericError ''proposal op is not account_update'')) (\<lambda>_.
     bindE (getIdx fileOp 1) (\<lambda>body.
     bindE (getPropOpt body ''master'') (\<lambda>master.
     bindE (throwIf (master \<noteq> None) (GenericError ''proposal op must not change master'')) (\<lambda>_.
     bindE (getPropOpt body ''account'') (\<lambda>account.
     bindE (getPropOpt body ''memo_key'') (\<lambda>memoKey.
     bindE (getPropOpt body ''json_metadata'') (\<lambda>jsonMetadata.
     bindE (buildRotationOp (strOr account) (rp_newOperators p) (rp_newThreshold p) (strOr memoKey)
       (strOr jsonMetadata)) (\<lambda>expected.
     throwIf (\<not> sameJson expected fileOp)
       (GenericError ''proposal op does not match newOperators/newThreshold (tampered or stale)''))))))))))"

definition validateExpiry :: "RotationLib \<Rightarrow> RotationProposal \<Rightarrow> int \<Rightarrow> bool \<Rightarrow> unit result" where
  "validateExpiry L p nowMs skipExpiry =
     (case rl_dateParse L (rv_expiration (rp_vizTx p) @ ''Z'') of
        None \<Rightarrow> Inl (GenericError ''bad expiration'')
      | Some expMs \<Rightarrow> throwIf (\<not> skipExpiry \<and> expMs \<le> nowMs)
          (GenericError ''proposal expired (re-run propose for a fresh TaPoS window)''))"

definition validateProposal :: "RotationLib \<Rightarrow> RotationProposal \<Rightarrow> string \<Rightarrow> int \<Rightarrow> bool \<Rightarrow> unit result" where
  "validateProposal L p chainId nowMs skipExpiry =
     bindE (throwIf (rp_version p \<noteq> DFin 1) (GenericError ''unsupported proposal version'')) (\<lambda>_.
     bindE (throwIf (rp_chainId p \<noteq> chainId) (GenericError ''proposal chainId mismatch'')) (\<lambda>_.
     bindE (case rv_operations (rp_vizTx p) of
         VArr [op] \<Rightarrow> Inr op
       | _ \<Rightarrow> Inl (GenericError ''proposal must contain exactly one operation'')) (\<lambda>fileOp.
     bindE (throwIf (rv_extensions (rp_vizTx p) \<noteq> VArr []) (GenericError ''proposal vizTx.extensions must be empty'')) (\<lambda>_.
     bindE (validateOp p fileOp) (\<lambda>_.
     validateExpiry L p nowMs skipExpiry)))))"

definition addPartial :: "RotationProposal \<Rightarrow> string \<Rightarrow> RotationProposal" where
  "addPartial p signature =
     (if signature \<in> set (rv_signatures (rp_vizTx p)) then p
      else p\<lparr>rp_vizTx := (rp_vizTx p)\<lparr>rv_signatures := rv_signatures (rp_vizTx p) @ [signature]\<rparr>\<rparr>)"

text \<open>The checkpoint of a rotation; a patch names the fields it sets.\<close>

record RotationState =
  st_proposalFile :: string
  st_vizDone :: bool
  st_tonOrderAddress :: string
  st_tonDone :: bool
  st_solanaNewMultisig :: string
  st_solanaDone :: bool

record StateUpdate =
  up_proposalFile :: "string option"
  up_vizDone :: "bool option"
  up_tonOrderAddress :: "string option"
  up_tonDone :: "bool option"
  up_solanaNewMultisig :: "string option"
  up_solanaDone :: "bool option"

definition noUpdate :: StateUpdate where
  "noUpdate = \<lparr>up_proposalFile = None, up_vizDone = None, up_tonOrderAddress = None, up_tonDone = None,
     up_solanaNewMultisig = None, up_solanaDone = None\<rparr>"

definition overlay :: "'a \<Rightarrow> 'a option \<Rightarrow> 'a" where
  "overlay old new = (case new of None \<Rightarrow> old | Some v \<Rightarrow> v)"

definition mergeState :: "RotationState \<Rightarrow> StateUpdate \<Rightarrow> RotationState" where
  "mergeState s u =
     \<lparr>st_proposalFile = overlay (st_proposalFile s) (up_proposalFile u),
      st_vizDone = overlay (st_vizDone s) (up_vizDone u),
      st_tonOrderAddress = overlay (st_tonOrderAddress s) (up_tonOrderAddress u),
      st_tonDone = overlay (st_tonDone s) (up_tonDone u),
      st_solanaNewMultisig = overlay (st_solanaNewMultisig s) (up_solanaNewMultisig u),
      st_solanaDone = overlay (st_solanaDone s) (up_solanaDone u)\<rparr>"

section \<open>The command line: propose, co-sign, broadcast\<close>

text \<open>The gateway account as the node reports it, and the head of the chain (the block id as bytes).\<close>

record GatewayAccountView =
  gv_active :: RotationAuthority
  gv_memo_key :: string
  gv_json_metadata :: string

record ChainHead =
  ch_head_block_number :: int
  ch_head_block_id :: "nat list"

definition freshTaPoS :: "RotationLib \<Rightarrow> ChainHead \<Rightarrow> int \<Rightarrow> TaPoS result" where
  "freshTaPoS L h nowMs =
     (let b = ch_head_block_id h
      in if length b < 8 then Inl (GenericError ''RangeError: out of range'')
         else Inr \<lparr>tp_refBlockNum = ch_head_block_number h mod 65536,
                   tp_refBlockPrefix = int (b ! 4 + 256 * (b ! 5) + 65536 * (b ! 6) + 16777216 * (b ! 7)),
                   tp_expiration = take 19 (rl_toISOString L (nowMs + 55 * 60000))\<rparr>)"

text \<open>
  One partial: \<open>signTransaction\<close> on the transaction without signatures, of which the last one is
  the operator's. \<open>sign\<close> is the library call; it gets the whole transaction.
\<close>

type_synonym tx_sign = "RotationVizTx \<Rightarrow> string \<Rightarrow> string list result"

definition unsignedTx :: "RotationProposal \<Rightarrow> RotationVizTx" where
  "unsignedTx p = (rp_vizTx p)\<lparr>rv_signatures := []\<rparr>"

definition signPartial :: "tx_sign \<Rightarrow> RotationProposal \<Rightarrow> string \<Rightarrow> RotationProposal result" where
  "signPartial sign p wif =
     bindE (sign (unsignedTx p) wif) (\<lambda>sigs.
       if sigs = [] \<or> last sigs = [] then Inl (GenericError ''signTransaction produced no signature'')
       else Inr (addPartial p (last sigs)))"

record RotationCli =
  cli_chainId :: string
  cli_gateway :: string
  cli_wif :: string
  cli_nowMs :: int

definition propose ::
  "RotationLib \<Rightarrow> tx_sign \<Rightarrow> RotationCli \<Rightarrow> string option \<Rightarrow> string option \<Rightarrow>
   GatewayAccountView option result \<Rightarrow> ChainHead result \<Rightarrow> RotationProposal result" where
  "propose L sign cli operatorsArg thresholdArg readAccount readHead =
     bindE (throwIf (\<not> truthy operatorsArg \<or> \<not> truthy thresholdArg)
       (GenericError ''propose needs --operators and --threshold'')) (\<lambda>_.
     bindE (throwIf (cli_wif cli = []) (GenericError ''VIZ_SIGNING_WIF is required to propose'')) (\<lambda>_.
     bindE (parseOperatorSpec (the operatorsArg)) (\<lambda>newOperators.
     let newThreshold = (case parseInt10 (the thresholdArg) of None \<Rightarrow> DNaN | Some n \<Rightarrow> DFin (of_int n)) in
     bindE (buildActiveAuthority newOperators newThreshold) (\<lambda>_.
     bindE readAccount (\<lambda>acct. case acct of
         None \<Rightarrow> Inl (GenericError ''gateway account not found'')
       | Some account \<Rightarrow>
     bindE readHead (\<lambda>h.
     bindE (freshTaPoS L h (cli_nowMs cli)) (\<lambda>taPoS.
     bindE (buildProposal \<lparr>bp_chainId = cli_chainId cli, bp_account = cli_gateway cli,
         bp_newOperators = newOperators, bp_newThreshold = newThreshold, bp_memoKey = gv_memo_key account,
         bp_jsonMetadata = gv_json_metadata account,
         bp_currentActiveHash = authorityHash L (gv_active account), bp_taPoS = taPoS\<rparr>) (\<lambda>proposal.
     signPartial sign proposal (cli_wif cli)))))))))"

text \<open>
  \<open>coSign\<close>: \<open>None\<close> is the run without \<open>CONFIRM=1\<close>, which shows the set and signs nothing. The
  listing against the local manifest goes to the console only.
\<close>

definition coSign ::
  "RotationLib \<Rightarrow> tx_sign \<Rightarrow> RotationCli \<Rightarrow> bool \<Rightarrow> bool \<Rightarrow> RotationProposal result \<Rightarrow> RotationProposal option result" where
  "coSign L sign cli fileGiven confirm readFile =
     bindE (throwIf (\<not> fileGiven) (GenericError ''co-sign needs a proposal file path'')) (\<lambda>_.
     bindE (throwIf (cli_wif cli = []) (GenericError ''VIZ_SIGNING_WIF is required to co-sign'')) (\<lambda>_.
     bindE readFile (\<lambda>proposal.
     bindE (validateProposal L proposal (cli_chainId cli) (cli_nowMs cli) False) (\<lambda>_.
     if \<not> confirm then Inr None
     else bindE (signPartial sign proposal (cli_wif cli)) (\<lambda>updated. Inr (Some updated))))))"

definition diffOperators :: "string list \<Rightarrow> OperatorRef list \<Rightarrow> string" where
  "diffOperators prevKeys nxt =
     (let added = map op_id (filter (\<lambda>o'. op_vizPubkey o' \<notin> set prevKeys) nxt);
          removed = filter (\<lambda>k. k \<notin> set (map op_vizPubkey nxt)) prevKeys;
          names = joinWith '', '' added
      in ''added: ['' @ (if names = [] then ''none'' else names) @ '']  removed-keys: '' @ decNat (length removed))"

text \<open>The manifest that is written after the broadcast.\<close>

definition operatorVal :: "OperatorRef \<Rightarrow> jsval" where
  "operatorVal o' = VObj [(''id'', VStr (op_id o')), (''vizPubkey'', VStr (op_vizPubkey o')),
     (''tonPubkey'', VStr (op_tonPubkey o')), (''solanaPubkey'', VStr (op_solanaPubkey o'))]"

definition rotatedManifest :: "RotationProposal \<Rightarrow> jsval" where
  "rotatedManifest p = VObj [(''chainId'', VStr (rp_chainId p)),
     (''n'', VNum (DFin (of_nat (length (rp_newOperators p))))), (''threshold'', VNum (rp_newThreshold p)),
     (''operators'', VArr (map operatorVal (rp_newOperators p)))]"

text \<open>\<open>None\<close> is the dry run; otherwise the transaction that was broadcast and the two files.\<close>

definition broadcastViz ::
  "RotationLib \<Rightarrow> RotationCli \<Rightarrow> string \<Rightarrow> bool \<Rightarrow> RotationProposal result \<Rightarrow> GatewayAccountView option result \<Rightarrow>
   (RotationVizTx \<Rightarrow> unit result) \<Rightarrow> (RotationVizTx \<times> RotationState \<times> jsval) option result" where
  "broadcastViz L cli file apply readFile readAccount broadcast =
     bindE readFile (\<lambda>proposal.
     bindE (validateProposal L proposal (cli_chainId cli) (cli_nowMs cli) False) (\<lambda>_.
     bindE (throwIf (dblLess (DFin (of_nat (length (rv_signatures (rp_vizTx proposal))))) (rp_newThreshold proposal))
       (GenericError ''not enough partials collected'')) (\<lambda>_.
     bindE readAccount (\<lambda>acct. case acct of
         None \<Rightarrow> Inl (GenericError ''gateway account not found'')
       | Some account \<Rightarrow>
     bindE (throwIf (authorityHash L (gv_active account) \<noteq> rp_currentActiveHash proposal)
       (GenericError ''live active authority changed since propose'')) (\<lambda>_.
     if \<not> apply then Inr None
     else bindE (broadcast (rp_vizTx proposal)) (\<lambda>_.
       Inr (Some (rp_vizTx proposal,
         \<lparr>st_proposalFile = file, st_vizDone = True, st_tonOrderAddress = [], st_tonDone = False,
          st_solanaNewMultisig = [], st_solanaDone = False\<rparr>,
         rotatedManifest proposal))))))))"

section \<open>Validation is exact\<close>

fun nullFree :: "jsval \<Rightarrow> bool" where
  "nullFree VNull \<longleftrightarrow> False"
| "nullFree (VArr xs) \<longleftrightarrow> (\<forall>x \<in> set xs. nullFree x)"
| "nullFree (VObj kv) \<longleftrightarrow> (\<forall>p \<in> set kv. nullFree (snd p))"
| "nullFree v \<longleftrightarrow> True"

lemma jsonNorm_id: "nullFree (jsonNorm v) \<Longrightarrow> jsonNorm v = v"
  by (induction v rule: jsonNorm.induct) (auto intro: map_idI simp: prod_eq_iff)

lemma authorityVal_finite:
  assumes "ra_weight_threshold a = DFin t"
  shows "jsonNorm (authorityVal a) = authorityVal a \<and> nullFree (authorityVal a)"
  using assms by (auto simp: authorityVal_def pairVal_def)

lemma buildActiveAuthority_Inr:
  assumes "buildActiveAuthority ops t = Inr auth"
  shows "ra_weight_threshold auth = t" and "ra_account_auths auth = []"
    and "ra_key_auths auth = map (\<lambda>k. (k, 1)) (sort (map op_vizPubkey ops))"
    and "distinct (map op_vizPubkey ops)"
    and "\<not> dblLess t (DFin 1)" and "\<not> dblLess (DFin (of_nat (length ops))) t"
  using assms by (auto simp: buildActiveAuthority_def Let_def err_simps)

lemma threshold_finite:
  assumes "buildActiveAuthority ops t = Inr auth" "t \<noteq> DNaN"
  shows "\<exists>r. t = DFin r \<and> 1 \<le> r \<and> r \<le> of_nat (length ops)"
  using buildActiveAuthority_Inr(5,6) [OF assms(1)] assms(2) by (cases t) auto

text \<open>The operation a rotation to this set may carry.\<close>

definition rotationOpFor :: "OperatorRef list \<Rightarrow> double \<Rightarrow> jsval \<Rightarrow> bool" where
  "rotationOpFor ops t op \<longleftrightarrow>
     (\<exists>account memoKey jsonMetadata. buildRotationOp account ops t memoKey jsonMetadata = Inr op)"

lemma sameJson_rotationOp:
  assumes "buildRotationOp account ops t memo meta = Inr expected" "t \<noteq> DNaN" "sameJson expected op"
  shows "op = expected"
proof -
  from assms(1) obtain auth where auth: "buildActiveAuthority ops t = Inr auth"
    and e: "expected = VArr [VStr ''account_update'', VObj [(''account'', VStr account),
      (''active'', authorityVal auth), (''regular'', authorityVal auth), (''memo_key'', VStr memo),
      (''json_metadata'', VStr meta)]]"
    by (auto simp: buildRotationOp_def err_simps)
  obtain r where "t = DFin r" using threshold_finite [OF auth assms(2)] by blast
  then have fin: "jsonNorm (authorityVal auth) = authorityVal auth \<and> nullFree (authorityVal auth)"
    using authorityVal_finite buildActiveAuthority_Inr(1) [OF auth] by simp
  then have ne: "jsonNorm expected = expected" "nullFree expected" by (auto simp: e)
  with assms(3) have "jsonNorm op = expected" by (simp add: sameJson_def)
  with ne(2) jsonNorm_id [of op] show ?thesis by simp
qed

lemma validateOp_exact:
  assumes "validateOp p op = Inr u" "rp_newThreshold p \<noteq> DNaN"
  shows "rotationOpFor (rp_newOperators p) (rp_newThreshold p) op"
proof -
  from assms(1) obtain account memo meta expected
    where "buildRotationOp account (rp_newOperators p) (rp_newThreshold p) memo meta = Inr expected"
      "sameJson expected op"
    unfolding validateOp_def bindE_eq_Inr throwIf_eq_Inr by blast
  with sameJson_rotationOp [OF _ assms(2)] show ?thesis unfolding rotationOpFor_def by blast
qed

lemma validateProposal_exact:
  assumes "validateProposal L p chainId now skip = Inr u" "rp_newThreshold p \<noteq> DNaN"
  shows "rp_chainId p = chainId \<and> rv_extensions (rp_vizTx p) = VArr [] \<and>
    (\<exists>op. rv_operations (rp_vizTx p) = VArr [op] \<and> rotationOpFor (rp_newOperators p) (rp_newThreshold p) op) \<and>
    validateExpiry L p now skip = Inr ()"
proof -
  from assms(1) obtain op where op: "(case rv_operations (rp_vizTx p) of VArr [op] \<Rightarrow> Inr op
       | _ \<Rightarrow> Inl (GenericError ''proposal must contain exactly one operation'')) = Inr op"
    "validateOp p op = Inr ()" "rv_extensions (rp_vizTx p) = VArr []" "rp_chainId p = chainId"
    "validateExpiry L p now skip = Inr ()"
    unfolding validateProposal_def bindE_eq_Inr throwIf_eq_Inr by auto
  from op(1) have "rv_operations (rp_vizTx p) = VArr [op]"
    by (auto split: jsval.splits list.splits)
  with op validateOp_exact [OF op(2) assms(2)] show ?thesis by blast
qed

lemma addPartial_fields [simp]:
  "rp_version (addPartial p s) = rp_version p" "rp_chainId (addPartial p s) = rp_chainId p"
  "rp_newOperators (addPartial p s) = rp_newOperators p" "rp_newThreshold (addPartial p s) = rp_newThreshold p"
  "unsignedTx (addPartial p s) = unsignedTx p"
  "set (rv_signatures (rp_vizTx (addPartial p s))) = insert s (set (rv_signatures (rp_vizTx p)))"
  by (auto simp: addPartial_def unsignedTx_def)

lemma addPartial_vizTx [simp]:
  "rv_operations (rp_vizTx (addPartial p s)) = rv_operations (rp_vizTx p)"
  "rv_extensions (rp_vizTx (addPartial p s)) = rv_extensions (rp_vizTx p)"
  "rv_expiration (rp_vizTx (addPartial p s)) = rv_expiration (rp_vizTx p)"
  by (simp_all add: addPartial_def)

lemma addPartial_distinct:
  "distinct (rv_signatures (rp_vizTx p)) \<Longrightarrow> distinct (rv_signatures (rp_vizTx (addPartial p s)))"
  by (simp add: addPartial_def)

lemma validate_addPartial [simp]:
  "validateProposal L (addPartial p s) chainId now skip = validateProposal L p chainId now skip"
  by (simp add: validateProposal_def validateOp_def validateExpiry_def)

lemma strOr_VStr [simp]: "strOr (Some (VStr s)) = s"
  by (simp add: strOr_def nullish_def)

lemma buildProposal_valid:
  assumes b: "buildProposal a = Inr p" and e: "rl_dateParse L (tp_expiration (bp_taPoS a) @ ''Z'') = Some e"
    and now: "now < e"
  shows "validateProposal L p (bp_chainId a) now skip = Inr ()"
proof -
  from b obtain op where op: "buildRotationOp (bp_account a) (bp_newOperators a) (bp_newThreshold a)
      (bp_memoKey a) (bp_jsonMetadata a) = Inr op"
    and p: "rp_version p = DFin 1" "rp_chainId p = bp_chainId a" "rp_newOperators p = bp_newOperators a"
      "rp_newThreshold p = bp_newThreshold a" "rv_operations (rp_vizTx p) = VArr [op]"
      "rv_extensions (rp_vizTx p) = VArr []" "rv_expiration (rp_vizTx p) = tp_expiration (bp_taPoS a)"
    by (auto simp: buildProposal_def err_simps)
  from op obtain auth where o': "op = VArr [VStr ''account_update'', VObj [(''account'', VStr (bp_account a)),
      (''active'', authorityVal auth), (''regular'', authorityVal auth), (''memo_key'', VStr (bp_memoKey a)),
      (''json_metadata'', VStr (bp_jsonMetadata a))]]"
    by (auto simp: buildRotationOp_def err_simps)
  have "validateOp p op = Inr ()"
    using op by (simp add: validateOp_def getIdx_def p sameJson_def o')
  then show ?thesis by (simp add: validateProposal_def validateExpiry_def p e throwIf_def) (use now in simp)
qed

lemma validate_addPartials [simp]:
  "validateProposal L (foldl addPartial p sigs) chainId now skip = validateProposal L p chainId now skip"
  by (induction sigs arbitrary: p) simp_all

section \<open>Properties\<close>

text \<open>
  C35. The key of an operator who co-signs a rotation file signs one transaction only: the one with
  a single \<open>account_update\<close> and no extensions, that sets \<open>active\<close> and \<open>regular\<close> to exactly the
  operator set and threshold the file claims (sorted distinct keys of weight one, no account
  authorities, no \<open>master\<close> change, a threshold between 1 and the number of operators); it signs
  only after the confirmation, and the file gains nothing but that one signature.
\<close>

theorem cosigner_signs_only_claimed_set:
  assumes "coSign L sign cli fileGiven confirm (Inr p) = Inr (Some p')" "rp_newThreshold p \<noteq> DNaN"
  shows "confirm \<and> rp_chainId p = cli_chainId cli \<and>
    (\<exists>sigs. sign (unsignedTx p) (cli_wif cli) = Inr sigs \<and> sigs \<noteq> [] \<and> p' = addPartial p (last sigs)) \<and>
    rv_extensions (unsignedTx p) = VArr [] \<and>
    (\<exists>account memoKey jsonMetadata auth threshold.
       rv_operations (unsignedTx p) = VArr [VArr [VStr ''account_update'', VObj [(''account'', VStr account),
         (''active'', authorityVal auth), (''regular'', authorityVal auth), (''memo_key'', VStr memoKey),
         (''json_metadata'', VStr jsonMetadata)]]] \<and>
       ra_weight_threshold auth = rp_newThreshold p \<and> rp_newThreshold p = DFin threshold \<and>
       1 \<le> threshold \<and> threshold \<le> of_nat (length (rp_newOperators p)) \<and>
       ra_account_auths auth = [] \<and> ra_key_auths auth = map (\<lambda>k. (k, 1)) (sort (map op_vizPubkey (rp_newOperators p))) \<and>
       distinct (map op_vizPubkey (rp_newOperators p)))"
proof -
  from assms(1) have valid: "validateProposal L p (cli_chainId cli) (cli_nowMs cli) False = Inr ()"
    and c: confirm and s: "signPartial sign p (cli_wif cli) = Inr p'"
    by (auto simp: coSign_def err_simps split: if_splits)
  from s obtain sigs where sigs: "sign (unsignedTx p) (cli_wif cli) = Inr sigs" "sigs \<noteq> []" "p' = addPartial p (last sigs)"
    by (auto simp: signPartial_def err_simps split: if_splits)
  from validateProposal_exact [OF valid assms(2)] obtain op account memo meta
    where v: "rp_chainId p = cli_chainId cli" "rv_extensions (rp_vizTx p) = VArr []"
      "rv_operations (rp_vizTx p) = VArr [op]"
      and op: "buildRotationOp account (rp_newOperators p) (rp_newThreshold p) memo meta = Inr op"
    unfolding rotationOpFor_def by blast
  from op obtain auth where auth: "buildActiveAuthority (rp_newOperators p) (rp_newThreshold p) = Inr auth"
    and o': "op = VArr [VStr ''account_update'', VObj [(''account'', VStr account),
         (''active'', authorityVal auth), (''regular'', authorityVal auth), (''memo_key'', VStr memo),
         (''json_metadata'', VStr meta)]]"
    by (auto simp: buildRotationOp_def err_simps)
  from threshold_finite [OF auth assms(2)] obtain t where t: "rp_newThreshold p = DFin t" "1 \<le> t"
    "t \<le> of_nat (length (rp_newOperators p))" by blast
  have u: "rv_operations (unsignedTx p) = VArr [op]" "rv_extensions (unsignedTx p) = VArr []"
    using v by (simp_all add: unsignedTx_def)
  have ex: "\<exists>account memoKey jsonMetadata auth threshold.
       rv_operations (unsignedTx p) = VArr [VArr [VStr ''account_update'', VObj [(''account'', VStr account),
         (''active'', authorityVal auth), (''regular'', authorityVal auth), (''memo_key'', VStr memoKey),
         (''json_metadata'', VStr jsonMetadata)]]] \<and>
       ra_weight_threshold auth = rp_newThreshold p \<and> rp_newThreshold p = DFin threshold \<and>
       1 \<le> threshold \<and> threshold \<le> of_nat (length (rp_newOperators p)) \<and>
       ra_account_auths auth = [] \<and> ra_key_auths auth = map (\<lambda>k. (k, 1)) (sort (map op_vizPubkey (rp_newOperators p))) \<and>
       distinct (map op_vizPubkey (rp_newOperators p))"
    by (intro exI [of _ account] exI [of _ memo] exI [of _ meta] exI [of _ auth] exI [of _ t] conjI)
      (use u t o' buildActiveAuthority_Inr [OF auth] in simp_all)
  from c v(1) sigs u(2) ex show ?thesis by blast
qed

definition rotationLib_example :: RotationLib where
  "rotationLib_example = \<lparr>rl_sha256Hex = (\<lambda>s. s), rl_stringify = (\<lambda>v. ''h''), rl_localeLe = (\<lambda>a b. a \<le> b),
     rl_dateParse = (\<lambda>s. Some 1000), rl_toISOString = (\<lambda>n. [])\<rparr>"

definition rotationArgs_example :: BuildProposalArgs where
  "rotationArgs_example = \<lparr>bp_chainId = ''viz-gateway'', bp_account = ''gram.gate'',
     bp_newOperators = [\<lparr>op_id = ''op-1'', op_vizPubkey = ''VIZ1'', op_tonPubkey = ''aa'', op_solanaPubkey = []\<rparr>],
     bp_newThreshold = DFin 1, bp_memoKey = ''VIZm'', bp_jsonMetadata = [], bp_currentActiveHash = ''h'',
     bp_taPoS = \<lparr>tp_refBlockNum = 7, tp_refBlockPrefix = 9, tp_expiration = ''2026-01-01T00:00:00''\<rparr>\<rparr>"

definition cli_example :: RotationCli where
  "cli_example = \<lparr>cli_chainId = ''viz-gateway'', cli_gateway = ''gram.gate'', cli_wif = ''5K'', cli_nowMs = 10\<rparr>"

lemma rotationArgs_build: "\<exists>p. buildProposal rotationArgs_example = Inr p \<and> rp_newThreshold p = DFin 1"
  by (simp add: buildProposal_def rotationArgs_example_def buildRotationOp_def buildActiveAuthority_def)

theorem cosigner_signs_only_claimed_set_witness:
  "\<exists>p p'. coSign rotationLib_example (\<lambda>tx wif. Inr [''sig'']) cli_example True True (Inr p) = Inr (Some p') \<and>
     p' = addPartial p ''sig'' \<and> rp_chainId p = ''viz-gateway''"
proof -
  obtain p where p: "buildProposal rotationArgs_example = Inr p" "rp_newThreshold p = DFin 1"
    using rotationArgs_build by blast
  have "validateProposal rotationLib_example p (bp_chainId rotationArgs_example) 10 False = Inr ()"
    by (rule buildProposal_valid [OF p(1), where e = 1000]) (simp_all add: rotationLib_example_def)
  then have co: "coSign rotationLib_example (\<lambda>tx wif. Inr [''sig'']) cli_example True True (Inr p)
      = Inr (Some (addPartial p ''sig''))"
    by (simp add: coSign_def cli_example_def rotationArgs_example_def signPartial_def)
  from cosigner_signs_only_claimed_set [OF co] p(2) co show ?thesis
    by (intro exI [of _ p] exI [of _ "addPartial p ''sig''"]) (simp add: cli_example_def)
qed

text \<open>
  What \<open>propose\<close> builds is accepted by every co-signer of the same chain id until it expires,
  whatever partials have been appended to it in between.
\<close>

lemma built_proposal_accepted:
  assumes "buildProposal a = Inr p" "rl_dateParse L (tp_expiration (bp_taPoS a) @ ''Z'') = Some e" "now < e"
  shows "validateProposal L (foldl addPartial p sigs) (bp_chainId a) now False = Inr ()"
  using buildProposal_valid [OF assms] by simp

section \<open>Deviations\<close>

text \<open>
  The manifest written after a rotation has only the operator set: the pinned fees, addresses,
  accounts and endpoints of the old one are gone, and every service falls back to its environment.
\<close>

lemma rotation_unpins_terms:
  assumes "broadcastViz L cli file apply readFile readAccount broadcast = Inr (Some (tx, st, manifest))"
    "parseManifest manifest = Inr fed"
  shows "fm_fees fed = None \<and> fm_gram fed = None \<and> fm_accounts fed = None \<and> fm_rpc fed = None"
proof -
  from assms(1) obtain p where "manifest = rotatedManifest p"
    unfolding broadcastViz_def bindE_eq_Inr by (auto simp: err_simps split: option.splits if_splits)
  with assms(2) show ?thesis
    by (auto simp: parseManifest_def rotatedManifest_def optSection_def err_simps)
qed

text \<open>
  A rotation to a threshold above the number of current keys cannot be broadcast: the tool asks for
  as many partials as the new threshold, and only the current keys can give one each.
\<close>

lemma growing_rotation_blocked:
  assumes valid: "validateProposal L p (cli_chainId cli) (cli_nowMs cli) False = Inr ()"
    and sigs: "distinct (rv_signatures (rp_vizTx p))" "inj_on signer (set (rv_signatures (rp_vizTx p)))"
      "signer ` set (rv_signatures (rp_vizTx p)) \<subseteq> set (map fst (ra_key_auths (gv_active account)))"
    and t: "rp_newThreshold p = DFin t" "of_nat (length (ra_key_auths (gv_active account))) < t"
  shows "\<exists>e. broadcastViz L cli file apply (Inr p) (Inr (Some account)) broadcast = Inl e"
proof -
  have "length (rv_signatures (rp_vizTx p)) = card (signer ` set (rv_signatures (rp_vizTx p)))"
    using sigs(1,2) by (simp add: card_image distinct_card)
  also have "\<dots> \<le> card (set (map fst (ra_key_auths (gv_active account))))"
    by (rule card_mono [OF _ sigs(3)]) simp
  also have "\<dots> \<le> length (ra_key_auths (gv_active account))"
    using card_length [of "map fst (ra_key_auths (gv_active account))"] by simp
  finally have "(of_nat (length (rv_signatures (rp_vizTx p))) :: rat) < t"
    using t(2) by (metis of_nat_le_iff order_le_less_trans)
  then show ?thesis using valid t(1) by (simp add: broadcastViz_def)
qed

text \<open>
  The account, the memo key and the metadata are taken from the file: a co-signer accepts a rotation
  of any account, and with any memo key.
\<close>

lemma rotation_of_any_account_accepted:
  assumes "buildActiveAuthority ops t = Inr auth" "rl_dateParse L (tp_expiration tp @ ''Z'') = Some e" "now < e"
  shows "\<exists>p. buildProposal \<lparr>bp_chainId = c, bp_account = anyAccount, bp_newOperators = ops, bp_newThreshold = t,
      bp_memoKey = anyKey, bp_jsonMetadata = m, bp_currentActiveHash = h, bp_taPoS = tp\<rparr> = Inr p \<and>
    validateProposal L p c now False = Inr ()"
proof -
  let ?a = "\<lparr>bp_chainId = c, bp_account = anyAccount, bp_newOperators = ops, bp_newThreshold = t,
      bp_memoKey = anyKey, bp_jsonMetadata = m, bp_currentActiveHash = h, bp_taPoS = tp\<rparr>"
  obtain p where "buildProposal ?a = Inr p" using assms(1) by (simp add: buildProposal_def buildRotationOp_def)
  then show ?thesis using buildProposal_valid [of ?a p L e now False] assms(2,3) by auto
qed

text \<open>\<open>--threshold\<close> that is no number passes the early check of \<open>propose\<close>.\<close>

lemma nan_threshold_passes:
  "distinct (map op_vizPubkey ops) \<Longrightarrow> isOk (buildActiveAuthority ops DNaN)"
  by (simp add: buildActiveAuthority_def Let_def)

text \<open>The operator specification reads back what was printed, for fields without separators.\<close>

definition plainField :: "string \<Rightarrow> bool" where
  "plainField s \<longleftrightarrow> list_all (\<lambda>c. \<not> isSpace c \<and> c \<noteq> CHR '','' \<and> c \<noteq> CHR ''='' \<and> c \<noteq> CHR '':'') s"

definition plainOperator :: "OperatorRef \<Rightarrow> bool" where
  "plainOperator o' \<longleftrightarrow> op_id o' \<noteq> [] \<and> op_vizPubkey o' \<noteq> [] \<and> op_tonPubkey o' \<noteq> [] \<and>
     plainField (op_id o') \<and> plainField (op_vizPubkey o') \<and> plainField (op_tonPubkey o') \<and>
     plainField (op_solanaPubkey o')"

lemma trim_noSpace: "list_all (\<lambda>c. \<not> isSpace c) s \<Longrightarrow> trim s = s"
  using hd_in_set [of s] last_in_set [of s] by (intro trim_id) (auto simp: list_all_iff)

lemma plainField_facts:
  assumes "plainField s"
  shows "trim s = s" "CHR '','' \<notin> set s" "CHR ''='' \<notin> set s" "CHR '':'' \<notin> set s" "list_all (\<lambda>c. \<not> isSpace c) s"
proof -
  have sp: "list_all (\<lambda>c. \<not> isSpace c) s" using assms unfolding plainField_def list_all_iff by blast
  then show "list_all (\<lambda>c. \<not> isSpace c) s" "trim s = s" by (simp_all only: trim_noSpace)
  show "CHR '','' \<notin> set s" "CHR ''='' \<notin> set s" "CHR '':'' \<notin> set s"
    using assms unfolding plainField_def list_all_iff by blast+
qed

lemma serialize_noSpace: "plainOperator o' \<Longrightarrow> list_all (\<lambda>c. \<not> isSpace c) (serializeOperator o')"
  by (simp add: plainOperator_def serializeOperator_def plainField_facts(5)) (simp add: isSpace_def)

lemma parse_serializeOperator:
  assumes "plainOperator o'"
  shows "parseOperatorEntry (serializeOperator o') = Inr o'"
proof -
  define rest where "rest = op_vizPubkey o' @ '':'' @ op_tonPubkey o' @
     (if op_solanaPubkey o' = [] then [] else '':'' @ op_solanaPubkey o')"
  have f: "plainField (op_id o')" "plainField (op_vizPubkey o')" "plainField (op_tonPubkey o')"
    "plainField (op_solanaPubkey o')" using assms by (auto simp: plainOperator_def)
  have eq: "indexOf (serializeOperator o') (CHR ''='') = Some (length (op_id o'))"
    using indexOf_append [OF plainField_facts(3) [OF f(1)], of rest] by (simp add: serializeOperator_def rest_def)
  have "list_all (\<lambda>c. \<not> isSpace c) rest"
    using f [THEN plainField_facts(5)] by (simp add: rest_def isSpace_def)
  then have tr: "trim rest = rest" by (rule trim_noSpace)
  have drop: "drop (Suc (length (op_id o'))) (serializeOperator o') = rest"
    by (simp add: serializeOperator_def rest_def)
  have parts: "splitOn (CHR '':'') rest = (if op_solanaPubkey o' = [] then [op_vizPubkey o', op_tonPubkey o']
      else [op_vizPubkey o', op_tonPubkey o', op_solanaPubkey o'])"
    using f [THEN plainField_facts(4)] by (simp add: rest_def splitOn_append splitOn_fresh)
  show ?thesis
    using assms f [THEN plainField_facts(1)] unfolding parseOperatorEntry_def eq
    by (simp add: drop tr parts plainOperator_def) (simp add: serializeOperator_def f [THEN plainField_facts(1)])
qed

lemma parse_serializeOperators:
  assumes "\<forall>o' \<in> set ops. plainOperator o'" "ops \<noteq> []"
  shows "parseOperatorSpec (serializeOperators ops) = Inr ops"
proof -
  let ?ss = "map serializeOperator ops"
  have nocomma: "CHR '','' \<notin> set (serializeOperator o')" if "o' \<in> set ops" for o'
    using that assms(1) by (auto simp: plainOperator_def serializeOperator_def dest: plainField_facts(2))
  have "splitOn (CHR '','') (joinWith '','' ?ss) = ?ss"
    using assms(2) nocomma by (intro splitOn_joinWith) auto
  moreover have "map trim ?ss = ?ss"
    using assms(1) trim_noSpace [OF serialize_noSpace] by (intro map_idI) auto
  moreover have "filter (\<lambda>s. s \<noteq> []) ?ss = ?ss"
    by (simp add: filter_id_conv serializeOperator_def)
  ultimately have "commaList (serializeOperators ops) = ?ss" by (simp only: commaList_def serializeOperators_def)
  then have "parseOperatorSpec (serializeOperators ops) = mapIdxE (\<lambda>_. parseOperatorEntry) 0 ?ss"
    by (simp add: parseOperatorSpec_def)
  also have "\<dots> = Inr ops"
    using assms(1) parse_serializeOperator by (intro mapIdxE_inverse) auto
  finally show ?thesis .
qed

end
