(* ===== verification/RotationChains.thy ===== *)
theory RotationChains
  imports Rotation SolanaSign "HOL-Library.Multiset"
begin

text \<open>
  The other two sides of a rotation: the TON multisig (\<open>contracts/ton/src/tonRotation.ts\<close> and
  \<open>rotateTon.ts\<close>) and the Solana mint and freeze authority (\<open>contracts/solana/src/solanaRotation.ts\<close>
  and \<open>rotateSolana.ts\<close>). The operator set always comes from the VIZ proposal. The vendored multisig
  wrapper (order cells, getters, sends), the wallet contract and the Solana libraries are parameters;
  a command is a function of what it reads to what it sends and writes.
\<close>

section \<open>TON: the order\<close>

record UpdateRequest =
  ur_threshold :: double
  ur_signers :: "string list"
  ur_proposers :: "string list"

text \<open>
  \<open>Buffer.from(s, "hex")\<close>; the address of the V4 wallet of a public key; \<open>Multisig.packOrder\<close>;
  SHA-256 of a JSON value. A cell is compared by its content.
\<close>

record 'cell TonRotationLib =
  tl_hexBytes :: "string \<Rightarrow> string"
  tl_walletV4 :: "string \<Rightarrow> string"
  tl_packOrder :: "UpdateRequest list \<Rightarrow> 'cell result"

definition tonSignerAddress :: "'cell TonRotationLib \<Rightarrow> string \<Rightarrow> string result" where
  "tonSignerAddress T tonPubkeyHex =
     (let publicKey = tl_hexBytes T tonPubkeyHex
      in if length publicKey \<noteq> 32 then Inl (GenericError (''tonPubkey must be 32-byte ed25519 hex: '' @ tonPubkeyHex))
         else Inr (tl_walletV4 T publicKey))"

definition buildUpdateAction :: "'cell TonRotationLib \<Rightarrow> OperatorRef list \<Rightarrow> double \<Rightarrow> UpdateRequest result" where
  "buildUpdateAction T operators newThreshold =
     bindE (throwIf (dblLess newThreshold (DFin 1) \<or> dblLess (DFin (of_nat (length operators))) newThreshold)
       (GenericError ''threshold out of range'')) (\<lambda>_.
     bindE (mapE (\<lambda>o'. tonSignerAddress T (op_tonPubkey o')) operators) (\<lambda>signers.
     bindE (throwIf (\<not> distinct signers) (GenericError ''duplicate tonPubkey in operator set'')) (\<lambda>_.
     Inr \<lparr>ur_threshold = newThreshold, ur_signers = signers, ur_proposers = []\<rparr>)))"

definition packRotationOrder :: "'cell TonRotationLib \<Rightarrow> OperatorRef list \<Rightarrow> double \<Rightarrow> 'cell result" where
  "packRotationOrder T operators newThreshold =
     bindE (buildUpdateAction T operators newThreshold) (\<lambda>action. tl_packOrder T [action])"

definition validateTonOrder :: "'cell TonRotationLib \<Rightarrow> 'cell \<Rightarrow> RotationProposal \<Rightarrow> unit result" where
  "validateTonOrder T onchainOrder p =
     bindE (packRotationOrder T (rp_newOperators p) (rp_newThreshold p)) (\<lambda>expected.
       throwIf (onchainOrder \<noteq> expected)
         (GenericError ''TON order action does not match the proposal (tampered or stale)''))"

definition tonSignerSetHash :: "RotationLib \<Rightarrow> string list \<Rightarrow> double \<Rightarrow> string" where
  "tonSignerSetHash L signers threshold =
     rl_sha256Hex L (rl_stringify L (VObj [(''threshold'', VNum threshold), (''signers'', VArr (map VStr (sort signers)))]))"

definition sameSignerSet :: "string list \<Rightarrow> string list \<Rightarrow> bool" where
  "sameSignerSet a b = (if length a \<noteq> length b then False else sort a = sort b)"

section \<open>TON: the commands\<close>

record TonMultisigView =
  tm_nextOrderSeqno :: nat
  tm_threshold :: nat
  tm_signers :: "string list"

record 'cell TonOrderView =
  to_executed :: bool
  to_order :: "'cell option"
  to_signers :: "string list"
  to_approvals :: "bool list"
  to_expiration_date :: "int option"

text \<open>\<open>findIndex\<close>.\<close>

fun findIndexBy :: "('a \<Rightarrow> bool) \<Rightarrow> 'a list \<Rightarrow> nat option" where
  "findIndexBy P [] = None"
| "findIndexBy P (x # xs) = (if P x then Some 0 else map_option Suc (findIndexBy P xs))"

datatype SubmitTon =
    SubmitDryRun nat string
  | SubmitSent "UpdateRequest list" int nat RotationState

text \<open>
  \<open>submitTon\<close>: the state file is read only after the order has been sent. The expiry of the VIZ
  transaction is not checked on this side.
\<close>

definition emptyState :: RotationState where
  "emptyState = \<lparr>st_proposalFile = [], st_vizDone = False, st_tonOrderAddress = [], st_tonDone = False,
     st_solanaNewMultisig = [], st_solanaDone = False\<rparr>"

definition submitTon ::
  "RotationLib \<Rightarrow> 'cell TonRotationLib \<Rightarrow> RotationCli \<Rightarrow> int \<Rightarrow> string \<Rightarrow> bool \<Rightarrow> bool \<Rightarrow>
   RotationProposal result \<Rightarrow> TonMultisigView result \<Rightarrow> string result \<Rightarrow> (nat \<Rightarrow> string result) \<Rightarrow>
   (UpdateRequest list \<Rightarrow> int \<Rightarrow> nat \<Rightarrow> unit result) \<Rightarrow> RotationState option result \<Rightarrow> SubmitTon result" where
  "submitTon L T cli orderTtlSec file haveMultisig apply readProposal readMultisig wallet orderAddress sendNewOrder readState =
     bindE (throwIf (\<not> haveMultisig) (GenericError ''TON_MULTISIG_ADDRESS is required'')) (\<lambda>_.
     bindE readProposal (\<lambda>p.
     bindE (validateProposal L p (cli_chainId cli) (cli_nowMs cli) True) (\<lambda>_.
     bindE readMultisig (\<lambda>d.
     bindE wallet (\<lambda>me.
     case findIndexBy (\<lambda>s. s = me) (tm_signers d) of
       None \<Rightarrow> Inl (GenericError ''your wallet is not a current multisig signer'')
     | Some myIdx \<Rightarrow>
     bindE (buildUpdateAction T (rp_newOperators p) (rp_newThreshold p)) (\<lambda>action.
     bindE (orderAddress (tm_nextOrderSeqno d)) (\<lambda>orderAddr.
     if \<not> apply then Inr (SubmitDryRun (tm_nextOrderSeqno d) orderAddr)
     else
     (let expiration = cli_nowMs cli div 1000 + orderTtlSec in
     bindE (sendNewOrder [action] expiration myIdx) (\<lambda>_.
     bindE readState (\<lambda>st.
     Inr (SubmitSent [action] expiration myIdx
       (mergeState (case st of None \<Rightarrow> emptyState | Some s \<Rightarrow> s)
         (noUpdate\<lparr>up_proposalFile := Some file, up_tonOrderAddress := Some orderAddr, up_tonDone := Some False\<rparr>)))))))))))))"

datatype ApproveTon = TonAlreadyExecuted | TonAlreadyApproved | TonDryRun | TonApproved nat

definition approveTon ::
  "RotationLib \<Rightarrow> 'cell TonRotationLib \<Rightarrow> RotationCli \<Rightarrow> bool \<Rightarrow> bool \<Rightarrow> RotationProposal result \<Rightarrow>
   'cell TonOrderView result \<Rightarrow> string result \<Rightarrow> (nat \<Rightarrow> unit result) \<Rightarrow> ApproveTon result" where
  "approveTon L T cli orderGiven apply readProposal readOrder wallet sendApprove =
     bindE (throwIf (\<not> orderGiven) (GenericError ''approve-ton needs the order address'')) (\<lambda>_.
     bindE readProposal (\<lambda>p.
     bindE (validateProposal L p (cli_chainId cli) (cli_nowMs cli) True) (\<lambda>_.
     bindE readOrder (\<lambda>od.
     if to_executed od then Inr TonAlreadyExecuted
     else (case to_order od of
         None \<Rightarrow> Inl (GenericError ''order not initialized yet (proposer must submit-ton first)'')
       | Some cell \<Rightarrow>
     bindE (validateTonOrder T cell p) (\<lambda>_.
     bindE wallet (\<lambda>me.
     case findIndexBy (\<lambda>s. s = me) (to_signers od) of
       None \<Rightarrow> Inl (GenericError ''your wallet is not a signer on this order'')
     | Some myIdx \<Rightarrow>
         if myIdx < length (to_approvals od) \<and> to_approvals od ! myIdx then Inr TonAlreadyApproved
         else if (case to_expiration_date od of None \<Rightarrow> False | Some e \<Rightarrow> e < cli_nowMs cli div 1000)
           then Inl (GenericError ''[approve-ton] order expired'')
         else if \<not> apply then Inr TonDryRun
         else bindE (sendApprove myIdx) (\<lambda>_. Inr (TonApproved myIdx)))))))))"

text \<open>\<open>status\<close>: the new state if the rotation of the multisig has just been seen done.\<close>

definition statusTon ::
  "RotationLib \<Rightarrow> 'cell TonRotationLib \<Rightarrow> RotationCli \<Rightarrow> bool \<Rightarrow> RotationProposal result \<Rightarrow> TonMultisigView result \<Rightarrow>
   RotationState option result \<Rightarrow> (bool \<times> RotationState option) result" where
  "statusTon L T cli haveMultisig readProposal readMultisig readState =
     bindE (throwIf (\<not> haveMultisig) (GenericError ''TON_MULTISIG_ADDRESS is required'')) (\<lambda>_.
     bindE readProposal (\<lambda>p.
     bindE (validateProposal L p (cli_chainId cli) (cli_nowMs cli) True) (\<lambda>_.
     bindE readMultisig (\<lambda>d.
     bindE (mapE (\<lambda>o'. tonSignerAddress T (op_tonPubkey o')) (rp_newOperators p)) (\<lambda>expectedSigners.
     let tonDone = sameSignerSet (tm_signers d) expectedSigners \<and> DFin (of_nat (tm_threshold d)) = rp_newThreshold p in
     bindE readState (\<lambda>st0.
     let st = (case st0 of None \<Rightarrow> emptyState | Some s \<Rightarrow> s) in
     Inr (tonDone,
       if tonDone \<and> \<not> st_tonDone st then Some (mergeState st (noUpdate\<lparr>up_tonDone := Some True\<rparr>)) else None)))))))"

section \<open>Solana: the handoff transaction\<close>

record SolanaRotationProposal =
  hp_version :: double
  hp_chainId :: string
  hp_oldMultisig :: string
  hp_newMultisig :: string
  hp_mint :: string
  hp_nonceAccount :: string
  hp_nonceValue :: string
  hp_feePayer :: string
  hp_signers :: "string list"
  hp_messageB64 :: string
  hp_signatures :: "string list"

definition buildHandoffTx :: "Web3 \<Rightarrow> SolanaRotationProposal \<Rightarrow> SolTransaction result" where
  "buildHandoffTx w3 p =
     bindE (w3_publicKey w3 (hp_feePayer p)) (\<lambda>submitter.
     bindE (w3_publicKey w3 (hp_oldMultisig p)) (\<lambda>oldMs.
     bindE (w3_publicKey w3 (hp_newMultisig p)) (\<lambda>newMs.
     bindE (w3_publicKey w3 (hp_mint p)) (\<lambda>mint.
     bindE (mapE (w3_publicKey w3) (hp_signers p)) (\<lambda>multiSigners.
     bindE (w3_publicKey w3 (hp_nonceAccount p)) (\<lambda>nonce.
       Inr \<lparr>tx_feePayer = submitter, tx_recentBlockhash = hp_nonceValue p,
            tx_instructions = [NonceAdvance nonce submitter, SetAuthority mint oldMs MintTokens newMs multiSigners,
              SetAuthority mint oldMs FreezeAccount newMs multiSigners],
            tx_signatures = []\<rparr>))))))"

definition handoffMessageB64 :: "Web3 \<Rightarrow> SolanaRotationProposal \<Rightarrow> string result" where
  "handoffMessageB64 w3 p = bindE (buildHandoffTx w3 p) (w3_messageB64 w3)"

definition signHandoff :: "Web3 \<Rightarrow> SolanaRotationProposal \<Rightarrow> string \<Rightarrow> string result" where
  "signHandoff w3 p secretKey =
     bindE (handoffMessageB64 w3 p) (\<lambda>m.
     bindE (throwIf (m \<noteq> hp_messageB64 p) (GenericError ''rebuilt handoff message != proposal.messageB64; refusing to sign'')) (\<lambda>_.
     bindE (w3_keypair w3 secretKey) (\<lambda>member.
     bindE (throwIf (member \<notin> set (hp_signers p)) (GenericError ''signer is not in the current multisig signer set'')) (\<lambda>_.
     bindE (buildHandoffTx w3 p) (\<lambda>tx.
     bindE (w3_partialSign w3 tx secretKey) (\<lambda>tx'.
       case map_of (tx_signatures tx') member of
         None \<Rightarrow> Inl (GenericError ''partialSign produced no signature'')
       | Some sig \<Rightarrow> Inr (member @ '':'' @ sig)))))))"

fun addHandoffPartials :: "Web3 \<Rightarrow> SolanaRotationProposal \<Rightarrow> string list \<Rightarrow> SolTransaction \<Rightarrow> SolTransaction result" where
  "addHandoffPartials w3 p [] tx = Inr tx"
| "addHandoffPartials w3 p (entry # es) tx =
     (case indexOf entry (CHR '':'') of
        None \<Rightarrow> Inl (GenericError (''malformed partial entry: '' @ entry))
      | Some idx \<Rightarrow>
          if take idx entry \<notin> set (hp_signers p) then Inl (GenericError ''partial signer not in multisig signer set'')
          else bindE (w3_publicKey w3 (take idx entry)) (\<lambda>key.
               bindE (w3_addSignature w3 tx key (drop (idx + 1) entry)) (addHandoffPartials w3 p es)))"

definition buildSignedHandoffTx :: "Web3 \<Rightarrow> SolanaRotationProposal \<Rightarrow> string list \<Rightarrow> string \<Rightarrow> string result" where
  "buildSignedHandoffTx w3 p partials submitterSecret =
     bindE (buildHandoffTx w3 p) (\<lambda>tx.
     bindE (addHandoffPartials w3 p partials tx) (\<lambda>tx1.
     bindE (w3_keypair w3 submitterSecret) (\<lambda>_.
     bindE (w3_partialSign w3 tx1 submitterSecret) (\<lambda>tx2.
       if \<not> w3_verifySignatures w3 tx2
       then Inl (GenericError ''assembled handoff tx failed signature verification'')
       else w3_serialize w3 tx2))))"

text \<open>The members and threshold of an SPL multisig as the chain reports them: the first \<open>n\<close> of eleven.\<close>

record MultisigAccount =
  mx_n :: nat
  mx_m :: nat
  mx_slots :: "string list"

definition readMultisigMembers :: "MultisigAccount \<Rightarrow> string list \<times> nat" where
  "readMultisigMembers a = (take (mx_n a) (mx_slots a), mx_m a)"

definition validateHandoffProposal ::
  "Web3 \<Rightarrow> SolanaRotationProposal \<Rightarrow> RotationProposal \<Rightarrow> string list \<times> nat \<Rightarrow> unit result" where
  "validateHandoffProposal w3 p master onchain =
     bindE (throwIf (hp_version p \<noteq> DFin 1) (GenericError ''unsupported proposal version'')) (\<lambda>_.
     bindE (throwIf (hp_chainId p \<noteq> rp_chainId master) (GenericError ''proposal chainId mismatch'')) (\<lambda>_.
     bindE (handoffMessageB64 w3 p) (\<lambda>m.
     bindE (throwIf (m \<noteq> hp_messageB64 p) (GenericError ''rebuilt handoff bytes != proposal.messageB64 (tampered or stale)'')) (\<lambda>_.
     let expected = map op_solanaPubkey (rp_newOperators master) in
     bindE (throwIf ([] \<in> set expected) (GenericError ''master proposal has an operator without a solanaPubkey'')) (\<lambda>_.
     bindE (throwIf (DFin (of_nat (snd onchain)) \<noteq> rp_newThreshold master) (GenericError ''new multisig threshold mismatch'')) (\<lambda>_.
     throwIf (length expected \<noteq> length (fst onchain) \<or> sort expected \<noteq> sort (fst onchain))
       (GenericError ''new multisig members do not match the new operator set'')))))))"

section \<open>Solana: the commands\<close>

record SolanaRotationConfig =
  src_oldMultisig :: string
  src_mint :: string
  src_nonceAccount :: string
  src_submitterSecret :: "string option"
  src_signerSecret :: "string option"
  src_apply :: bool

text \<open>\<open>proposeSolana\<close>: \<open>None\<close> is the dry run; creating the new multisig is the only effect before the file.\<close>

definition proposeSolana ::
  "RotationLib \<Rightarrow> Web3 \<Rightarrow> RotationCli \<Rightarrow> SolanaRotationConfig \<Rightarrow> RotationProposal result \<Rightarrow>
   (string list \<Rightarrow> double \<Rightarrow> string result) \<Rightarrow> MultisigAccount result \<Rightarrow> string option result \<Rightarrow>
   SolanaRotationProposal option result" where
  "proposeSolana L w3 cli cfg readMaster createMultisig readOld readNonce =
     bindE (throwIf (src_oldMultisig cfg = [] \<or> src_mint cfg = [] \<or> src_nonceAccount cfg = [])
       (GenericError ''SOLANA_MULTISIG, SOLANA_WVIZ_MINT, SOLANA_ROTATION_NONCE_ACCOUNT are required'')) (\<lambda>_.
     case src_submitterSecret cfg of
       None \<Rightarrow> Inl (GenericError ''SOLANA_SUBMITTER_SECRET (proposer/submitter) is required'')
     | Some submitterSecret \<Rightarrow>
     bindE readMaster (\<lambda>master.
     bindE (validateProposal L master (cli_chainId cli) (cli_nowMs cli) True) (\<lambda>_.
     let newSolKeys = map op_solanaPubkey (rp_newOperators master) in
     bindE (throwIf ([] \<in> set newSolKeys) (GenericError ''master proposal has an operator without solanaPubkey'')) (\<lambda>_.
     bindE (throwIf (\<not> distinct newSolKeys) (GenericError ''duplicate solanaPubkey in new set'')) (\<lambda>_.
     bindE (w3_keypair w3 submitterSecret) (\<lambda>submitter.
     if \<not> src_apply cfg then Inr None
     else
     bindE (mapE (w3_publicKey w3) newSolKeys) (\<lambda>keys.
     bindE (createMultisig keys (rp_newThreshold master)) (\<lambda>newMultisig.
     bindE readOld (\<lambda>old.
     bindE readNonce (\<lambda>nonce. case nonce of
       None \<Rightarrow> Inl (GenericError ''rotation nonce account not found/initialized'')
     | Some nonceValue \<Rightarrow>
     (let draft = \<lparr>hp_version = DFin 1, hp_chainId = cli_chainId cli, hp_oldMultisig = src_oldMultisig cfg,
            hp_newMultisig = newMultisig, hp_mint = src_mint cfg, hp_nonceAccount = src_nonceAccount cfg,
            hp_nonceValue = nonceValue, hp_feePayer = submitter, hp_signers = sort (fst (readMultisigMembers old)),
            hp_messageB64 = [], hp_signatures = []\<rparr>
      in
     bindE (handoffMessageB64 w3 draft) (\<lambda>m.
     let proposal = draft\<lparr>hp_messageB64 := m\<rparr> in
     case src_signerSecret cfg of
       None \<Rightarrow> Inr (Some proposal)
     | Some secret \<Rightarrow>
     bindE (w3_keypair w3 secret) (\<lambda>member.
       if member \<in> set (hp_signers proposal)
       then bindE (signHandoff w3 proposal secret) (\<lambda>s. Inr (Some (proposal\<lparr>hp_signatures := [s]\<rparr>)))
       else Inr (Some proposal))))))))))))))"

definition coSignSolana ::
  "RotationLib \<Rightarrow> Web3 \<Rightarrow> RotationCli \<Rightarrow> SolanaRotationConfig \<Rightarrow> SolanaRotationProposal result \<Rightarrow> RotationProposal result \<Rightarrow>
   (string \<Rightarrow> MultisigAccount result) \<Rightarrow> SolanaRotationProposal result" where
  "coSignSolana L w3 cli cfg readSolana readMaster readMultisig =
     (case src_signerSecret cfg of
       None \<Rightarrow> Inl (GenericError ''SOLANA_SIGNER_SECRET (your member key) is required to co-sign'')
     | Some secret \<Rightarrow>
     bindE readSolana (\<lambda>p.
     bindE readMaster (\<lambda>master.
     bindE (validateProposal L master (cli_chainId cli) (cli_nowMs cli) True) (\<lambda>_.
     bindE (readMultisig (hp_newMultisig p)) (\<lambda>onchain.
     bindE (validateHandoffProposal w3 p master (readMultisigMembers onchain)) (\<lambda>_.
     bindE (w3_keypair w3 secret) (\<lambda>member.
       if list_ex (\<lambda>s. startsWith s (member @ '':'')) (hp_signatures p) then Inr p
       else bindE (signHandoff w3 p secret) (\<lambda>s. Inr (p\<lparr>hp_signatures := hp_signatures p @ [s]\<rparr>)))))))))"

text \<open>\<open>None\<close> is the dry run; otherwise the bytes that were sent and the new state.\<close>

definition broadcastSolana ::
  "RotationLib \<Rightarrow> Web3 \<Rightarrow> RotationCli \<Rightarrow> SolanaRotationConfig \<Rightarrow> string \<Rightarrow> SolanaRotationProposal result \<Rightarrow>
   RotationProposal result \<Rightarrow> (string \<Rightarrow> MultisigAccount result) \<Rightarrow> (string option \<times> string option) result \<Rightarrow>
   (string \<Rightarrow> unit result) \<Rightarrow> RotationState option result \<Rightarrow> (string \<times> RotationState) option result" where
  "broadcastSolana L w3 cli cfg masterFile readSolana readMaster readMultisig readMint sendRaw readState =
     (case src_submitterSecret cfg of
       None \<Rightarrow> Inl (GenericError ''SOLANA_SUBMITTER_SECRET is required to broadcast'')
     | Some secret \<Rightarrow>
     bindE readSolana (\<lambda>p.
     bindE readMaster (\<lambda>master.
     bindE (validateProposal L master (cli_chainId cli) (cli_nowMs cli) True) (\<lambda>_.
     bindE (throwIf (dblLess (DFin (of_nat (length (hp_signatures p)))) (rp_newThreshold master))
       (GenericError ''not enough partials collected'')) (\<lambda>_.
     bindE (readMultisig (hp_newMultisig p)) (\<lambda>onchain.
     bindE (validateHandoffProposal w3 p master (readMultisigMembers onchain)) (\<lambda>_.
     bindE readMint (\<lambda>(mintAuthority, freezeAuthority).
     bindE (throwIf (overlay [] mintAuthority \<noteq> hp_oldMultisig p \<or> overlay [] freezeAuthority \<noteq> hp_oldMultisig p)
       (GenericError ''live mint/freeze authority != old multisig'')) (\<lambda>_.
     if \<not> src_apply cfg then Inr None
     else bindE (buildSignedHandoffTx w3 p (hp_signatures p) secret) (\<lambda>raw.
     bindE (sendRaw raw) (\<lambda>_.
     bindE readState (\<lambda>st.
     Inr (Some (raw, mergeState (case st of None \<Rightarrow> emptyState | Some s \<Rightarrow> s)
       (noUpdate\<lparr>up_proposalFile := Some masterFile, up_solanaNewMultisig := Some (hp_newMultisig p),
                 up_solanaDone := Some True\<rparr>)))))))))))))))"

text \<open>
  \<open>status\<close>: whether the live mint authority is the recorded new multisig, the state that is written
  (only with \<open>--commit\<close>), and whether its members are those of the master proposal.
\<close>

definition statusSolana ::
  "SolanaRotationConfig \<Rightarrow> bool \<Rightarrow> RotationProposal result \<Rightarrow> string option result \<Rightarrow> RotationState option result \<Rightarrow>
   (string \<Rightarrow> MultisigAccount result) \<Rightarrow> (bool \<times> RotationState option \<times> bool option) result" where
  "statusSolana cfg commit readMaster readMintAuthority readState readMultisig =
     bindE (throwIf (src_mint cfg = []) (GenericError ''SOLANA_WVIZ_MINT is required'')) (\<lambda>_.
     bindE readMaster (\<lambda>master.
     bindE readMintAuthority (\<lambda>mintAuthority.
     bindE readState (\<lambda>found.
     let st = (case found of None \<Rightarrow> emptyState | Some s \<Rightarrow> s);
         expectedNew = st_solanaNewMultisig st;
         solanaDone = (expectedNew \<noteq> [] \<and> overlay [] mintAuthority = expectedNew);
         write = (if solanaDone \<and> \<not> st_solanaDone st \<and> commit
                  then Some (mergeState st (noUpdate\<lparr>up_solanaDone := Some True\<rparr>)) else None);
         members = (if expectedNew = [] then None
           else (case readMultisig expectedNew of
               Inl _ \<Rightarrow> None
             | Inr a \<Rightarrow> Some (sort (map op_solanaPubkey (rp_newOperators master)) = sort (fst (readMultisigMembers a)))))
     in Inr (solanaDone, write, members)))))"

section \<open>What is approved and signed\<close>

lemma findIndexBy_Some: "findIndexBy P xs = Some i \<Longrightarrow> i < length xs \<and> P (xs ! i)"
  by (induction xs arbitrary: i) (auto split: if_splits)

lemma sameSignerSet_iff: "sameSignerSet a b \<longleftrightarrow> mset a = mset b"
proof
  assume "sameSignerSet a b"
  then show "mset a = mset b" by (metis mset_sort sameSignerSet_def)
next
  assume "mset a = mset b"
  then show "sameSignerSet a b"
    by (auto simp: sameSignerSet_def dest: mset_eq_length intro: properties_for_sort [symmetric])
qed

text \<open>The order that sets the multisig to this operator set, and nothing else.\<close>

definition tonOrderFor :: "'cell TonRotationLib \<Rightarrow> OperatorRef list \<Rightarrow> double \<Rightarrow> 'cell \<Rightarrow> bool" where
  "tonOrderFor T ops t cell \<longleftrightarrow>
     (\<exists>signers. list_all2 (\<lambda>o' a. tonSignerAddress T (op_tonPubkey o') = Inr a) ops signers \<and> distinct signers \<and>
        tl_packOrder T [\<lparr>ur_threshold = t, ur_signers = signers, ur_proposers = []\<rparr>] = Inr cell)"

lemma validateTonOrder_exact:
  "validateTonOrder T cell p = Inr u \<Longrightarrow> tonOrderFor T (rp_newOperators p) (rp_newThreshold p) cell"
  by (auto simp: validateTonOrder_def packRotationOrder_def buildUpdateAction_def tonOrderFor_def err_simps mapE_Inr)

lemma approveTon_sent:
  assumes "approveTon L T cli og apply (Inr p) (Inr od) (Inr me) send = Inr (TonApproved i)"
  shows "validateProposal L p (cli_chainId cli) (cli_nowMs cli) True = Inr ()" and "send i = Inr ()"
    and "\<exists>cell. to_order od = Some cell \<and> tonOrderFor T (rp_newOperators p) (rp_newThreshold p) cell"
    and "i < length (to_signers od) \<and> to_signers od ! i = me" and "\<not> to_executed od"
proof -
  have ne: "\<not> to_executed od" using assms by (auto simp: approveTon_def err_simps split: if_splits)
  with assms obtain cell where c: "to_order od = Some cell"
    by (auto simp: approveTon_def err_simps split: option.splits)
  with assms ne obtain j where j: "findIndexBy (\<lambda>s. s = me) (to_signers od) = Some j"
    by (auto simp: approveTon_def err_simps split: option.splits)
  from assms ne c j have r: "validateProposal L p (cli_chainId cli) (cli_nowMs cli) True = Inr ()"
    "validateTonOrder T cell p = Inr ()" "send j = Inr () \<and> i = j"
    by (auto simp: approveTon_def err_simps split: if_splits)
  show "validateProposal L p (cli_chainId cli) (cli_nowMs cli) True = Inr ()" "send i = Inr ()" "\<not> to_executed od"
    "i < length (to_signers od) \<and> to_signers od ! i = me"
    "\<exists>cell. to_order od = Some cell \<and> tonOrderFor T (rp_newOperators p) (rp_newThreshold p) cell"
    using r ne c findIndexBy_Some [OF j] validateTonOrder_exact [OF r(2)] by auto
qed

text \<open>A transaction that moves the mint and the freeze authority of the mint, and nothing else.\<close>

definition handsOver :: "Web3 \<Rightarrow> SolTransaction \<Rightarrow> string \<Rightarrow> string \<Rightarrow> string \<Rightarrow> bool" where
  "handsOver w3 tx mint oldMultisig newMultisig \<longleftrightarrow>
     (\<exists>mintKey oldKey newKey nonce submitter ms.
        w3_publicKey w3 mint = Inr mintKey \<and> w3_publicKey w3 oldMultisig = Inr oldKey \<and>
        w3_publicKey w3 newMultisig = Inr newKey \<and>
        tx_instructions tx = [NonceAdvance nonce submitter, SetAuthority mintKey oldKey MintTokens newKey ms,
          SetAuthority mintKey oldKey FreezeAccount newKey ms])"

lemma buildHandoffTx_handsOver:
  "buildHandoffTx w3 p = Inr tx \<Longrightarrow> handsOver w3 tx (hp_mint p) (hp_oldMultisig p) (hp_newMultisig p)"
  by (auto simp: buildHandoffTx_def handsOver_def err_simps)

lemma signHandoff_ok:
  assumes "signHandoff w3 p secret = Inr s"
  shows "\<exists>tx member. buildHandoffTx w3 p = Inr tx \<and> w3_messageB64 w3 tx = Inr (hp_messageB64 p) \<and>
    w3_keypair w3 secret = Inr member \<and> member \<in> set (hp_signers p)"
  using assms by (auto simp: signHandoff_def handoffMessageB64_def err_simps)

lemma validateHandoff_exact:
  assumes "validateHandoffProposal w3 p master (members, threshold) = Inr u"
  shows "mset members = mset (map op_solanaPubkey (rp_newOperators master))"
    and "rp_newThreshold master = DFin (of_nat threshold)" and "hp_chainId p = rp_chainId master"
    and "[] \<notin> set members"
proof -
  have f: "sort (map op_solanaPubkey (rp_newOperators master)) = sort members"
    "rp_newThreshold master = DFin (of_nat threshold)" "hp_chainId p = rp_chainId master"
    "[] \<notin> set (map op_solanaPubkey (rp_newOperators master))"
    using assms by (auto simp: validateHandoffProposal_def err_simps Let_def)
  then show m: "mset members = mset (map op_solanaPubkey (rp_newOperators master))" by (metis mset_sort)
  show "rp_newThreshold master = DFin (of_nat threshold)" "hp_chainId p = rp_chainId master" by fact+
  show "[] \<notin> set members" using f(4) mset_eq_setD [OF m] by simp
qed

lemma coSignSolana_signed:
  assumes "coSignSolana L w3 cli cfg (Inr q) (Inr p) readMs = Inr q'" "q' \<noteq> q"
  shows "\<exists>secret acct s. src_signerSecret cfg = Some secret \<and> readMs (hp_newMultisig q) = Inr acct \<and>
    validateHandoffProposal w3 q p (readMultisigMembers acct) = Inr () \<and> signHandoff w3 q secret = Inr s \<and>
    q' = q\<lparr>hp_signatures := hp_signatures q @ [s]\<rparr>"
  using assms by (auto simp: coSignSolana_def err_simps split: option.splits if_splits)

section \<open>Properties\<close>

text \<open>
  C36. One rotation moves all three chains to one operator set. When an operator has approved the
  TON order of a proposal and has signed the Solana handoff of the same proposal, then the VIZ
  transaction of that proposal sets the authority to exactly its operators and threshold, the order
  that was approved sets the multisig to the wallets of exactly these operators with that threshold,
  and the handoff that was signed moves the mint and the freeze authority, and nothing else, to a
  multisig whose members on the chain are exactly the Solana keys of these operators with that
  threshold.
\<close>

theorem rotation_is_one_set_on_all_chains:
  assumes "approveTon L T cli og apply (Inr p) (Inr od) (Inr me) send = Inr (TonApproved i)"
    "coSignSolana L w3 cli cfg (Inr q) (Inr p) readMs = Inr q'" "q' \<noteq> q" "rp_newThreshold p \<noteq> DNaN"
  shows "(\<exists>op. rv_operations (rp_vizTx p) = VArr [op] \<and> rotationOpFor (rp_newOperators p) (rp_newThreshold p) op) \<and>
    (\<exists>cell. to_order od = Some cell \<and> tonOrderFor T (rp_newOperators p) (rp_newThreshold p) cell) \<and>
    (\<exists>tx acct. buildHandoffTx w3 q = Inr tx \<and> w3_messageB64 w3 tx = Inr (hp_messageB64 q) \<and>
       handsOver w3 tx (hp_mint q) (hp_oldMultisig q) (hp_newMultisig q) \<and> readMs (hp_newMultisig q) = Inr acct \<and>
       mset (fst (readMultisigMembers acct)) = mset (map op_solanaPubkey (rp_newOperators p)) \<and>
       rp_newThreshold p = DFin (of_nat (snd (readMultisigMembers acct))) \<and>
       1 \<le> snd (readMultisigMembers acct) \<and> snd (readMultisigMembers acct) \<le> length (rp_newOperators p))"
proof -
  note ton = approveTon_sent [OF assms(1)]
  from validateProposal_exact [OF ton(1) assms(4)] obtain op where viz: "rv_operations (rp_vizTx p) = VArr [op]"
    "rotationOpFor (rp_newOperators p) (rp_newThreshold p) op" by blast
  from coSignSolana_signed [OF assms(2,3)] obtain secret acct s where
    sol: "readMs (hp_newMultisig q) = Inr acct" "validateHandoffProposal w3 q p (readMultisigMembers acct) = Inr ()"
      "signHandoff w3 q secret = Inr s" by blast
  obtain members m where acct: "readMultisigMembers acct = (members, m)" by fastforce
  note h = validateHandoff_exact [OF sol(2) [unfolded acct]]
  obtain tx where tx: "buildHandoffTx w3 q = Inr tx" "w3_messageB64 w3 tx = Inr (hp_messageB64 q)"
    using signHandoff_ok [OF sol(3)] by blast
  from viz(2) obtain auth where auth: "buildActiveAuthority (rp_newOperators p) (rp_newThreshold p) = Inr auth"
    by (auto simp: rotationOpFor_def buildRotationOp_def err_simps)
  from threshold_finite [OF auth assms(4)] h(2) have "(1::rat) \<le> of_nat m" "(of_nat m :: rat) \<le> of_nat (length (rp_newOperators p))"
    by auto
  then have "1 \<le> m" "m \<le> length (rp_newOperators p)" using of_nat_le_iff [where 'a = rat] by auto
  then have ex: "\<exists>tx acct. buildHandoffTx w3 q = Inr tx \<and> w3_messageB64 w3 tx = Inr (hp_messageB64 q) \<and>
       handsOver w3 tx (hp_mint q) (hp_oldMultisig q) (hp_newMultisig q) \<and> readMs (hp_newMultisig q) = Inr acct \<and>
       mset (fst (readMultisigMembers acct)) = mset (map op_solanaPubkey (rp_newOperators p)) \<and>
       rp_newThreshold p = DFin (of_nat (snd (readMultisigMembers acct))) \<and>
       1 \<le> snd (readMultisigMembers acct) \<and> snd (readMultisigMembers acct) \<le> length (rp_newOperators p)"
    using tx buildHandoffTx_handsOver [OF tx(1)] sol(1) acct h by (intro exI [of _ tx] exI [of _ acct]) simp
  with viz ton(3) show ?thesis by blast
qed

definition rotation_operator :: OperatorRef where
  "rotation_operator = \<lparr>op_id = ''op-1'', op_vizPubkey = ''VIZ1'', op_tonPubkey = replicate 32 (CHR ''a''),
     op_solanaPubkey = ''S1''\<rparr>"

definition rotation_ton_example :: "UpdateRequest list TonRotationLib" where
  "rotation_ton_example = \<lparr>tl_hexBytes = (\<lambda>s. s), tl_walletV4 = (\<lambda>k. k), tl_packOrder = Inr\<rparr>"

definition ton_order_example :: "UpdateRequest list TonOrderView" where
  "ton_order_example = \<lparr>to_executed = False,
     to_order = Some [\<lparr>ur_threshold = DFin 1, ur_signers = [replicate 32 (CHR ''a'')], ur_proposers = []\<rparr>],
     to_signers = [''w0'', ''w1''], to_approvals = [True, False], to_expiration_date = None\<rparr>"

definition handoff_example :: SolanaRotationProposal where
  "handoff_example = \<lparr>hp_version = DFin 1, hp_chainId = ''viz-gateway'', hp_oldMultisig = ''OLD'', hp_newMultisig = ''NEW'',
     hp_mint = ''MINT'', hp_nonceAccount = ''NA'', hp_nonceValue = ''nv'', hp_feePayer = ''FP'', hp_signers = [''K''],
     hp_messageB64 = ''b'', hp_signatures = []\<rparr>"

definition handoff_web3 :: Web3 where
  "handoff_web3 = \<lparr>w3_publicKey = Inr, w3_ata = (\<lambda>m r. Inr m), w3_messageB64 = (\<lambda>tx. Inr ''b''),
     w3_keypair = Inr, w3_addSignature = (\<lambda>tx k sig. Inr tx),
     w3_partialSign = (\<lambda>tx s. Inr (tx\<lparr>tx_signatures := [(s, ''sig'')]\<rparr>)),
     w3_verifySignatures = (\<lambda>tx. True), w3_serialize = (\<lambda>tx. Inr [])\<rparr>"

definition handoff_config :: SolanaRotationConfig where
  "handoff_config = \<lparr>src_oldMultisig = ''OLD'', src_mint = ''MINT'', src_nonceAccount = ''NA'', src_submitterSecret = None,
     src_signerSecret = Some ''K'', src_apply = False\<rparr>"

theorem rotation_is_one_set_on_all_chains_witness:
  "\<exists>p cell tx. rp_newOperators p = [rotation_operator] \<and> tonOrderFor rotation_ton_example [rotation_operator] (DFin 1) cell \<and>
     handsOver handoff_web3 tx ''MINT'' ''OLD'' ''NEW'' \<and>
     validateProposal rotationLib_example p ''viz-gateway'' 10 True = Inr ()"
proof -
  let ?a = "rotationArgs_example\<lparr>bp_newOperators := [rotation_operator]\<rparr>"
  have "\<exists>p. buildProposal ?a = Inr p \<and> rp_newThreshold p = DFin 1 \<and> rp_newOperators p = [rotation_operator] \<and>
      rp_chainId p = ''viz-gateway''"
    by (simp add: buildProposal_def rotationArgs_example_def buildRotationOp_def buildActiveAuthority_def)
  then obtain p where p: "buildProposal ?a = Inr p" "rp_newThreshold p = DFin 1" "rp_newOperators p = [rotation_operator]"
    "rp_chainId p = ''viz-gateway''" by blast
  have "validateProposal rotationLib_example p (bp_chainId ?a) 10 True = Inr ()"
    by (rule buildProposal_valid [OF p(1), where e = 1000]) (simp_all add: rotationLib_example_def)
  then have v: "validateProposal rotationLib_example p ''viz-gateway'' 10 True = Inr ()"
    by (simp add: rotationArgs_example_def)
  have "packRotationOrder rotation_ton_example [rotation_operator] (DFin 1) = Inr (the (to_order ton_order_example))"
    by (simp add: packRotationOrder_def buildUpdateAction_def tonSignerAddress_def rotation_ton_example_def rotation_operator_def
        ton_order_example_def)
  then have order: "validateTonOrder rotation_ton_example (the (to_order ton_order_example)) p = Inr ()"
    by (simp add: validateTonOrder_def p)
  have ton: "approveTon rotationLib_example rotation_ton_example cli_example True True (Inr p) (Inr ton_order_example) (Inr ''w1'')
      (\<lambda>i. Inr ()) = Inr (TonApproved 1)"
    using order v by (simp add: approveTon_def ton_order_example_def cli_example_def)
  let ?acct = "\<lparr>mx_n = 1, mx_m = 1, mx_slots = [''S1'', ''x'']\<rparr>"
  have tx: "buildHandoffTx handoff_web3 handoff_example = Inr \<lparr>tx_feePayer = ''FP'', tx_recentBlockhash = ''nv'',
      tx_instructions = [NonceAdvance ''NA'' ''FP'', SetAuthority ''MINT'' ''OLD'' MintTokens ''NEW'' [''K''],
        SetAuthority ''MINT'' ''OLD'' FreezeAccount ''NEW'' [''K'']], tx_signatures = []\<rparr>"
    by (simp add: buildHandoffTx_def handoff_web3_def handoff_example_def)
  have hv: "validateHandoffProposal handoff_web3 handoff_example p (readMultisigMembers ?acct) = Inr ()"
    by (simp add: validateHandoffProposal_def handoffMessageB64_def tx p rotation_operator_def readMultisigMembers_def)
      (simp add: handoff_web3_def handoff_example_def)
  have sh: "signHandoff handoff_web3 handoff_example ''K'' = Inr ''K:sig''"
    by (simp add: signHandoff_def handoffMessageB64_def tx) (simp add: handoff_web3_def handoff_example_def)
  have "coSignSolana rotationLib_example handoff_web3 cli_example handoff_config (Inr handoff_example) (Inr p)
      (\<lambda>_. Inr ?acct) = Inr (handoff_example\<lparr>hp_signatures := [''K:sig'']\<rparr>)"
    using v hv sh by (simp add: coSignSolana_def handoff_config_def cli_example_def handoff_web3_def handoff_example_def)
  from rotation_is_one_set_on_all_chains [OF ton this] p
  have "(\<exists>cell. tonOrderFor rotation_ton_example [rotation_operator] (DFin 1) cell) \<and>
      (\<exists>tx. handsOver handoff_web3 tx (hp_mint handoff_example) (hp_oldMultisig handoff_example) (hp_newMultisig handoff_example))"
    by (auto simp: handoff_example_def)
  with p(3) v show ?thesis by (auto simp: handoff_example_def)
qed

text \<open>
  The address that \<open>submit-ton\<close> records is that of the next sequence number when it looked; the
  order it sends gets the next one when it arrives.
\<close>

lemma submitTon_records_early_address:
  assumes "submitTon L T cli ttl file hm apply rp (Inr d) w oa send rs = Inr (SubmitSent acts e i st)"
  shows "oa (tm_nextOrderSeqno d) = Inr (st_tonOrderAddress st)"
  using assms
  by (auto simp: submitTon_def Let_def err_simps noUpdate_def mergeState_def overlay_def split: option.splits if_splits)

end
