(* ===== verification/HttpBody.thy ===== *)
theory HttpBody
  imports JsValue
begin

text \<open>
  The bounded reader of request bodies: \<open>packages/common/src/http.ts\<close>. The stream, the timer and
  the client are a sequence of events; the promise of the code is settled at most once.
\<close>

section \<open>Bytes to text\<close>

text \<open>
  \<open>String(chunk)\<close>: a chunk is decoded as UTF-8 on its own. Every maximal part that is no valid
  sequence becomes U+FFFD. A lead byte determines how many bytes follow and the range of the first.
\<close>

definition byteOf :: "char \<Rightarrow> nat" where
  "byteOf c = of_char c"

definition utf8Lead :: "char \<Rightarrow> (nat \<times> nat \<times> nat) option" where
  "utf8Lead c =
     (let b = byteOf c in
      if b < 128 then Some (0, 0, 0)
      else if 194 \<le> b \<and> b \<le> 223 then Some (1, 128, 191)
      else if b = 224 then Some (2, 160, 191)
      else if b = 237 then Some (2, 128, 159)
      else if 225 \<le> b \<and> b \<le> 239 then Some (2, 128, 191)
      else if b = 240 then Some (3, 144, 191)
      else if 241 \<le> b \<and> b \<le> 243 then Some (3, 128, 191)
      else if b = 244 then Some (3, 128, 143)
      else None)"

fun utf8Tail :: "nat \<Rightarrow> nat \<Rightarrow> nat \<Rightarrow> string \<Rightarrow> string" where
  "utf8Tail 0 lo hi cs = []"
| "utf8Tail (Suc k) lo hi [] = []"
| "utf8Tail (Suc k) lo hi (c # cs) =
     (if lo \<le> byteOf c \<and> byteOf c \<le> hi then c # utf8Tail k 128 191 cs else [])"

definition replacement :: string where
  "replacement = [CHR 0xEF, CHR 0xBF, CHR 0xBD]"

function utf8Decode :: "string \<Rightarrow> string" where
  "utf8Decode [] = []"
| "utf8Decode (c # cs) =
     (case utf8Lead c of
        None \<Rightarrow> replacement @ utf8Decode cs
      | Some (k, lo, hi) \<Rightarrow>
          (let t = utf8Tail k lo hi cs
           in (if length t = k then c # t else replacement) @ utf8Decode (drop (length t) cs)))"
  by pat_completeness auto
termination by (relation "measure length") auto

lemma utf8Decode_ascii: "\<forall>c \<in> set s. byteOf c < 128 \<Longrightarrow> utf8Decode s = s"
  by (induction s) (simp_all add: utf8Lead_def)

section \<open>The limits\<close>

text \<open>\<open>envInt\<close> of this file: a positive finite number, rounded down, or the default.\<close>

definition limitOf :: "string option \<Rightarrow> int \<Rightarrow> int" where
  "limitOf v dflt =
     (case v of
        None \<Rightarrow> dflt
      | Some s \<Rightarrow> if s = [] then dflt
          else (case numberOf s of DFin a \<Rightarrow> if 0 < a then \<lfloor>a\<rfloor> else dflt | _ \<Rightarrow> dflt))"

section \<open>readLimitedBody\<close>

datatype BodyEvent = Data string | StreamEnd | StreamError string | Aborted | Timeout

record BodyReader =
  br_body :: string
  br_size :: nat
  br_outcome :: "string result option"
  br_destroyed :: bool

definition freshReader :: BodyReader where
  "freshReader = \<lparr>br_body = [], br_size = 0, br_outcome = None, br_destroyed = False\<rparr>"

definition settle :: "js_error option \<Rightarrow> BodyReader \<Rightarrow> BodyReader" where
  "settle err s =
     (if br_outcome s \<noteq> None then s
      else s\<lparr>br_outcome := Some (case err of None \<Rightarrow> Inr (br_body s) | Some e \<Rightarrow> Inl e)\<rparr>)"

definition TOO_LARGE :: js_error where
  "TOO_LARGE = BodyError ''request body exceeds the limit'' 413"

definition TIMED_OUT :: js_error where
  "TIMED_OUT = BodyError ''request body read timed out'' 408"

text \<open>A timer that was cleared does not fire.\<close>

fun bodyStep :: "int \<Rightarrow> BodyReader \<Rightarrow> BodyEvent \<Rightarrow> BodyReader" where
  "bodyStep maxBytes s (Data chunk) =
     (let s1 = s\<lparr>br_size := br_size s + length chunk\<rparr>
      in if maxBytes < int (br_size s1) then settle (Some TOO_LARGE) (s1\<lparr>br_destroyed := True\<rparr>)
         else s1\<lparr>br_body := br_body s1 @ utf8Decode chunk\<rparr>)"
| "bodyStep maxBytes s StreamEnd = settle None s"
| "bodyStep maxBytes s (StreamError e) = settle (Some (BodyError (''request stream error: '' @ e) 400)) s"
| "bodyStep maxBytes s Aborted = settle (Some (BodyError ''request aborted by client'' 400)) s"
| "bodyStep maxBytes s Timeout =
     (if br_outcome s \<noteq> None then s else settle (Some TIMED_OUT) (s\<lparr>br_destroyed := True\<rparr>))"

definition readLimitedBody :: "int \<Rightarrow> BodyEvent list \<Rightarrow> BodyReader" where
  "readLimitedBody maxBytes events = foldl (bodyStep maxBytes) freshReader events"

section \<open>The outcome\<close>

text \<open>What the first event that settles the read decides, from the bytes before it.\<close>

fun bodyOutcome :: "int \<Rightarrow> nat \<Rightarrow> string \<Rightarrow> BodyEvent list \<Rightarrow> string result option" where
  "bodyOutcome maxBytes n body [] = None"
| "bodyOutcome maxBytes n body (Data chunk # es) =
     (if maxBytes < int (n + length chunk) then Some (Inl TOO_LARGE)
      else bodyOutcome maxBytes (n + length chunk) (body @ utf8Decode chunk) es)"
| "bodyOutcome maxBytes n body (StreamEnd # es) = Some (Inr body)"
| "bodyOutcome maxBytes n body (StreamError e # es) = Some (Inl (BodyError (''request stream error: '' @ e) 400))"
| "bodyOutcome maxBytes n body (Aborted # es) = Some (Inl (BodyError ''request aborted by client'' 400))"
| "bodyOutcome maxBytes n body (Timeout # es) = Some (Inl TIMED_OUT)"

lemma settle_settled: "br_outcome s \<noteq> None \<Longrightarrow> br_outcome (settle e s) = br_outcome s"
  by (simp add: settle_def)

lemma bodyStep_settled: "br_outcome s \<noteq> None \<Longrightarrow> br_outcome (bodyStep m s e) = br_outcome s"
  by (cases e) (simp_all add: Let_def settle_settled)

lemma run_settled: "br_outcome s \<noteq> None \<Longrightarrow> br_outcome (foldl (bodyStep m) s es) = br_outcome s"
  by (induction es arbitrary: s) (simp_all add: bodyStep_settled)

lemma run_outcome:
  "br_outcome s = None \<Longrightarrow> br_outcome (foldl (bodyStep m) s es) = bodyOutcome m (br_size s) (br_body s) es"
proof (induction es arbitrary: s)
  case Nil
  then show ?case by simp
next
  case (Cons e es)
  show ?case
  proof (cases "br_outcome (bodyStep m s e) = None")
    case True
    then obtain chunk where "e = Data chunk" using Cons.prems by (cases e) (auto simp: settle_def)
    with True Cons show ?thesis by (auto simp: Let_def settle_def split: if_splits)
  next
    case False
    then have "br_outcome (foldl (bodyStep m) s (e # es)) = br_outcome (bodyStep m s e)"
      by (simp add: run_settled)
    with False Cons.prems show ?thesis by (cases e) (auto simp: Let_def settle_def split: if_splits)
  qed
qed

lemma readLimitedBody_outcome: "br_outcome (readLimitedBody m es) = bodyOutcome m 0 [] es"
  by (simp add: readLimitedBody_def run_outcome freshReader_def)

text \<open>The bytes that arrived as data before the end of the stream.\<close>

fun chunksBeforeEnd :: "BodyEvent list \<Rightarrow> string list" where
  "chunksBeforeEnd (Data chunk # es) = chunk # chunksBeforeEnd es"
| "chunksBeforeEnd _ = []"

lemma bodyOutcome_ok:
  assumes "bodyOutcome m n body es = Some (Inr b)"
  shows "b = body @ concat (map utf8Decode (chunksBeforeEnd es)) \<and>
    (int n \<le> m \<longrightarrow> int (n + sum_list (map length (chunksBeforeEnd es))) \<le> m)"
  using assms by (induction m n body es rule: bodyOutcome.induct) (auto split: if_splits)

lemma bodyOutcome_error:
  "bodyOutcome m n body es = Some (Inl e) \<Longrightarrow> \<exists>text' code. e = BodyError text' code \<and> code \<in> {400, 408, 413}"
  by (induction m n body es rule: bodyOutcome.induct) (auto simp: TOO_LARGE_def TIMED_OUT_def split: if_splits)

text \<open>What is held in memory never exceeds the limit, whatever the client sends and whenever.\<close>

fun acceptedBytes :: "int \<Rightarrow> nat \<Rightarrow> BodyEvent list \<Rightarrow> nat" where
  "acceptedBytes m n [] = 0"
| "acceptedBytes m n (Data chunk # es) =
     (if m < int (n + length chunk) then acceptedBytes m (n + length chunk) es
      else length chunk + acceptedBytes m (n + length chunk) es)"
| "acceptedBytes m n (_ # es) = acceptedBytes m n es"

lemma acceptedBytes_over: "m < int n \<Longrightarrow> acceptedBytes m n es = 0"
  by (induction m n es rule: acceptedBytes.induct) auto

lemma acceptedBytes_le: "int n \<le> m \<Longrightarrow> int (n + acceptedBytes m n es) \<le> m"
  by (induction m n es rule: acceptedBytes.induct) (auto simp: acceptedBytes_over)

lemma utf8Tail_length: "length (utf8Tail k lo hi cs) \<le> k \<and> length (utf8Tail k lo hi cs) \<le> length cs"
  by (induction k lo hi cs rule: utf8Tail.induct) auto

lemma utf8Decode_length: "length (utf8Decode s) \<le> 3 * length s"
proof (induction s rule: utf8Decode.induct)
  case 1
  then show ?case by simp
next
  case (2 c cs)
  show ?case
  proof (cases "utf8Lead c")
    case None
    with 2(1) show ?thesis by (simp add: replacement_def)
  next
    case (Some x)
    obtain k lo hi where x: "x = (k, lo, hi)" by (cases x)
    have t: "length (utf8Tail k lo hi cs) \<le> length cs" using utf8Tail_length by blast
    have "length (utf8Decode (drop (length (utf8Tail k lo hi cs)) cs)) \<le> 3 * (length cs - length (utf8Tail k lo hi cs))"
      using 2(2) Some x by simp
    with Some x t show ?thesis
      by (cases "length (utf8Tail k lo hi cs) = k") (simp_all add: Let_def replacement_def)
  qed
qed

lemma body_memory:
  "length (br_body (foldl (bodyStep m) s es)) \<le> length (br_body s) + 3 * acceptedBytes m (br_size s) es"
proof (induction es arbitrary: s)
  case Nil
  then show ?case by simp
next
  case (Cons e es)
  show ?case
  proof (cases e)
    case (Data chunk)
    show ?thesis
      using Cons [of "bodyStep m s e"] utf8Decode_length [of chunk] Data by (auto simp: Let_def settle_def)
  qed (use Cons [of "bodyStep m s e"] in \<open>auto simp: settle_def\<close>)
qed

section \<open>Properties\<close>

text \<open>
  C37. A request body is read within its bounds: whatever the client sends, in whatever order the
  end, an error, an abort or the deadline come in between, the read settles as its first settling
  event says and never changes again; a body that is accepted is the text of the chunks before the
  end, at most \<open>maxBytes\<close> bytes of them; a refused one carries the status 413, 408 or 400; and the text
  in memory never exceeds three times the limit (the worst case of the decoder), also after the
  refusal.
\<close>

theorem body_read_bounded:
  assumes "0 \<le> maxBytes"
  shows "br_outcome (readLimitedBody maxBytes events) = bodyOutcome maxBytes 0 [] events \<and>
    (\<forall>b. bodyOutcome maxBytes 0 [] events = Some (Inr b) \<longrightarrow>
       b = concat (map utf8Decode (chunksBeforeEnd events)) \<and>
       int (sum_list (map length (chunksBeforeEnd events))) \<le> maxBytes) \<and>
    (\<forall>e. bodyOutcome maxBytes 0 [] events = Some (Inl e) \<longrightarrow>
       (\<exists>msg code. e = BodyError msg code \<and> code \<in> {400, 408, 413})) \<and>
    (\<forall>more. bodyOutcome maxBytes 0 [] events \<noteq> None \<longrightarrow>
       br_outcome (readLimitedBody maxBytes (events @ more)) = br_outcome (readLimitedBody maxBytes events)) \<and>
    int (length (br_body (readLimitedBody maxBytes events))) \<le> 3 * maxBytes"
proof -
  have mem: "int (length (br_body (readLimitedBody maxBytes events))) \<le> 3 * maxBytes"
    using body_memory [of maxBytes freshReader events] acceptedBytes_le [of 0 maxBytes events] assms
    by (simp add: readLimitedBody_def freshReader_def)
  have more: "br_outcome (readLimitedBody maxBytes (events @ more)) = br_outcome (readLimitedBody maxBytes events)"
    if "bodyOutcome maxBytes 0 [] events \<noteq> None" for more
    using that readLimitedBody_outcome [of maxBytes events] run_settled [of "readLimitedBody maxBytes events" maxBytes more]
    by (simp add: readLimitedBody_def)
  show ?thesis
    using readLimitedBody_outcome bodyOutcome_ok [of maxBytes 0 "[]" events] bodyOutcome_error mem more assms by auto
qed

theorem body_read_bounded_witness:
  "br_outcome (readLimitedBody 4 [Data ''ab'', Data ''cd'', StreamEnd]) = bodyOutcome 4 0 [] [Data ''ab'', Data ''cd'', StreamEnd] \<and>
   bodyOutcome 4 0 [] [Data ''abc'', Data ''de'', StreamEnd] = Some (Inl TOO_LARGE) \<and>
   int (length (br_body (readLimitedBody 4 [Data ''abc'', Data ''de'', Data ''f'']))) \<le> 3 * 4"
  using body_read_bounded [of 4 "[Data ''ab'', Data ''cd'', StreamEnd]"]
    body_read_bounded [of 4 "[Data ''abc'', Data ''de'', Data ''f'']"] by simp

text \<open>
  A character whose bytes arrive in two chunks is lost: each half becomes U+FFFD.
\<close>

lemma split_character_corrupted:
  "br_outcome (readLimitedBody 10 [Data [CHR 0xC3], Data [CHR 0xA9], StreamEnd]) = Some (Inr (replacement @ replacement)) \<and>
   br_outcome (readLimitedBody 10 [Data [CHR 0xC3, CHR 0xA9], StreamEnd]) = Some (Inr [CHR 0xC3, CHR 0xA9])"
  by (simp add: readLimitedBody_outcome utf8Lead_def byteOf_def)

end
