(* ===== verification/CoordHttp.thy ===== *)
theory CoordHttp
  imports HttpBody Broadcasters SourceHints Registry SolanaLookup Recon Config
begin

text \<open>
  The public HTTP server of the coordinator: \<open>packages/coordinator/src/http.ts\<close> and the server of
  \<open>packages/coordinator/src/index.ts\<close>. A route is a function of the request and the state to a
  status, headers and a body; the JSON text codec, \<open>decodeURIComponent\<close> and the file system are
  arguments.
\<close>

section \<open>Authorisation and CORS\<close>

text \<open>\<open>/^Bearer (.+)$/\<close>: the rest after the prefix, not empty and without line terminators.\<close>

definition bearerToken :: "string option \<Rightarrow> string option" where
  "bearerToken authHeader =
     (case authHeader of
        None \<Rightarrow> None
      | Some h \<Rightarrow>
          (let t = drop 7 h
           in if startsWith h ''Bearer '' \<and> t \<noteq> [] \<and> CHR 0x0A \<notin> set t \<and> CHR 0x0D \<notin> set t then Some t else None))"

definition isSubmitAuthorized :: "string option \<Rightarrow> string \<Rightarrow> bool" where
  "isSubmitAuthorized authHeader token =
     (if token = [] then True
      else (case bearerToken authHeader of None \<Rightarrow> False | Some presented \<Rightarrow> constantTimeEqual presented token))"

lemma isSubmitAuthorized_iff:
  "token \<noteq> [] \<Longrightarrow> isSubmitAuthorized h token \<longleftrightarrow> bearerToken h = Some token"
  by (auto simp: isSubmitAuthorized_def constantTimeEqual_iff split: option.splits)

type_synonym headers = "(string \<times> string) list"

definition corsHeadersFor :: "string option \<Rightarrow> string list \<Rightarrow> headers" where
  "corsHeadersFor origin allowed =
     (case origin of
        None \<Rightarrow> []
      | Some o' \<Rightarrow> if o' \<noteq> [] \<and> o' \<in> set allowed
                  then [(''access-control-allow-origin'', o'), (''vary'', ''Origin'')] else [])"

text \<open>The parsed file; a read or parse error and anything but an array of strings give no origin.\<close>

definition stringsOf :: "jsval list \<Rightarrow> string list option" where
  "stringsOf xs = those (map (\<lambda>v. case v of VStr s \<Rightarrow> Some s | _ \<Rightarrow> None) xs)"

definition loadAllowedOrigins :: "jsval result \<Rightarrow> string list" where
  "loadAllowedOrigins parsed =
     (case parsed of Inr (VArr xs) \<Rightarrow> (case stringsOf xs of Some os \<Rightarrow> os | None \<Rightarrow> []) | _ \<Rightarrow> [])"

section \<open>Public figures\<close>

definition numInt :: "int \<Rightarrow> jsval" where
  "numInt n = VNum (DFin (of_int n))"

definition serializeFees :: "GatewayFeeConfig \<Rightarrow> jsval" where
  "serializeFees fees = VObj
     [(''floorMilliViz'', VObj [(''GRAM'', numInt (coalesce (fc_gramFloorMilliViz fees) (fc_floorMilliViz fees))),
        (''SOLANA'', numInt (fc_floorMilliViz fees))]),
      (''bps'', numInt (int (fc_bps fees))),
      (''activationSurchargeMilliViz'', VObj [(''GRAM'', numInt (fc_activationSurchargeMilliViz fees GRAM)),
        (''SOLANA'', numInt (fc_activationSurchargeMilliViz fees SOLANA))]),
      (''mintGasFloorMilliViz'', VObj [(''GRAM'', numInt (fc_mintGasFloorMilliViz fees GRAM)),
        (''SOLANA'', numInt (fc_mintGasFloorMilliViz fees SOLANA))]),
      (''refundFeeMilliViz'', numInt (fc_refundFeeMilliViz fees)), (''decimals'', numInt 3)]"

definition snapshotVal :: "ReconSnapshot \<Rightarrow> jsval" where
  "snapshotVal s = VObj [(''lockedMilliViz'', numInt (rs_lockedMilliViz s)),
     (''circulatingMilliViz'', numInt (rs_circulatingMilliViz s)),
     (''unsweptFeesMilliViz'', numInt (rs_unsweptFeesMilliViz s)), (''driftMilliViz'', numInt (rs_driftMilliViz s)),
     (''status'', VStr (reconStatus (rs_ok s))), (''checkedAt'', numInt (rs_checkedAt s))]"

definition serializeReconSnapshots ::
  "(string \<Rightarrow> json_obj option) \<Rightarrow> (string \<times> string option) list \<Rightarrow> (string \<times> jsval) list" where
  "serializeReconSnapshots parse entries =
     foldl (\<lambda>chains (chain, kvValue). case parseReconSnapshot parse kvValue of
         None \<Rightarrow> chains | Some snap \<Rightarrow> AList.update chain (snapshotVal snap) chains) [] entries"

section \<open>Static files\<close>

text \<open>POSIX \<open>path\<close>: the segments of a path, resolved; \<open>normalize\<close>, \<open>join\<close> of two, \<open>resolve\<close>, \<open>extname\<close>.\<close>

definition SLASH :: char where "SLASH = CHR ''/''"

fun normSegs :: "bool \<Rightarrow> string list \<Rightarrow> string list \<Rightarrow> string list" where
  "normSegs up acc [] = rev acc"
| "normSegs up acc (s # ss) =
     (if s = [] \<or> s = ''.'' then normSegs up acc ss
      else if s = ''..'' then
        (case acc of
           a # as \<Rightarrow> if a = ''..'' then normSegs up (s # acc) ss else normSegs up as ss
         | [] \<Rightarrow> if up then normSegs up [s] ss else normSegs up [] ss)
      else normSegs up (s # acc) ss)"

definition normalize :: "string \<Rightarrow> string" where
  "normalize p =
     (if p = [] then ''.''
      else (let abs = startsWith p ''/''; tr = endsWith p ''/'';
                r = joinWith ''/'' (normSegs (\<not> abs) [] (splitOn SLASH p))
            in if r = [] then (if abs then ''/'' else if tr then ''./'' else ''.'')
               else (if abs then ''/'' else []) @ r @ (if tr then ''/'' else [])))"

definition joinPath :: "string \<Rightarrow> string \<Rightarrow> string" where
  "joinPath a b = (if a = [] then normalize b else if b = [] then normalize a else normalize (a @ ''/'' @ b))"

definition resolvePath :: "string \<Rightarrow> string \<Rightarrow> string" where
  "resolvePath cwd p =
     ''/'' @ joinWith ''/'' (normSegs False [] (splitOn SLASH (if startsWith p ''/'' then p else cwd @ ''/'' @ p)))"

text \<open>The last dot of the last segment and what follows, unless it is the first character.\<close>

definition baseName :: "string \<Rightarrow> string" where
  "baseName p = last (splitOn SLASH (if endsWith p ''/'' then sliceEnd p 1 else p))"

definition extname :: "string \<Rightarrow> string" where
  "extname p =
     (let b = baseName p; parts = splitOn (CHR ''.'') b
      in if length parts < 2 \<or> joinWith ''.'' (butlast parts) = [] \<or> b = ''..'' then [] else ''.'' @ last parts)"

definition CONTENT_TYPES :: "(string \<times> string) list" where
  "CONTENT_TYPES = [(''.html'', ''text/html; charset=utf-8''), (''.js'', ''text/javascript; charset=utf-8''),
     (''.mjs'', ''text/javascript; charset=utf-8''), (''.css'', ''text/css; charset=utf-8''),
     (''.json'', ''application/json; charset=utf-8''), (''.png'', ''image/png''), (''.svg'', ''image/svg+xml''),
     (''.ico'', ''image/x-icon'')]"

definition contentTypeFor :: "string \<Rightarrow> string" where
  "contentTypeFor filePath =
     (case map_of CONTENT_TYPES (toLowerCase (extname filePath)) of None \<Rightarrow> ''application/octet-stream'' | Some t \<Rightarrow> t)"

datatype StaticPath = Forbidden | StaticFile string string

definition resolveStaticPath :: "(string \<Rightarrow> string option) \<Rightarrow> string \<Rightarrow> string \<Rightarrow> string \<Rightarrow> StaticPath" where
  "resolveStaticPath decodeURIComponent cwd urlPath siteRoot =
     (let rootAbs = resolvePath cwd siteRoot
      in case decodeURIComponent (hd (splitOn (CHR ''?'') urlPath)) of
           None \<Rightarrow> Forbidden
         | Some decoded \<Rightarrow>
             if ''..'' \<in> set (splitOn SLASH decoded) then Forbidden
             else (let clean = normalize decoded;
                       rel = (if clean = ''/'' \<or> clean = [] then ''index.html'' else dropWhile (\<lambda>c. c = SLASH) clean);
                       absPath = joinPath rootAbs rel
                   in if absPath \<noteq> rootAbs \<and> \<not> startsWith absPath (rootAbs @ ''/'') then Forbidden
                      else StaticFile absPath (contentTypeFor absPath)))"

text \<open>\<open>readFile\<close> returns the content or fails; a \<open>HEAD\<close> request gets no body.\<close>

definition serveStatic ::
  "(string \<Rightarrow> string option) \<Rightarrow> string \<Rightarrow> (string \<Rightarrow> string result) \<Rightarrow> string \<Rightarrow> string option \<Rightarrow> string \<Rightarrow>
   nat \<times> headers \<times> string option" where
  "serveStatic decode cwd readFile httpMethod url siteRoot =
     (case resolveStaticPath decode cwd (case url of None \<Rightarrow> ''/'' | Some u \<Rightarrow> u) siteRoot of
        Forbidden \<Rightarrow> (403, [(''content-type'', ''text/plain'')], Some ''forbidden'')
      | StaticFile absPath contentType \<Rightarrow>
          (case readFile absPath of
             Inl _ \<Rightarrow> (404, [(''content-type'', ''text/plain'')], Some ''not found'')
           | Inr body \<Rightarrow> (200, [(''content-type'', contentType),
               (''cache-control'', if startsWith contentType ''text/html'' then ''no-cache'' else ''max-age=300'')],
               if httpMethod = ''HEAD'' then None else Some body)))"

section \<open>The action of a submit request\<close>

text \<open>
  \<open>actionFromWire(raw.action)\<close> on the parsed body. The direction is taken as it is: anything but one
  of the known strings is another direction.
\<close>

definition strVal :: "jsval option \<Rightarrow> string" where
  "strVal v = (case v of None \<Rightarrow> ''undefined'' | Some x \<Rightarrow> stringOf x)"

definition actionFromVal :: "jsval option \<Rightarrow> CanonicalAction result" where
  "actionFromVal v =
     bindE (getPropOpt v ''remoteChain'') (\<lambda>chain.
     bindE (getPropOpt v ''direction'') (\<lambda>direction.
     bindE (getPropOpt v ''id'') (\<lambda>aid.
     bindE (getPropOpt v ''recipient'') (\<lambda>recipient.
     bindE (getPropOpt v ''amountMilliViz'') (\<lambda>amount.
     bindE (bigintOfString (strVal amount)) (\<lambda>n.
     bindE (getPropOpt v ''digest'') (\<lambda>digest.
       Inr \<lparr>act_direction =
              (case direction of Some (VStr d) \<Rightarrow> directionOfString d | _ \<Rightarrow> OtherDirection (strVal direction)),
            act_remoteChain = (if truthyVal chain then Some (chainOfString (strVal chain)) else None),
            act_id = strVal aid, act_recipient = strVal recipient, act_amountMilliViz = n,
            act_digest = strVal digest\<rparr>)))))))"

text \<open>On an object of strings this is the wire form of the other services.\<close>

definition wireVal :: "(string \<times> string) list \<Rightarrow> jsval" where
  "wireVal kv = VObj (map (\<lambda>(k, s). (k, VStr s)) kv)"

lemma map_of_wireVal: "map_of (map (\<lambda>(k, s). (k, VStr s)) kv) k = map_option VStr (map_of kv k)"
  by (induction kv) auto

lemma strVal_VStr: "strVal (map_option VStr x) = (case x of None \<Rightarrow> ''undefined'' | Some s \<Rightarrow> s)"
  by (cases x) (simp_all add: strVal_def)

lemma actionFromVal_wire:
  assumes "map_of kv ''direction'' \<noteq> None"
  shows "actionFromVal (Some (wireVal kv)) = actionFromWire (map_of kv)"
proof -
  obtain d where d: "map_of kv ''direction'' = Some d" using assms by auto
  have p: "getPropOpt (Some (wireVal kv)) k = Inr (map_option VStr (map_of kv k))" for k
    by (simp add: wireVal_def map_of_wireVal)
  show ?thesis
    unfolding actionFromVal_def p
    by (simp add: actionFromWire_def strVal_VStr wireString_def bigintOfString_def d split: option.split)
qed

section \<open>Orchestration of a submitted action\<close>

text \<open>A Solana proposal as JSON sends it.\<close>

definition solanaJson :: "SolanaMintProposal \<Rightarrow> json_obj" where
  "solanaJson p = [''recipient'' \<mapsto> JString (sp_recipient p), ''amountMilliViz'' \<mapsto> JString (sp_amountMilliViz p),
     ''destProvisioned'' \<mapsto> JBool (sp_destProvisioned p), ''mint'' \<mapsto> JString (sp_mint p),
     ''multisig'' \<mapsto> JString (sp_multisig p), ''signers'' \<mapsto> JArray (sp_signers p),
     ''feePayer'' \<mapsto> JString (sp_feePayer p), ''nonceAccount'' \<mapsto> JString (sp_nonceAccount p),
     ''nonceValue'' \<mapsto> JString (sp_nonceValue p), ''decimals'' \<mapsto> JNumber (int (sp_decimals p)),
     ''messageB64'' \<mapsto> JString (sp_messageB64 p)] ++
     (case sp_actionId p of None \<Rightarrow> Map.empty | Some a \<Rightarrow> [''actionId'' \<mapsto> JString a])"

text \<open>The collaborators that \<open>main\<close> builds once; a broadcaster that is not configured is absent.\<close>

record 'x Coordinator =
  co_threshold :: nat
  co_operators :: "string list"
  co_timeouts :: Timeouts
  co_submitToken :: string
  co_sourceHints :: SourceHintsFile
  co_fetch :: "'x fetch"
  co_clock :: "'x Clock"
  co_viz :: "(VizReleaseProposal, 'x CoordWorld) Broadcaster"
  co_gramMint :: "(GramMintProposal, 'x CoordWorld) Broadcaster option"
  co_gramReturn :: "(GramMintProposal, 'x CoordWorld) Broadcaster option"
  co_solana :: "(SolanaMintProposal, 'x CoordWorld) Broadcaster option"

definition currentSigners :: "'x Coordinator \<Rightarrow> int \<Rightarrow> SignerRegistry \<Rightarrow> HttpSigner list \<times> SignerRegistry" where
  "currentSigners co now R =
     (case live now R of (regs, R') \<Rightarrow>
        (map (\<lambda>r. \<lparr>hs_operatorId = re_operatorId r, hs_endpoint = re_url r,
                   hs_pegInTimeoutMs = tmo_pegIn (co_timeouts co), hs_pegOutTimeoutMs = tmo_pegOut (co_timeouts co)\<rparr>) regs, R'))"

definition persistFee :: "'x Coordinator \<Rightarrow> 'x CoordWorld persist" where
  "persistFee co k fee w = (Inr (), w\<lparr>cw_store := sql_setFee k fee (ck_now (co_clock co) (cw_ext w)) (cw_store w)\<rparr>)"

text \<open>One orchestrator per action: the hint, then the live signers, then the round.\<close>

definition runOrchestrator ::
  "'x Coordinator \<Rightarrow> ('p \<Rightarrow> json_obj) \<Rightarrow> ('p, 'x CoordWorld) Broadcaster \<Rightarrow> CanonicalAction \<Rightarrow>
   'x CoordWorld \<times> SignerRegistry \<Rightarrow> OrchestrationResult result \<times> 'x CoordWorld \<times> SignerRegistry" where
  "runOrchestrator co toJson bc action st =
     (case st of (w, R) \<Rightarrow>
        let hint = resolveSourceHint action (cw_store w) (co_sourceHints co)
        in (case currentSigners co (ck_now (co_clock co) (cw_ext w)) R of (signers, R') \<Rightarrow>
             (case orchestrate (co_threshold co) (co_operators co) (map (httpSignerClient (co_fetch co) toJson) signers)
                     bc (Some (persistFee co)) action hint w of (r, w') \<Rightarrow> (r, w', R'))))"

definition notConfigured :: "string \<Rightarrow> 'w \<Rightarrow> 'a result \<times> 'w" where
  "notConfigured msg w = (Inl (GenericError msg), w)"

definition coordOrchestrate ::
  "'x Coordinator \<Rightarrow> CanonicalAction \<Rightarrow> 'x CoordWorld \<times> SignerRegistry \<Rightarrow>
   OrchestrationResult result \<times> 'x CoordWorld \<times> SignerRegistry" where
  "coordOrchestrate co action st =
     (if act_direction action = GRAM_RETURN then
        (case co_gramReturn co of None \<Rightarrow> notConfigured (''GRAM_RETURN '' @ act_id action @ '' but GRAM not configured'') st
         | Some bc \<Rightarrow> runOrchestrator co gramJson bc action st)
      else if act_direction action = PEG_OUT then runOrchestrator co vizJson (co_viz co) action st
      else if act_remoteChain action = Some SOLANA then
        (case co_solana co of None \<Rightarrow> notConfigured (''Solana PEG_IN '' @ act_id action @ '' but Solana mint not configured'') st
         | Some bc \<Rightarrow> runOrchestrator co solanaJson bc action st)
      else if act_remoteChain action = Some GRAM then
        (case co_gramMint co of None \<Rightarrow> notConfigured (''GRAM PEG_IN '' @ act_id action @ '' but GRAM minter not configured'') st
         | Some bc \<Rightarrow> runOrchestrator co gramJson bc action st)
      else notConfigured (''PEG_IN '' @ act_id action @ '' has unknown/absent remoteChain'') st)"

text \<open>
  \<open>main\<close> builds the collaborators from the configuration: the TON broadcasters need a minter, the
  Solana one a mint, a multisig and the submitter key.
\<close>

definition coordinatorFor ::
  "GatewayConfig \<Rightarrow> 'x fetch \<Rightarrow> 'x Clock \<Rightarrow> SourceHintsFile \<Rightarrow> (VizReleaseProposal, 'x CoordWorld) Broadcaster \<Rightarrow>
   (GramMintProposal, 'x CoordWorld) Broadcaster \<Rightarrow> (GramMintProposal, 'x CoordWorld) Broadcaster \<Rightarrow>
   (SolanaMintProposal, 'x CoordWorld) Broadcaster \<Rightarrow> 'x Coordinator" where
  "coordinatorFor cfg fetch clock hints viz gramMint gramReturn sol =
     (let gramOn = (gs_jettonMinterAddress (gc_gram cfg) \<noteq> []);
          solOn = (ss_wvizMint (gc_solana cfg) \<noteq> [] \<and> ss_multisig (gc_solana cfg) \<noteq> [] \<and>
                   ss_submitterSecret (gc_solana cfg) \<noteq> None)
      in \<lparr>co_threshold = nat (fm_threshold (gc_federation cfg)), co_operators = map op_id (fm_operators (gc_federation cfg)),
          co_timeouts = cs_signerApproveTimeoutMs (gc_coordinator cfg), co_submitToken = cs_submitToken (gc_coordinator cfg),
          co_sourceHints = hints, co_fetch = fetch, co_clock = clock, co_viz = viz,
          co_gramMint = (if gramOn then Some gramMint else None), co_gramReturn = (if gramOn then Some gramReturn else None),
          co_solana = (if solOn then Some sol else None)\<rparr>)"

definition registryFor :: "GatewayConfig \<Rightarrow> SignerRegistry" where
  "registryFor cfg = newSignerRegistry (fm_operators (gc_federation cfg)) (rs_leaseMs (gc_registration cfg))
     (rs_nonceTtlMs (gc_registration cfg))"

text \<open>An action on a chain that is not configured is refused before any signer is asked.\<close>

lemma unconfigured_chain_refused:
  assumes "act_direction a \<notin> {PEG_OUT, GRAM_RETURN}"
    "act_remoteChain a = Some GRAM \<and> gs_jettonMinterAddress (gc_gram cfg) = [] \<or>
     act_remoteChain a = Some SOLANA \<and> ss_submitterSecret (gc_solana cfg) = None \<or>
     act_remoteChain a \<notin> {Some GRAM, Some SOLANA}"
  shows "\<exists>e. coordOrchestrate (coordinatorFor cfg f ck h v gm gr sol) a st = (Inl e, st)"
  using assms by (auto simp: coordOrchestrate_def coordinatorFor_def notConfigured_def Let_def)

section \<open>POST /submit\<close>

datatype SubmitJson = SubmitError string | SubmitPaused "string option" | SubmitResult OrchestrationResult

text \<open>The events of the request stream decide the read of the body; \<open>None\<close> is a request without a reply yet.\<close>

definition submitRoute ::
  "'x Coordinator \<Rightarrow> (string \<Rightarrow> jsval result) \<Rightarrow> int \<Rightarrow> string option \<Rightarrow> BodyEvent list \<Rightarrow> 'x CoordWorld \<times> SignerRegistry \<Rightarrow>
   (nat \<times> SubmitJson) option \<times> 'x CoordWorld \<times> SignerRegistry" where
  "submitRoute co parseJson maxBytes authHeader events st =
     (if \<not> isSubmitAuthorized authHeader (co_submitToken co) then (Some (401, SubmitError ''unauthorized''), st)
      else (case br_outcome (readLimitedBody maxBytes events) of
          None \<Rightarrow> (None, st)
        | Some (Inl e) \<Rightarrow> (Some (case e of BodyError _ code \<Rightarrow> code | _ \<Rightarrow> 400, SubmitError (error_text e)), st)
        | Some (Inr body) \<Rightarrow>
            if sql_isPaused (cw_store (fst st)) then (Some (423, SubmitPaused (sql_pauseReason (cw_store (fst st)))), st)
            else (case bindE (parseJson body) (\<lambda>raw. bindE (getProp raw ''action'') actionFromVal) of
                Inl e \<Rightarrow> (Some (500, SubmitError (error_text e)), st)
              | Inr action \<Rightarrow>
                  (case coordOrchestrate co action st of
                     (Inl e, st') \<Rightarrow> (Some (500, SubmitError (error_text e)), st')
                   | (Inr r, st') \<Rightarrow> (Some (200, SubmitResult r), st')))))"

section \<open>The other routes\<close>

datatype JsonReply = JsonReply nat headers jsval

definition jsonHeader :: "string \<times> string" where
  "jsonHeader = (''content-type'', ''application/json'')"

text \<open>
  \<open>/health\<close>: the registry is counted twice; the read of the store is a promise without a handler for
  its rejection, \<open>None\<close> is the unhandled rejection.
\<close>

definition healthRoute ::
  "string list \<Rightarrow> string option \<Rightarrow> int \<Rightarrow> int \<Rightarrow> bool result \<Rightarrow> SignerRegistry \<Rightarrow> JsonReply option \<times> SignerRegistry" where
  "healthRoute allowedOrigins origin t1 t2 readPaused R =
     (case registryCount t1 R of ((registered, expected), R1) \<Rightarrow>
      (case roster t2 R1 of ((liveIds, missing), R2) \<Rightarrow>
         (case readPaused of
            Inl _ \<Rightarrow> None
          | Inr paused \<Rightarrow> Some (JsonReply 200 (jsonHeader # corsHeadersFor origin allowedOrigins)
              (VObj [(''ok'', VBool True), (''paused'', VBool paused), (''registered'', numInt (int registered)),
                (''expected'', numInt (int expected)), (''operators'', VArr (map VStr liveIds)),
                (''missing'', VArr (map VStr missing))])), R2)))"

definition reconChains :: "string \<Rightarrow> string \<Rightarrow> string list" where
  "reconChains jettonMinterAddress wvizMint =
     (if jettonMinterAddress \<noteq> [] then [''GRAM''] else []) @ (if wvizMint \<noteq> [] then [''SOLANA''] else [])"

definition reconRoute ::
  "(string \<Rightarrow> json_obj option) \<Rightarrow> string list \<Rightarrow> string option \<Rightarrow> string \<Rightarrow> string \<Rightarrow> SqliteStore result \<Rightarrow> JsonReply" where
  "reconRoute parse allowedOrigins origin jettonMinterAddress wvizMint readStore =
     (case readStore of
        Inl _ \<Rightarrow> JsonReply 503 (jsonHeader # corsHeadersFor origin allowedOrigins)
          (VObj [(''ok'', VBool False), (''error'', VStr ''recon snapshot unavailable'')])
      | Inr s \<Rightarrow> JsonReply 200 (jsonHeader # (''cache-control'', ''max-age=15'') # corsHeadersFor origin allowedOrigins)
          (VObj [(''ok'', VBool True), (''paused'', VBool (sql_isPaused s)),
            (''chains'', VObj (serializeReconSnapshots parse
               (map (\<lambda>c. (c, sql_getState s (reconSnapshotKey c))) (reconChains jettonMinterAddress wvizMint))))]))"

definition feesRoute :: "string list \<Rightarrow> string option \<Rightarrow> GatewayFeeConfig \<Rightarrow> JsonReply" where
  "feesRoute allowedOrigins origin fees =
     JsonReply 200 (jsonHeader # (''cache-control'', ''max-age=60'') # corsHeadersFor origin allowedOrigins) (serializeFees fees)"

definition optionsHeaders :: "string list \<Rightarrow> string option \<Rightarrow> headers" where
  "optionsHeaders allowedOrigins origin = corsHeadersFor origin allowedOrigins @ [(''access-control-allow-methods'', ''GET'')]"

text \<open>Which route answers a request, in the order of the tests.\<close>

datatype Route = RHealth | RRecon | RSolanaAddress | RPreflight | RFees | RChallenge | RRegister | RSubmit | RStatic | RNotFound

definition urlStarts :: "string option \<Rightarrow> string \<Rightarrow> bool" where
  "urlStarts url p \<longleftrightarrow> (case url of None \<Rightarrow> False | Some u \<Rightarrow> startsWith u p)"

definition routeOf :: "string \<Rightarrow> string option \<Rightarrow> Route" where
  "routeOf httpMethod url =
     (let isGet = (httpMethod = ''GET'') in
      if isGet \<and> url = Some ''/health'' then RHealth
      else if isGet \<and> url = Some ''/recon'' then RRecon
      else if isGet \<and> urlStarts url ''/solana/address'' then RSolanaAddress
      else if httpMethod = ''OPTIONS'' \<and>
        (url = Some ''/health'' \<or> url = Some ''/fees'' \<or> url = Some ''/recon'' \<or> urlStarts url ''/solana/address'') then RPreflight
      else if isGet \<and> url = Some ''/fees'' then RFees
      else if isGet \<and> urlStarts url ''/register/challenge'' then RChallenge
      else if httpMethod = ''POST'' \<and> url = Some ''/register'' then RRegister
      else if httpMethod = ''POST'' \<and> url = Some ''/submit'' then RSubmit
      else if isGet \<or> httpMethod = ''HEAD'' then RStatic
      else RNotFound)"

section \<open>What the server lets through\<close>

text \<open>The action of a body that was read in full.\<close>

definition submittedAction :: "(string \<Rightarrow> jsval result) \<Rightarrow> string \<Rightarrow> CanonicalAction result" where
  "submittedAction parseJson body = bindE (parseJson body) (\<lambda>raw. bindE (getProp raw ''action'') actionFromVal)"

lemma isSubmitAuthorized_token: "isSubmitAuthorized h token \<longleftrightarrow> token = [] \<or> bearerToken h = Some token"
  by (cases "token = []", simp add: isSubmitAuthorized_def, simp add: isSubmitAuthorized_iff)

lemma bodyError_code:
  assumes "br_outcome (readLimitedBody m es) = Some (Inl e)"
  shows "\<exists>msg code. e = BodyError msg code \<and> code \<in> {400, 408, 413}"
  using assms bodyOutcome_error by (simp add: readLimitedBody_outcome)

text \<open>
  C38. /submit is closed to everyone but the dispatcher: the state changes, or a result is reported,
  only for a request that carries the shared token (where one is configured), whose body arrived
  within its limit, while the gateway is not paused; what then happens is the orchestration of the
  action the body states, and nothing else. Every other request gets one of the codes 400, 401, 408,
  413, 423 and 500 or no reply, and leaves the store, the chains and the registry as they were.
\<close>

theorem submit_gate:
  assumes "submitRoute co parseJson maxBytes authHeader events st = (reply, st')"
  shows "(st' = st \<and> (reply = None \<or> (\<exists>code e. reply = Some (code, e) \<and> code \<in> {400, 401, 408, 413, 423, 500}))) \<or>
    (\<exists>body action r. (co_submitToken co = [] \<or> bearerToken authHeader = Some (co_submitToken co)) \<and>
       br_outcome (readLimitedBody maxBytes events) = Some (Inr body) \<and> \<not> sql_isPaused (cw_store (fst st)) \<and>
       submittedAction parseJson body = Inr action \<and> coordOrchestrate co action st = (r, st') \<and>
       reply = Some (case r of Inl e \<Rightarrow> (500, SubmitError (error_text e)) | Inr res \<Rightarrow> (200, SubmitResult res)))"
proof (cases "isSubmitAuthorized authHeader (co_submitToken co)")
  case False
  then have "reply = Some (401, SubmitError ''unauthorized'')" "st' = st" using assms by (auto simp: submitRoute_def)
  then show ?thesis by simp
next
  case auth: True
  show ?thesis
  proof (cases "br_outcome (readLimitedBody maxBytes events)")
    case None
    then show ?thesis using assms auth by (simp add: submitRoute_def)
  next
    case (Some out)
    show ?thesis
    proof (cases out)
      case (Inl e)
      with Some bodyError_code obtain msg code where e: "e = BodyError msg code" "code \<in> {400, 408, 413}" by blast
      then show ?thesis using assms auth Some Inl by (auto simp: submitRoute_def)
    next
      case (Inr body)
      show ?thesis
      proof (cases "sql_isPaused (cw_store (fst st))")
        case True
        then have "\<exists>e. reply = Some (423, e)" "st' = st" using assms auth Some Inr by (auto simp: submitRoute_def)
        then show ?thesis by auto
      next
        case running: False
        show ?thesis
        proof (cases "submittedAction parseJson body")
          case (Inl e)
          then have "\<exists>x. reply = Some (500, x)" "st' = st"
            using assms auth Some Inr running by (auto simp: submitRoute_def submittedAction_def)
          then show ?thesis by auto
        next
          case act: (Inr action)
          obtain r st1 where r: "coordOrchestrate co action st = (r, st1)" by (cases "coordOrchestrate co action st")
          then have "(reply, st') = (Some (case r of Inl e \<Rightarrow> (500, SubmitError (error_text e)) | Inr res \<Rightarrow> (200, SubmitResult res)), st1)"
            using assms auth Some Inr running act by (cases r) (simp_all add: submitRoute_def submittedAction_def)
          with r auth Some Inr running act show ?thesis by (auto simp: isSubmitAuthorized_token)
        qed
      qed
    qed
  qed
qed

definition coordinator_example :: "unit Coordinator" where
  "coordinator_example = \<lparr>co_threshold = 1, co_operators = [''op1''], co_timeouts = \<lparr>tmo_pegIn = 1, tmo_pegOut = 1\<rparr>,
     co_submitToken = ''t'', co_sourceHints = [], co_fetch = (\<lambda>_ _ _ x. (FetchFailed (GenericError ''offline''), x)),
     co_clock = \<lparr>ck_now = (\<lambda>_. 5), ck_sleep = (\<lambda>_ x. x)\<rparr>,
     co_viz = \<lparr>bc_buildProposal = (\<lambda>_ w. (Inl (GenericError ''node down''), w)),
       bc_broadcast = (\<lambda>_ _ _ w. (Inl (GenericError ''node down''), w)),
       bc_actionExecuted = (\<lambda>_ w. (Inr (True, Some ''tx''), w))\<rparr>,
     co_gramMint = None, co_gramReturn = None, co_solana = None\<rparr>"

definition actionFields_example :: "(string \<times> string) list" where
  "actionFields_example = [(''direction'', ''PEG_OUT''), (''remoteChain'', ''GRAM''), (''id'', ''b1''),
     (''recipient'', ''bob''), (''amountMilliViz'', decInt 10), (''digest'', ''d'')]"

definition submission_example :: jsval where
  "submission_example = VObj [(''action'', wireVal actionFields_example)]"

definition coordState_example :: "unit CoordWorld \<times> SignerRegistry" where
  "coordState_example = (\<lparr>cw_store = emptySqlite, cw_pinned = Map.empty, cw_tonIdx = 0, cw_ext = ()\<rparr>, newSignerRegistry [] 10 10)"

theorem submit_gate_witness:
  "\<exists>r st'. submitRoute coordinator_example (\<lambda>_. Inr submission_example) 100 (Some ''Bearer t'') [Data ''x'', StreamEnd]
      coordState_example = (Some (200, SubmitResult r), st') \<and> or_broadcast r \<and> bearerToken (Some ''Bearer t'') = Some ''t''"
proof -
  let ?a = "\<lparr>act_direction = PEG_OUT, act_remoteChain = Some GRAM, act_id = ''b1'', act_recipient = ''bob'',
    act_amountMilliViz = 10, act_digest = ''d''\<rparr>"
  have "actionFromWire (map_of actionFields_example) = Inr ?a"
    by (simp add: actionFields_example_def actionFromWire_def wireString_def directionOfString_def chainOfString_def)
  then have act: "bindE (getProp submission_example ''action'') actionFromVal = Inr ?a"
    using actionFromVal_wire [of actionFields_example] by (simp add: submission_example_def actionFields_example_def)
  have run: "\<exists>r st'. submitRoute coordinator_example (\<lambda>_. Inr submission_example) 100 (Some ''Bearer t'') [Data ''x'', StreamEnd]
      coordState_example = (Some (200, SubmitResult r), st') \<and> or_broadcast r"
    by (simp add: submitRoute_def act coordinator_example_def isSubmitAuthorized_token bearerToken_def startsWith_def
        readLimitedBody_outcome utf8Decode_ascii byteOf_def coordState_example_def sql_isPaused_def sql_getKey_def
        emptySqlite_def coordOrchestrate_def runOrchestrator_def orchestrate_def currentSigners_def live_def
        newSignerRegistry_def Let_def)
  then show ?thesis using submit_gate by (fastforce simp: coordinator_example_def)
qed

section \<open>Paths below the site directory\<close>

text \<open>The steps of a walk along a path; empty and dot segments stay in place.\<close>

definition walk :: "string \<Rightarrow> string list" where
  "walk p = filter (\<lambda>s. s \<noteq> [] \<and> s \<noteq> ''.'') (splitOn SLASH p)"

definition cleanSeg :: "string \<Rightarrow> bool" where
  "cleanSeg s \<longleftrightarrow> s \<noteq> [] \<and> s \<noteq> ''.'' \<and> s \<noteq> ''..'' \<and> SLASH \<notin> set s"

lemma splitOn_append_sep: "splitOn c (a @ c # b) = splitOn c a @ splitOn c b"
  by (induction a) (auto split: list.split)

lemma splitOn_fresh_parts: "w \<in> set (splitOn c s) \<Longrightarrow> c \<notin> set w"
  by (induction s arbitrary: w) (auto split: list.splits if_splits)

lemma walk_append: "walk (a @ ''/'' @ b) = walk a @ walk b"
  using splitOn_append_sep [of SLASH a b] by (simp add: walk_def SLASH_def)

lemma walk_slash [simp]: "walk (''/'' @ b) = walk b" "walk (CHR ''/'' # b) = walk b" "walk (a @ ''/'') = walk a" "walk [] = []"
  using walk_append [of "[]" b] walk_append [of a "[]"] by (simp_all add: walk_def)

lemma walk_const [simp]: "walk ''.'' = []" "walk ''./'' = []" "walk ''/'' = []" "walk ''index.html'' = [''index.html'']"
  by (simp_all add: walk_def SLASH_def)

lemma walk_dropWhile: "walk (dropWhile (\<lambda>c. c = SLASH) p) = walk p"
  by (induction p) (auto simp: SLASH_def)

lemma walk_up: "''..'' \<in> set (walk p) \<longleftrightarrow> ''..'' \<in> set (splitOn SLASH p)"
  by (simp add: walk_def)

lemma walk_join:
  assumes "\<forall>s \<in> set S. cleanSeg s"
  shows "walk (joinWith ''/'' S) = S"
proof (cases "S = []")
  case False
  have "splitOn SLASH (joinWith [SLASH] S) = S"
    using assms False by (intro splitOn_joinWith) (auto simp: cleanSeg_def)
  then show ?thesis using assms by (simp add: walk_def SLASH_def filter_id_conv cleanSeg_def)
qed simp

lemma normSegs_walk:
  "''..'' \<notin> set ss \<Longrightarrow> normSegs up acc ss = rev acc @ filter (\<lambda>s. s \<noteq> [] \<and> s \<noteq> ''.'') ss"
  by (induction up acc ss rule: normSegs.induct) auto

lemma normSegs_clean:
  "\<forall>s \<in> set acc. cleanSeg s \<Longrightarrow> \<forall>s \<in> set ss. SLASH \<notin> set s \<Longrightarrow> s \<in> set (normSegs False acc ss) \<Longrightarrow> cleanSeg s"
  by (induction False acc ss rule: normSegs.induct) (auto simp: cleanSeg_def split: if_splits list.splits)

lemma walk_clean: "''..'' \<notin> set (walk p) \<Longrightarrow> \<forall>s \<in> set (walk p). cleanSeg s"
  using splitOn_fresh_parts [of _ SLASH p] by (auto simp: walk_def cleanSeg_def)

lemma walk_normalize:
  assumes "''..'' \<notin> set (walk p)"
  shows "walk (normalize p) = walk p"
proof -
  have n: "normSegs up [] (splitOn SLASH p) = walk p" for up
    using assms normSegs_walk [of "splitOn SLASH p" up "[]"] by (simp add: walk_def)
  have j: "walk (joinWith ''/'' (walk p)) = walk p" using walk_clean [OF assms] by (rule walk_join)
  show ?thesis
  proof (cases "joinWith ''/'' (walk p) = []")
    case True
    then have "walk p = []" using j by simp
    with n show ?thesis by (auto simp: normalize_def Let_def)
  next
    case False
    then show ?thesis using j n by (simp add: normalize_def Let_def)
  qed
qed

lemma walk_resolvePath: "''..'' \<notin> set (walk (resolvePath cwd p))"
proof -
  let ?S = "normSegs False [] (splitOn SLASH (if startsWith p ''/'' then p else cwd @ ''/'' @ p))"
  have S: "\<forall>s \<in> set ?S. cleanSeg s"
    using normSegs_clean [of "[]"] splitOn_fresh_parts by fastforce
  have "walk (resolvePath cwd p) = ?S" using walk_join [OF S] by (simp add: resolvePath_def)
  moreover have "\<not> cleanSeg ''..''" by (simp add: cleanSeg_def)
  ultimately show ?thesis using S by metis
qed

text \<open>
  C39. A static request never leaves the site directory, whatever the URL, its encoding and the
  directory: the file that is read is the site directory followed by the segments of the decoded path
  in their order (empty ones and dots dropped), or by index.html, and no segment of it goes up.
\<close>

theorem static_never_escapes:
  assumes "resolveStaticPath decode cwd url siteRoot = StaticFile absPath ct"
  shows "\<exists>decoded segs. decode (hd (splitOn (CHR ''?'') url)) = Some decoded \<and>
    (segs = walk decoded \<or> segs = [''index.html'']) \<and> walk absPath = walk (resolvePath cwd siteRoot) @ segs \<and>
    ''..'' \<notin> set (splitOn SLASH absPath) \<and> ct = contentTypeFor absPath"
proof -
  let ?root = "resolvePath cwd siteRoot"
  obtain decoded where d: "decode (hd (splitOn (CHR ''?'') url)) = Some decoded" "''..'' \<notin> set (walk decoded)"
    using assms by (auto simp: resolveStaticPath_def Let_def walk_up split: option.splits if_splits)
  define clean where "clean = normalize decoded"
  define rel where "rel = (if clean = ''/'' \<or> clean = [] then ''index.html'' else dropWhile (\<lambda>c. c = SLASH) clean)"
  have a: "absPath = joinPath ?root rel" "ct = contentTypeFor absPath"
    using assms d by (auto simp: resolveStaticPath_def Let_def rel_def clean_def walk_up split: if_splits)
  have rel: "walk rel = walk decoded \<or> walk rel = [''index.html'']"
    using walk_normalize [OF d(2)] by (simp add: rel_def clean_def walk_dropWhile)
  then have up: "''..'' \<notin> set (walk (?root @ ''/'' @ rel))"
    unfolding walk_append using d(2) walk_resolvePath [of cwd siteRoot] by auto
  have "walk absPath = walk (?root @ ''/'' @ rel)"
  proof (cases "rel = []")
    case True
    then show ?thesis using walk_normalize [of ?root] walk_resolvePath [of cwd siteRoot]
      by (simp add: a(1) joinPath_def resolvePath_def)
  next
    case False
    then show ?thesis using walk_normalize [OF up] by (simp add: a(1) joinPath_def resolvePath_def)
  qed
  then show ?thesis using d rel a(2) up by (metis walk_append walk_up)
qed

theorem static_never_escapes_witness:
  "\<exists>segs. walk ''/srv/site/css/a.css'' = walk (resolvePath ''/srv'' ''site'') @ segs \<and>
     ''..'' \<notin> set (splitOn SLASH ''/srv/site/css/a.css'')"
proof -
  have "resolveStaticPath Some ''/srv'' ''//css/./a.css?v=1'' ''site'' =
      StaticFile ''/srv/site/css/a.css'' (contentTypeFor ''/srv/site/css/a.css'')"
    by code_simp
  from static_never_escapes [OF this] show ?thesis
    by (elim exE conjE) (rule exI, rule conjI, assumption, assumption)
qed

section \<open>Routing and health\<close>

text \<open>Only \<open>POST /submit\<close> reaches the orchestration, and no other method or path.\<close>

lemma routeOf_submit: "routeOf m url = RSubmit \<longleftrightarrow> m = ''POST'' \<and> url = Some ''/submit''"
  by (auto simp: routeOf_def Let_def)

text \<open>
  \<open>/health\<close> has no handler for a failing read of the store: no reply is sent and the rejection is
  unhandled, where \<open>/recon\<close> answers 503.
\<close>

lemma health_store_error_unhandled: "fst (healthRoute allowed origin t1 t2 (Inl e) R) = None"
  by (simp add: healthRoute_def split: prod.split)

lemma recon_store_error_answered:
  "\<exists>hs v. reconRoute parse allowed origin gram sol (Inl e) = JsonReply 503 hs v"
  by (simp add: reconRoute_def)

text \<open>\<open>/recon\<close> shows a chain only from a well-formed snapshot, never a row of zeros.\<close>

lemma update_keys: "(c, v) \<in> set (AList.update k u xs) \<Longrightarrow> (c, v) = (k, u) \<or> (c, v) \<in> set xs"
  by (induction xs) (auto split: if_splits)

lemma recon_rows_from_snapshots:
  assumes "(c, v) \<in> set (serializeReconSnapshots parse entries)"
  shows "\<exists>kv snap. (c, kv) \<in> set entries \<and> parseReconSnapshot parse kv = Some snap \<and> v = snapshotVal snap"
  using assms
proof (induction entries rule: rev_induct)
  case (snoc e es)
  then show ?case
    by (cases e) (fastforce simp: serializeReconSnapshots_def split: option.splits dest: update_keys)
qed (simp add: serializeReconSnapshots_def)

end
