(* ===== verification/Services.thy ===== *)
theory Services
  imports Config Dispatcher KeyedSigner Recon HttpBody
begin

text \<open>
  How the services are wired from one loaded configuration: the options of the dispatcher
  (\<open>packages/dispatcher/src/index.ts\<close>), the boot of a signer, the sources it validates against and
  its HTTP server (\<open>packages/signer/src/index.ts\<close>), and the checkers of the reconciler
  (\<open>packages/recon/src/index.ts\<close>). The chain clients are the arguments they are in the code.
\<close>

section \<open>The dispatcher\<close>

text \<open>The fee table is the one of the configuration, where its rate is a natural number.\<close>

definition dispatcherOpts :: "GatewayConfig \<Rightarrow> GatewayFeeConfig \<Rightarrow> TickOpts" where
  "dispatcherOpts cfg fees =
     \<lparr>ro_retryIntervalMs = ds_retryIntervalMs (gc_dispatcher cfg), ro_windowMs = ds_windowMs (gc_dispatcher cfg),
      to_pegInTimeoutMs = tmo_pegIn (ds_signingTimeoutMs (gc_dispatcher cfg)),
      to_pegOutTimeoutMs = tmo_pegOut (ds_signingTimeoutMs (gc_dispatcher cfg)),
      to_staleDeliveryAlertMs = ds_staleDeliveryAlertMs (gc_dispatcher cfg),
      to_feesGateAccount = gc_feesGateAccount cfg, to_fees = fees,
      to_refundFeeMilliViz = lf_refundFeeMilliViz (gc_fees cfg)\<rparr>"

section \<open>The signer\<close>

text \<open>The operator's own nodes: what its three chain clients and the address derivation answer.\<close>

record SignerReaders =
  nr_getDeposit :: "string \<Rightarrow> nat \<Rightarrow> nat option \<Rightarrow> VizDeposit option result"
  nr_accountExists :: "string \<Rightarrow> bool result"
  nr_getDepositTransfer :: "string \<Rightarrow> string \<Rightarrow> (nat \<times> int) option result"
  nr_getBurn :: "string \<Rightarrow> RemoteBurn option result"
  nr_depositAta :: "string \<Rightarrow> string \<Rightarrow> string \<Rightarrow> string result"

definition solanaReader :: "GatewayConfig \<Rightarrow> SignerReaders \<Rightarrow> string \<Rightarrow> string \<Rightarrow> (nat \<times> int) option result" where
  "solanaReader cfg rd =
     (if ss_wvizMint (gc_solana cfg) \<noteq> [] then nr_getDepositTransfer rd
      else (\<lambda>_ _. Inl (GenericError ''Solana not configured on this signer (SOLANA_WVIZ_MINT unset); refusing Solana peg-out'')))"

definition tonReader :: "GatewayConfig \<Rightarrow> SignerReaders \<Rightarrow> string \<Rightarrow> RemoteBurn option result" where
  "tonReader cfg rd =
     (if gs_gatewayJettonWallet (gc_gram cfg) \<noteq> [] then nr_getBurn rd
      else (\<lambda>_. Inl (GenericError ''GRAM not configured on this signer (GRAM_GATEWAY_JETTON_WALLET unset); refusing GRAM peg-out'')))"

definition validatorDepsFor :: "GatewayConfig \<Rightarrow> GatewayFeeConfig \<Rightarrow> SignerReaders \<Rightarrow> SourceValidatorDeps" where
  "validatorDepsFor cfg fees rd =
     \<lparr>sv_getDeposit = nr_getDeposit rd, sv_accountExists = nr_accountExists rd,
      sv_getDepositTransfer = solanaReader cfg rd, sv_getBurn = tonReader cfg rd, sv_depositAta = nr_depositAta rd,
      sv_depositProgramId = ss_depositProgramId (gc_solana cfg), sv_wvizMint = ss_wvizMint (gc_solana cfg),
      sv_fees = fees, sv_feesGateAccount = gc_feesGateAccount cfg\<rparr>"

definition solanaPinsFor :: "GatewayConfig \<Rightarrow> SolanaPins option" where
  "solanaPinsFor cfg =
     (let s = gc_solana cfg
      in if ss_wvizMint s = [] then None
         else Some \<lparr>pin_mint = ss_wvizMint s, pin_multisig = ss_multisig s, pin_nonceAccount = ss_nonceAccount s,
                pin_feePayer = (if ss_submitterPubkey s = [] then None else Some (ss_submitterPubkey s))\<rparr>)"

text \<open>The approver is wired only when TON is fully configured; its wallet address has to parse.\<close>

definition gramApproverFor ::
  "(string \<Rightarrow> string result) \<Rightarrow> GatewayConfig \<Rightarrow> 'w GramApprovalClient \<Rightarrow> 'w GramApprovalClient option result" where
  "gramApproverFor parseAddress cfg client =
     (let g = gc_gram cfg
      in if gs_jettonMinterAddress g \<noteq> [] \<and> gs_multisigAddress g \<noteq> [] \<and> gs_signerMnemonic g \<noteq> []
         then bindE (parseAddress (gs_gatewayJettonWallet g)) (\<lambda>_. Inr (Some client))
         else Inr None)"

text \<open>The checks of the start, in their order; the result is the operator id and the accounts.\<close>

definition signerBoot ::
  "(string \<Rightarrow> bool) \<Rightarrow> (string \<Rightarrow> string result) \<Rightarrow> string option \<Rightarrow> GatewayConfig \<Rightarrow> (string \<times> GatewayAccounts) result" where
  "signerBoot validUrl pubkeyFromWif operatorIdEnv cfg =
     (let wif = vs_signingWif (gc_viz cfg) in
     bindE (throwIf (gc_signerAdvertiseUrl cfg = []) (GenericError ''SIGNER_ADVERTISE_URL is required'')) (\<lambda>_.
     bindE (throwIf (\<not> validUrl (gc_signerAdvertiseUrl cfg)) (GenericError ''SIGNER_ADVERTISE_URL is not a valid URL'')) (\<lambda>_.
     bindE (throwIf (wif = []) (GenericError ''VIZ_SIGNING_WIF is required to self-register'')) (\<lambda>_.
     bindE (resolveOperatorId pubkeyFromWif wif (fm_operators (gc_federation cfg)) operatorIdEnv) (\<lambda>(operatorId, _).
     bindE (throwIf (wif = [] \<and> gs_signerMnemonic (gc_gram cfg) = []) (GenericError ''signer has no signing key'')) (\<lambda>_.
     bindE (buildGatewayAccounts cfg) (\<lambda>accounts.
     bindE (throwIf (ss_wvizMint (gc_solana cfg) \<noteq> [] \<and> ss_depositProgramId (gc_solana cfg) = [])
       (GenericError ''SOLANA_DEPOSIT_PROGRAM_ID is required when Solana peg-out is configured'')) (\<lambda>_.
     Inr (operatorId, accounts)))))))))"

text \<open>The cryptography of the signer and the byte arrays as the text the signing model takes.\<close>

record SignerCrypto =
  sy_sha :: "string \<Rightarrow> string"
  sy_bytes :: "nat list \<Rightarrow> string"
  sy_signTx :: "VizTransaction \<Rightarrow> string \<Rightarrow> string result"
  sy_mintMessage :: "json_obj \<Rightarrow> string result"
  sy_member :: "string \<Rightarrow> string"
  sy_partialSign :: "json_obj \<Rightarrow> string \<Rightarrow> string result"

definition keyedSignerFor ::
  "SignerCrypto \<Rightarrow> GatewayConfig \<Rightarrow> GatewayFeeConfig \<Rightarrow> SignerReaders \<Rightarrow> string \<times> GatewayAccounts \<Rightarrow>
   'w GramApprovalClient option \<Rightarrow> 'w KeyedSigner" where
  "keyedSignerFor sy cfg fees rd boot approver =
     \<lparr>ks_operatorId = fst boot, ks_vizWif = vs_signingWif (gc_viz cfg), ks_fees = fees,
      ks_solanaSecret = map_option (sy_bytes sy) (ss_signerSecret (gc_solana cfg)),
      ks_validateSource = Some (\<lambda>action hint. validateAction (sy_sha sy) (validatorDepsFor cfg fees rd) action hint),
      ks_solanaPins = solanaPinsFor cfg, ks_gramApprover = approver, ks_accounts = Some (snd boot),
      ks_signTx = sy_signTx sy, ks_mintMessage = sy_mintMessage sy, ks_member = sy_member sy,
      ks_partialSign = sy_partialSign sy\<rparr>"

text \<open>
  The HTTP server: only \<open>POST /approve\<close>, a bounded body, then the handler. \<open>None\<close> is a request that
  has no reply yet; \<open>decode\<close> parses the JSON text.
\<close>

definition approveRoute ::
  "(string \<Rightarrow> ApproveRequest option) \<Rightarrow> int \<Rightarrow> LedgerCrypto \<Rightarrow> ReplayLedgerDeps \<Rightarrow> 'w KeyedSigner \<Rightarrow>
   string \<Rightarrow> string \<Rightarrow> BodyEvent list \<Rightarrow> SqliteStore \<times> 'w \<Rightarrow> ApproveReply option \<times> SqliteStore \<times> 'w" where
  "approveRoute decode maxBytes lc deps ks httpMethod url events sw =
     (if httpMethod \<noteq> ''POST'' \<or> url \<noteq> ''/approve'' then (Some (Refused 404 []), sw)
      else (case br_outcome (readLimitedBody maxBytes events) of
          None \<Rightarrow> (None, sw)
        | Some (Inl e) \<Rightarrow> (Some (Refused (case e of BodyError _ code \<Rightarrow> code | _ \<Rightarrow> 400) (error_text e)), sw)
        | Some (Inr body) \<Rightarrow> (case approveHandler lc deps ks (decode body) sw of (r, sw') \<Rightarrow> (Some r, sw'))))"

section \<open>The reconciler\<close>

definition coveredChains :: "GatewayConfig \<Rightarrow> string list" where
  "coveredChains cfg =
     (if gs_jettonMinterAddress (gc_gram cfg) \<noteq> [] then [''GRAM''] else []) @
     (if ss_wvizMint (gc_solana cfg) \<noteq> [] then [''SOLANA''] else [])"

definition missingRemotesReason :: "string list \<Rightarrow> string list \<Rightarrow> string" where
  "missingRemotesReason missing covered = ''[recon] expected remote(s) ['' @ joinWith '','' missing @
     ''] not configured (present: ['' @ joinWith '','' covered @
     '']). A remote with live wVIZ must never drop out of recon. Fix config or update RECON_EXPECTED_REMOTES.''"

text \<open>A limit of zero or less pauses at the first failure.\<close>

definition reconCfgOf :: "GatewayConfig \<Rightarrow> ReconCfg" where
  "reconCfgOf cfg =
     \<lparr>rg_driftToleranceMilliViz = rc_driftToleranceMilliViz (gc_recon cfg),
      rg_maxConsecutiveFailures = nat (rc_maxConsecutiveFailures (gc_recon cfg)), rg_expectedRemotes = []\<rparr>"

definition reconFor :: "GatewayConfig \<Rightarrow> GatewayFeeConfig \<Rightarrow> string \<Rightarrow> ReconState result" where
  "reconFor cfg fees name =
     newRecon [name] (reconCfgOf cfg) (Some (chainOfString name))
       (Some (fc_mintGasFloorMilliViz fees (chainOfString name)))"

definition wireRecon :: "GatewayConfig \<Rightarrow> GatewayFeeConfig \<Rightarrow> ReconState list result" where
  "wireRecon cfg fees =
     (let covered = coveredChains cfg;
          missing = filter (\<lambda>c. c \<notin> set covered) (rc_expectedRemotes (gc_recon cfg))
      in bindE (throwIf (missing \<noteq> []) (GenericError (missingRemotesReason missing covered))) (\<lambda>_.
         bindE (mapE (reconFor cfg fees) covered) (\<lambda>recons.
         bindE (throwIf (recons = []) (GenericError
           ''[recon] no remote configured -- set GRAM_JETTON_MINTER_ADDRESS or SOLANA_WVIZ_MINT'')) (\<lambda>_.
         Inr recons))))"

text \<open>The staff page for the Solana submitter: \<open>None\<close> when it is not configured, not readable or not low.\<close>

definition solanaReserveCheck :: "GatewayConfig \<Rightarrow> int result \<Rightarrow> int option" where
  "solanaReserveCheck cfg lamports =
     (let s = gc_solana cfg
      in if ss_wvizMint s = [] \<or> ss_submitterSecret s = None then None
         else (case lamports of
             Inl _ \<Rightarrow> None
           | Inr n \<Rightarrow> if n < ss_submitterMinLamports s then Some n else None))"

text \<open>\<open>RECON_ONCE=1\<close>: the exit code.\<close>

definition reconOnceExit :: "bool option list \<Rightarrow> nat" where
  "reconOnceExit results = (if list_all (\<lambda>r. r = Some True) results then 0 else 2)"

section \<open>What the wiring guarantees\<close>

text \<open>
  The reconciler that starts checks every chain that is configured, each against its own backing
  account and with the mint floor of the fee table, and no expected chain is missing.
\<close>

lemma wireRecon_covers:
  assumes "wireRecon cfg fees = Inr rns"
  shows "list_all2 (\<lambda>name rn. rn_remotes rn = [name] \<and> rn_chain rn = Some (chainOfString name) \<and>
      rn_sanityFloorMilliViz rn = Some (fc_mintGasFloorMilliViz fees (chainOfString name)) \<and> rn_consecutiveFailures rn = 0)
      (coveredChains cfg) rns" and "rns \<noteq> []" and "set (rc_expectedRemotes (gc_recon cfg)) \<subseteq> set (coveredChains cfg)"
proof -
  from assms have s: "filter (\<lambda>c. c \<notin> set (coveredChains cfg)) (rc_expectedRemotes (gc_recon cfg)) = []"
    "mapE (reconFor cfg fees) (coveredChains cfg) = Inr rns" "rns \<noteq> []"
    by (auto simp: wireRecon_def Let_def err_simps)
  show "list_all2 (\<lambda>name rn. rn_remotes rn = [name] \<and> rn_chain rn = Some (chainOfString name) \<and>
      rn_sanityFloorMilliViz rn = Some (fc_mintGasFloorMilliViz fees (chainOfString name)) \<and> rn_consecutiveFailures rn = 0)
      (coveredChains cfg) rns"
    using s(2) [unfolded mapE_Inr] by (rule list_all2_mono) (auto simp: reconFor_def newRecon_def reconCfgOf_def split: if_splits)
  show "rns \<noteq> []" by (fact s(3))
  show "set (rc_expectedRemotes (gc_recon cfg)) \<subseteq> set (coveredChains cfg)" using s(1) by (auto simp: filter_empty_conv)
qed

text \<open>
  The signer refuses to start without its VIZ key, so the later check for a signer without any key
  and the warnings for one without a VIZ key never fire.
\<close>

lemma signer_without_wif_never_boots: "vs_signingWif (gc_viz cfg) = [] \<Longrightarrow> \<exists>e. signerBoot V P i cfg = Inl e"
  by (auto simp: signerBoot_def Let_def throwIf_def)

lemma signerBoot_Inr:
  assumes "signerBoot V P i cfg = Inr (operatorId, accounts)"
  shows "vs_signingWif (gc_viz cfg) \<noteq> []" "buildGatewayAccounts cfg = Inr accounts"
    "\<exists>pk. P (vs_signingWif (gc_viz cfg)) = Inr pk \<and>
       (\<exists>o' \<in> set (fm_operators (gc_federation cfg)). op_id o' = operatorId \<and> op_vizPubkey o' = pk)"
    "ss_wvizMint (gc_solana cfg) \<noteq> [] \<Longrightarrow> ss_depositProgramId (gc_solana cfg) \<noteq> []"
proof -
  from assms have r: "vs_signingWif (gc_viz cfg) \<noteq> []" "buildGatewayAccounts cfg = Inr accounts"
    "\<exists>w. resolveOperatorId P (vs_signingWif (gc_viz cfg)) (fm_operators (gc_federation cfg)) i = Inr (operatorId, w)"
    "ss_wvizMint (gc_solana cfg) \<noteq> [] \<longrightarrow> ss_depositProgramId (gc_solana cfg) \<noteq> []"
    by (auto simp: signerBoot_def Let_def err_simps)
  show "vs_signingWif (gc_viz cfg) \<noteq> []" "buildGatewayAccounts cfg = Inr accounts"
    "ss_wvizMint (gc_solana cfg) \<noteq> [] \<Longrightarrow> ss_depositProgramId (gc_solana cfg) \<noteq> []" using r by auto
  show "\<exists>pk. P (vs_signingWif (gc_viz cfg)) = Inr pk \<and>
       (\<exists>o' \<in> set (fm_operators (gc_federation cfg)). op_id o' = operatorId \<and> op_vizPubkey o' = pk)"
    using r(3) by (auto simp: resolveOperatorId_def err_simps Let_def find_Some_iff split: option.splits)
       (metis nth_mem)+
qed

text \<open>What the manifest pins is the same on every machine.\<close>

lemma pinned_fees_agree:
  assumes "loadConfig C m = Inr c" "loadConfig C' m' = Inr c'" "gc_federation c = gc_federation c'"
    "fm_fees (gc_federation c) \<noteq> None"
  shows "gc_fees c = gc_fees c'"
proof -
  obtain mf where mf: "fm_fees (gc_federation c) = Some mf" using assms(4) by auto
  obtain E E' where "loadFees E (gc_federation c) = Inr (gc_fees c)" "loadFees E' (gc_federation c) = Inr (gc_fees c')"
    using loadConfig_Inr [OF assms(1)] loadConfig_Inr [OF assms(2)] configFrom_parts(1,2) assms(3) by metis
  then show ?thesis using loadFees_pinned [OF mf, of E E'] by simp
qed

lemma pinned_feesGate_agree:
  assumes "loadConfig C m = Inr c" "loadConfig C' m' = Inr c'" "gc_federation c = gc_federation c'"
    "fm_accounts (gc_federation c) = Some acc" "ma_fees acc \<noteq> None"
  shows "gc_feesGateAccount c = gc_feesGateAccount c'"
proof -
  obtain v where v: "ma_fees acc = Some v" using assms(5) by auto
  have g: "gc_feesGateAccount c'' = v" if "loadConfig C'' m'' = Inr c''" "gc_federation c'' = gc_federation c" for C'' m'' c''
    using loadConfig_Inr [OF that(1)] configFrom_parts(1,7) that(2) pinnedOr_Some [of _ acc ma_fees v] assms(4) v by metis
  show ?thesis using g [OF assms(1)] g [OF assms(2)] assms(3) by simp
qed

lemma feeConfigOf_refund: "feeConfigOf f = Some fees \<Longrightarrow> fc_refundFeeMilliViz fees = lf_refundFeeMilliViz f"
  by (auto simp: feeConfigOf_def split: option.splits if_splits)

text \<open>The fee account of the example: neither the manifest nor the environment names one.\<close>

lemma feesGate_example:
  assumes "loadConfig keyCrypto_example (machine_example E) = Inr c" "gc_federation c = manifest_federation"
    "E ''FED_KEYSTORE'' = None" "E ''FEES_GATE_ACCOUNT'' = None"
  shows "gc_feesGateAccount c = ''fees.gate''"
proof -
  have "hydrateKeystore keyCrypto_example (machine_example E) = Inr E"
    using assms(3) by (simp add: hydrateKeystore_def machine_example_def)
  then have "configFrom (kc_parse keyCrypto_example) E manifest_federation = Inr c"
    using loadConfig_Inr [OF assms(1)] configFrom_parts(1) assms(2) by fastforce
  from configFrom_parts(7) [OF this] show ?thesis
    using assms(4) by (simp add: pinnedOr_def manifest_federation_def envOpt_def envSet_def)
qed

end
