(* ===== verification/AccountSetup.thy ===== *)
theory AccountSetup
  imports Config
begin

text \<open>
  The one-time scripts that give a VIZ account its authorities: \<open>setup-viz/src/authority.ts\<close>,
  \<open>config.ts\<close>, \<open>setupAccount.ts\<close> and \<open>createSubaccount.ts\<close>. The node and the two broadcasts of
  viz-js-lib are arguments that act on a world \<open>'c\<close>; console output is left out.
\<close>

section \<open>authority.ts\<close>

record AccountAuthority =
  au_weight_threshold :: int
  au_account_auths :: "(string \<times> int) list"
  au_key_auths :: "(string \<times> int) list"

definition multisigAuthority :: "string list \<Rightarrow> int \<Rightarrow> string list \<Rightarrow> AccountAuthority result" where
  "multisigAuthority accounts threshold keys =
     bindE (throwIf (threshold < 1) (GenericError ''threshold must be >= 1'')) (\<lambda>_.
     bindE (throwIf (int (length accounts + length keys) < threshold)
       (GenericError ''threshold exceeds total signer weight'')) (\<lambda>_.
     Inr \<lparr>au_weight_threshold = threshold, au_account_auths = map (\<lambda>a. (a, 1)) (sort accounts),
          au_key_auths = map (\<lambda>k. (k, 1)) (sort keys)\<rparr>))"

definition authorityMembers :: "AccountAuthority \<Rightarrow> nat" where
  "authorityMembers a = length (au_key_auths a) + length (au_account_auths a)"

section \<open>config.ts\<close>

record SetupConfig =
  su_gatewayAccount :: string
  su_masterWif :: string
  su_activeAccounts :: "string list"
  su_activeKeys :: "string list"
  su_activeThreshold :: int
  su_guardians :: "string list"
  su_masterKeys :: "string list"
  su_masterThreshold :: int
  su_recoveryAccount :: string
  su_memoPubkey :: string
  su_apply :: bool

definition loadSetupConfig :: "environment \<Rightarrow> SetupConfig result" where
  "loadSetupConfig E =
     bindE (envInt E ''ACTIVE_THRESHOLD'' 1) (\<lambda>activeThreshold.
     bindE (envInt E ''MASTER_THRESHOLD'' 3) (\<lambda>masterThreshold.
     Inr \<lparr>su_gatewayAccount = envOpt E ''GATEWAY_ACCOUNT'' ''viz-gateway'',
          su_masterWif = envOpt E ''GATEWAY_MASTER_WIF'' [],
          su_activeAccounts = commaList (envOpt E ''ACTIVE_ACCOUNTS'' []),
          su_activeKeys = commaList (envOpt E ''ACTIVE_KEYS'' []), su_activeThreshold = activeThreshold,
          su_guardians = commaList (envOpt E ''MASTER_GUARDIANS'' []),
          su_masterKeys = commaList (envOpt E ''MASTER_KEYS'' []), su_masterThreshold = masterThreshold,
          su_recoveryAccount = envOpt E ''RECOVERY_ACCOUNT'' [], su_memoPubkey = envOpt E ''MEMO_PUBKEY'' [],
          su_apply = (envOpt E ''APPLY'' ''0'' = ''1'')\<rparr>))"

section \<open>setupAccount.ts\<close>

record CurrentAccount =
  ca_memo_key :: string
  ca_json_metadata :: string

record AccountUpdate =
  up_account :: string
  up_master :: AccountAuthority
  up_active :: AccountAuthority
  up_regular :: AccountAuthority
  up_memoKey :: string
  up_jsonMetadata :: string

text \<open>The check of the master authority, shared by both scripts.\<close>

definition refuseSingleMaster :: "AccountAuthority \<Rightarrow> unit result" where
  "refuseSingleMaster master =
     throwIf (au_weight_threshold master < 2 \<and> authorityMembers master < 2)
       (GenericError ''refusing single-signer master: master can rewrite active, so it must require >= 2 signers (keys/accounts).'')"

text \<open>A node that cannot be read, or does not know the account, leaves the current account unknown.\<close>

definition planSetup :: "SetupConfig \<Rightarrow> CurrentAccount option result \<Rightarrow> AccountUpdate result" where
  "planSetup cfg readAccount =
     bindE (throwIf (su_activeAccounts cfg = [] \<and> su_activeKeys cfg = [])
       (GenericError ''Set ACTIVE_ACCOUNTS and/or ACTIVE_KEYS (the operational signer set).'')) (\<lambda>_.
     bindE (throwIf (su_guardians cfg = [] \<and> su_masterKeys cfg = [])
       (GenericError ''Set MASTER_GUARDIANS and/or MASTER_KEYS'')) (\<lambda>_.
     bindE (multisigAuthority (su_activeAccounts cfg) (su_activeThreshold cfg) (su_activeKeys cfg)) (\<lambda>active.
     bindE (multisigAuthority (su_guardians cfg) (su_masterThreshold cfg) (su_masterKeys cfg)) (\<lambda>master.
     bindE (refuseSingleMaster master) (\<lambda>_.
     let current = (case readAccount of Inl _ \<Rightarrow> None | Inr c \<Rightarrow> c);
         memoKey = (if su_memoPubkey cfg \<noteq> [] then su_memoPubkey cfg
                    else (case current of None \<Rightarrow> [] | Some c \<Rightarrow> ca_memo_key c))
     in bindE (throwIf (memoKey = []) (GenericError ''MEMO_PUBKEY not set and current memo_key could not be read.'')) (\<lambda>_.
     Inr \<lparr>up_account = su_gatewayAccount cfg, up_master = master, up_active = active, up_regular = active,
          up_memoKey = memoKey,
          up_jsonMetadata = (case current of None \<Rightarrow> [] | Some c \<Rightarrow> ca_json_metadata c)\<rparr>))))))"

text \<open>The flag tells whether it was broadcast; the recovery account is changed after the update.\<close>

definition setupAccount ::
  "SetupConfig \<Rightarrow> CurrentAccount option result \<Rightarrow> (string \<Rightarrow> AccountUpdate \<Rightarrow> 'c \<Rightarrow> unit result \<times> 'c) \<Rightarrow>
   (string \<Rightarrow> string \<Rightarrow> string \<Rightarrow> 'c \<Rightarrow> unit result \<times> 'c) \<Rightarrow> 'c \<Rightarrow> (bool \<times> AccountUpdate) result \<times> 'c" where
  "setupAccount cfg readAccount sendUpdate sendRecovery c =
     (case planSetup cfg readAccount of
        Inl e \<Rightarrow> (Inl e, c)
      | Inr u \<Rightarrow>
          if \<not> su_apply cfg then (Inr (False, u), c)
          else if su_masterWif cfg = [] then (Inl (GenericError ''GATEWAY_MASTER_WIF is required to APPLY.''), c)
          else (case sendUpdate (su_masterWif cfg) u c of
              (Inl e, c1) \<Rightarrow> (Inl e, c1)
            | (Inr _, c1) \<Rightarrow>
                if su_recoveryAccount cfg = [] then (Inr (True, u), c1)
                else (case sendRecovery (su_masterWif cfg) (su_gatewayAccount cfg) (su_recoveryAccount cfg) c1 of
                    (Inl e, c2) \<Rightarrow> (Inl e, c2)
                  | (Inr _, c2) \<Rightarrow> (Inr (True, u), c2))))"

section \<open>createSubaccount.ts\<close>

record CreateConfig =
  cr_creator :: string
  cr_creatorWif :: string
  cr_newAccountName :: string
  cr_activeKeys :: "string list"
  cr_activeThreshold :: int
  cr_masterKeys :: "string list"
  cr_masterThreshold :: int
  cr_memoPubkey :: string
  cr_delegation :: string
  cr_fee :: string
  cr_apply :: bool

definition loadCreateConfig :: "environment \<Rightarrow> CreateConfig result" where
  "loadCreateConfig E =
     bindE (envInt E ''ACTIVE_THRESHOLD'' 2) (\<lambda>activeThreshold.
     bindE (envInt E ''MASTER_THRESHOLD'' activeThreshold) (\<lambda>masterThreshold.
     Inr \<lparr>cr_creator = envOpt E ''CREATOR_ACCOUNT'' [], cr_creatorWif = envOpt E ''CREATOR_WIF'' [],
          cr_newAccountName = envOpt E ''NEW_ACCOUNT_NAME'' [],
          cr_activeKeys = commaList (envOpt E ''ACTIVE_KEYS'' []), cr_activeThreshold = activeThreshold,
          cr_masterKeys = commaList (envOpt E ''MASTER_KEYS'' []), cr_masterThreshold = masterThreshold,
          cr_memoPubkey = envOpt E ''MEMO_PUBKEY'' [],
          cr_delegation = envOpt E ''DELEGATION'' ''0.000000 SHARES'', cr_fee = envOpt E ''CREATE_FEE'' [],
          cr_apply = (envOpt E ''APPLY'' ''0'' = ''1'')\<rparr>))"

record AccountCreate =
  ac_fee :: string
  ac_delegation :: string
  ac_creator :: string
  ac_name :: string
  ac_master :: AccountAuthority
  ac_active :: AccountAuthority
  ac_memoKey :: string

text \<open>The name after the last dot; the node is read for an existing account and for the fee.\<close>

definition planCreate ::
  "CreateConfig \<Rightarrow> (string \<Rightarrow> string list result) \<Rightarrow> string result \<Rightarrow> AccountCreate result" where
  "planCreate cfg getAccounts readFee =
     bindE (throwIf (cr_creator cfg = []) (GenericError ''Set CREATOR_ACCOUNT'')) (\<lambda>_.
     bindE (throwIf (cr_newAccountName cfg = []) (GenericError ''Set NEW_ACCOUNT_NAME'')) (\<lambda>_.
     bindE (throwIf (cr_activeKeys cfg = []) (GenericError ''Set ACTIVE_KEYS'')) (\<lambda>_.
     bindE (throwIf (cr_memoPubkey cfg = []) (GenericError ''Set MEMO_PUBKEY'')) (\<lambda>_.
     bindE (throwIf (CHR ''.'' \<in> set (cr_newAccountName cfg) \<and>
         last (splitOn (CHR ''.'') (cr_newAccountName cfg)) \<noteq> cr_creator cfg)
       (GenericError ''subaccount must be created by its parent'')) (\<lambda>_.
     bindE (multisigAuthority [] (cr_activeThreshold cfg) (cr_activeKeys cfg)) (\<lambda>active.
     bindE (if cr_masterKeys cfg = [] then Inr active
            else multisigAuthority [] (cr_masterThreshold cfg) (cr_masterKeys cfg)) (\<lambda>master.
     bindE (refuseSingleMaster master) (\<lambda>_.
     bindE (getAccounts (cr_newAccountName cfg)) (\<lambda>existing.
     bindE (throwIf (existing \<noteq> [] \<and> hd existing = cr_newAccountName cfg)
       (GenericError ''account already exists -- refusing to recreate.'')) (\<lambda>_.
     bindE (if cr_fee cfg = [] then readFee else Inr (cr_fee cfg)) (\<lambda>fee.
     Inr \<lparr>ac_fee = fee, ac_delegation = cr_delegation cfg, ac_creator = cr_creator cfg,
          ac_name = cr_newAccountName cfg, ac_master = master, ac_active = active,
          ac_memoKey = cr_memoPubkey cfg\<rparr>)))))))))))"

definition createSubaccount ::
  "CreateConfig \<Rightarrow> (string \<Rightarrow> string list result) \<Rightarrow> string result \<Rightarrow>
   (string \<Rightarrow> AccountCreate \<Rightarrow> 'c \<Rightarrow> unit result \<times> 'c) \<Rightarrow> 'c \<Rightarrow> (bool \<times> AccountCreate) result \<times> 'c" where
  "createSubaccount cfg getAccounts readFee send c =
     (case planCreate cfg getAccounts readFee of
        Inl e \<Rightarrow> (Inl e, c)
      | Inr u \<Rightarrow>
          if \<not> cr_apply cfg then (Inr (False, u), c)
          else if cr_creatorWif cfg = [] then (Inl (GenericError ''CREATOR_WIF is required to APPLY.''), c)
          else (case send (cr_creatorWif cfg) u c of (Inl e, c1) \<Rightarrow> (Inl e, c1) | (Inr _, c1) \<Rightarrow> (Inr (True, u), c1)))"

section \<open>What the authorities require\<close>

text \<open>The weight a set of keys and accounts brings.\<close>

definition weightOf :: "(string \<Rightarrow> bool) \<Rightarrow> AccountAuthority \<Rightarrow> int" where
  "weightOf signs a = sum_list (map snd (filter (\<lambda>x. signs (fst x)) (au_account_auths a @ au_key_auths a)))"

definition satisfies :: "(string \<Rightarrow> bool) \<Rightarrow> AccountAuthority \<Rightarrow> bool" where
  "satisfies signs a \<longleftrightarrow> au_weight_threshold a \<le> weightOf signs a"

lemma weight_ones: "sum_list (map snd (filter (\<lambda>x. P (fst x)) (map (\<lambda>k. (k, 1 :: int)) ks))) = int (length (filter P ks))"
  by (induction ks) auto

lemma multisigAuthority_Inr:
  assumes "multisigAuthority accounts t keys = Inr a"
  shows "au_weight_threshold a = t" "1 \<le> t" "t \<le> int (length accounts + length keys)"
    "sorted (map fst (au_account_auths a))" "sorted (map fst (au_key_auths a))"
    "weightOf signs a = int (length (filter signs (accounts @ keys)))"
    "authorityMembers a = length accounts + length keys"
proof -
  have a: "a = \<lparr>au_weight_threshold = t, au_account_auths = map (\<lambda>a. (a, 1)) (sort accounts),
      au_key_auths = map (\<lambda>k. (k, 1)) (sort keys)\<rparr>" "1 \<le> t" "t \<le> int (length accounts + length keys)"
    using assms by (auto simp: multisigAuthority_def err_simps)
  then show "au_weight_threshold a = t" "1 \<le> t" "t \<le> int (length accounts + length keys)"
    "sorted (map fst (au_account_auths a))" "sorted (map fst (au_key_auths a))"
    "authorityMembers a = length accounts + length keys"
    by (simp_all add: authorityMembers_def comp_def)
  have l: "length (filter signs (sort xs)) = length (filter signs xs)" for xs :: "string list"
    by (metis filter_sort length_sort)
  show "weightOf signs a = int (length (filter signs (accounts @ keys)))"
    by (simp add: a(1) weightOf_def weight_ones l)
qed

text \<open>An authority is satisfied exactly by a threshold many of the members it was built from.\<close>

lemma satisfies_count:
  "multisigAuthority accounts t keys = Inr a \<Longrightarrow> satisfies signs a \<longleftrightarrow> t \<le> int (length (filter signs (accounts @ keys)))"
  using multisigAuthority_Inr(1,6) by (simp add: satisfies_def)

lemma setup_update:
  assumes "planSetup cfg rd = Inr u"
  shows "up_regular u = up_active u" "up_memoKey u \<noteq> []" "2 \<le> authorityMembers (up_master u)"
    "satisfies signs (up_active u) \<longleftrightarrow>
       su_activeThreshold cfg \<le> int (length (filter signs (su_activeAccounts cfg @ su_activeKeys cfg)))"
    "satisfies signs (up_master u) \<longleftrightarrow>
       su_masterThreshold cfg \<le> int (length (filter signs (su_guardians cfg @ su_masterKeys cfg)))"
proof -
  obtain active master where m: "multisigAuthority (su_activeAccounts cfg) (su_activeThreshold cfg) (su_activeKeys cfg) = Inr active"
    "multisigAuthority (su_guardians cfg) (su_masterThreshold cfg) (su_masterKeys cfg) = Inr master"
    "refuseSingleMaster master = Inr ()" "up_master u = master" "up_active u = active" "up_regular u = active" "up_memoKey u \<noteq> []"
    using assms unfolding planSetup_def Let_def bindE_eq_Inr throwIf_eq_Inr by auto
  show "up_regular u = up_active u" "up_memoKey u \<noteq> []" using m by simp_all
  show "2 \<le> authorityMembers (up_master u)"
    using m(3,4) multisigAuthority_Inr(1,3,7) [OF m(2)] by (auto simp: refuseSingleMaster_def err_simps)
  show "satisfies signs (up_active u) \<longleftrightarrow>
       su_activeThreshold cfg \<le> int (length (filter signs (su_activeAccounts cfg @ su_activeKeys cfg)))"
    using satisfies_count [OF m(1)] m(5) by simp
  show "satisfies signs (up_master u) \<longleftrightarrow>
       su_masterThreshold cfg \<le> int (length (filter signs (su_guardians cfg @ su_masterKeys cfg)))"
    using satisfies_count [OF m(2)] m(4) by simp
qed

text \<open>Nothing is broadcast without the key, and what is broadcast is the plan.\<close>

lemma setup_broadcast:
  assumes "setupAccount cfg rd sendU sendR c = (r, c')" "c' \<noteq> c"
  shows "\<exists>u. planSetup cfg rd = Inr u \<and> su_apply cfg \<and> su_masterWif cfg \<noteq> [] \<and>
    (c' = snd (sendU (su_masterWif cfg) u c) \<or>
     c' = snd (sendR (su_masterWif cfg) (su_gatewayAccount cfg) (su_recoveryAccount cfg)
       (snd (sendU (su_masterWif cfg) u c))))"
  using assms by (auto simp: setupAccount_def split: sum.splits if_splits prod.splits)

text \<open>A subaccount is created only by the account its name ends with, and never twice.\<close>

lemma create_by_parent:
  assumes "planCreate cfg getAccounts readFee = Inr u"
  shows "ac_creator u = cr_creator cfg" "ac_name u = cr_newAccountName cfg"
    "CHR ''.'' \<in> set (ac_name u) \<Longrightarrow> last (splitOn (CHR ''.'') (ac_name u)) = ac_creator u"
    "\<exists>existing. getAccounts (ac_name u) = Inr existing \<and> (existing = [] \<or> hd existing \<noteq> ac_name u)"
  using assms unfolding planCreate_def bindE_eq_Inr throwIf_eq_Inr by auto

text \<open>
  The refused master is only the one with a single member and threshold one: a threshold of one over
  two guardians passes, although either of them alone can then rewrite every authority.
\<close>

lemma single_guardian_master_accepted:
  assumes "planSetup cfg rd = Inr u" "su_guardians cfg = [a, b]" "su_masterKeys cfg = []" "su_masterThreshold cfg = 1"
  shows "satisfies (\<lambda>g. g = a) (up_master u)"
  using setup_update(5) [OF assms(1)] assms(2-4) by simp

lemma single_guardian_plan:
  "\<exists>u. planSetup \<lparr>su_gatewayAccount = ''gram.gate'', su_masterWif = [], su_activeAccounts = [], su_activeKeys = [''k1'', ''k2''],
     su_activeThreshold = 2, su_guardians = [''g1'', ''g2''], su_masterKeys = [], su_masterThreshold = 1,
     su_recoveryAccount = [], su_memoPubkey = ''VIZm'', su_apply = False\<rparr> (Inr None) = Inr u \<and>
     satisfies (\<lambda>g. g = ''g1'') (up_master u)"
  by (simp add: planSetup_def multisigAuthority_def refuseSingleMaster_def authorityMembers_def satisfies_def weightOf_def)

end
