(* ===== verification/AuthorityChecks.thy ===== *)
theory AuthorityChecks
  imports Config "HOL-Library.Word"
begin

unbundle bit_operations_syntax

text \<open>
  Who may upgrade the deposit program and rewrite the token metadata on Solana:
  \<open>contracts/solana/src/programAuthority.ts\<close>, \<open>metadataAuthority.ts\<close> and the two scripts that act
  on their verdicts, \<open>enforceProgramAuthority.ts\<close> and \<open>enforceMetadataAuthority.ts\<close>. Account data
  are bytes; base58, program addresses, the key pair and the RPC connection, which acts on a world
  \<open>'c\<close>, are arguments. Console output is left out.
\<close>

section \<open>Account data (programAuthority.ts)\<close>

type_synonym bytes = "8 word list"

text \<open>The 32-bit operations of the language: the four bytes are or-ed and read without a sign.\<close>

definition readU32LE :: "bytes \<Rightarrow> nat \<Rightarrow> 32 word" where
  "readU32LE d off =
     ucast (d ! off) OR push_bit 8 (ucast (d ! (off + 1))) OR push_bit 16 (ucast (d ! (off + 2))) OR
     push_bit 24 (ucast (d ! (off + 3)))"

text \<open>Big integers: from the highest byte down, shifted by eight bits each time.\<close>

definition readU64LE :: "bytes \<Rightarrow> nat \<Rightarrow> int" where
  "readU64LE d off = foldl (\<lambda>v i. push_bit 8 v OR uint (d ! (off + i))) 0 (rev [0..<8])"

definition STATE_PROGRAM :: "32 word" where "STATE_PROGRAM = 2"

definition STATE_PROGRAM_DATA :: "32 word" where "STATE_PROGRAM_DATA = 3"

definition IX_SET_AUTHORITY :: "32 word" where "IX_SET_AUTHORITY = 4"

definition BPF_UPGRADEABLE_LOADER_ID :: string where
  "BPF_UPGRADEABLE_LOADER_ID = ''BPFLoaderUpgradeab1e11111111111111111111111''"

definition parseProgramAccount :: "(bytes \<Rightarrow> string) \<Rightarrow> bytes \<Rightarrow> string result" where
  "parseProgramAccount base58 data =
     bindE (throwIf (length data < 4 + 32) (GenericError ''program account too short'')) (\<lambda>_.
     bindE (throwIf (readU32LE data 0 \<noteq> STATE_PROGRAM) (GenericError ''not an upgradeable program'')) (\<lambda>_.
     Inr (base58 (take 32 (drop 4 data)))))"

definition parseUpgradeAuthority :: "(bytes \<Rightarrow> string) \<Rightarrow> bytes \<Rightarrow> (int \<times> string option) result" where
  "parseUpgradeAuthority base58 data =
     bindE (throwIf (length data < 4 + 8 + 1) (GenericError ''programdata account too short'')) (\<lambda>_.
     bindE (throwIf (readU32LE data 0 \<noteq> STATE_PROGRAM_DATA) (GenericError ''programdata enum tag != ProgramData'')) (\<lambda>_.
     let slot = readU64LE data 4; optionTag = data ! 12 in
     if optionTag = 0 then Inr (slot, None)
     else bindE (throwIf (optionTag \<noteq> 1) (GenericError ''programdata Option tag is neither None(0) nor Some(1)'')) (\<lambda>_.
          bindE (throwIf (length data < 13 + 32) (GenericError ''programdata truncated'')) (\<lambda>_.
          Inr (slot, Some (base58 (take 32 (drop 13 data))))))))"

section \<open>The verdicts\<close>

datatype AuthorityStatus = SECURED | IMMUTABLE | UNSAFE | MISCONFIGURED

record Verdict =
  vd_status :: AuthorityStatus
  vd_ok :: bool
  vd_canHandoff :: bool

definition evaluateUpgradeAuthority :: "string option \<Rightarrow> string \<Rightarrow> string option \<Rightarrow> Verdict" where
  "evaluateUpgradeAuthority current expectedMultisig payer =
     (let expected = trim expectedMultisig
      in if expected = [] then \<lparr>vd_status = MISCONFIGURED, vd_ok = False, vd_canHandoff = False\<rparr>
         else (case current of
             None \<Rightarrow> \<lparr>vd_status = IMMUTABLE, vd_ok = True, vd_canHandoff = False\<rparr>
           | Some cur \<Rightarrow>
               if cur = expected then \<lparr>vd_status = SECURED, vd_ok = True, vd_canHandoff = False\<rparr>
               else \<lparr>vd_status = UNSAFE, vd_ok = False,
                     vd_canHandoff = (case payer of None \<Rightarrow> False | Some p \<Rightarrow> p \<noteq> [] \<and> cur = p)\<rparr>))"

record MetadataState =
  md_updateAuthority :: "string option"
  md_pointerAuthority :: "string option"

definition unsafeFields :: "MetadataState \<Rightarrow> string \<Rightarrow> string list" where
  "unsafeFields s expected =
     filter (\<lambda>v. v \<noteq> expected) (List.map_filter id [md_updateAuthority s, md_pointerAuthority s])"

definition evaluateMetadataAuthority :: "MetadataState \<Rightarrow> string \<Rightarrow> string option \<Rightarrow> Verdict" where
  "evaluateMetadataAuthority s rawExpected payer =
     (let expected = trim rawExpected
      in if expected = [] then \<lparr>vd_status = MISCONFIGURED, vd_ok = False, vd_canHandoff = False\<rparr>
         else if md_updateAuthority s = None \<and> md_pointerAuthority s = None
         then \<lparr>vd_status = IMMUTABLE, vd_ok = True, vd_canHandoff = False\<rparr>
         else if unsafeFields s expected = [] then \<lparr>vd_status = SECURED, vd_ok = True, vd_canHandoff = False\<rparr>
         else \<lparr>vd_status = UNSAFE, vd_ok = False,
               vd_canHandoff = (case payer of None \<Rightarrow> False
                 | Some p \<Rightarrow> p \<noteq> [] \<and> list_all (\<lambda>v. v = p) (unsafeFields s expected))\<rparr>)"

text \<open>An account of either token program with the fixed size of a multisig.\<close>

definition MULTISIG_SIZE :: nat where "MULTISIG_SIZE = 355"

definition TOKEN_PROGRAM_IDS :: "string set" where
  "TOKEN_PROGRAM_IDS = {''TokenkegQfeZyiNwAJbNbGKPFXCWuBvf9Ss623VQ5DA'', ''TokenzQdBNbLqP5VEhdkAS6EPFLC1PHnBqCXEpPxuEb''}"

definition isSplTokenMultisigAccount :: "string \<Rightarrow> nat \<Rightarrow> bool" where
  "isSplTokenMultisigAccount owner dataLength \<longleftrightarrow> dataLength = MULTISIG_SIZE \<and> owner \<in> TOKEN_PROGRAM_IDS"

section \<open>The instructions\<close>

datatype AuthorityIx =
    SetMetadataPointer string string string
  | UpdateMetadataAuthority string string string

text \<open>The target of an instruction, and the key that has to sign it.\<close>

fun ixTarget :: "AuthorityIx \<Rightarrow> string" where
  "ixTarget (SetMetadataPointer account current new) = new"
| "ixTarget (UpdateMetadataAuthority account current new) = new"

fun ixSigner :: "AuthorityIx \<Rightarrow> string" where
  "ixSigner (SetMetadataPointer account current new) = current"
| "ixSigner (UpdateMetadataAuthority account current new) = current"

definition buildMetadataHandoffIxs :: "string \<Rightarrow> MetadataState \<Rightarrow> string \<Rightarrow> AuthorityIx list" where
  "buildMetadataHandoffIxs mint s target =
     (case md_pointerAuthority s of None \<Rightarrow> []
      | Some p \<Rightarrow> if p = target then [] else [SetMetadataPointer mint p target]) @
     (case md_updateAuthority s of None \<Rightarrow> []
      | Some u \<Rightarrow> if u = target then [] else [UpdateMetadataAuthority mint u target])"

text \<open>
  The loader instruction as it goes over the wire: its program, its accounts with the signer and the
  writable flag, and the four bytes of the discriminant.
\<close>

record LoaderIx =
  lx_programId :: string
  lx_keys :: "(string \<times> bool \<times> bool) list"
  lx_data :: bytes

definition writeU32LE :: "32 word \<Rightarrow> bytes" where
  "writeU32LE n = [ucast n, ucast (drop_bit 8 n), ucast (drop_bit 16 n), ucast (drop_bit 24 n)]"

definition buildSetUpgradeAuthorityIx :: "string \<Rightarrow> string \<Rightarrow> string \<Rightarrow> LoaderIx" where
  "buildSetUpgradeAuthorityIx programData currentAuthority newAuthority =
     \<lparr>lx_programId = BPF_UPGRADEABLE_LOADER_ID,
      lx_keys = [(programData, False, True), (currentAuthority, True, False), (newAuthority, False, False)],
      lx_data = writeU32LE IX_SET_AUTHORITY\<rparr>"

section \<open>The scripts\<close>

record AuthorityConfig =
  ay_account :: string
  ay_expected :: string
  ay_payer :: "string option"
  ay_apply :: bool

text \<open>Of the library: the program-data address, a parsed key in its base58 form, base58 of bytes.\<close>

record AuthorityLib =
  al_programData :: "string \<Rightarrow> string"
  al_publicKey :: "string \<Rightarrow> string result"
  al_base58 :: "bytes \<Rightarrow> string"

datatype 'ix Step = Finished bool | Send 'ix

text \<open>
  \<open>getAccountInfo\<close> reads owner and data of an account. \<open>Finished True\<close> is the safe verdict,
  \<open>Finished False\<close> the dry run that ends with exit code 2.
\<close>

type_synonym 'c account_read = "string \<Rightarrow> 'c \<Rightarrow> (string \<times> bytes) option result"

definition readUpgradeAuthority :: "AuthorityLib \<Rightarrow> 'c account_read \<Rightarrow> string \<Rightarrow> 'c \<Rightarrow> string option result" where
  "readUpgradeAuthority L read programData c =
     bindE (read programData c) (\<lambda>acct. case acct of
       None \<Rightarrow> Inl (GenericError ''programData not found'')
     | Some (_, data) \<Rightarrow> bindE (parseUpgradeAuthority (al_base58 L) data) (\<lambda>(_, authority). Inr authority))"

definition programStep :: "AuthorityLib \<Rightarrow> AuthorityConfig \<Rightarrow> 'c account_read \<Rightarrow> 'c \<Rightarrow> LoaderIx Step result" where
  "programStep L cfg read c =
     bindE (throwIf (ay_account cfg = []) (GenericError ''SOLANA_DEPOSIT_PROGRAM_ID required.'')) (\<lambda>_.
     bindE (al_publicKey L (ay_account cfg)) (\<lambda>programId.
     let programData = al_programData L programId in
     bindE (read programId c) (\<lambda>acct. case acct of
       None \<Rightarrow> Inl (GenericError ''program not found'')
     | Some (_, data) \<Rightarrow>
     bindE (parseProgramAccount (al_base58 L) data) (\<lambda>declared.
     bindE (throwIf (declared \<noteq> programData) (GenericError ''unexpected loader state'')) (\<lambda>_.
     bindE (readUpgradeAuthority L read programData c) (\<lambda>authority.
     let verdict = evaluateUpgradeAuthority authority (ay_expected cfg) (ay_payer cfg) in
     if vd_ok verdict then Inr (Finished True)
     else if \<not> ay_apply cfg then Inr (Finished False)
     else if \<not> vd_canHandoff verdict then Inl (GenericError ''cannot hand off'')
     else (case ay_payer cfg of
         None \<Rightarrow> Inl (GenericError ''SOLANA_PAYER_SECRET required to APPLY.'')
       | Some payer \<Rightarrow> bindE (al_publicKey L (ay_expected cfg)) (\<lambda>new.
           Inr (Send (buildSetUpgradeAuthorityIx programData payer new))))))))))"

text \<open>The result tells whether the authority is known to be safe; what was sent is read back.\<close>

definition enforceProgramAuthority ::
  "AuthorityLib \<Rightarrow> AuthorityConfig \<Rightarrow> 'c account_read \<Rightarrow> (LoaderIx \<Rightarrow> 'c \<Rightarrow> unit result \<times> 'c) \<Rightarrow> 'c \<Rightarrow> bool result \<times> 'c" where
  "enforceProgramAuthority L cfg read send c =
     (case programStep L cfg read c of
        Inl e \<Rightarrow> (Inl e, c)
      | Inr (Finished b) \<Rightarrow> (Inr b, c)
      | Inr (Send ix) \<Rightarrow>
          (case send ix c of
             (Inl e, c1) \<Rightarrow> (Inl e, c1)
           | (Inr _, c1) \<Rightarrow>
               (bindE (bindE (al_publicKey L (ay_account cfg)) (\<lambda>programId.
                  readUpgradeAuthority L read (al_programData L programId) c1)) (\<lambda>post.
                if post \<noteq> Some (ay_expected cfg) then Inl (GenericError ''hand-off FAILED'') else Inr True), c1)))"

text \<open>
  \<open>readMint\<close>: the two extensions of the parsed mint account; a later extension of the same name wins,
  a missing one reads as frozen.
\<close>

datatype MintExtension = TokenMetadata "string option" | MetadataPointerExt "string option" | OtherExtension

definition mintState :: "MintExtension list \<Rightarrow> MetadataState" where
  "mintState exts = foldl (\<lambda>s x. case x of
       TokenMetadata a \<Rightarrow> s\<lparr>md_updateAuthority := a\<rparr>
     | MetadataPointerExt a \<Rightarrow> s\<lparr>md_pointerAuthority := a\<rparr>
     | OtherExtension \<Rightarrow> s) \<lparr>md_updateAuthority = None, md_pointerAuthority = None\<rparr> exts"

definition readMint :: "('c \<Rightarrow> MintExtension list option result) \<Rightarrow> 'c \<Rightarrow> MetadataState result" where
  "readMint parsed c =
     bindE (parsed c) (\<lambda>info. case info of
       None \<Rightarrow> Inl (GenericError ''mint not found or not jsonParsed'') | Some exts \<Rightarrow> Inr (mintState exts))"

definition metadataStep ::
  "AuthorityLib \<Rightarrow> AuthorityConfig \<Rightarrow> ('c \<Rightarrow> MintExtension list option result) \<Rightarrow> 'c account_read \<Rightarrow>
   (AuthorityIx list \<Rightarrow> 'c \<Rightarrow> unit result) \<Rightarrow> 'c \<Rightarrow> AuthorityIx list Step result" where
  "metadataStep L cfg parsed read simulate c =
     bindE (throwIf (ay_account cfg = []) (GenericError ''SOLANA_WVIZ_MINT required.'')) (\<lambda>_.
     bindE (al_publicKey L (ay_account cfg)) (\<lambda>mint.
     bindE (readMint parsed c) (\<lambda>s.
     let verdict = evaluateMetadataAuthority s (ay_expected cfg) (ay_payer cfg) in
     if vd_ok verdict then Inr (Finished True)
     else
     bindE (al_publicKey L (ay_expected cfg)) (\<lambda>target.
     bindE (read target c) (\<lambda>acct.
     bindE (throwIf (case acct of None \<Rightarrow> False | Some (owner, data) \<Rightarrow> isSplTokenMultisigAccount owner (length data))
       (GenericError ''SOLANA_METADATA_AUTHORITY is an SPL token multisig account'')) (\<lambda>_.
     let ixs = buildMetadataHandoffIxs mint s target in
     bindE (throwIf (ixs = []) (GenericError ''UNSAFE verdict but nothing to move'')) (\<lambda>_.
     if \<not> ay_apply cfg then bindE (simulate ixs c) (\<lambda>_. Inr (Finished False))
     else if \<not> vd_canHandoff verdict then Inl (GenericError ''cannot hand off'')
     else (case ay_payer cfg of
         None \<Rightarrow> Inl (GenericError ''SOLANA_PAYER_SECRET required to APPLY.'')
       | Some _ \<Rightarrow> Inr (Send ixs)))))))))"

definition enforceMetadataAuthority ::
  "AuthorityLib \<Rightarrow> AuthorityConfig \<Rightarrow> ('c \<Rightarrow> MintExtension list option result) \<Rightarrow> 'c account_read \<Rightarrow>
   (AuthorityIx list \<Rightarrow> 'c \<Rightarrow> unit result) \<Rightarrow> (AuthorityIx list \<Rightarrow> 'c \<Rightarrow> unit result \<times> 'c) \<Rightarrow> 'c \<Rightarrow> bool result \<times> 'c" where
  "enforceMetadataAuthority L cfg parsed read simulate send c =
     (case metadataStep L cfg parsed read simulate c of
        Inl e \<Rightarrow> (Inl e, c)
      | Inr (Finished b) \<Rightarrow> (Inr b, c)
      | Inr (Send ixs) \<Rightarrow>
          (case send ixs c of
             (Inl e, c1) \<Rightarrow> (Inl e, c1)
           | (Inr _, c1) \<Rightarrow>
               (bindE (readMint parsed c1) (\<lambda>after.
                if \<not> vd_ok (evaluateMetadataAuthority after (ay_expected cfg) None)
                then Inl (GenericError ''hand-off FAILED'') else Inr True), c1)))"

section \<open>The account parsers\<close>

text \<open>The two 32-bit codecs are inverse to each other.\<close>

lemma readU32LE_write: "readU32LE (writeU32LE n @ rest) 0 = n"
proof (rule bit_word_eqI)
  fix i
  assume "i < LENGTH(32)"
  then show "bit (readU32LE (writeU32LE n @ rest) 0) i = bit n i"
    by (cases "24 \<le> i"; cases "16 \<le> i"; cases "8 \<le> i") (auto simp: readU32LE_def writeU32LE_def bit_simps)
qed

text \<open>The layout of the loader: numbers are little-endian, the key follows an option tag.\<close>

fun leBytes :: "nat \<Rightarrow> int \<Rightarrow> bytes" where
  "leBytes 0 v = []"
| "leBytes (Suc n) v = word_of_int v # leBytes n (v div 256)"

lemma length_leBytes [simp]: "length (leBytes n v) = n"
  by (induction n arbitrary: v) auto

lemma div_pow: "(v :: int) div 256 div 256 ^ k = v div 256 ^ Suc k"
  by (simp add: zdiv_zmult2_eq)

lemma nth_leBytes: "i < n \<Longrightarrow> leBytes n v ! i = word_of_int (v div 256 ^ i)"
proof (induction n arbitrary: v i)
  case (Suc n)
  then show ?case by (cases i) (simp_all only: leBytes.simps nth_Cons_0 nth_Cons_Suc Suc_less_eq div_pow power_0 div_by_1)
qed simp

lemma shift_or: "push_bit 8 v OR uint (b :: 8 word) = 256 * v + uint b"
proof -
  have "push_bit 8 v AND uint b = 0"
    by (rule bit_eqI) (use bit_imp_le_length [of b] in \<open>fastforce simp: bit_simps\<close>)
  then have "push_bit 8 v OR uint b = push_bit 8 v + uint b" by (simp add: disjunctive_add_eq_or)
  then show ?thesis by (simp add: push_bit_eq_mult)
qed

text \<open>Reading from the highest byte down is the value of the bytes.\<close>

lemma horner:
  fixes v :: int
  assumes "\<And>i. i < n \<Longrightarrow> b i = v div 256 ^ i mod 256" "0 \<le> v" "v < 256 ^ n"
  shows "foldl (\<lambda>a i. 256 * a + b i) 0 (rev [0..<n]) = v"
proof -
  have "foldl (\<lambda>a i. 256 * a + b i) (v div 256 ^ n) (rev [0..<n]) = v"
    using assms(1)
  proof (induction n)
    case (Suc n)
    have "256 * (v div 256 ^ Suc n) + b n = v div 256 ^ n"
      using Suc.prems [of n] by (simp add: power_Suc2 zdiv_zmult2_eq del: power_Suc)
    then show ?case using Suc by simp
  qed simp
  then show ?thesis using assms(2,3) by simp
qed


lemma readU64LE_leBytes:
  assumes "0 \<le> v" "v < 2 ^ 64"
  shows "readU64LE (pre @ leBytes 8 v @ rest) (length pre) = v"
proof -
  let ?d = "pre @ leBytes 8 v @ rest"
  have b: "uint (?d ! (length pre + i)) = v div 256 ^ i mod 256" if "i < 8" for i
    using that by (simp add: nth_append nth_leBytes uint_word_of_int)
  have "readU64LE ?d (length pre) = foldl (\<lambda>a i. 256 * a + uint (?d ! (length pre + i))) 0 (rev [0..<8])"
    by (simp only: readU64LE_def shift_or)
  also have "\<dots> = v" using b assms by (intro horner) auto
  finally show ?thesis .
qed

text \<open>A program-data account with a slot and an authority reads back as it was written.\<close>

definition programDataBytes :: "int \<Rightarrow> bytes option \<Rightarrow> bytes \<Rightarrow> bytes" where
  "programDataBytes slot authority rest =
     [3, 0, 0, 0] @ leBytes 8 slot @ (case authority of None \<Rightarrow> [0] | Some k \<Rightarrow> 1 # k) @ rest"

lemma programDataBytes_at:
  "readU32LE (programDataBytes slot authority rest) 0 = STATE_PROGRAM_DATA"
  "programDataBytes slot authority rest ! 12 = (case authority of None \<Rightarrow> 0 | Some _ \<Rightarrow> 1)"
  "drop 13 (programDataBytes slot authority rest) = (case authority of None \<Rightarrow> rest | Some k \<Rightarrow> k @ rest)"
  by (simp_all add: programDataBytes_def readU32LE_def STATE_PROGRAM_DATA_def nth_append split: option.split)

lemma parse_programData:
  assumes "0 \<le> slot" "slot < 2 ^ 64" "\<And>k. authority = Some k \<Longrightarrow> length k = 32"
  shows "parseUpgradeAuthority base58 (programDataBytes slot authority rest) = Inr (slot, map_option base58 authority)"
proof -
  have l: "length [3, 0, 0, 0 :: 8 word] = 4" by simp
  have "readU64LE ([3, 0, 0, 0] @ leBytes 8 slot @ t) 4 = slot" for t
    using readU64LE_leBytes [OF assms(1,2), of "[3, 0, 0, 0]" t] by (simp only: l)
  then have "readU64LE (programDataBytes slot authority rest) 4 = slot"
    by (simp only: programDataBytes_def append_assoc)
  moreover have "13 \<le> length (programDataBytes slot authority rest)"
    "\<And>k. authority = Some k \<Longrightarrow> 45 \<le> length (programDataBytes slot authority rest)"
    using assms(3) by (auto simp: programDataBytes_def split: option.split)
  ultimately show ?thesis
    using assms(3) by (cases authority) (auto simp: parseUpgradeAuthority_def programDataBytes_at)
qed

section \<open>What the scripts guarantee\<close>

lemma evaluateUpgrade_ok:
  "vd_ok (evaluateUpgradeAuthority cur e p) \<Longrightarrow> trim e \<noteq> [] \<and> (cur = None \<or> cur = Some (trim e))"
  by (auto simp: evaluateUpgradeAuthority_def Let_def split: option.splits if_splits)

lemma evaluateUpgrade_handoff:
  "vd_canHandoff (evaluateUpgradeAuthority cur e p) \<Longrightarrow> p = cur \<and> cur \<noteq> None \<and> cur \<noteq> Some (trim e)"
  by (auto simp: evaluateUpgradeAuthority_def Let_def split: option.splits if_splits)

text \<open>
  The program script ends well only when the authority that stands on the chain at the end is none or
  the configured one; it sends at most one instruction, and only when its own key held the authority.
\<close>

lemma some_pair_eq_Inr:
  "(case x of None \<Rightarrow> Inl e | Some (a, b) \<Rightarrow> f a b) = Inr y \<longleftrightarrow> (\<exists>a b. x = Some (a, b) \<and> f a b = Inr y)"
  by (auto split: option.split)

lemma programStep_result:
  assumes "programStep L cfg read c = Inr st"
  shows "\<exists>programId authority. al_publicKey L (ay_account cfg) = Inr programId \<and>
    readUpgradeAuthority L read (al_programData L programId) c = Inr authority \<and>
    (st = Finished True \<longrightarrow> authority = None \<or> authority = Some (trim (ay_expected cfg))) \<and>
    (\<forall>ix. st = Send ix \<longrightarrow> (\<exists>payer new. authority = Some payer \<and> ay_payer cfg = Some payer \<and> ay_apply cfg \<and>
       al_publicKey L (ay_expected cfg) = Inr new \<and> ix = buildSetUpgradeAuthorityIx (al_programData L programId) payer new))"
proof -
  from assms obtain programId authority where 1: "al_publicKey L (ay_account cfg) = Inr programId"
    "readUpgradeAuthority L read (al_programData L programId) c = Inr authority"
    and r: "(let verdict = evaluateUpgradeAuthority authority (ay_expected cfg) (ay_payer cfg) in
     if vd_ok verdict then Inr (Finished True)
     else if \<not> ay_apply cfg then Inr (Finished False)
     else if \<not> vd_canHandoff verdict then Inl (GenericError ''cannot hand off'')
     else (case ay_payer cfg of
         None \<Rightarrow> Inl (GenericError ''SOLANA_PAYER_SECRET required to APPLY.'')
       | Some payer \<Rightarrow> bindE (al_publicKey L (ay_expected cfg)) (\<lambda>new.
           Inr (Send (buildSetUpgradeAuthorityIx (al_programData L programId) payer new))))) = Inr st"
    unfolding programStep_def Let_def bindE_eq_Inr some_pair_eq_Inr throwIf_eq_Inr by blast
  show ?thesis
    using 1 r evaluateUpgrade_ok [of authority "ay_expected cfg" "ay_payer cfg"]
      evaluateUpgrade_handoff [of authority "ay_expected cfg" "ay_payer cfg"]
    by (intro exI [of _ programId] exI [of _ authority])
       (auto simp: Let_def err_simps split: if_splits option.splits)
qed

lemma enforced_upgrade_authority:
  assumes "enforceProgramAuthority L cfg read send c = (Inr True, c')" "trim (ay_expected cfg) = ay_expected cfg"
  shows "\<exists>programId authority. al_publicKey L (ay_account cfg) = Inr programId \<and>
    readUpgradeAuthority L read (al_programData L programId) c' = Inr authority \<and>
    (authority = None \<or> authority = Some (ay_expected cfg)) \<and>
    (c' = c \<or> (\<exists>payer new. readUpgradeAuthority L read (al_programData L programId) c = Inr (Some payer) \<and>
       send (buildSetUpgradeAuthorityIx (al_programData L programId) payer new) c = (Inr (), c') \<and>
       authority = Some (ay_expected cfg)))"
proof (cases "programStep L cfg read c")
  case (Inl e)
  then show ?thesis using assms(1) by (simp add: enforceProgramAuthority_def)
next
  case (Inr st)
  from programStep_result [OF this] obtain programId authority where r: "al_publicKey L (ay_account cfg) = Inr programId"
    "readUpgradeAuthority L read (al_programData L programId) c = Inr authority"
    "st = Finished True \<longrightarrow> authority = None \<or> authority = Some (trim (ay_expected cfg))"
    "\<forall>ix. st = Send ix \<longrightarrow> (\<exists>payer new. authority = Some payer \<and> ay_payer cfg = Some payer \<and> ay_apply cfg \<and>
       al_publicKey L (ay_expected cfg) = Inr new \<and> ix = buildSetUpgradeAuthorityIx (al_programData L programId) payer new)"
    by (elim exE conjE) (rule that)
  show ?thesis
  proof (cases st)
    case (Finished b)
    with assms Inr r show ?thesis by (auto simp: enforceProgramAuthority_def)
  next
    case (Send ix)
    from r(4) [rule_format, OF this] obtain payer new where ix: "authority = Some payer"
      "ix = buildSetUpgradeAuthorityIx (al_programData L programId) payer new" by blast
    have "send ix c = (Inr (), c') \<and> readUpgradeAuthority L read (al_programData L programId) c' = Inr (Some (ay_expected cfg))"
      using assms(1) Inr Send r(1)
      by (auto simp: enforceProgramAuthority_def err_simps split: prod.splits sum.splits if_splits)
    with r ix show ?thesis by auto
  qed
qed

text \<open>
  The metadata script moves authorities only from the payer's own key to the configured target, moves
  every one that is not there yet, and never hands them to an SPL multisig account.
\<close>

lemma handoff_ixs:
  "ix \<in> set (buildMetadataHandoffIxs mint s target) \<Longrightarrow> ixTarget ix = target \<and>
     ixSigner ix \<in> set (unsafeFields s target)"
  by (cases "md_updateAuthority s"; cases "md_pointerAuthority s")
     (auto simp: buildMetadataHandoffIxs_def unsafeFields_def List.map_filter_simps split: if_splits)

lemma handoff_covers:
  "set (unsafeFields s target) = ixSigner ` set (buildMetadataHandoffIxs mint s target)"
  by (cases "md_updateAuthority s"; cases "md_pointerAuthority s")
     (auto simp: buildMetadataHandoffIxs_def unsafeFields_def List.map_filter_simps split: if_splits)

lemma evaluateMetadata_handoff:
  assumes "vd_canHandoff (evaluateMetadataAuthority s e p)"
  shows "\<exists>payer. p = Some payer \<and> (\<forall>v \<in> set (unsafeFields s (trim e)). v = payer)"
  using assms by (auto simp: evaluateMetadataAuthority_def Let_def list_all_iff split: option.splits if_splits)

lemma metadataStep_sends:
  assumes "metadataStep L cfg parsed read simulate c = Inr (Send ixs)" "al_publicKey L (ay_expected cfg) = Inr (trim (ay_expected cfg))"
  shows "\<exists>payer. ay_apply cfg \<and> ay_payer cfg = Some payer \<and> ixs \<noteq> [] \<and>
    (\<forall>ix \<in> set ixs. ixTarget ix = trim (ay_expected cfg) \<and> ixSigner ix = payer) \<and>
    (\<forall>owner data. read (trim (ay_expected cfg)) c = Inr (Some (owner, data)) \<longrightarrow>
       \<not> isSplTokenMultisigAccount owner (length data))"
proof -
  let ?t = "trim (ay_expected cfg)"
  from assms obtain s mint acct where r: "vd_canHandoff (evaluateMetadataAuthority s (ay_expected cfg) (ay_payer cfg))"
    "ixs = buildMetadataHandoffIxs mint s ?t" "ixs \<noteq> []" "ay_apply cfg" "read ?t c = Inr acct"
    "\<not> (case acct of None \<Rightarrow> False | Some (owner, data) \<Rightarrow> isSplTokenMultisigAccount owner (length data))"
    unfolding metadataStep_def Let_def by (auto simp: err_simps split: if_splits option.splits)
  from evaluateMetadata_handoff [OF r(1)] obtain payer where p: "ay_payer cfg = Some payer"
    "\<forall>v \<in> set (unsafeFields s ?t). v = payer" by blast
  show ?thesis using r p handoff_ixs by fastforce
qed

text \<open>A mint account without the two extensions passes as frozen.\<close>

lemma missing_extensions_pass:
  "trim e \<noteq> [] \<Longrightarrow> vd_ok (evaluateMetadataAuthority (mintState [OtherExtension]) e p)"
  by (simp add: evaluateMetadataAuthority_def mintState_def)

end
