(* ===== verification/MintDeploy.thy ===== *)
theory MintDeploy
  imports AuthorityChecks
begin

text \<open>
  The deployment of the wVIZ mint (\<open>contracts/solana/src/deployMint.ts\<close>) and the settings of the
  Solana scripts (\<open>contracts/solana/src/config.ts\<close>), composed with the hand-off of the metadata
  authorities. The two fresh key pairs, the sizes of the accounts, the rent, \<open>createMultisig\<close> and
  \<open>sendAndConfirmTransaction\<close>, which act on a world \<open>'c\<close>, are arguments; so are the parsers of key
  pairs and public keys. The URL of the node selects the connection and is left out.
\<close>

section \<open>config.ts\<close>

text \<open>This \<open>int\<close> does not refuse \<open>NaN\<close>, which is \<open>None\<close> here.\<close>

definition deployInt :: "environment \<Rightarrow> string \<Rightarrow> int \<Rightarrow> int option" where
  "deployInt E name dflt = (case envSet E name of None \<Rightarrow> Some dflt | Some v \<Rightarrow> parseInt10 v)"

definition loadPayer :: "(string \<Rightarrow> string result) \<Rightarrow> string \<Rightarrow> string option result" where
  "loadPayer keypair secret =
     (if secret = [] then Inr None
      else bindE (throwIf (\<not> startsWith (trim secret) ''['')
          (GenericError ''SOLANA_PAYER_SECRET must be a JSON byte array (solana-keygen format).'')) (\<lambda>_.
        bindE (keypair secret) (\<lambda>k. Inr (Some k))))"

definition loadSecret :: "(string \<Rightarrow> string result) \<Rightarrow> environment \<Rightarrow> string \<Rightarrow> string option result" where
  "loadSecret bytesOf E name =
     (let v = envOpt E name []
      in if v = [] then Inr None
         else bindE (throwIf (\<not> startsWith (trim v) ''['')
             (GenericError (name @ '' must be a JSON byte array (solana-keygen format).''))) (\<lambda>_.
           bindE (bytesOf v) (\<lambda>b. Inr (Some b))))"

record DeployConfig =
  dm_payer :: "string option"
  dm_signers :: "string list"
  dm_threshold :: "int option"
  dm_decimals :: "int option"
  dm_name :: string
  dm_symbol :: string
  dm_uri :: string
  dm_apply :: bool

definition loadSolanaDeployConfig ::
  "(string \<Rightarrow> string result) \<Rightarrow> (string \<Rightarrow> string result) \<Rightarrow> environment \<Rightarrow> DeployConfig result" where
  "loadSolanaDeployConfig keypair publicKey E =
     bindE (loadPayer keypair (envOpt E ''SOLANA_PAYER_SECRET'' [])) (\<lambda>payer.
     bindE (mapE publicKey (commaList (envOpt E ''SOLANA_SIGNERS'' []))) (\<lambda>signers.
     Inr \<lparr>dm_payer = payer, dm_signers = signers, dm_threshold = deployInt E ''SOLANA_THRESHOLD'' 1,
          dm_decimals = deployInt E ''WVIZ_DECIMALS'' 3, dm_name = envOpt E ''WVIZ_NAME'' ''Wrapped VIZ'',
          dm_symbol = envOpt E ''WVIZ_SYMBOL'' ''wVIZ'',
          dm_uri = envOpt E ''WVIZ_URI'' ''https://raw.githubusercontent.com/viz-cx/viz-gateway/main/metadata/wviz.json'',
          dm_apply = (envOpt E ''DEPLOY_SEND'' ''0'' = ''1'')\<rparr>))"

definition loadSolanaProgramAuthorityConfig :: "(string \<Rightarrow> string result) \<Rightarrow> environment \<Rightarrow> AuthorityConfig result" where
  "loadSolanaProgramAuthorityConfig keypair E =
     bindE (loadPayer keypair (envOpt E ''SOLANA_PAYER_SECRET'' [])) (\<lambda>payer.
     Inr \<lparr>ay_account = envOpt E ''SOLANA_DEPOSIT_PROGRAM_ID'' [],
          ay_expected = trim (envOpt E ''SOLANA_UPGRADE_MULTISIG'' []), ay_payer = payer,
          ay_apply = (envOpt E ''APPLY'' ''0'' = ''1'')\<rparr>)"

definition loadSolanaMetadataAuthorityConfig :: "(string \<Rightarrow> string result) \<Rightarrow> environment \<Rightarrow> AuthorityConfig result" where
  "loadSolanaMetadataAuthorityConfig keypair E =
     bindE (loadPayer keypair (envOpt E ''SOLANA_PAYER_SECRET'' [])) (\<lambda>payer.
     Inr \<lparr>ay_account = envOpt E ''SOLANA_WVIZ_MINT'' [],
          ay_expected = trim (envOpt E ''SOLANA_METADATA_AUTHORITY'' []), ay_payer = payer,
          ay_apply = (envOpt E ''APPLY'' ''0'' = ''1'')\<rparr>)"

section \<open>deployMint.ts\<close>

datatype DeployIx =
    CreateMintAccount (cm_from: string) (cm_account: string) (cm_space: nat) (cm_lamports: int)
  | InitMetadataPointer (ip_mint: string) (ip_authority: string) (ip_address: string)
  | InitMint (im_mint: string) (im_decimals: "int option") (im_mintAuthority: string) (im_freezeAuthority: string)
  | InitMetadata (it_mint: string) (it_name: string) (it_symbol: string) (it_uri: string)
      (it_mintAuthority: string) (it_updateAuthority: string)

definition deployIxs :: "DeployConfig \<Rightarrow> string \<Rightarrow> string \<Rightarrow> string \<Rightarrow> nat \<Rightarrow> int \<Rightarrow> DeployIx list" where
  "deployIxs cfg payer mint multisig mintLen lamports =
     [CreateMintAccount payer mint mintLen lamports,
      InitMetadataPointer mint payer mint,
      InitMint mint (dm_decimals cfg) multisig multisig,
      InitMetadata mint (dm_name cfg) (dm_symbol cfg) (dm_uri cfg) multisig payer]"

text \<open>
  \<open>main\<close> with its two fresh keys: the rent is read in the dry run too; the flag tells whether the
  mint was created. The multisig is created first, and its address is what \<open>createMultisig\<close> returns.
\<close>

definition deployMint ::
  "DeployConfig \<Rightarrow> string \<Rightarrow> string \<Rightarrow> nat \<Rightarrow> nat \<Rightarrow> (nat \<Rightarrow> 'c \<Rightarrow> int result) \<Rightarrow>
   (string \<Rightarrow> string list \<Rightarrow> int option \<Rightarrow> string \<Rightarrow> 'c \<Rightarrow> string result \<times> 'c) \<Rightarrow>
   (DeployIx list \<Rightarrow> string list \<Rightarrow> 'c \<Rightarrow> unit result \<times> 'c) \<Rightarrow> 'c \<Rightarrow> bool result \<times> 'c" where
  "deployMint cfg mint multisig mintLen metadataLen rent createMultisig send c =
     (case rent (mintLen + metadataLen) c of
        Inl e \<Rightarrow> (Inl e, c)
      | Inr lamports \<Rightarrow>
          if \<not> dm_apply cfg then (Inr False, c)
          else (case dm_payer cfg of
              None \<Rightarrow> (Inl (GenericError ''SOLANA_PAYER_SECRET required to APPLY.''), c)
            | Some payer \<Rightarrow>
                if dm_signers cfg = [] then (Inl (GenericError ''SOLANA_SIGNERS required to APPLY.''), c)
                else (case createMultisig payer (dm_signers cfg) (dm_threshold cfg) multisig c of
                    (Inl e, c1) \<Rightarrow> (Inl e, c1)
                  | (Inr addr, c1) \<Rightarrow>
                      (case send (deployIxs cfg payer mint addr mintLen lamports) [payer, mint, multisig] c1 of
                         (Inl e, c2) \<Rightarrow> (Inl e, c2)
                       | (Inr _, c2) \<Rightarrow> (Inr True, c2)))))"

section \<open>From the deployment to the hand-off\<close>

text \<open>
  What the token program does with the authorities: the initialisation sets them, a hand-off signed by
  the holder replaces them.
\<close>

fun initMetadataState :: "DeployIx list \<Rightarrow> MetadataState" where
  "initMetadataState [] = \<lparr>md_updateAuthority = None, md_pointerAuthority = None\<rparr>"
| "initMetadataState (InitMetadataPointer m a addr # ixs) = (initMetadataState ixs)\<lparr>md_pointerAuthority := Some a\<rparr>"
| "initMetadataState (InitMetadata m n sy uri ma ua # ixs) = (initMetadataState ixs)\<lparr>md_updateAuthority := Some ua\<rparr>"
| "initMetadataState (CreateMintAccount a b d l # ixs) = initMetadataState ixs"
| "initMetadataState (InitMint a b d f # ixs) = initMetadataState ixs"

fun applyHandoff :: "AuthorityIx \<Rightarrow> MetadataState \<Rightarrow> MetadataState" where
  "applyHandoff (SetMetadataPointer m cur new) s =
     (if md_pointerAuthority s = Some cur then s\<lparr>md_pointerAuthority := Some new\<rparr> else s)"
| "applyHandoff (UpdateMetadataAuthority m cur new) s =
     (if md_updateAuthority s = Some cur then s\<lparr>md_updateAuthority := Some new\<rparr> else s)"

text \<open>A fresh mint is never safe for any other key than the payer, who can hand it off.\<close>

lemma fresh_mint_verdict:
  assumes "trim expected \<noteq> []" "trim expected \<noteq> payer" "payer \<noteq> []"
  shows "evaluateMetadataAuthority (initMetadataState (deployIxs cfg payer mint multisig l r)) expected (Some payer) =
    \<lparr>vd_status = UNSAFE, vd_ok = False, vd_canHandoff = True\<rparr>"
  using assms by (auto simp: deployIxs_def evaluateMetadataAuthority_def unsafeFields_def Let_def List.map_filter_simps)

text \<open>The built instructions leave a state that passes the check, whatever the state was.\<close>

lemma handoff_secures:
  assumes "trim expected \<noteq> []"
  shows "vd_ok (evaluateMetadataAuthority
    (fold applyHandoff (buildMetadataHandoffIxs mint s (trim expected)) s) expected payer)"
  using assms
  by (cases "md_pointerAuthority s"; cases "md_updateAuthority s")
     (auto simp: buildMetadataHandoffIxs_def evaluateMetadataAuthority_def unsafeFields_def Let_def List.map_filter_simps)

text \<open>A frozen field stays frozen, a secured one is not touched.\<close>

lemma handoff_only_moves_unsafe:
  "md_pointerAuthority s \<in> {None, Some t} \<Longrightarrow>
     md_pointerAuthority (fold applyHandoff (buildMetadataHandoffIxs mint s t) s) = md_pointerAuthority s"
  "md_updateAuthority s \<in> {None, Some t} \<Longrightarrow>
     md_updateAuthority (fold applyHandoff (buildMetadataHandoffIxs mint s t) s) = md_updateAuthority s"
  by (auto simp: buildMetadataHandoffIxs_def split: option.splits)

lemma trim_trim: "trim (trim s) = trim s"
proof (rule trim_id)
  let ?a = "dropWhile isSpace s"
  have t: "trim s = rev (dropWhile isSpace (rev ?a))" by (simp add: trim_def)
  show "trim s = [] \<or> (\<not> isSpace (hd (trim s)) \<and> \<not> isSpace (last (trim s)))"
  proof (cases "trim s = []")
    case False
    then have ne: "dropWhile isSpace (rev ?a) \<noteq> []" using t by simp
    have "\<not> isSpace (last (trim s))" using hd_dropWhile [OF ne] t ne by (simp add: last_rev)
    moreover have "\<not> isSpace (hd (trim s))"
    proof -
      obtain zs where "rev ?a = zs @ dropWhile isSpace (rev ?a)" by (metis takeWhile_dropWhile_id)
      then have "?a = trim s @ rev zs" using t by (metis rev_append rev_rev_ident)
      then have "hd ?a = hd (trim s)" "?a \<noteq> []" using False by (auto simp: hd_append)
      then show ?thesis using hd_dropWhile [of isSpace s] by simp
    qed
    ultimately show ?thesis by simp
  qed simp
qed

text \<open>The loaded target is trimmed, so the verdict and the comparison after the hand-off agree.\<close>

lemma loaded_target_trimmed:
  "loadSolanaProgramAuthorityConfig keypair E = Inr cfg \<Longrightarrow> trim (ay_expected cfg) = ay_expected cfg"
  "loadSolanaMetadataAuthorityConfig keypair E = Inr cfg' \<Longrightarrow> trim (ay_expected cfg') = ay_expected cfg'"
  by (auto simp: loadSolanaProgramAuthorityConfig_def loadSolanaMetadataAuthorityConfig_def err_simps trim_trim)

text \<open>
  A run of the program script from its environment that reports success ends with the program
  immutable or in the hands of the configured address.
\<close>

lemma upgrade_authority_enforced:
  assumes "loadSolanaProgramAuthorityConfig keypair E = Inr cfg"
    "enforceProgramAuthority L cfg read send c = (Inr True, c')"
  shows "\<exists>programId authority. al_publicKey L (ay_account cfg) = Inr programId \<and>
    readUpgradeAuthority L read (al_programData L programId) c' = Inr authority \<and>
    (authority = None \<or> authority = Some (ay_expected cfg))"
  using enforced_upgrade_authority [OF assms(2) loaded_target_trimmed(1) [OF assms(1)]] by blast

text \<open>A multisig of the deployment is created only with signers and only when asked to.\<close>

lemma deploy_effect:
  assumes "deployMint cfg mint multisig l m rent createMs send c = (r, c')" "c' \<noteq> c"
  shows "\<exists>payer. dm_apply cfg \<and> dm_payer cfg = Some payer \<and> dm_signers cfg \<noteq> []"
  using assms by (auto simp: deployMint_def split: sum.splits option.splits if_splits prod.splits)

text \<open>A threshold or a number of decimals that is no number passes the loader.\<close>

lemma deploy_nan_threshold:
  "deployInt [''SOLANA_THRESHOLD'' \<mapsto> ''two''] ''SOLANA_THRESHOLD'' 1 = None"
  by code_simp

end
