(* ===== verification/StaffAlert.thy ===== *)
theory StaffAlert
  imports Config "HOL-Library.Word"
begin

text \<open>
  Operator alerts (\<open>log/src/index.ts\<close>): the shape of the webhook request, its bounded delivery and
  the health flag of the alerting pipe, which several deliveries running at once write. The parser of
  URLs, \<open>JSON.stringify\<close> and the network, which acts on a world \<open>'c\<close>, are arguments. Text that is
  cut at a number of characters is a list of the 16-bit units the language counts. Winston, which
  writes the log lines, is left out; the lines themselves are kept as a list where they are alerts.
\<close>

section \<open>Where logs go\<close>

text \<open>
  \<open>usableLogDir\<close>: the two file operations, and the flag that keeps the warning from repeating; the
  second component tells whether the warning was printed.
\<close>

definition usableLogDir :: "string \<Rightarrow> bool \<Rightarrow> bool \<Rightarrow> bool \<Rightarrow> string option \<times> bool \<times> bool" where
  "usableLogDir dir mkdirOk accessOk warned =
     (if mkdirOk \<and> accessOk then (Some dir, False, warned) else (None, \<not> warned, True))"

datatype Transport = ConsoleTransport | RotatedFile string string

definition loggerTransports :: "string \<Rightarrow> string option \<Rightarrow> Transport list" where
  "loggerTransports svc dir =
     ConsoleTransport # (case dir of None \<Rightarrow> []
       | Some d \<Rightarrow> if d = [] then [] else [RotatedFile d (svc @ ''-%DATE%.log'')])"

section \<open>The request\<close>

definition alertInt :: "environment \<Rightarrow> string \<Rightarrow> nat \<Rightarrow> nat" where
  "alertInt E name dflt =
     (case envSet E name of
        None \<Rightarrow> dflt
      | Some v \<Rightarrow> (case numberOf v of DFin q \<Rightarrow> if 0 \<le> q then nat \<lfloor>q\<rfloor> else dflt | _ \<Rightarrow> dflt))"

type_synonym units = "16 word list"

definition unitsOf :: "string \<Rightarrow> units" where
  "unitsOf s = map (\<lambda>c. of_nat (of_char c)) s"

text \<open>Of the standard library: the parts of a parsed URL the code reads, and it without its query.\<close>

record ParsedUrl =
  url_hostname :: string
  url_pathname :: string
  url_chatId :: "string option"
  url_withoutSearch :: string

datatype AlertBody =
    TelegramBody (tb_chat_id: string) (tb_text: units)
  | JsonAlert (ja_scope: string) (ja_message: string) (ja_meta: "(string \<times> jsval) list") (ja_ts: int)

definition isTelegram :: "ParsedUrl \<Rightarrow> bool" where
  "isTelegram u \<longleftrightarrow> url_hostname u = ''api.telegram.org'' \<and> endsWith (url_pathname u) ''/sendMessage'' \<and>
     url_chatId u \<notin> {None, Some []}"

definition alertSign :: units where "alertSign = [0x26D4, 0xFE0F]"

text \<open>
  A URL that does not parse and a \<open>meta\<close> that does not serialise inside the Telegram branch both fall
  through to the generic body, whose own serialisation may then throw.
\<close>

definition shapeStaffWebhookRequest ::
  "(string \<Rightarrow> ParsedUrl option) \<Rightarrow> ((string \<times> jsval) list \<Rightarrow> string result) \<Rightarrow> int \<Rightarrow> string \<Rightarrow> string \<Rightarrow> string \<Rightarrow>
   (string \<times> jsval) list \<Rightarrow> (string \<times> AlertBody) result" where
  "shapeStaffWebhookRequest parseUrl stringify nowMs url scope message meta =
     (let generic = bindE (stringify meta) (\<lambda>_. Inr (url, JsonAlert scope message meta (nowMs div 1000))) in
      case parseUrl url of
        None \<Rightarrow> generic
      | Some u \<Rightarrow>
          if \<not> isTelegram u then generic
          else (case (if meta = [] then Inr [] else bindE (stringify meta) (\<lambda>s. Inr (CHR 0x0A # s))) of
              Inl _ \<Rightarrow> generic
            | Inr metaStr \<Rightarrow>
                Inr (url_withoutSearch u,
                  TelegramBody (the (url_chatId u))
                    (take 4000 (alertSign @ unitsOf ('' gateway ['' @ scope @ ''] '' @ message @ metaStr))))))"

section \<open>The delivery\<close>

text \<open>
  One attempt answers with \<open>res.ok\<close> or throws (\<open>None\<close>). After the first attempt that is answered
  well the loop stops; between two attempts it sleeps.
\<close>

datatype AlertEvent = Posted | Slept nat

fun webhookLoop :: "('c \<Rightarrow> bool option \<times> 'c) \<Rightarrow> nat \<Rightarrow> nat \<Rightarrow> 'c \<Rightarrow> bool \<times> AlertEvent list \<times> 'c" where
  "webhookLoop post delay 0 c = (False, [], c)"
| "webhookLoop post delay (Suc n) c =
     (case post c of
        (Some True, c1) \<Rightarrow> (True, [Posted], c1)
      | (_, c1) \<Rightarrow>
          (case webhookLoop post delay n c1 of
             (ok, evs, c2) \<Rightarrow> (ok, Posted # (if n = 0 then [] else [Slept delay]) @ evs, c2)))"

definition deliverStaffWebhook ::
  "environment \<Rightarrow> (string \<Rightarrow> ParsedUrl option) \<Rightarrow> ((string \<times> jsval) list \<Rightarrow> string result) \<Rightarrow> int \<Rightarrow>
   (nat \<Rightarrow> string \<Rightarrow> AlertBody \<Rightarrow> 'c \<Rightarrow> bool option \<times> 'c) \<Rightarrow> string \<Rightarrow> string \<Rightarrow> string \<Rightarrow> (string \<times> jsval) list \<Rightarrow> 'c \<Rightarrow>
   (bool \<times> AlertEvent list \<times> 'c) result" where
  "deliverStaffWebhook E parseUrl stringify nowMs post url scope message meta c =
     bindE (shapeStaffWebhookRequest parseUrl stringify nowMs url scope message meta) (\<lambda>(target, body).
     Inr (webhookLoop (post (alertInt E ''STAFF_WEBHOOK_TIMEOUT_MS'' 10000) target body)
       (alertInt E ''STAFF_WEBHOOK_RETRY_DELAY_MS'' 500) (Suc (alertInt E ''STAFF_WEBHOOK_RETRIES'' 3)) c))"

section \<open>notifyStaff\<close>

text \<open>
  The module state: the two flags, the alerts logged (newest first) and the deliveries under way,
  which nothing waits for. A delivery that throws while its body is built ends without a verdict.
\<close>

datatype AlertLine = NotifyLine string string | NoChannelLine | DegradedLine string string

record AlertState =
  as_healthy :: bool
  as_warnedNoChannel :: bool
  as_log :: "AlertLine list"
  as_pending :: "(string \<times> string) list"

definition alertInit :: AlertState where
  "alertInit = \<lparr>as_healthy = True, as_warnedNoChannel = False, as_log = [], as_pending = []\<rparr>"

definition notifyStaff :: "environment \<Rightarrow> string \<Rightarrow> string \<Rightarrow> AlertState \<Rightarrow> AlertState" where
  "notifyStaff E scope message s =
     (let s1 = s\<lparr>as_log := NotifyLine scope message # as_log s\<rparr> in
      case envSet E ''STAFF_WEBHOOK_URL'' of
        None \<Rightarrow>
          if as_warnedNoChannel s1 then s1
          else s1\<lparr>as_warnedNoChannel := True, as_log := NoChannelLine # as_log s1\<rparr>
      | Some _ \<Rightarrow> s1\<lparr>as_pending := as_pending s1 @ [(scope, message)]\<rparr>)"

definition deliveryDone :: "string \<times> string \<Rightarrow> bool \<Rightarrow> AlertState \<Rightarrow> AlertState" where
  "deliveryDone d ok s =
     (if ok then s\<lparr>as_healthy := True, as_pending := remove1 d (as_pending s)\<rparr>
      else s\<lparr>as_healthy := False, as_log := DegradedLine (fst d) (snd d) # as_log s,
             as_pending := remove1 d (as_pending s)\<rparr>)"

inductive alertRun :: "environment \<Rightarrow> bool list \<Rightarrow> AlertState \<Rightarrow> bool" for E where
  start: "alertRun E [] alertInit"
| notify: "alertRun E vs s \<Longrightarrow> alertRun E vs (notifyStaff E scope message s)"
| finish: "alertRun E vs s \<Longrightarrow> d \<in> set (as_pending s) \<Longrightarrow> alertRun E (ok # vs) (deliveryDone d ok s)"

section \<open>Lemmas\<close>

text \<open>The number of requests is bounded, and the verdict is that of the last one.\<close>

definition posts :: "AlertEvent list \<Rightarrow> nat" where
  "posts evs = length (filter (\<lambda>e. e = Posted) evs)"

lemma webhookLoop_posts: "webhookLoop post delay n c = (ok, evs, c') \<Longrightarrow> posts evs \<le> n"
proof (induction n arbitrary: c ok evs c')
  case (Suc n)
  obtain r c1 where p: "post c = (r, c1)" by fastforce
  obtain ok' evs' c2 where d: "webhookLoop post delay n c1 = (ok', evs', c2)" by (cases "webhookLoop post delay n c1")
  from Suc.IH [OF d] Suc.prems p d show ?case
    by (cases "r = Some True") (auto simp: posts_def split: option.splits bool.splits if_splits)
qed (simp add: posts_def)

lemma webhookLoop_gives_up:
  "webhookLoop post delay n c = (False, evs, c') \<Longrightarrow> posts evs = n"
  by (induction n arbitrary: c evs c')
     (auto simp: posts_def split: prod.splits option.splits bool.splits if_splits)

text \<open>An endpoint that answers well at all is reached within the attempts.\<close>

lemma webhookLoop_first: "fst (post c) = Some True \<Longrightarrow> fst (webhookLoop post delay (Suc n) c)"
  by (auto split: prod.splits option.splits bool.splits)

lemma delivery_bounded:
  "deliverStaffWebhook E parseUrl stringify nowMs post url scope message meta c = Inr (ok, evs, c') \<Longrightarrow>
     posts evs \<le> Suc (alertInt E ''STAFF_WEBHOOK_RETRIES'' 3)"
  by (auto simp: deliverStaffWebhook_def err_simps simp del: webhookLoop.simps split: prod.splits dest: webhookLoop_posts)

text \<open>The text of a Telegram message stays below the limit of the API.\<close>

lemma telegram_text_bounded:
  "shapeStaffWebhookRequest parseUrl stringify nowMs url scope message meta = Inr (target, TelegramBody chat t) \<Longrightarrow>
     length t \<le> 4000"
  by (auto simp: shapeStaffWebhookRequest_def Let_def err_simps split: option.splits sum.splits if_splits)

text \<open>The health flag is the verdict of the delivery that ended last; without one the pipe is healthy.\<close>

lemma alerting_health_is_last_verdict:
  "alertRun E vs s \<Longrightarrow> as_healthy s \<longleftrightarrow> (case vs of [] \<Rightarrow> True | ok # _ \<Rightarrow> ok)"
  by (induction rule: alertRun.induct)
     (auto simp: alertInit_def notifyStaff_def deliveryDone_def Let_def split: option.splits)

text \<open>The missing channel is logged once, and every failed delivery has its line.\<close>

lemma alert_log:
  assumes "alertRun E vs s"
  shows "length (filter (\<lambda>l. l = NoChannelLine) (as_log s)) = (if as_warnedNoChannel s then 1 else 0)"
    "length (filter (\<lambda>l. \<exists>a b. l = DegradedLine a b) (as_log s)) = length (filter Not vs)"
  using assms
  by (induction rule: alertRun.induct)
     (auto simp: alertInit_def notifyStaff_def deliveryDone_def Let_def split: option.splits)

text \<open>Every alert is logged, with a webhook or without.\<close>

lemma notify_logs: "NotifyLine scope message \<in> set (as_log (notifyStaff E scope message s))"
  by (simp add: notifyStaff_def Let_def split: option.split)

text \<open>
  Two alerts at once: the one sent later fails, the one sent earlier ends after it and re-arms the flag,
  although the newest alert was lost.
\<close>

lemma stale_success_rearms:
  assumes "envSet E ''STAFF_WEBHOOK_URL'' = Some url"
  shows "\<exists>s. alertRun E [True, False] s \<and> as_healthy s \<and> DegradedLine ''drift'' ''b'' \<in> set (as_log s)"
proof -
  let ?s = "notifyStaff E ''drift'' ''b'' (notifyStaff E ''drift'' ''a'' alertInit)"
  have r: "alertRun E [] ?s" by (intro alertRun.notify alertRun.start)
  have p: "as_pending ?s = [(''drift'', ''a''), (''drift'', ''b'')]"
    using assms by (simp add: notifyStaff_def alertInit_def)
  have r1: "alertRun E [False] (deliveryDone (''drift'', ''b'') False ?s)"
    by (rule alertRun.finish [OF r]) (simp add: p)
  have "alertRun E [True, False] (deliveryDone (''drift'', ''a'') True (deliveryDone (''drift'', ''b'') False ?s))"
    by (rule alertRun.finish [OF r1]) (simp add: deliveryDone_def p)
  then show ?thesis by (intro exI conjI) (assumption, simp_all add: deliveryDone_def)
qed

end
