(* ===== verification/TonMultisig.thy ===== *)
theory TonMultisig
  imports RotationChains GramApprove
begin

text \<open>
  The wrapper of the TON multisig (\<open>contracts/ton/src/wrappers/Multisig.ts\<close>, \<open>Order.ts\<close> and
  \<open>Constants.ts\<close>): the cells of orders and messages, large orders, and what the getters return. A cell
  is the list of the fields its builder stores; numbers must fit their width, dictionaries have keys of
  eight bits, as in the library, and cells of one layout are equal when their fields are.
\<close>

section \<open>Cells\<close>

datatype TonField =
    TUint nat nat
  | TBit bool
  | TCoins int
  | TAddress string
  | TNoRef
  | TRef "TonField list"
  | TDict "(nat \<times> TonField list) list"
  | TMessage string int "TonField list"
  | TString string

type_synonym ton_cell = "TonField list"

definition storeUint :: "int \<Rightarrow> nat \<Rightarrow> ton_cell result" where
  "storeUint v bits =
     (if 0 \<le> v \<and> v < 2 ^ bits then Inr [TUint (nat v) bits] else Inl (GenericError ''value is out of range''))"

text \<open>A number that is no integer is refused when it becomes a big integer.\<close>

definition storeNumber :: "double \<Rightarrow> nat \<Rightarrow> ton_cell result" where
  "storeNumber d bits = bindE (bigintOfDouble d) (\<lambda>v. storeUint v bits)"

definition endCell :: "ton_cell result list \<Rightarrow> ton_cell result" where
  "endCell builders = bindE (mapE (\<lambda>b. b) builders) (\<lambda>fs. Inr (concat fs))"

definition storeRef :: "ton_cell result \<Rightarrow> ton_cell result" where
  "storeRef cell = bindE cell (\<lambda>c. Inr [TRef c])"

type_synonym ton_dict = "(nat \<times> ton_cell) list"

definition storeDictDirect :: "ton_dict \<Rightarrow> ton_cell result" where
  "storeDictDirect d =
     (if d = [] then Inl (GenericError ''Cannot store empty dictionary directly'')
      else if \<not> list_all (\<lambda>(k, _). k < 256) d then Inl (GenericError ''value is out of range'')
      else Inr [TDict d])"

definition storeDict :: "ton_dict \<Rightarrow> ton_cell result" where
  "storeDict d = (if d = [] then Inr [TBit False] else endCell [Inr [TBit True], storeRef (storeDictDirect d)])"

section \<open>Constants.ts\<close>

definition Op_new_order :: int where "Op_new_order = 0xf718510f"
definition Op_execute_internal :: int where "Op_execute_internal = 0xa32c59bf"
definition Op_approve :: int where "Op_approve = 0xa762230f"
definition Op_init :: int where "Op_init = 0x9c73fba2"
definition Op_send_message :: int where "Op_send_message = 0xf1381e5b"
definition Op_update_multisig_params :: int where "Op_update_multisig_params = 0x1d0cfbd3"

definition opBits :: nat where "opBits = 32"
definition queryIdBits :: nat where "queryIdBits = 64"
definition orderSeqnoBits :: nat where "orderSeqnoBits = 256"
definition signerIndexBits :: nat where "signerIndexBits = 8"
definition timeBits :: nat where "timeBits = 48"

lemmas ton_consts = Op_new_order_def Op_execute_internal_def Op_approve_def Op_init_def Op_send_message_def
  Op_update_multisig_params_def opBits_def queryIdBits_def orderSeqnoBits_def signerIndexBits_def timeBits_def

section \<open>Multisig.ts: actions and orders\<close>

datatype Action = Transfer nat string int ton_cell | Update UpdateRequest

definition arrayToCell :: "string list \<Rightarrow> ton_dict" where
  "arrayToCell arr = enumerate 0 (map (\<lambda>a. [TAddress a]) arr)"

definition cellToArray :: "ton_cell option \<Rightarrow> string list result" where
  "cellToArray addrDict =
     (case addrDict of
        None \<Rightarrow> Inr []
      | Some [TDict d] \<Rightarrow>
          mapE (\<lambda>(_, c). case c of [TAddress a] \<Rightarrow> Inr a | _ \<Rightarrow> Inl (GenericError ''Invalid address'')) d
      | Some _ \<Rightarrow> Inl (GenericError ''Invalid dictionary''))"

definition multisigConfigToCell :: "int \<Rightarrow> string list \<Rightarrow> string list \<Rightarrow> bool \<Rightarrow> ton_cell result" where
  "multisigConfigToCell threshold signers proposers allowArbitrarySeqno =
     endCell [storeUint 0 orderSeqnoBits, storeUint threshold signerIndexBits,
       storeRef (storeDictDirect (arrayToCell signers)), storeUint (int (length signers)) signerIndexBits,
       storeDict (arrayToCell proposers), Inr [TBit allowArbitrarySeqno]]"

definition packTransferRequest :: "nat \<Rightarrow> string \<Rightarrow> int \<Rightarrow> ton_cell \<Rightarrow> ton_cell result" where
  "packTransferRequest sendMode dest value' body =
     endCell [storeUint Op_send_message opBits, storeUint (int sendMode) 8, storeRef (Inr [TMessage dest value' body])]"

definition packUpdateRequest :: "UpdateRequest \<Rightarrow> ton_cell result" where
  "packUpdateRequest u =
     endCell [storeUint Op_update_multisig_params opBits, storeNumber (ur_threshold u) signerIndexBits,
       storeRef (storeDictDirect (arrayToCell (ur_signers u))), storeDict (arrayToCell (ur_proposers u))]"

fun packAction :: "Action \<Rightarrow> ton_cell result" where
  "packAction (Transfer m dest v body) = packTransferRequest m dest v body"
| "packAction (Update u) = packUpdateRequest u"

definition packOrder :: "Action list \<Rightarrow> ton_cell result" where
  "packOrder actions =
     (if 255 < length actions then Inl (GenericError ''For action chains above 255, use packLarge method'')
      else bindE (mapE packAction actions) (\<lambda>cells. storeDictDirect (enumerate 0 cells)))"

text \<open>
  \<open>packLarge\<close>: the chunks are packed from the last to the first, each later one sent by the one before
  it as a message of the multisig to itself. \<open>toNano("0.01")\<close> is attached.
\<close>

definition packChained :: "string \<Rightarrow> ton_cell \<Rightarrow> Action result" where
  "packChained address req =
     bindE (endCell [storeUint Op_execute_internal opBits, storeUint 0 queryIdBits, storeRef (Inr req)])
       (\<lambda>body. Inr (Transfer 1 address 10000000 body))"

fun packLargeLoop :: "string \<Rightarrow> Action list \<Rightarrow> nat \<Rightarrow> nat \<Rightarrow> nat \<Rightarrow> ton_cell option \<Rightarrow> ton_cell option result" where
  "packLargeLoop address actions 0 lastSz processed tail = Inr tail"
| "packLargeLoop address actions (Suc chunkCount) lastSz processed tail =
     (let chunkSize = (if 0 < lastSz then lastSz else 254);
          chunk = drop (length actions - (chunkSize + processed)) (take (length actions - processed) actions)
      in bindE (case tail of
             None \<Rightarrow> packOrder chunk
           | Some t \<Rightarrow> bindE (packChained address t) (\<lambda>link. packOrder (chunk @ [link]))) (\<lambda>tail'.
         packLargeLoop address actions chunkCount 0 (processed + chunkSize) (Some tail')))"

definition packLarge :: "Action list \<Rightarrow> string \<Rightarrow> ton_cell result" where
  "packLarge actions address =
     bindE (packLargeLoop address actions ((length actions + 253) div 254) (length actions mod 254) 0 None) (\<lambda>tail.
       case tail of None \<Rightarrow> Inl (GenericError ''Something went wrong during large order pack'') | Some c \<Rightarrow> Inr c)"

section \<open>Multisig.ts: messages\<close>

datatype OrderArg = Actions "Action list" | Packed ton_cell

definition NO_SEQNO :: int where
  "NO_SEQNO = 115792089237316195423570985008687907853269984665640564039457584007913129639935"

definition newOrderMessage :: "OrderArg \<Rightarrow> int \<Rightarrow> bool \<Rightarrow> int \<Rightarrow> int \<Rightarrow> int \<Rightarrow> ton_cell result" where
  "newOrderMessage arg expirationDate isSigner addrIdx orderId queryId =
     bindE (endCell [storeUint Op_new_order opBits, storeUint queryId queryIdBits, storeUint orderId orderSeqnoBits,
       Inr [TBit isSigner], storeUint addrIdx signerIndexBits, storeUint expirationDate timeBits]) (\<lambda>msgBody.
     case arg of
       Packed c \<Rightarrow> Inr (msgBody @ [TRef c])
     | Actions as \<Rightarrow>
         if as = [] then Inl (GenericError ''Order list can't be empty!'')
         else bindE (packOrder as) (\<lambda>c. Inr (msgBody @ [TRef c])))"

record SenderConfig =
  sc_signers :: "string list"
  sc_proposers :: "string list"

text \<open>Who the message names as its sender: looked up when the address is known, given otherwise.\<close>

definition resolveSender ::
  "SenderConfig \<Rightarrow> string option \<Rightarrow> int option \<Rightarrow> bool option \<Rightarrow> (bool \<times> int) result" where
  "resolveSender cfg via addrIdx isSigner =
     (case via of
        Some me \<Rightarrow>
          (case findIndexBy (\<lambda>x. x = me) (sc_signers cfg) of
             Some i \<Rightarrow> Inr (True, int i)
           | None \<Rightarrow> (case findIndexBy (\<lambda>x. x = me) (sc_proposers cfg) of
               Some i \<Rightarrow> Inr (False, int i)
             | None \<Rightarrow> Inl (GenericError ''Sender is not a signer or proposer'')))
      | None \<Rightarrow> (case (isSigner, addrIdx) of
            (Some s, Some i) \<Rightarrow> Inr (s, i)
          | _ \<Rightarrow> Inl (GenericError ''If sender address is not known, addrIdx and isSigner parameres required'')))"

definition sendNewOrder ::
  "SenderConfig option \<Rightarrow> string \<Rightarrow> string option \<Rightarrow> OrderArg \<Rightarrow> int \<Rightarrow> int option \<Rightarrow> bool option \<Rightarrow> int option \<Rightarrow>
   ton_cell result" where
  "sendNewOrder configuration address via arg expirationDate addrIdx isSigner seqno =
     (case configuration of
        None \<Rightarrow> Inl (GenericError ''Configuration is not set: use createFromConfig or loadConfiguration'')
      | Some cfg \<Rightarrow>
          bindE (resolveSender cfg via addrIdx isSigner) (\<lambda>(s, i).
          bindE (case arg of Packed c \<Rightarrow> Inr c
            | Actions as \<Rightarrow> if 255 < length as then packLarge as address else packOrder as) (\<lambda>c.
          newOrderMessage (Packed c) expirationDate s i (case seqno of None \<Rightarrow> NO_SEQNO | Some n \<Rightarrow> n) 0)))"

section \<open>Order.ts\<close>

definition orderConfigToCell :: "string \<Rightarrow> int \<Rightarrow> ton_cell result" where
  "orderConfigToCell multisig orderSeqno = endCell [Inr [TAddress multisig], storeUint orderSeqno orderSeqnoBits]"

definition initMessage :: "string list \<Rightarrow> int \<Rightarrow> ton_cell \<Rightarrow> int \<Rightarrow> bool \<Rightarrow> int \<Rightarrow> int \<Rightarrow> ton_cell result" where
  "initMessage signers expirationDate order threshold approveOnInit signerIdx queryId =
     endCell ([storeUint Op_init opBits, storeUint queryId queryIdBits, storeUint threshold signerIndexBits,
       storeRef (storeDictDirect (arrayToCell signers)), storeUint expirationDate timeBits, storeRef (Inr order),
       Inr [TBit approveOnInit]] @ (if approveOnInit then [storeUint signerIdx signerIndexBits] else []))"

definition approveMessage :: "int \<Rightarrow> int \<Rightarrow> ton_cell result" where
  "approveMessage signerIdx queryId =
     endCell [storeUint Op_approve opBits, storeUint queryId queryIdBits, storeUint signerIdx signerIndexBits]"

text \<open>The answer of \<open>get_order_data\<close>, and its reading; the bits of the mask are the approvals.\<close>

record OrderStack =
  os_threshold :: "nat option"
  os_executed :: "bool option"
  os_signers :: "ton_cell option"
  os_approvals :: "int option"
  os_expiration_date :: "int option"
  os_order :: "ton_cell option"

definition approvalsArray :: "int option \<Rightarrow> bool list" where
  "approvalsArray approvals =
     (case approvals of
        None \<Rightarrow> []
      | Some a \<Rightarrow> map (\<lambda>i. and (push_bit i 1) a \<noteq> 0) [0..<256])"

definition getOrderData :: "OrderStack \<Rightarrow> (bool \<times> ton_cell TonOrderView) result" where
  "getOrderData s =
     bindE (cellToArray (os_signers s)) (\<lambda>signers.
     Inr (os_threshold s \<noteq> None,
       \<lparr>to_executed = (os_executed s = Some True), to_order = os_order s, to_signers = signers,
        to_approvals = approvalsArray (os_approvals s), to_expiration_date = os_expiration_date s\<rparr>))"

record MultisigStack =
  mk_nextOrderSeqno :: nat
  mk_threshold :: nat
  mk_signers :: "ton_cell option"
  mk_proposers :: "ton_cell option"

definition getMultisigData :: "MultisigStack \<Rightarrow> MultisigData result" where
  "getMultisigData s =
     bindE (cellToArray (mk_signers s)) (\<lambda>signers.
     bindE (cellToArray (mk_proposers s)) (\<lambda>proposers.
     Inr \<lparr>ms_nextOrderSeqno = mk_nextOrderSeqno s, ms_threshold = mk_threshold s, ms_signers = signers,
          ms_proposers = proposers\<rparr>))"

section \<open>The orders of the gateway\<close>

text \<open>The bodies the gram watcher builds, and the libraries of the rotation and of the approver.\<close>

fun tonField :: "CellField \<Rightarrow> TonField" where
  "tonField (StoreUint v w) = TUint v w"
| "tonField (StoreCoins n) = TCoins n"
| "tonField (StoreAddress a) = TAddress a"
| "tonField (StoreBit b) = TBit b"
| "tonField StoreNoRef = TNoRef"
| "tonField (StoreRef fs) = TRef (map tonField fs)"

definition gatewayAction :: "TransferRequest \<Rightarrow> Action" where
  "gatewayAction t = Transfer (tq_sendMode t) (tq_to t) (tq_value t) (map tonField (tq_body t))"

definition rotationLib :: "(string \<Rightarrow> string) \<Rightarrow> (string \<Rightarrow> string) \<Rightarrow> ton_cell TonRotationLib" where
  "rotationLib ofHex wallet =
     \<lparr>tl_hexBytes = ofHex, tl_walletV4 = wallet, tl_packOrder = (\<lambda>us. packOrder (map Update us))\<rparr>"

section \<open>Packing loses nothing\<close>

lemma storeUint_Inr: "storeUint v b = Inr c \<longleftrightarrow> 0 \<le> v \<and> v < 2 ^ b \<and> c = [TUint (nat v) b]"
  by (auto simp: storeUint_def)

lemma storeRef_Inr: "storeRef b = Inr c \<longleftrightarrow> (\<exists>d. b = Inr d \<and> c = [TRef d])"
  by (auto simp: storeRef_def err_simps)

lemma storeDictDirect_Inr:
  "storeDictDirect d = Inr c \<longleftrightarrow> d \<noteq> [] \<and> list_all (\<lambda>(k, _). k < 256) d \<and> c = [TDict d]"
  by (auto simp: storeDictDirect_def)

lemma endCell_Inr: "endCell bs = Inr c \<longleftrightarrow> (\<exists>fs. bs = map Inr fs \<and> c = concat fs)"
proof -
  have "mapE (\<lambda>b. b) bs = Inr fs \<longleftrightarrow> bs = map Inr fs" for fs
    by (induction bs arbitrary: fs) (auto simp: err_simps)
  then show ?thesis by (auto simp: endCell_def err_simps)
qed

lemma endCell_Nil [simp]: "endCell [] = Inr []"
  by (simp add: endCell_def)

lemma endCell_Cons [simp]: "endCell (b # bs) = bindE b (\<lambda>x. bindE (endCell bs) (\<lambda>xs. Inr (x @ xs)))"
  by (cases b; cases "mapE (\<lambda>b. b) bs") (simp_all add: endCell_def)

lemmas ton_store = storeUint_Inr storeRef_Inr storeDictDirect_Inr storeNumber_def err_simps

lemma arrayToCell_inj: "arrayToCell xs = arrayToCell ys \<longleftrightarrow> xs = ys"
proof
  assume "arrayToCell xs = arrayToCell ys"
  then have "map snd (arrayToCell xs) = map snd (arrayToCell ys)" by simp
  moreover have "map (\<lambda>c. case c of [TAddress a] \<Rightarrow> a | _ \<Rightarrow> []) (map snd (arrayToCell zs)) = zs" for zs
    by (simp add: arrayToCell_def comp_def)
  ultimately show "xs = ys" by metis
qed simp

lemma arrayToCell_Nil [simp]: "arrayToCell xs = [] \<longleftrightarrow> xs = []"
  by (cases xs) (simp_all add: arrayToCell_def)

text \<open>What the getter reads from a stored signer list is the list.\<close>

lemma cellToArray_stored: "storeDictDirect (arrayToCell xs) = Inr c \<Longrightarrow> cellToArray (Some c) = Inr xs"
proof -
  have "mapE (\<lambda>(_, c). case c of [TAddress a] \<Rightarrow> Inr a | _ \<Rightarrow> Inl (GenericError ''Invalid address''))
      (enumerate i (map (\<lambda>a. [TAddress a]) xs)) = Inr xs" for i
    by (induction xs arbitrary: i) auto
  then show "storeDictDirect (arrayToCell xs) = Inr c \<Longrightarrow> cellToArray (Some c) = Inr xs"
    by (auto simp: storeDictDirect_Inr cellToArray_def arrayToCell_def)
qed

lemma bigintOfDouble_inj: "bigintOfDouble d = Inr n \<Longrightarrow> bigintOfDouble e = Inr n \<Longrightarrow> d = e"
  by (auto simp: bigintOfDouble_def split: option.splits dest!: dblInteger_Some)

lemma storeDict_inj:
  "storeDict (arrayToCell xs) = Inr c \<Longrightarrow> storeDict (arrayToCell ys) = Inr c \<Longrightarrow> xs = ys"
  by (auto simp: storeDict_def ton_store arrayToCell_inj split: if_splits)

lemma storeDict_not_Nil: "storeDict d = Inr c \<Longrightarrow> \<exists>b. hd c = TBit b"
  by (auto simp: storeDict_def ton_store split: if_splits)

lemma packUpdate_inj: "packUpdateRequest u = Inr c \<Longrightarrow> packUpdateRequest v = Inr c \<Longrightarrow> u = v"
  by (cases u; cases v)
     (auto simp: packUpdateRequest_def ton_store arrayToCell_inj dest: storeDict_inj intro: bigintOfDouble_inj)

lemma packAction_inj: "packAction a = Inr c \<Longrightarrow> packAction b = Inr c \<Longrightarrow> a = b"
proof (cases a; cases b)
  fix u v
  assume "packAction a = Inr c" "packAction b = Inr c" "a = Update u" "b = Update v"
  then show "a = b" using packUpdate_inj [of u c v] by simp
qed (auto simp: packTransferRequest_def packUpdateRequest_def ton_store ton_consts)

lemma mapE_inj:
  assumes "\<And>x y c. f x = Inr c \<Longrightarrow> f y = Inr c \<Longrightarrow> x = y" "mapE f xs = Inr cs" "mapE f ys = Inr cs"
  shows "xs = ys"
  using assms(2,3)
proof (induction xs arbitrary: ys cs)
  case Nil
  then show ?case by (cases ys) (auto simp: err_simps)
next
  case (Cons x xs)
  then show ?case by (cases ys) (auto simp: err_simps dest: assms(1))
qed

lemma enumerate_inj: "enumerate i xs = enumerate i ys \<Longrightarrow> xs = ys"
  by (metis map_snd_enumerate)

lemma packOrder_inj: "packOrder as = Inr c \<Longrightarrow> packOrder bs = Inr c \<Longrightarrow> as = bs"
  by (auto simp: packOrder_def ton_store split: if_splits dest!: enumerate_inj intro: mapE_inj packAction_inj)

text \<open>
  An order an operator approved for a rotation holds exactly one action, the update the proposal asks
  for, whatever actions whoever opened it packed.
\<close>

lemma approved_rotation_order:
  assumes "validateTonOrder (rotationLib ofHex wallet) cell p = Inr u" "packOrder as = Inr cell"
  shows "\<exists>signers. as = [Update \<lparr>ur_threshold = rp_newThreshold p, ur_signers = signers, ur_proposers = []\<rparr>] \<and>
    list_all2 (\<lambda>o' a. length (ofHex (op_tonPubkey o')) = 32 \<and> a = wallet (ofHex (op_tonPubkey o'))) (rp_newOperators p) signers \<and>
    distinct signers"
proof -
  from validateTonOrder_exact [OF assms(1)] obtain signers where
    s: "list_all2 (\<lambda>o' a. tonSignerAddress (rotationLib ofHex wallet) (op_tonPubkey o') = Inr a) (rp_newOperators p) signers"
      "distinct signers"
      "packOrder [Update \<lparr>ur_threshold = rp_newThreshold p, ur_signers = signers, ur_proposers = []\<rparr>] = Inr cell"
    by (auto simp: tonOrderFor_def rotationLib_def)
  have "list_all2 (\<lambda>o' a. length (ofHex (op_tonPubkey o')) = 32 \<and> a = wallet (ofHex (op_tonPubkey o'))) (rp_newOperators p) signers"
    using s(1) by (rule list_all2_mono) (auto simp: tonSignerAddress_def rotationLib_def Let_def split: if_splits)
  with s packOrder_inj [OF assms(2) s(3)] show ?thesis by blast
qed

lemma tonField_inj: "tonField a = tonField b \<Longrightarrow> a = b"
proof (induction a arbitrary: b)
  case (StoreRef fs)
  then obtain gs where b: "b = StoreRef gs" "map tonField fs = map tonField gs" by (cases b) auto
  then have "fs = gs"
    using StoreRef.IH by (simp add: list_eq_iff_nth_eq)
  with b show ?case by simp
qed (case_tac b; simp)+

lemma gatewayAction_inj: "gatewayAction s = gatewayAction t \<Longrightarrow> s = t"
  by (auto simp: gatewayAction_def dest: map_injective [OF _ injI [of tonField]] tonField_inj intro!: TransferRequest.equality)

text \<open>Two transfer orders of the gateway with the same cell are the same order.\<close>

lemma gateway_orders_inj:
  assumes "packOrder (map gatewayAction ts) = Inr c" "packOrder (map gatewayAction us) = Inr c"
  shows "ts = us"
  using map_injective [OF packOrder_inj [OF assms] injI [of gatewayAction]] gatewayAction_inj by blast

section \<open>Large orders\<close>

function chunksOf :: "'a list \<Rightarrow> 'a list list" where
  "chunksOf xs = (if xs = [] then [] else take 254 xs # chunksOf (drop 254 xs))"
  by pat_completeness auto

termination by (relation "measure length") auto

declare chunksOf.simps [simp del]

lemma chunksOf_concat: "concat (chunksOf xs) = xs"
  by (induction xs rule: chunksOf.induct) (subst chunksOf.simps, auto)

lemma chunksOf_sizes: "c \<in> set (chunksOf xs) \<Longrightarrow> c \<noteq> [] \<and> length c \<le> 254"
  by (induction xs rule: chunksOf.induct) (subst (asm) (2) chunksOf.simps, auto split: if_splits)

lemma chunksOf_append:
  "length xs = 254 * n \<Longrightarrow> ys \<noteq> [] \<Longrightarrow> length ys \<le> 254 \<Longrightarrow> chunksOf (xs @ ys) = chunksOf xs @ [ys]"
proof (induction n arbitrary: xs)
  case 0
  then show ?case by (simp add: chunksOf.simps)
next
  case (Suc n)
  have "chunksOf (drop 254 xs @ ys) = chunksOf (drop 254 xs) @ [ys]" by (rule Suc.IH) (use Suc.prems in auto)
  moreover have "xs \<noteq> []" "254 \<le> length xs" using Suc.prems by auto
  ultimately show ?case by (subst (1 2) chunksOf.simps) simp
qed

text \<open>The chain that the chunks are meant to form: each order sends the next one.\<close>

definition chainLink :: "string \<Rightarrow> Action list \<Rightarrow> ton_cell result \<Rightarrow> ton_cell result" where
  "chainLink address chunk next = bindE next (\<lambda>t. bindE (packChained address t) (\<lambda>link. packOrder (chunk @ [link])))"

definition chainPack :: "string \<Rightarrow> Action list list \<Rightarrow> ton_cell result" where
  "chainPack address chunks =
     (if chunks = [] then Inl (GenericError ''Something went wrong during large order pack'')
      else foldr (chainLink address) (butlast chunks) (packOrder (last chunks)))"

lemma foldr_chain_Inl: "foldr (chainLink address) cs (Inl e) = Inl e"
  by (induction cs) (simp_all add: chainLink_def)

lemma take_split: "take (m + k) xs = take m xs @ drop m (take (m + k) xs)"
  by (metis append_take_drop_id le_add1 min.absorb1 take_take)

lemma packLargeLoop_chain:
  assumes "length as = 254 * n + p"
  shows "packLargeLoop address as n 0 p (Some t) =
    bindE (foldr (chainLink address) (chunksOf (take (254 * n) as)) (Inr t)) (\<lambda>c. Inr (Some c))"
  using assms
proof (induction n arbitrary: p t)
  case 0
  then show ?case by (simp add: chunksOf.simps)
next
  case (Suc n)
  let ?chunk = "drop (254 * n) (take (254 * n + 254) as)"
  have l: "length ?chunk = 254" using Suc.prems by simp
  have "take (254 * n + 254) as = take (254 * n) as @ ?chunk" by (rule take_split)
  moreover have "length (take (254 * n) as) = 254 * n" using Suc.prems by simp
  ultimately have "chunksOf (take (254 * n + 254) as) = chunksOf (take (254 * n) as) @ [?chunk]"
    using chunksOf_append [of "take (254 * n) as" n ?chunk] l by fastforce
  then have ch: "chunksOf (take (254 * Suc n) as) = chunksOf (take (254 * n) as) @ [?chunk]"
    by (simp add: add.commute)
  have "length as - (254 + p) = 254 * n" "length as - p = 254 * n + 254" using Suc.prems by simp_all
  then have step: "drop (length as - (254 + p)) (take (length as - p) as) = ?chunk" by simp
  have loop: "packLargeLoop address as (Suc n) 0 p (Some t) =
      bindE (chainLink address ?chunk (Inr t)) (\<lambda>t'. packLargeLoop address as n 0 (p + 254) (Some t'))"
    by (simp add: step chainLink_def Let_def)
  have fold: "foldr (chainLink address) (chunksOf (take (254 * Suc n) as)) (Inr t) =
      foldr (chainLink address) (chunksOf (take (254 * n) as)) (chainLink address ?chunk (Inr t))"
    by (simp only: ch foldr_append foldr.simps comp_def id_apply)
  show ?case
  proof (cases "chainLink address ?chunk (Inr t)")
    case (Inl e)
    then show ?thesis by (simp only: loop fold foldr_chain_Inl bindE_Inl)
  next
    case (Inr t')
    have "packLargeLoop address as n 0 (p + 254) (Some t') =
        bindE (foldr (chainLink address) (chunksOf (take (254 * n) as)) (Inr t')) (\<lambda>c. Inr (Some c))"
      by (rule Suc.IH) (use Suc.prems in simp)
    with Inr show ?thesis by (simp only: loop fold bindE_Inr)
  qed
qed

text \<open>
  A large order is the chain of its chunks of 254 actions: together they hold the actions in their
  order, and none is too large to be packed with the message that sends the next one.
\<close>

lemma packLarge_is_chain: "packLarge as address = chainPack address (chunksOf as)"
proof (cases "as = []")
  case True
  then show ?thesis by (simp add: packLarge_def chainPack_def chunksOf.simps)
next
  case False
  obtain m where m: "length as = Suc m" using False by (cases as) auto
  define k where "k = Suc (m mod 254)"
  define n where "n = m div 254"
  have k: "0 < k" "k \<le> 254" "length as = 254 * n + k" "(length as + 253) div 254 = Suc n"
    "length as mod 254 = (if k = 254 then 0 else k)"
    by (simp_all add: k_def n_def m mod_Suc Suc_le_eq)
  have init: "packLargeLoop address as (Suc n) (length as mod 254) 0 None =
      bindE (packOrder (drop (254 * n) as)) (\<lambda>t. packLargeLoop address as n 0 k (Some t))"
    using k(1,3) unfolding packLargeLoop.simps Let_def k(5) by auto
  have "chunksOf (take (254 * n) as @ drop (254 * n) as) = chunksOf (take (254 * n) as) @ [drop (254 * n) as]"
    by (rule chunksOf_append [where n = n]) (use k in auto)
  then have ch: "chunksOf as = chunksOf (take (254 * n) as) @ [drop (254 * n) as]" by simp
  show ?thesis
  proof (cases "packOrder (drop (254 * n) as)")
    case (Inl e)
    then show ?thesis
      by (simp add: packLarge_def k(4) init ch chainPack_def foldr_chain_Inl del: packLargeLoop.simps)
  next
    case (Inr t)
    show ?thesis
      unfolding packLarge_def k(4) init ch chainPack_def Inr bindE_Inr packLargeLoop_chain [OF k(3)]
      by (cases "foldr (chainLink address) (chunksOf (take (254 * n) as)) (Inr t)") (simp_all add: Inr)
  qed
qed

lemma large_order_chunks:
  "concat (chunksOf as) = as" "c \<in> set (chunksOf as) \<Longrightarrow> length (c @ [link]) \<le> 255"
  using chunksOf_concat chunksOf_sizes by fastforce+

section \<open>Senders and approvals\<close>

text \<open>A known sender is named by its own index, whatever the caller passed.\<close>

lemma findIndexBy_nth: "findIndexBy P xs = Some i \<Longrightarrow> i < length xs \<and> P (xs ! i)"
  by (induction xs arbitrary: i) (auto split: if_splits)

lemma resolveSender_known:
  "resolveSender cfg (Some me) addrIdx isSigner = Inr (s, i) \<Longrightarrow>
     0 \<le> i \<and> nat i < length (if s then sc_signers cfg else sc_proposers cfg) \<and>
     (if s then sc_signers cfg else sc_proposers cfg) ! nat i = me"
  by (auto simp: resolveSender_def split: option.splits dest: findIndexBy_nth)

text \<open>An approval is read where the mask has its bit.\<close>

lemma approvals_bits: "i < 256 \<Longrightarrow> approvalsArray (Some a) ! i \<longleftrightarrow> bit a i"
proof -
  have "and (push_bit i 1) a \<noteq> 0 \<longleftrightarrow> bit a i"
    by (simp add: push_bit_eq_mult and.commute and_exp_eq_0_iff_not_bit)
  then show "i < 256 \<Longrightarrow> approvalsArray (Some a) ! i \<longleftrightarrow> bit a i" by (simp add: approvalsArray_def)
qed

text \<open>The signers a deployment stores are the signers an operator reads.\<close>

lemma config_signers_read_back:
  assumes "storeDictDirect (arrayToCell signers) = Inr c"
    "getMultisigData \<lparr>mk_nextOrderSeqno = n, mk_threshold = t, mk_signers = Some c, mk_proposers = None\<rparr> = Inr d"
  shows "ms_signers d = signers"
  using assms(2) by (auto simp: getMultisigData_def err_simps cellToArray_stored [OF assms(1)])

end
