(* ===== verification/TonDeploy.thy ===== *)
theory TonDeploy
  imports TonMultisig Config
begin

text \<open>
  The deployment of the TON side: the metadata of the token (\<open>contracts/ton/src/metadata.ts\<close>), the
  bodies of the minter (\<open>minter.ts\<close>), the deployment of multisig and minter (\<open>config.ts\<close>,
  \<open>wallet.ts\<close>, \<open>deploy.ts\<close>, \<open>genMultisigData.ts\<close>, \<open>deployMultisig.ts\<close>, \<open>deployJettonMinter.ts\<close>) and
  the orders that change the minter (\<open>setMinterAdmin.ts\<close>, \<open>setMinterContent.ts\<close>). SHA-256, the parser of
  addresses and amounts, wallets, files and the node are arguments; the endpoint and its key select the
  client and are left out, as is the console.
\<close>

section \<open>metadata.ts\<close>

record WvizMetadata =
  wz_name :: string
  wz_symbol :: string
  wz_decimals :: string
  wz_description :: string
  wz_image :: "string option"

text \<open>\<open>set\<close> of a dictionary, whose entries are stored in the order of their keys.\<close>

definition dictSet :: "nat \<Rightarrow> ton_cell \<Rightarrow> ton_dict \<Rightarrow> ton_dict" where
  "dictSet k c d = (k, c) # filter (\<lambda>e. fst e \<noteq> k) d"

definition wvizEntries :: "WvizMetadata \<Rightarrow> (string \<times> string option) list" where
  "wvizEntries m = [(''name'', Some (wz_name m)), (''symbol'', Some (wz_symbol m)),
     (''decimals'', Some (wz_decimals m)), (''description'', Some (wz_description m)), (''image'', wz_image m)]"

definition snakeValue :: "string \<Rightarrow> ton_cell" where
  "snakeValue s = [TUint 0 8, TString s]"

definition buildWvizContent :: "(string \<Rightarrow> nat) \<Rightarrow> WvizMetadata \<Rightarrow> ton_cell" where
  "buildWvizContent sha256 m =
     (let d = foldl (\<lambda>d (k, v). case v of None \<Rightarrow> d
                       | Some s \<Rightarrow> if s = [] then d else dictSet (sha256 k) (snakeValue s) d) [] (wvizEntries m)
      in TUint 0 8 # (if d = [] then [TBit False] else [TBit True, TRef [TDict (sort_key fst d)]]))"

text \<open>Neither of the two tags is looked at.\<close>

definition loadDict :: "ton_cell \<Rightarrow> ton_dict result" where
  "loadDict c =
     (case c of
        TUint t w # TBit b # rest \<Rightarrow>
          if w \<noteq> 8 then Inl (GenericError ''Not enough bits'')
          else if \<not> b then Inr []
          else (case rest of TRef [TDict d] # _ \<Rightarrow> Inr d | _ \<Rightarrow> Inl (GenericError ''No more references''))
      | _ \<Rightarrow> Inl (GenericError ''Not enough bits''))"

definition loadSnake :: "ton_cell \<Rightarrow> string result" where
  "loadSnake c = (case c of [TUint t w, TString s] \<Rightarrow> if w = 8 then Inr s else Inl (GenericError ''Not enough bits'')
                  | _ \<Rightarrow> Inl (GenericError ''Not enough bits''))"

definition wvizKeys :: "string list" where
  "wvizKeys = [''name'', ''symbol'', ''decimals'', ''description'', ''image'']"

definition parseWvizContent :: "(string \<Rightarrow> nat) \<Rightarrow> ton_cell \<Rightarrow> (string \<times> string) list result" where
  "parseWvizContent sha256 content =
     bindE (loadDict content) (\<lambda>d.
     bindE (mapE (\<lambda>k. case map_of d (sha256 k) of
         None \<Rightarrow> Inr []
       | Some c \<Rightarrow> bindE (loadSnake c) (\<lambda>s. Inr [(k, s)])) wvizKeys) (\<lambda>es.
     Inr (concat es)))"

section \<open>minter.ts\<close>

definition OP_CHANGE_ADMIN :: int where "OP_CHANGE_ADMIN = 3"

definition OP_CHANGE_CONTENT :: int where "OP_CHANGE_CONTENT = 4"

definition buildStandardMinterData :: "string \<Rightarrow> ton_cell \<Rightarrow> ton_cell \<Rightarrow> ton_cell" where
  "buildStandardMinterData admin content jettonWalletCode =
     [TCoins 0, TAddress admin, TRef content, TRef jettonWalletCode]"

definition changeAdminBody :: "string \<Rightarrow> int \<Rightarrow> ton_cell result" where
  "changeAdminBody newAdmin queryId =
     endCell [storeUint OP_CHANGE_ADMIN 32, storeUint queryId 64, Inr [TAddress newAdmin]]"

definition changeContentBody :: "ton_cell \<Rightarrow> int \<Rightarrow> ton_cell result" where
  "changeContentBody content queryId =
     endCell [storeUint OP_CHANGE_CONTENT 32, storeUint queryId 64, storeRef (Inr content)]"

section \<open>config.ts and wallet.ts\<close>

text \<open>\<open>Address.parse\<close>, \<open>toNano\<close>, the wallets of a key phrase, the cells of a file, a contract address.\<close>

record TonDeployLib =
  td_parseAddress :: "string \<Rightarrow> string result"
  td_toNano :: "string \<Rightarrow> int result"
  td_mnemonicValid :: "string list \<Rightarrow> bool"
  td_walletV4 :: "string list \<Rightarrow> string result"
  td_walletV5 :: "string list \<Rightarrow> string result"
  td_readBoc :: "string \<Rightarrow> ton_cell list result"
  td_contractAddress :: "ton_cell \<Rightarrow> ton_cell \<Rightarrow> string"
  td_sha256 :: "string \<Rightarrow> nat"

record TonDeployConfig =
  tc_deployerMnemonic :: string
  tc_send :: bool
  tc_deployValue :: int
  tc_multisigCodeBoc :: string
  tc_multisigDataBoc :: string
  tc_multisigThreshold :: "int option"
  tc_multisigSigners :: "string list"
  tc_minterCodeBoc :: string
  tc_jettonWalletCodeBoc :: string
  tc_minterDataBoc :: string
  tc_initialAdmin :: string
  tc_wviz :: WvizMetadata
  tc_minterAddress :: string
  tc_multisigAddress :: string

definition parseAddresses :: "TonDeployLib \<Rightarrow> string \<Rightarrow> string list result" where
  "parseAddresses D csv = mapE (td_parseAddress D) (commaList csv)"

definition loadDeployConfig :: "TonDeployLib \<Rightarrow> environment \<Rightarrow> TonDeployConfig result" where
  "loadDeployConfig D E =
     bindE (td_toNano D (envOpt E ''DEPLOY_VALUE_TON'' ''0.5'')) (\<lambda>deployValue.
     bindE (parseAddresses D (envOpt E ''MULTISIG_SIGNERS'' [])) (\<lambda>multisigSigners.
     Inr \<lparr>tc_deployerMnemonic = envOpt E ''DEPLOYER_MNEMONIC'' [], tc_send = (envOpt E ''DEPLOY_SEND'' ''0'' = ''1''),
          tc_deployValue = deployValue, tc_multisigCodeBoc = envOpt E ''MULTISIG_CODE_BOC'' [],
          tc_multisigDataBoc = envOpt E ''MULTISIG_DATA_BOC'' [],
          tc_multisigThreshold = parseInt10 (envOpt E ''MULTISIG_THRESHOLD'' ''5''),
          tc_multisigSigners = multisigSigners, tc_minterCodeBoc = envOpt E ''JETTON_MINTER_CODE_BOC'' [],
          tc_jettonWalletCodeBoc = envOpt E ''JETTON_WALLET_CODE_BOC'' [],
          tc_minterDataBoc = envOpt E ''JETTON_MINTER_DATA_BOC'' [], tc_initialAdmin = envOpt E ''JETTON_INITIAL_ADMIN'' [],
          tc_wviz = \<lparr>wz_name = envOpt E ''WVIZ_NAME'' ''Wrapped VIZ'', wz_symbol = envOpt E ''WVIZ_SYMBOL'' ''wVIZ'',
            wz_decimals = envOpt E ''WVIZ_DECIMALS'' ''3'',
            wz_description = envOpt E ''WVIZ_DESCRIPTION''
              ''Bridge claim on VIZ locked in the gateway multisig. 1 wVIZ = 1 VIZ.'',
            wz_image = Some (envOpt E ''WVIZ_IMAGE'' ''https://avatars.githubusercontent.com/u/37064345?s=200&v=4'')\<rparr>,
          tc_minterAddress = envOpt E ''MINTER_ADDRESS'' [], tc_multisigAddress = envOpt E ''MULTISIG_ADDRESS'' []\<rparr>))"

text \<open>The version comes from the environment, where only an unset variable means the default.\<close>

definition deriveDeployer :: "TonDeployLib \<Rightarrow> environment \<Rightarrow> string \<Rightarrow> string result" where
  "deriveDeployer D E mnemonic =
     (let ws = wordsOf (trim mnemonic);
          v = toLowerCase (trim (case E ''DEPLOYER_WALLET_VERSION'' of None \<Rightarrow> ''v4'' | Some x \<Rightarrow> x))
      in bindE (throwIf (length ws \<noteq> 24) (GenericError ''DEPLOYER_MNEMONIC must be 24 words'')) (\<lambda>_.
         bindE (throwIf (\<not> td_mnemonicValid D ws) (GenericError ''DEPLOYER_MNEMONIC failed TON mnemonic validation'')) (\<lambda>_.
         if v = ''v5r1'' \<or> v = ''v5'' then td_walletV5 D ws else td_walletV4 D ws)))"

section \<open>deploy.ts and the deployments\<close>

definition loadCodeBoc :: "TonDeployLib \<Rightarrow> string \<Rightarrow> ton_cell result" where
  "loadCodeBoc D path =
     bindE (td_readBoc D path) (\<lambda>cells.
       case cells of [] \<Rightarrow> Inl (GenericError (''No cell found in BOC: '' @ path)) | code # _ \<Rightarrow> Inr code)"

text \<open>A message of the deployer's wallet; a deployment carries code and data, an admin message does not.\<close>

record TonInternal =
  ti_to :: string
  ti_value :: int
  ti_init :: "(ton_cell \<times> ton_cell) option"
  ti_body :: ton_cell

definition deployStateInit :: "TonDeployLib \<Rightarrow> ton_cell \<Rightarrow> ton_cell \<Rightarrow> int \<Rightarrow> TonInternal" where
  "deployStateInit D code data value' =
     \<lparr>ti_to = td_contractAddress D code data, ti_value = value', ti_init = Some (code, data), ti_body = []\<rparr>"

definition sendInternal :: "string \<Rightarrow> int \<Rightarrow> ton_cell \<Rightarrow> TonInternal" where
  "sendInternal dest value' body = \<lparr>ti_to = dest, ti_value = value', ti_init = None, ti_body = body\<rparr>"

text \<open>The wallet sends with its current number; \<open>None\<close> is the dry run.\<close>

definition sendFromDeployer ::
  "TonDeployLib \<Rightarrow> environment \<Rightarrow> TonDeployConfig \<Rightarrow> (string \<Rightarrow> TonInternal \<Rightarrow> 'c \<Rightarrow> unit result \<times> 'c) \<Rightarrow>
   TonInternal \<Rightarrow> 'c \<Rightarrow> TonInternal option result \<times> 'c" where
  "sendFromDeployer D E cfg send msg c =
     (if \<not> tc_send cfg then (Inr None, c)
      else (case deriveDeployer D E (tc_deployerMnemonic cfg) of
          Inl e \<Rightarrow> (Inl e, c)
        | Inr wallet \<Rightarrow>
            (case send wallet msg c of (Inl e, c1) \<Rightarrow> (Inl e, c1) | (Inr _, c1) \<Rightarrow> (Inr (Some msg), c1))))"

definition planMultisig :: "TonDeployLib \<Rightarrow> TonDeployConfig \<Rightarrow> TonInternal result" where
  "planMultisig D cfg =
     bindE (throwIf (tc_multisigCodeBoc cfg = []) (GenericError ''Set MULTISIG_CODE_BOC'')) (\<lambda>_.
     bindE (throwIf (tc_multisigDataBoc cfg = []) (GenericError ''Set MULTISIG_DATA_BOC'')) (\<lambda>_.
     bindE (loadCodeBoc D (tc_multisigCodeBoc cfg)) (\<lambda>code.
     bindE (loadCodeBoc D (tc_multisigDataBoc cfg)) (\<lambda>data.
     Inr (deployStateInit D code data (tc_deployValue cfg))))))"

definition planMinter :: "TonDeployLib \<Rightarrow> TonDeployConfig \<Rightarrow> TonInternal result" where
  "planMinter D cfg =
     bindE (throwIf (tc_minterCodeBoc cfg = []) (GenericError ''Set JETTON_MINTER_CODE_BOC'')) (\<lambda>_.
     bindE (loadCodeBoc D (tc_minterCodeBoc cfg)) (\<lambda>code.
     let content = buildWvizContent (td_sha256 D) (tc_wviz cfg) in
     bindE (if tc_minterDataBoc cfg \<noteq> [] then loadCodeBoc D (tc_minterDataBoc cfg)
            else bindE (throwIf (tc_jettonWalletCodeBoc cfg = []) (GenericError ''Set JETTON_WALLET_CODE_BOC'')) (\<lambda>_.
                 bindE (throwIf (tc_initialAdmin cfg = []) (GenericError ''Set JETTON_INITIAL_ADMIN'')) (\<lambda>_.
                 bindE (loadCodeBoc D (tc_jettonWalletCodeBoc cfg)) (\<lambda>walletCode.
                 bindE (td_parseAddress D (tc_initialAdmin cfg)) (\<lambda>admin.
                 Inr (buildStandardMinterData admin content walletCode)))))) (\<lambda>data.
     Inr (deployStateInit D code data (tc_deployValue cfg)))))"

definition planMinterAdmin :: "TonDeployLib \<Rightarrow> TonDeployConfig \<Rightarrow> TonInternal result" where
  "planMinterAdmin D cfg =
     bindE (throwIf (tc_minterAddress cfg = []) (GenericError ''Set MINTER_ADDRESS.'')) (\<lambda>_.
     bindE (throwIf (tc_multisigAddress cfg = []) (GenericError ''Set MULTISIG_ADDRESS (the new admin).'')) (\<lambda>_.
     bindE (td_parseAddress D (tc_minterAddress cfg)) (\<lambda>minter.
     bindE (td_parseAddress D (tc_multisigAddress cfg)) (\<lambda>newAdmin.
     bindE (changeAdminBody newAdmin 0) (\<lambda>body.
     Inr (sendInternal minter (tc_deployValue cfg) body))))))"

text \<open>The three scripts: the plan is made, and a failing plan sends nothing.\<close>

definition runDeploy ::
  "(TonDeployLib \<Rightarrow> TonDeployConfig \<Rightarrow> TonInternal result) \<Rightarrow> TonDeployLib \<Rightarrow> environment \<Rightarrow>
   (string \<Rightarrow> TonInternal \<Rightarrow> 'c \<Rightarrow> unit result \<times> 'c) \<Rightarrow> 'c \<Rightarrow> TonInternal option result \<times> 'c" where
  "runDeploy plan D E send c =
     (case bindE (loadDeployConfig D E) (\<lambda>cfg. bindE (plan D cfg) (\<lambda>m. Inr (cfg, m))) of
        Inl e \<Rightarrow> (Inl e, c) | Inr (cfg, m) \<Rightarrow> sendFromDeployer D E cfg send m c)"

section \<open>genMultisigData.ts\<close>

definition validateThreshold :: "int option \<Rightarrow> int \<Rightarrow> int result" where
  "validateThreshold threshold n =
     (case threshold of
        None \<Rightarrow> Inl (GenericError ''MULTISIG_THRESHOLD must be in 1..n'')
      | Some t \<Rightarrow> if t < 1 \<or> n < t then Inl (GenericError ''MULTISIG_THRESHOLD must be in 1..n'') else Inr t)"

definition positiveInt :: "int option \<Rightarrow> int result" where
  "positiveInt n =
     (case n of
        None \<Rightarrow> Inl (GenericError ''FED_N must be a positive integer'')
      | Some i \<Rightarrow> if i < 1 then Inl (GenericError ''FED_N must be a positive integer'') else Inr i)"

text \<open>\<open>process.env.X ?? d\<close>: a variable that is set but empty is not replaced.\<close>

definition envOr :: "environment \<Rightarrow> string \<Rightarrow> string \<Rightarrow> string" where
  "envOr E name d = (case E name of None \<Rightarrow> d | Some v \<Rightarrow> v)"

text \<open>
  The signers in their order, the key phrases that were made or read, and the checked threshold;
  \<open>fresh i\<close> is the phrase the library makes for the i-th operator.
\<close>

definition resolveSigners ::
  "TonDeployLib \<Rightarrow> (nat \<Rightarrow> string) \<Rightarrow> environment \<Rightarrow> (string list \<times> string list \<times> int) result" where
  "resolveSigners D fresh E =
     (let threshold = parseInt10 (envOr E ''MULTISIG_THRESHOLD'' ''3'');
          gen = (E ''GEN'' = Some ''1'');
          addrCsv = trim (envOr E ''MULTISIG_SIGNER_ADDRESSES'' [])
      in bindE (throwIf (addrCsv \<noteq> [] \<and> gen) (GenericError ''Set only one of MULTISIG_SIGNER_ADDRESSES or GEN=1, not both.'')) (\<lambda>_.
         if addrCsv \<noteq> [] then
           bindE (mapE (td_parseAddress D) (commaList addrCsv)) (\<lambda>signers.
           bindE (throwIf (signers = []) (GenericError ''MULTISIG_SIGNER_ADDRESSES parsed to zero addresses.'')) (\<lambda>_.
           bindE (positiveInt (case E ''FED_N'' of None \<Rightarrow> Some (int (length signers)) | Some v \<Rightarrow> parseInt10 v)) (\<lambda>n.
           bindE (throwIf (int (length signers) \<noteq> n) (GenericError ''MULTISIG_SIGNER_ADDRESSES does not have FED_N addresses'')) (\<lambda>_.
           bindE (validateThreshold threshold n) (\<lambda>t.
           Inr (signers, [], t))))))
         else
           bindE (positiveInt (parseInt10 (envOr E ''FED_N'' ''5''))) (\<lambda>n.
           bindE (validateThreshold threshold n) (\<lambda>t.
           bindE (mapE (\<lambda>i. if gen then Inr (fresh i)
               else (case envSet E (''FED_OP'' @ decNat i @ ''_TON_MNEMONIC'') of
                   None \<Rightarrow> Inl (GenericError ''missing FED_OP_TON_MNEMONIC'') | Some m \<Rightarrow> Inr m)) [1..<Suc (nat n)]) (\<lambda>mnemonics.
           bindE (mapE (\<lambda>m. td_walletV4 D (wordsOf m)) mnemonics) (\<lambda>signers.
           Inr (signers, mnemonics, t)))))))"

text \<open>The cell that is written, the address of the multisig, and the phrases printed with \<open>GEN=1\<close>.\<close>

definition genMultisigData ::
  "TonDeployLib \<Rightarrow> (nat \<Rightarrow> string) \<Rightarrow> environment \<Rightarrow> (ton_cell \<times> string \<times> string list) result" where
  "genMultisigData D fresh E =
     (case envSet E ''MULTISIG_CODE_BOC'' of
        None \<Rightarrow> Inl (GenericError ''Set MULTISIG_CODE_BOC (path to the vendored multisig code cell).'')
      | Some path \<Rightarrow>
          bindE (resolveSigners D fresh E) (\<lambda>(signers, mnemonics, threshold).
          bindE (loadCodeBoc D path) (\<lambda>code.
          bindE (multisigConfigToCell threshold signers [] False) (\<lambda>data.
          Inr (data, td_contractAddress D code data, if E ''GEN'' = Some ''1'' then mnemonics else [])))))"

section \<open>setMinterContent.ts\<close>

text \<open>\<open>toNano("0.1")\<close>, \<open>toNano("1")\<close> and \<open>toNano("0.05")\<close>.\<close>

definition contentAction :: "string \<Rightarrow> ton_cell \<Rightarrow> Action result" where
  "contentAction minter content =
     bindE (changeContentBody content 0) (\<lambda>body. Inr (Transfer PAY_GAS_SEPARATELY minter 100000000 body))"

definition packContentOrder :: "string \<Rightarrow> ton_cell \<Rightarrow> ton_cell result" where
  "packContentOrder minter content = bindE (contentAction minter content) (\<lambda>a. packOrder [a])"

definition NEW_ORDER_VALUE :: int where "NEW_ORDER_VALUE = 1000000000"

definition PROPOSER_GAS_HEADROOM :: int where "PROPOSER_GAS_HEADROOM = 50000000"

definition CONTENT_ORDER_TTL_SEC :: "environment \<Rightarrow> int option" where
  "CONTENT_ORDER_TTL_SEC E = parseInt10 (envOpt E ''TON_ORDER_TTL_SEC'' ''172800'')"

definition signerWallet :: "TonDeployLib \<Rightarrow> environment \<Rightarrow> string result" where
  "signerWallet D E =
     (let mnemonic = trim (envOpt E ''TON_SIGNER_MNEMONIC'' [])
      in bindE (throwIf (mnemonic = []) (GenericError ''TON_SIGNER_MNEMONIC (your operator TON wallet) is required'')) (\<lambda>_.
         td_walletV4 D (wordsOf mnemonic)))"

text \<open>The cell is also parsed, for the operator to read.\<close>

definition desiredContent :: "TonDeployLib \<Rightarrow> TonDeployConfig \<Rightarrow> ton_cell result" where
  "desiredContent D cfg =
     (let content = buildWvizContent (td_sha256 D) (tc_wviz cfg)
      in bindE (parseWvizContent (td_sha256 D) content) (\<lambda>_. Inr content))"

datatype ContentSubmit = ContentDryRun nat string | ContentSent Action int nat string

text \<open>
  \<open>submit\<close>: what the wallet sends names the order by the number that is next when the contract sees it,
  the address printed is that of the number read before. A lifetime that is no number makes the
  message fail when it is built.
\<close>

definition submitContent ::
  "TonDeployLib \<Rightarrow> environment \<Rightarrow> int \<Rightarrow> (string \<Rightarrow> MultisigData result) \<Rightarrow> (string \<Rightarrow> nat \<Rightarrow> string result) \<Rightarrow>
   (string \<Rightarrow> int result) \<Rightarrow> (string \<Rightarrow> Action \<Rightarrow> int \<Rightarrow> nat \<Rightarrow> unit result) \<Rightarrow> ContentSubmit result" where
  "submitContent D E nowSec readMultisig orderAddress balanceOf sendOrder =
     bindE (loadDeployConfig D E) (\<lambda>cfg.
     bindE (throwIf (tc_minterAddress cfg = []) (GenericError ''Set MINTER_ADDRESS.'')) (\<lambda>_.
     bindE (throwIf (tc_multisigAddress cfg = []) (GenericError ''Set MULTISIG_ADDRESS (the minter's admin).'')) (\<lambda>_.
     bindE (td_parseAddress D (tc_minterAddress cfg)) (\<lambda>minter.
     bindE (td_parseAddress D (tc_multisigAddress cfg)) (\<lambda>multisig.
     bindE (desiredContent D cfg) (\<lambda>content.
     bindE (packContentOrder minter content) (\<lambda>_.
     bindE (readMultisig multisig) (\<lambda>data.
     bindE (signerWallet D E) (\<lambda>me.
     case findIndexBy (\<lambda>s. s = me) (ms_signers data) of
       None \<Rightarrow> Inl (GenericError ''your wallet is not a current multisig signer'')
     | Some myIdx \<Rightarrow>
     bindE (orderAddress multisig (ms_nextOrderSeqno data)) (\<lambda>orderAddr.
     bindE (balanceOf me) (\<lambda>balance.
     bindE (throwIf (balance < NEW_ORDER_VALUE + PROPOSER_GAS_HEADROOM) (GenericError ''proposer wallet needs more TON'')) (\<lambda>_.
     if E ''APPLY'' \<noteq> Some ''1'' then Inr (ContentDryRun (ms_nextOrderSeqno data) orderAddr)
     else (case CONTENT_ORDER_TTL_SEC E of
         None \<Rightarrow> Inl (GenericError ''RangeError: The number NaN cannot be converted to a BigInt'')
       | Some ttl \<Rightarrow>
           bindE (contentAction minter content) (\<lambda>action.
           bindE (sendOrder multisig action (nowSec + ttl) myIdx) (\<lambda>_.
           Inr (ContentSent action (nowSec + ttl) myIdx orderAddr))))))))))))))))"

datatype ContentApprove = ContentExecuted | ContentAlready | ContentReady nat | ContentApproved nat

definition approveContent ::
  "TonDeployLib \<Rightarrow> environment \<Rightarrow> string option \<Rightarrow> int \<Rightarrow> (string \<Rightarrow> ton_cell TonOrderView result) \<Rightarrow>
   (string \<Rightarrow> nat \<Rightarrow> unit result) \<Rightarrow> ContentApprove result" where
  "approveContent D E orderArg nowSec orderData sendApprove =
     bindE (loadDeployConfig D E) (\<lambda>cfg.
     bindE (throwIf (orderArg \<in> {None, Some []}) (GenericError ''approve needs the order address'')) (\<lambda>_.
     bindE (throwIf (tc_minterAddress cfg = []) (GenericError ''Set MINTER_ADDRESS.'')) (\<lambda>_.
     bindE (td_parseAddress D (tc_minterAddress cfg)) (\<lambda>minter.
     bindE (desiredContent D cfg) (\<lambda>content.
     bindE (packContentOrder minter content) (\<lambda>expectedOrder.
     bindE (td_parseAddress D (the orderArg)) (\<lambda>order.
     bindE (orderData order) (\<lambda>od.
     if to_executed od then Inr ContentExecuted
     else (case to_order od of
         None \<Rightarrow> Inl (GenericError ''order not initialized yet (proposer must submit first)'')
       | Some cell \<Rightarrow>
     bindE (throwIf (cell \<noteq> expectedOrder) (GenericError ''on-chain order does not match the expected change_content'')) (\<lambda>_.
     bindE (signerWallet D E) (\<lambda>me.
     case findIndexBy (\<lambda>s. s = me) (to_signers od) of
       None \<Rightarrow> Inl (GenericError ''your wallet is not a signer on this order'')
     | Some myIdx \<Rightarrow>
         if myIdx < length (to_approvals od) \<and> to_approvals od ! myIdx then Inr ContentAlready
         else if (case to_expiration_date od of None \<Rightarrow> False | Some e \<Rightarrow> e < nowSec) then Inl (GenericError ''order expired'')
         else if E ''APPLY'' \<noteq> Some ''1'' then Inr (ContentReady myIdx)
         else bindE (sendApprove order myIdx) (\<lambda>_. Inr (ContentApproved myIdx)))))))))))))"

section \<open>The metadata round trip\<close>

definition shownEntries :: "WvizMetadata \<Rightarrow> (string \<times> string) list" where
  "shownEntries m = concat (map (\<lambda>(k, v). case v of None \<Rightarrow> [] | Some s \<Rightarrow> if s = [] then [] else [(k, s)]) (wvizEntries m))"

lemma map_of_dictSet: "map_of (dictSet k c d) = (map_of d)(k \<mapsto> c)"
proof
  fix x
  have "map_of (filter (\<lambda>e. fst e \<noteq> k) d) x = (if x = k then None else map_of d x)"
    by (induction d) auto
  then show "map_of (dictSet k c d) x = ((map_of d)(k \<mapsto> c)) x" by (simp add: dictSet_def)
qed

lemma distinct_dictSet: "distinct (map fst d) \<Longrightarrow> distinct (map fst (dictSet k c d))"
  by (auto simp: dictSet_def distinct_map_filter)

lemma map_of_sort_key: "distinct (map fst d) \<Longrightarrow> map_of (sort_key fst d) = map_of d"
proof (rule map_of_eqI)
  show "set (map fst (sort_key fst d)) = set (map fst d)" by simp
next
  assume d: "distinct (map fst d)"
  have "distinct (map fst (sort_key fst d))" using d by (simp add: distinct_map)
  then show "\<forall>k \<in> set (map fst (sort_key fst d)). map_of (sort_key fst d) k = map_of d k"
    using d by (metis distinct_map map_of_inject_set set_sort)
qed

lemma mapE_same_length: "mapE f xs = Inr ys \<Longrightarrow> length ys = length xs"
  by (induction xs arbitrary: ys) (auto simp: err_simps)

lemma mapE_map: "(\<And>x. x \<in> set xs \<Longrightarrow> f x = Inr (g x)) \<Longrightarrow> mapE f xs = Inr (map g xs)"
  by (induction xs) auto

text \<open>What is built reads back as its entries that are not empty, in their order.\<close>

lemma wviz_content_roundtrip:
  assumes "inj_on sha (set wvizKeys)"
  shows "parseWvizContent sha (buildWvizContent sha m) = Inr (shownEntries m)"
proof -
  let ?step = "\<lambda>d (k, v). case v of None \<Rightarrow> d | Some s \<Rightarrow> if s = [] then d else dictSet (sha k) (snakeValue s) d"
  define d where "d = foldl ?step [] (wvizEntries m)"
  have dist: "distinct (map fst (foldl ?step e es))" if "distinct (map fst e)" for e es
    using that by (induction es arbitrary: e) (auto simp: distinct_dictSet split: option.split)
  then have dd: "distinct (map fst d)" unfolding d_def by simp
  have load: "\<exists>d'. loadDict (buildWvizContent sha m) = Inr d' \<and> map_of d' = map_of d"
    using map_of_sort_key [OF dd] by (simp add: buildWvizContent_def loadDict_def flip: d_def)
  have ne: "sha ''symbol'' \<noteq> sha ''name''" "sha ''decimals'' \<noteq> sha ''name''" "sha ''description'' \<noteq> sha ''name''"
    "sha ''image'' \<noteq> sha ''name''" "sha ''decimals'' \<noteq> sha ''symbol''" "sha ''description'' \<noteq> sha ''symbol''"
    "sha ''image'' \<noteq> sha ''symbol''" "sha ''description'' \<noteq> sha ''decimals''" "sha ''image'' \<noteq> sha ''decimals''"
    "sha ''image'' \<noteq> sha ''description''"
    using assms by (auto simp: inj_on_def wvizKeys_def)
  have shown: "map_of d (sha ''name'') = (if wz_name m = [] then None else Some (snakeValue (wz_name m)))"
    "map_of d (sha ''symbol'') = (if wz_symbol m = [] then None else Some (snakeValue (wz_symbol m)))"
    "map_of d (sha ''decimals'') = (if wz_decimals m = [] then None else Some (snakeValue (wz_decimals m)))"
    "map_of d (sha ''description'') = (if wz_description m = [] then None else Some (snakeValue (wz_description m)))"
    "map_of d (sha ''image'') = (case wz_image m of None \<Rightarrow> None | Some s \<Rightarrow> if s = [] then None else Some (snakeValue s))"
    using ne ne [symmetric] by (auto simp: d_def wvizEntries_def map_of_dictSet split: option.split)
  obtain d' where d': "loadDict (buildWvizContent sha m) = Inr d'" "map_of d' = map_of d" using load by blast
  show ?thesis
    unfolding parseWvizContent_def d'(1) bindE_Inr d'(2)
    by (simp add: wvizKeys_def shown loadSnake_def snakeValue_def shownEntries_def wvizEntries_def split: option.split)
qed

section \<open>What an approver of a metadata change approves\<close>

text \<open>
  An approval is sent only for an order that was opened with exactly one action: the message that gives
  the approver's own minter the content built from the approver's own settings.
\<close>

lemma contentAction_Inr:
  "contentAction minter content = Inr a \<longleftrightarrow>
     a = Transfer PAY_GAS_SEPARATELY minter 100000000 [TUint 4 32, TUint 0 64, TRef content]"
  by (auto simp: contentAction_def changeContentBody_def OP_CHANGE_CONTENT_def storeUint_def storeRef_def err_simps)

lemma approveContent_sent:
  assumes "approveContent D E orderArg nowSec orderData sendApprove = Inr (ContentApproved i)"
  shows "\<exists>cfg minter order od cell me. loadDeployConfig D E = Inr cfg \<and> td_parseAddress D (tc_minterAddress cfg) = Inr minter \<and>
    orderData order = Inr od \<and> \<not> to_executed od \<and> to_order od = Some cell \<and>
    packContentOrder minter (buildWvizContent (td_sha256 D) (tc_wviz cfg)) = Inr cell \<and>
    signerWallet D E = Inr me \<and> findIndexBy (\<lambda>s. s = me) (to_signers od) = Some i \<and> E ''APPLY'' = Some ''1'' \<and>
    sendApprove order i = Inr ()"
  using assms unfolding approveContent_def bindE_eq_Inr throwIf_eq_Inr
  by (auto simp: desiredContent_def Let_def err_simps split: if_splits option.splits; blast)

text \<open>A proposal is sent only from a wallet that can pay for it.\<close>

lemma submitContent_funded:
  assumes "submitContent D E nowSec readMultisig orderAddress balanceOf sendOrder = Inr (ContentSent a x i addr)"
  shows "\<exists>me balance. signerWallet D E = Inr me \<and> balanceOf me = Inr balance \<and> 1050000000 \<le> balance"
  using assms unfolding submitContent_def bindE_eq_Inr throwIf_eq_Inr
  by (auto simp: NEW_ORDER_VALUE_def PROPOSER_GAS_HEADROOM_def err_simps split: option.splits if_splits)

section \<open>From the generated data to the multisig on the chain\<close>

lemma resolveSigners_bounds:
  "resolveSigners D fresh E = Inr (signers, mnemonics, t) \<Longrightarrow> 1 \<le> t \<and> t \<le> int (length signers)"
  unfolding resolveSigners_def Let_def
  by (auto simp: err_simps validateThreshold_def positiveInt_def dest!: mapE_same_length split: if_splits option.splits)

text \<open>
  The cell the generator writes holds the signers in the order they were given, a threshold between one
  and their number, and no proposers; the getter of a multisig deployed with it returns them.
\<close>

lemma generated_data:
  assumes "genMultisigData D fresh E = Inr (data, address, shown)"
  shows "\<exists>signers t mnemonics c. resolveSigners D fresh E = Inr (signers, mnemonics, t) \<and> 1 \<le> t \<and> t \<le> int (length signers) \<and>
    storeDictDirect (arrayToCell signers) = Inr c \<and>
    data = [TUint 0 256, TUint (nat t) 8, TRef c, TUint (length signers) 8, TBit False, TBit False] \<and>
    cellToArray (Some c) = Inr signers"
proof -
  from assms obtain signers t mnemonics where r: "resolveSigners D fresh E = Inr (signers, mnemonics, t)"
    "multisigConfigToCell t signers [] False = Inr data"
    by (auto simp: genMultisigData_def err_simps split: option.splits)
  then obtain c where c: "storeDictDirect (arrayToCell signers) = Inr c"
    "data = [TUint 0 256, TUint (nat t) 8, TRef c, TUint (length signers) 8, TBit False, TBit False]"
    by (auto simp: multisigConfigToCell_def storeUint_Inr storeRef_Inr storeDict_def err_simps ton_consts)
  from r c resolveSigners_bounds [OF r(1)] cellToArray_stored [OF c(1)] show ?thesis by blast
qed

text \<open>The mode that takes only addresses shows no key phrase.\<close>

lemma addresses_mode_no_secret:
  "genMultisigData D fresh E = Inr (data, address, shown) \<Longrightarrow> trim (envOr E ''MULTISIG_SIGNER_ADDRESSES'' []) \<noteq> [] \<Longrightarrow>
     shown = []"
  by (auto simp: genMultisigData_def resolveSigners_def Let_def err_simps split: option.splits if_splits)

text \<open>A phrase with a space at its end has one word more, and \<open>GEN\<close> unset reads it as it stands.\<close>

lemma generator_keeps_trailing_space: "length (wordsOf ''a b '') = 3" "length (wordsOf (trim ''a b '')) = 2"
  by (code_simp)+

section \<open>Nothing is sent by a dry run\<close>

lemma runDeploy_sends:
  assumes "runDeploy plan D E send c = (r, c')" "c' \<noteq> c"
  shows "\<exists>cfg m wallet. loadDeployConfig D E = Inr cfg \<and> tc_send cfg \<and> plan D cfg = Inr m \<and>
    deriveDeployer D E (tc_deployerMnemonic cfg) = Inr wallet \<and> c' = snd (send wallet m c)"
  using assms by (auto simp: runDeploy_def sendFromDeployer_def err_simps split: sum.splits if_splits prod.splits)

section \<open>Properties\<close>

text \<open>
  C40. An operator who approves a change of the token metadata approves exactly the change it has
  configured itself. When the command sends an approval, whatever actions whoever opened the order
  packed into the cell that stands on the chain, they are one single action: the message that gives the
  operator's own minter, with 0.1 TON, the content built from the operator's own settings.
\<close>

theorem approved_content_order:
  assumes "approveContent D E orderArg nowSec orderData sendApprove = Inr (ContentApproved i)"
  shows "\<exists>cfg minter order od. loadDeployConfig D E = Inr cfg \<and> td_parseAddress D (tc_minterAddress cfg) = Inr minter \<and>
    orderData order = Inr od \<and> sendApprove order i = Inr () \<and>
    (\<forall>as. packOrder as = Inr (the (to_order od)) \<longrightarrow>
       as = [Transfer PAY_GAS_SEPARATELY minter 100000000
               [TUint 4 32, TUint 0 64, TRef (buildWvizContent (td_sha256 D) (tc_wviz cfg))]])"
proof -
  from approveContent_sent [OF assms] obtain cfg minter order od cell where r:
    "loadDeployConfig D E = Inr cfg" "td_parseAddress D (tc_minterAddress cfg) = Inr minter" "orderData order = Inr od"
    "to_order od = Some cell" "sendApprove order i = Inr ()"
    "packContentOrder minter (buildWvizContent (td_sha256 D) (tc_wviz cfg)) = Inr cell" by blast
  have "as = [Transfer PAY_GAS_SEPARATELY minter 100000000
               [TUint 4 32, TUint 0 64, TRef (buildWvizContent (td_sha256 D) (tc_wviz cfg))]]"
    if "packOrder as = Inr cell" for as
    using r(6) packOrder_inj [OF that] by (auto simp: packContentOrder_def err_simps contentAction_Inr)
  with r show ?thesis by (intro exI conjI) auto
qed

definition content_lib_example :: TonDeployLib where
  "content_lib_example =
     \<lparr>td_parseAddress = Inr, td_toNano = (\<lambda>_. Inr 500000000), td_mnemonicValid = (\<lambda>_. True),
      td_walletV4 = (\<lambda>ws. Inr (concat ws)), td_walletV5 = (\<lambda>ws. Inr (concat ws)), td_readBoc = (\<lambda>_. Inr []),
      td_contractAddress = (\<lambda>_ _. ''c''), td_sha256 = length\<rparr>"

definition content_env_example :: environment where
  "content_env_example = [''MINTER_ADDRESS'' \<mapsto> ''minter'', ''TON_SIGNER_MNEMONIC'' \<mapsto> ''op one'', ''APPLY'' \<mapsto> ''1'']"

definition content_cfg_example :: TonDeployConfig where
  "content_cfg_example =
     (case loadDeployConfig content_lib_example content_env_example of Inr cfg \<Rightarrow> cfg | Inl _ \<Rightarrow> undefined)"

definition content_order_example :: ton_cell where
  "content_order_example =
     [TDict [(0, [TUint 0xf1381e5b 32, TUint 1 8, TRef [TMessage ''minter'' 100000000
        [TUint 4 32, TUint 0 64, TRef (buildWvizContent length (tc_wviz content_cfg_example))]]])]]"

lemma content_example_config:
  "loadDeployConfig content_lib_example content_env_example = Inr content_cfg_example"
  "tc_minterAddress content_cfg_example = ''minter''"
proof -
  have "\<exists>cfg. loadDeployConfig content_lib_example content_env_example = Inr cfg \<and> tc_minterAddress cfg = ''minter''"
    by (simp add: loadDeployConfig_def content_lib_example_def content_env_example_def envOpt_def envSet_def
        parseAddresses_def commaList_def trim_def)
  then show "loadDeployConfig content_lib_example content_env_example = Inr content_cfg_example"
    "tc_minterAddress content_cfg_example = ''minter''"
    by (auto simp: content_cfg_example_def)
qed

lemma content_example_cells:
  "desiredContent content_lib_example content_cfg_example = Inr (buildWvizContent length (tc_wviz content_cfg_example))"
  "packContentOrder ''minter'' (buildWvizContent length (tc_wviz content_cfg_example)) = Inr content_order_example"
proof -
  have "inj_on (length :: string \<Rightarrow> nat) (set wvizKeys)" by (simp add: wvizKeys_def)
  from wviz_content_roundtrip [OF this]
  show "desiredContent content_lib_example content_cfg_example = Inr (buildWvizContent length (tc_wviz content_cfg_example))"
    by (simp add: desiredContent_def content_lib_example_def)
  show "packContentOrder ''minter'' (buildWvizContent length (tc_wviz content_cfg_example)) = Inr content_order_example"
    by (simp add: packContentOrder_def contentAction_def changeContentBody_def OP_CHANGE_CONTENT_def storeUint_def storeRef_def
        packOrder_def packTransferRequest_def storeDictDirect_def PAY_GAS_SEPARATELY_def ton_consts content_order_example_def)
qed

lemma content_example_wallet: "signerWallet content_lib_example content_env_example = Inr ''opone''"
  by code_simp

lemma content_example_approves:
  "approveContent content_lib_example content_env_example (Some ''order'') 100
     (\<lambda>_. Inr \<lparr>to_executed = False, to_order = Some content_order_example, to_signers = [''x'', ''opone''],
        to_approvals = [True, False], to_expiration_date = Some 200\<rparr>) (\<lambda>_ _. Inr ()) = Inr (ContentApproved 1)"
proof -
  have "td_parseAddress content_lib_example x = Inr x" for x by (simp add: content_lib_example_def)
  moreover have "content_env_example ''APPLY'' = Some ''1''" by (simp add: content_env_example_def)
  ultimately show ?thesis
    by (simp add: approveContent_def content_example_config content_example_cells content_example_wallet)
qed

theorem approved_content_order_witness:
  "\<exists>cfg minter order od. loadDeployConfig content_lib_example content_env_example = Inr cfg \<and>
    td_parseAddress content_lib_example (tc_minterAddress cfg) = Inr minter \<and>
    (Inr \<lparr>to_executed = False, to_order = Some content_order_example, to_signers = [''x'', ''opone''],
        to_approvals = [True, False], to_expiration_date = Some 200\<rparr> :: ton_cell TonOrderView result) = Inr od \<and>
    (Inr () :: unit result) = Inr () \<and> order = order \<and>
    (\<forall>as. packOrder as = Inr (the (to_order od)) \<longrightarrow>
       as = [Transfer PAY_GAS_SEPARATELY minter 100000000
               [TUint 4 32, TUint 0 64, TRef (buildWvizContent (td_sha256 content_lib_example) (tc_wviz cfg))]])"
  using approved_content_order [OF content_example_approves] by simp

end
