(* ===== verification/BridgeApp.thy ===== *)
theory BridgeApp
  imports TonMultisig SolanaLookup Fees CoordHttp
begin

text \<open>
  The pure part of the public pages (\<open>site/pegout.mjs\<close>, \<open>solana-bridge.mjs\<close>, \<open>token-format.mjs\<close> and
  \<open>recon-format.mjs\<close>) and how it fits the services: the fee shown is the fee charged, the transfer the
  page builds is the peg-out the watcher reads, an address the page accepts is one the gateway accepts,
  and the backing card shows the snapshot the coordinator serves. The address parser of the TON library
  is an argument. What only touches the DOM, and texts in the format of a locale, are left out.
\<close>

section \<open>pegout.mjs\<close>

definition buildCommentCell :: "string \<Rightarrow> ton_cell" where
  "buildCommentCell text' = [TUint 0 32, TString text']"

definition storeCoins :: "int \<Rightarrow> ton_cell result" where
  "storeCoins n = (if n < 0 then Inl (GenericError ''value is out of range'') else Inr [TCoins n])"

definition buildPegoutBody ::
  "(string \<Rightarrow> string result) \<Rightarrow> int \<Rightarrow> string \<Rightarrow> string \<Rightarrow> int \<Rightarrow> string \<Rightarrow> ton_cell result" where
  "buildPegoutBody parseAddress amountBaseUnits destinationOwner responseAddress forwardTonAmount vizRecipient =
     endCell [storeUint 0x0f8a7ea5 32, storeUint 0 64, storeCoins amountBaseUnits,
       bindE (parseAddress destinationOwner) (\<lambda>a. Inr [TAddress a]),
       bindE (parseAddress responseAddress) (\<lambda>a. Inr [TAddress a]),
       Inr [TBit False], storeCoins forwardTonAmount, Inr [TBit True],
       storeRef (Inr (buildCommentCell vizRecipient))]"

text \<open>The test \<open>/^\d+(\.\d+)?$/\<close> and the two parts it leaves.\<close>

definition amountParts :: "string \<Rightarrow> (string \<times> string) option" where
  "amountParts s =
     (case splitOn (CHR ''.'') s of
        [w] \<Rightarrow> if allDigits w then Some (w, []) else None
      | [w, f] \<Rightarrow> if allDigits w \<and> allDigits f then Some (w, f) else None
      | _ \<Rightarrow> None)"

definition wvizToBaseUnits :: "string \<Rightarrow> nat \<Rightarrow> int result" where
  "wvizToBaseUnits input decimals =
     (case amountParts (trim input) of
        None \<Rightarrow> Inl (GenericError ''invalid amount'')
      | Some (w, fr) \<Rightarrow>
          bindE (throwIf (decimals < length fr) (GenericError ''max decimals'')) (\<lambda>_.
          let padded = take decimals (fr @ replicate decimals (CHR ''0'')) in
          bindE (bigintOfString w) (\<lambda>i.
          bindE (bigintOfString (if padded = [] then ''0'' else padded)) (\<lambda>f.
          let units = i * 10 ^ decimals + f in
          bindE (throwIf (units \<le> 0) (GenericError ''amount must be positive'')) (\<lambda>_. Inr units)))))"

record ShownFee =
  sf_base :: int
  sf_activation :: int
  sf_total :: int

definition computePegInFee :: "int \<Rightarrow> int \<Rightarrow> nat \<Rightarrow> int \<Rightarrow> bool \<Rightarrow> ShownFee" where
  "computePegInFee gross floorMilliViz bps activationSurcharge walletDeployed =
     (let pct = (gross * int bps) sdiv 10000;
          base = (if pct > floorMilliViz then pct else floorMilliViz);
          activation = (if walletDeployed then 0 else activationSurcharge)
      in \<lparr>sf_base = base, sf_activation = activation, sf_total = base + activation\<rparr>)"

fun doubleDash :: "string \<Rightarrow> bool" where
  "doubleDash (a # b # cs) \<longleftrightarrow> (a = CHR ''-'' \<and> b = CHR ''-'') \<or> doubleDash (b # cs)"
| "doubleDash _ \<longleftrightarrow> False"

definition accountLabel :: "string \<Rightarrow> bool" where
  "accountLabel s \<longleftrightarrow>
     (case s of [] \<Rightarrow> False
      | c # cs \<Rightarrow> charIn (CHR ''a'') (CHR ''z'') c \<and>
          list_all (\<lambda>x. charIn (CHR ''a'') (CHR ''z'') x \<or> isDigit x \<or> x = CHR ''-'') cs)"

definition isValidVizAccount :: "string \<Rightarrow> bool" where
  "isValidVizAccount name =
     (let n = trim name in
      if length n < 2 \<or> 25 < length n then False
      else if doubleDash n \<or> endsWith n ''-'' then False
      else list_all accountLabel (splitOn (CHR ''.'') n))"

section \<open>solana-bridge.mjs\<close>

definition B58_ALPHABET :: string where
  "B58_ALPHABET = ''123456789ABCDEFGHJKLMNPQRSTUVWXYZabcdefghijkmnopqrstuvwxyz''"

definition b58Value :: "string \<Rightarrow> nat option" where
  "b58Value s = foldl (\<lambda>n c. case n of None \<Rightarrow> None
     | Some m \<Rightarrow> (case indexOf B58_ALPHABET c of None \<Rightarrow> None | Some i \<Rightarrow> Some (m * 58 + i))) (Some 0) s"

text \<open>How often a positive number can be shifted by eight bits.\<close>

fun byteCount :: "nat \<Rightarrow> nat" where
  "byteCount m = (if m = 0 then 0 else Suc (byteCount (m div 256)))"

declare byteCount.simps [simp del]

definition base58DecodedLength :: "string \<Rightarrow> int" where
  "base58DecodedLength s =
     (if s = [] then - 1
      else (case b58Value s of None \<Rightarrow> - 1
        | Some n \<Rightarrow> int (byteCount n + length (takeWhile (\<lambda>c. c = CHR ''1'') s))))"

definition isValidSolanaAddress :: "string option \<Rightarrow> bool" where
  "isValidSolanaAddress s \<longleftrightarrow> base58DecodedLength (trim (case s of None \<Rightarrow> [] | Some x \<Rightarrow> x)) = 32"

definition solanaPayUrl :: "string \<Rightarrow> string \<Rightarrow> string option \<Rightarrow> string" where
  "solanaPayUrl recipient mint amount =
     ''solana:'' @ recipient @ ''?spl-token='' @ mint @
     (case amount of None \<Rightarrow> []
      | Some a \<Rightarrow> if amountParts a \<noteq> None \<and> dblLess (DFin 0) (numberOf a) then ''&amount='' @ a else [])"

section \<open>token-format.mjs\<close>

definition computeCirculating :: "int \<Rightarrow> int \<Rightarrow> int" where
  "computeCirculating totalBaseUnits heldBaseUnits =
     (if totalBaseUnits > heldBaseUnits then totalBaseUnits - heldBaseUnits else 0)"

section \<open>recon-format.mjs\<close>

definition STALE_AFTER_MS :: double where "STALE_AFTER_MS = DFin 300000"

definition MIN_VISIBLE_PCT :: rat where "MIN_VISIBLE_PCT = 2"

fun finiteNumber :: "jsval option \<Rightarrow> rat option" where
  "finiteNumber (Some (VNum (DFin a))) = Some a"
| "finiteNumber _ = None"

text \<open>A field of an object; other values, arrays included, have none of these names.\<close>

fun fieldOf :: "jsval \<Rightarrow> string \<Rightarrow> jsval option" where
  "fieldOf (VObj o') k = map_of o' k"
| "fieldOf _ k = None"

fun isObject :: "jsval option \<Rightarrow> bool" where
  "isObject (Some (VObj o')) \<longleftrightarrow> True"
| "isObject (Some (VArr xs)) \<longleftrightarrow> True"
| "isObject _ \<longleftrightarrow> False"

record ReconCard =
  rx_locked :: rat
  rx_circulating :: rat
  rx_unswept :: rat
  rx_drift :: rat
  rx_status :: string
  rx_checkedAt :: rat
  rx_paused :: bool

definition parseReconPayload :: "jsval \<Rightarrow> string \<Rightarrow> ReconCard option" where
  "parseReconPayload json chain =
     (if \<not> isObject (Some json) \<or> fieldOf json ''ok'' = Some (VBool False) then None
      else (case fieldOf json ''chains'' of
          None \<Rightarrow> None
        | Some m \<Rightarrow>
          (case (if isObject (Some m) then fieldOf m chain else None) of
              None \<Rightarrow> None
            | Some entry \<Rightarrow>
                if \<not> isObject (Some entry) then None
                else (case (finiteNumber (fieldOf entry ''lockedMilliViz''), finiteNumber (fieldOf entry ''circulatingMilliViz''),
                        finiteNumber (fieldOf entry ''unsweptFeesMilliViz''), finiteNumber (fieldOf entry ''driftMilliViz''),
                        finiteNumber (fieldOf entry ''checkedAt'')) of
                    (Some l, Some c, Some u, Some d, Some t) \<Rightarrow>
                      (case fieldOf entry ''status'' of
                         Some (VStr st) \<Rightarrow>
                           if st \<noteq> ''OK'' \<and> st \<noteq> ''UNDER_BACKED'' then None
                           else Some \<lparr>rx_locked = l, rx_circulating = c, rx_unswept = u, rx_drift = d, rx_status = st,
                                  rx_checkedAt = t, rx_paused = (fieldOf json ''paused'' = Some (VBool True))\<rparr>
                       | _ \<Rightarrow> None)
                  | _ \<Rightarrow> None))))"

definition siteReconChains :: "jsval \<Rightarrow> (string \<times> ReconCard) list" where
  "siteReconChains json =
     (case fieldOf json ''chains'' of
        Some (VObj m) \<Rightarrow>
          List.map_filter (\<lambda>chain. map_option (\<lambda>shown. (chain, shown)) (parseReconPayload json chain)) (sort (map fst m))
      | _ \<Rightarrow> [])"

definition expectedLockedMilliViz :: "jsval option \<Rightarrow> jsval option \<Rightarrow> double option" where
  "expectedLockedMilliViz circulating unswept =
     (case (finiteNumber circulating, finiteNumber unswept) of
        (Some c, Some u) \<Rightarrow> Some (roundDouble (c + u)) | _ \<Rightarrow> None)"

text \<open>\<open>Math.round\<close> of a finite number, and the quotient and product of doubles.\<close>

definition mathRound :: "rat \<Rightarrow> int" where
  "mathRound x = \<lfloor>x + 1 / 2\<rfloor>"

fun finOf :: "double \<Rightarrow> rat" where
  "finOf (DFin a) = a"
| "finOf _ = 0"

definition backingPct :: "jsval option \<Rightarrow> jsval option \<Rightarrow> double option" where
  "backingPct locked expected =
     (case (finiteNumber locked, finiteNumber expected) of
        (Some l, Some e) \<Rightarrow>
          if e \<le> 0 \<or> l < 0 then None
          else (case dblMul (roundDouble (l / e)) (DFin 1000) of
              DFin y \<Rightarrow> Some (roundDouble (of_int (mathRound y) / 10)) | d \<Rightarrow> Some d)
      | _ \<Rightarrow> None)"

definition meterPct :: "rat \<Rightarrow> rat \<Rightarrow> double" where
  "meterPct mx v =
     (if v \<le> 0 then DFin 0
      else let raw = finOf (dblMul (roundDouble (v / mx)) (DFin 100))
           in roundDouble (of_int (mathRound (finOf (dblMul (DFin (max raw MIN_VISIBLE_PCT)) (DFin 10)))) / 10))"

definition meterFills :: "jsval option \<Rightarrow> jsval option \<Rightarrow> (double \<times> double) option" where
  "meterFills locked expected =
     (case (finiteNumber locked, finiteNumber expected) of
        (Some l, Some e) \<Rightarrow>
          if l < 0 \<or> e < 0 then None
          else if max l e \<le> 0 then None
          else Some (meterPct (max l e) l, meterPct (max l e) e)
      | _ \<Rightarrow> None)"

definition isStale :: "jsval option \<Rightarrow> jsval option \<Rightarrow> bool" where
  "isStale checkedAt now =
     (case (finiteNumber checkedAt, finiteNumber now) of
        (Some c, Some n) \<Rightarrow> dblLess STALE_AFTER_MS (roundDouble (n - c))
      | _ \<Rightarrow> True)"

section \<open>The fee that is shown\<close>

text \<open>
  Whatever the page shows for a deposit is what the gateway withholds: the same base, the same
  activation, and the net of the mint is the deposit less the total.
\<close>

lemma shown_fee_is_charged:
  "quotePegIn gross provisioned p = QuoteOk b \<Longrightarrow>
     computePegInFee gross (fp_floorMilliViz p) (fp_bps p) (fp_activationSurchargeMilliViz p) provisioned =
       \<lparr>sf_base = bd_base b, sf_activation = bd_activation b, sf_total = gross - bd_net b\<rparr>"
  by (auto simp: quotePegIn_def computePegInFee_def baseFee_def Let_def split: if_splits)

lemma shown_total: "sf_total (computePegInFee gross (fp_floorMilliViz p) (fp_bps p) (fp_activationSurchargeMilliViz p) prov) =
    gross - netOf gross prov p"
  by (simp add: computePegInFee_def netOf_def baseFee_def Let_def)

section \<open>The transfer of the page is a peg-out of the watcher\<close>

text \<open>
  Cells read as slices of the library: a number with its width, an address, an amount, a bit, a
  reference, the text to the end.
\<close>

fun fieldBits :: "TonField \<Rightarrow> nat" where
  "fieldBits (TUint v w) = w"
| "fieldBits (TBit b) = 1"
| "fieldBits TNoRef = 1"
| "fieldBits (TCoins n) = 4 + 8 * byteCount (nat n)"
| "fieldBits (TAddress a) = 267"
| "fieldBits (TString s) = 8 * length s"
| "fieldBits _ = 0"

definition sliceError :: "'a result" where
  "sliceError = Inl (GenericError ''Not enough bits'')"

definition cellReader :: "ton_cell SliceReader" where
  "cellReader =
     \<lparr>sl_remainingBits = (\<lambda>c. sum_list (map fieldBits c)),
      sl_loadUint = (\<lambda>w c. case c of TUint v w' # r \<Rightarrow> if w = w' then Inr (v, r) else sliceError | _ \<Rightarrow> sliceError),
      sl_loadCoins = (\<lambda>c. case c of TCoins n # r \<Rightarrow> Inr (nat n, r) | _ \<Rightarrow> sliceError),
      sl_loadAddress = (\<lambda>c. case c of TAddress a # r \<Rightarrow> Inr (a, r) | _ \<Rightarrow> sliceError),
      sl_loadMaybeAddress = (\<lambda>c. case c of TAddress a # r \<Rightarrow> Inr (Some a, r) | _ \<Rightarrow> sliceError),
      sl_loadBit = (\<lambda>c. case c of TBit b # r \<Rightarrow> Inr (b, r) | _ \<Rightarrow> sliceError),
      sl_loadRef = (\<lambda>c. case c of TRef d # r \<Rightarrow> Inr (d, r) | _ \<Rightarrow> sliceError),
      sl_loadStringTail = (\<lambda>c. case c of [TString s] \<Rightarrow> Inr s | [] \<Rightarrow> Inr [] | _ \<Rightarrow> sliceError)\<rparr>"

lemma cellReader_simps [simp]:
  "sl_remainingBits cellReader c = sum_list (map fieldBits c)"
  "sl_loadUint cellReader w (TUint v w # r) = Inr (v, r)"
  "sl_loadCoins cellReader (TCoins n # r) = Inr (nat n, r)"
  "sl_loadAddress cellReader (TAddress a # r) = Inr (a, r)"
  "sl_loadMaybeAddress cellReader (TAddress a # r) = Inr (Some a, r)"
  "sl_loadBit cellReader (TBit b # r) = Inr (b, r)"
  "sl_loadRef cellReader (TRef d # r) = Inr (d, r)"
  "sl_loadStringTail cellReader [TString s] = Inr s"
  by (simp_all add: cellReader_def)

text \<open>
  What the jetton standard makes of a transfer: the wallet of the receiver is told the amount, the
  sender and the answer address (\<open>internal_transfer\<close>), its owner the amount and the sender
  (\<open>transfer_notification\<close>); the payload is passed on as it is.
\<close>

definition internalTransfer :: "string \<Rightarrow> ton_cell \<Rightarrow> ton_cell" where
  "internalTransfer sender c = [TUint OP_INTERNAL_TRANSFER 32, c ! 1, c ! 2, TAddress sender, c ! 4, c ! 6] @ drop 7 c"

definition transferNotification :: "string \<Rightarrow> ton_cell \<Rightarrow> ton_cell" where
  "transferNotification sender c = [TUint OP_TRANSFER_NOTIFICATION 32, c ! 1, c ! 2, TAddress sender] @ drop 7 c"

lemma buildPegoutBody_Inr:
  assumes "buildPegoutBody parseAddress n dest resp fwd recipient = Inr body"
  shows "\<exists>d r. 0 \<le> n \<and> 0 \<le> fwd \<and> parseAddress dest = Inr d \<and> parseAddress resp = Inr r \<and>
    body = [TUint 0x0f8a7ea5 32, TUint 0 64, TCoins n, TAddress d, TAddress r, TBit False, TCoins fwd, TBit True,
      TRef [TUint 0 32, TString recipient]]"
  using assms by (auto simp: buildPegoutBody_def buildCommentCell_def storeUint_def storeCoins_def storeRef_def err_simps
      split: if_splits)

lemma app_pegout_parsed:
  assumes "buildPegoutBody parseAddress n dest resp fwd recipient = Inr body"
  shows "parseJettonDeposit cellReader (transferNotification sender body) =
      Inr (Some \<lparr>jd_amountBaseUnits = nat n, jd_sender = sender, jd_comment = recipient\<rparr>)"
    and "parseJettonDeposit cellReader (internalTransfer sender body) =
      Inr (Some \<lparr>jd_amountBaseUnits = nat n, jd_sender = sender, jd_comment = recipient\<rparr>)"
proof -
  obtain d r where b: "body = [TUint 0x0f8a7ea5 32, TUint 0 64, TCoins n, TAddress d, TAddress r, TBit False, TCoins fwd,
      TBit True, TRef [TUint 0 32, TString recipient]]"
    using buildPegoutBody_Inr [OF assms] by blast
  have c: "forwardComment cellReader [TUint 0 32, TString recipient] = Inr recipient"
    by (simp add: forwardComment_def)
  have t: "transferNotification sender body =
      [TUint OP_TRANSFER_NOTIFICATION 32, TUint 0 64, TCoins n, TAddress sender, TBit True, TRef [TUint 0 32, TString recipient]]"
    by (simp add: b transferNotification_def)
  have i: "internalTransfer sender body =
      [TUint OP_INTERNAL_TRANSFER 32, TUint 0 64, TCoins n, TAddress sender, TAddress r, TCoins fwd, TBit True,
       TRef [TUint 0 32, TString recipient]]"
    by (simp add: b internalTransfer_def)
  have ops: "OP_TRANSFER_NOTIFICATION \<noteq> OP_INTERNAL_TRANSFER"
    by (simp add: OP_TRANSFER_NOTIFICATION_def OP_INTERNAL_TRANSFER_def)
  show "parseJettonDeposit cellReader (transferNotification sender body) =
      Inr (Some \<lparr>jd_amountBaseUnits = nat n, jd_sender = sender, jd_comment = recipient\<rparr>)"
    unfolding t parseJettonDeposit_def by (simp add: c ops)
  show "parseJettonDeposit cellReader (internalTransfer sender body) =
      Inr (Some \<lparr>jd_amountBaseUnits = nat n, jd_sender = sender, jd_comment = recipient\<rparr>)"
    unfolding i parseJettonDeposit_def using ops by (simp add: c)
qed

text \<open>The burn the watcher then reports: the amount entered, to the account entered.\<close>

lemma app_pegout_burn:
  assumes "buildPegoutBody parseAddress n dest resp fwd recipient = Inr body" "tt_body tx = Some (internalTransfer sender body)"
    "tt_now tx \<le> cutoff" "txComputeSucceeded tx"
  shows "burnFromTx cellReader cutoff tx h = Inr (Some \<lparr>burn_chain = GRAM, burn_sourceId = tt_hash tx, burn_height = h,
    burn_from = sender, burn_amountMilliViz = n, burn_homeDestination = trim recipient\<rparr>)"
proof -
  have "0 \<le> n" using buildPegoutBody_Inr [OF assms(1)] by blast
  then show ?thesis using assms(2-4) app_pegout_parsed(2) [OF assms(1)] by (simp add: burnFromTx_def)
qed

section \<open>Amounts\<close>

lemma bigintOfString_digits: "allDigits s \<Longrightarrow> bigintOfString s = Inr (int (undec s))"
  by (simp add: bigintOfString_def bigintOf_allDigits)

text \<open>The amount the gateway would print for a number of base units is read back as it.\<close>

lemma amountParts_digits:
  assumes "allDigits a" "allDigits b"
  shows "amountParts (trim (a @ ''.'' @ b)) = Some (a, b)"
proof -
  have nd: "c \<notin> set s" if "allDigits s" "\<not> isDigit c" for c s
    using that by (auto simp: allDigits_def list_all_iff)
  have dot: "CHR ''.'' \<notin> set a" "CHR ''.'' \<notin> set b" using nd assms by (auto simp: isDigit_def)
  have "a \<noteq> []" "b \<noteq> []" "isDigit (hd a)" "isDigit (last b)" using assms by (auto simp: allDigits_def list_all_iff)
  then have "trim (a @ ''.'' @ b) = a @ ''.'' @ b" by (subst trim_id) (auto simp: isSpace_not_isDigit)
  then show ?thesis
    using splitOn_append [OF dot(1), of b] splitOn_fresh [OF dot(2)] assms by (simp add: amountParts_def)
qed

lemma amount_read_back:
  assumes "0 < n"
  shows "wvizToBaseUnits (decNat (n div 1000) @ ''.'' @ padStart3 (decNat (n mod 1000))) 3 = Inr (int n)"
proof -
  have p: "allDigits (padStart3 (decNat (n mod 1000)))" "length (padStart3 (decNat (n mod 1000))) = 3"
    "undec (padStart3 (decNat (n mod 1000))) = n mod 1000"
    using padStart3_digits [of "n mod 1000"] by simp_all
  then have "padStart3 (decNat (n mod 1000)) \<noteq> []" by auto
  moreover have "int (n div 1000) * 1000 + int (n mod 1000) = int n"
    using div_mult_mod_eq [of "int n" 1000] by (simp only: zdiv_int zmod_int of_nat_numeral)
  ultimately show ?thesis
    unfolding wvizToBaseUnits_def amountParts_digits [OF allDigits_decNat p(1)]
    using assms p by (simp add: Let_def bigintOfString_digits throwIf_def)
qed

section \<open>Addresses\<close>

lemma indexOf_bound: "indexOf s c = Some i \<Longrightarrow> i < length s"
  by (induction s arbitrary: i) (auto split: if_splits)

lemma b58Value_snoc:
  "b58Value (s @ [c]) = Some n \<longleftrightarrow>
     (\<exists>m i. b58Value s = Some m \<and> indexOf B58_ALPHABET c = Some i \<and> n = m * 58 + i)"
  by (auto simp: b58Value_def split: option.splits)

lemma B58_ALPHABET_length: "length B58_ALPHABET = 58"
  by (simp add: B58_ALPHABET_def)

lemma b58Value_less: "b58Value s = Some n \<Longrightarrow> n < 58 ^ length s"
proof (induction s arbitrary: n rule: rev_induct)
  case (snoc c s)
  then obtain m i where m: "b58Value s = Some m" "indexOf B58_ALPHABET c = Some i" "n = m * 58 + i"
    by (auto simp: b58Value_snoc)
  have "m + 1 \<le> 58 ^ length s" using snoc.IH [OF m(1)] by simp
  moreover have "i < 58" using indexOf_bound [OF m(2)] by (simp add: B58_ALPHABET_length)
  ultimately show ?case using m(3) by (simp add: algebra_simps)
qed (simp add: b58Value_def)

lemma b58Value_chars: "b58Value s = Some n \<Longrightarrow> c \<in> set s \<Longrightarrow> indexOf B58_ALPHABET c \<noteq> None"
  by (induction s arbitrary: n rule: rev_induct) (auto simp: b58Value_snoc)

lemma alphabet_isBase58: "c \<in> set B58_ALPHABET \<Longrightarrow> isBase58 c"
  by (simp add: B58_ALPHABET_def, elim disjE) (simp_all add: isBase58_def charIn_def)

lemma byteCount_bounds: "n < 256 ^ byteCount n" "0 < n \<Longrightarrow> 256 ^ (byteCount n - 1) \<le> n"
proof (induction n rule: byteCount.induct)
  case (1 m)
  show "m < 256 ^ byteCount m"
  proof (cases "m = 0")
    case False
    have "m div 256 + 1 \<le> 256 ^ byteCount (m div 256)" using 1(1) [OF False] by simp
    moreover have "m = 256 * (m div 256) + m mod 256" by simp
    moreover have "m mod 256 < 256" by simp
    ultimately have "m < 256 * 256 ^ byteCount (m div 256)" by linarith
    with False show ?thesis by (subst byteCount.simps) simp
  qed (simp add: byteCount.simps)
  show "256 ^ (byteCount m - 1) \<le> m" if "0 < m"
  proof (cases "m div 256 = 0")
    case True
    then have "byteCount m = 1" using that by (subst byteCount.simps) (simp add: byteCount.simps [of 0])
    with that show ?thesis by simp
  next
    case False
    define k where "k = byteCount (m div 256)"
    have pos: "0 < m div 256" using False by linarith
    have k: "byteCount m = Suc k" "k \<noteq> 0" using that
      by (subst byteCount.simps, simp add: k_def) (subst k_def, subst byteCount.simps, use pos in simp)
    have "256 ^ (k - 1) \<le> m div 256" using 1(2) that pos by (simp add: k_def)
    then have "256 * 256 ^ (k - 1) \<le> 256 * (m div 256)" by simp
    also have "\<dots> \<le> m" by simp
    finally show ?thesis using k by (cases k) simp_all
  qed
qed

lemma byteCount_le: "n < 256 ^ k \<Longrightarrow> byteCount n \<le> k"
proof (rule ccontr)
  assume a: "n < 256 ^ k" "\<not> byteCount n \<le> k"
  moreover have "byteCount 0 = 0" by (simp add: byteCount.simps)
  ultimately have "n \<noteq> 0" by (metis le0)
  then have "256 ^ (byteCount n - 1) \<le> n" using byteCount_bounds(2) by simp
  moreover from a(2) have "(256 :: nat) ^ k \<le> 256 ^ (byteCount n - 1)" by (intro power_increasing) auto
  ultimately show False using a(1) by linarith
qed

text \<open>
  An address the page accepts is one the gateway accepts: 32 bytes take between 32 and 44 characters.
\<close>

lemma leading_ones:
  assumes "b58Value (replicate k (CHR ''1'') @ t) = Some n"
  shows "b58Value t = Some n"
proof -
  have one: "indexOf B58_ALPHABET (CHR ''1'') = Some 0" by (simp add: B58_ALPHABET_def)
  have "foldl f (Some 0) (replicate k (CHR ''1'') @ t) = foldl f (Some 0) t"
    if "f (Some 0) (CHR ''1'') = Some 0" for f :: "nat option \<Rightarrow> char \<Rightarrow> nat option"
    by (induction k) (simp_all add: that)
  with assms one show ?thesis by (simp add: b58Value_def)
qed

lemma b58Value_lower:
  assumes "b58Value (c # t) = Some n" "c \<noteq> CHR ''1''"
  shows "58 ^ length t \<le> n"
  using assms(1)
proof (induction t arbitrary: n rule: rev_induct)
  case Nil
  then obtain i where i: "indexOf B58_ALPHABET c = Some i" "n = i"
    by (auto simp: b58Value_def split: option.splits)
  have "i \<noteq> 0" using i(1) assms(2) by (auto simp: B58_ALPHABET_def split: if_splits)
  with i show ?case by simp
next
  case (snoc d t)
  then obtain m i where m: "b58Value (c # t) = Some m" "n = m * 58 + i"
    using b58Value_snoc [of "c # t" d n] by auto
  with snoc.IH [OF m(1)] show ?case by simp
qed

lemma site_address_accepted:
  assumes "isValidSolanaAddress (Some a)"
  shows "SOLANA_ADDR_RE (trim a)"
proof -
  define s where "s = trim a"
  define k where "k = length (takeWhile (\<lambda>c. c = CHR ''1'') s)"
  define t where "t = dropWhile (\<lambda>c. c = CHR ''1'') s"
  have d: "base58DecodedLength s = 32" using assms by (simp add: isValidSolanaAddress_def s_def)
  obtain n where n: "b58Value s = Some n" "byteCount n + k = 32"
  proof (cases "b58Value s")
    case None
    with d show ?thesis by (simp add: base58DecodedLength_def split: if_splits)
  next
    case (Some n)
    from d have "int (byteCount n + k) = 32"
      unfolding base58DecodedLength_def Some option.case k_def by (simp only: split: if_splits)
    then have "byteCount n + k = 32" by linarith
    with Some that show ?thesis by blast
  qed
  have tw: "takeWhile (\<lambda>c. c = CHR ''1'') s = replicate k (CHR ''1'')"
    unfolding k_def by (rule replicate_eqI) (auto dest: set_takeWhileD)
  have s: "s = replicate k (CHR ''1'') @ t" by (metis takeWhile_dropWhile_id t_def tw)
  have vt: "b58Value t = Some n" using leading_ones n(1) s by metis
  have "n < 256 ^ length t"
  proof -
    have "n < 58 ^ length t" by (rule b58Value_less [OF vt])
    also have "\<dots> \<le> 256 ^ length t" by (rule power_mono) auto
    finally show ?thesis .
  qed
  then have lo: "32 \<le> length s" using byteCount_le [of n "length t"] n(2) s by simp
  have hi: "length s \<le> 44"
  proof (rule ccontr)
    assume a: "\<not> length s \<le> 44"
    then have l: "44 - k \<le> length t - 1" "t \<noteq> []" "k \<le> 32" using s n(2) by auto
    then obtain c u where t: "t = c # u" by (cases t) auto
    have "c \<noteq> CHR ''1''" using t hd_dropWhile [of "\<lambda>c. c = CHR ''1''" s] t_def by auto
    then have "58 ^ length u \<le> n" using b58Value_lower vt t by blast
    also have "n < 256 ^ byteCount n" by (rule byteCount_bounds(1))
    finally have up: "58 ^ length u < (256 :: nat) ^ (32 - k)" using n(2) by (metis add_diff_cancel_right')
    have "(58 :: nat) ^ (44 - k) \<le> 58 ^ length u" using l(1) t by (intro power_increasing) auto
    with up have "58 ^ (44 - k) < (256 :: nat) ^ (32 - k)" by linarith
    then have "58 ^ (44 - k) * 58 ^ k < (256 :: nat) ^ (32 - k) * 58 ^ k" by simp
    also have "\<dots> \<le> 256 ^ (32 - k) * 256 ^ k" by (intro mult_left_mono power_mono) auto
    finally have "(58 :: nat) ^ 44 < 256 ^ 32" using l(3) by (simp flip: power_add)
    then show False by simp
  qed
  have "list_all isBase58 s"
  proof -
    have "c \<in> set B58_ALPHABET" if "c \<in> set s" for c
      using b58Value_chars [OF n(1) that] by (simp add: indexOf_None_iff)
    then show ?thesis using alphabet_isBase58 by (simp add: list_all_iff)
  qed
  with lo hi show ?thesis by (simp add: SOLANA_ADDR_RE_def s_def)
qed

text \<open>A name the page accepts passes the format of the lookup, which adds the limit of 16 bytes.\<close>

lemma label_chars: "accountLabel l \<Longrightarrow> list_all isAccountChar l"
  by (cases l) (auto simp: accountLabel_def isAccountChar_def list_all_iff)

lemma splitOn_chars: "list_all (\<lambda>w. list_all P w) (splitOn c s) \<Longrightarrow> P c \<Longrightarrow> list_all P s"
proof (induction s)
  case (Cons x s)
  then show ?case by (cases "splitOn c s") (auto split: if_splits)
qed simp

lemma site_account_accepted:
  assumes "isValidVizAccount name"
  shows "VIZ_ACCOUNT_RE (trim name)" "normalizeVizAccount (Some name) = Some (trim name)"
proof -
  let ?n = "trim name"
  have n: "2 \<le> length ?n" "length ?n \<le> 25" "list_all accountLabel (splitOn (CHR ''.'') ?n)"
    using assms by (auto simp: isValidVizAccount_def Let_def split: if_splits)
  have chars: "list_all isAccountChar ?n"
    by (rule splitOn_chars) (use n(3) label_chars in \<open>auto simp: list_all_iff isAccountChar_def\<close>)
  obtain c cs where c: "?n = c # cs" using n(1) by (cases ?n) auto
  have "accountLabel (hd (splitOn (CHR ''.'') ?n))" using n(3) by (simp add: list_all_iff)
  then have "charIn (CHR ''a'') (CHR ''z'') c"
    unfolding c by (cases "splitOn (CHR ''.'') cs") (auto simp: accountLabel_def split: if_splits)
  then show re: "VIZ_ACCOUNT_RE ?n" using n(1,2) chars c by simp
  have "toLowerCase ?n = ?n"
    using chars lowerChar_account by (simp add: toLowerCase_def list_all_iff map_idI)
  with re show "normalizeVizAccount (Some name) = Some ?n" by (simp add: normalizeVizAccount_def)
qed

text \<open>But the page accepts names the lookup refuses, which can be burned to only on the other chain.\<close>

lemma long_account_only_on_page:
  "isValidVizAccount ''abcdefghijklmnopq'' \<and> MAX_VIZ_ACCOUNT_BYTES < length ''abcdefghijklmnopq''"
  by (simp add: isValidVizAccount_def trim_def isSpace_def accountLabel_def charIn_def MAX_VIZ_ACCOUNT_BYTES_def endsWith_def)

section \<open>The backing card\<close>

text \<open>The card shows a chain exactly as its snapshot was served, and never one without a snapshot.\<close>

lemma parse_snapshotVal:
  assumes "map_of m chain = Some (snapshotVal snap)"
  shows "parseReconPayload (VObj [(''ok'', VBool True), (''paused'', VBool p), (''chains'', VObj m)]) chain =
    Some \<lparr>rx_locked = of_int (rs_lockedMilliViz snap), rx_circulating = of_int (rs_circulatingMilliViz snap),
      rx_unswept = of_int (rs_unsweptFeesMilliViz snap), rx_drift = of_int (rs_driftMilliViz snap),
      rx_status = reconStatus (rs_ok snap), rx_checkedAt = of_int (rs_checkedAt snap), rx_paused = p\<rparr>"
  using assms by (simp add: parseReconPayload_def snapshotVal_def numInt_def reconStatus_def)

lemma card_shows_snapshot:
  assumes "reconRoute parse allowed origin gram sol (Inr s) = JsonReply status hs body"
    "parseReconPayload body chain = Some shown"
  shows "\<exists>kv snap. (chain, kv) \<in> set (map (\<lambda>c. (c, sql_getState s (reconSnapshotKey c))) (CoordHttp.reconChains gram sol)) \<and>
    parseReconSnapshot parse kv = Some snap \<and> rx_locked shown = of_int (rs_lockedMilliViz snap) \<and>
    rx_circulating shown = of_int (rs_circulatingMilliViz snap) \<and> rx_unswept shown = of_int (rs_unsweptFeesMilliViz snap) \<and>
    rx_status shown = reconStatus (rs_ok snap) \<and> rx_checkedAt shown = of_int (rs_checkedAt snap) \<and>
    rx_paused shown = sql_isPaused s"
proof -
  let ?es = "map (\<lambda>c. (c, sql_getState s (reconSnapshotKey c))) (CoordHttp.reconChains gram sol)"
  let ?m = "serializeReconSnapshots parse ?es"
  have body: "body = VObj [(''ok'', VBool True), (''paused'', VBool (sql_isPaused s)), (''chains'', VObj ?m)]"
    using assms(1) by (simp add: reconRoute_def)
  obtain v where v: "map_of ?m chain = Some v"
    using assms(2) unfolding body by (auto simp: parseReconPayload_def split: option.splits)
  from recon_rows_from_snapshots [OF map_of_SomeD [OF v]] obtain kv snap where
    k: "(chain, kv) \<in> set ?es" "parseReconSnapshot parse kv = Some snap" "v = snapshotVal snap" by blast
  have "shown = \<lparr>rx_locked = of_int (rs_lockedMilliViz snap), rx_circulating = of_int (rs_circulatingMilliViz snap),
      rx_unswept = of_int (rs_unsweptFeesMilliViz snap), rx_drift = of_int (rs_driftMilliViz snap),
      rx_status = reconStatus (rs_ok snap), rx_checkedAt = of_int (rs_checkedAt snap), rx_paused = sql_isPaused s\<rparr>"
    using assms(2) parse_snapshotVal [of ?m chain snap "sql_isPaused s"] v k(3) unfolding body by simp
  with k show ?thesis by auto
qed

text \<open>What is no answer of the coordinator gives no card.\<close>

lemma error_body_no_card:
  "parseReconPayload (VObj [(''ok'', VBool False), (''error'', e)]) chain = None" "parseReconPayload VNull chain = None"
  by (simp_all add: parseReconPayload_def)

lemma circulating_never_negative: "0 \<le> computeCirculating t h" "h \<le> t \<Longrightarrow> computeCirculating t h = t - h"
  by (auto simp: computeCirculating_def)

end
