(* ===== verification/Spec2Isabelle.thy ===== *)
theory Spec2Isabelle
  imports StoreMemory Accounts GramApprove Registry SourceHints PegoutScanner SolanaWatcher Dispatcher KeyedSigner VizWatcher GramWatcher Recon Config RotationChains CoordHttp Services AccountSetup MintDeploy StaffAlert TonDeploy BridgeApp
begin

text \<open>
  A model of viz-gateway.
\<close>

section \<open>From a source event to an accepted action\<close>

text \<open>
  What the dispatcher submits for a row of the VIZ watcher: the row itself, or a child it planned.
\<close>

definition submittedFor :: "TickOpts \<Rightarrow> OutboxRecord \<Rightarrow> CanonicalAction \<Rightarrow> bool" where
  "submittedFor opts r a \<longleftrightarrow> a = recordToAction r \<or>
     (\<exists>status now. \<exists>c \<in> set (childrenFor opts r status). a = recordToAction (recordOf c now))"

text \<open>An operator whose node and configuration agree with the dispatcher's on this deposit.\<close>

definition agreesOn :: "SourceValidatorDeps \<Rightarrow> TickOpts \<Rightarrow> SourceHint option \<Rightarrow> VizDeposit \<Rightarrow> bool" where
  "agreesOn deps opts h d \<longleftrightarrow> sv_fees deps = to_fees opts \<and> sv_feesGateAccount deps = to_feesGateAccount opts \<and>
     fc_refundFeeMilliViz (to_fees opts) = to_refundFeeMilliViz opts \<and>
     sv_getDeposit deps (dep_trxId d) (dep_opIndex d) (hintBlock h) = Inr (Some d) \<and>
     dep_trxId d \<noteq> [] \<and> CHR '':'' \<notin> set (dep_trxId d)"

lemma deposit_child:
  assumes "depositRow sha d r" "ob_id r = depositKey d" "c \<in> set (childrenFor opts r status)"
  shows "(dep_amountMilliViz d > to_refundFeeMilliViz opts \<and>
      recordToAction (recordOf c now) = (refundOf sha (to_fees opts) d PEG_OUT)
        \<lparr>act_amountMilliViz := dep_amountMilliViz d - to_refundFeeMilliViz opts\<rparr>) \<or>
    recordToAction (recordOf c now) = feeSweepOf sha (to_fees opts) (to_feesGateAccount opts) d PEG_OUT"
  using assms refundAmount_pos [of "dep_amountMilliViz d" "to_refundFeeMilliViz opts"]
    refundAmount_exact [of "to_refundFeeMilliViz opts" "dep_amountMilliViz d"]
  by (auto simp: childrenFor_def planChildren_def depositRow_def childOf_def recordToAction_def refundOf_def
      feeSweepOf_def sweepAmount_def depositKey_def REFUND_SUFFIX_def FEE_SWEEP_SUFFIX_def Let_def
      split: if_splits)

text \<open>
  The pipeline agrees with its own checks on a deposit: whatever the dispatcher submits for a
  row the VIZ watcher made - the mint, if the destination is valid, the fee sweep or the refund - is
  accepted by every signer whose own node serves the deposit and whose fee table is the same.
\<close>

lemma deposit_actions_accepted:
  assumes "depositRow sha d r" "ob_id r = depositKey d" "agreesOn deps opts h d" "submittedFor opts r a"
    "a = recordToAction r \<longrightarrow> dep_destinationValid d"
  shows "validateAction sha deps a h = Inr ()"
proof -
  note ag = assms(3) [unfolded agreesOn_def]
  show ?thesis
  proof (cases "a = recordToAction r")
    case True
    have "a = canonicalPegIn sha d"
      using assms(1,2) True
      by (cases "canonicalPegIn sha d") (simp add: recordToAction_def depositRow_def depositKey_def canonicalPegIn_def)
    then show ?thesis using ag True assms(5) honest_mint_accepted by simp
  next
    case False
    then obtain status now c where c: "c \<in> set (childrenFor opts r status)" "a = recordToAction (recordOf c now)"
      using assms(4) by (auto simp: submittedFor_def)
    from deposit_child [OF assms(1,2) c(1), of now] show ?thesis
    proof
      assume *: "dep_amountMilliViz d > to_refundFeeMilliViz opts \<and> recordToAction (recordOf c now) =
        (refundOf sha (to_fees opts) d PEG_OUT)\<lparr>act_amountMilliViz := dep_amountMilliViz d - to_refundFeeMilliViz opts\<rparr>"
      then have "a = refundOf sha (sv_fees deps) d PEG_OUT" using ag c(2) by (simp add: refundOf_def)
      then show ?thesis using honest_refund_accepted [of deps d h PEG_OUT sha] ag * by simp
    next
      assume "recordToAction (recordOf c now) = feeSweepOf sha (to_fees opts) (to_feesGateAccount opts) d PEG_OUT"
      then have "a = feeSweepOf sha (sv_fees deps) (sv_feesGateAccount deps) d PEG_OUT" using ag c(2) by simp
      then show ?thesis using honest_feeSweep_accepted [of deps d h PEG_OUT sha] ag by simp
    qed
  qed
qed

definition agreeing_opts :: TickOpts where
  "agreeing_opts = opts_example\<lparr>to_fees := fees_example, to_feesGateAccount := ''fees.gate'', to_refundFeeMilliViz := 100\<rparr>"

definition mintable_row :: OutboxRecord where
  "mintable_row = recordOf (pegInInput hash_example mintable_example QUEUED None) 5"

lemma mintable_row_facts:
  "depositRow hash_example mintable_example mintable_row" "ob_id mintable_row = depositKey mintable_example"
  "agreesOn deps_example agreeing_opts None mintable_example"
  by (simp_all add: depositRow_def mintable_row_def agreesOn_def agreeing_opts_def deposit_key_example deps_example_def
      fees_example_def mintable_simps) (simp add: recordOf_def)

text \<open>
  C18. Two boxes with the same federation manifest never disagree on a deposit, whatever their own
  environments say. If the dispatcher runs on one configuration and a signer on another that was
  loaded from the same manifest with pinned fees and uses the same fee account, then the signer
  computes with the same fee table, and the source check of the keyed signer it builds accepts
  whatever that dispatcher submits for a row of the VIZ watcher - the mint, if the destination is
  valid, the fee sweep or the refund - as soon as its own node serves the deposit.
\<close>

theorem configured_boxes_agree:
  assumes "loadConfig C\<^sub>1 m\<^sub>1 = Inr c\<^sub>1" "loadConfig C\<^sub>2 m\<^sub>2 = Inr c\<^sub>2"
    "gc_federation c\<^sub>1 = gc_federation c\<^sub>2" "fm_fees (gc_federation c\<^sub>1) \<noteq> None"
    "gc_feesGateAccount c\<^sub>1 = gc_feesGateAccount c\<^sub>2" "feeConfigOf (gc_fees c\<^sub>1) = Some fees"
    "depositRow (sy_sha sy) d r" "ob_id r = depositKey d" "submittedFor (dispatcherOpts c\<^sub>1 fees) r a"
    "a = recordToAction r \<longrightarrow> dep_destinationValid d"
    "nr_getDeposit rd (dep_trxId d) (dep_opIndex d) (hintBlock h) = Inr (Some d)"
    "dep_trxId d \<noteq> []" "CHR '':'' \<notin> set (dep_trxId d)"
  shows "feeConfigOf (gc_fees c\<^sub>2) = Some fees \<and>
    assertSource (keyedSignerFor sy c\<^sub>2 fees rd boot approver) a h = Inr ()"
proof -
  note same = pinned_fees_agree [OF assms(1-4)]
  have "agreesOn (validatorDepsFor c\<^sub>2 fees rd) (dispatcherOpts c\<^sub>1 fees) h d"
    using assms(5,11-13) feeConfigOf_refund [OF assms(6)]
    by (simp add: agreesOn_def validatorDepsFor_def dispatcherOpts_def)
  from deposit_actions_accepted [OF assms(7,8) this assms(9,10)] show ?thesis
    using assms(6) same by (simp add: assertSource_def keyedSignerFor_def)
qed

definition readers_example :: SignerReaders where
  "readers_example = \<lparr>nr_getDeposit = sv_getDeposit deps_example, nr_accountExists = (\<lambda>_. Inr False),
     nr_getDepositTransfer = (\<lambda>_ _. Inr None), nr_getBurn = (\<lambda>_. Inr None), nr_depositAta = (\<lambda>_ _ _. Inr [])\<rparr>"

definition signerCrypto_example :: SignerCrypto where
  "signerCrypto_example = \<lparr>sy_sha = hash_example, sy_bytes = (\<lambda>_. []), sy_signTx = (\<lambda>_ _. Inr []),
     sy_mintMessage = (\<lambda>_. Inr []), sy_member = id, sy_partialSign = (\<lambda>_ _. Inr [])\<rparr>"

lemma manifest_fees:
  assumes "loadConfig keyCrypto_example (machine_example E) = Inr c" "gc_federation c = manifest_federation"
  shows "\<exists>fees. feeConfigOf (gc_fees c) = Some fees \<and> fc_refundFeeMilliViz fees = 5000"
    and "lf_refundFeeMilliViz (gc_fees c) = 5000"
proof -
  obtain E' where "loadFees E' manifest_federation = Inr (gc_fees c)"
    using loadConfig_Inr [OF assms(1)] configFrom_parts(1,2) assms(2) by metis
  then have "lf_bps (gc_fees c) = DFin 20 \<and> lf_refundFeeMilliViz (gc_fees c) = 5000"
    by (auto simp: loadFees_def manifest_federation_def Let_def err_simps eq_commute [of _ "gc_fees c"])
  then show "\<exists>fees. feeConfigOf (gc_fees c) = Some fees \<and> fc_refundFeeMilliViz fees = 5000"
    "lf_refundFeeMilliViz (gc_fees c) = 5000"
    by (simp_all add: feeConfigOf_def)
qed

theorem configured_boxes_agree_witness:
  "\<exists>c\<^sub>1 c\<^sub>2 fees c. loadConfig keyCrypto_example (machine_example Map.empty) = Inr c\<^sub>1 \<and>
     loadConfig keyCrypto_example (machine_example [''FEE_BPS'' \<mapsto> ''99'']) = Inr c\<^sub>2 \<and>
     c \<in> set (childrenFor (dispatcherOpts c\<^sub>1 fees) mintable_row REFUNDING) \<and> feeConfigOf (gc_fees c\<^sub>2) = Some fees \<and>
     assertSource (keyedSignerFor signerCrypto_example c\<^sub>2 fees readers_example ([], \<lparr>ga_byChain = [], ga_byAccount = []\<rparr>) (None :: unit GramApprovalClient option))
       (recordToAction (recordOf c 9)) None = Inr ()"
proof -
  obtain c\<^sub>1 c\<^sub>2 where c: "loadConfig keyCrypto_example (machine_example Map.empty) = Inr c\<^sub>1"
    "gc_federation c\<^sub>1 = manifest_federation"
    "loadConfig keyCrypto_example (machine_example [''FEE_BPS'' \<mapsto> ''99'']) = Inr c\<^sub>2"
    "gc_federation c\<^sub>2 = manifest_federation"
    using loadConfig_example [of Map.empty] loadConfig_example [of "[''FEE_BPS'' \<mapsto> ''99'']"] by auto
  obtain fees where f: "feeConfigOf (gc_fees c\<^sub>1) = Some fees" using manifest_fees(1) [OF c(1,2)] by blast
  have gate: "gc_feesGateAccount c\<^sub>1 = gc_feesGateAccount c\<^sub>2"
    using feesGate_example [OF c(1,2)] feesGate_example [OF c(3,4)] by simp
  let ?o = "dispatcherOpts c\<^sub>1 fees" and ?c = "childOf mintable_row '':refund'' O_REFUND ''alice'' 20000"
  have "to_refundFeeMilliViz ?o = 5000" using manifest_fees(2) [OF c(1,2)] by (simp add: dispatcherOpts_def)
  then have ch: "?c \<in> set (childrenFor ?o mintable_row REFUNDING)"
    by (simp add: childrenFor_def planChildren_def mintable_row_def refundAmount_def sweepAmount_def mintable_simps recordOf_def)
  then have sub: "submittedFor ?o mintable_row (recordToAction (recordOf ?c 9))" by (auto simp: submittedFor_def)
  have row: "depositRow (sy_sha signerCrypto_example) mintable_example mintable_row"
    using mintable_row_facts(1) by (simp add: signerCrypto_example_def)
  have read: "nr_getDeposit readers_example (dep_trxId mintable_example) (dep_opIndex mintable_example) (hintBlock None) =
      Inr (Some mintable_example)"
    using deposit_key_example(1) [of None] by (simp only: readers_example_def SignerReaders.simps)
  have fed: "gc_federation c\<^sub>1 = gc_federation c\<^sub>2" "fm_fees (gc_federation c\<^sub>1) \<noteq> None"
    using c by (simp_all add: manifest_federation_def)
  have no: "recordToAction (recordOf ?c 9) = recordToAction mintable_row \<longrightarrow> dep_destinationValid mintable_example"
    by (simp add: mintable_simps)
  note ok = configured_boxes_agree [OF c(1,3) fed gate f row mintable_row_facts(2) sub no read deposit_key_example(2,3)]
  show ?thesis using c(1,3) ch ok by blast
qed

text \<open>An operator whose TON node serves the burn the watcher saw, at whatever height.\<close>

definition servesBurn :: "SourceValidatorDeps \<Rightarrow> TickOpts \<Rightarrow> (string \<Rightarrow> bool) \<Rightarrow> RemoteBurn \<Rightarrow> bool" where
  "servesBurn deps opts ex b \<longleftrightarrow> sv_fees deps = to_fees opts \<and>
     fc_refundFeeMilliViz (to_fees opts) = to_refundFeeMilliViz opts \<and>
     (\<exists>h. sv_getBurn deps (burn_sourceId b) = Inr (Some (b\<lparr>burn_height := h\<rparr>))) \<and>
     sv_accountExists deps = (\<lambda>n. Inr (ex n)) \<and> looksLikeTonTxHash (burn_sourceId b)"

lemma hash_no_suffix:
  assumes "looksLikeTonTxHash k"
  shows "\<not> endsWith k FEE_SWEEP_SUFFIX" "\<not> endsWith k REFUND_SUFFIX" "\<not> endsWith k RETURN_SUFFIX"
    "\<not> looksLikeSolanaSignature k"
proof -
  have "CHR '':'' \<notin> set k"
  proof
    assume "CHR '':'' \<in> set k"
    then have "isHexDigit (CHR '':'')" using assms by (auto simp: looksLikeTonTxHash_def list_all_iff)
    then show False by (simp add: isHexDigit_def charIn_def)
  qed
  then show "\<not> endsWith k FEE_SWEEP_SUFFIX" "\<not> endsWith k REFUND_SUFFIX" "\<not> endsWith k RETURN_SUFFIX"
    by (auto simp: endsWith_iff FEE_SWEEP_SUFFIX_def REFUND_SUFFIX_def RETURN_SUFFIX_def)
  show "\<not> looksLikeSolanaSignature k" using assms by (simp add: looksLikeTonTxHash_def looksLikeSolanaSignature_def)
qed

text \<open>
  C19. The pipeline agrees with its own checks on a peg-out: for a row the TON watcher made, every
  signer whose own nodes serve the burn and the account lookup accepts the release if the VIZ account
  exists, and the return of the wVIZ if it does not and the burn exceeds the refund fee.
\<close>

theorem burn_actions_accepted:
  assumes "burnRow sha ex b r" "ob_id r = burn_sourceId b" "servesBurn deps opts ex b" "burn_from b \<noteq> []"
  shows "(ex (burn_homeDestination b) \<longrightarrow> validateAction sha deps (recordToAction r) h = Inr ()) \<and>
    (\<not> ex (burn_homeDestination b) \<and> to_refundFeeMilliViz opts < burn_amountMilliViz b \<longrightarrow>
      (\<exists>c. childrenFor opts r REFUNDING = [c] \<and> validateAction sha deps (recordToAction (recordOf c now)) h = Inr ()))"
proof (intro conjI impI)
  note sv = assms(3) [unfolded servesBurn_def]
  obtain ht where burn: "sv_getBurn deps (burn_sourceId b) = Inr (Some (b\<lparr>burn_height := ht\<rparr>))" using sv by blast
  note suf = hash_no_suffix [of "burn_sourceId b"]
  have hash: "looksLikeTonTxHash (burn_sourceId b)" using sv by blast
  show "validateAction sha deps (recordToAction r) h = Inr ()"
  proof -
    have a: "recordToAction r = canonicalPegOut sha b"
      using assms(1,2) by (cases "canonicalPegOut sha b")
        (simp add: recordToAction_def burnRow_def canonicalPegOut_def)
    have "validateActionInner sha deps (canonicalPegOut sha b) h = validateTonPegOut sha deps (canonicalPegOut sha b)"
      using suf hash by (simp add: validateActionInner_def)
    then show ?thesis
      using burn by (simp add: a validateAction_ok validateTonPegOut_def assertSameAction_ok)
  qed
  assume n: "\<not> ex (burn_homeDestination b) \<and> to_refundFeeMilliViz opts < burn_amountMilliViz b"
  let ?c = "childOf r '':return'' O_GRAM_RETURN (burn_from b) (burn_amountMilliViz b - to_refundFeeMilliViz opts)"
  have c: "childrenFor opts r REFUNDING = [?c]"
    using assms(1,4) n refundAmount_pos [of "burn_amountMilliViz b" "to_refundFeeMilliViz opts"]
      refundAmount_exact [of "to_refundFeeMilliViz opts" "burn_amountMilliViz b"]
    by (simp add: childrenFor_def planChildren_def burnRow_def Let_def RETURN_INVALID_DEST_def)
  let ?a = "recordToAction (recordOf ?c now)"
  have a: "act_direction ?a = GRAM_RETURN" "act_id ?a = burn_sourceId b @ RETURN_SUFFIX"
    "act_remoteChain ?a = Some (burn_chain b)" "act_recipient ?a = burn_from b"
    "act_amountMilliViz ?a = burn_amountMilliViz b - to_refundFeeMilliViz opts"
    "act_digest ?a = act_digest (canonicalPegOut sha b) @ RETURN_SUFFIX"
    using assms(1,2) by (simp_all add: recordToAction_def childOf_def burnRow_def RETURN_SUFFIX_def)
  have "sliceEnd (act_id ?a) (length RETURN_SUFFIX) = burn_sourceId b"
    unfolding a(2) by (simp add: sliceEnd_def)
  then have "validateGramReturn sha deps ?a = Inr ()"
    using hash burn sv n a by (simp add: validateGramReturn_def Let_def)
  moreover have "endsWith (act_id ?a) RETURN_SUFFIX" unfolding a(2) by (simp add: endsWith_iff)
  ultimately have "validateAction sha deps ?a h = Inr ()"
    using inner_return [of ?a] a(1) by (simp add: validateAction_ok)
  with c show "\<exists>c. childrenFor opts r REFUNDING = [c] \<and> validateAction sha deps (recordToAction (recordOf c now)) h = Inr ()"
    by blast
qed

definition burn_row_example :: OutboxRecord where
  "burn_row_example = (recordOf (pegOutInput hash_example burn_example) 5)
     \<lparr>ob_status := HELD, ob_lastError := Some ''RETURN_INVALID_DEST''\<rparr>"

theorem burn_actions_accepted_witness:
  "\<exists>c. childrenFor agreeing_opts burn_row_example REFUNDING = [c] \<and>
     validateAction hash_example deps_example (recordToAction (recordOf c 9)) None = Inr ()"
proof -
  let ?ex = "\<lambda>n. n = ''alice''"
  have b: "burn_from burn_example \<noteq> []" "\<not> ?ex (burn_homeDestination burn_example)"
    "burn_sourceId burn_example = replicate 64 (CHR ''a'')" "burn_amountMilliViz burn_example = 7000"
    by (simp_all add: burn_example_def)
  have "burnRow hash_example ?ex burn_example burn_row_example" "ob_id burn_row_example = burn_sourceId burn_example"
    using b(2) by (simp_all add: burnRow_def burn_row_example_def recordOf_def)
  moreover have "burn_example\<lparr>burn_height := 5\<rparr> = burn_example" by (simp add: burn_example_def)
  moreover have "looksLikeTonTxHash (replicate 64 (CHR ''a''))" by code_simp
  ultimately have "servesBurn deps_example agreeing_opts ?ex burn_example"
    unfolding servesBurn_def b(3)
    by (intro conjI exI [of _ 5]) (simp_all add: deps_example_def agreeing_opts_def fees_example_def)
  moreover have "to_refundFeeMilliViz agreeing_opts < burn_amountMilliViz burn_example"
    by (simp add: b(4) agreeing_opts_def)
  ultimately show ?thesis
    using burn_actions_accepted [of hash_example ?ex burn_example burn_row_example deps_example agreeing_opts None 9] b
      \<open>burnRow _ _ _ _\<close> \<open>ob_id _ = _\<close> by blast
qed

section \<open>From a Solana deposit to an accepted release\<close>

text \<open>An operator whose Solana node and configuration agree with the scanner's on this deposit account.\<close>

definition agreesOnTransfer ::
  "SourceValidatorDeps \<Rightarrow> PdaLib \<Rightarrow> SolanaConfig \<Rightarrow> SolReads \<Rightarrow> SolanaConfig \<Rightarrow> SolReads \<Rightarrow> nat \<Rightarrow> string \<Rightarrow> bool" where
  "agreesOnTransfer deps pl cfg rd cfg' rd' toSlot sig \<longleftrightarrow>
     sv_depositProgramId deps \<noteq> [] \<and> sv_wvizMint deps \<noteq> [] \<and> sv_depositAta deps = depositAta pl \<and>
     sv_getDepositTransfer deps = sol_getDepositTransfer cfg' rd' \<and>
     sr_transaction rd' sig = sr_transaction rd sig \<and> looksLikeSolanaSignature sig \<and>
     (sc_finalitySlots cfg' = 0 \<or> (\<exists>h. sr_finalizedSlot rd' = Inr h \<and>
        int toSlot - int (sc_finalitySlots cfg) \<le> int h - int (sc_finalitySlots cfg')))"

lemma base58_no_suffix:
  assumes "looksLikeSolanaSignature k"
  shows "\<not> endsWith k FEE_SWEEP_SUFFIX" "\<not> endsWith k REFUND_SUFFIX" "\<not> endsWith k RETURN_SUFFIX"
proof -
  have "\<not> isBase58 (CHR '':'')" by code_simp
  then have "CHR '':'' \<notin> set k" using assms by (auto simp: looksLikeSolanaSignature_def list_all_iff)
  then show "\<not> endsWith k FEE_SWEEP_SUFFIX" "\<not> endsWith k REFUND_SUFFIX" "\<not> endsWith k RETURN_SUFFIX"
    by (auto simp: endsWith_iff FEE_SWEEP_SUFFIX_def REFUND_SUFFIX_def RETURN_SUFFIX_def)
qed

text \<open>
  C31. A Solana deposit goes through: for a deposit address that was handed out by the lookup service
  and a transfer the scan of its account reports, what the dispatcher submits for the scanner's row
  is accepted by every signer that has the same program and mint configured, reads the same
  transaction and is as far as the scanner's safe slot - each derives the token account from the
  recipient alone.
\<close>

theorem solana_deposit_accepted:
  assumes "derivedDeposit pl (sv_depositProgramId deps) (sv_wvizMint deps) dep"
    "incomingTransfersTo cfg rd (da_wvizAta dep) toSlot = Inr out" "t \<in> set out"
    "sr_signatures rd (da_wvizAta dep) None (sc_maxSignatures cfg) = Inr sigs"
    "\<forall>s \<in> set sigs. \<forall>x. sr_transaction rd (ss_signature s) = Inr (Some x) \<longrightarrow> st_slot x = ss_slot s \<and> st_failed x = ss_failed s"
    "agreesOnTransfer deps pl cfg rd cfg' rd' toSlot (it_signature t)"
  shows "validateAction sha deps (recordToAction (recordOf (claimInput sha dep t) now)) hint = Inr ()"
proof -
  note ag = assms(6) [unfolded agreesOnTransfer_def]
  let ?a = "transferAction sha dep t"
  have a: "recordToAction (recordOf (claimInput sha dep t) now) = ?a"
    by (simp add: recordToAction_def recordOf_def claimInput_def transferAction_def canonicalPegOut_def)
  have "sol_getDepositTransfer cfg' rd' (it_signature t) (da_wvizAta dep) = Inr (Some (it_slot t, it_amountBaseUnits t))"
    using transfer_reread_agrees [OF assms(2-5)] ag by blast
  moreover have "depositAta pl (sv_depositProgramId deps) (da_vizAccount dep) (sv_wvizMint deps) = Inr (da_wvizAta dep)"
    using assms(1) by (simp add: derivedDeposit_def)
  ultimately have "validateSolanaPegOut sha deps ?a = Inr ()"
    using ag by (simp add: validateSolanaPegOut_def transferAction_def assertSameAction_def canonicalPegOut_def pegOutFields_def)
  then show ?thesis
    using ag base58_no_suffix [of "it_signature t"]
    by (simp add: a validateAction_def validateActionInner_def transferAction_def)
qed

definition sol_sig_example :: string where
  "sol_sig_example = replicate 88 (CHR ''1'')"

definition sol_serving_example :: SolReads where
  "sol_serving_example = sol_reads_example\<lparr>sr_signatures :=
     (\<lambda>a b n. Inr [\<lparr>ss_signature = sol_sig_example, ss_slot = 40, ss_failed = False\<rparr>])\<rparr>"

definition pda_node_example :: PdaLib where
  "pda_node_example = pda_example\<lparr>pl_ata := (\<lambda>m o'. Inr ''ata'')\<rparr>"

definition deposit_record_example :: DepositAddressRecord where
  "deposit_record_example = \<lparr>da_vizAccount = ''alice'', da_solAddress = ''depositaliceprog'', da_wvizAta = ''ata'',
     da_createdAt = 1, da_scanTime = 0, da_priority = 0\<rparr>"

definition sol_deps_example :: SourceValidatorDeps where
  "sol_deps_example = deps_example\<lparr>sv_depositAta := depositAta pda_node_example,
     sv_getDepositTransfer := sol_getDepositTransfer sol_config_example sol_serving_example\<rparr>"

theorem solana_deposit_accepted_witness:
  "\<exists>t. incomingTransfersTo sol_config_example sol_serving_example ''ata'' 50 = Inr [t] \<and>
     validateAction hash_example sol_deps_example (recordToAction (recordOf (claimInput hash_example deposit_record_example t) 7)) None = Inr ()"
proof -
  let ?t = "\<lparr>it_signature = sol_sig_example, it_slot = 40, it_amountBaseUnits = 900\<rparr>"
  let ?rd = sol_serving_example
  have re: "VIZ_ACCOUNT_RE ''alice''" by code_simp
  have dep: "derivedDeposit pda_node_example (sv_depositProgramId sol_deps_example) (sv_wvizMint sol_deps_example) deposit_record_example"
    by (simp add: derivedDeposit_def sol_deps_example_def deps_example_def depositAddress_def depositAta_def depositPubkey_def
        pda_node_example_def pda_example_def deposit_record_example_def DEPOSIT_SEED_def MAX_VIZ_ACCOUNT_BYTES_def re del: VIZ_ACCOUNT_RE.simps)
  have scan: "incomingTransfersTo sol_config_example ?rd (da_wvizAta deposit_record_example) 50 = Inr [?t]"
    by (simp add: incomingTransfersTo_def sol_serving_example_def sol_reads_example_def sol_config_example_def solanaConfig_def
        deposit_record_example_def parse_transfer_example)
  have sigs: "sr_signatures ?rd (da_wvizAta deposit_record_example) None (sc_maxSignatures sol_config_example) =
      Inr [\<lparr>ss_signature = sol_sig_example, ss_slot = 40, ss_failed = False\<rparr>]"
    by (simp add: sol_serving_example_def)
  have faithful: "\<forall>s \<in> set [\<lparr>ss_signature = sol_sig_example, ss_slot = 40, ss_failed = False\<rparr>].
      \<forall>x. sr_transaction ?rd (ss_signature s) = Inr (Some x) \<longrightarrow> st_slot x = ss_slot s \<and> st_failed x = ss_failed s"
    by (auto simp: sol_serving_example_def sol_reads_example_def)
  have "looksLikeSolanaSignature sol_sig_example"
  proof -
    have "isBase58 (CHR ''1'')" by code_simp
    then show ?thesis by (simp add: looksLikeSolanaSignature_def sol_sig_example_def list_all_iff)
  qed
  then have ag: "agreesOnTransfer sol_deps_example pda_node_example sol_config_example ?rd sol_config_example ?rd 50 (it_signature ?t)"
    by (simp add: agreesOnTransfer_def sol_deps_example_def deps_example_def sol_serving_example_def sol_reads_example_def)
  have "?t \<in> set [?t]" by simp
  from solana_deposit_accepted [OF dep scan this sigs faithful ag] scan show ?thesis
    by (auto simp: deposit_record_example_def)
qed

section \<open>From a submitted action to the chain\<close>

text \<open>
  What \<open>fetch\<close> returns for an endpoint is the work of this operator's \<open>/approve\<close> handler, in
  whatever state its process is in: a 200 reply with a body is an approval the handler gave.
\<close>

definition runsHandler :: "(string \<Rightarrow> string) \<Rightarrow> SourceValidatorDeps \<Rightarrow> 'x fetch \<Rightarrow> HttpSigner \<Rightarrow> bool" where
  "runsHandler sha svd fetch hs \<longleftrightarrow>
     (\<exists>lc deps (ks :: unit KeyedSigner). ks_validateSource ks = Some (validateAction sha svd) \<and>
        (\<forall>req ms x st body a. fst (fetch (approveUrl (hs_endpoint hs)) req ms x) = SignerReply st body (Inr a) \<longrightarrow>
           200 \<le> st \<and> st < 300 \<longrightarrow> (\<exists>s s'. approveHandler lc deps ks (Some req) s = (Approved a, s'))))"

definition relayedHint :: "SourceHint option \<Rightarrow> SourceHint option" where
  "relayedHint hint = (case hint of None \<Rightarrow> None
     | Some h \<Rightarrow> (case hint_sourceBlockNum h of None \<Rightarrow> None
        | Some n \<Rightarrow> if n > 0 then Some \<lparr>hint_sourceBlockNum = Some n\<rparr> else None))"

lemma hintFromRequest_approveBody: "hintFromRequest (approveBody action p hint) = relayedHint hint"
  by (simp add: hintFromRequest_def approveBody_def relayedHint_def split: option.split)

lemma honest_approval_validated:
  assumes "runsHandler sha svd fetch hs" "fst (httpApprove fetch hs action p hint x) = Inr a" "wellFormedAction action"
  shows "validateAction sha svd action (relayedHint hint) = Inr ()"
proof -
  obtain ms st body where f: "fst (fetch (approveUrl (hs_endpoint hs)) (approveBody action p hint) ms x) = SignerReply st body (Inr a)"
    "200 \<le> st" "st < 300"
    using assms(2)
    by (auto simp: httpApprove_def approveReply_def Let_def split: prod.splits FetchReply.splits if_splits)
      (metis fst_conv)+
  obtain lc deps and ks :: "unit KeyedSigner" and s s' where v: "ks_validateSource ks = Some (validateAction sha svd)"
    and h: "approveHandler lc deps ks (Some (approveBody action p hint)) s = (Approved a, s')"
    using assms(1) f unfolding runsHandler_def by meson
  obtain s1 w1 s1' w1' where sw: "s = (s1, w1)" "s' = (s1', w1')" by (metis prod.exhaust)
  have "aq_action (approveBody action p hint) = actionToWire action" by (simp add: approveBody_def)
  then obtain w' where "routeApproval ks action (aq_proposal (approveBody action p hint)) (relayedHint hint) w1 = (Inr a, w')"
    using approveHandler_ok [OF h [unfolded sw]] actionFromWire_actionToWire [OF assms(3)]
    by (auto simp: hintFromRequest_approveBody)
  then have "assertSource ks action (relayedHint hint) = Inr ()" by (rule routeApproval_source)
  with v show ?thesis by (simp add: assertSource_def)
qed

text \<open>
  C25. No money moves without an honest check. If fewer of the registered operators than the threshold
  are dishonest - whatever those answer, in whose name and with whatever signatures - then an action
  that the coordinator reports as newly broadcast was accepted by the source validation of an honest
  operator against its own nodes, as the very action the coordinator sent.
\<close>

theorem honest_check_behind_every_broadcast:
  assumes "fst (orchestrate thr operators (map (httpSignerClient fetch toJson) hss) bc pf action hint w) = Inr r"
    "or_broadcast r" "fst (bc_actionExecuted bc action w) = Inr (False, tx)" "wellFormedAction action"
    "\<forall>hs \<in> set hss. honest hs \<longrightarrow> runsHandler sha (svdOf hs) fetch hs"
    "length (filter (\<lambda>hs. \<not> honest hs) hss) < thr"
  shows "\<exists>hs \<in> set hss. honest hs \<and> validateAction sha (svdOf hs) action (relayedHint hint) = Inr ()"
proof -
  define sel where "sel = (\<lambda>hs. httpSignerClient fetch toJson hs)"
  define Q where "Q = (\<lambda>s. \<exists>hs \<in> set hss. s = sel hs \<and> honest hs)"
  have "length (filter (\<lambda>s. \<not> Q s) (map sel hss)) \<le> length (filter (\<lambda>hs. \<not> honest hs) hss)"
    unfolding filter_map length_map by (rule length_filter_mono) (auto simp: Q_def)
  then have few: "length (filter (\<lambda>s. \<not> Q s) (map (httpSignerClient fetch toJson) hss)) < thr"
    using assms(6) by (simp add: sel_def)
  have ne: "bc_actionExecuted bc action w \<noteq> (Inr (True, or_txid r), snd (bc_actionExecuted bc action w))"
    using assms(3) by (metis fst_conv prod.inject sum.inject(2))
  obtain s p w' a where s: "Q s" "fst (sc_approve s action p hint w') = Inr a"
    using orchestrate_willing [OF assms(1,2) ne few] by blast
  then obtain hs where hs: "hs \<in> set hss" "honest hs" "s = sel hs" by (auto simp: Q_def)
  then have "fst (httpApprove fetch hs action (toJson p) hint (cw_ext w')) = Inr a"
    using s(2) by (simp add: sel_def httpSignerClient_def split: prod.splits)
  from honest_approval_validated [OF _ this assms(4)] assms(5) hs show ?thesis by blast
qed

text \<open>
  One honest operator, whose process answers every request from its handler, and one that approves
  everything in its own name.
\<close>

definition fetch_example :: "unit fetch" where
  "fetch_example url req ms x =
     (if url = ''http://op1/approve''
      then (case fst (approveHandler crypto_example ledger_example keyed_example (Some req) (emptySqlite, ())) of
          Approved a \<Rightarrow> SignerReply 200 (Inr []) (Inr a)
        | Refused c m \<Rightarrow> SignerReply c (Inr m) (Inl (GenericError m)), x)
      else (SignerReply 200 (Inr []) (Inr \<lparr>apr_actionId = ''ab01:3:refund'', apr_operatorId = ''op2'', apr_signature = ''forged''\<rparr>), x))"

definition http_example :: "string \<Rightarrow> HttpSigner" where
  "http_example o' = \<lparr>hs_operatorId = o', hs_endpoint = ''http://'' @ o', hs_pegInTimeoutMs = 180000, hs_pegOutTimeoutMs = 30000\<rparr>"

definition release_broadcaster_example :: "(json_obj, unit CoordWorld) Broadcaster" where
  "release_broadcaster_example = \<lparr>bc_buildProposal = (\<lambda>a w. (Inr \<lparr>br_proposal = release_example ''x'', br_feeMilliViz = 0\<rparr>, w)),
     bc_broadcast = (\<lambda>a p sigs w. (Inr ''tx'', w)), bc_actionExecuted = (\<lambda>a w. (Inr (False, None), w))\<rparr>"

lemma http_example_approves:
  "httpApprove fetch_example (http_example ''op1'') refund_example (release_example ''x'') None x =
     (Inr (approvalOf keyed_example refund_example ''x''), x)"
  "httpApprove fetch_example (http_example ''op2'') refund_example q None x =
     (Inr \<lparr>apr_actionId = ''ab01:3:refund'', apr_operatorId = ''op2'', apr_signature = ''forged''\<rparr>, x)"
proof -
  have b: "approveBody refund_example p None = request_example p" for p
    by (simp add: approveBody_def request_example_def)
  have u: "approveUrl (hs_endpoint (http_example ''op1'')) = ''http://op1/approve''"
    "approveUrl (hs_endpoint (http_example ''op2'')) \<noteq> ''http://op1/approve''"
    by (simp_all add: approveUrl_def http_example_def endsWith_def)
  show "httpApprove fetch_example (http_example ''op1'') refund_example (release_example ''x'') None x =
     (Inr (approvalOf keyed_example refund_example ''x''), x)"
    by (simp add: httpApprove_def b u fetch_example_def approveReply_def
        handler_example [OF release_example_signed release_example_key])
  show "httpApprove fetch_example (http_example ''op2'') refund_example q None x =
     (Inr \<lparr>apr_actionId = ''ab01:3:refund'', apr_operatorId = ''op2'', apr_signature = ''forged''\<rparr>, x)"
    using u(2) by (simp add: httpApprove_def fetch_example_def approveReply_def)
qed

lemma http_example_honest: "runsHandler hash_example deps_example fetch_example (http_example ''op1'')"
proof -
  have u: "approveUrl (hs_endpoint (http_example ''op1'')) = ''http://op1/approve''"
    by (simp add: approveUrl_def http_example_def endsWith_def)
  have served: "\<exists>s'. approveHandler crypto_example ledger_example keyed_example (Some req) (emptySqlite, ()) = (Approved a, s')"
    if "fst (fetch_example (approveUrl (hs_endpoint (http_example ''op1''))) req ms x) = SignerReply st body (Inr a)"
    for req ms x st body a
    using that
    by (cases "approveHandler crypto_example ledger_example keyed_example (Some req) (emptySqlite, ())")
      (simp add: u fetch_example_def split: ApproveReply.splits)
  show ?thesis
    unfolding runsHandler_def
    by (rule exI [of _ crypto_example], rule exI [of _ ledger_example], rule exI [of _ keyed_example])
      (use served keyed_example_fields(1) in blast)
qed

lemma http_example_broadcast:
  "\<exists>r. fst (orchestrate 2 [''op1'', ''op2''] (map (httpSignerClient fetch_example (\<lambda>p. p)) [http_example ''op1'', http_example ''op2''])
      release_broadcaster_example None refund_example None w) = Inr r \<and> or_broadcast r"
proof -
  let ?t = "snd (as_add (approvalOf keyed_example refund_example ''x'') (newApprovalSet 2 [''op1'', ''op2'']))"
  let ?t2 = "snd (as_add \<lparr>apr_actionId = ''ab01:3:refund'', apr_operatorId = ''op2'', apr_signature = ''forged''\<rparr> ?t)"
  have ids: "apr_actionId (approvalOf keyed_example refund_example ''x'') = ''ab01:3:refund''"
    "apr_operatorId (approvalOf keyed_example refund_example ''x'') = ''op1''"
    by (simp_all add: approvalOf_def refund_example_fields keyed_example_fields)
  have n: "\<not> as_isMet ?t ''ab01:3:refund''" and m: "as_isMet ?t2 ''ab01:3:refund''"
    by (simp_all add: as_add_def as_isMet_def as_count_def approvalsOf_def newApprovalSet_def ids)
  have "collect refund_example (release_example ''x'') None
      (map (httpSignerClient fetch_example (\<lambda>p. p)) [http_example ''op1'', http_example ''op2'']) (newApprovalSet 2 [''op1'', ''op2'']) w = (?t2, w)"
    using n m by (simp add: httpSignerClient_def http_example_approves refund_example_fields Let_def)
  with m show ?thesis
    by (simp add: orchestrate_def release_broadcaster_example_def pinFee_def refund_example_fields Let_def del: collect.simps list.map)
qed

definition unit_world_example :: "unit CoordWorld" where
  "unit_world_example = \<lparr>cw_store = emptySqlite, cw_pinned = Map.empty, cw_tonIdx = 0, cw_ext = ()\<rparr>"

theorem honest_check_behind_every_broadcast_witness:
  "\<exists>r. fst (orchestrate 2 [''op1'', ''op2''] (map (httpSignerClient fetch_example (\<lambda>p. p)) [http_example ''op1'', http_example ''op2''])
      release_broadcaster_example None refund_example None unit_world_example) = Inr r \<and> or_broadcast r \<and>
    validateAction hash_example deps_example refund_example (relayedHint None) = Inr ()"
proof -
  obtain r where r: "fst (orchestrate 2 [''op1'', ''op2'']
      (map (httpSignerClient fetch_example (\<lambda>p. p)) [http_example ''op1'', http_example ''op2''])
      release_broadcaster_example None refund_example None unit_world_example) = Inr r" "or_broadcast r"
    using http_example_broadcast [of unit_world_example] by blast
  have x: "fst (bc_actionExecuted release_broadcaster_example refund_example unit_world_example) = Inr (False, None)"
    by (simp add: release_broadcaster_example_def)
  have wf: "wellFormedAction refund_example" by (simp add: wellFormedAction_def refund_example_fields)
  let ?honest = "\<lambda>hs. hs = http_example ''op1''"
  have ne: "http_example ''op2'' \<noteq> http_example ''op1''" by (simp add: http_example_def)
  have "\<forall>hs \<in> set [http_example ''op1'', http_example ''op2'']. ?honest hs \<longrightarrow> runsHandler hash_example deps_example fetch_example hs"
    using http_example_honest by simp
  from honest_check_behind_every_broadcast [OF r x wf this] r ne show ?thesis by auto
qed

end
